(* ===== verification/Prelude.thy ===== *)
theory Prelude
  imports Main "HOL-Library.Word" "HOL-Library.Multiset"
begin

text \<open>
  What every component of the model shares: the machine integers of the source, the
  standard-library operations of \<^verbatim>\<open>Vec\<close>, \<^verbatim>\<open>slice\<close> and \<^verbatim>\<open>Option\<close> the code calls, and the
  lemmas about them that the component proofs use as rewrite rules.

  \<^item> \<^verbatim>\<open>u64\<close> identifiers and counters are words, so that \<^verbatim>\<open>fetch_add\<close> wraps and \<^verbatim>\<open>saturating_add\<close>
    saturates as in the source.
  \<^item> \<^verbatim>\<open>i64\<close> ticks are \<open>int\<close>; an operation that may leave the 64-bit range is written with
    \<open>wrap_i64\<close>, the two's-complement wrap of a release build.
  \<^item> \<^verbatim>\<open>usize\<close> indices and lengths are \<open>nat\<close>. A \<^verbatim>\<open>Vec\<close> holds at most \<^verbatim>\<open>isize::MAX\<close> elements, so
    index arithmetic on lengths never reaches the bounds of \<^verbatim>\<open>usize\<close>.
  \<^item> \<^verbatim>\<open>String\<close> is \<open>string\<close>, the list of its UTF-8 bytes, so \<^verbatim>\<open>len\<close> is \<open>length\<close>.
\<close>

named_theorems rust_list \<open>the vector and slice operations as list equations\<close>

section \<open>Machine integers\<close>

type_synonym u64 = "64 word"
type_synonym u32 = "32 word"
type_synonym i64 = int
type_synonym usize = nat

abbreviation i64_max :: i64 where "i64_max \<equiv> 2 ^ 63 - 1"
abbreviation i64_min :: i64 where "i64_min \<equiv> - (2 ^ 63)"

definition is_i64 :: "int \<Rightarrow> bool" where
  "is_i64 x \<longleftrightarrow> i64_min \<le> x \<and> x \<le> i64_max"

text \<open>The value a 64-bit two's-complement register holds after computing \<open>x\<close>.\<close>

definition wrap_i64 :: "int \<Rightarrow> i64" where
  "wrap_i64 x = (x + 2 ^ 63) mod 2 ^ 64 - 2 ^ 63"

lemma wrap_i64_id [simp]: "is_i64 x \<Longrightarrow> wrap_i64 x = x"
  by (simp add: wrap_i64_def is_i64_def)

lemma is_i64_wrap [simp]: "is_i64 (wrap_i64 x)"
proof -
  have "0 \<le> (x + 2 ^ 63) mod 2 ^ 64" "(x + 2 ^ 63) mod 2 ^ 64 < (2 ^ 64 :: int)"
    by (rule pos_mod_sign, simp) (rule pos_mod_bound, simp)
  then show ?thesis by (simp add: wrap_i64_def is_i64_def)
qed

text \<open>\<^verbatim>\<open>u64::saturating_add(1)\<close>.\<close>

definition u64_sat_inc :: "u64 \<Rightarrow> u64" where
  "u64_sat_inc w = (if w = - 1 then w else w + 1)"

text \<open>\<^verbatim>\<open>i64::try_from(w).unwrap_or(i64::MAX)\<close>.\<close>

definition i64_of_u64_or_max :: "u64 \<Rightarrow> i64" where
  "i64_of_u64_or_max w = (if uint w \<le> i64_max then uint w else i64_max)"

lemma u64_less_sat_inc: "w \<noteq> - 1 \<Longrightarrow> w < u64_sat_inc w"
proof -
  assume ne: "w \<noteq> - 1"
  then have "1 + w \<noteq> 0" by (metis add.commute eq_neg_iff_add_eq_0)
  then have "unat (1 + w) = Suc (unat w)" by (rule unatSuc)
  with ne show ?thesis by (simp add: u64_sat_inc_def word_less_nat_alt add.commute)
qed

lemma u64_le_sat_inc: "w \<le> u64_sat_inc w"
  using u64_less_sat_inc [of w] by (cases "w = - 1") (auto simp: u64_sat_inc_def)

lemma u64_less_sat_inc_trans: "v < w \<Longrightarrow> v < u64_sat_inc w"
  using u64_le_sat_inc [of w] by simp

lemma unat_sat_inc: "unat (u64_sat_inc w) \<le> Suc (unat w)"
proof (cases "w = - 1")
  case False
  then have "1 + w \<noteq> 0" by (metis add.commute eq_neg_iff_add_eq_0)
  then have "unat (1 + w) = Suc (unat w)" by (rule unatSuc)
  with False show ?thesis by (simp add: u64_sat_inc_def add.commute)
qed (simp add: u64_sat_inc_def)

section \<open>Vectors and slices\<close>

text \<open>\<^verbatim>\<open>slice.get(i)\<close>, \<^verbatim>\<open>slice.last()\<close>, \<^verbatim>\<open>Vec::remove\<close> and \<^verbatim>\<open>Vec::insert\<close> (the last two panic out of
  range in the source; every call of the model is in range).\<close>

definition nth_opt :: "'a list \<Rightarrow> usize \<Rightarrow> 'a option" where
  "nth_opt xs i = (if i < length xs then Some (xs ! i) else None)"

definition last_opt :: "'a list \<Rightarrow> 'a option" where
  "last_opt xs = (if xs = [] then None else Some (last xs))"

definition remove_at :: "usize \<Rightarrow> 'a list \<Rightarrow> 'a list" where
  "remove_at i xs = take i xs @ drop (Suc i) xs"

definition insert_at :: "usize \<Rightarrow> 'a \<Rightarrow> 'a list \<Rightarrow> 'a list" where
  "insert_at i x xs = take i xs @ x # drop i xs"

text \<open>\<^verbatim>\<open>iter().position(p)\<close>; \<^verbatim>\<open>iter().find(p)\<close> is \<open>List.find\<close>.\<close>

fun position :: "('a \<Rightarrow> bool) \<Rightarrow> 'a list \<Rightarrow> usize option" where
  "position p [] = None"
| "position p (x # xs) = (if p x then Some 0 else map_option Suc (position p xs))"

text \<open>\<^verbatim>\<open>Option::or\<close> / \<^verbatim>\<open>or_else\<close> and \<^verbatim>\<open>Option::filter\<close>.\<close>

fun opt_or :: "'a option \<Rightarrow> 'a option \<Rightarrow> 'a option" where
  "opt_or None y = y"
| "opt_or (Some x) y = Some x"

fun opt_filter :: "('a \<Rightarrow> bool) \<Rightarrow> 'a option \<Rightarrow> 'a option" where
  "opt_filter p None = None"
| "opt_filter p (Some x) = (if p x then Some x else None)"

lemma opt_filter_Some [simp]: "opt_filter p v = Some x \<longleftrightarrow> v = Some x \<and> p x"
  by (cases v) auto

lemma nth_opt_Some [simp]: "nth_opt xs i = Some x \<longleftrightarrow> i < length xs \<and> xs ! i = x"
  by (auto simp: nth_opt_def)

lemma nth_opt_None [simp]: "nth_opt xs i = None \<longleftrightarrow> length xs \<le> i"
  by (auto simp: nth_opt_def)

lemma last_opt_None [simp]: "last_opt xs = None \<longleftrightarrow> xs = []"
  by (simp add: last_opt_def)

lemma last_opt_in_set: "last_opt xs = Some x \<Longrightarrow> x \<in> set xs"
  by (auto simp: last_opt_def split: if_splits)

lemma position_None [simp]: "position p xs = None \<longleftrightarrow> (\<forall>x\<in>set xs. \<not> p x)"
  by (induction xs) auto

lemma position_Some_iff:
  "position p xs = Some i \<longleftrightarrow> i < length xs \<and> p (xs ! i) \<and> (\<forall>j<i. \<not> p (xs ! j))"
proof (induction xs arbitrary: i)
  case (Cons x xs)
  show ?case
    by (cases i) (auto simp: Cons.IH nth_Cons' less_Suc_eq_0_disj split: if_splits)
qed simp

lemma position_lessD: "position p xs = Some i \<Longrightarrow> i < length xs"
  by (simp add: position_Some_iff)

lemma position_holds: "position p xs = Some i \<Longrightarrow> p (xs ! i)"
  by (simp add: position_Some_iff)

lemma position_distinct:
  assumes "distinct (map f xs)" "i < length xs" "f (xs ! i) = k"
  shows "position (\<lambda>x. f x = k) xs = Some i"
proof -
  have "f (xs ! j) \<noteq> k" if "j < i" for j
    using assms that nth_eq_iff_index_eq [OF assms(1), of j i] by auto
  with assms show ?thesis by (simp add: position_Some_iff)
qed

lemma position_map: "position p (map f xs) = position (\<lambda>x. p (f x)) xs"
  by (induction xs) auto

lemma find_map: "List.find p (map f xs) = map_option f (List.find (\<lambda>x. p (f x)) xs)"
  by (induction xs) auto

lemma find_position: "List.find p xs = map_option (nth xs) (position p xs)"
  by (induction xs) (auto simp: option.map_comp comp_def)

lemma find_in_set: "List.find p xs = Some x \<Longrightarrow> x \<in> set xs \<and> p x"
  by (auto simp: find_Some_iff)

lemma length_remove_at [simp]: "i < length xs \<Longrightarrow> length (remove_at i xs) = length xs - 1"
  by (simp add: remove_at_def)

lemma length_insert_at [simp]: "length (insert_at i x xs) = Suc (length xs)"
  by (simp add: insert_at_def)

lemma map_remove_at [rust_list]: "map f (remove_at i xs) = remove_at i (map f xs)"
  by (simp add: remove_at_def take_map drop_map)

lemma map_insert_at [rust_list]: "map f (insert_at i x xs) = insert_at i (f x) (map f xs)"
  by (simp add: insert_at_def take_map drop_map)

lemma mset_insert_at [simp]: "mset (insert_at i x xs) = add_mset x (mset xs)"
  by (simp add: insert_at_def) (metis append_take_drop_id mset_append)

lemma mset_remove_at: "i < length xs \<Longrightarrow> add_mset (xs ! i) (mset (remove_at i xs)) = mset xs"
  by (simp add: remove_at_def flip: mset_append) (metis Cons_nth_drop_Suc append_take_drop_id
      mset.simps(2) mset_append union_mset_add_mset_right)

lemma set_insert_at [simp]: "set (insert_at i x xs) = insert x (set xs)"
  by (metis mset_insert_at set_mset_add_mset_insert set_mset_mset)

lemma set_remove_at_subset: "set (remove_at i xs) \<subseteq> set xs"
  by (auto simp: remove_at_def dest: in_set_takeD in_set_dropD)

lemma distinct_insert_at [simp]:
  "distinct (insert_at i x xs) \<longleftrightarrow> x \<notin> set xs \<and> distinct xs"
  by (metis distinct.simps(2) mset.simps(2) mset_eq_imp_distinct_iff mset_insert_at)

lemma distinct_remove_at:
  assumes "distinct xs" shows "distinct (remove_at i xs)"
  using assms by (auto simp: remove_at_def set_take_disj_set_drop_if_distinct)

lemma set_remove_at:
  assumes "distinct xs" "i < length xs" shows "set (remove_at i xs) = set xs - {xs ! i}"
proof -
  have "distinct ((xs ! i) # remove_at i xs)"
    using mset_remove_at [OF assms(2)] assms(1)
    by (metis mset.simps(2) mset_eq_imp_distinct_iff)
  moreover have "set ((xs ! i) # remove_at i xs) = set xs"
    using mset_remove_at [OF assms(2)] by (metis mset.simps(2) mset_eq_setD)
  ultimately show ?thesis by auto
qed

lemma nth_remove_at [rust_list]:
  "i < length xs \<Longrightarrow> j < length xs - 1 \<Longrightarrow>
    remove_at i xs ! j = xs ! (if j < i then j else Suc j)"
  by (auto simp: remove_at_def nth_append)

lemma nth_insert_at [rust_list]:
  "i \<le> length xs \<Longrightarrow> j \<le> length xs \<Longrightarrow>
    insert_at i x xs ! j = (if j < i then xs ! j else if j = i then x else xs ! (j - 1))"
  by (auto simp: insert_at_def nth_append nth_Cons')

lemma insert_at_length [simp]: "insert_at (length xs) x xs = xs @ [x]"
  by (simp add: insert_at_def)

lemma insert_at_0 [simp]: "insert_at 0 x xs = x # xs"
  by (simp add: insert_at_def)

end
