(* ===== verification/Text_Base.thy ===== *)
theory Text_Base
  imports Prelude
begin

text \<open>
  The operations on UTF-8 strings that the model uses: decimal printing of unsigned
  integers, prefix and suffix tests, \<^verbatim>\<open>str::trim\<close> (the Unicode white space of the standard
  library, by its UTF-8 encodings) and the ASCII lower-casing, with the lemmas that make
  printed fields readable back.
\<close>

section \<open>Decimal numbers\<close>

text \<open>\<^verbatim>\<open>n.to_string()\<close> for an unsigned integer.\<close>

definition digit :: "nat \<Rightarrow> char" where
  "digit d = char_of (48 + d)"

fun dec :: "nat \<Rightarrow> string" where
  "dec n = (if n < 10 then [digit n] else dec (n div 10) @ [digit (n mod 10)])"

declare dec.simps [simp del]

definition undec :: "string \<Rightarrow> nat" where
  "undec = foldl (\<lambda>n c. 10 * n + (of_char c - 48)) 0"

lemma of_char_digit [simp]: "d < 10 \<Longrightarrow> of_char (digit d) = (48 + d :: nat)"
  by (simp add: digit_def of_char_of)

lemma undec_dec: "undec (dec n) = n"
proof (induction n rule: dec.induct)
  case (1 n)
  show ?case
  proof (cases "n < 10")
    case True
    then show ?thesis by (simp add: dec.simps [of n] undec_def)
  next
    case False
    then have "undec (dec (n div 10) @ [digit (n mod 10)]) = 10 * (n div 10) + n mod 10"
      using 1 by (simp add: undec_def)
    with False show ?thesis by (simp add: dec.simps [of n])
  qed
qed

lemma dec_inject [simp]: "dec m = dec n \<longleftrightarrow> m = n"
  by (metis undec_dec)

lemma dec_digits: "c \<in> set (dec n) \<Longrightarrow> (48::nat) \<le> of_char c \<and> of_char c < (58::nat)"
proof (induction n rule: dec.induct)
  case (1 n)
  then show ?case
    by (cases "n < 10") (auto simp: dec.simps [of n])
qed

lemma dec_no_sep [simp]: "CHR '':'' \<notin> set (dec n)" "CHR ''-'' \<notin> set (dec n)"
  by (auto dest!: dec_digits)

lemma dec_nonempty [simp]: "dec n \<noteq> []"
  by (subst dec.simps) simp

text \<open>A field that does not hold the separator can be split off again.\<close>

lemma field_split:
  assumes "a @ CHR '':'' # x = b @ CHR '':'' # y"
    and "CHR '':'' \<notin> set a" "CHR '':'' \<notin> set b"
  shows "a = b \<and> x = y"
proof -
  have "takeWhile (\<lambda>c. c \<noteq> CHR '':'') (a @ CHR '':'' # x) = a"
    "takeWhile (\<lambda>c. c \<noteq> CHR '':'') (b @ CHR '':'' # y) = b"
    using assms(2,3) by (auto simp: takeWhile_append)
  with assms(1) show ?thesis by simp
qed

section \<open>Prefixes, suffixes, white space\<close>

definition starts_with :: "string \<Rightarrow> string \<Rightarrow> bool" where
  "starts_with p s \<longleftrightarrow> take (length p) s = p"

definition ends_with :: "string \<Rightarrow> string \<Rightarrow> bool" where
  "ends_with p s \<longleftrightarrow> starts_with (rev p) (rev s)"

definition strip_prefix :: "string \<Rightarrow> string \<Rightarrow> string option" where
  "strip_prefix p s = (if starts_with p s then Some (drop (length p) s) else None)"

lemma starts_with_iff: "starts_with p s \<longleftrightarrow> (\<exists>r. s = p @ r)"
  by (metis append_eq_conv_conj append_take_drop_id starts_with_def)

lemma ends_with_iff: "ends_with p s \<longleftrightarrow> (\<exists>r. s = r @ p)"
  by (metis ends_with_def rev_append rev_rev_ident starts_with_iff)

lemma strip_prefix_Some [simp]: "strip_prefix p s = Some r \<longleftrightarrow> s = p @ r"
  by (auto simp: strip_prefix_def starts_with_iff)

text \<open>The UTF-8 encodings of the code points with the Unicode property \<^verbatim>\<open>White_Space\<close>.\<close>

definition ws1 :: "char \<Rightarrow> bool" where
  "ws1 a = (let b = of_char a :: nat in (9 \<le> b \<and> b \<le> 13) \<or> b = 32)"

definition ws2 :: "char \<Rightarrow> char \<Rightarrow> bool" where
  "ws2 a b = (of_char a = (0xC2::nat) \<and> of_char b \<in> {0x85::nat, 0xA0})"

definition ws3 :: "char \<Rightarrow> char \<Rightarrow> char \<Rightarrow> bool" where
  "ws3 a b c = (let x = of_char a :: nat; y = of_char b :: nat; z = of_char c :: nat in
     (x = 0xE1 \<and> y = 0x9A \<and> z = 0x80)
   \<or> (x = 0xE2 \<and> y = 0x80 \<and> ((0x80 \<le> z \<and> z \<le> 0x8A) \<or> z \<in> {0xA8, 0xA9, 0xAF}))
   \<or> (x = 0xE2 \<and> y = 0x81 \<and> z = 0x9F)
   \<or> (x = 0xE3 \<and> y = 0x80 \<and> z = 0x80))"

fun trim_start :: "string \<Rightarrow> string" where
  "trim_start [] = []"
| "trim_start [a] = (if ws1 a then [] else [a])"
| "trim_start [a, b] =
     (if ws1 a then trim_start [b] else if ws2 a b then [] else [a, b])"
| "trim_start (a # b # c # s) =
     (if ws1 a then trim_start (b # c # s)
      else if ws2 a b then trim_start (c # s)
      else if ws3 a b c then trim_start s
      else a # b # c # s)"

text \<open>The same from the end of the string, on its reversal.\<close>

fun trim_end_rev :: "string \<Rightarrow> string" where
  "trim_end_rev [] = []"
| "trim_end_rev [a] = (if ws1 a then [] else [a])"
| "trim_end_rev [a, b] =
     (if ws1 a then trim_end_rev [b] else if ws2 b a then [] else [a, b])"
| "trim_end_rev (a # b # c # s) =
     (if ws1 a then trim_end_rev (b # c # s)
      else if ws2 b a then trim_end_rev (c # s)
      else if ws3 c b a then trim_end_rev s
      else a # b # c # s)"

definition trim :: "string \<Rightarrow> string" where
  "trim s = rev (trim_end_rev (rev (trim_start s)))"

definition ascii_lower_char :: "char \<Rightarrow> char" where
  "ascii_lower_char c =
     (let n = of_char c :: nat in if 65 \<le> n \<and> n \<le> 90 then char_of (n + 32) else c)"

definition to_ascii_lowercase :: "string \<Rightarrow> string" where
  "to_ascii_lowercase = map ascii_lower_char"

lemma trim_start_suffix: "\<exists>p. s = p @ trim_start s"
proof (induction s rule: trim_start.induct)
  case (4 a b c s)
  then obtain p1 p2 p3 where
    "ws1 a \<Longrightarrow> b # c # s = p1 @ trim_start (b # c # s)"
    "\<not> ws1 a \<Longrightarrow> ws2 a b \<Longrightarrow> c # s = p2 @ trim_start (c # s)"
    "\<not> ws1 a \<Longrightarrow> \<not> ws2 a b \<Longrightarrow> ws3 a b c \<Longrightarrow> s = p3 @ trim_start s"
    by metis
  then show ?case
    by (auto intro: exI [of _ "a # p1"] exI [of _ "a # b # p2"] exI [of _ "a # b # c # p3"])
qed (auto intro: exI [of _ "[]"])

end
