(* ===== verification/Emby_Model.thy ===== *)
theory Emby_Model
  imports Text_Base
begin

text \<open>
  The Emby item model (\<^verbatim>\<open>crates/mbv-emby-model/src/lib.rs\<close>): the item record with every
  field of the source, the classification predicates the queue uses, the resume rule in
  ticks, and the row key of an announced premiere. The conversions to seconds (\<^verbatim>\<open>f64\<close>) and
  the file-name sort key (\<^verbatim>\<open>std::path\<close>) are not modelled.
\<close>

section \<open>Records\<close>

definition TICKS_PER_SECOND :: i64 where
  "TICKS_PER_SECOND = 10000000"

definition RESUME_THRESHOLD_PERCENT :: i64 where
  "RESUME_THRESHOLD_PERCENT = 1"

record emby_person =
  person_name :: string
  person_role :: string
  person_kind :: string

record emby_link =
  link_name :: string
  link_url :: string

record emby_artist_ref =
  artist_ref_name :: string
  artist_ref_id :: string

record emby_image_tags =
  tag_thumb :: string
  tag_logo :: string
  tag_primary :: string
  tag_backdrops :: "string list"
  tag_series_thumb :: string
  tag_series_backdrops :: "string list"

record emby_item =
  emby_id :: string
  emby_name :: string
  emby_item_type :: string
  emby_is_folder :: bool
  emby_child_count :: "u32 option"
  emby_studios :: "string list"
  emby_media_type :: string
  emby_collection_type :: string
  emby_runtime_ticks :: i64
  emby_played :: bool
  emby_playback_position_ticks :: i64
  emby_series_id :: string
  emby_series_name :: string
  emby_album_id :: string
  emby_album :: string
  emby_index_number :: i64
  emby_parent_index_number :: i64
  emby_unplayed_item_count :: u32
  emby_path :: string
  emby_artist :: string
  emby_track_artist :: string
  emby_artist_items :: "emby_artist_ref list"
  emby_sort_name :: string
  emby_production_year :: u32
  emby_end_year :: u32
  emby_overview :: string
  emby_premiere_date :: string
  emby_date_added :: string
  emby_total_count :: u32
  emby_container :: string
  emby_video_info :: string
  emby_audio_info :: string
  emby_genres :: "string list"
  emby_people :: "emby_person list"
  emby_external_urls :: "emby_link list"
  emby_playlist_item_id :: string
  emby_image_tags :: emby_image_tags

text \<open>The item a library root is shown as.\<close>

definition default_image_tags :: emby_image_tags where
  "default_image_tags = \<lparr>tag_thumb = [], tag_logo = [], tag_primary = [], tag_backdrops = [],
     tag_series_thumb = [], tag_series_backdrops = []\<rparr>"

definition emby_folder :: "string \<Rightarrow> string \<Rightarrow> string \<Rightarrow> emby_item" where
  "emby_folder item_id nm collection_type =
     \<lparr>emby_id = item_id, emby_name = nm, emby_item_type = ''CollectionFolder'',
      emby_is_folder = True, emby_child_count = None, emby_studios = [],
      emby_media_type = [], emby_collection_type = collection_type, emby_runtime_ticks = 0,
      emby_played = False, emby_playback_position_ticks = 0, emby_series_id = [],
      emby_series_name = [], emby_album_id = [], emby_album = [], emby_index_number = 0,
      emby_parent_index_number = 0, emby_unplayed_item_count = 0, emby_path = [],
      emby_artist = [], emby_track_artist = [], emby_artist_items = [], emby_sort_name = [],
      emby_production_year = 0, emby_end_year = 0, emby_overview = [],
      emby_premiere_date = [], emby_date_added = [], emby_total_count = 0,
      emby_container = [], emby_video_info = [], emby_audio_info = [], emby_genres = [],
      emby_people = [], emby_external_urls = [], emby_playlist_item_id = [],
      emby_image_tags = default_image_tags\<rparr>"

section \<open>Classification and resume\<close>

definition emby_is_audio :: "emby_item \<Rightarrow> bool" where
  "emby_is_audio it \<longleftrightarrow> emby_media_type it = ''Audio'' \<or> emby_item_type it = ''Audio''"

definition emby_is_music :: "emby_item \<Rightarrow> bool" where
  "emby_is_music it \<longleftrightarrow>
     emby_item_type it = ''MusicAlbum'' \<or> emby_item_type it = ''MusicArtist'' \<or> emby_is_audio it"

definition emby_is_video :: "emby_item \<Rightarrow> bool" where
  "emby_is_video it \<longleftrightarrow> emby_media_type it = ''Video''"

text \<open>The products are computed in \<^verbatim>\<open>i128\<close>, where two \<^verbatim>\<open>i64\<close> factors cannot overflow.\<close>

definition should_resume :: "i64 \<Rightarrow> i64 \<Rightarrow> bool" where
  "should_resume position_ticks runtime_ticks =
     (if position_ticks \<le> 0 then False
      else if runtime_ticks > 0
      then position_ticks * 100 \<ge> runtime_ticks * RESUME_THRESHOLD_PERCENT
      else True)"

definition emby_should_resume :: "emby_item \<Rightarrow> bool" where
  "emby_should_resume it =
     should_resume (emby_playback_position_ticks it) (emby_runtime_ticks it)"

lemma should_resume_positive: "should_resume p r \<Longrightarrow> 0 < p"
  by (auto simp: should_resume_def split: if_splits)

lemma should_resume_mono: "should_resume p r \<Longrightarrow> p \<le> q \<Longrightarrow> should_resume q r"
  by (auto simp: should_resume_def RESUME_THRESHOLD_PERCENT_def split: if_splits)

section \<open>Display names\<close>

definition emby_is_named_episode :: "emby_item \<Rightarrow> bool" where
  "emby_is_named_episode it \<longleftrightarrow> emby_item_type it = ''Episode'' \<and> emby_series_name it \<noteq> []"

definition emby_display_name :: "emby_item \<Rightarrow> string" where
  "emby_display_name it =
     (if emby_item_type it = ''Episode'' \<and> emby_series_name it \<noteq> []
      then emby_series_name it @ '' '' @ emby_name it else emby_name it)"

definition emby_display_name_parts :: "emby_item \<Rightarrow> string \<times> string option" where
  "emby_display_name_parts it =
     (if emby_item_type it = ''Episode'' \<and> emby_series_name it \<noteq> []
      then (emby_series_name it, Some (emby_name it)) else (emby_name it, None))"

definition emby_playback_label :: "emby_item \<Rightarrow> string" where
  "emby_playback_label it =
     (if emby_item_type it = ''Audio'' \<and> emby_artist it \<noteq> []
      then emby_artist it @ '' - '' @ emby_name it else emby_display_name it)"

text \<open>
  The artist item an album's display artist resolves to. \<open>to_lowercase\<close> stands for
  \<^verbatim>\<open>str::to_lowercase\<close>, whose Unicode case table is not written out here; the loop keeps the
  one match found so far and gives up at the second.
\<close>

fun match_artist_loop ::
  "(string \<Rightarrow> string) \<Rightarrow> string \<Rightarrow> emby_artist_ref list \<Rightarrow> string option \<Rightarrow> string option" where
  "match_artist_loop to_lowercase target [] matched = matched"
| "match_artist_loop to_lowercase target (p # ps) matched =
     (if artist_ref_id p = [] \<or> to_lowercase (trim (artist_ref_name p)) \<noteq> target
      then match_artist_loop to_lowercase target ps matched
      else if matched \<noteq> None then None
      else match_artist_loop to_lowercase target ps (Some (artist_ref_id p)))"

definition matched_artist_item_id ::
  "(string \<Rightarrow> string) \<Rightarrow> emby_item \<Rightarrow> string \<Rightarrow> string option" where
  "matched_artist_item_id to_lowercase it display_artist =
     (let target = to_lowercase (trim display_artist) in
      if target = [] then None
      else match_artist_loop to_lowercase target (emby_artist_items it) None)"

definition artist_applies :: "(string \<Rightarrow> string) \<Rightarrow> string \<Rightarrow> emby_artist_ref \<Rightarrow> bool" where
  "artist_applies lower artist p \<longleftrightarrow>
     artist_ref_id p \<noteq> [] \<and> lower (trim (artist_ref_name p)) = lower (trim artist)"

lemma match_artist_loop_filter:
  "match_artist_loop lower (lower (trim artist)) ps m =
     (case (m, filter (artist_applies lower artist) ps) of
        (_, []) \<Rightarrow> m
      | (None, [p]) \<Rightarrow> Some (artist_ref_id p)
      | _ \<Rightarrow> None)"
  by (induction ps arbitrary: m)
    (auto simp: artist_applies_def split: option.splits list.splits)

section \<open>The row key of an announced premiere\<close>

record upcoming_premiere =
  up_series_id :: string
  up_series_name :: string
  up_season :: "u32 option"
  up_episode :: "u32 option"
  up_title :: string
  up_premiere_date :: string

definition key_number :: "u32 option \<Rightarrow> string" where
  "key_number n = (case n of None \<Rightarrow> ''-'' | Some w \<Rightarrow> dec (unat w))"

definition sep :: string where
  "sep = '':''"

definition stable_key :: "upcoming_premiere \<Rightarrow> string" where
  "stable_key u =
     ''upcoming'' @ sep @ dec (length (up_series_id u)) @ sep @ up_series_id u
     @ sep @ key_number (up_season u) @ sep @ key_number (up_episode u)
     @ sep @ dec (length (up_title u)) @ sep @ up_title u
     @ sep @ dec (length (up_premiere_date u)) @ sep @ up_premiere_date u
     @ sep @ up_series_name u"

lemma key_number_no_sep [simp]: "CHR '':'' \<notin> set (key_number n)"
  by (simp add: key_number_def split: option.splits)

lemma key_number_inject [simp]: "key_number m = key_number n \<longleftrightarrow> m = n"
proof -
  have "dec k \<noteq> ''-''" for k
    using dec_no_sep(2) [of k] by (metis list.set_intros(1))
  moreover from this have "''-'' \<noteq> dec k" for k
    by metis
  ultimately show ?thesis
    by (auto simp: key_number_def word_unat_eq_iff split: option.splits)
qed

lemma sep_field:
  assumes "a @ sep @ x = b @ sep @ y" "CHR '':'' \<notin> set a" "CHR '':'' \<notin> set b"
  shows "a = b \<and> x = y"
  using field_split [of a x b y] assms by (simp add: sep_def)

lemma sized_field:
  assumes "dec (length a) @ sep @ a @ sep @ x = dec (length b) @ sep @ b @ sep @ y"
  shows "a = b \<and> x = y"
proof -
  have "length a = length b \<and> a @ sep @ x = b @ sep @ y"
    using sep_field [OF assms] by simp
  then show ?thesis by (auto simp: sep_def)
qed

lemma number_field:
  "key_number m @ sep @ x = key_number n @ sep @ y \<Longrightarrow> m = n \<and> x = y"
  using sep_field [of "key_number m" x "key_number n" y] by simp

text \<open>
  The row key of a premiere notice is unique per notice: two notices with the same key
  are the same notice, whatever separators their texts hold.
\<close>

theorem stable_key_unique: "stable_key a = stable_key b \<longleftrightarrow> a = b"
proof
  assume eq: "stable_key a = stable_key b"
  have 1: "up_series_id a = up_series_id b \<and>
      key_number (up_season a) @ sep @ key_number (up_episode a) @ sep
        @ dec (length (up_title a)) @ sep @ up_title a @ sep
        @ dec (length (up_premiere_date a)) @ sep @ up_premiere_date a @ sep @ up_series_name a
      = key_number (up_season b) @ sep @ key_number (up_episode b) @ sep
        @ dec (length (up_title b)) @ sep @ up_title b @ sep
        @ dec (length (up_premiere_date b)) @ sep @ up_premiere_date b @ sep @ up_series_name b"
    using eq by (intro sized_field) (simp add: stable_key_def)
  note 2 = number_field [OF 1 [THEN conjunct2]]
  note 3 = number_field [OF 2 [THEN conjunct2]]
  note 4 = sized_field [OF 3 [THEN conjunct2]]
  note 5 = sized_field [OF 4 [THEN conjunct2]]
  from 1 2 3 4 5 show "a = b" by simp
qed simp

end
