(* ===== verification/Queue_Items.thy ===== *)
theory Queue_Items
  imports Emby_Model
begin

text \<open>
  The items a queue slot can hold (\<^verbatim>\<open>crates/mbv-queue/src/items.rs\<close>, \<^verbatim>\<open>audiobookshelf.rs\<close>,
  \<^verbatim>\<open>kinds.rs\<close>, \<^verbatim>\<open>twitch.rs\<close>): the Emby, feed, Audiobookshelf and Twitch snapshots, the sum
  type over them with one operation per method, their typed content identity, the admission
  test of an owner, and the parser that accepts Twitch URLs. The serde impls and the
  seconds-valued resume of an Audiobookshelf item (\<^verbatim>\<open>f64\<close>) are not modelled.
\<close>

section \<open>Kinds\<close>

datatype feed_kind = FK_Audio | FK_Video

definition default_feed_kind :: feed_kind where
  "default_feed_kind = FK_Video"

fun feed_kind_as_str :: "feed_kind \<Rightarrow> string" where
  "feed_kind_as_str FK_Audio = ''audio''"
| "feed_kind_as_str FK_Video = ''video''"

definition feed_kind_parse :: "string \<Rightarrow> feed_kind option" where
  "feed_kind_parse s =
     (let t = to_ascii_lowercase (trim s) in
      if t = ''audio'' then Some FK_Audio else if t = ''video'' then Some FK_Video else None)"

datatype service_kind = Service_Emby | Service_Audiobookshelf

fun secret_name :: "service_kind \<Rightarrow> string" where
  "secret_name Service_Emby = ''emby''"
| "secret_name Service_Audiobookshelf = ''audiobookshelf''"

datatype queue_item_content_id =
    CId_Emby string
  | CId_Feed string
  | CId_Audiobookshelf (cid_library_item: string) (cid_episode: string)
  | CId_AudiobookshelfBook (cid_book: string)
  | CId_Twitch string

datatype queue_item_kind =
  Kind_Emby | Kind_Feed | Kind_Audiobookshelf | Kind_AudiobookshelfBook | Kind_Twitch

section \<open>Now-playing title parts\<close>

datatype title_part_role = Role_Title | Role_Context

record playback_title_part =
  part_role :: title_part_role
  part_text :: string

record playback_title_parts =
  parts_title :: playback_title_part
  parts_context :: "playback_title_part option"

definition title_single :: "string \<Rightarrow> playback_title_parts" where
  "title_single t =
     \<lparr>parts_title = \<lparr>part_role = Role_Title, part_text = t\<rparr>, parts_context = None\<rparr>"

definition title_two :: "string \<Rightarrow> string \<Rightarrow> playback_title_parts" where
  "title_two t c =
     (title_single t)\<lparr>parts_context := Some \<lparr>part_role = Role_Context, part_text = c\<rparr>\<rparr>"

text \<open>\<^verbatim>\<open>i64::from_ne_bytes(ticks.to_ne_bytes())\<close>: the two's-complement reading.\<close>

definition duration_ticks_as_i64 :: "u64 \<Rightarrow> i64" where
  "duration_ticks_as_i64 ticks = sint ticks"

section \<open>Feed entries and Twitch items\<close>

record feed_entry =
  feed_guid :: string
  feed_title :: string
  feed_enclosure_url :: "string option"
  feed_link :: "string option"
  feed_mime_type :: "string option"
  feed_duration_ticks :: "u64 option"
  feed_pub_date_secs :: "u64 option"
  feed_feed_kind :: "feed_kind option"
  feed_feed_id :: "string option"
  feed_position_ticks :: i64
  feed_played :: bool

definition primary_source :: "feed_entry \<Rightarrow> string option" where
  "primary_source e = opt_or (feed_enclosure_url e) (feed_link e)"

record twitch_item =
  twitch_url :: string
  twitch_title :: string

section \<open>Audiobookshelf items\<close>

record audiobookshelf_episode_catalog =
  cat_library_item_id :: string
  cat_episode_id :: string
  cat_title :: string
  cat_show_title :: "string option"
  cat_author :: "string option"
  cat_description :: "string option"
  cat_duration_ticks :: "u64 option"
  cat_pub_date_secs :: "u64 option"
  cat_cover_path :: "string option"

record episode_resume =
  res_position_ticks :: i64
  res_is_finished :: bool

definition NOT_STARTED :: episode_resume where
  "NOT_STARTED = \<lparr>res_position_ticks = 0, res_is_finished = False\<rparr>"

record abs_episode =
  ep_library_item_id :: string
  ep_episode_id :: string
  ep_title :: string
  ep_show_title :: "string option"
  ep_author :: "string option"
  ep_description :: "string option"
  ep_duration_ticks :: "u64 option"
  ep_position_ticks :: i64
  ep_played :: bool
  ep_pub_date_secs :: "u64 option"
  ep_is_finished :: bool
  ep_cover_path :: "string option"

definition abs_episode_from_catalog ::
  "audiobookshelf_episode_catalog \<Rightarrow> episode_resume \<Rightarrow> abs_episode" where
  "abs_episode_from_catalog c r =
     \<lparr>ep_library_item_id = cat_library_item_id c, ep_episode_id = cat_episode_id c,
      ep_title = cat_title c, ep_show_title = cat_show_title c, ep_author = cat_author c,
      ep_description = cat_description c, ep_duration_ticks = cat_duration_ticks c,
      ep_position_ticks = res_position_ticks r, ep_played = res_is_finished r,
      ep_pub_date_secs = cat_pub_date_secs c, ep_is_finished = res_is_finished r,
      ep_cover_path = cat_cover_path c\<rparr>"

definition abs_episode_content_id :: "abs_episode \<Rightarrow> queue_item_content_id" where
  "abs_episode_content_id e = CId_Audiobookshelf (ep_library_item_id e) (ep_episode_id e)"

record abs_book =
  book_library_item_id :: string
  book_title :: string
  book_author :: "string option"
  book_duration_ticks :: "u64 option"
  book_position_ticks :: i64
  book_played :: bool
  book_is_finished :: bool
  book_cover_path :: "string option"

definition abs_book_content_id :: "abs_book \<Rightarrow> queue_item_content_id" where
  "abs_book_content_id b = CId_AudiobookshelfBook (book_library_item_id b)"

datatype audiobookshelf_item = ABS_Episode abs_episode | ABS_Book abs_book

fun abs_title :: "audiobookshelf_item \<Rightarrow> string" where
  "abs_title (ABS_Episode e) = ep_title e"
| "abs_title (ABS_Book b) = book_title b"

fun abs_duration :: "audiobookshelf_item \<Rightarrow> u64 option" where
  "abs_duration (ABS_Episode e) = ep_duration_ticks e"
| "abs_duration (ABS_Book b) = book_duration_ticks b"

definition abs_media_kind :: "audiobookshelf_item \<Rightarrow> string" where
  "abs_media_kind it = ''Audio''"

definition abs_is_audio :: "audiobookshelf_item \<Rightarrow> bool" where
  "abs_is_audio it = True"

definition abs_is_music :: "audiobookshelf_item \<Rightarrow> bool" where
  "abs_is_music it = False"

definition abs_is_video :: "audiobookshelf_item \<Rightarrow> bool" where
  "abs_is_video it = False"

fun abs_artwork_url :: "audiobookshelf_item \<Rightarrow> string option" where
  "abs_artwork_url (ABS_Episode e) = ep_cover_path e"
| "abs_artwork_url (ABS_Book b) = book_cover_path b"

definition nonempty_text :: "string \<Rightarrow> bool" where
  "nonempty_text s \<longleftrightarrow> s \<noteq> []"

fun abs_display_name_parts :: "audiobookshelf_item \<Rightarrow> string \<times> string option" where
  "abs_display_name_parts (ABS_Episode e) =
     (case opt_filter nonempty_text (ep_show_title e) of
        None \<Rightarrow> (ep_title e, None) | Some show \<Rightarrow> (show, Some (ep_title e)))"
| "abs_display_name_parts (ABS_Book b) = (book_title b, None)"

fun abs_playback_title_parts :: "audiobookshelf_item \<Rightarrow> playback_title_parts" where
  "abs_playback_title_parts (ABS_Episode e) =
     (case opt_filter nonempty_text (ep_show_title e) of
        None \<Rightarrow> title_single (ep_title e) | Some show \<Rightarrow> title_two (ep_title e) show)"
| "abs_playback_title_parts (ABS_Book b) = title_single (book_title b)"

fun abs_display_name :: "audiobookshelf_item \<Rightarrow> string" where
  "abs_display_name (ABS_Episode e) =
     (case opt_filter nonempty_text (ep_show_title e) of
        None \<Rightarrow> ep_title e | Some show \<Rightarrow> show @ '' - '' @ ep_title e)"
| "abs_display_name (ABS_Book b) = book_title b"

fun abs_overview :: "audiobookshelf_item \<Rightarrow> string option" where
  "abs_overview (ABS_Episode e) = ep_description e"
| "abs_overview (ABS_Book b) = None"

definition abs_runtime_ticks :: "audiobookshelf_item \<Rightarrow> i64" where
  "abs_runtime_ticks it =
     duration_ticks_as_i64 (case abs_duration it of None \<Rightarrow> 0 | Some d \<Rightarrow> d)"

fun abs_playback_position_ticks :: "audiobookshelf_item \<Rightarrow> i64" where
  "abs_playback_position_ticks (ABS_Episode e) = ep_position_ticks e"
| "abs_playback_position_ticks (ABS_Book b) = book_position_ticks b"

fun abs_played :: "audiobookshelf_item \<Rightarrow> bool" where
  "abs_played (ABS_Episode e) = (ep_played e \<or> ep_is_finished e)"
| "abs_played (ABS_Book b) = (book_played b \<or> book_is_finished b)"

fun abs_id :: "audiobookshelf_item \<Rightarrow> string" where
  "abs_id (ABS_Episode e) = ep_episode_id e"
| "abs_id (ABS_Book b) = book_library_item_id b"

fun abs_content_id :: "audiobookshelf_item \<Rightarrow> queue_item_content_id" where
  "abs_content_id (ABS_Episode e) = abs_episode_content_id e"
| "abs_content_id (ABS_Book b) = abs_book_content_id b"

definition abs_playlist_item_id :: "audiobookshelf_item \<Rightarrow> string" where
  "abs_playlist_item_id it = []"

fun abs_kind :: "audiobookshelf_item \<Rightarrow> queue_item_kind" where
  "abs_kind (ABS_Episode e) = Kind_Audiobookshelf"
| "abs_kind (ABS_Book b) = Kind_AudiobookshelfBook"

section \<open>The queue item\<close>

datatype queue_item =
    QI_Emby emby_item
  | QI_Feed feed_entry
  | QI_Audiobookshelf audiobookshelf_item
  | QI_Twitch twitch_item

datatype mpv_url_source =
    Url_Emby emby_item
  | Url_Feed feed_entry
  | Url_Twitch twitch_item

fun mpv_url_source_of :: "queue_item \<Rightarrow> mpv_url_source option" where
  "mpv_url_source_of (QI_Emby it) = Some (Url_Emby it)"
| "mpv_url_source_of (QI_Feed e) = Some (Url_Feed e)"
| "mpv_url_source_of (QI_Twitch t) = Some (Url_Twitch t)"
| "mpv_url_source_of (QI_Audiobookshelf a) = None"

fun qi_title :: "queue_item \<Rightarrow> string" where
  "qi_title (QI_Emby it) = emby_name it"
| "qi_title (QI_Feed e) = feed_title e"
| "qi_title (QI_Audiobookshelf a) = abs_title a"
| "qi_title (QI_Twitch t) = twitch_title t"

text \<open>\<^verbatim>\<open>u64::try_from\<close> of a positive \<^verbatim>\<open>i64\<close> always succeeds.\<close>

fun qi_duration :: "queue_item \<Rightarrow> u64 option" where
  "qi_duration (QI_Emby it) =
     (if emby_runtime_ticks it > 0 then Some (word_of_int (emby_runtime_ticks it)) else None)"
| "qi_duration (QI_Feed e) = feed_duration_ticks e"
| "qi_duration (QI_Audiobookshelf a) = abs_duration a"
| "qi_duration (QI_Twitch t) = None"

text \<open>The recognised enclosure MIME families; a subscription's kind decides otherwise.\<close>

definition mime_is :: "string \<Rightarrow> feed_entry \<Rightarrow> bool" where
  "mime_is family e = (case feed_mime_type e of None \<Rightarrow> False | Some m \<Rightarrow> starts_with family m)"

fun qi_media_kind :: "queue_item \<Rightarrow> string" where
  "qi_media_kind (QI_Emby it) = emby_media_type it"
| "qi_media_kind (QI_Feed e) =
     (if mime_is ''audio/'' e then ''Audio''
      else if mime_is ''video/'' e then ''Video''
      else case feed_feed_kind e of None \<Rightarrow> ''Video'' | Some k \<Rightarrow> feed_kind_as_str k)"
| "qi_media_kind (QI_Audiobookshelf a) = abs_media_kind a"
| "qi_media_kind (QI_Twitch t) = ''Video''"

fun qi_is_audio :: "queue_item \<Rightarrow> bool" where
  "qi_is_audio (QI_Emby it) = emby_is_audio it"
| "qi_is_audio (QI_Feed e) =
     (if mime_is ''audio/'' e then True
      else if mime_is ''video/'' e then False
      else feed_feed_kind e = Some FK_Audio)"
| "qi_is_audio (QI_Audiobookshelf a) = abs_is_audio a"
| "qi_is_audio (QI_Twitch t) = False"

fun qi_is_music :: "queue_item \<Rightarrow> bool" where
  "qi_is_music (QI_Emby it) = emby_is_music it"
| "qi_is_music (QI_Feed e) = False"
| "qi_is_music (QI_Twitch t) = False"
| "qi_is_music (QI_Audiobookshelf a) = abs_is_music a"

fun qi_is_video :: "queue_item \<Rightarrow> bool" where
  "qi_is_video (QI_Emby it) = emby_is_video it"
| "qi_is_video (QI_Feed e) =
     (if mime_is ''video/'' e then True
      else if mime_is ''audio/'' e then False
      else feed_feed_kind e = Some FK_Video)"
| "qi_is_video (QI_Audiobookshelf a) = abs_is_video a"
| "qi_is_video (QI_Twitch t) = True"

fun qi_is_tv_episode :: "queue_item \<Rightarrow> bool" where
  "qi_is_tv_episode (QI_Emby it) = (emby_item_type it = ''Episode'')"
| "qi_is_tv_episode _ = False"

fun qi_artwork_url :: "queue_item \<Rightarrow> string option" where
  "qi_artwork_url (QI_Audiobookshelf a) = abs_artwork_url a"
| "qi_artwork_url _ = None"

fun qi_id :: "queue_item \<Rightarrow> string" where
  "qi_id (QI_Emby it) = emby_id it"
| "qi_id (QI_Feed e) = feed_guid e"
| "qi_id (QI_Audiobookshelf a) = abs_id a"
| "qi_id (QI_Twitch t) = twitch_url t"

fun qi_display_name :: "queue_item \<Rightarrow> string" where
  "qi_display_name (QI_Emby it) = emby_display_name it"
| "qi_display_name (QI_Feed e) = feed_title e"
| "qi_display_name (QI_Audiobookshelf a) = abs_display_name a"
| "qi_display_name (QI_Twitch t) = twitch_title t"

fun qi_display_name_parts :: "queue_item \<Rightarrow> string \<times> string option" where
  "qi_display_name_parts (QI_Emby it) = emby_display_name_parts it"
| "qi_display_name_parts (QI_Audiobookshelf a) = abs_display_name_parts a"
| "qi_display_name_parts (QI_Feed e) = (qi_display_name (QI_Feed e), None)"
| "qi_display_name_parts (QI_Twitch t) = (twitch_title t, None)"

fun qi_playback_title_parts :: "queue_item \<Rightarrow> string option \<Rightarrow> playback_title_parts" where
  "qi_playback_title_parts (QI_Emby it) sub =
     (if emby_item_type it = ''Episode'' \<and> emby_series_name it \<noteq> []
      then title_two (emby_name it) (emby_series_name it)
      else if emby_is_audio it then
        (let ctx = (if emby_track_artist it = [] then emby_artist it else emby_track_artist it)
         in if ctx = [] then title_single (emby_name it) else title_two (emby_name it) ctx)
      else title_single (emby_name it))"
| "qi_playback_title_parts (QI_Feed e) sub =
     (case opt_filter nonempty_text sub of
        Some name \<Rightarrow> title_two (feed_title e) name
      | None \<Rightarrow> title_single (feed_title e))"
| "qi_playback_title_parts (QI_Audiobookshelf a) sub = abs_playback_title_parts a"
| "qi_playback_title_parts (QI_Twitch t) sub = title_single (twitch_title t)"

fun qi_overview :: "queue_item \<Rightarrow> string option" where
  "qi_overview (QI_Emby it) = (if emby_overview it = [] then None else Some (emby_overview it))"
| "qi_overview (QI_Feed e) = None"
| "qi_overview (QI_Twitch t) = None"
| "qi_overview (QI_Audiobookshelf a) = abs_overview a"

fun qi_runtime_ticks :: "queue_item \<Rightarrow> i64" where
  "qi_runtime_ticks (QI_Emby it) = emby_runtime_ticks it"
| "qi_runtime_ticks (QI_Feed e) =
     duration_ticks_as_i64 (case feed_duration_ticks e of None \<Rightarrow> 0 | Some d \<Rightarrow> d)"
| "qi_runtime_ticks (QI_Audiobookshelf a) = abs_runtime_ticks a"
| "qi_runtime_ticks (QI_Twitch t) = 0"

fun qi_playback_position_ticks :: "queue_item \<Rightarrow> i64" where
  "qi_playback_position_ticks (QI_Emby it) = emby_playback_position_ticks it"
| "qi_playback_position_ticks (QI_Feed e) = feed_position_ticks e"
| "qi_playback_position_ticks (QI_Audiobookshelf a) = abs_playback_position_ticks a"
| "qi_playback_position_ticks (QI_Twitch t) = 0"

fun qi_played :: "queue_item \<Rightarrow> bool" where
  "qi_played (QI_Emby it) = emby_played it"
| "qi_played (QI_Feed e) = feed_played e"
| "qi_played (QI_Audiobookshelf a) = abs_played a"
| "qi_played (QI_Twitch t) = False"

fun qi_as_emby :: "queue_item \<Rightarrow> emby_item option" where
  "qi_as_emby (QI_Emby it) = Some it"
| "qi_as_emby _ = None"

fun qi_as_feed :: "queue_item \<Rightarrow> feed_entry option" where
  "qi_as_feed (QI_Feed e) = Some e"
| "qi_as_feed _ = None"

fun qi_as_audiobookshelf :: "queue_item \<Rightarrow> abs_episode option" where
  "qi_as_audiobookshelf (QI_Audiobookshelf (ABS_Episode e)) = Some e"
| "qi_as_audiobookshelf _ = None"

fun qi_as_audiobookshelf_book :: "queue_item \<Rightarrow> abs_book option" where
  "qi_as_audiobookshelf_book (QI_Audiobookshelf (ABS_Book b)) = Some b"
| "qi_as_audiobookshelf_book _ = None"

fun qi_is_emby :: "queue_item \<Rightarrow> bool" where
  "qi_is_emby (QI_Emby it) = True"
| "qi_is_emby _ = False"

fun qi_is_feed :: "queue_item \<Rightarrow> bool" where
  "qi_is_feed (QI_Feed e) = True"
| "qi_is_feed _ = False"

fun qi_is_audiobookshelf :: "queue_item \<Rightarrow> bool" where
  "qi_is_audiobookshelf (QI_Audiobookshelf a) = True"
| "qi_is_audiobookshelf _ = False"

fun qi_kind :: "queue_item \<Rightarrow> queue_item_kind" where
  "qi_kind (QI_Emby it) = Kind_Emby"
| "qi_kind (QI_Feed e) = Kind_Feed"
| "qi_kind (QI_Audiobookshelf a) = abs_kind a"
| "qi_kind (QI_Twitch t) = Kind_Twitch"

fun qi_content_id :: "queue_item \<Rightarrow> queue_item_content_id" where
  "qi_content_id (QI_Emby it) = CId_Emby (emby_id it)"
| "qi_content_id (QI_Feed e) = CId_Feed (feed_guid e)"
| "qi_content_id (QI_Audiobookshelf a) = abs_content_id a"
| "qi_content_id (QI_Twitch t) = CId_Twitch (twitch_url t)"

definition qi_content_key :: "queue_item \<Rightarrow> queue_item_content_id" where
  "qi_content_key it = qi_content_id it"

fun qi_required_service :: "queue_item \<Rightarrow> service_kind option" where
  "qi_required_service (QI_Audiobookshelf a) = Some Service_Audiobookshelf"
| "qi_required_service _ = None"

definition admissible_for_owner_with_audiobookshelf ::
  "queue_item \<Rightarrow> bool \<Rightarrow> (service_kind \<Rightarrow> bool) \<Rightarrow> bool \<Rightarrow> bool" where
  "admissible_for_owner_with_audiobookshelf it audio_only has_service can_admit_abs =
     (if qi_is_audiobookshelf it \<and> \<not> can_admit_abs then False
      else (\<not> audio_only \<or> qi_is_audio it)
         \<and> (case qi_required_service it of None \<Rightarrow> True | Some s \<Rightarrow> has_service s))"

definition admissible_for_owner ::
  "queue_item \<Rightarrow> bool \<Rightarrow> (service_kind \<Rightarrow> bool) \<Rightarrow> bool" where
  "admissible_for_owner it audio_only has_service =
     admissible_for_owner_with_audiobookshelf it audio_only has_service False"

fun qi_playlist_item_id :: "queue_item \<Rightarrow> string" where
  "qi_playlist_item_id (QI_Emby it) = emby_playlist_item_id it"
| "qi_playlist_item_id (QI_Feed e) = []"
| "qi_playlist_item_id (QI_Twitch t) = []"
| "qi_playlist_item_id (QI_Audiobookshelf a) = abs_playlist_item_id a"

end
