(* ===== verification/Twitch.thy ===== *)
theory Twitch
  imports Queue_Items
begin

text \<open>
  \<^verbatim>\<open>TwitchItem::from_url\<close> (\<^verbatim>\<open>crates/mbv-queue/src/twitch.rs\<close>): the parser that admits a pasted
  URL only when its host is \<^verbatim>\<open>twitch.tv\<close> or a subdomain. A refusal carries the reason text.
  The theorem says which URLs pass in terms of the URL's own parts, so a look-alike host in
  the user information, the port or the path cannot pass.
\<close>

definition https_scheme :: string where
  "https_scheme = ''https://''"

definition http_scheme :: string where
  "http_scheme = ''http://''"

text \<open>\<^verbatim>\<open>rest.find(stops).unwrap_or(rest.len())\<close> splits the string; the split itself: \<close>

definition split_at_any :: "char list \<Rightarrow> string \<Rightarrow> string \<times> string" where
  "split_at_any stops s =
     (takeWhile (\<lambda>c. c \<notin> set stops) s, dropWhile (\<lambda>c. c \<notin> set stops) s)"

text \<open>\<^verbatim>\<open>rsplit('@').next()\<close>: what follows the last \<^verbatim>\<open>@\<close>, the whole string without one.\<close>

definition after_last :: "char \<Rightarrow> string \<Rightarrow> string" where
  "after_last c s = rev (takeWhile (\<lambda>d. d \<noteq> c) (rev s))"

text \<open>\<^verbatim>\<open>split(':').next()\<close>: what precedes the first \<^verbatim>\<open>:\<close>.\<close>

definition before_first :: "char \<Rightarrow> string \<Rightarrow> string" where
  "before_first c s = takeWhile (\<lambda>d. d \<noteq> c) s"

definition twitch_host :: "string \<Rightarrow> string" where
  "twitch_host authority = before_first CHR '':'' (after_last CHR ''@'' authority)"

definition is_twitch_host :: "string \<Rightarrow> bool" where
  "is_twitch_host h \<longleftrightarrow> h = ''twitch.tv'' \<or> ends_with ''.twitch.tv'' h"

definition twitch_from_url :: "string \<Rightarrow> string + twitch_item" where
  "twitch_from_url input =
     (let trimmed = trim input in
      case opt_or (strip_prefix https_scheme trimmed) (strip_prefix http_scheme trimmed) of
        None \<Rightarrow> Inl ''not a Twitch URL: the scheme must be http or https''
      | Some rest \<Rightarrow>
          (let (auth, tail) = split_at_any [CHR ''/'', CHR ''?'', CHR ''#''] rest;
               authority = to_ascii_lowercase auth in
           if CHR 0x5C \<in> set authority
           then Inl ''not a Twitch URL: the host is not a twitch.tv host''
           else
             (let host = twitch_host authority in
              if host \<noteq> ''twitch.tv'' \<and> \<not> ends_with ''.twitch.tv'' host
              then Inl (''not a Twitch URL: '' @ host @ '' is not a twitch.tv host'')
              else
                (let path = fst (split_at_any [CHR ''?'', CHR ''#''] tail);
                     title = dropWhile (\<lambda>c. c = CHR ''/'') path
                 in Inr \<lparr>twitch_url = trimmed,
                         twitch_title = (if title = [] then host else title)\<rparr>))))"

section \<open>Lemmas on the split operations\<close>

lemma split_at_any_append: "split_at_any stops s = (a, b) \<Longrightarrow> s = a @ b"
  by (auto simp: split_at_any_def)

lemma split_at_any_fst: "c \<in> set (fst (split_at_any stops s)) \<Longrightarrow> c \<notin> set stops"
  by (auto simp: split_at_any_def dest: set_takeWhileD)

lemma split_at_any_snd:
  "snd (split_at_any stops s) = [] \<or> hd (snd (split_at_any stops s)) \<in> set stops"
  using hd_dropWhile [of "\<lambda>c. c \<notin> set stops" s] by (auto simp: split_at_any_def)

lemma after_last_decomp:
  "\<exists>u. s = u @ after_last c s \<and> (u = [] \<or> last u = c) \<and> c \<notin> set (after_last c s)"
proof -
  let ?d = "dropWhile (\<lambda>d. d \<noteq> c) (rev s)"
  have "s = rev ?d @ after_last c s"
    unfolding after_last_def by (metis rev_append rev_rev_ident takeWhile_dropWhile_id)
  moreover have "rev ?d = [] \<or> last (rev ?d) = c"
    using hd_dropWhile [of "\<lambda>d. d \<noteq> c" "rev s"] by (auto simp: last_rev)
  moreover have "c \<notin> set (after_last c s)"
    by (auto simp: after_last_def dest: set_takeWhileD)
  ultimately show ?thesis by blast
qed

lemma before_first_decomp:
  "\<exists>p. s = before_first c s @ p \<and> (p = [] \<or> hd p = c) \<and> c \<notin> set (before_first c s)"
proof -
  have "s = before_first c s @ dropWhile (\<lambda>d. d \<noteq> c) s"
    by (simp add: before_first_def)
  moreover have "dropWhile (\<lambda>d. d \<noteq> c) s = [] \<or> hd (dropWhile (\<lambda>d. d \<noteq> c) s) = c"
    using hd_dropWhile [of "\<lambda>d. d \<noteq> c" s] by auto
  moreover have "c \<notin> set (before_first c s)"
    by (auto simp: before_first_def dest: set_takeWhileD)
  ultimately show ?thesis by blast
qed

lemma lower_fixes_sep:
  "c \<in> {CHR ''@'', CHR '':'', CHR 0x5C} \<Longrightarrow> ascii_lower_char d = c \<longleftrightarrow> d = c"
proof -
  have char_of_lower: "of_char (ascii_lower_char d) =
      (let n = of_char d :: nat in if 65 \<le> n \<and> n \<le> 90 then n + 32 else n)"
    by (simp add: ascii_lower_char_def Let_def of_char_of)
  assume "c \<in> {CHR ''@'', CHR '':'', CHR 0x5C}"
  then have c: "of_char c = (64::nat) \<or> of_char c = (58::nat) \<or> of_char c = (92::nat)"
    by auto
  show ?thesis
  proof
    assume "ascii_lower_char d = c"
    with char_of_lower c have "(of_char d :: nat) = of_char c"
      by (auto simp: Let_def split: if_splits)
    then show "d = c" by simp
  next
    assume "d = c"
    with c show "ascii_lower_char d = c"
      by (auto simp: ascii_lower_char_def Let_def)
  qed
qed

lemma twitch_host_lower:
  "twitch_host (to_ascii_lowercase s) = to_ascii_lowercase (twitch_host s)"
  unfolding twitch_host_def before_first_def after_last_def to_ascii_lowercase_def rev_map
    takeWhile_map comp_def
  by (simp add: lower_fixes_sep rev_map [symmetric] takeWhile_map comp_def)

lemma backslash_lower [simp]:
  "CHR 0x5C \<in> set (to_ascii_lowercase s) \<longleftrightarrow> CHR 0x5C \<in> set s"
proof -
  have "CHR 0x5C = ascii_lower_char d \<longleftrightarrow> d = CHR 0x5C" for d
    using lower_fixes_sep [of "CHR 0x5C" d] by (metis insertI1 insertI2)
  then show ?thesis by (simp add: to_ascii_lowercase_def image_iff)
qed

lemma split_at_any_unique:
  assumes "set stops \<inter> set a = {}" "b = [] \<or> hd b \<in> set stops"
  shows "split_at_any stops (a @ b) = (a, b)"
  using assms by (cases b) (auto simp: split_at_any_def disjoint_iff takeWhile_append dropWhile_append)

lemma after_last_unique:
  assumes "c \<notin> set b" "u = [] \<or> last u = c"
  shows "after_last c (u @ b) = b"
proof (cases u rule: rev_cases)
  case (snoc v d)
  with assms have "takeWhile (\<lambda>d. d \<noteq> c) (rev b @ c # rev v) = rev b"
    by (intro takeWhile_tail [THEN trans]) auto
  with snoc assms show ?thesis by (simp add: after_last_def)
next
  case Nil
  have "takeWhile (\<lambda>d. d \<noteq> c) (rev b) = rev b"
    using assms(1) by (auto simp: takeWhile_eq_all_conv)
  with Nil show ?thesis unfolding after_last_def by (metis append_Nil rev_rev_ident)
qed

lemma before_first_unique:
  assumes "c \<notin> set b" "p = [] \<or> hd p = c"
  shows "before_first c (b @ p) = b"
  using assms by (cases p) (auto simp: before_first_def takeWhile_append)

section \<open>Which URLs are accepted\<close>

text \<open>The shape of an accepted URL, in terms of the parts a URL has.\<close>

definition twitch_url_shape :: "string \<Rightarrow> bool" where
  "twitch_url_shape url \<longleftrightarrow>
     (\<exists>scheme userinfo host port tail.
        url = scheme @ userinfo @ host @ port @ tail
      \<and> scheme \<in> {https_scheme, http_scheme}
      \<and> (tail = [] \<or> hd tail \<in> {CHR ''/'', CHR ''?'', CHR ''#''})
      \<and> {CHR ''/'', CHR ''?'', CHR ''#'', CHR 0x5C} \<inter> set (userinfo @ host @ port) = {}
      \<and> (userinfo = [] \<or> last userinfo = CHR ''@'')
      \<and> (port = [] \<or> hd port = CHR '':'')
      \<and> CHR ''@'' \<notin> set (host @ port) \<and> CHR '':'' \<notin> set host
      \<and> is_twitch_host (to_ascii_lowercase host))"

lemma twitch_host_shape:
  assumes "set [CHR ''/'', CHR ''?'', CHR ''#''] \<inter> set auth = {}" "CHR 0x5C \<notin> set auth"
    and "is_twitch_host (to_ascii_lowercase (twitch_host auth))"
    and "scheme \<in> {https_scheme, http_scheme}"
    and "tail = [] \<or> hd tail \<in> {CHR ''/'', CHR ''?'', CHR ''#''}"
  shows "twitch_url_shape (scheme @ auth @ tail)"
proof -
  obtain u where u: "auth = u @ after_last CHR ''@'' auth" "u = [] \<or> last u = CHR ''@''"
      "CHR ''@'' \<notin> set (after_last CHR ''@'' auth)"
    using after_last_decomp by blast
  obtain p where p: "after_last CHR ''@'' auth = twitch_host auth @ p"
      "p = [] \<or> hd p = CHR '':''" "CHR '':'' \<notin> set (twitch_host auth)"
    using before_first_decomp unfolding twitch_host_def by blast
  have auth: "auth = u @ twitch_host auth @ p" using u(1) p(1) by simp
  show ?thesis
    unfolding twitch_url_shape_def
  proof (intro exI conjI)
    show "scheme @ auth @ tail = scheme @ u @ twitch_host auth @ p @ tail"
      using auth by simp
    show "{CHR ''/'', CHR ''?'', CHR ''#'', CHR 0x5C} \<inter> set (u @ twitch_host auth @ p) = {}"
      using assms(1,2) unfolding auth [symmetric] by auto
    show "CHR ''@'' \<notin> set (twitch_host auth @ p)" using u(3) p(1) by simp
  qed (use assms u p in auto)
qed

lemma twitch_shape_split:
  assumes "twitch_url_shape url"
  obtains auth tail where "url = https_scheme @ auth @ tail \<or> url = http_scheme @ auth @ tail"
    and "split_at_any [CHR ''/'', CHR ''?'', CHR ''#''] (auth @ tail) = (auth, tail)"
    and "CHR 0x5C \<notin> set auth" and "is_twitch_host (to_ascii_lowercase (twitch_host auth))"
proof -
  from assms [unfolded twitch_url_shape_def]
  obtain scheme u h p t where *: "url = scheme @ u @ h @ p @ t"
      "scheme \<in> {https_scheme, http_scheme}"
      "t = [] \<or> hd t \<in> {CHR ''/'', CHR ''?'', CHR ''#''}"
      "{CHR ''/'', CHR ''?'', CHR ''#'', CHR 0x5C} \<inter> set (u @ h @ p) = {}"
      "u = [] \<or> last u = CHR ''@''" "p = [] \<or> hd p = CHR '':''"
      "CHR ''@'' \<notin> set (h @ p)" "CHR '':'' \<notin> set h" "is_twitch_host (to_ascii_lowercase h)"
    by (elim exE conjE) (rule that; assumption)
  have "split_at_any [CHR ''/'', CHR ''?'', CHR ''#''] ((u @ h @ p) @ t) = (u @ h @ p, t)"
    using *(3,4) by (intro split_at_any_unique) auto
  moreover have "twitch_host (u @ h @ p) = h"
    unfolding twitch_host_def after_last_unique [OF *(7,5)] by (rule before_first_unique [OF *(8,6)])
  moreover have "url = https_scheme @ (u @ h @ p) @ t \<or> url = http_scheme @ (u @ h @ p) @ t"
    using *(1,2) by auto
  moreover have "CHR 0x5C \<notin> set (u @ h @ p)" using *(4) by blast
  ultimately show ?thesis
    using *(9) that [of "u @ h @ p" t] by metis
qed

text \<open>
  C37. A URL is accepted as a Twitch item exactly when, trimmed, it reads
  \<^verbatim>\<open>scheme authority tail\<close> with scheme \<^verbatim>\<open>http://\<close> or \<^verbatim>\<open>https://\<close>, an authority free of \<^verbatim>\<open>/ ? #\<close> and of
  backslashes, and a host (after any user information, before any port) that is
  \<^verbatim>\<open>twitch.tv\<close> or a subdomain of it up to ASCII case; and the item keeps that trimmed URL.
\<close>

theorem twitch_accepts_iff:
  "(case twitch_from_url url of Inl _ \<Rightarrow> False | Inr t \<Rightarrow> twitch_url t = trim url)
     \<longleftrightarrow> twitch_url_shape (trim url)"
proof
  assume acc: "case twitch_from_url url of Inl _ \<Rightarrow> False | Inr t \<Rightarrow> twitch_url t = trim url"
  obtain rest where rest: "trim url = https_scheme @ rest \<or> trim url = http_scheme @ rest"
      "opt_or (strip_prefix https_scheme (trim url)) (strip_prefix http_scheme (trim url))
        = Some rest"
    using acc unfolding twitch_from_url_def
    by (cases "strip_prefix https_scheme (trim url)"; cases "strip_prefix http_scheme (trim url)")
      (auto simp: Let_def)
  obtain auth tail where sp:
      "split_at_any [CHR ''/'', CHR ''?'', CHR ''#''] rest = (auth, tail)"
    by (cases "split_at_any [CHR ''/'', CHR ''?'', CHR ''#''] rest")
  have "CHR 0x5C \<notin> set auth" "is_twitch_host (to_ascii_lowercase (twitch_host auth))"
    using acc rest(2) sp
    by (auto simp: twitch_from_url_def is_twitch_host_def Let_def twitch_host_lower
        split: if_splits)
  moreover have "set [CHR ''/'', CHR ''?'', CHR ''#''] \<inter> set auth = {}"
    using split_at_any_fst [of _ "[CHR ''/'', CHR ''?'', CHR ''#'']" rest] sp by auto
  moreover have "tail = [] \<or> hd tail \<in> {CHR ''/'', CHR ''?'', CHR ''#''}"
    using split_at_any_snd [of "[CHR ''/'', CHR ''?'', CHR ''#'']" rest] sp by auto
  ultimately have "twitch_url_shape (scheme @ auth @ tail)"
    if "scheme \<in> {https_scheme, http_scheme}" for scheme
    using that by (intro twitch_host_shape)
  then show "twitch_url_shape (trim url)"
    using rest(1) split_at_any_append [OF sp] by (metis insertI1 insertI2)
next
  assume "twitch_url_shape (trim url)"
  then obtain auth tail where
      url: "trim url = https_scheme @ auth @ tail \<or> trim url = http_scheme @ auth @ tail"
    and sp: "split_at_any [CHR ''/'', CHR ''?'', CHR ''#''] (auth @ tail) = (auth, tail)"
    and ok: "CHR 0x5C \<notin> set auth" "is_twitch_host (to_ascii_lowercase (twitch_host auth))"
    by (rule twitch_shape_split)
  have "opt_or (strip_prefix https_scheme (trim url)) (strip_prefix http_scheme (trim url))
      = Some (auth @ tail)"
    using url by (auto simp: strip_prefix_def starts_with_def https_scheme_def http_scheme_def)
  with sp ok show "case twitch_from_url url of Inl _ \<Rightarrow> False | Inr t \<Rightarrow> twitch_url t = trim url"
    by (auto simp: twitch_from_url_def is_twitch_host_def Let_def twitch_host_lower)
qed

end
