(* ===== verification/Progress.thy ===== *)
theory Progress
  imports Queue_Items
begin

text \<open>
  Slot progress (\<^verbatim>\<open>crates/mbv-queue/src/progress.rs\<close>): what position an observed completion or
  stop records for an item, the progress a slot carries, and the write of a position and
  played flag into an item of any kind.
\<close>

definition MEANINGFUL_TRACK_COMPLETED_PROGRESS_TICKS :: i64 where
  "MEANINGFUL_TRACK_COMPLETED_PROGRESS_TICKS = 30 * TICKS_PER_SECOND"

definition played_emby_video :: "queue_item \<Rightarrow> bool" where
  "played_emby_video it \<longleftrightarrow>
     \<not> (case it of QI_Feed _ \<Rightarrow> True | QI_Twitch _ \<Rightarrow> True | _ \<Rightarrow> False) \<and> \<not> qi_is_audio it"

datatype progress_observation =
    Obs_Completed (obs_position: i64) (obs_played: bool)
  | Obs_Stopped (obs_position: i64) (obs_played: bool)

fun position_to_record :: "progress_observation \<Rightarrow> queue_item \<Rightarrow> i64" where
  "position_to_record (Obs_Completed position_ticks played) it =
     (if played then (if played_emby_video it then position_ticks else 0)
      else if position_ticks \<ge> MEANINGFUL_TRACK_COMPLETED_PROGRESS_TICKS \<and> \<not> qi_is_audio it
      then position_ticks
      else qi_playback_position_ticks it)"
| "position_to_record (Obs_Stopped position_ticks played) it =
     (if played then (if played_emby_video it \<and> position_ticks > 0 then position_ticks else 0)
      else if position_ticks > 0 \<and> \<not> qi_is_audio it then position_ticks
      else qi_playback_position_ticks it)"

record slot_progress =
  sp_position_ticks :: i64
  sp_played :: bool

definition slot_progress_from_emby :: "emby_item \<Rightarrow> slot_progress" where
  "slot_progress_from_emby it =
     \<lparr>sp_position_ticks = emby_playback_position_ticks it, sp_played = emby_played it\<rparr>"

fun slot_progress_from_queue_item :: "queue_item \<Rightarrow> slot_progress" where
  "slot_progress_from_queue_item (QI_Emby it) = slot_progress_from_emby it"
| "slot_progress_from_queue_item (QI_Feed e) =
     \<lparr>sp_position_ticks = feed_position_ticks e, sp_played = feed_played e\<rparr>"
| "slot_progress_from_queue_item (QI_Audiobookshelf a) =
     \<lparr>sp_position_ticks = abs_playback_position_ticks a, sp_played = abs_played a\<rparr>"
| "slot_progress_from_queue_item (QI_Twitch t) =
     \<lparr>sp_position_ticks = 0, sp_played = False\<rparr>"

fun apply_progress_to_queue_item :: "queue_item \<Rightarrow> i64 \<Rightarrow> bool \<Rightarrow> queue_item" where
  "apply_progress_to_queue_item (QI_Emby it) position_ticks played =
     QI_Emby (it\<lparr>emby_playback_position_ticks := position_ticks, emby_played := played\<rparr>)"
| "apply_progress_to_queue_item (QI_Feed e) position_ticks played =
     QI_Feed (e\<lparr>feed_position_ticks := position_ticks, feed_played := played\<rparr>)"
| "apply_progress_to_queue_item (QI_Audiobookshelf (ABS_Episode e)) position_ticks played =
     QI_Audiobookshelf (ABS_Episode (e\<lparr>ep_position_ticks := position_ticks,
       ep_played := played, ep_is_finished := played\<rparr>))"
| "apply_progress_to_queue_item (QI_Audiobookshelf (ABS_Book b)) position_ticks played =
     QI_Audiobookshelf (ABS_Book (b\<lparr>book_position_ticks := position_ticks,
       book_played := played, book_is_finished := played\<rparr>))"
| "apply_progress_to_queue_item (QI_Twitch t) position_ticks played = QI_Twitch t"

section \<open>Frame and read-back\<close>

lemma apply_progress_frame [simp]:
  "qi_content_id (apply_progress_to_queue_item it p b) = qi_content_id it"
  "qi_kind (apply_progress_to_queue_item it p b) = qi_kind it"
  "qi_is_audio (apply_progress_to_queue_item it p b) = qi_is_audio it"
  "qi_is_video (apply_progress_to_queue_item it p b) = qi_is_video it"
  "qi_is_audiobookshelf (apply_progress_to_queue_item it p b) = qi_is_audiobookshelf it"
  "qi_is_emby (apply_progress_to_queue_item it p b) = qi_is_emby it"
  "qi_runtime_ticks (apply_progress_to_queue_item it p b) = qi_runtime_ticks it"
  by (induction it p b rule: apply_progress_to_queue_item.induct;
      simp add: emby_is_audio_def emby_is_video_def mime_is_def abs_is_audio_def abs_is_video_def
        abs_episode_content_id_def abs_book_content_id_def abs_runtime_ticks_def)+

lemma apply_progress_is_Twitch:
  "(case apply_progress_to_queue_item it p b of QI_Twitch t \<Rightarrow> P t | _ \<Rightarrow> Q)
    = (case it of QI_Twitch t \<Rightarrow> P t | _ \<Rightarrow> Q)"
  by (induction it p b rule: apply_progress_to_queue_item.induct) auto

lemma apply_progress_twice [simp]:
  "apply_progress_to_queue_item (apply_progress_to_queue_item it p b) q c
    = apply_progress_to_queue_item it q c"
  by (induction it p b rule: apply_progress_to_queue_item.induct) auto

lemma apply_progress_kind_emby:
  "apply_progress_to_queue_item (QI_Emby e) p b =
     QI_Emby (e\<lparr>emby_playback_position_ticks := p, emby_played := b\<rparr>)"
  by simp

text \<open>
  Writing a position and played flag into an item and reading the slot's progress back
  gives exactly what was written, for every kind that keeps playback state, and leaves the
  item's content identity alone; a Twitch item keeps reading as unplayed at zero.
\<close>

theorem progress_read_back:
  "qi_content_id (apply_progress_to_queue_item it p b) = qi_content_id it
   \<and> slot_progress_from_queue_item (apply_progress_to_queue_item it p b)
      = (case it of QI_Twitch _ \<Rightarrow> \<lparr>sp_position_ticks = 0, sp_played = False\<rparr>
         | _ \<Rightarrow> \<lparr>sp_position_ticks = p, sp_played = b\<rparr>)"
  by (induction it p b rule: apply_progress_to_queue_item.induct)
    (auto simp: slot_progress_from_emby_def abs_episode_content_id_def abs_book_content_id_def)

section \<open>The recorded position\<close>

lemma stored_position_progress:
  "qi_playback_position_ticks it = sp_position_ticks (slot_progress_from_queue_item it)"
  by (cases it) (auto simp: slot_progress_from_emby_def)

text \<open>
  What an observation records. An audio item never gains a resume point: it keeps its
  stored position, or zero once played. A video that was not played out records the observed
  position only when it is meaningful (thirty seconds for a completion, anything positive for
  a stop) and otherwise keeps the stored one; and a played occurrence of a feed entry or a
  Twitch item records zero.
\<close>

theorem recorded_position:
  "position_to_record obs it =
     (if obs_played obs
      then (if qi_is_emby it \<and> \<not> qi_is_audio it
               \<and> (case obs of Obs_Completed _ _ \<Rightarrow> True | Obs_Stopped p _ \<Rightarrow> 0 < p)
            then obs_position obs else 0)
      else if \<not> qi_is_audio it
            \<and> (case obs of Obs_Completed p _ \<Rightarrow> 30 * 10000000 \<le> p | Obs_Stopped p _ \<Rightarrow> 0 < p)
      then obs_position obs
      else qi_playback_position_ticks it)"
  by (cases obs; cases it)
    (auto simp: played_emby_video_def MEANINGFUL_TRACK_COMPLETED_PROGRESS_TICKS_def
      TICKS_PER_SECOND_def abs_is_audio_def)

end
