(* ===== verification/Playback_Queue.thy ===== *)
theory Playback_Queue
  imports Progress
begin

text \<open>
  The canonical playback queue (\<^verbatim>\<open>crates/mbv-queue/src/lib.rs\<close>): one ordered slot sequence
  with stable slot identities, the active marker, the slot-id allocator and the revision.
  Revisions come from an owner-scoped mint shared through an \<^verbatim>\<open>Arc\<close>: a queue holds the
  mint's identity, and the mints' counters live in an explicit store that every operation
  takes and returns, so two queues that share a mint are two queues with the same mint
  identity. An operation takes its arguments, the queue and the store, and returns its
  result (when it has one), the new queue and the new store.
\<close>

section \<open>Slots, results, revisions\<close>

type_synonym queue_slot_id = u64
type_synonym queue_revision = u64
type_synonym mint_id = nat
type_synonym mint_store = "mint_id \<Rightarrow> u64"

record queue_slot =
  qs_slot_id :: queue_slot_id
  qs_item :: queue_item

record exec_slot =
  xs_slot_id :: queue_slot_id
  xs_item :: queue_item

datatype remove_slot_result =
    Removed queue_slot
  | RequiresActiveConfirmation queue_slot_id
  | Remove_NotFound

datatype 'a queue_mutation_result = Applied 'a | Mutation_NotFound

record refresh_merge_result =
  updated_slots :: "queue_slot_id list"
  pruned_slots :: "queue_slot_id list"
  protected_slots :: "queue_slot_id list"

definition empty_merge_result :: refresh_merge_result where
  "empty_merge_result = \<lparr>updated_slots = [], pruned_slots = [], protected_slots = []\<rparr>"

record playback_queue =
  pq_slots :: "queue_slot list"
  pq_active :: "queue_slot_id option"
  pq_revision :: queue_revision
  pq_mint :: mint_id
  pq_next_slot_id :: u64

text \<open>\<^verbatim>\<open>AtomicU64::fetch_add(1)\<close> returns the old counter and wraps.\<close>

definition mint_revision :: "mint_id \<Rightarrow> mint_store \<Rightarrow> queue_revision \<times> mint_store" where
  "mint_revision m h = (h m, h(m := h m + 1))"

definition bump :: "playback_queue \<Rightarrow> mint_store \<Rightarrow> playback_queue \<times> mint_store" where
  "bump q h = (let (r, h') = mint_revision (pq_mint q) h in (q\<lparr>pq_revision := r\<rparr>, h'))"

definition bump_if :: "bool \<Rightarrow> playback_queue \<Rightarrow> mint_store \<Rightarrow> playback_queue \<times> mint_store" where
  "bump_if b q h = (if b then bump q h else (q, h))"

definition slot_local_progress :: "queue_slot \<Rightarrow> slot_progress" where
  "slot_local_progress s = slot_progress_from_queue_item (qs_item s)"

section \<open>Reads\<close>

definition slot_ids :: "playback_queue \<Rightarrow> queue_slot_id list" where
  "slot_ids q = map qs_slot_id (pq_slots q)"

definition slot_index :: "playback_queue \<Rightarrow> queue_slot_id \<Rightarrow> usize option" where
  "slot_index q sid = position (\<lambda>s. qs_slot_id s = sid) (pq_slots q)"

definition slot :: "playback_queue \<Rightarrow> queue_slot_id \<Rightarrow> queue_slot option" where
  "slot q sid = List.find (\<lambda>s. qs_slot_id s = sid) (pq_slots q)"

definition active_index :: "playback_queue \<Rightarrow> usize option" where
  "active_index q = Option.bind (pq_active q) (slot_index q)"

definition active_slot :: "playback_queue \<Rightarrow> queue_slot option" where
  "active_slot q = Option.bind (pq_active q) (slot q)"

definition slot_pairs :: "playback_queue \<Rightarrow> exec_slot list" where
  "slot_pairs q =
     map (\<lambda>s. \<lparr>xs_slot_id = qs_slot_id s, xs_item = qs_item s\<rparr>) (pq_slots q)"

definition pq_len :: "playback_queue \<Rightarrow> usize" where
  "pq_len q = length (pq_slots q)"

definition pq_is_empty :: "playback_queue \<Rightarrow> bool" where
  "pq_is_empty q \<longleftrightarrow> pq_slots q = []"

definition has_audiobookshelf_entries :: "playback_queue \<Rightarrow> bool" where
  "has_audiobookshelf_entries q \<longleftrightarrow> (\<exists>s\<in>set (pq_slots q). qi_is_audiobookshelf (qs_item s))"

definition has_non_emby_entries :: "playback_queue \<Rightarrow> bool" where
  "has_non_emby_entries q \<longleftrightarrow> (\<exists>s\<in>set (pq_slots q). \<not> qi_is_emby (qs_item s))"

section \<open>Allocation and construction\<close>

definition allocate_slot_id :: "playback_queue \<Rightarrow> queue_slot_id \<times> playback_queue" where
  "allocate_slot_id q =
     (pq_next_slot_id q, q\<lparr>pq_next_slot_id := u64_sat_inc (pq_next_slot_id q)\<rparr>)"

text \<open>The loop that gives each item a fresh slot at the end of the queue.\<close>

fun push_items :: "queue_item list \<Rightarrow> playback_queue \<Rightarrow> playback_queue" where
  "push_items [] q = q"
| "push_items (it # items) q =
     (let (sid, q1) = allocate_slot_id q in
      push_items items
        (q1\<lparr>pq_slots := pq_slots q1 @ [\<lparr>qs_slot_id = sid, qs_item = it\<rparr>]\<rparr>))"

definition from_queue_items ::
  "queue_item list \<Rightarrow> usize option \<Rightarrow> mint_id \<Rightarrow> mint_store \<Rightarrow> playback_queue \<times> mint_store" where
  "from_queue_items items act m h =
     (let (r, h') = mint_revision m h;
          q = push_items items \<lparr>pq_slots = [], pq_active = None, pq_revision = r, pq_mint = m,
                                pq_next_slot_id = 1\<rparr>
      in (q\<lparr>pq_active :=
              Option.bind act (\<lambda>i. map_option qs_slot_id (nth_opt (pq_slots q) i))\<rparr>, h'))"

definition from_items ::
  "emby_item list \<Rightarrow> usize option \<Rightarrow> mint_id \<Rightarrow> mint_store \<Rightarrow> playback_queue \<times> mint_store" where
  "from_items items act m h = from_queue_items (map QI_Emby items) act m h"

text \<open>\<^verbatim>\<open>iter().max().unwrap_or(0).saturating_add(1)\<close>.\<close>

definition next_after :: "queue_slot_id list \<Rightarrow> u64" where
  "next_after ids = u64_sat_inc (foldr max ids 0)"

definition from_slot_items ::
  "(queue_slot_id \<times> queue_item) list \<Rightarrow> queue_slot_id option \<Rightarrow> mint_id \<Rightarrow> mint_store
   \<Rightarrow> playback_queue \<times> mint_store" where
  "from_slot_items pairs act m h =
     (let slots = map (\<lambda>(sid, it). \<lparr>qs_slot_id = sid, qs_item = it\<rparr>) pairs;
          (r, h') = mint_revision m h
      in (\<lparr>pq_slots = slots,
           pq_active = opt_filter (\<lambda>sid. \<exists>s\<in>set slots. qs_slot_id s = sid) act,
           pq_revision = r, pq_mint = m, pq_next_slot_id = next_after (map fst pairs)\<rparr>, h'))"

definition rebase_revision_mint ::
  "mint_id \<Rightarrow> playback_queue \<Rightarrow> mint_store \<Rightarrow> playback_queue \<times> mint_store" where
  "rebase_revision_mint m q h =
     (let (r, h') = mint_revision m h in (q\<lparr>pq_revision := r, pq_mint := m\<rparr>, h'))"

section \<open>Edits\<close>

definition clear_active_slot :: "playback_queue \<Rightarrow> mint_store \<Rightarrow> playback_queue \<times> mint_store" where
  "clear_active_slot q h =
     (if pq_active q \<noteq> None then bump (q\<lparr>pq_active := None\<rparr>) h else (q, h))"

definition insert_slot ::
  "usize \<Rightarrow> queue_item \<Rightarrow> playback_queue \<Rightarrow> mint_store
   \<Rightarrow> queue_slot_id \<times> playback_queue \<times> mint_store" where
  "insert_slot index it q h =
     (let (sid, q1) = allocate_slot_id q;
          i = min index (length (pq_slots q1));
          q2 = q1\<lparr>pq_slots := insert_at i \<lparr>qs_slot_id = sid, qs_item = it\<rparr> (pq_slots q1)\<rparr>;
          (q3, h') = bump q2 h
      in (sid, q3, h'))"

definition append_slot ::
  "queue_item \<Rightarrow> playback_queue \<Rightarrow> mint_store
   \<Rightarrow> queue_slot_id \<times> playback_queue \<times> mint_store" where
  "append_slot it q h = insert_slot (length (pq_slots q)) it q h"

definition mint_slot_id :: "playback_queue \<Rightarrow> queue_slot_id \<times> playback_queue" where
  "mint_slot_id q = allocate_slot_id q"

definition append_with_id ::
  "queue_slot_id \<Rightarrow> queue_item \<Rightarrow> playback_queue \<Rightarrow> mint_store \<Rightarrow> playback_queue \<times> mint_store" where
  "append_with_id sid it q h =
     bump (q\<lparr>pq_slots := pq_slots q @ [\<lparr>qs_slot_id = sid, qs_item = it\<rparr>],
             pq_next_slot_id := max (pq_next_slot_id q) (u64_sat_inc sid)\<rparr>) h"

definition replace_slots ::
  "queue_item list \<Rightarrow> playback_queue \<Rightarrow> mint_store
   \<Rightarrow> usize option \<times> playback_queue \<times> mint_store" where
  "replace_slots items q h =
     (let old_active = Option.bind (pq_active q) (slot_index q);
          q1 = push_items items (q\<lparr>pq_slots := [], pq_active := None\<rparr>);
          (q2, h') = bump q1 h
      in (old_active, q2, h'))"

definition clear_slots :: "playback_queue \<Rightarrow> mint_store \<Rightarrow> playback_queue \<times> mint_store" where
  "clear_slots q h =
     (if pq_slots q = [] then (q, h)
      else bump (q\<lparr>pq_slots := [], pq_active := None\<rparr>) h)"

definition truncate_slots :: "usize \<Rightarrow> playback_queue \<Rightarrow> mint_store \<Rightarrow> playback_queue \<times> mint_store" where
  "truncate_slots len q h =
     (if len \<ge> length (pq_slots q) then (q, h)
      else
        (let (q1, h') = bump (q\<lparr>pq_slots := take len (pq_slots q)\<rparr>) h in
         (case pq_active q1 of
            None \<Rightarrow> (q1, h')
          | Some sid \<Rightarrow>
              (if slot_index q1 sid = None then (q1\<lparr>pq_active := None\<rparr>, h') else (q1, h')))))"

definition set_active_slot ::
  "queue_slot_id \<Rightarrow> playback_queue \<Rightarrow> mint_store
   \<Rightarrow> unit queue_mutation_result \<times> playback_queue \<times> mint_store" where
  "set_active_slot sid q h =
     (if slot_index q sid = None then (Mutation_NotFound, q, h)
      else if pq_active q \<noteq> Some sid
      then (let (q1, h') = bump (q\<lparr>pq_active := Some sid\<rparr>) h in (Applied (), q1, h'))
      else (Applied (), q, h))"

definition remove_existing_slot ::
  "queue_slot_id \<Rightarrow> playback_queue \<Rightarrow> mint_store
   \<Rightarrow> queue_slot option \<times> playback_queue \<times> mint_store" where
  "remove_existing_slot sid q h =
     (case slot_index q sid of
        None \<Rightarrow> (None, q, h)
      | Some index \<Rightarrow>
          (let removed = pq_slots q ! index;
               (q1, h') = bump (q\<lparr>pq_slots := remove_at index (pq_slots q)\<rparr>) h;
               q2 = (if pq_active q1 = Some sid
                     then q1\<lparr>pq_active := map_option qs_slot_id
                               (opt_or (nth_opt (pq_slots q1) index) (last_opt (pq_slots q1)))\<rparr>
                     else q1)
           in (Some removed, q2, h')))"

definition remove_slot ::
  "queue_slot_id \<Rightarrow> playback_queue \<Rightarrow> mint_store
   \<Rightarrow> remove_slot_result \<times> playback_queue \<times> mint_store" where
  "remove_slot sid q h =
     (if pq_active q = Some sid then (RequiresActiveConfirmation sid, q, h)
      else (let (r, q1, h') = remove_existing_slot sid q h in
            ((case r of None \<Rightarrow> Remove_NotFound | Some s \<Rightarrow> Removed s), q1, h')))"

definition remove_active_slot_confirmed ::
  "queue_slot_id \<Rightarrow> playback_queue \<Rightarrow> mint_store
   \<Rightarrow> remove_slot_result \<times> playback_queue \<times> mint_store" where
  "remove_active_slot_confirmed sid q h =
     (case slot_index q sid of
        None \<Rightarrow> (Remove_NotFound, q, h)
      | Some index \<Rightarrow>
          (let removed = pq_slots q ! index;
               (q1, h') = bump (q\<lparr>pq_slots := remove_at index (pq_slots q)\<rparr>) h;
               q2 = (if pq_active q1 = Some sid then q1\<lparr>pq_active := None\<rparr> else q1)
           in (Removed removed, q2, h')))"

definition consume_slot ::
  "queue_slot_id \<Rightarrow> playback_queue \<Rightarrow> mint_store
   \<Rightarrow> queue_slot queue_mutation_result \<times> playback_queue \<times> mint_store" where
  "consume_slot sid q h =
     (let (r, q1, h') = remove_existing_slot sid q h in
      ((case r of Some s \<Rightarrow> Applied s | None \<Rightarrow> Mutation_NotFound), q1, h'))"

text \<open>
  \<^verbatim>\<open>is_slot_permutation\<close>: equal lengths and equal sorted copies.
\<close>

definition is_slot_permutation :: "queue_slot_id list \<Rightarrow> queue_slot_id list \<Rightarrow> bool" where
  "is_slot_permutation current order =
     (if length current \<noteq> length order then False else sort current = sort order)"

text \<open>The \<^verbatim>\<open>HashMap\<close> from slot id to slot, emptied while the order is walked.\<close>

fun slots_by_id :: "queue_slot list \<Rightarrow> (queue_slot_id \<rightharpoonup> queue_slot) \<Rightarrow> (queue_slot_id \<rightharpoonup> queue_slot)" where
  "slots_by_id [] m = m"
| "slots_by_id (s # ss) m = slots_by_id ss (m(qs_slot_id s \<mapsto> s))"

fun take_in_order :: "queue_slot_id list \<Rightarrow> (queue_slot_id \<rightharpoonup> queue_slot) \<Rightarrow> queue_slot list" where
  "take_in_order [] m = []"
| "take_in_order (sid # sids) m =
     (case m sid of
        None \<Rightarrow> take_in_order sids m
      | Some s \<Rightarrow> s # take_in_order sids (m(sid := None)))"

definition reorder_slots ::
  "queue_slot_id list \<Rightarrow> playback_queue \<Rightarrow> mint_store
   \<Rightarrow> unit queue_mutation_result \<times> playback_queue \<times> mint_store" where
  "reorder_slots order q h =
     (if slot_ids q = order then (Applied (), q, h)
      else if \<not> is_slot_permutation (slot_ids q) order then (Mutation_NotFound, q, h)
      else (let (q1, h') = bump (q\<lparr>pq_slots :=
                take_in_order order (slots_by_id (pq_slots q) Map.empty)\<rparr>) h
            in (Applied (), q1, h')))"

text \<open>\<open>shuffle\<close> stands for \<^verbatim>\<open>SliceRandom::shuffle\<close> with the caller's generator.\<close>

definition shuffled_slot_order ::
  "(queue_slot_id list \<Rightarrow> queue_slot_id list) \<Rightarrow> bool \<Rightarrow> playback_queue \<Rightarrow> queue_slot_id list" where
  "shuffled_slot_order shuffle pin_active_first q =
     (let act = opt_filter (\<lambda>_. pin_active_first) (pq_active q);
          order = shuffle (filter (\<lambda>sid. Some sid \<noteq> act) (slot_ids q))
      in (case act of None \<Rightarrow> order | Some sid \<Rightarrow> insert_at 0 sid order))"

definition move_slot ::
  "queue_slot_id \<Rightarrow> usize \<Rightarrow> playback_queue \<Rightarrow> mint_store
   \<Rightarrow> unit queue_mutation_result \<times> playback_queue \<times> mint_store" where
  "move_slot sid to_index q h =
     (case slot_index q sid of
        None \<Rightarrow> (Mutation_NotFound, q, h)
      | Some from_index \<Rightarrow>
          (let s = pq_slots q ! from_index;
               rest = remove_at from_index (pq_slots q);
               (q1, h') = bump (q\<lparr>pq_slots := insert_at (min to_index (length rest)) s rest\<rparr>) h
           in (Applied (), q1, h')))"

text \<open>
  \<^verbatim>\<open>queue_items_equal\<close> compares the JSON bytes of the two items. The serializer writes every
  field of an item and its kind tag, so equal bytes are equal items.
\<close>

definition queue_items_equal :: "queue_item \<Rightarrow> queue_item \<Rightarrow> bool" where
  "queue_items_equal left right \<longleftrightarrow> left = right"

definition update_slot_item ::
  "queue_slot_id \<Rightarrow> queue_item \<Rightarrow> playback_queue \<Rightarrow> mint_store
   \<Rightarrow> unit queue_mutation_result \<times> playback_queue \<times> mint_store" where
  "update_slot_item sid it q h =
     (case slot_index q sid of
        None \<Rightarrow> (Mutation_NotFound, q, h)
      | Some i \<Rightarrow>
          (let s = pq_slots q ! i;
               old_item = qs_item s;
               q1 = q\<lparr>pq_slots := (pq_slots q)[i := s\<lparr>qs_item := it\<rparr>]\<rparr>;
               (q2, h') = bump_if (\<not> queue_items_equal it old_item) q1 h
           in (Applied (), q2, h')))"

definition apply_progress ::
  "queue_slot_id \<Rightarrow> i64 \<Rightarrow> bool \<Rightarrow> playback_queue \<Rightarrow> mint_store
   \<Rightarrow> unit queue_mutation_result \<times> playback_queue \<times> mint_store" where
  "apply_progress sid position_ticks played q h =
     (case slot_index q sid of
        None \<Rightarrow> (Mutation_NotFound, q, h)
      | Some i \<Rightarrow>
          (let s = pq_slots q ! i;
               old_item = qs_item s;
               new_item = apply_progress_to_queue_item old_item position_ticks played;
               q1 = q\<lparr>pq_slots := (pq_slots q)[i := s\<lparr>qs_item := new_item\<rparr>]\<rparr>;
               (q2, h') = bump_if (\<not> queue_items_equal new_item old_item) q1 h
           in (Applied (), q2, h')))"

definition set_slot_progress_by_index ::
  "usize \<Rightarrow> i64 \<Rightarrow> playback_queue \<Rightarrow> mint_store \<Rightarrow> playback_queue \<times> mint_store" where
  "set_slot_progress_by_index index position_ticks q h =
     (case nth_opt (pq_slots q) index of
        None \<Rightarrow> (q, h)
      | Some s \<Rightarrow>
          (let (_, q1, h') = apply_progress (qs_slot_id s) position_ticks
                               (sp_played (slot_local_progress s)) q h
           in (q1, h')))"

section \<open>Refresh\<close>

definition merge_fetched_slot ::
  "queue_slot \<Rightarrow> emby_item \<Rightarrow> queue_slot_id option \<Rightarrow> refresh_merge_result
   \<Rightarrow> queue_slot \<times> refresh_merge_result" where
  "merge_fetched_slot s fetched act res =
     (if act = Some (qs_slot_id s)
      then
        (let local_progress = slot_local_progress s;
             s' = s\<lparr>qs_item := apply_progress_to_queue_item (QI_Emby fetched)
                    (sp_position_ticks local_progress) (sp_played local_progress)\<rparr>
         in (s', res\<lparr>protected_slots := protected_slots res @ [qs_slot_id s],
                     updated_slots := updated_slots res @ [qs_slot_id s]\<rparr>))
      else (s\<lparr>qs_item := QI_Emby fetched\<rparr>,
            res\<lparr>updated_slots := updated_slots res @ [qs_slot_id s]\<rparr>))"

text \<open>One fetched item applied to the captured slot; then the loop over the fetch.\<close>

definition refresh_one_slot ::
  "queue_slot_id option \<Rightarrow> queue_slot_id \<times> emby_item
   \<Rightarrow> queue_slot list \<times> refresh_merge_result \<times> bool
   \<Rightarrow> queue_slot list \<times> refresh_merge_result \<times> bool" where
  "refresh_one_slot act = (\<lambda>(sid, fetched) (slots, res, changed).
     (case position (\<lambda>s. qs_slot_id s = sid) slots of
        None \<Rightarrow> (slots, res, changed)
      | Some i \<Rightarrow>
          (let s = slots ! i in
           if qi_content_id (qs_item s) \<noteq> CId_Emby (emby_id fetched)
           then (slots, res, changed)
           else
             (let old_item = qs_item s;
                  updated_len = length (updated_slots res);
                  (s', res') = merge_fetched_slot s fetched act res
              in if queue_items_equal (qs_item s') old_item
                 then (slots[i := s'],
                       res'\<lparr>updated_slots := take updated_len (updated_slots res')\<rparr>, changed)
                 else (slots[i := s'], res', True)))))"

definition merge_refresh_for_slots ::
  "(queue_slot_id \<times> emby_item) list \<Rightarrow> playback_queue \<Rightarrow> mint_store
   \<Rightarrow> refresh_merge_result \<times> playback_queue \<times> mint_store" where
  "merge_refresh_for_slots fetched_slots q h =
     (let (slots, res, changed) =
            fold (refresh_one_slot (pq_active q)) fetched_slots
              (pq_slots q, empty_merge_result, False);
          (q', h') = bump_if changed (q\<lparr>pq_slots := slots\<rparr>) h
      in (res, q', h'))"

record fetched_item_matches =
  fm_items :: "emby_item list"
  fm_next_index :: usize

definition next_match :: "fetched_item_matches \<Rightarrow> emby_item \<times> fetched_item_matches" where
  "next_match m =
     (let index = min (fm_next_index m) (length (fm_items m) - 1)
      in (fm_items m ! index, m\<lparr>fm_next_index := fm_next_index m + 1\<rparr>))"

fun group_fetched_items ::
  "emby_item list \<Rightarrow> (queue_item_content_id \<rightharpoonup> fetched_item_matches)
   \<Rightarrow> (queue_item_content_id \<rightharpoonup> fetched_item_matches)" where
  "group_fetched_items [] g = g"
| "group_fetched_items (it # items) g =
     group_fetched_items items
       (g(CId_Emby (emby_id it) \<mapsto>
          (case g (CId_Emby (emby_id it)) of
             Some m \<Rightarrow> m\<lparr>fm_items := fm_items m @ [it]\<rparr>
           | None \<Rightarrow> \<lparr>fm_items = [it], fm_next_index = 0\<rparr>)))"

definition should_protect_missing_slot :: "queue_slot \<Rightarrow> queue_slot_id option \<Rightarrow> bool" where
  "should_protect_missing_slot s act \<longleftrightarrow> act = Some (qs_slot_id s)"

fun merge_refresh_loop ::
  "queue_slot list \<Rightarrow> queue_slot_id option \<Rightarrow> (queue_item_content_id \<rightharpoonup> fetched_item_matches)
   \<Rightarrow> refresh_merge_result \<Rightarrow> queue_slot list \<Rightarrow> bool
   \<Rightarrow> refresh_merge_result \<times> queue_slot list \<times> bool" where
  "merge_refresh_loop [] act g res merged changed = (res, merged, changed)"
| "merge_refresh_loop (s # ss) act g res merged changed =
     (if \<not> qi_is_emby (qs_item s)
      then
        (let res' = (if should_protect_missing_slot s act
                     then res\<lparr>protected_slots := protected_slots res @ [qs_slot_id s]\<rparr> else res)
         in merge_refresh_loop ss act g res' (merged @ [s]) changed)
      else
        (case g (qi_content_id (qs_item s)) of
           Some m \<Rightarrow>
             (let (fetched, m') = next_match m;
                  (s', res') = merge_fetched_slot s fetched act res
              in merge_refresh_loop ss act (g(qi_content_id (qs_item s) \<mapsto> m')) res'
                   (merged @ [s'])
                   (changed \<or> \<not> queue_items_equal (qs_item s') (qs_item s)))
         | None \<Rightarrow>
             (if should_protect_missing_slot s act
              then merge_refresh_loop ss act g
                     (res\<lparr>protected_slots := protected_slots res @ [qs_slot_id s]\<rparr>)
                     (merged @ [s]) changed
              else merge_refresh_loop ss act g
                     (res\<lparr>pruned_slots := pruned_slots res @ [qs_slot_id s]\<rparr>) merged True)))"

definition merge_refresh ::
  "emby_item list \<Rightarrow> playback_queue \<Rightarrow> mint_store
   \<Rightarrow> refresh_merge_result \<times> playback_queue \<times> mint_store" where
  "merge_refresh fetched_items q h =
     (let (res, merged, changed) =
            merge_refresh_loop (pq_slots q) (pq_active q)
              (group_fetched_items fetched_items Map.empty) empty_merge_result [] False;
          q1 = q\<lparr>pq_slots := merged\<rparr>;
          q2 = (case pq_active q1 of
                  None \<Rightarrow> q1
                | Some sid \<Rightarrow> (if slot_index q1 sid = None then q1\<lparr>pq_active := None\<rparr> else q1));
          (q3, h') = bump_if changed q2 h
      in (res, q3, h'))"

section \<open>The move plan of a reorder\<close>

text \<open>
  \<open>n\<close> is the target position the loop has reached, \<open>order\<close> the partially moved order.
  \<^verbatim>\<open>Vec::insert\<close> panics beyond the end of the vector, which is the value \<open>None\<close>.
\<close>

fun move_plan_loop ::
  "usize \<Rightarrow> queue_slot_id list \<Rightarrow> queue_slot_id list
   \<Rightarrow> (queue_slot_id \<times> usize) list option" where
  "move_plan_loop n order [] = Some []"
| "move_plan_loop n order (sid # target) =
     (case position (\<lambda>i. i = sid) order of
        None \<Rightarrow> move_plan_loop (Suc n) order target
      | Some from \<Rightarrow>
          (if from = n then move_plan_loop (Suc n) order target
           else
             (let order1 = remove_at from order in
              if n > length order1 then None
              else map_option (Cons (sid, n))
                     (move_plan_loop (Suc n) (insert_at n sid order1) target))))"

definition reorder_move_plan ::
  "queue_slot_id list \<Rightarrow> queue_slot_id list \<Rightarrow> (queue_slot_id \<times> usize) list option" where
  "reorder_move_plan current target = move_plan_loop 0 current target"

end
