(* ===== verification/Queue_Invariant.thy ===== *)
theory Queue_Invariant
  imports Playback_Queue
begin

text \<open>
  The invariant of the canonical queue and its proof for every operation: slot identities
  are pairwise distinct and below the allocator, and the active marker is unset or names a
  live slot (\<^verbatim>\<open>docs/invariants/01-slot-identity-active-revision.md\<close>); and the revision rule:
  an operation that changes the slots or the active marker mints a fresh revision. The
  operations are collected in one datatype, so both facts are stated over any run.
\<close>

named_theorems pq_edits \<open>the definitions of the queue edits\<close>

section \<open>Well-formed queues\<close>

definition pq_inv :: "playback_queue \<Rightarrow> bool" where
  "pq_inv q \<longleftrightarrow> distinct (slot_ids q)
     \<and> (\<forall>sid\<in>set (slot_ids q). sid < pq_next_slot_id q)
     \<and> (\<forall>sid. pq_active q = Some sid \<longrightarrow> sid \<in> set (slot_ids q))"

text \<open>The allocator can still hand out \<open>n\<close> fresh identities before it saturates.\<close>

definition pq_room :: "nat \<Rightarrow> playback_queue \<Rightarrow> bool" where
  "pq_room n q \<longleftrightarrow> unat (pq_next_slot_id q) + n < 2 ^ 64"

lemma pq_room_max: "pq_room n q \<Longrightarrow> 0 < n \<Longrightarrow> pq_next_slot_id q \<noteq> - 1"
  by (auto simp: pq_room_def unsigned_minus_1_eq_mask mask_eq_exp_minus_1)

lemma pq_room_mono: "pq_room n q \<Longrightarrow> m \<le> n \<Longrightarrow> pq_room m q"
  by (simp add: pq_room_def)

lemma pq_invD:
  assumes "pq_inv q"
  shows "distinct (slot_ids q)" "sid \<in> set (slot_ids q) \<Longrightarrow> sid < pq_next_slot_id q"
    "pq_active q = Some sid \<Longrightarrow> sid \<in> set (slot_ids q)"
  using assms by (auto simp: pq_inv_def)

lemma slot_index_None [simp]: "slot_index q sid = None \<longleftrightarrow> sid \<notin> set (slot_ids q)"
  by (auto simp: slot_index_def slot_ids_def)

lemma slot_index_Some:
  "slot_index q sid = Some i \<Longrightarrow> i < length (pq_slots q) \<and> qs_slot_id (pq_slots q ! i) = sid"
  by (auto simp: slot_index_def dest: position_lessD position_holds)

lemma slot_index_iff:
  assumes "distinct (slot_ids q)"
  shows "slot_index q sid = Some i \<longleftrightarrow> i < length (pq_slots q) \<and> qs_slot_id (pq_slots q ! i) = sid"
  using assms position_distinct [of qs_slot_id "pq_slots q" i sid] slot_index_Some
  by (auto simp: slot_index_def slot_ids_def)

lemma bump_simps [simp]:
  "pq_slots (fst (bump q h)) = pq_slots q" "pq_active (fst (bump q h)) = pq_active q"
  "pq_mint (fst (bump q h)) = pq_mint q"
  "pq_next_slot_id (fst (bump q h)) = pq_next_slot_id q"
  "pq_revision (fst (bump q h)) = h (pq_mint q)"
  "snd (bump q h) = h(pq_mint q := h (pq_mint q) + 1)"
  by (simp_all add: bump_def mint_revision_def)

lemma bump_eq: "bump q h = (q\<lparr>pq_revision := h (pq_mint q)\<rparr>, h(pq_mint q := h (pq_mint q) + 1))"
  by (simp add: bump_def mint_revision_def)

text \<open>Identities after the list operations.\<close>

lemma slot_ids_update [simp]:
  "slot_ids (q\<lparr>pq_slots := ss\<rparr>) = map qs_slot_id ss"
  "slot_ids (q\<lparr>pq_active := a\<rparr>) = slot_ids q"
  "slot_ids (q\<lparr>pq_revision := r\<rparr>) = slot_ids q"
  "slot_ids (q\<lparr>pq_mint := m\<rparr>) = slot_ids q"
  "slot_ids (q\<lparr>pq_next_slot_id := n\<rparr>) = slot_ids q"
  by (simp_all add: slot_ids_def)

lemma pq_inv_revision [simp]: "pq_inv (q\<lparr>pq_revision := r\<rparr>) = pq_inv q"
  by (simp add: pq_inv_def)

lemma pq_inv_mint [simp]: "pq_inv (q\<lparr>pq_mint := m\<rparr>) = pq_inv q"
  by (simp add: pq_inv_def)

lemma pq_inv_active_None: "pq_inv q \<Longrightarrow> pq_inv (q\<lparr>pq_active := None\<rparr>)"
  by (simp add: pq_inv_def)

text \<open>A new slot sequence drawn from the old identities keeps the invariant.\<close>

lemma pq_inv_slots:
  assumes "pq_inv q" "distinct (map qs_slot_id ss)" "set (map qs_slot_id ss) \<subseteq> set (slot_ids q)"
    and "\<And>sid. a = Some sid \<Longrightarrow> sid \<in> set (map qs_slot_id ss)"
  shows "pq_inv (q\<lparr>pq_slots := ss, pq_active := a\<rparr>)"
  using assms by (auto simp: pq_inv_def)

lemma pq_inv_same_ids:
  assumes "pq_inv q" "set (map qs_slot_id ss) = set (slot_ids q)" "distinct (map qs_slot_id ss)"
  shows "pq_inv (q\<lparr>pq_slots := ss\<rparr>)"
  using assms by (simp add: pq_inv_def)

lemma pq_inv_update_item:
  assumes "pq_inv q" "i < length (pq_slots q)" "qs_slot_id s = qs_slot_id (pq_slots q ! i)"
  shows "pq_inv (q\<lparr>pq_slots := (pq_slots q)[i := s]\<rparr>)"
proof -
  have "map qs_slot_id ((pq_slots q)[i := s]) = slot_ids q"
    using assms(2,3) by (simp add: slot_ids_def map_update list_update_same_conv)
  with assms(1) show ?thesis by (simp add: pq_inv_def)
qed

section \<open>Allocation\<close>

lemma pq_inv_fresh:
  assumes "pq_inv q" "pq_next_slot_id q \<noteq> - 1"
    and "set (map qs_slot_id ss) = insert (pq_next_slot_id q) (set (slot_ids q))"
    and "distinct (map qs_slot_id ss)"
  shows "pq_inv (q\<lparr>pq_next_slot_id := u64_sat_inc (pq_next_slot_id q), pq_slots := ss\<rparr>)"
  using assms u64_less_sat_inc [OF assms(2)]
  by (auto simp: pq_inv_def intro: u64_less_sat_inc_trans)

lemma fresh_not_in: "pq_inv q \<Longrightarrow> pq_next_slot_id q \<notin> set (slot_ids q)"
  by (auto simp: pq_inv_def)

lemma pq_room_sat_inc:
  "pq_room (Suc n) q \<Longrightarrow> pq_room n (q\<lparr>pq_next_slot_id := u64_sat_inc (pq_next_slot_id q)\<rparr>)"
  using unat_sat_inc [of "pq_next_slot_id q"] by (simp add: pq_room_def)

lemma pq_room_slots [simp]:
  "pq_room n (q\<lparr>pq_slots := ss\<rparr>) = pq_room n q"
  "pq_room n (q\<lparr>pq_active := a\<rparr>) = pq_room n q"
  "pq_room n (q\<lparr>pq_revision := r\<rparr>) = pq_room n q"
  by (simp_all add: pq_room_def)

lemma pq_inv_insert:
  assumes "pq_inv q" "pq_room 1 q"
  shows "pq_inv (fst (snd (insert_slot i it q h)))"
proof -
  let ?ss = "insert_at (min i (length (pq_slots q)))
      \<lparr>qs_slot_id = pq_next_slot_id q, qs_item = it\<rparr> (pq_slots q)"
  have "pq_inv (q\<lparr>pq_next_slot_id := u64_sat_inc (pq_next_slot_id q), pq_slots := ?ss\<rparr>)"
    using assms fresh_not_in [of q] pq_room_max [of 1 q]
    by (intro pq_inv_fresh) (auto simp: map_insert_at slot_ids_def pq_inv_def)
  then show ?thesis
    by (simp add: insert_slot_def allocate_slot_id_def bump_eq Let_def pq_inv_def)
qed

lemma push_items_inv:
  "pq_inv q \<Longrightarrow> pq_room (length items) q \<Longrightarrow> pq_inv (push_items items q)"
proof (induction items q rule: push_items.induct)
  case (2 it items q)
  let ?q1 = "q\<lparr>pq_next_slot_id := u64_sat_inc (pq_next_slot_id q),
      pq_slots := pq_slots q @ [\<lparr>qs_slot_id = pq_next_slot_id q, qs_item = it\<rparr>]\<rparr>"
  have "pq_inv ?q1"
    using "2.prems" fresh_not_in [of q] pq_room_max [of "length (it # items)" q]
    by (intro pq_inv_fresh) (auto simp: slot_ids_def pq_inv_def)
  moreover have "pq_room (length items) ?q1"
    using "2.prems"(2) pq_room_sat_inc [of "length items" q] by (simp add: pq_room_def)
  ultimately show ?case
    using "2.IH" by (simp add: allocate_slot_id_def Let_def)
qed simp

lemma push_items_frame [simp]:
  "pq_active (push_items items q) = pq_active q"
  "pq_mint (push_items items q) = pq_mint q"
  "pq_revision (push_items items q) = pq_revision q"
  by (induction items q rule: push_items.induct) (auto simp: allocate_slot_id_def Let_def)

lemma push_items_items:
  "map qs_item (pq_slots (push_items items q)) = map qs_item (pq_slots q) @ items"
  by (induction items q rule: push_items.induct) (auto simp: allocate_slot_id_def Let_def)

section \<open>Edits that keep or drop slots\<close>

lemma pq_inv_drop:
  assumes "pq_inv q" "distinct (map qs_slot_id ss)" "set (map qs_slot_id ss) \<subseteq> set (slot_ids q)"
    and "\<And>sid. a = Some sid \<Longrightarrow> sid \<in> set (map qs_slot_id ss)"
  shows "pq_inv (q\<lparr>pq_slots := ss, pq_active := a, pq_revision := r\<rparr>)"
  using assms by (auto simp: pq_inv_def)

lemma clear_active_slot_inv: "pq_inv q \<Longrightarrow> pq_inv (fst (clear_active_slot q h))"
  by (simp add: clear_active_slot_def bump_eq pq_inv_def)

lemma clear_slots_inv: "pq_inv q \<Longrightarrow> pq_inv (fst (clear_slots q h))"
  by (simp add: clear_slots_def bump_eq pq_inv_def)

lemma truncate_slots_inv:
  assumes "pq_inv q"
  shows "pq_inv (fst (truncate_slots n q h))"
proof -
  have "distinct (take n (slot_ids q))" "set (take n (slot_ids q)) \<subseteq> set (slot_ids q)"
    using pq_invD(1) [OF assms] by (auto dest: in_set_takeD)
  with assms show ?thesis
    by (auto simp: truncate_slots_def bump_eq Let_def pq_inv_def slot_ids_def take_map
        split: option.splits if_splits)
qed

lemma set_active_slot_inv: "pq_inv q \<Longrightarrow> pq_inv (fst (snd (set_active_slot sid q h)))"
  by (auto simp: set_active_slot_def bump_eq Let_def pq_inv_def)

lemma map_ids_remove_at: "map qs_slot_id (remove_at i (pq_slots q)) = remove_at i (slot_ids q)"
  by (simp add: slot_ids_def map_remove_at)

lemma remove_at_ids:
  assumes "pq_inv q" "slot_index q sid = Some i"
  shows "distinct (remove_at i (slot_ids q))"
    "set (remove_at i (slot_ids q)) = set (slot_ids q) - {sid}"
  using assms pq_invD(1) [OF assms(1)] slot_index_Some [OF assms(2)]
  by (auto simp: distinct_remove_at set_remove_at slot_ids_def)

lemma neighbour_in_ids:
  "map_option qs_slot_id (opt_or (nth_opt ss i) (last_opt ss)) = Some sid
    \<Longrightarrow> sid \<in> qs_slot_id ` set ss"
  by (cases "nth_opt ss i") (auto dest: last_opt_in_set)

lemma remove_existing_slot_inv:
  assumes "pq_inv q"
  shows "pq_inv (fst (snd (remove_existing_slot sid q h)))"
proof (cases "slot_index q sid")
  case None
  with assms show ?thesis by (simp add: remove_existing_slot_def del: slot_index_None)
next
  case (Some i)
  let ?ss = "remove_at i (pq_slots q)"
  note ids = remove_at_ids [OF assms Some, folded map_ids_remove_at]
  have "pq_inv (q\<lparr>pq_slots := ?ss, pq_revision := r, pq_active := a\<rparr>)"
    if "\<And>k. a = Some k \<Longrightarrow> k \<in> set (map qs_slot_id ?ss)" for a r
    using assms ids that by (auto simp: pq_inv_def)
  from this [of "pq_active q"] this [of "map_option qs_slot_id (opt_or (nth_opt ?ss i) (last_opt ?ss))"]
  show ?thesis
    using Some ids(2) pq_invD(3) [OF assms] neighbour_in_ids [of ?ss i]
    by (auto simp: remove_existing_slot_def bump_eq Let_def)
qed

lemma remove_slot_inv: "pq_inv q \<Longrightarrow> pq_inv (fst (snd (remove_slot sid q h)))"
  using remove_existing_slot_inv [of q sid h] by (simp add: remove_slot_def split_beta Let_def)

lemma consume_slot_inv: "pq_inv q \<Longrightarrow> pq_inv (fst (snd (consume_slot sid q h)))"
  using remove_existing_slot_inv [of q sid h] by (simp add: consume_slot_def split_beta Let_def)

lemma remove_active_slot_confirmed_inv:
  assumes "pq_inv q"
  shows "pq_inv (fst (snd (remove_active_slot_confirmed sid q h)))"
proof (cases "slot_index q sid")
  case None
  with assms show ?thesis by (simp add: remove_active_slot_confirmed_def del: slot_index_None)
next
  case (Some i)
  let ?ss = "remove_at i (pq_slots q)"
  note ids = remove_at_ids [OF assms Some, folded map_ids_remove_at]
  have "pq_inv (q\<lparr>pq_slots := ?ss, pq_revision := r, pq_active := a\<rparr>)"
    if "\<And>k. a = Some k \<Longrightarrow> k \<in> set (map qs_slot_id ?ss)" for a r
    using assms ids that by (auto simp: pq_inv_def)
  from this [of "pq_active q"] this [of None]
  show ?thesis
    using Some ids(2) pq_invD(3) [OF assms]
    by (auto simp: remove_active_slot_confirmed_def bump_eq Let_def)
qed

section \<open>Edits that keep every slot\<close>

lemma update_slot_item_inv: "pq_inv q \<Longrightarrow> pq_inv (fst (snd (update_slot_item sid it q h)))"
  by (auto simp: update_slot_item_def bump_if_def bump_eq Let_def pq_inv_update_item
      simp del: slot_index_None dest: slot_index_Some split: option.splits)

lemma apply_progress_inv: "pq_inv q \<Longrightarrow> pq_inv (fst (snd (apply_progress sid p b q h)))"
  by (auto simp: apply_progress_def bump_if_def bump_eq Let_def pq_inv_update_item
      simp del: slot_index_None dest: slot_index_Some split: option.splits)

lemma set_slot_progress_by_index_inv:
  "pq_inv q \<Longrightarrow> pq_inv (fst (set_slot_progress_by_index i p q h))"
  by (auto simp: set_slot_progress_by_index_def split_beta Let_def
      intro: apply_progress_inv split: option.splits)

lemma move_slot_ids:
  assumes "slot_index q sid = Some i"
  shows "mset (map qs_slot_id (insert_at j (pq_slots q ! i) (remove_at i (pq_slots q))))
    = mset (slot_ids q)"
proof -
  have "mset (insert_at j (pq_slots q ! i) (remove_at i (pq_slots q))) = mset (pq_slots q)"
    using slot_index_Some [OF assms] by (simp add: mset_remove_at)
  then show ?thesis unfolding slot_ids_def by (metis mset_map)
qed

lemma pq_inv_mset_ids:
  assumes "pq_inv q" "mset (map qs_slot_id ss) = mset (slot_ids q)"
  shows "pq_inv (q\<lparr>pq_slots := ss\<rparr>)"
  using assms(1) mset_eq_setD [OF assms(2)] mset_eq_imp_distinct_iff [OF assms(2)]
    pq_invD(1) [OF assms(1)]
  by (intro pq_inv_same_ids) simp_all

lemma move_slot_inv:
  assumes "pq_inv q" shows "pq_inv (fst (snd (move_slot sid j q h)))"
  using assms pq_inv_mset_ids [OF assms move_slot_ids]
  by (auto simp: move_slot_def bump_eq Let_def simp del: slot_index_None split: option.splits)

lemma slots_by_id_spec:
  assumes "distinct (map qs_slot_id ss)" "\<forall>s\<in>set ss. qs_slot_id s \<notin> dom m"
  shows "slots_by_id ss m k = (case List.find (\<lambda>s. qs_slot_id s = k) ss of
           Some s \<Rightarrow> Some s | None \<Rightarrow> m k)"
  using assms
proof (induction ss arbitrary: m)
  case (Cons s ss)
  have "slots_by_id ss (m(qs_slot_id s \<mapsto> s)) k =
      (case List.find (\<lambda>s. qs_slot_id s = k) ss of
         Some s \<Rightarrow> Some s | None \<Rightarrow> (m(qs_slot_id s \<mapsto> s)) k)"
    using Cons.prems by (intro Cons.IH) (force simp: image_iff split: if_splits)+
  moreover have "List.find (\<lambda>t. qs_slot_id t = k) ss = None" if "qs_slot_id s = k"
    using Cons.prems(1) that by (simp add: find_None_iff) (metis image_eqI)
  ultimately show ?case by (cases "qs_slot_id s = k") (auto split: option.split)
qed simp

lemma take_in_order_spec:
  assumes "distinct order" "\<forall>k\<in>set order. m k \<noteq> None"
  shows "take_in_order order m = map (\<lambda>k. the (m k)) order"
  using assms
proof (induction order arbitrary: m)
  case (Cons k order)
  then have "take_in_order order (m(k := None)) = map (\<lambda>j. the ((m(k := None)) j)) order"
    by (intro Cons.IH) auto
  with Cons.prems show ?case by auto
qed simp

lemma is_slot_permutation_iff: "is_slot_permutation a b \<longleftrightarrow> mset a = mset b"
proof -
  have "mset a = mset b \<Longrightarrow> sort a = sort b"
    by (metis properties_for_sort sorted_sort mset_sort)
  moreover have "sort a = sort b \<Longrightarrow> mset a = mset b" by (metis mset_sort)
  ultimately show ?thesis by (auto simp: is_slot_permutation_def dest: mset_eq_length)
qed

lemma reordered_slots:
  assumes "distinct (slot_ids q)" "mset (slot_ids q) = mset order"
  shows "take_in_order order (slots_by_id (pq_slots q) Map.empty) = map (\<lambda>k. the (slot q k)) order"
    and "map qs_slot_id (map (\<lambda>k. the (slot q k)) order) = order"
proof -
  have by_id: "slots_by_id (pq_slots q) Map.empty = slot q"
    using slots_by_id_spec [of "pq_slots q" Map.empty] assms(1)
    by (auto simp: slot_ids_def slot_def fun_eq_iff split: option.splits)
  have found: "slot q k \<noteq> None \<and> qs_slot_id (the (slot q k)) = k" if "k \<in> set order" for k
  proof -
    have "k \<in> set (slot_ids q)" using that assms(2) by (metis mset_eq_setD)
    then have "slot q k \<noteq> None" by (auto simp: slot_def slot_ids_def find_None_iff)
    then show ?thesis by (auto simp: slot_def dest: find_in_set)
  qed
  have "distinct order" using assms by (metis mset_eq_imp_distinct_iff)
  then show "take_in_order order (slots_by_id (pq_slots q) Map.empty)
      = map (\<lambda>k. the (slot q k)) order"
    using found by (auto simp: by_id intro: take_in_order_spec)
  show "map qs_slot_id (map (\<lambda>k. the (slot q k)) order) = order"
    using found by (simp add: map_idI)
qed

lemma reorder_slots_inv:
  assumes "pq_inv q" shows "pq_inv (fst (snd (reorder_slots order q h)))"
proof (cases "slot_ids q = order \<or> \<not> is_slot_permutation (slot_ids q) order")
  case False
  then have "mset (slot_ids q) = mset order" by (simp add: is_slot_permutation_iff)
  with reordered_slots [OF pq_invD(1) [OF assms] this] False
  show ?thesis
    by (auto simp: reorder_slots_def bump_eq Let_def intro: pq_inv_mset_ids [OF assms])
qed (use assms in \<open>auto simp: reorder_slots_def\<close>)

section \<open>Construction and replacement\<close>

lemma empty_queue_inv [simp]:
  "pq_inv \<lparr>pq_slots = [], pq_active = None, pq_revision = r, pq_mint = m, pq_next_slot_id = n\<rparr>"
  by (simp add: pq_inv_def slot_ids_def)

lemma nth_opt_id_in:
  "Option.bind act (\<lambda>i. map_option qs_slot_id (nth_opt ss i)) = Some sid
    \<Longrightarrow> sid \<in> set (map qs_slot_id ss)"
  by (cases act) auto

lemma pq_inv_set_active:
  "pq_inv q \<Longrightarrow> (\<And>sid. a = Some sid \<Longrightarrow> sid \<in> set (slot_ids q)) \<Longrightarrow> pq_inv (q\<lparr>pq_active := a\<rparr>)"
  by (simp add: pq_inv_def)

lemma from_queue_items_inv:
  assumes "length items + 1 < 2 ^ 64"
  shows "pq_inv (fst (from_queue_items items act m h))"
proof -
  let ?q = "push_items items \<lparr>pq_slots = [], pq_active = None, pq_revision = h m, pq_mint = m,
    pq_next_slot_id = 1\<rparr>"
  have "pq_inv ?q" using assms by (intro push_items_inv) (simp_all add: pq_room_def)
  then have "pq_inv (?q\<lparr>pq_active :=
      Option.bind act (\<lambda>i. map_option qs_slot_id (nth_opt (pq_slots ?q) i))\<rparr>)"
    by (rule pq_inv_set_active) (auto simp: slot_ids_def dest: nth_opt_id_in)
  then show ?thesis by (simp add: from_queue_items_def mint_revision_def Let_def)
qed

lemma foldr_max_ge: "x \<in> set xs \<Longrightarrow> x \<le> foldr max xs (0::u64)"
  by (induction xs) (auto simp: max_def)

lemma foldr_max_in: "foldr max xs (0::u64) = 0 \<or> foldr max xs 0 \<in> set xs"
  by (induction xs) (auto simp: max_def)

lemma next_after_bound:
  assumes "- 1 \<notin> set ids" "sid \<in> set ids"
  shows "sid < next_after ids"
proof -
  have "foldr max ids 0 \<noteq> (- 1 :: u64)" using foldr_max_in [of ids] assms(1) by auto
  then have "foldr max ids 0 < next_after ids" by (simp add: next_after_def u64_less_sat_inc)
  with foldr_max_ge [OF assms(2)] show ?thesis by simp
qed

lemma from_slot_items_inv:
  assumes "distinct (map fst pairs)" "- 1 \<notin> fst ` set pairs"
  shows "pq_inv (fst (from_slot_items pairs act m h))"
proof -
  have ids: "map qs_slot_id (map (\<lambda>(sid, it). \<lparr>qs_slot_id = sid, qs_item = it\<rparr>) pairs) = map fst pairs"
    by (induction pairs) auto
  have "sid < next_after (map fst pairs)" if "sid \<in> set (map fst pairs)" for sid
    using next_after_bound [OF _ that] assms(2) by simp
  then show ?thesis
    using assms(1) ids
    by (simp add: from_slot_items_def mint_revision_def Let_def pq_inv_def slot_ids_def
        image_comp comp_def split_beta)
       (metis (mono_tags, lifting) image_iff)
qed

lemma replace_slots_inv:
  assumes "pq_inv q" "pq_room (length items) q"
  shows "pq_inv (fst (snd (replace_slots items q h)))"
proof -
  have "pq_inv (push_items items (q\<lparr>pq_slots := [], pq_active := None\<rparr>))"
    using assms by (intro push_items_inv) (auto simp: pq_inv_def pq_room_def)
  then show ?thesis by (simp add: replace_slots_def bump_eq Let_def)
qed

lemma append_with_id_inv:
  assumes "pq_inv q" "sid \<notin> set (slot_ids q)" "sid \<noteq> - 1"
  shows "pq_inv (fst (append_with_id sid it q h))"
  using assms u64_less_sat_inc [OF assms(3)]
  by (auto simp: append_with_id_def bump_eq pq_inv_def slot_ids_def less_max_iff_disj)

lemma mint_slot_id_inv: "pq_inv q \<Longrightarrow> pq_inv (snd (mint_slot_id q))"
  using u64_less_sat_inc_trans
  by (auto simp: mint_slot_id_def allocate_slot_id_def pq_inv_def)

lemma rebase_revision_mint_inv: "pq_inv q \<Longrightarrow> pq_inv (fst (rebase_revision_mint m q h))"
  by (simp add: rebase_revision_mint_def mint_revision_def pq_inv_def)

end
