(* ===== verification/Queue_Refresh.thy ===== *)
theory Queue_Refresh
  imports Queue_Invariant
begin

text \<open>
  The refresh of a queue from fetched items (\<^verbatim>\<open>merge_refresh\<close>, \<^verbatim>\<open>merge_refresh_for_slots\<close>):
  which slots survive, in which order, with which item, and what the merge result reports.
  \<open>refresh_ref\<close> is the specification: it treats each slot on its own, without the map of
  fetched items and the cursors the code threads through its loop.
\<close>

section \<open>What a refresh does to one slot\<close>

definition slot_matches :: "emby_item list \<Rightarrow> queue_slot \<Rightarrow> emby_item list" where
  "slot_matches fetched s =
     filter (\<lambda>it. CId_Emby (emby_id it) = qi_content_id (qs_item s)) fetched"

definition refreshed_item :: "queue_slot_id option \<Rightarrow> queue_slot \<Rightarrow> emby_item \<Rightarrow> queue_item" where
  "refreshed_item act s it =
     (if act = Some (qs_slot_id s)
      then apply_progress_to_queue_item (QI_Emby it)
             (sp_position_ticks (slot_local_progress s)) (sp_played (slot_local_progress s))
      else QI_Emby it)"

text \<open>How many of the earlier slots draw on the same fetched items.\<close>

definition earlier_twins :: "queue_slot list \<Rightarrow> queue_slot \<Rightarrow> nat" where
  "earlier_twins pre s = length (filter (\<lambda>t. qi_is_emby (qs_item t)
     \<and> qi_content_id (qs_item t) = qi_content_id (qs_item s)) pre)"

definition refresh_slot ::
  "emby_item list \<Rightarrow> queue_slot_id option \<Rightarrow> queue_slot list \<Rightarrow> queue_slot \<Rightarrow> queue_slot option" where
  "refresh_slot fetched act pre s =
     (let ms = slot_matches fetched s in
      if \<not> qi_is_emby (qs_item s) then Some s
      else if ms = [] then (if act = Some (qs_slot_id s) then Some s else None)
      else Some (s\<lparr>qs_item := refreshed_item act s (ms ! min (earlier_twins pre s) (length ms - 1))\<rparr>))"

fun refresh_ref ::
  "emby_item list \<Rightarrow> queue_slot_id option \<Rightarrow> queue_slot list \<Rightarrow> queue_slot list \<Rightarrow> queue_slot list" where
  "refresh_ref fetched act pre [] = []"
| "refresh_ref fetched act pre (s # ss) =
     (case refresh_slot fetched act pre s of
        None \<Rightarrow> refresh_ref fetched act (pre @ [s]) ss
      | Some s' \<Rightarrow> s' # refresh_ref fetched act (pre @ [s]) ss)"

section \<open>The map of fetched items\<close>

lemma group_fetched_items_spec:
  "group_fetched_items items g k =
     (let ms = filter (\<lambda>it. CId_Emby (emby_id it) = k) items in
      case g k of
        Some m \<Rightarrow> Some (m\<lparr>fm_items := fm_items m @ ms\<rparr>)
      | None \<Rightarrow> (if ms = [] then None else Some \<lparr>fm_items = ms, fm_next_index = 0\<rparr>))"
  by (induction items arbitrary: g) (auto simp: Let_def split: option.splits)

text \<open>
  After the loop has passed \<open>pre\<close>, the cursor of every group counts the Emby slots of
  \<open>pre\<close> that drew on it.
\<close>

definition groups_after ::
  "emby_item list \<Rightarrow> queue_slot list \<Rightarrow> (queue_item_content_id \<rightharpoonup> fetched_item_matches) \<Rightarrow> bool" where
  "groups_after fetched pre g \<longleftrightarrow> (\<forall>k.
     let ms = filter (\<lambda>it. CId_Emby (emby_id it) = k) fetched in
     g k = (if ms = [] then None
            else Some \<lparr>fm_items = ms, fm_next_index = length (filter (\<lambda>t. qi_is_emby (qs_item t)
                     \<and> qi_content_id (qs_item t) = k) pre)\<rparr>))"

lemma groups_after_start: "groups_after fetched [] (group_fetched_items fetched Map.empty)"
  by (simp add: groups_after_def group_fetched_items_spec Let_def)

lemma groups_afterD:
  assumes "groups_after fetched pre g"
  shows "g (qi_content_id (qs_item s)) = (if slot_matches fetched s = [] then None
    else Some \<lparr>fm_items = slot_matches fetched s, fm_next_index = earlier_twins pre s\<rparr>)"
  using assms by (simp add: groups_after_def Let_def slot_matches_def earlier_twins_def)

lemma groups_after_skip:
  assumes "groups_after fetched pre g"
    "\<not> qi_is_emby (qs_item s) \<or> slot_matches fetched s = []"
  shows "groups_after fetched (pre @ [s]) g"
  using assms by (auto simp: groups_after_def Let_def slot_matches_def)

lemma groups_after_hit:
  assumes "groups_after fetched pre g" "qi_is_emby (qs_item s)" "slot_matches fetched s \<noteq> []"
  shows "groups_after fetched (pre @ [s])
    (g(qi_content_id (qs_item s) \<mapsto>
       \<lparr>fm_items = slot_matches fetched s, fm_next_index = Suc (earlier_twins pre s)\<rparr>))"
  using assms by (auto simp: groups_after_def Let_def slot_matches_def earlier_twins_def)

section \<open>The loop\<close>

lemma merge_fetched_slot_simps [simp]:
  "fst (merge_fetched_slot s it act res) = s\<lparr>qs_item := refreshed_item act s it\<rparr>"
  "pruned_slots (snd (merge_fetched_slot s it act res)) = pruned_slots res"
  by (simp_all add: merge_fetched_slot_def refreshed_item_def Let_def)

lemma merge_refresh_loop_slots:
  assumes "groups_after fetched pre g"
  shows "fst (snd (merge_refresh_loop ss act g res merged changed))
    = merged @ refresh_ref fetched act pre ss"
  using assms
proof (induction ss arbitrary: pre g res merged changed)
  case (Cons s ss)
  show ?case
  proof (cases "qi_is_emby (qs_item s) \<and> slot_matches fetched s \<noteq> []")
    case True
    then have "qi_is_emby (qs_item s)" "slot_matches fetched s \<noteq> []" by auto
    with groups_afterD [OF Cons.prems, of s] show ?thesis
      by (simp add: Cons.IH [OF groups_after_hit [OF Cons.prems]] refresh_slot_def next_match_def Let_def split_beta)
  next
    case False
    then have "\<not> qi_is_emby (qs_item s) \<or> slot_matches fetched s = []" by simp
    with Cons.IH [OF groups_after_skip [OF Cons.prems this]] groups_afterD [OF Cons.prems, of s]
    show ?thesis
      by (auto simp: refresh_slot_def should_protect_missing_slot_def Let_def)
  qed
qed simp

lemma merge_refresh_loop_pruned:
  assumes "groups_after fetched pre g"
  shows "pruned_slots (fst (merge_refresh_loop ss act g res merged changed))
    = pruned_slots res @ map qs_slot_id (filter (\<lambda>s. qi_is_emby (qs_item s)
         \<and> slot_matches fetched s = [] \<and> act \<noteq> Some (qs_slot_id s)) ss)"
  using assms
proof (induction ss arbitrary: pre g res merged changed)
  case (Cons s ss)
  show ?case
  proof (cases "qi_is_emby (qs_item s) \<and> slot_matches fetched s \<noteq> []")
    case True
    then have "qi_is_emby (qs_item s)" "slot_matches fetched s \<noteq> []" by auto
    with groups_afterD [OF Cons.prems, of s] show ?thesis
      by (simp add: Cons.IH [OF groups_after_hit [OF Cons.prems]] next_match_def Let_def split_beta)
  next
    case False
    then have "\<not> qi_is_emby (qs_item s) \<or> slot_matches fetched s = []" by simp
    with Cons.IH [OF groups_after_skip [OF Cons.prems this]] groups_afterD [OF Cons.prems, of s]
    show ?thesis by (auto simp: should_protect_missing_slot_def Let_def)
  qed
qed simp

text \<open>A loop that reports no change has left every slot as it was.\<close>

lemma slot_item_self [simp]: "s\<lparr>qs_item := qs_item s\<rparr> = s"
  by simp

lemma merge_refresh_loop_unchanged:
  "\<not> snd (snd (merge_refresh_loop ss act g res merged changed)) \<Longrightarrow>
     \<not> changed \<and> fst (snd (merge_refresh_loop ss act g res merged changed)) = merged @ ss"
proof (induction ss arbitrary: g res merged changed)
  case (Cons s ss)
  from Cons.prems show ?case
    by (auto simp: Let_def split_beta queue_items_equal_def
        split: if_splits option.splits dest!: Cons.IH simp del: fun_upd_apply)
qed simp

section \<open>Identities after a refresh\<close>

lemma refresh_slot_id: "refresh_slot fetched act pre s = Some s' \<Longrightarrow> qs_slot_id s' = qs_slot_id s"
  by (auto simp: refresh_slot_def Let_def split: if_splits)

lemma refresh_ref_ids:
  "map qs_slot_id (refresh_ref fetched act pre ss) =
     map qs_slot_id (filter (\<lambda>s. \<not> qi_is_emby (qs_item s) \<or> slot_matches fetched s \<noteq> []
        \<or> act = Some (qs_slot_id s)) ss)"
  by (induction ss arbitrary: pre) (auto simp: refresh_slot_def Let_def)

lemma refresh_ref_distinct:
  "distinct (map qs_slot_id ss) \<Longrightarrow> distinct (map qs_slot_id (refresh_ref fetched act pre ss))"
  by (simp add: refresh_ref_ids distinct_map_filter)

lemma refresh_ref_active:
  "sid \<in> set (map qs_slot_id ss) \<Longrightarrow> sid \<in> set (map qs_slot_id (refresh_ref fetched (Some sid) pre ss))"
  unfolding refresh_ref_ids by force

lemma merge_refresh_slots:
  "pq_slots (fst (snd (merge_refresh fetched q h))) = refresh_ref fetched (pq_active q) [] (pq_slots q)"
proof -
  have "fst (snd (merge_refresh_loop (pq_slots q) (pq_active q)
      (group_fetched_items fetched Map.empty) empty_merge_result [] False))
    = refresh_ref fetched (pq_active q) [] (pq_slots q)"
    using merge_refresh_loop_slots [OF groups_after_start] by simp
  then show ?thesis
    by (auto simp: merge_refresh_def Let_def split_beta bump_if_def split: option.split)
qed

lemma merge_refresh_active:
  assumes "pq_inv q"
  shows "pq_active (fst (snd (merge_refresh fetched q h))) = pq_active q"
proof (cases "pq_active q")
  case (Some sid)
  have "sid \<in> set (map qs_slot_id (refresh_ref fetched (Some sid) [] (pq_slots q)))"
    using pq_invD(3) [OF assms Some] by (intro refresh_ref_active) (simp add: slot_ids_def)
  moreover have "fst (snd (merge_refresh_loop (pq_slots q) (pq_active q)
      (group_fetched_items fetched Map.empty) empty_merge_result [] False))
    = refresh_ref fetched (pq_active q) [] (pq_slots q)"
    using merge_refresh_loop_slots [OF groups_after_start] by simp
  ultimately show ?thesis
    using Some by (simp add: merge_refresh_def Let_def split_beta bump_if_def)
qed (simp add: merge_refresh_def Let_def split_beta bump_if_def)

lemma merge_refresh_frame [simp]:
  "pq_next_slot_id (fst (snd (merge_refresh fetched q h))) = pq_next_slot_id q"
  "pq_mint (fst (snd (merge_refresh fetched q h))) = pq_mint q"
  by (auto simp: merge_refresh_def Let_def split_beta bump_if_def split: option.split)

lemma merge_refresh_inv:
  assumes "pq_inv q"
  shows "pq_inv (fst (snd (merge_refresh fetched q h)))"
proof -
  let ?ss = "refresh_ref fetched (pq_active q) [] (pq_slots q)"
  have "set (map qs_slot_id ?ss) \<subseteq> set (slot_ids q)"
    unfolding refresh_ref_ids slot_ids_def by auto
  moreover have "sid \<in> set (map qs_slot_id ?ss)" if "pq_active q = Some sid" for sid
    using refresh_ref_active [of sid "pq_slots q"] pq_invD(3) [OF assms that] that
    by (simp add: slot_ids_def)
  moreover have "distinct (map qs_slot_id ?ss)"
    using pq_invD(1) [OF assms] by (intro refresh_ref_distinct) (simp add: slot_ids_def)
  ultimately show ?thesis
    using assms merge_refresh_active [OF assms, of fetched h]
    by (auto simp: pq_inv_def slot_ids_def merge_refresh_slots)
qed

section \<open>The refresh of captured slots\<close>

lemma refresh_one_slot_ids:
  "map qs_slot_id (fst (refresh_one_slot act p st)) = map qs_slot_id (fst st)"
  by (cases p; cases st)
    (auto simp: refresh_one_slot_def Let_def split_beta map_update list_update_same_conv
      split: option.splits dest!: position_lessD)

lemma fold_refresh_ids:
  "map qs_slot_id (fst (fold (refresh_one_slot act) ps st)) = map qs_slot_id (fst st)"
  by (induction ps arbitrary: st) (simp_all add: refresh_one_slot_ids)

lemma refresh_one_slot_unchanged:
  "\<not> snd (snd (refresh_one_slot act p st)) \<Longrightarrow>
     \<not> snd (snd st) \<and> fst (refresh_one_slot act p st) = fst st"
  by (cases p; cases st)
    (auto simp: refresh_one_slot_def Let_def split_beta queue_items_equal_def
      simp del: position_None split: option.splits if_splits)

lemma fold_refresh_unchanged:
  "\<not> snd (snd (fold (refresh_one_slot act) ps st)) \<Longrightarrow>
     \<not> snd (snd st) \<and> fst (fold (refresh_one_slot act) ps st) = fst st"
proof (induction ps arbitrary: st)
  case (Cons p ps)
  from Cons.IH [of "refresh_one_slot act p st"] refresh_one_slot_unchanged [of act p st] Cons.prems
  show ?case by simp
qed simp

lemma merge_refresh_for_slots_inv:
  assumes "pq_inv q"
  shows "pq_inv (fst (snd (merge_refresh_for_slots ps q h)))"
proof -
  obtain ss res changed where fold: "fold (refresh_one_slot (pq_active q)) ps
      (pq_slots q, empty_merge_result, False) = (ss, res, changed)" by (metis prod_cases3)
  have "map qs_slot_id ss = slot_ids q"
    using fold_refresh_ids [of "pq_active q" ps "(pq_slots q, empty_merge_result, False)"]
    by (simp add: fold slot_ids_def)
  with assms have "pq_inv (q\<lparr>pq_slots := ss\<rparr>)" by (simp add: pq_inv_def)
  then show ?thesis by (simp add: merge_refresh_for_slots_def fold bump_if_def bump_eq)
qed

section \<open>What a refresh promises\<close>

text \<open>A slot a refresh may not drop.\<close>

definition survives_refresh :: "emby_item list \<Rightarrow> queue_slot_id option \<Rightarrow> queue_slot \<Rightarrow> bool" where
  "survives_refresh fetched act s \<longleftrightarrow>
     (qi_is_emby (qs_item s) \<longrightarrow> slot_matches fetched s \<noteq> [] \<or> act = Some (qs_slot_id s))"

lemma merge_refresh_ids:
  "slot_ids (fst (snd (merge_refresh fetched q h)))
     = map qs_slot_id (filter (survives_refresh fetched (pq_active q)) (pq_slots q))"
proof -
  have "(\<lambda>s. \<not> qi_is_emby (qs_item s) \<or> slot_matches fetched s \<noteq> [] \<or> pq_active q = Some (qs_slot_id s))
      = survives_refresh fetched (pq_active q)"
    by (auto simp: survives_refresh_def fun_eq_iff)
  then show ?thesis by (simp add: slot_ids_def merge_refresh_slots refresh_ref_ids)
qed

lemma merge_refresh_pruned:
  "pruned_slots (fst (merge_refresh fetched q h))
     = map qs_slot_id (filter (\<lambda>s. \<not> survives_refresh fetched (pq_active q) s) (pq_slots q))"
proof -
  have "pruned_slots (fst (merge_refresh fetched q h)) =
      pruned_slots (fst (merge_refresh_loop (pq_slots q) (pq_active q)
        (group_fetched_items fetched Map.empty) empty_merge_result [] False))"
    by (simp add: merge_refresh_def Let_def split_beta)
  also have "\<dots> = map qs_slot_id (filter (\<lambda>s. \<not> survives_refresh fetched (pq_active q) s) (pq_slots q))"
    by (simp add: merge_refresh_loop_pruned [OF groups_after_start] empty_merge_result_def
        survives_refresh_def)
  finally show ?thesis .
qed

text \<open>
  C23. A refresh computes, slot by slot, what its specification says: slots of other services
  keep their item; an Emby slot takes the fetched item of its content, the \<open>k\<close>-th slot of
  that content the \<open>k\<close>-th fetched copy and the last copy once they run out; a slot without a
  fetched item is dropped unless it is active. The survivors keep their identities and their
  order, and the result lists exactly the dropped ones as pruned.
\<close>

theorem merge_refresh_spec:
  "(let (res, q', _) = merge_refresh fetched q h in
      pq_slots q' = refresh_ref fetched (pq_active q) [] (pq_slots q)
      \<and> slot_ids q' = map qs_slot_id (filter (survives_refresh fetched (pq_active q)) (pq_slots q))
      \<and> pruned_slots res
          = map qs_slot_id (filter (\<lambda>s. \<not> survives_refresh fetched (pq_active q) s) (pq_slots q)))"
  using merge_refresh_slots [of fetched q h] merge_refresh_ids [of fetched q h]
    merge_refresh_pruned [of fetched q h]
  by (simp add: split_beta Let_def)

lemma refresh_slot_progress:
  "refresh_slot fetched (Some (qs_slot_id s)) pre s = Some s' \<Longrightarrow>
     slot_local_progress s' = slot_local_progress s
     \<and> qi_content_id (qs_item s') = qi_content_id (qs_item s)"
proof -
  have match: "it \<in> set (slot_matches fetched s) \<Longrightarrow> CId_Emby (emby_id it) = qi_content_id (qs_item s)"
    for it by (simp add: slot_matches_def)
  have "slot_matches fetched s \<noteq> [] \<Longrightarrow>
      slot_matches fetched s ! min n (length (slot_matches fetched s) - Suc 0)
        \<in> set (slot_matches fetched s)" for n
    by (intro nth_mem) (cases "slot_matches fetched s"; simp add: min_def)
  note match [OF this]
  then show "refresh_slot fetched (Some (qs_slot_id s)) pre s = Some s' \<Longrightarrow> ?thesis"
    by (auto simp: refresh_slot_def refreshed_item_def slot_local_progress_def Let_def
        slot_progress_from_emby_def split: if_splits)
qed

lemma find_refresh_ref:
  assumes "distinct (map qs_slot_id ss)" "s \<in> set ss" "act = Some (qs_slot_id s)"
  shows "\<exists>pre' s'. refresh_slot fetched act pre' s = Some s'
    \<and> List.find (\<lambda>t. qs_slot_id t = qs_slot_id s) (refresh_ref fetched act pre ss) = Some s'"
  using assms
proof (induction ss arbitrary: pre)
  case (Cons t ss)
  have some: "\<exists>s'. refresh_slot fetched act p s = Some s'" for p
    using Cons.prems(3) by (simp add: refresh_slot_def Let_def)
  show ?case
  proof (cases "t = s")
    case True
    from some [of pre] obtain s' where "refresh_slot fetched act pre s = Some s'" by blast
    with True show ?thesis using refresh_slot_id [of fetched act pre s s'] by auto
  next
    case False
    with Cons.prems have "s \<in> set ss" "qs_slot_id t \<noteq> qs_slot_id s" by force+
    with Cons.IH [of "pre @ [t]"] Cons.prems show ?thesis
      by (auto dest: refresh_slot_id split: option.splits)
  qed
qed simp

text \<open>
  C24. A refresh never disturbs what is playing: whatever was fetched, the active marker stays
  on its slot, and that slot keeps its local position, its played flag and its content.
\<close>

theorem merge_refresh_keeps_active:
  assumes "pq_inv q" "active_slot q = Some s"
  shows "pq_active (fst (snd (merge_refresh fetched q h))) = pq_active q
    \<and> (\<exists>s'. active_slot (fst (snd (merge_refresh fetched q h))) = Some s'
          \<and> qs_slot_id s' = qs_slot_id s
          \<and> slot_local_progress s' = slot_local_progress s
          \<and> qi_content_id (qs_item s') = qi_content_id (qs_item s))"
proof -
  have act: "pq_active q = Some (qs_slot_id s)" "s \<in> set (pq_slots q)"
    using assms(2) by (auto simp: active_slot_def slot_def dest: find_in_set split: bind_splits)
  obtain pre s' where s': "refresh_slot fetched (pq_active q) pre s = Some s'"
    "List.find (\<lambda>t. qs_slot_id t = qs_slot_id s)
       (refresh_ref fetched (pq_active q) [] (pq_slots q)) = Some s'"
    using find_refresh_ref [OF pq_invD(1) [OF assms(1), unfolded slot_ids_def] act(2,1)] by blast
  then have "active_slot (fst (snd (merge_refresh fetched q h))) = Some s'"
    using act(1) merge_refresh_active [OF assms(1), of fetched h]
    by (simp add: active_slot_def slot_def merge_refresh_slots)
  with s'(1) act(1) show ?thesis
    using merge_refresh_active [OF assms(1)] refresh_slot_progress refresh_slot_id by metis
qed

definition sample_refresh_queue :: playback_queue where
  "sample_refresh_queue =
     \<lparr>pq_slots = [\<lparr>qs_slot_id = 1, qs_item = QI_Emby (emby_folder ''a'' ''A'' [])\<rparr>,
                  \<lparr>qs_slot_id = 2, qs_item = QI_Emby ((emby_folder ''b'' ''B'' [])
                     \<lparr>emby_playback_position_ticks := 70\<rparr>)\<rparr>],
      pq_active = Some 2, pq_revision = 0, pq_mint = 0, pq_next_slot_id = 3\<rparr>"

lemma sample_refresh_queue_inv: "pq_inv sample_refresh_queue"
  by (simp add: sample_refresh_queue_def pq_inv_def slot_ids_def)

lemma merge_refresh_keeps_active_witness:
  "pq_active (fst (snd (merge_refresh [emby_folder ''b'' ''New'' []] sample_refresh_queue (\<lambda>_. 1))))
     = Some 2
   \<and> (\<exists>s'. active_slot (fst (snd (merge_refresh [emby_folder ''b'' ''New'' []]
              sample_refresh_queue (\<lambda>_. 1)))) = Some s'
         \<and> sp_position_ticks (slot_local_progress s') = 70)"
proof -
  obtain s where s: "active_slot sample_refresh_queue = Some s"
    "sp_position_ticks (slot_local_progress s) = 70"
    by (simp add: sample_refresh_queue_def active_slot_def slot_def slot_local_progress_def
        slot_progress_from_emby_def)
  have "pq_active sample_refresh_queue = Some 2" by (simp add: sample_refresh_queue_def)
  with merge_refresh_keeps_active [OF sample_refresh_queue_inv s(1)] s(2) show ?thesis by metis
qed

end
