(* ===== verification/Queue_Runs.thy ===== *)
theory Queue_Runs
  imports Queue_Refresh
begin

text \<open>
  Runs of a canonical queue: every mutating operation of \<^verbatim>\<open>PlaybackQueue\<close> as a value, the
  dispatcher that applies it, and the step relation in which other queues that share the
  revision mint may draw revisions at any time. Proved over all runs: the queue invariant,
  and that a revision a snapshot was taken at identifies the snapshot's slots and active
  marker.
\<close>

section \<open>Operations as data\<close>

datatype pq_op =
    Op_Insert usize queue_item
  | Op_Append queue_item
  | Op_Append_With_Id queue_slot_id queue_item
  | Op_Mint_Id
  | Op_Replace "queue_item list"
  | Op_Clear
  | Op_Truncate usize
  | Op_Set_Active queue_slot_id
  | Op_Clear_Active
  | Op_Remove queue_slot_id
  | Op_Remove_Active_Confirmed queue_slot_id
  | Op_Consume queue_slot_id
  | Op_Reorder "queue_slot_id list"
  | Op_Move queue_slot_id usize
  | Op_Update_Item queue_slot_id queue_item
  | Op_Apply_Progress queue_slot_id i64 bool
  | Op_Set_Progress usize i64
  | Op_Refresh_Slots "(queue_slot_id \<times> emby_item) list"
  | Op_Refresh "emby_item list"
  | Op_Rebase mint_id

fun pq_apply :: "pq_op \<Rightarrow> playback_queue \<Rightarrow> mint_store \<Rightarrow> playback_queue \<times> mint_store" where
  "pq_apply (Op_Insert i it) q h = snd (insert_slot i it q h)"
| "pq_apply (Op_Append it) q h = snd (append_slot it q h)"
| "pq_apply (Op_Append_With_Id sid it) q h = append_with_id sid it q h"
| "pq_apply Op_Mint_Id q h = (snd (mint_slot_id q), h)"
| "pq_apply (Op_Replace items) q h = snd (replace_slots items q h)"
| "pq_apply Op_Clear q h = clear_slots q h"
| "pq_apply (Op_Truncate n) q h = truncate_slots n q h"
| "pq_apply (Op_Set_Active sid) q h = snd (set_active_slot sid q h)"
| "pq_apply Op_Clear_Active q h = clear_active_slot q h"
| "pq_apply (Op_Remove sid) q h = snd (remove_slot sid q h)"
| "pq_apply (Op_Remove_Active_Confirmed sid) q h = snd (remove_active_slot_confirmed sid q h)"
| "pq_apply (Op_Consume sid) q h = snd (consume_slot sid q h)"
| "pq_apply (Op_Reorder order) q h = snd (reorder_slots order q h)"
| "pq_apply (Op_Move sid i) q h = snd (move_slot sid i q h)"
| "pq_apply (Op_Update_Item sid it) q h = snd (update_slot_item sid it q h)"
| "pq_apply (Op_Apply_Progress sid p b) q h = snd (apply_progress sid p b q h)"
| "pq_apply (Op_Set_Progress i p) q h = set_slot_progress_by_index i p q h"
| "pq_apply (Op_Refresh_Slots ps) q h = snd (merge_refresh_for_slots ps q h)"
| "pq_apply (Op_Refresh items) q h = snd (merge_refresh items q h)"
| "pq_apply (Op_Rebase m) q h = rebase_revision_mint m q h"

text \<open>
  What an operation needs: identities left for the slots it allocates, and, for the one
  operation that takes an identity from its caller, that the identity is not in use.
\<close>

fun pq_op_ok :: "pq_op \<Rightarrow> playback_queue \<Rightarrow> bool" where
  "pq_op_ok (Op_Insert _ _) q = pq_room 1 q"
| "pq_op_ok (Op_Append _) q = pq_room 1 q"
| "pq_op_ok (Op_Append_With_Id sid _) q = (sid \<notin> set (slot_ids q) \<and> sid \<noteq> - 1)"
| "pq_op_ok (Op_Replace items) q = pq_room (length items) q"
| "pq_op_ok _ q = True"

lemma pq_apply_inv: "pq_inv q \<Longrightarrow> pq_op_ok op q \<Longrightarrow> pq_inv (fst (pq_apply op q h))"
  by (cases op)
    (simp_all add: append_slot_def pq_inv_insert append_with_id_inv mint_slot_id_inv
      replace_slots_inv clear_slots_inv truncate_slots_inv set_active_slot_inv
      clear_active_slot_inv remove_slot_inv remove_active_slot_confirmed_inv consume_slot_inv
      reorder_slots_inv move_slot_inv update_slot_item_inv apply_progress_inv
      set_slot_progress_by_index_inv merge_refresh_for_slots_inv merge_refresh_inv
      rebase_revision_mint_inv)

section \<open>One operation and the revision\<close>

text \<open>
  Either nothing a reader sees changed and no revision was drawn, or exactly one revision
  was drawn from the queue's mint and the queue carries it.
\<close>

definition pq_same :: "playback_queue \<Rightarrow> mint_store \<Rightarrow> playback_queue \<times> mint_store \<Rightarrow> bool" where
  "pq_same q h = (\<lambda>(q', h'). pq_slots q' = pq_slots q \<and> pq_active q' = pq_active q
     \<and> pq_revision q' = pq_revision q \<and> pq_mint q' = pq_mint q \<and> h' = h)"

definition pq_minted :: "mint_store \<Rightarrow> playback_queue \<times> mint_store \<Rightarrow> bool" where
  "pq_minted h = (\<lambda>(q', h'). pq_revision q' = h (pq_mint q')
     \<and> h' = h(pq_mint q' := h (pq_mint q') + 1))"

lemma pq_same_refl [simp]: "pq_same q h (q, h)"
  by (simp add: pq_same_def)

lemma pq_minted_bump [simp]: "pq_minted h (bump q h)"
  by (simp add: pq_minted_def bump_eq)

lemma pq_minted_bump_if:
  "(\<not> b \<Longrightarrow> pq_slots q' = pq_slots q \<and> pq_active q' = pq_active q
      \<and> pq_revision q' = pq_revision q \<and> pq_mint q' = pq_mint q) \<Longrightarrow>
   pq_same q h (bump_if b q' h) \<or> pq_minted h (bump_if b q' h)"
  by (cases b) (auto simp: bump_if_def pq_same_def)

lemma remove_existing_slot_minted:
  "pq_same q h (snd (remove_existing_slot sid q h)) \<or> pq_minted h (snd (remove_existing_slot sid q h))"
  by (auto simp: remove_existing_slot_def bump_eq Let_def pq_minted_def split: option.splits)

lemma truncate_slots_minted:
  "pq_same q h (truncate_slots n q h) \<or> pq_minted h (truncate_slots n q h)"
  by (auto simp: truncate_slots_def bump_eq Let_def pq_minted_def split: option.splits)

lemma same_item_slots:
  "i < length ss \<Longrightarrow> qs_item (ss ! i) = it \<Longrightarrow> ss[i := (ss ! i)\<lparr>qs_item := it\<rparr>] = ss"
  by (metis list_update_id slot_item_self)

lemma update_slot_item_minted:
  "pq_same q h (snd (update_slot_item sid it q h)) \<or> pq_minted h (snd (update_slot_item sid it q h))"
proof (cases "slot_index q sid")
  case (Some i)
  then show ?thesis
    using pq_minted_bump_if [of "\<not> queue_items_equal it (qs_item (pq_slots q ! i))"
        "q\<lparr>pq_slots := (pq_slots q)[i := (pq_slots q ! i)\<lparr>qs_item := it\<rparr>]\<rparr>" q h]
      slot_index_Some [OF Some] same_item_slots [of i "pq_slots q" it]
    by (simp add: update_slot_item_def Let_def split_beta queue_items_equal_def)
qed (simp add: update_slot_item_def del: slot_index_None)

lemma apply_progress_as_update:
  "snd (apply_progress sid p b q h) = (case slot_index q sid of None \<Rightarrow> (q, h)
     | Some i \<Rightarrow> snd (update_slot_item sid
         (apply_progress_to_queue_item (qs_item (pq_slots q ! i)) p b) q h))"
  by (simp add: apply_progress_def update_slot_item_def Let_def split_beta
      del: slot_index_None split: option.split)

lemma apply_progress_minted:
  "pq_same q h (snd (apply_progress sid p b q h)) \<or> pq_minted h (snd (apply_progress sid p b q h))"
  using update_slot_item_minted [of q h sid]
  by (simp add: apply_progress_as_update del: slot_index_None split: option.split)

lemma set_slot_progress_minted:
  "pq_same q h (set_slot_progress_by_index i p q h)
     \<or> pq_minted h (set_slot_progress_by_index i p q h)"
  using apply_progress_minted [of q h]
  by (simp add: set_slot_progress_by_index_def split_beta Let_def split: option.split)

lemma merge_refresh_for_slots_minted:
  "pq_same q h (snd (merge_refresh_for_slots ps q h))
     \<or> pq_minted h (snd (merge_refresh_for_slots ps q h))"
  using fold_refresh_unchanged [of "pq_active q" ps "(pq_slots q, empty_merge_result, False)"]
  by (simp add: merge_refresh_for_slots_def split_beta Let_def) (rule pq_minted_bump_if; simp)

lemma merge_refresh_minted:
  assumes "pq_inv q"
  shows "pq_same q h (snd (merge_refresh items q h)) \<or> pq_minted h (snd (merge_refresh items q h))"
proof -
  obtain res merged changed where loop: "merge_refresh_loop (pq_slots q) (pq_active q)
      (group_fetched_items items Map.empty) empty_merge_result [] False = (res, merged, changed)"
    by (metis prod_cases3)
  have "merged = pq_slots q" if "\<not> changed"
    using merge_refresh_loop_unchanged [of "pq_slots q" "pq_active q"
        "group_fetched_items items Map.empty" empty_merge_result "[]" False] that
    by (simp add: loop)
  moreover have "sid \<in> qs_slot_id ` set (pq_slots q)" if "pq_active q = Some sid" for sid
    using pq_invD(3) [OF assms that] by (simp add: slot_ids_def)
  ultimately show ?thesis
    by (auto simp: merge_refresh_def loop Let_def split_beta split: option.split
        intro!: pq_minted_bump_if)
qed

lemma pq_apply_minted:
  assumes "pq_inv q"
  shows "pq_same q h (pq_apply op q h) \<or> pq_minted h (pq_apply op q h)"
proof (cases op)
  case (Op_Replace items)
  then show ?thesis by (simp add: replace_slots_def split_beta Let_def)
next
  case (Op_Refresh items)
  then show ?thesis using merge_refresh_minted [OF assms] by simp
qed (use remove_existing_slot_minted [of q h] truncate_slots_minted update_slot_item_minted
      apply_progress_minted set_slot_progress_minted merge_refresh_for_slots_minted
    in \<open>auto simp: append_slot_def insert_slot_def append_with_id_def mint_slot_id_def
      allocate_slot_id_def clear_slots_def set_active_slot_def clear_active_slot_def
      remove_slot_def consume_slot_def remove_active_slot_confirmed_def reorder_slots_def
      move_slot_def rebase_revision_mint_def mint_revision_def bump_eq Let_def split_beta
      pq_minted_def pq_same_def split: option.split\<close>)

section \<open>Runs\<close>

text \<open>
  \<open>own\<close> applies an operation to this queue; in \<open>foreign\<close> another holder of a mint draws a
  revision. A run counts its steps.
\<close>

inductive pq_step :: "playback_queue \<times> mint_store \<Rightarrow> playback_queue \<times> mint_store \<Rightarrow> bool" where
  own: "pq_op_ok op q \<Longrightarrow> pq_step (q, h) (pq_apply op q h)"
| foreign: "pq_step (q, h) (q, snd (mint_revision m h))"

inductive pq_run :: "nat \<Rightarrow> playback_queue \<times> mint_store \<Rightarrow> playback_queue \<times> mint_store \<Rightarrow> bool" where
  start: "pq_run 0 s s"
| step: "pq_run n s t \<Longrightarrow> pq_step t u \<Longrightarrow> pq_run (Suc n) s u"

inductive_cases pq_stepE: "pq_step (q, h) u"

lemma pq_step_inv: "pq_step s t \<Longrightarrow> pq_inv (fst s) \<Longrightarrow> pq_inv (fst t)"
  by (induction rule: pq_step.induct) (auto intro: pq_apply_inv)

lemma pq_run_inv: "pq_run n s t \<Longrightarrow> pq_inv (fst s) \<Longrightarrow> pq_inv (fst t)"
  by (induction rule: pq_run.induct) (auto intro: pq_step_inv)

text \<open>
  C1. The queue invariant holds in every state of every run from a queue built by
  \<^verbatim>\<open>from_queue_items\<close>, whatever operations are applied in whatever order: slot identities
  stay pairwise distinct and below the allocator, and the active marker is unset or names a
  live slot.
\<close>

theorem queue_invariant_always:
  assumes "length items + 1 < 2 ^ 64"
    and "pq_run n (from_queue_items items act m h) (q, h')"
  shows "distinct (slot_ids q)
    \<and> (\<forall>sid. sid \<in> set (slot_ids q) \<longrightarrow> sid < pq_next_slot_id q)
    \<and> (\<forall>sid. pq_active q = Some sid \<longrightarrow> active_slot q \<noteq> None)"
proof -
  have inv: "pq_inv q"
    using pq_run_inv [OF assms(2)] from_queue_items_inv [OF assms(1)] by simp
  then have "active_slot q \<noteq> None" if "pq_active q = Some sid" for sid
    using pq_invD(3) [OF inv that] that
    by (auto simp: active_slot_def slot_def slot_ids_def find_None_iff)
  with inv show ?thesis by (auto simp: pq_inv_def)
qed

lemma queue_invariant_always_witness:
  "\<exists>q h'. pq_run 2 (from_queue_items [QI_Emby (emby_folder ''a'' ''A'' [])] (Some 0) 0 (\<lambda>_. 0)) (q, h')
     \<and> slot_ids q = [1, 2] \<and> distinct (slot_ids q)"
proof -
  let ?s = "from_queue_items [QI_Emby (emby_folder ''a'' ''A'' [])] (Some 0) 0 (\<lambda>_. 0)"
  let ?t = "pq_apply (Op_Append (QI_Emby (emby_folder ''b'' ''B'' []))) (fst ?s) (snd ?s)"
  have ok: "pq_op_ok (Op_Append it) (fst ?s)" for it
    by (simp add: pq_room_def from_queue_items_def mint_revision_def allocate_slot_id_def
        u64_sat_inc_def)
  have "pq_step ?s ?t" using pq_step.own [OF ok, of "snd ?s"] by (simp only: prod.collapse)
  moreover have "pq_step ?t (fst ?t, snd (mint_revision 0 (snd ?t)))"
    using pq_step.foreign [of "fst ?t" "snd ?t" 0] by (simp only: prod.collapse)
  ultimately have run: "pq_run 2 ?s (fst ?t, snd (mint_revision 0 (snd ?t)))"
    using pq_run.step [OF pq_run.step [OF pq_run.start]] unfolding numeral_2_eq_2 by blast
  have ids: "slot_ids (fst ?t) = [1, 2]"
    by (simp add: from_queue_items_def mint_revision_def allocate_slot_id_def append_slot_def
        insert_slot_def bump_eq u64_sat_inc_def slot_ids_def insert_at_def)
  have "distinct (slot_ids (fst ?t))" using queue_invariant_always [OF _ run] by simp
  with run ids show ?thesis by blast
qed

text \<open>The steps of one holder keep an old revision of the mint below its counter.\<close>

definition revision_mark :: "mint_id \<Rightarrow> nat \<Rightarrow> playback_queue \<times> mint_store \<Rightarrow> bool" where
  "revision_mark m r = (\<lambda>(q, h). r < unat (h m)
     \<and> (pq_mint q = m \<longrightarrow> unat (pq_revision q) < unat (h m)))"

definition same_view :: "playback_queue \<Rightarrow> playback_queue \<Rightarrow> bool" where
  "same_view q q' \<longleftrightarrow> pq_slots q' = pq_slots q \<and> pq_active q' = pq_active q"

lemma unat_plus_one: "unat w + 1 < 2 ^ 64 \<Longrightarrow> unat (w + 1 :: u64) = unat w + 1"
  by (simp add: unat_word_ariths)

text \<open>What one step does, with the queue's own operations reduced to their two outcomes.\<close>

lemma pq_step_outcome:
  assumes "pq_step (q, h) (q', h')" "pq_inv q"
  shows "(same_view q q' \<and> pq_revision q' = pq_revision q \<and> pq_mint q' = pq_mint q
            \<and> (h' = h \<or> (\<exists>m. h' = h(m := h m + 1))))
    \<or> (pq_revision q' = h (pq_mint q') \<and> h' = h(pq_mint q' := h (pq_mint q') + 1))"
  using assms(1)
proof (rule pq_stepE)
  fix op assume "(q', h') = pq_apply op q h"
  with pq_apply_minted [OF assms(2), of h op] show ?thesis
    by (auto simp: pq_same_def pq_minted_def same_view_def split: prod.splits)
next
  fix m assume "(q', h') = (q, snd (mint_revision m h))"
  then show ?thesis by (auto simp: mint_revision_def same_view_def)
qed

lemma counter_room:
  assumes "pq_step (q, h) (q', h')" "pq_inv q" "unat (h m) + Suc n < 2 ^ 64"
  shows "unat (h' m) \<le> unat (h m) + 1 \<and> unat (h m) \<le> unat (h' m)"
  using pq_step_outcome [OF assms(1,2)] assms(3) unat_plus_one [of "h m"]
  by (auto split: if_splits)

text \<open>
  The view a reader took at revision \<open>r\<close> of mint \<open>m\<close>: as long as the queue still carries
  that revision, it still shows that view.
\<close>

definition view_kept :: "playback_queue \<Rightarrow> playback_queue \<times> mint_store \<Rightarrow> bool" where
  "view_kept q0 = (\<lambda>(q, h). pq_inv q
     \<and> revision_mark (pq_mint q0) (unat (pq_revision q0)) (q, h)
     \<and> (pq_mint q = pq_mint q0 \<longrightarrow> pq_revision q = pq_revision q0 \<longrightarrow> same_view q0 q))"

lemma view_kept_step:
  assumes "view_kept q0 (q, h)" "pq_step (q, h) (q', h')" "unat (h (pq_mint q0)) + 1 < 2 ^ 64"
  shows "view_kept q0 (q', h')"
proof -
  have inv: "pq_inv q" using assms(1) by (simp add: view_kept_def)
  have inv': "pq_inv q'" using pq_step_inv [OF assms(2)] inv by simp
  from pq_step_outcome [OF assms(2) inv] show ?thesis
  proof (elim disjE)
    assume "same_view q q' \<and> pq_revision q' = pq_revision q \<and> pq_mint q' = pq_mint q
            \<and> (h' = h \<or> (\<exists>m. h' = h(m := h m + 1)))"
    with assms(1) inv' unat_plus_one [OF assms(3)] show ?thesis
      by (auto simp: view_kept_def revision_mark_def same_view_def)
  next
    assume "pq_revision q' = h (pq_mint q') \<and> h' = h(pq_mint q' := h (pq_mint q') + 1)"
    with assms(1) inv' unat_plus_one [OF assms(3)] show ?thesis
      by (auto simp: view_kept_def revision_mark_def)
  qed
qed

lemma view_kept_run:
  assumes "pq_run n s t" "view_kept q0 s" "unat (snd s (pq_mint q0)) + n < 2 ^ 64"
  shows "view_kept q0 t \<and> unat (snd t (pq_mint q0)) \<le> unat (snd s (pq_mint q0)) + n"
  using assms
proof (induction rule: pq_run.induct)
  case (step n s t u)
  obtain q h q' h' where tu: "t = (q, h)" "u = (q', h')" by (cases t; cases u)
  from step have IH: "view_kept q0 (q, h)" "unat (h (pq_mint q0)) \<le> unat (snd s (pq_mint q0)) + n"
    by (auto simp: tu)
  with step.prems(2) have room: "unat (h (pq_mint q0)) + 1 < 2 ^ 64" by simp
  have "pq_inv q" using IH(1) by (simp add: view_kept_def)
  with step.hyps(2) room IH show ?case
    using view_kept_step [OF IH(1) _ room, of q' h'] counter_room [of q h q' h' "pq_mint q0" 0]
    by (auto simp: tu)
qed simp

text \<open>
  C3. A revision identifies a view of the queue. Take a snapshot whose revision its mint
  has already passed. After any run of operations, with other queues drawing from the same
  mint in between, a queue that carries the snapshot's mint and revision shows the
  snapshot's slots and active marker, as long as the 64-bit counter does not wrap.
\<close>

theorem revision_identifies_view:
  assumes "pq_inv q0" "pq_revision q0 < h0 (pq_mint q0)"
    and "pq_run n (q0, h0) (q, h)" "unat (h0 (pq_mint q0)) + n < 2 ^ 64"
    and "pq_mint q = pq_mint q0" "pq_revision q = pq_revision q0"
  shows "pq_slots q = pq_slots q0 \<and> pq_active q = pq_active q0"
proof -
  have "view_kept q0 (q0, h0)"
    using assms(1,2) by (simp add: view_kept_def revision_mark_def same_view_def word_less_nat_alt)
  from view_kept_run [OF assms(3) this] assms(4-6) show ?thesis
    by (simp add: view_kept_def same_view_def)
qed

lemma revision_identifies_view_witness:
  "pq_slots (snd (mint_slot_id sample_refresh_queue)) = pq_slots sample_refresh_queue
   \<and> pq_active (snd (mint_slot_id sample_refresh_queue)) = pq_active sample_refresh_queue"
proof -
  let ?q = "sample_refresh_queue" and ?h = "\<lambda>_. 1 :: u64"
  have "pq_step (?q, ?h) (?q, snd (mint_revision 0 ?h))" by (rule pq_step.foreign)
  moreover have "pq_step (?q, snd (mint_revision 0 ?h))
      (pq_apply Op_Mint_Id ?q (snd (mint_revision 0 ?h)))" by (rule pq_step.own) simp
  ultimately have run: "pq_run 2 (?q, ?h) (snd (mint_slot_id ?q), snd (mint_revision 0 ?h))"
    using pq_run.step [OF pq_run.step [OF pq_run.start]] by (simp add: numeral_2_eq_2)
  show ?thesis
    by (rule revision_identifies_view [OF sample_refresh_queue_inv _ run])
      (simp_all add: sample_refresh_queue_def mint_slot_id_def allocate_slot_id_def)
qed

end
