(* ===== verification/Queue_Order.thy ===== *)
theory Queue_Order
  imports Queue_Invariant
begin

text \<open>
  What the operations that reorder and remove slots do to the sequence of slot identities:
  \<^verbatim>\<open>move_slot\<close>, \<^verbatim>\<open>reorder_slots\<close>, the incremental \<^verbatim>\<open>reorder_move_plan\<close>,
  \<^verbatim>\<open>shuffled_slot_order\<close>, and the three removals with their effect on the active marker.
\<close>

section \<open>Moving one slot\<close>

lemma remove_at_filter:
  assumes "distinct xs" "i < length xs"
  shows "remove_at i xs = filter (\<lambda>x. x \<noteq> xs ! i) xs"
proof -
  have split: "xs = take i xs @ xs ! i # drop (Suc i) xs"
    using assms(2) by (simp add: id_take_nth_drop)
  have "xs ! i \<notin> set (take i xs)" "xs ! i \<notin> set (drop (Suc i) xs)"
    using assms(1) distinct_append [of "take i xs" "xs ! i # drop (Suc i) xs"] split by auto
  then have "filter (\<lambda>x. x \<noteq> xs ! i) (take i xs) = take i xs"
    "filter (\<lambda>x. x \<noteq> xs ! i) (drop (Suc i) xs) = drop (Suc i) xs"
    by (auto intro!: filter_True)
  then have "filter (\<lambda>x. x \<noteq> xs ! i) (take i xs @ xs ! i # drop (Suc i) xs)
      = take i xs @ drop (Suc i) xs"
    by simp
  with split show ?thesis by (simp add: remove_at_def)
qed

lemma slot_index_ids: "slot_index q sid = position (\<lambda>k. k = sid) (slot_ids q)"
  by (simp add: slot_index_def slot_ids_def position_map)

lemma remove_slot_ids:
  assumes "distinct (slot_ids q)" "slot_index q sid = Some i"
  shows "remove_at i (slot_ids q) = filter (\<lambda>k. k \<noteq> sid) (slot_ids q)"
  using assms slot_index_Some [OF assms(2)] remove_at_filter [OF assms(1), of i]
  by (simp add: slot_ids_def)

lemma move_slot_result_ids:
  assumes "pq_inv q" "sid \<in> set (slot_ids q)"
  shows "slot_ids (fst (snd (move_slot sid to q h)))
    = insert_at (min to (length (slot_ids q) - 1)) sid (filter (\<lambda>k. k \<noteq> sid) (slot_ids q))"
proof -
  obtain i where i: "slot_index q sid = Some i" using assms(2) by fastforce
  have "i < length (pq_slots q)" "qs_slot_id (pq_slots q ! i) = sid"
    using slot_index_Some [OF i] by auto
  with i remove_slot_ids [OF pq_invD(1) [OF assms(1)] i] show ?thesis
    by (simp add: move_slot_def bump_eq Let_def map_insert_at map_ids_remove_at)
      (simp add: slot_ids_def)
qed

lemma move_slot_frame [simp]:
  "pq_active (fst (snd (move_slot sid to q h))) = pq_active q"
  "pq_next_slot_id (fst (snd (move_slot sid to q h))) = pq_next_slot_id q"
  by (auto simp: move_slot_def bump_eq Let_def split: option.split)

lemma move_slot_mset: "mset (pq_slots (fst (snd (move_slot sid to q h)))) = mset (pq_slots q)"
  by (auto simp: move_slot_def bump_eq Let_def mset_remove_at simp del: slot_index_None
      dest: slot_index_Some split: option.split)

text \<open>
  Moving a slot takes it out of the order and puts it at the requested index (the last
  one when the request is past the end); every other slot keeps its place in the relative
  order, no slot is lost or changed, and the active marker stays on its slot. An unknown
  identity changes nothing.
\<close>

theorem move_slot_spec:
  assumes "pq_inv q"
  shows "(if sid \<in> set (slot_ids q)
     then fst (move_slot sid to q h) = Applied ()
       \<and> slot_ids (fst (snd (move_slot sid to q h)))
           = insert_at (min to (length (slot_ids q) - 1)) sid (filter (\<lambda>k. k \<noteq> sid) (slot_ids q))
       \<and> mset (pq_slots (fst (snd (move_slot sid to q h)))) = mset (pq_slots q)
       \<and> pq_active (fst (snd (move_slot sid to q h))) = pq_active q
     else move_slot sid to q h = (Mutation_NotFound, q, h))"
proof (cases "sid \<in> set (slot_ids q)")
  case True
  then have "fst (move_slot sid to q h) = Applied ()"
    by (auto simp: move_slot_def Let_def split_beta split: option.split)
  with True move_slot_result_ids [OF assms True] show ?thesis by (simp add: move_slot_mset)
next
  case False
  then have "slot_index q sid = None" by simp
  with False show ?thesis by (simp add: move_slot_def del: slot_index_None)
qed

definition sample_order_queue :: playback_queue where
  "sample_order_queue = \<lparr>pq_slots = map (\<lambda>n. \<lparr>qs_slot_id = n, qs_item = QI_Twitch
        \<lparr>twitch_url = [], twitch_title = []\<rparr>\<rparr>) [1, 2, 3],
      pq_active = Some 2, pq_revision = 0, pq_mint = 0, pq_next_slot_id = 4\<rparr>"

definition sample_store :: mint_store where
  "sample_store = (\<lambda>_. 1)"

lemma sample_order_queue_inv: "pq_inv sample_order_queue"
  by (simp add: sample_order_queue_def pq_inv_def slot_ids_def)

lemma sample_order_ids [simp]: "slot_ids sample_order_queue = [1, 2, 3]"
  by (simp add: sample_order_queue_def slot_ids_def)

lemma sample_order_active [simp]: "pq_active sample_order_queue = Some 2"
  by (simp add: sample_order_queue_def)

lemma move_slot_spec_witness:
  "slot_ids (fst (snd (move_slot 3 0 sample_order_queue sample_store))) = [3, 1, 2]
   \<and> pq_active (fst (snd (move_slot 3 0 sample_order_queue sample_store))) = Some 2"
  using move_slot_spec [OF sample_order_queue_inv, of 3 0 sample_store] by simp

section \<open>Reordering\<close>

text \<open>
  A reorder is accepted exactly when the requested order names every slot once; the
  queue then has exactly that order with every item still on its own slot and the active
  marker unmoved. A request that misses, repeats or invents a slot is refused and changes
  nothing.
\<close>

theorem reorder_slots_spec:
  assumes "pq_inv q"
  shows "(if mset order = mset (slot_ids q)
     then fst (reorder_slots order q h) = Applied ()
       \<and> slot_ids (fst (snd (reorder_slots order q h))) = order
       \<and> (\<forall>sid. slot (fst (snd (reorder_slots order q h))) sid = slot q sid)
       \<and> pq_active (fst (snd (reorder_slots order q h))) = pq_active q
     else reorder_slots order q h = (Mutation_NotFound, q, h))"
proof (cases "mset order = mset (slot_ids q) \<and> slot_ids q \<noteq> order")
  case True
  then have perm: "mset (slot_ids q) = mset order" by simp
  note reordered = reordered_slots [OF pq_invD(1) [OF assms] perm]
  have found: "slot q k \<noteq> None \<and> qs_slot_id (the (slot q k)) = k" if "k \<in> set order" for k
  proof -
    have "k \<in> set (slot_ids q)" using that perm by (metis mset_eq_setD)
    then have "slot q k \<noteq> None" by (auto simp: slot_def slot_ids_def find_None_iff)
    then show ?thesis by (auto simp: slot_def dest: find_in_set)
  qed
  have slots: "List.find (\<lambda>s. qs_slot_id s = k) (map (\<lambda>k. the (slot q k)) ks) =
      (if k \<in> set ks then slot q k else None)" if "set ks \<subseteq> set order" for ks k
    using that found by (induction ks) auto
  have "slot q k = None" if "k \<notin> set order" for k
  proof -
    have "k \<notin> set (slot_ids q)" using that perm by (metis mset_eq_setD)
    then show ?thesis by (auto simp: slot_def slot_ids_def find_None_iff)
  qed
  with slots [of order] have "List.find (\<lambda>s. qs_slot_id s = k) (map (\<lambda>k. the (slot q k)) order)
      = slot q k" for k by auto
  with True reordered show ?thesis
    by (auto simp: reorder_slots_def is_slot_permutation_iff bump_eq Let_def slot_def)
qed (auto simp: reorder_slots_def is_slot_permutation_iff)

lemma reorder_slots_spec_witness:
  "slot_ids (fst (snd (reorder_slots [3, 1, 2] sample_order_queue sample_store))) = [3, 1, 2]
   \<and> reorder_slots [3, 3, 2] sample_order_queue sample_store = (Mutation_NotFound, sample_order_queue, sample_store)"
  using reorder_slots_spec [OF sample_order_queue_inv, of "[3, 1, 2]" sample_store]
    reorder_slots_spec [OF sample_order_queue_inv, of "[3, 3, 2]" sample_store]
  by (simp add: add_mset_commute)

section \<open>The move plan\<close>

lemma position_after:
  "sid \<notin> set pre \<Longrightarrow> position (\<lambda>i. i = sid) (pre @ xs)
     = map_option ((+) (length pre)) (position (\<lambda>i. i = sid) xs)"
  by (induction pre; cases "position (\<lambda>i. i = sid) xs") (auto simp del: position_None)

lemma remove_at_append: "remove_at (length pre + k) (pre @ xs) = pre @ remove_at k xs"
  by (simp add: remove_at_def)

lemma insert_at_append: "insert_at (length pre) x (pre @ xs) = pre @ x # xs"
  by (simp add: insert_at_def)

text \<open>One move and a whole plan on the sequence of identities.\<close>

definition move_id :: "queue_slot_id \<Rightarrow> usize \<Rightarrow> queue_slot_id list \<Rightarrow> queue_slot_id list" where
  "move_id sid to xs = insert_at (min to (length xs - 1)) sid (filter (\<lambda>k. k \<noteq> sid) xs)"

definition move_ids :: "(queue_slot_id \<times> usize) list \<Rightarrow> queue_slot_id list \<Rightarrow> queue_slot_id list" where
  "move_ids = fold (\<lambda>(sid, to). move_id sid to)"

text \<open>Every move of the plan names a slot of the order and an index inside it.\<close>

definition plan_in_range :: "queue_slot_id list \<Rightarrow> (queue_slot_id \<times> usize) list \<Rightarrow> bool" where
  "plan_in_range ids plan \<longleftrightarrow> (\<forall>(sid, to)\<in>set plan. sid \<in> set ids \<and> to < length ids)"

lemma plan_in_range_cong:
  "set xs = set ys \<Longrightarrow> length xs = length ys \<Longrightarrow> plan_in_range xs plan = plan_in_range ys plan"
  by (simp add: plan_in_range_def)

lemma move_id_prefix:
  assumes "distinct (pre @ rest)" "position (\<lambda>i. i = sid) rest = Some k"
  shows "move_id sid (length pre) (pre @ rest) = pre @ sid # remove_at k rest"
proof -
  have k: "k < length rest" "rest ! k = sid"
    using position_lessD [OF assms(2)] position_holds [OF assms(2)] by auto
  then have notpre: "sid \<notin> set pre" using assms(1) by auto
  have "filter (\<lambda>j. j \<noteq> sid) pre = pre" using notpre by (metis (mono_tags, lifting) filter_True)
  moreover have "filter (\<lambda>j. j \<noteq> sid) rest = remove_at k rest"
    using remove_at_filter [of rest k] k assms(1) by simp
  moreover have "min (length pre) (length (pre @ rest) - 1) = length pre" using k(1) by simp
  ultimately show ?thesis unfolding move_id_def filter_append by (simp only: insert_at_append)
qed

lemma move_plan_loop_ok:
  assumes "distinct (pre @ rest)" "mset rest = mset target"
  shows "\<exists>plan. move_plan_loop (length pre) (pre @ rest) target = Some plan
    \<and> move_ids plan (pre @ rest) = pre @ target \<and> plan_in_range (pre @ rest) plan"
  using assms
proof (induction target arbitrary: pre rest)
  case Nil
  then show ?case by (simp add: move_ids_def plan_in_range_def)
next
  case (Cons sid target)
  have mem: "sid \<in> set rest" using Cons.prems(2) by (metis list.set_intros(1) mset_eq_setD)
  then have notpre: "sid \<notin> set pre" using Cons.prems(1) by auto
  from mem obtain k where k: "position (\<lambda>i. i = sid) rest = Some k" by fastforce
  have klt: "k < length rest" "rest ! k = sid"
    using position_lessD [OF k] position_holds [OF k] by auto
  have pos: "position (\<lambda>i. i = sid) (pre @ rest) = Some (length pre + k)"
    by (simp add: position_after [OF notpre] k)
  let ?r = "remove_at k rest"
  have same: "mset ((pre @ [sid]) @ ?r) = mset (pre @ rest)"
    using mset_remove_at [OF klt(1)] klt(2) by simp
  note range = plan_in_range_cong [OF mset_eq_setD [OF same] mset_eq_length [OF same]]
  have "mset ?r = mset target"
    using mset_remove_at [OF klt(1)] Cons.prems(2) klt(2) by simp
  moreover have "distinct ((pre @ [sid]) @ ?r)"
    using mset_eq_imp_distinct_iff [OF same] Cons.prems(1) by blast
  ultimately obtain plan where plan:
    "move_plan_loop (Suc (length pre)) ((pre @ [sid]) @ ?r) target = Some plan"
    "move_ids plan ((pre @ [sid]) @ ?r) = (pre @ [sid]) @ target"
    "plan_in_range (pre @ rest) plan"
    using Cons.IH [of "pre @ [sid]" ?r] range by auto
  show ?case
  proof (cases "k = 0")
    case True
    then have "(pre @ [sid]) @ ?r = pre @ rest"
      using klt by (cases rest) (auto simp: remove_at_def)
    with plan pos True show ?thesis by auto
  next
    case False
    then have "length pre + k \<noteq> length pre" by simp
    with pos plan(1) have "move_plan_loop (length pre) (pre @ rest) (sid # target)
        = Some ((sid, length pre) # plan)"
      by (simp add: remove_at_append insert_at_append Let_def del: length_remove_at)
    moreover have "move_ids ((sid, length pre) # plan) (pre @ rest) = pre @ sid # target"
      using plan(2) by (simp add: move_ids_def move_id_prefix [OF Cons.prems(1) k])
    moreover have "plan_in_range (pre @ rest) ((sid, length pre) # plan)"
      using plan(3) mem klt(1) by (auto simp: plan_in_range_def)
    ultimately show ?thesis by blast
  qed
qed

lemma reorder_move_plan_ok:
  assumes "distinct ids" "mset target = mset ids"
  shows "\<exists>plan. reorder_move_plan ids target = Some plan
    \<and> move_ids plan ids = target \<and> plan_in_range ids plan"
  using move_plan_loop_ok [of "[]" ids target] assms by (simp add: reorder_move_plan_def)

definition apply_moves ::
  "(queue_slot_id \<times> usize) list \<Rightarrow> playback_queue \<times> mint_store \<Rightarrow> playback_queue \<times> mint_store" where
  "apply_moves = fold (\<lambda>(sid, to) (q, h). snd (move_slot sid to q h))"

lemma mset_move_id: "distinct xs \<Longrightarrow> sid \<in> set xs \<Longrightarrow> mset (move_id sid to xs) = mset xs"
  using position_None [of "\<lambda>k. k = sid" xs] remove_at_filter [of xs] mset_remove_at [of _ xs]
  by (cases "position (\<lambda>k. k = sid) xs") (auto simp: move_id_def dest: position_lessD position_holds)

lemma plan_in_range_step:
  assumes "plan_in_range ids ((sid, to) # plan)" "distinct ids"
  shows "plan_in_range (move_id sid to ids) plan" "distinct (move_id sid to ids)"
proof -
  have "mset (move_id sid to ids) = mset ids"
    using assms by (intro mset_move_id) (auto simp: plan_in_range_def)
  from mset_eq_setD [OF this] mset_eq_length [OF this] mset_eq_imp_distinct_iff [OF this] assms
  show "plan_in_range (move_id sid to ids) plan" "distinct (move_id sid to ids)"
    by (auto simp: plan_in_range_def)
qed

lemma apply_moves_ids:
  assumes "pq_inv q" "plan_in_range (slot_ids q) plan"
  shows "slot_ids (fst (apply_moves plan (q, h))) = move_ids plan (slot_ids q)
    \<and> pq_active (fst (apply_moves plan (q, h))) = pq_active q
    \<and> mset (pq_slots (fst (apply_moves plan (q, h)))) = mset (pq_slots q)"
  using assms
proof (induction plan arbitrary: q h)
  case Nil
  then show ?case by (simp add: apply_moves_def move_ids_def)
next
  case (Cons m plan)
  obtain sid to where m: "m = (sid, to)" by (cases m)
  let ?q = "fst (snd (move_slot sid to q h))"
  have "sid \<in> set (slot_ids q)" using Cons.prems(2) by (auto simp: m plan_in_range_def)
  then have ids: "slot_ids ?q = move_id sid to (slot_ids q)"
    using move_slot_result_ids [OF Cons.prems(1)] by (simp add: move_id_def)
  have "plan_in_range (slot_ids ?q) plan"
    using plan_in_range_step(1) [OF _ pq_invD(1) [OF Cons.prems(1)]] Cons.prems(2) by (simp add: ids m)
  from Cons.IH [OF move_slot_inv [OF Cons.prems(1)] this, of "snd (snd (move_slot sid to q h))"]
  show ?case by (simp add: m apply_moves_def move_ids_def ids move_slot_mset split_beta)
qed

text \<open>
  C25. The incremental plan of a reorder does what it says: for a target order that names
  the queue's slots, the plan exists (no insertion is out of range), and replaying its moves
  one by one with \<^verbatim>\<open>move_slot\<close> ends exactly in the target order, with the same slots and the
  active marker on the same one.
\<close>

theorem reorder_move_plan_reaches_target:
  assumes "pq_inv q" "mset target = mset (slot_ids q)"
  shows "\<exists>plan. reorder_move_plan (slot_ids q) target = Some plan
    \<and> slot_ids (fst (apply_moves plan (q, h))) = target
    \<and> pq_active (fst (apply_moves plan (q, h))) = pq_active q
    \<and> mset (pq_slots (fst (apply_moves plan (q, h)))) = mset (pq_slots q)"
proof -
  from reorder_move_plan_ok [OF pq_invD(1) [OF assms(1)] assms(2)] obtain plan where
    "reorder_move_plan (slot_ids q) target = Some plan" "move_ids plan (slot_ids q) = target"
    "plan_in_range (slot_ids q) plan" by blast
  with apply_moves_ids [OF assms(1), of plan h] show ?thesis by auto
qed

lemma reorder_move_plan_reaches_target_witness:
  "\<exists>plan. reorder_move_plan [1, 2, 3] [3, 2, 1] = Some plan
     \<and> slot_ids (fst (apply_moves plan (sample_order_queue, sample_store))) = [3, 2, 1]"
  using reorder_move_plan_reaches_target [OF sample_order_queue_inv, of "[3, 2, 1]" sample_store]
  by (auto simp: add_mset_commute)

text \<open>A foreign identity in the target is not always skipped: it can make the insertion panic.\<close>

lemma reorder_move_plan_foreign: "reorder_move_plan [1] [9, 1] = None"
  by (simp add: reorder_move_plan_def remove_at_def Let_def)

section \<open>Shuffling\<close>

text \<open>
  C34. With a shuffle that permutes its input, the order drawn for a queue names every slot
  once, starts with the active slot when that one is pinned, and is accepted by
  \<^verbatim>\<open>reorder_slots\<close>, which then puts the queue in it.
\<close>

theorem shuffled_order_spec:
  assumes perm: "\<And>xs. mset (shuffle xs) = mset xs" and inv: "pq_inv q"
  shows "mset (shuffled_slot_order shuffle pin q) = mset (slot_ids q)
    \<and> (pin \<and> pq_active q \<noteq> None
         \<longrightarrow> nth_opt (shuffled_slot_order shuffle pin q) 0 = pq_active q)
    \<and> slot_ids (fst (snd (reorder_slots (shuffled_slot_order shuffle pin q) q h)))
        = shuffled_slot_order shuffle pin q"
proof -
  have "mset (shuffled_slot_order shuffle pin q) = mset (slot_ids q)"
  proof (cases "opt_filter (\<lambda>_. pin) (pq_active q)")
    case None
    then show ?thesis by (simp add: shuffled_slot_order_def perm)
  next
    case (Some sid)
    then have mem: "sid \<in> set (slot_ids q)" using pq_invD(3) [OF inv] by simp
    obtain i where i: "slot_index q sid = Some i" using mem by fastforce
    have "add_mset (slot_ids q ! i) (mset (remove_at i (slot_ids q))) = mset (slot_ids q)"
      using slot_index_Some [OF i] by (intro mset_remove_at) (simp add: slot_ids_def)
    moreover have "slot_ids q ! i = sid" using slot_index_Some [OF i] by (simp add: slot_ids_def)
    moreover have "(\<lambda>k. Some k \<noteq> Some sid) = (\<lambda>k. k \<noteq> sid)" by auto
    ultimately show ?thesis
      using Some remove_slot_ids [OF pq_invD(1) [OF inv] i]
      by (simp add: shuffled_slot_order_def perm)
  qed
  moreover have "nth_opt (shuffled_slot_order shuffle pin q) 0 = pq_active q"
    if "pin \<and> pq_active q \<noteq> None"
    using that by (auto simp: shuffled_slot_order_def)
  ultimately show ?thesis using reorder_slots_spec [OF inv, of _ h] by simp
qed

lemma shuffled_order_spec_witness:
  "shuffled_slot_order rev True sample_order_queue = [2, 3, 1]
   \<and> slot_ids (fst (snd (reorder_slots [2, 3, 1] sample_order_queue sample_store))) = [2, 3, 1]"
proof -
  have order: "shuffled_slot_order rev True sample_order_queue = [2, 3, 1]"
    by (simp add: shuffled_slot_order_def)
  from shuffled_order_spec [of rev, OF _ sample_order_queue_inv, of True sample_store] show ?thesis
    by (simp add: order)
qed

section \<open>Removing\<close>

text \<open>The neighbour that takes over from a removed active slot.\<close>

definition takes_over :: "queue_slot_id \<Rightarrow> playback_queue \<Rightarrow> queue_slot_id option" where
  "takes_over sid q =
     (let rest = filter (\<lambda>k. k \<noteq> sid) (slot_ids q) in
      case slot_index q sid of None \<Rightarrow> None
      | Some i \<Rightarrow> (if i < length rest then Some (rest ! i) else last_opt rest))"

lemma remove_existing_slot_spec:
  assumes "pq_inv q" "slot_index q sid = Some i"
  shows "fst (remove_existing_slot sid q h) = slot q sid"
    "slot_ids (fst (snd (remove_existing_slot sid q h))) = filter (\<lambda>k. k \<noteq> sid) (slot_ids q)"
    "pq_active (fst (snd (remove_existing_slot sid q h)))
       = (if pq_active q = Some sid then takes_over sid q else pq_active q)"
proof -
  note ids = remove_slot_ids [OF pq_invD(1) [OF assms(1)] assms(2)]
  have slots: "map qs_slot_id (remove_at i (pq_slots q)) = filter (\<lambda>k. k \<noteq> sid) (slot_ids q)"
    by (simp add: map_ids_remove_at ids)
  have next_slot: "map_option qs_slot_id (opt_or (nth_opt ss j) (last_opt ss))
      = (if j < length (map qs_slot_id ss) then Some (map qs_slot_id ss ! j)
         else last_opt (map qs_slot_id ss))" for ss j
    by (auto simp: nth_opt_def last_opt_def last_map)
  show "fst (remove_existing_slot sid q h) = slot q sid"
    using assms(2) by (simp add: remove_existing_slot_def slot_def slot_index_def find_position
        Let_def split_beta)
  show "slot_ids (fst (snd (remove_existing_slot sid q h))) = filter (\<lambda>k. k \<noteq> sid) (slot_ids q)"
    using assms(2) slots by (simp add: remove_existing_slot_def bump_eq Let_def)
  show "pq_active (fst (snd (remove_existing_slot sid q h)))
       = (if pq_active q = Some sid then takes_over sid q else pq_active q)"
    using assms(2) by (simp add: remove_existing_slot_def bump_eq Let_def next_slot slots
        takes_over_def del: length_map)
qed

text \<open>
  C32. Removing a slot takes exactly that slot out and returns it. \<^verbatim>\<open>remove_slot\<close> never touches
  the active slot: it asks for confirmation and changes nothing. A confirmed removal of the
  active slot leaves no slot active, while consuming it hands the marker to the slot that
  moved into its place, or to the new last slot, or to none when the queue is empty.
\<close>

theorem slot_removal_spec:
  assumes "pq_inv q" "sid \<in> set (slot_ids q)"
  shows "(pq_active q = Some sid
       \<longrightarrow> remove_slot sid q h = (RequiresActiveConfirmation sid, q, h))
    \<and> (pq_active q \<noteq> Some sid
       \<longrightarrow> fst (remove_slot sid q h) = Removed (the (slot q sid))
         \<and> slot_ids (fst (snd (remove_slot sid q h))) = filter (\<lambda>k. k \<noteq> sid) (slot_ids q)
         \<and> pq_active (fst (snd (remove_slot sid q h))) = pq_active q)
    \<and> (fst (remove_active_slot_confirmed sid q h) = Removed (the (slot q sid))
         \<and> slot_ids (fst (snd (remove_active_slot_confirmed sid q h)))
             = filter (\<lambda>k. k \<noteq> sid) (slot_ids q)
         \<and> pq_active (fst (snd (remove_active_slot_confirmed sid q h)))
             = (if pq_active q = Some sid then None else pq_active q))
    \<and> (fst (consume_slot sid q h) = Applied (the (slot q sid))
         \<and> slot_ids (fst (snd (consume_slot sid q h))) = filter (\<lambda>k. k \<noteq> sid) (slot_ids q)
         \<and> pq_active (fst (snd (consume_slot sid q h)))
             = (if pq_active q = Some sid then takes_over sid q else pq_active q))"
proof -
  obtain i where i: "slot_index q sid = Some i" using assms(2) by fastforce
  note spec = remove_existing_slot_spec [OF assms(1) i, of h]
  have slot: "slot q sid = Some (pq_slots q ! i)"
    using i by (simp add: slot_def slot_index_def find_position)
  have "map qs_slot_id (remove_at i (pq_slots q)) = filter (\<lambda>k. k \<noteq> sid) (slot_ids q)"
    by (simp add: map_ids_remove_at remove_slot_ids [OF pq_invD(1) [OF assms(1)] i])
  with spec slot i show ?thesis
    by (auto simp: remove_slot_def consume_slot_def remove_active_slot_confirmed_def bump_eq
        Let_def split_beta)
qed

lemma slot_removal_spec_witness:
  "remove_slot 2 sample_order_queue sample_store = (RequiresActiveConfirmation 2, sample_order_queue, sample_store)
   \<and> slot_ids (fst (snd (consume_slot 2 sample_order_queue sample_store))) = [1, 3]
   \<and> pq_active (fst (snd (consume_slot 2 sample_order_queue sample_store))) = Some 3"
proof -
  have "takes_over 2 sample_order_queue = Some 3"
    by (simp add: takes_over_def slot_index_ids)
  then show ?thesis
    using slot_removal_spec [OF sample_order_queue_inv, of 2 sample_store] by simp
qed

end
