(* ===== verification/Execution_Sequence.thy ===== *)
theory Execution_Sequence
  imports Queue_Order
begin

text \<open>
  The playback run's execution sequence (\<^verbatim>\<open>mbv-queue/src/execution_sequence.rs\<close>), the
  projection of the owner's queue the run plays from, and the interface it shares with the
  canonical queue. The locale \<open>slot_sequence\<close> states the contract of the shared commands
  against one abstract sequence; both implementations are interpreted, so the run and the
  owner stay in step over any list of commands. A panic of the uniqueness assertion is the
  value \<open>None\<close>.
\<close>

section \<open>The execution sequence\<close>

record execution_sequence =
  es_slots :: "exec_slot list"
  es_active :: "queue_slot_id option"

definition es_empty :: execution_sequence where
  "es_empty = \<lparr>es_slots = [], es_active = None\<rparr>"

text \<open>\<open>before\<close> holds the identities of the incoming slots already visited.\<close>

fun unique_slot_ids_loop ::
  "queue_slot_id list \<Rightarrow> (queue_slot_id \<times> queue_item) list \<Rightarrow> queue_slot_id list \<Rightarrow> bool" where
  "unique_slot_ids_loop before [] existing = True"
| "unique_slot_ids_loop before ((sid, it) # incoming) existing =
     ((\<not> (\<exists>other\<in>set before. other = sid) \<and> \<not> (\<exists>other\<in>set existing. other = sid))
      \<and> unique_slot_ids_loop (before @ [sid]) incoming existing)"

definition assert_unique_slot_ids ::
  "(queue_slot_id \<times> queue_item) list \<Rightarrow> queue_slot_id list \<Rightarrow> bool" where
  "assert_unique_slot_ids incoming existing = unique_slot_ids_loop [] incoming existing"

definition es_from_slot_items ::
  "(queue_slot_id \<times> queue_item) list \<Rightarrow> queue_slot_id option \<Rightarrow> execution_sequence option" where
  "es_from_slot_items pairs act =
     (if \<not> assert_unique_slot_ids pairs [] then None
      else (let slots = map (\<lambda>(sid, it). \<lparr>xs_slot_id = sid, xs_item = it\<rparr>) pairs
            in Some \<lparr>es_slots = slots,
                 es_active = opt_filter (\<lambda>sid. \<exists>s\<in>set slots. xs_slot_id s = sid) act\<rparr>))"

definition es_len :: "execution_sequence \<Rightarrow> usize" where
  "es_len e = length (es_slots e)"

definition es_is_empty :: "execution_sequence \<Rightarrow> bool" where
  "es_is_empty e \<longleftrightarrow> es_slots e = []"

definition es_slot :: "execution_sequence \<Rightarrow> queue_slot_id \<Rightarrow> exec_slot option" where
  "es_slot e sid = List.find (\<lambda>s. xs_slot_id s = sid) (es_slots e)"

definition es_slot_index :: "execution_sequence \<Rightarrow> queue_slot_id \<Rightarrow> usize option" where
  "es_slot_index e sid = position (\<lambda>s. xs_slot_id s = sid) (es_slots e)"

definition es_active_slot :: "execution_sequence \<Rightarrow> exec_slot option" where
  "es_active_slot e = Option.bind (es_active e) (es_slot e)"

definition es_has_audiobookshelf_entries :: "execution_sequence \<Rightarrow> bool" where
  "es_has_audiobookshelf_entries e \<longleftrightarrow> (\<exists>s\<in>set (es_slots e). qi_is_audiobookshelf (xs_item s))"

definition es_append_with_id ::
  "queue_slot_id \<Rightarrow> queue_item \<Rightarrow> execution_sequence \<Rightarrow> execution_sequence option" where
  "es_append_with_id sid it e =
     (if \<not> assert_unique_slot_ids [(sid, it)] (map xs_slot_id (es_slots e)) then None
      else Some (e\<lparr>es_slots := es_slots e @ [\<lparr>xs_slot_id = sid, xs_item = it\<rparr>]\<rparr>))"

definition es_set_active_slot ::
  "queue_slot_id \<Rightarrow> execution_sequence \<Rightarrow> bool \<times> execution_sequence" where
  "es_set_active_slot sid e =
     (if es_slot_index e sid = None then (False, e) else (True, e\<lparr>es_active := Some sid\<rparr>))"

definition es_move_slot ::
  "queue_slot_id \<Rightarrow> usize \<Rightarrow> execution_sequence \<Rightarrow> bool \<times> execution_sequence" where
  "es_move_slot sid to_index e =
     (case es_slot_index e sid of
        None \<Rightarrow> (False, e)
      | Some from_index \<Rightarrow>
          (let s = es_slots e ! from_index;
               rest = remove_at from_index (es_slots e)
           in (True, e\<lparr>es_slots := insert_at (min to_index (length rest)) s rest\<rparr>)))"

definition es_remove_slot :: "queue_slot_id \<Rightarrow> execution_sequence \<Rightarrow> execution_sequence" where
  "es_remove_slot sid e =
     (if es_active e = Some sid then e
      else (case es_slot_index e sid of
              None \<Rightarrow> e
            | Some index \<Rightarrow> e\<lparr>es_slots := remove_at index (es_slots e)\<rparr>))"

definition es_remove_active_slot_confirmed ::
  "queue_slot_id \<Rightarrow> execution_sequence \<Rightarrow> execution_sequence" where
  "es_remove_active_slot_confirmed sid e =
     (case es_slot_index e sid of
        None \<Rightarrow> e
      | Some index \<Rightarrow>
          (let e1 = e\<lparr>es_slots := remove_at index (es_slots e)\<rparr>
           in (if es_active e1 = Some sid then e1\<lparr>es_active := None\<rparr> else e1)))"

definition es_clear :: "execution_sequence \<Rightarrow> execution_sequence" where
  "es_clear e = e\<lparr>es_slots := [], es_active := None\<rparr>"

section \<open>The abstract sequence and its commands\<close>

text \<open>The slots with their items, in order, and the active marker.\<close>

type_synonym seq_view = "(queue_slot_id \<times> queue_item) list \<times> queue_slot_id option"

datatype seq_cmd =
    Cmd_Append queue_slot_id queue_item
  | Cmd_Set_Active queue_slot_id
  | Cmd_Move queue_slot_id usize
  | Cmd_Remove queue_slot_id
  | Cmd_Remove_Confirmed queue_slot_id
  | Cmd_Clear

definition view_ids :: "seq_view \<Rightarrow> queue_slot_id list" where
  "view_ids v = map fst (fst v)"

definition without_id ::
  "queue_slot_id \<Rightarrow> (queue_slot_id \<times> queue_item) list \<Rightarrow> (queue_slot_id \<times> queue_item) list" where
  "without_id sid = filter (\<lambda>p. fst p \<noteq> sid)"

fun seq_spec :: "seq_cmd \<Rightarrow> seq_view \<Rightarrow> seq_view" where
  "seq_spec (Cmd_Append sid it) (ps, act) = (ps @ [(sid, it)], act)"
| "seq_spec (Cmd_Set_Active sid) (ps, act) = (ps, if sid \<in> fst ` set ps then Some sid else act)"
| "seq_spec (Cmd_Move sid to) (ps, act) =
     ((case List.find (\<lambda>p. fst p = sid) ps of
         None \<Rightarrow> ps
       | Some p \<Rightarrow> insert_at (min to (length ps - 1)) p (without_id sid ps)), act)"
| "seq_spec (Cmd_Remove sid) (ps, act) = (if act = Some sid then ps else without_id sid ps, act)"
| "seq_spec (Cmd_Remove_Confirmed sid) (ps, act) =
     (without_id sid ps, if act = Some sid then None else act)"
| "seq_spec Cmd_Clear (ps, act) = ([], None)"

text \<open>What a command needs: an appended identity is new.\<close>

fun seq_ok :: "seq_cmd \<Rightarrow> seq_view \<Rightarrow> bool" where
  "seq_ok (Cmd_Append sid it) v = (sid \<notin> set (view_ids v) \<and> sid \<noteq> - 1)"
| "seq_ok _ v = True"

fun seq_spec_run :: "seq_cmd list \<Rightarrow> seq_view \<Rightarrow> seq_view option" where
  "seq_spec_run [] v = Some v"
| "seq_spec_run (c # cs) v = (if seq_ok c v then seq_spec_run cs (seq_spec c v) else None)"

text \<open>A view whose identities are distinct and whose marker names one of them.\<close>

definition view_wf :: "seq_view \<Rightarrow> bool" where
  "view_wf v \<longleftrightarrow> distinct (view_ids v) \<and> (\<forall>sid. snd v = Some sid \<longrightarrow> sid \<in> set (view_ids v))"

text \<open>A list of commands applied one after the other; a panic ends the run.\<close>

fun cmds_run :: "(seq_cmd \<Rightarrow> 'q \<Rightarrow> 'q option) \<Rightarrow> seq_cmd list \<Rightarrow> 'q \<Rightarrow> 'q option" where
  "cmds_run f [] q = Some q"
| "cmds_run f (c # cs) q = Option.bind (f c q) (cmds_run f cs)"

section \<open>The interface\<close>

locale slot_sequence =
  fixes wf :: "'q \<Rightarrow> bool"
    and view :: "'q \<Rightarrow> seq_view"
    and append_op :: "queue_slot_id \<Rightarrow> queue_item \<Rightarrow> 'q \<Rightarrow> 'q option"
    and set_active_op :: "queue_slot_id \<Rightarrow> 'q \<Rightarrow> 'q"
    and move_op :: "queue_slot_id \<Rightarrow> usize \<Rightarrow> 'q \<Rightarrow> 'q"
    and remove_op :: "queue_slot_id \<Rightarrow> 'q \<Rightarrow> 'q"
    and confirm_op :: "queue_slot_id \<Rightarrow> 'q \<Rightarrow> 'q"
    and clear_op :: "'q \<Rightarrow> 'q"
  assumes append_law: "wf q \<Longrightarrow> sid \<notin> set (view_ids (view q)) \<Longrightarrow> sid \<noteq> - 1 \<Longrightarrow>
      \<exists>q'. append_op sid it q = Some q' \<and> wf q' \<and> view q' = seq_spec (Cmd_Append sid it) (view q)"
    and set_active_law: "wf q \<Longrightarrow> wf (set_active_op sid q)
      \<and> view (set_active_op sid q) = seq_spec (Cmd_Set_Active sid) (view q)"
    and move_law: "wf q \<Longrightarrow> wf (move_op sid to q)
      \<and> view (move_op sid to q) = seq_spec (Cmd_Move sid to) (view q)"
    and remove_law: "wf q \<Longrightarrow> wf (remove_op sid q)
      \<and> view (remove_op sid q) = seq_spec (Cmd_Remove sid) (view q)"
    and confirm_law: "wf q \<Longrightarrow> wf (confirm_op sid q)
      \<and> view (confirm_op sid q) = seq_spec (Cmd_Remove_Confirmed sid) (view q)"
    and clear_law: "wf q \<Longrightarrow> wf (clear_op q) \<and> view (clear_op q) = seq_spec Cmd_Clear (view q)"
begin

fun do_cmd :: "seq_cmd \<Rightarrow> 'q \<Rightarrow> 'q option" where
  "do_cmd (Cmd_Append sid it) q = append_op sid it q"
| "do_cmd (Cmd_Set_Active sid) q = Some (set_active_op sid q)"
| "do_cmd (Cmd_Move sid to) q = Some (move_op sid to q)"
| "do_cmd (Cmd_Remove sid) q = Some (remove_op sid q)"
| "do_cmd (Cmd_Remove_Confirmed sid) q = Some (confirm_op sid q)"
| "do_cmd Cmd_Clear q = Some (clear_op q)"

lemma do_cmd_refines:
  assumes "wf q" "seq_ok c (view q)"
  shows "\<exists>q'. do_cmd c q = Some q' \<and> wf q' \<and> view q' = seq_spec c (view q)"
  using assms append_law set_active_law move_law remove_law confirm_law clear_law
  by (cases c) auto

lemma do_cmds_refines:
  "wf q \<Longrightarrow> seq_spec_run cs (view q) = Some v \<Longrightarrow>
    \<exists>q'. cmds_run do_cmd cs q = Some q' \<and> wf q' \<and> view q' = v"
proof (induction cs arbitrary: q)
  case (Cons c cs)
  then have "seq_ok c (view q)" by (simp split: if_splits)
  from do_cmd_refines [OF Cons.prems(1) this] obtain q' where
    "do_cmd c q = Some q'" "wf q'" "view q' = seq_spec c (view q)" by blast
  with Cons show ?case by (auto split: if_splits)
qed simp

end

section \<open>Both implementations\<close>

definition es_view :: "execution_sequence \<Rightarrow> seq_view" where
  "es_view e = (map (\<lambda>s. (xs_slot_id s, xs_item s)) (es_slots e), es_active e)"

definition es_inv :: "execution_sequence \<Rightarrow> bool" where
  "es_inv e \<longleftrightarrow> view_wf (es_view e)"

fun es_cmd :: "seq_cmd \<Rightarrow> execution_sequence \<Rightarrow> execution_sequence option" where
  "es_cmd (Cmd_Append sid it) e = es_append_with_id sid it e"
| "es_cmd (Cmd_Set_Active sid) e = Some (snd (es_set_active_slot sid e))"
| "es_cmd (Cmd_Move sid to) e = Some (snd (es_move_slot sid to e))"
| "es_cmd (Cmd_Remove sid) e = Some (es_remove_slot sid e)"
| "es_cmd (Cmd_Remove_Confirmed sid) e = Some (es_remove_active_slot_confirmed sid e)"
| "es_cmd Cmd_Clear e = Some (es_clear e)"

definition pq_view :: "playback_queue \<Rightarrow> seq_view" where
  "pq_view q = (map (\<lambda>s. (qs_slot_id s, qs_item s)) (pq_slots q), pq_active q)"

fun pq_cmd :: "seq_cmd \<Rightarrow> playback_queue \<times> mint_store \<Rightarrow> (playback_queue \<times> mint_store) option" where
  "pq_cmd (Cmd_Append sid it) (q, h) = Some (append_with_id sid it q h)"
| "pq_cmd (Cmd_Set_Active sid) (q, h) = Some (snd (set_active_slot sid q h))"
| "pq_cmd (Cmd_Move sid to) (q, h) = Some (snd (move_slot sid to q h))"
| "pq_cmd (Cmd_Remove sid) (q, h) = Some (snd (remove_slot sid q h))"
| "pq_cmd (Cmd_Remove_Confirmed sid) (q, h) = Some (snd (remove_active_slot_confirmed sid q h))"
| "pq_cmd Cmd_Clear (q, h) = Some (clear_slots q h)"

subsection \<open>List facts in terms of pairs\<close>

lemma without_id_remove_at:
  assumes "distinct (map fst ps)" "position (\<lambda>p. fst p = sid) ps = Some i"
  shows "remove_at i ps = without_id sid ps"
proof -
  have i: "i < length ps" "fst (ps ! i) = sid"
    using position_lessD [OF assms(2)] position_holds [OF assms(2)] by auto
  have "remove_at i ps = filter (\<lambda>x. x \<noteq> ps ! i) ps"
    using assms(1) i by (intro remove_at_filter) (simp_all add: distinct_map)
  also have "\<dots> = without_id sid ps"
    unfolding without_id_def
  proof (rule filter_cong [OF refl])
    fix p assume "p \<in> set ps"
    with assms(1) i show "(p \<noteq> ps ! i) = (fst p \<noteq> sid)"
      by (auto simp: distinct_map dest!: inj_onD [of fst "set ps" p "ps ! i"])
  qed
  finally show ?thesis .
qed

lemma without_id_absent: "sid \<notin> fst ` set ps \<Longrightarrow> without_id sid ps = ps"
  unfolding without_id_def by (rule filter_True) auto

lemma length_without_id:
  assumes "distinct (map fst ps)" "position (\<lambda>p. fst p = sid) ps = Some i"
  shows "length (without_id sid ps) = length ps - 1"
  using without_id_remove_at [OF assms] position_lessD [OF assms(2)]
  by (metis length_remove_at)

lemma view_wf_without:
  "view_wf (ps, act) \<Longrightarrow> view_wf (without_id sid ps, if act = Some sid then None else act)"
  by (auto simp: view_wf_def view_ids_def without_id_def distinct_map_filter)

lemma view_wf_insert:
  assumes "view_wf (ps, act)" "List.find (\<lambda>p. fst p = sid) ps = Some p"
  shows "view_wf (insert_at n p (without_id sid ps), act)"
proof -
  have p: "p \<in> set ps" "fst p = sid" using find_in_set [OF assms(2)] by auto
  with assms(1) show ?thesis
    by (auto simp: view_wf_def view_ids_def without_id_def map_insert_at distinct_map_filter)
qed

lemma view_wf_step: "view_wf v \<Longrightarrow> seq_ok c v \<Longrightarrow> view_wf (seq_spec c v)"
proof (induction c v rule: seq_spec.induct)
  case (3 sid to ps act)
  then show ?case by (auto intro: view_wf_insert split: option.split)
next
  case (4 sid ps act)
  then show ?case using view_wf_without [of ps act sid] by auto
next
  case (5 sid ps act)
  then show ?case using view_wf_without [of ps act sid] by simp
qed (auto simp: view_wf_def view_ids_def)

subsection \<open>The execution sequence implements the interface\<close>

lemma es_index_view: "es_slot_index e sid = position (\<lambda>p. fst p = sid) (fst (es_view e))"
  by (simp add: es_slot_index_def es_view_def position_map)

lemma es_view_move:
  assumes "es_inv e"
  shows "es_view (snd (es_move_slot sid to e)) = seq_spec (Cmd_Move sid to) (es_view e)"
proof (cases "es_slot_index e sid")
  case None
  then have "List.find (\<lambda>p. fst p = sid) (fst (es_view e)) = None"
    by (simp add: es_index_view find_position del: position_None)
  with None show ?thesis by (simp add: es_move_slot_def es_view_def)
next
  case (Some i)
  let ?ps = "fst (es_view e)"
  have pos: "position (\<lambda>p. fst p = sid) ?ps = Some i" using Some by (simp add: es_index_view)
  have dist: "distinct (map fst ?ps)" using assms by (simp add: es_inv_def view_wf_def view_ids_def)
  have lt: "i < length (es_slots e)" using position_lessD [OF pos] by (simp add: es_view_def)
  have rest: "map (\<lambda>s. (xs_slot_id s, xs_item s)) (remove_at i (es_slots e)) = without_id sid ?ps"
    using without_id_remove_at [OF dist pos] by (simp add: map_remove_at es_view_def)
  have "List.find (\<lambda>p. fst p = sid) ?ps = Some (?ps ! i)" by (simp add: find_position pos)
  with Some rest lt show ?thesis
    by (simp add: es_move_slot_def es_view_def Let_def map_insert_at)
qed

lemma es_view_remove_at:
  assumes "es_inv e" "es_slot_index e sid = Some i"
  shows "map (\<lambda>s. (xs_slot_id s, xs_item s)) (remove_at i (es_slots e))
    = without_id sid (fst (es_view e))"
  using without_id_remove_at [of "fst (es_view e)" sid i] assms
  by (simp add: es_inv_def view_wf_def view_ids_def es_index_view)
    (simp add: map_remove_at es_view_def)

lemma es_absent_view:
  "es_slot_index e sid = None \<Longrightarrow> without_id sid (fst (es_view e)) = fst (es_view e)"
  by (auto simp: es_index_view intro: without_id_absent)

lemma es_view_remove:
  "es_inv e \<Longrightarrow> es_view (es_remove_slot sid e) = seq_spec (Cmd_Remove sid) (es_view e)"
  using es_view_remove_at [of e sid] es_absent_view [of e sid]
  by (auto simp: es_remove_slot_def es_view_def split: option.split)

lemma es_view_confirm:
  "es_inv e \<Longrightarrow>
    es_view (es_remove_active_slot_confirmed sid e) = seq_spec (Cmd_Remove_Confirmed sid) (es_view e)"
proof (cases "es_slot_index e sid")
  case None
  moreover assume "es_inv e"
  moreover from None have "sid \<notin> set (view_ids (es_view e))"
    by (auto simp: es_index_view view_ids_def)
  ultimately show ?thesis
    using es_absent_view [OF None]
    by (auto simp: es_remove_active_slot_confirmed_def es_view_def es_inv_def view_wf_def)
next
  case (Some i)
  assume "es_inv e"
  from es_view_remove_at [OF this Some] Some show ?thesis
    by (simp add: es_remove_active_slot_confirmed_def es_view_def Let_def)
qed

lemma es_view_set_active:
  "es_view (snd (es_set_active_slot sid e)) = seq_spec (Cmd_Set_Active sid) (es_view e)"
  by (auto simp: es_set_active_slot_def es_slot_index_def es_view_def image_comp comp_def)

interpretation es_seq: slot_sequence es_inv es_view es_append_with_id
  "\<lambda>sid e. snd (es_set_active_slot sid e)" "\<lambda>sid to e. snd (es_move_slot sid to e)"
  es_remove_slot es_remove_active_slot_confirmed es_clear
proof
  fix e sid it
  assume "es_inv e" "sid \<notin> set (view_ids (es_view e))"
  then show "\<exists>q'. es_append_with_id sid it e = Some q' \<and> es_inv q'
      \<and> es_view q' = seq_spec (Cmd_Append sid it) (es_view e)"
    by (auto simp: es_append_with_id_def assert_unique_slot_ids_def es_view_def view_ids_def
        es_inv_def view_wf_def)
next
  fix e sid assume inv: "es_inv e"
  show "es_inv (snd (es_set_active_slot sid e))
      \<and> es_view (snd (es_set_active_slot sid e)) = seq_spec (Cmd_Set_Active sid) (es_view e)"
    using inv view_wf_step [of "es_view e" "Cmd_Set_Active sid"]
    by (simp add: es_inv_def es_view_set_active)
  show "es_inv (es_remove_slot sid e)
      \<and> es_view (es_remove_slot sid e) = seq_spec (Cmd_Remove sid) (es_view e)"
    using inv view_wf_step [of "es_view e" "Cmd_Remove sid"] es_view_remove [OF inv]
    by (simp add: es_inv_def)
  show "es_inv (es_remove_active_slot_confirmed sid e)
      \<and> es_view (es_remove_active_slot_confirmed sid e) = seq_spec (Cmd_Remove_Confirmed sid) (es_view e)"
    using inv view_wf_step [of "es_view e" "Cmd_Remove_Confirmed sid"] es_view_confirm [OF inv]
    by (simp add: es_inv_def)
next
  fix e sid to assume inv: "es_inv e"
  show "es_inv (snd (es_move_slot sid to e))
      \<and> es_view (snd (es_move_slot sid to e)) = seq_spec (Cmd_Move sid to) (es_view e)"
    using inv view_wf_step [of "es_view e" "Cmd_Move sid to"] es_view_move [OF inv]
    by (simp add: es_inv_def)
next
  fix e assume "es_inv e"
  show "es_inv (es_clear e) \<and> es_view (es_clear e) = seq_spec Cmd_Clear (es_view e)"
    by (simp add: es_clear_def es_view_def es_inv_def view_wf_def view_ids_def)
qed

subsection \<open>The canonical queue implements it too\<close>

lemma pq_view_ids [simp]: "view_ids (pq_view q) = slot_ids q"
  by (simp add: view_ids_def pq_view_def slot_ids_def comp_def)

lemma pq_view_active [simp]: "snd (pq_view q) = pq_active q"
  by (simp add: pq_view_def)

lemma pq_index_view: "slot_index q sid = position (\<lambda>p. fst p = sid) (fst (pq_view q))"
  by (simp add: slot_index_def pq_view_def position_map)

lemma pq_view_remove_at:
  assumes "pq_inv q" "slot_index q sid = Some i"
  shows "map (\<lambda>s. (qs_slot_id s, qs_item s)) (remove_at i (pq_slots q))
    = without_id sid (fst (pq_view q))"
  using without_id_remove_at [of "fst (pq_view q)" sid i] assms pq_invD(1) [OF assms(1)]
  by (simp add: pq_index_view pq_view_ids [unfolded view_ids_def])
    (simp add: map_remove_at pq_view_def)

lemma pq_absent_view:
  "slot_index q sid = None \<Longrightarrow> without_id sid (fst (pq_view q)) = fst (pq_view q)"
  using pq_view_ids [of q] by (intro without_id_absent) (simp flip: set_map add: view_ids_def)

lemma pq_view_move:
  assumes "pq_inv q"
  shows "pq_view (fst (snd (move_slot sid to q h))) = seq_spec (Cmd_Move sid to) (pq_view q)"
proof (cases "slot_index q sid")
  case None
  then have "List.find (\<lambda>p. fst p = sid) (fst (pq_view q)) = None"
    by (simp add: pq_index_view find_position del: position_None)
  with None show ?thesis by (simp add: move_slot_def pq_view_def del: slot_index_None)
next
  case (Some i)
  let ?ps = "fst (pq_view q)"
  have pos: "position (\<lambda>p. fst p = sid) ?ps = Some i" using Some by (simp add: pq_index_view)
  have lt: "i < length (pq_slots q)" using slot_index_Some [OF Some] by simp
  have "List.find (\<lambda>p. fst p = sid) ?ps = Some (?ps ! i)" by (simp add: find_position pos)
  with Some pq_view_remove_at [OF assms Some] lt show ?thesis
    by (simp add: move_slot_def pq_view_def Let_def map_insert_at bump_eq)
qed

lemma pq_view_remove:
  assumes "pq_inv q"
  shows "pq_view (fst (snd (remove_slot sid q h))) = seq_spec (Cmd_Remove sid) (pq_view q)"
  using pq_view_remove_at [OF assms, of sid] pq_absent_view [of q sid]
  by (auto simp: remove_slot_def remove_existing_slot_def pq_view_def Let_def bump_eq split_beta
      simp del: slot_index_None split: option.split)

lemma pq_view_confirm:
  assumes "pq_inv q"
  shows "pq_view (fst (snd (remove_active_slot_confirmed sid q h)))
    = seq_spec (Cmd_Remove_Confirmed sid) (pq_view q)"
proof (cases "slot_index q sid")
  case None
  then have "pq_active q \<noteq> Some sid" using pq_invD(3) [OF assms] by auto
  with None pq_absent_view [OF None] show ?thesis
    by (simp add: remove_active_slot_confirmed_def pq_view_def del: slot_index_None)
next
  case (Some i)
  with pq_view_remove_at [OF assms Some] show ?thesis
    by (simp add: remove_active_slot_confirmed_def pq_view_def Let_def bump_eq)
qed

lemma pq_view_set_active:
  "pq_view (fst (snd (set_active_slot sid q h))) = seq_spec (Cmd_Set_Active sid) (pq_view q)"
  by (auto simp: set_active_slot_def pq_view_def bump_eq slot_ids_def image_comp comp_def Let_def)

lemma pq_view_clear:
  assumes "pq_inv q" shows "pq_view (fst (clear_slots q h)) = seq_spec Cmd_Clear (pq_view q)"
  using pq_invD(3) [OF assms]
  by (cases "pq_active q") (auto simp: clear_slots_def pq_view_def bump_eq slot_ids_def)

interpretation pq_seq: slot_sequence "\<lambda>s. pq_inv (fst s)" "\<lambda>s. pq_view (fst s)"
  "\<lambda>sid it s. Some (append_with_id sid it (fst s) (snd s))"
  "\<lambda>sid s. snd (set_active_slot sid (fst s) (snd s))"
  "\<lambda>sid to s. snd (move_slot sid to (fst s) (snd s))"
  "\<lambda>sid s. snd (remove_slot sid (fst s) (snd s))"
  "\<lambda>sid s. snd (remove_active_slot_confirmed sid (fst s) (snd s))"
  "\<lambda>s. clear_slots (fst s) (snd s)"
  by unfold_locales
    (auto simp: pq_view_set_active pq_view_move pq_view_remove pq_view_confirm pq_view_clear
      append_with_id_inv set_active_slot_inv move_slot_inv remove_slot_inv
      remove_active_slot_confirmed_inv clear_slots_inv simp del: seq_spec.simps,
     simp add: append_with_id_def bump_eq pq_view_def)

lemma pq_cmd_do: "pq_cmd c s = pq_seq.do_cmd c s"
  by (cases s; cases c) simp_all

lemma es_cmd_do: "es_cmd c e = es_seq.do_cmd c e"
  by (cases c) simp_all

text \<open>
  C4. The run's sequence refines the owner's queue. Start both from the same slots, items
  and active marker and send both the same list of commands, each appended identity being
  new: neither side panics, and afterwards they show the same slots in the same order with
  the same items and the same active marker.
\<close>

theorem execution_sequence_refines_queue:
  assumes "pq_inv q" "es_view e = pq_view q" "seq_spec_run cs (pq_view q) = Some v"
  shows "\<exists>e' s'. cmds_run es_cmd cs e = Some e' \<and> cmds_run pq_cmd cs (q, h) = Some s'
    \<and> es_view e' = pq_view (fst s') \<and> pq_view (fst s') = v"
proof -
  have "es_inv e"
    using assms(1,2) by (simp add: es_inv_def view_wf_def pq_inv_def)
  then obtain e' where "cmds_run es_cmd cs e = Some e'" "es_view e' = v"
    using es_seq.do_cmds_refines [of e cs v] assms(2,3) by (auto simp: es_cmd_do [abs_def])
  moreover obtain s' where "cmds_run pq_cmd cs (q, h) = Some s'" "pq_view (fst s') = v"
    using pq_seq.do_cmds_refines [of "(q, h)" cs v] assms(1,3) by (auto simp: pq_cmd_do [abs_def])
  ultimately show ?thesis by auto
qed

definition sample_sequence :: execution_sequence where
  "sample_sequence = \<lparr>es_slots = slot_pairs sample_order_queue, es_active = Some 2\<rparr>"

lemma execution_sequence_refines_queue_witness:
  "\<exists>e' s'. cmds_run es_cmd [Cmd_Move 3 0, Cmd_Remove_Confirmed 2] sample_sequence = Some e'
     \<and> cmds_run pq_cmd [Cmd_Move 3 0, Cmd_Remove_Confirmed 2] (sample_order_queue, sample_store) = Some s'
     \<and> es_view e' = pq_view (fst s') \<and> view_ids (pq_view (fst s')) = [3, 1]"
proof -
  let ?it = "QI_Twitch \<lparr>twitch_url = [], twitch_title = []\<rparr>"
  have view: "pq_view sample_order_queue = ([(1, ?it), (2, ?it), (3, ?it)], Some 2)"
    by (simp add: pq_view_def sample_order_queue_def)
  have "es_view sample_sequence = pq_view sample_order_queue"
    by (simp add: es_view_def sample_sequence_def slot_pairs_def pq_view_def comp_def)
  moreover have "seq_spec_run [Cmd_Move 3 0, Cmd_Remove_Confirmed 2] (pq_view sample_order_queue)
      = Some ([(3, ?it), (1, ?it)], None)"
    by (simp add: view without_id_def)
  ultimately show ?thesis
    using execution_sequence_refines_queue [OF sample_order_queue_inv, of sample_sequence
        "[Cmd_Move 3 0, Cmd_Remove_Confirmed 2]" _ sample_store] by (auto simp: view_ids_def)
qed

text \<open>Building the run's sequence from the owner's snapshot never trips the assertion.\<close>

lemma unique_slot_ids_loop_iff:
  "unique_slot_ids_loop before pairs existing \<longleftrightarrow> distinct (map fst pairs)
     \<and> set (map fst pairs) \<inter> (set before \<union> set existing) = {}"
  by (induction before pairs existing rule: unique_slot_ids_loop.induct) auto

lemma es_from_queue:
  assumes "pq_inv q"
  shows "\<exists>e. es_from_slot_items (fst (pq_view q)) (pq_active q) = Some e \<and> es_view e = pq_view q"
proof -
  have "distinct (map fst (fst (pq_view q)))"
    using pq_invD(1) [OF assms] pq_view_ids [of q] by (simp add: view_ids_def)
  moreover have "\<exists>s\<in>set (pq_slots q). qs_slot_id s = sid" if "pq_active q = Some sid" for sid
    using pq_invD(3) [OF assms that] by (auto simp: slot_ids_def)
  ultimately show ?thesis
    by (cases "pq_active q")
      (auto simp: es_from_slot_items_def assert_unique_slot_ids_def unique_slot_ids_loop_iff
        Let_def es_view_def pq_view_def)
qed

end
