(* ===== verification/Queue_State.thy ===== *)
theory Queue_State
  imports Queue_Items
begin

text \<open>
  The persisted queue snapshot (\<^verbatim>\<open>mbv-queue/src/state.rs\<close>): the queue source, the items with
  the cursor, the last-played anchors and the saved resume positions, with the projections
  used when a service is removed and when a snapshot crosses the persistence boundary. The
  map of positions is a partial map.
\<close>

section \<open>The snapshot\<close>

datatype queue_source =
    Src_Playlist "string option" string
  | Src_Album
  | Src_Series
  | Src_Shuffle
  | Src_Remote
  | Src_Collection string
  | Src_Unknown

record queue_state =
  st_source :: queue_source
  st_items :: "queue_item list"
  st_cursor :: usize
  st_last_played_content_id :: "queue_item_content_id option"
  st_last_played_item_id :: "string option"
  st_last_played_completed :: bool
  st_positions :: "string \<rightharpoonup> i64"

definition emby_items :: "queue_state \<Rightarrow> emby_item list" where
  "emby_items st = List.map_filter (\<lambda>qi. case qi of
       QI_Emby e \<Rightarrow> Some e
     | QI_Feed _ \<Rightarrow> None | QI_Audiobookshelf _ \<Rightarrow> None | QI_Twitch _ \<Rightarrow> None) (st_items st)"

definition into_queue_items :: "queue_state \<Rightarrow> queue_item list" where
  "into_queue_items st = st_items st"

definition from_emby_items :: "emby_item list \<Rightarrow> usize \<Rightarrow> queue_source \<Rightarrow> queue_state" where
  "from_emby_items items cur src =
     \<lparr>st_source = src, st_items = map QI_Emby items, st_cursor = cur,
      st_last_played_content_id = None, st_last_played_item_id = None,
      st_last_played_completed = False, st_positions = Map.empty\<rparr>"

text \<open>\<^verbatim>\<open>positions.iter().filter(..).collect()\<close>: the entries whose key is an item's id.\<close>

definition keep_positions :: "queue_item list \<Rightarrow> (string \<rightharpoonup> i64) \<Rightarrow> (string \<rightharpoonup> i64)" where
  "keep_positions items ps = (\<lambda>k. if \<exists>it\<in>set items. qi_id it = k then ps k else None)"

definition without_items :: "(queue_item \<Rightarrow> bool) \<Rightarrow> queue_state \<Rightarrow> queue_state" where
  "without_items keep st =
     (let items = filter keep (st_items st);
          positions = keep_positions items (st_positions st)
      in \<lparr>st_source = (if items = [] then Src_Unknown else st_source st),
          st_items = items,
          st_cursor = min (st_cursor st) (length items - 1),
          st_last_played_content_id =
            opt_filter (\<lambda>k. \<exists>it\<in>set items. qi_content_id it = k) (st_last_played_content_id st),
          st_last_played_item_id =
            opt_filter (\<lambda>k. \<exists>it\<in>set items. qi_id it = k) (st_last_played_item_id st),
          st_last_played_completed = (st_last_played_completed st \<and> items \<noteq> []),
          st_positions = positions\<rparr>)"

definition without_emby :: "queue_state \<Rightarrow> queue_state" where
  "without_emby st = without_items (\<lambda>it. \<not> (case it of QI_Emby _ \<Rightarrow> True | _ \<Rightarrow> False)) st"

definition without_audiobookshelf :: "queue_state \<Rightarrow> queue_state" where
  "without_audiobookshelf st = without_items (\<lambda>it. \<not> qi_is_audiobookshelf it) st"

fun clear_service_position :: "queue_item \<Rightarrow> queue_item" where
  "clear_service_position (QI_Emby e) = QI_Emby (e\<lparr>emby_playback_position_ticks := 0\<rparr>)"
| "clear_service_position (QI_Audiobookshelf (ABS_Episode e)) =
     QI_Audiobookshelf (ABS_Episode (e\<lparr>ep_position_ticks := 0\<rparr>))"
| "clear_service_position (QI_Audiobookshelf (ABS_Book b)) =
     QI_Audiobookshelf (ABS_Book (b\<lparr>book_position_ticks := 0\<rparr>))"
| "clear_service_position (QI_Feed e) = QI_Feed e"
| "clear_service_position (QI_Twitch t) = QI_Twitch t"

definition without_service_positions :: "queue_state \<Rightarrow> queue_state" where
  "without_service_positions st = st\<lparr>st_items := map clear_service_position (st_items st)\<rparr>"

section \<open>Removing a service's items\<close>

lemma keep_positions_twice [simp]:
  "keep_positions is (keep_positions js ps)
     = keep_positions (filter (\<lambda>i. \<exists>j\<in>set js. qi_id j = qi_id i) is) ps"
  by (auto simp: keep_positions_def fun_eq_iff) metis+

lemma opt_filter_twice [simp]:
  "opt_filter p (opt_filter q v) = opt_filter (\<lambda>x. p x \<and> q x) v"
  by (cases v) auto

lemma keep_positions_cong:
  "qi_id ` set is = qi_id ` set js \<Longrightarrow> keep_positions is ps = keep_positions js ps"
  by (auto simp: keep_positions_def fun_eq_iff) (metis image_iff)+

lemma keep_positions_le: "keep_positions is ps \<subseteq>\<^sub>m ps"
  unfolding map_le_def
proof
  fix k assume "k \<in> dom (keep_positions is ps)"
  then show "keep_positions is ps k = ps k" by (auto simp: keep_positions_def split: if_splits)
qed

text \<open>Two removals are one removal of what either would drop.\<close>

lemma opt_filter_cong2: "(\<And>x. p x = q x) \<Longrightarrow> opt_filter p v = opt_filter q v"
  by (cases v) auto

lemma without_items_compose:
  "without_items p (without_items q st) = without_items (\<lambda>it. q it \<and> p it) st"
proof -
  have pos: "keep_positions (filter p (filter q is)) (keep_positions (filter q is) ps)
      = keep_positions (filter (\<lambda>it. q it \<and> p it) is) ps" for "is" ps
    by (simp add: conj_commute) (rule keep_positions_cong, auto)
  have ids: "opt_filter (\<lambda>k. (\<exists>it. q it \<and> it \<in> set is \<and> p it \<and> f it = k)
        \<and> (\<exists>it. it \<in> set is \<and> q it \<and> f it = k)) v
      = opt_filter (\<lambda>k. \<exists>it. it \<in> set is \<and> q it \<and> p it \<and> f it = k) v"
    for f :: "queue_item \<Rightarrow> 'b" and "is" v
    by (rule opt_filter_cong2) auto
  have len: "min (min c (length (filter q is) - Suc 0)) (length (filter (\<lambda>it. q it \<and> p it) is) - Suc 0)
      = min c (length (filter (\<lambda>it. q it \<and> p it) is) - Suc 0)" for c "is"
  proof -
    have "length (filter (\<lambda>it. q it \<and> p it) is) \<le> length (filter q is)"
      by (metis filter_filter length_filter_le)
    then show ?thesis by simp
  qed
  show ?thesis
    using pos [of "st_items st" "st_positions st"]
    by (simp add: without_items_def Let_def len)
      (auto simp: filter_empty_conv conj_ac intro!: opt_filter_cong2)
qed

text \<open>
  Removing the items of both services in either order gives the same snapshot, and
  removing them again changes nothing. What is left holds exactly the other items in their
  order; the cursor points into it; and every anchor and every saved position that is left
  belongs to an item that is left and is what it was.
\<close>

theorem service_removal:
  "without_audiobookshelf (without_emby st) = without_emby (without_audiobookshelf st)
   \<and> without_emby (without_emby st) = without_emby st
   \<and> without_audiobookshelf (without_audiobookshelf st) = without_audiobookshelf st
   \<and> st_items (without_emby st) = filter (\<lambda>it. \<not> qi_is_emby it) (st_items st)
   \<and> st_cursor (without_emby st) \<le> length (st_items (without_emby st)) - 1
   \<and> st_positions (without_emby st) \<subseteq>\<^sub>m st_positions st
   \<and> dom (st_positions (without_emby st)) \<subseteq> qi_id ` set (st_items (without_emby st))
   \<and> set_option (st_last_played_content_id (without_emby st))
       \<subseteq> qi_content_id ` set (st_items (without_emby st))
   \<and> set_option (st_last_played_item_id (without_emby st))
       \<subseteq> qi_id ` set (st_items (without_emby st))"
proof -
  have emby: "(\<lambda>it. \<not> (case it of QI_Emby _ \<Rightarrow> True | _ \<Rightarrow> False)) = (\<lambda>it. \<not> qi_is_emby it)"
    by (rule ext) (auto split: queue_item.split)
  have "without_audiobookshelf (without_emby st) = without_emby (without_audiobookshelf st)"
    by (simp add: without_emby_def without_audiobookshelf_def without_items_compose emby conj_commute)
  moreover have "without_emby (without_emby st) = without_emby st"
    "without_audiobookshelf (without_audiobookshelf st) = without_audiobookshelf st"
    by (simp_all add: without_emby_def without_audiobookshelf_def without_items_compose)
  moreover have "st_positions (without_emby st) \<subseteq>\<^sub>m st_positions st"
    by (simp add: without_emby_def without_items_def keep_positions_le Let_def)
  moreover have "dom (st_positions (without_emby st)) \<subseteq> qi_id ` set (st_items (without_emby st))"
    by (auto simp: without_emby_def without_items_def keep_positions_def Let_def split: if_splits)
  ultimately show ?thesis
    by (auto simp: without_emby_def without_items_def emby Let_def)
qed

section \<open>Crossing the persistence boundary\<close>

definition service_owned :: "queue_item \<Rightarrow> bool" where
  "service_owned it \<longleftrightarrow> qi_is_emby it \<or> qi_is_audiobookshelf it"

text \<open>
  No service position crosses the persistence boundary: every item of an Emby or
  Audiobookshelf service reads as position zero afterwards, feed and Twitch items are
  untouched, no item changes identity, kind or played flag, the rest of the snapshot is kept,
  and a second pass changes nothing.
\<close>

theorem service_positions_cleared:
  "length (st_items (without_service_positions st)) = length (st_items st)
   \<and> list_all2 (\<lambda>it it'. qi_content_id it' = qi_content_id it \<and> qi_kind it' = qi_kind it
          \<and> qi_played it' = qi_played it
          \<and> (if service_owned it then qi_playback_position_ticks it' = 0 else it' = it))
        (st_items st) (st_items (without_service_positions st))
   \<and> without_service_positions st
       = st\<lparr>st_items := st_items (without_service_positions st)\<rparr>
   \<and> without_service_positions (without_service_positions st) = without_service_positions st"
proof -
  have item: "qi_content_id (clear_service_position it) = qi_content_id it
      \<and> qi_kind (clear_service_position it) = qi_kind it
      \<and> qi_played (clear_service_position it) = qi_played it
      \<and> (if service_owned it then qi_playback_position_ticks (clear_service_position it) = 0
         else clear_service_position it = it)" for it
    by (induction it rule: clear_service_position.induct)
      (auto simp: service_owned_def abs_episode_content_id_def abs_book_content_id_def)
  have "clear_service_position (clear_service_position it) = clear_service_position it" for it
    by (induction it rule: clear_service_position.induct) auto
  with item show ?thesis
    by (auto simp: without_service_positions_def list_all2_conv_all_nth)
qed

end
