(* ===== verification/Transition.thy ===== *)
theory Transition
  imports Playback_Queue "HOL-Library.Sublist"
begin

text \<open>
  The owner's desired-transition state (\<^verbatim>\<open>mbv-player/src/transition.rs\<close>): at most one
  transition in flight to the playback run, at most one newer one queued behind it, and the
  deadline that bounds how long the first may stay unconfirmed. An \<^verbatim>\<open>Instant\<close> is the number
  of nanoseconds since a fixed point of the monotonic clock.
\<close>

section \<open>State and operations\<close>

type_synonym instant = nat
type_synonym request_id = u64
type_synonym generation = u64

definition IN_FLIGHT_TRANSITION_TIMEOUT :: nat where
  "IN_FLIGHT_TRANSITION_TIMEOUT = 5 * 10 ^ 9"

datatype direction = Next | Previous

datatype transition_cause = Cause_Jump | Cause_Step direction

record transition =
  tr_request_id :: request_id
  tr_generation :: generation
  tr_target :: queue_slot_id
  tr_cause :: transition_cause

definition transition_with_cause ::
  "request_id \<Rightarrow> generation \<Rightarrow> queue_slot_id \<Rightarrow> transition_cause \<Rightarrow> transition" where
  "transition_with_cause r g t c =
     \<lparr>tr_request_id = r, tr_generation = g, tr_target = t, tr_cause = c\<rparr>"

definition transition_new :: "request_id \<Rightarrow> generation \<Rightarrow> queue_slot_id \<Rightarrow> transition" where
  "transition_new r g t = transition_with_cause r g t Cause_Jump"

text \<open>The fields of \<^verbatim>\<open>PlayerCommand::JumpTo\<close>.\<close>

record jump_to =
  jt_slot_id :: queue_slot_id
  jt_request_id :: request_id
  jt_generation :: generation
  jt_resume_ticks :: "i64 option"

definition into_jump :: "transition \<Rightarrow> i64 option \<Rightarrow> jump_to" where
  "into_jump t resume_ticks =
     \<lparr>jt_slot_id = tr_target t, jt_request_id = tr_request_id t,
      jt_generation = tr_generation t, jt_resume_ticks = resume_ticks\<rparr>"

datatype dispatch_decision =
    DispatchNow transition
  | Queued (superseded: "transition option")

datatype settle_outcome =
    Settled (settled_next: "transition option")
  | Ignored

datatype expire_outcome =
    Pending
  | Expired transition (expired_next: "transition option")

record owner_transitions =
  in_flight :: "transition option"
  queued_latest :: "transition option"
  in_flight_deadline :: "instant option"
  next_local_id :: u64

definition default_transitions :: owner_transitions where
  "default_transitions =
     \<lparr>in_flight = None, queued_latest = None, in_flight_deadline = None, next_local_id = 0\<rparr>"

definition set_in_flight :: "transition option \<Rightarrow> owner_transitions \<Rightarrow> owner_transitions" where
  "set_in_flight t s = s\<lparr>in_flight := t, in_flight_deadline := None\<rparr>"

definition accept :: "transition \<Rightarrow> owner_transitions \<Rightarrow> dispatch_decision \<times> owner_transitions" where
  "accept t s =
     (if in_flight s = None
      then (DispatchNow t, s\<lparr>in_flight := Some t, in_flight_deadline := None\<rparr>)
      else (Queued (queued_latest s), s\<lparr>queued_latest := Some t\<rparr>))"

definition mint_local_id :: "owner_transitions \<Rightarrow> (request_id \<times> generation) \<times> owner_transitions" where
  "mint_local_id s =
     (let n = next_local_id s + 1 in ((n, n), s\<lparr>next_local_id := n\<rparr>))"

definition promote :: "owner_transitions \<Rightarrow> owner_transitions" where
  "promote s =
     s\<lparr>in_flight := queued_latest s, queued_latest := None, in_flight_deadline := None\<rparr>"

definition settle ::
  "request_id \<Rightarrow> queue_slot_id \<Rightarrow> owner_transitions \<Rightarrow> settle_outcome \<times> owner_transitions" where
  "settle observed_request observed_slot s =
     (case in_flight s of
        Some t \<Rightarrow>
          (if tr_request_id t = observed_request \<and> tr_target t = observed_slot
           then (Settled (in_flight (promote s)), promote s)
           else (Ignored, s))
      | None \<Rightarrow> (Ignored, s))"

definition clear_unconfirmable :: "owner_transitions \<Rightarrow> owner_transitions" where
  "clear_unconfirmable s = s\<lparr>queued_latest := None\<rparr>"

definition reset_transitions :: "owner_transitions \<Rightarrow> owner_transitions" where
  "reset_transitions s = s\<lparr>in_flight := None, queued_latest := None, in_flight_deadline := None\<rparr>"

definition expire :: "instant \<Rightarrow> owner_transitions \<Rightarrow> expire_outcome \<times> owner_transitions" where
  "expire now s =
     (case in_flight s of
        None \<Rightarrow> (Pending, s)
      | Some expired \<Rightarrow>
          (case in_flight_deadline s of
             None \<Rightarrow> (Pending, s\<lparr>in_flight_deadline := Some (now + IN_FLIGHT_TRANSITION_TIMEOUT)\<rparr>)
           | Some deadline \<Rightarrow>
               (if now \<ge> deadline
                then (Expired expired (in_flight (promote s)), promote s)
                else (Pending, s))))"

definition expire_now ::
  "owner_transitions \<Rightarrow> (transition \<times> transition option) option \<times> owner_transitions" where
  "expire_now s =
     (case in_flight s of
        None \<Rightarrow> (None, s)
      | Some expired \<Rightarrow> (Some (expired, queued_latest s), promote s))"

definition replace_queued_latest ::
  "transition \<Rightarrow> owner_transitions \<Rightarrow> transition option \<times> owner_transitions" where
  "replace_queued_latest t s = (queued_latest s, s\<lparr>queued_latest := Some t\<rparr>)"

record transition_summary =
  sum_request_id :: request_id
  sum_generation :: generation
  sum_target_slot :: u64

definition transition_summary_of :: "transition \<Rightarrow> transition_summary" where
  "transition_summary_of t =
     \<lparr>sum_request_id = tr_request_id t, sum_generation = tr_generation t,
      sum_target_slot = tr_target t\<rparr>"

definition summaries ::
  "owner_transitions \<Rightarrow> transition_summary option \<times> transition_summary option" where
  "summaries s = (map_option transition_summary_of (in_flight s),
                  map_option transition_summary_of (queued_latest s))"

section \<open>Runs and their accounts\<close>

datatype tr_event =
    Ev_Accept transition
  | Ev_Settle request_id queue_slot_id
  | Ev_Expire instant
  | Ev_Expire_Now
  | Ev_Clear_Unconfirmable
  | Ev_Reset
  | Ev_Mint

fun tr_apply :: "tr_event \<Rightarrow> owner_transitions \<Rightarrow> owner_transitions" where
  "tr_apply (Ev_Accept t) s = snd (accept t s)"
| "tr_apply (Ev_Settle r k) s = snd (settle r k s)"
| "tr_apply (Ev_Expire now) s = snd (expire now s)"
| "tr_apply Ev_Expire_Now s = snd (expire_now s)"
| "tr_apply Ev_Clear_Unconfirmable s = clear_unconfirmable s"
| "tr_apply Ev_Reset s = reset_transitions s"
| "tr_apply Ev_Mint s = snd (mint_local_id s)"

text \<open>What the caller sends to the playback run because of an event.\<close>

fun dispatched_by :: "tr_event \<Rightarrow> owner_transitions \<Rightarrow> transition option" where
  "dispatched_by (Ev_Accept t) s =
     (case fst (accept t s) of DispatchNow t' \<Rightarrow> Some t' | Queued _ \<Rightarrow> None)"
| "dispatched_by (Ev_Settle r k) s =
     (case fst (settle r k s) of Settled n \<Rightarrow> n | Ignored \<Rightarrow> None)"
| "dispatched_by (Ev_Expire now) s =
     (case fst (expire now s) of Expired _ n \<Rightarrow> n | Pending \<Rightarrow> None)"
| "dispatched_by Ev_Expire_Now s = (case fst (expire_now s) of Some (_, n) \<Rightarrow> n | None \<Rightarrow> None)"
| "dispatched_by _ s = None"

text \<open>What leaves the queued place without being sent: superseded, cleared or reset.\<close>

fun unsent_by :: "tr_event \<Rightarrow> owner_transitions \<Rightarrow> transition option" where
  "unsent_by (Ev_Accept t) s = (case fst (accept t s) of Queued d \<Rightarrow> d | DispatchNow _ \<Rightarrow> None)"
| "unsent_by Ev_Clear_Unconfirmable s = queued_latest s"
| "unsent_by Ev_Reset s = queued_latest s"
| "unsent_by _ s = None"

text \<open>What leaves the in-flight place: settled, expired, abandoned or reset.\<close>

fun closed_by :: "tr_event \<Rightarrow> owner_transitions \<Rightarrow> transition option" where
  "closed_by (Ev_Settle r k) s =
     (case fst (settle r k s) of Settled _ \<Rightarrow> in_flight s | Ignored \<Rightarrow> None)"
| "closed_by (Ev_Expire now) s =
     (case fst (expire now s) of Expired t _ \<Rightarrow> Some t | Pending \<Rightarrow> None)"
| "closed_by Ev_Expire_Now s = map_option fst (fst (expire_now s))"
| "closed_by Ev_Reset s = in_flight s"
| "closed_by _ s = None"

fun accepted_by :: "tr_event \<Rightarrow> transition option" where
  "accepted_by (Ev_Accept t) = Some t"
| "accepted_by _ = None"

abbreviation as_list :: "'a option \<Rightarrow> 'a list" where
  "as_list v \<equiv> (case v of None \<Rightarrow> [] | Some x \<Rightarrow> [x])"

text \<open>The state of a run with the four lists of what happened so far.\<close>

record tr_account =
  acc_state :: owner_transitions
  acc_accepted :: "transition list"
  acc_dispatched :: "transition list"
  acc_unsent :: "transition list"
  acc_closed :: "transition list"

definition tr_start :: tr_account where
  "tr_start = \<lparr>acc_state = default_transitions, acc_accepted = [], acc_dispatched = [],
     acc_unsent = [], acc_closed = []\<rparr>"

definition tr_account_step :: "tr_event \<Rightarrow> tr_account \<Rightarrow> tr_account" where
  "tr_account_step ev a =
     \<lparr>acc_state = tr_apply ev (acc_state a),
      acc_accepted = acc_accepted a @ as_list (accepted_by ev),
      acc_dispatched = acc_dispatched a @ as_list (dispatched_by ev (acc_state a)),
      acc_unsent = acc_unsent a @ as_list (unsent_by ev (acc_state a)),
      acc_closed = acc_closed a @ as_list (closed_by ev (acc_state a))\<rparr>"

definition tr_run :: "tr_event list \<Rightarrow> tr_account" where
  "tr_run evs = fold tr_account_step evs tr_start"

lemmas tr_ops = accept_def settle_def expire_def expire_now_def promote_def
  clear_unconfirmable_def reset_transitions_def mint_local_id_def

text \<open>
  The accounts balance: a queued transition stands behind one in flight; accepted is
  dispatched, unsent or queued; dispatched is closed or in flight; and what was dispatched,
  with what is queued at the end, is in the order of acceptance.
\<close>

definition balanced :: "tr_account \<Rightarrow> bool" where
  "balanced a \<longleftrightarrow>
     (queued_latest (acc_state a) \<noteq> None \<longrightarrow> in_flight (acc_state a) \<noteq> None)
   \<and> mset (acc_accepted a) = mset (acc_dispatched a) + mset (acc_unsent a)
       + mset (as_list (queued_latest (acc_state a)))
   \<and> acc_dispatched a = acc_closed a @ as_list (in_flight (acc_state a))
   \<and> subseq (acc_dispatched a @ as_list (queued_latest (acc_state a))) (acc_accepted a)"

lemma balanced_start: "balanced tr_start"
  by (simp add: balanced_def tr_start_def default_transitions_def)

lemma subseq_left: "subseq (xs @ ys) zs \<Longrightarrow> subseq xs zs"
  by (rule subseq_order.trans [OF subseq_rev_drop_many [OF subseq_order.order_refl]])

lemma subseq_snoc: "subseq xs ys \<Longrightarrow> subseq (xs @ [t]) (ys @ [t])"
  by (rule list_emb_append_mono) auto

lemma subseq_snoc2:
  "subseq (xs @ [x]) ys \<Longrightarrow> subseq (xs @ [x, t]) (ys @ [t])"
  "subseq (xs @ [x, y]) ys \<Longrightarrow> subseq (xs @ [x, t]) (ys @ [t])"
  using subseq_snoc [of "xs @ [x]" ys t] subseq_left [of "xs @ [x]" "[y]" ys] by auto

lemma balanced_accept: "balanced a \<Longrightarrow> balanced (tr_account_step (Ev_Accept t) a)"
  by (cases "in_flight (acc_state a)"; cases "queued_latest (acc_state a)")
    (auto simp: balanced_def tr_account_step_def accept_def intro: subseq_snoc subseq_snoc2)

lemma balanced_promote:
  assumes "balanced a" "in_flight (acc_state a) = Some t"
    and "acc_state b = promote (acc_state a)" "acc_accepted b = acc_accepted a"
    and "acc_dispatched b = acc_dispatched a @ as_list (queued_latest (acc_state a))"
    and "acc_unsent b = acc_unsent a" "acc_closed b = acc_closed a @ [t]"
  shows "balanced b"
  using assms by (cases "queued_latest (acc_state a)") (auto simp: balanced_def promote_def)

lemma balanced_same:
  assumes "balanced a" "in_flight (acc_state b) = in_flight (acc_state a)"
    and "queued_latest (acc_state b) = queued_latest (acc_state a)"
    and "acc_accepted b = acc_accepted a" "acc_dispatched b = acc_dispatched a"
    and "acc_unsent b = acc_unsent a" "acc_closed b = acc_closed a"
  shows "balanced b"
  using assms by (auto simp: balanced_def)

lemma balanced_settle:
  assumes "balanced a" shows "balanced (tr_account_step (Ev_Settle r k) a)"
proof (cases "\<exists>t. in_flight (acc_state a) = Some t \<and> tr_request_id t = r \<and> tr_target t = k")
  case True
  then obtain t where t: "in_flight (acc_state a) = Some t" "tr_request_id t = r" "tr_target t = k"
    by blast
  then show ?thesis
    by (intro balanced_promote [OF assms t(1)])
      (simp_all add: tr_account_step_def settle_def promote_def)
next
  case False
  then show ?thesis
    by (intro balanced_same [OF assms]) (auto simp: tr_account_step_def settle_def split: option.split)
qed

lemma balanced_expire:
  assumes "balanced a" shows "balanced (tr_account_step (Ev_Expire now) a)"
proof (cases "\<exists>t d. in_flight (acc_state a) = Some t \<and> in_flight_deadline (acc_state a) = Some d \<and> d \<le> now")
  case True
  then obtain t d where t: "in_flight (acc_state a) = Some t"
    "in_flight_deadline (acc_state a) = Some d" "d \<le> now" by blast
  then show ?thesis
    by (intro balanced_promote [OF assms t(1)])
      (simp_all add: tr_account_step_def expire_def promote_def)
next
  case False
  then show ?thesis
    by (intro balanced_same [OF assms]) (auto simp: tr_account_step_def expire_def split: option.split)
qed

lemma balanced_expire_now:
  assumes "balanced a" shows "balanced (tr_account_step Ev_Expire_Now a)"
proof (cases "in_flight (acc_state a)")
  case (Some t)
  then show ?thesis
    by (intro balanced_promote [OF assms Some]) (simp_all add: tr_account_step_def expire_now_def)
next
  case None
  then show ?thesis
    by (intro balanced_same [OF assms]) (simp_all add: tr_account_step_def expire_now_def)
qed

lemma balanced_drop:
  "balanced a \<Longrightarrow> balanced (tr_account_step Ev_Clear_Unconfirmable a)"
  "balanced a \<Longrightarrow> balanced (tr_account_step Ev_Reset a)"
  by (cases "queued_latest (acc_state a)"; cases "in_flight (acc_state a)";
      auto simp: balanced_def tr_account_step_def clear_unconfirmable_def reset_transitions_def
        dest: subseq_left)+

lemma balanced_step: "balanced a \<Longrightarrow> balanced (tr_account_step ev a)"
  using balanced_accept balanced_settle balanced_expire balanced_expire_now balanced_drop
  by (cases ev) (auto simp: tr_account_step_def mint_local_id_def Let_def
      intro: balanced_same [of a])

lemma balanced_run: "balanced (tr_run evs)"
proof -
  have "balanced a \<Longrightarrow> balanced (fold tr_account_step evs a)" for a
    by (induction evs arbitrary: a) (auto intro: balanced_step)
  then show ?thesis by (simp add: tr_run_def balanced_start)
qed



section \<open>The deadline\<close>

text \<open>
  Events that leave the in-flight transition alone: new requests, confirmations of something
  else, cleared queue places, and ticks before the deadline.
\<close>

fun leaves_in_flight :: "transition \<Rightarrow> instant \<Rightarrow> tr_event \<Rightarrow> bool" where
  "leaves_in_flight t deadline (Ev_Accept _) = True"
| "leaves_in_flight t deadline (Ev_Settle r k) = (r \<noteq> tr_request_id t \<or> k \<noteq> tr_target t)"
| "leaves_in_flight t deadline (Ev_Expire now) = (now < deadline)"
| "leaves_in_flight t deadline Ev_Expire_Now = False"
| "leaves_in_flight t deadline Ev_Clear_Unconfirmable = True"
| "leaves_in_flight t deadline Ev_Reset = False"
| "leaves_in_flight t deadline Ev_Mint = True"

definition armed :: "transition \<Rightarrow> instant \<Rightarrow> owner_transitions \<Rightarrow> bool" where
  "armed t deadline s \<longleftrightarrow> in_flight s = Some t \<and> in_flight_deadline s = Some deadline"

lemma armed_step:
  "armed t d s \<Longrightarrow> leaves_in_flight t d ev \<Longrightarrow> armed t d (tr_apply ev s)"
  by (cases ev) (auto simp: armed_def tr_ops Let_def)

lemma armed_run:
  "armed t d s \<Longrightarrow> list_all (leaves_in_flight t d) evs \<Longrightarrow> armed t d (fold tr_apply evs s)"
  by (induction evs arbitrary: s) (auto intro: armed_step)

text \<open>
  C31. A transition the run never confirms is abandoned at the first tick from five seconds
  after its first tick, and never earlier. From its first tick at \<open>t0\<close>, whatever requests,
  foreign confirmations and earlier ticks come in between, it stays in flight; a tick at
  \<open>t0 + 5 s\<close> or later reports it expired and puts the queued transition, if any, in
  flight in its place with a fresh deadline.
\<close>

theorem in_flight_deadline_bound:
  assumes "in_flight s = Some t" "in_flight_deadline s = None"
    and "list_all (leaves_in_flight t (t0 + 5 * 10 ^ 9)) evs" "t0 + 5 * 10 ^ 9 \<le> now"
  shows "fst (expire t0 s) = Pending
    \<and> in_flight (fold tr_apply evs (snd (expire t0 s))) = Some t
    \<and> (let s1 = fold tr_apply evs (snd (expire t0 s)) in
        fst (expire now s1) = Expired t (queued_latest s1)
        \<and> in_flight (snd (expire now s1)) = queued_latest s1
        \<and> queued_latest (snd (expire now s1)) = None
        \<and> in_flight_deadline (snd (expire now s1)) = None)"
proof -
  have "armed t (t0 + 5 * 10 ^ 9) (snd (expire t0 s))"
    using assms(1,2) by (simp add: armed_def expire_def IN_FLIGHT_TRANSITION_TIMEOUT_def)
  from armed_run [OF this assms(3)] assms show ?thesis
    by (simp add: expire_def armed_def promote_def Let_def)
qed

lemma in_flight_deadline_bound_witness:
  "let s = snd (accept (transition_new 1 1 7) default_transitions);
       s1 = tr_apply (Ev_Accept (transition_new 2 2 8)) (snd (expire 0 s))
   in fst (expire (6 * 10 ^ 9) s1)
        = Expired (transition_new 1 1 7) (Some (transition_new 2 2 8))"
proof -
  let ?s = "snd (accept (transition_new 1 1 7) default_transitions)"
  have "in_flight ?s = Some (transition_new 1 1 7)" "in_flight_deadline ?s = None"
    by (simp_all add: accept_def default_transitions_def)
  from in_flight_deadline_bound [OF this, of 0 "[Ev_Accept (transition_new 2 2 8)]" "6 * 10 ^ 9"]
  show ?thesis
    by (simp add: Let_def) (simp add: accept_def expire_def default_transitions_def)
qed

end
