(* ===== verification/Owner_State.thy ===== *)
theory Owner_State
  imports Transition Queue_State Queue_Order
begin

text \<open>
  The Player owner's authority over the bound queue (\<^verbatim>\<open>mbv-player/src/owner_state.rs\<close>): the
  canonical queue, the last observed active slot, which only observations of the playback
  run change, and the desired transitions. Operations that mutate the queue take and return
  the revision store.
\<close>

section \<open>State and operations\<close>

datatype step_target = Step_Jump queue_slot_id | Coalesced | AtEdge

record owner_state =
  ow_queue :: playback_queue
  ow_mint :: mint_id
  ow_source :: queue_source
  ow_observed :: "queue_slot_id option"
  ow_transitions :: owner_transitions

definition owner_new :: "playback_queue \<Rightarrow> queue_source \<Rightarrow> owner_state" where
  "owner_new q src =
     \<lparr>ow_queue = q, ow_mint = pq_mint q, ow_source = src, ow_observed = None,
      ow_transitions = default_transitions\<rparr>"

definition sync_canonical_queue ::
  "playback_queue \<Rightarrow> owner_state \<Rightarrow> mint_store \<Rightarrow> owner_state \<times> mint_store" where
  "sync_canonical_queue q ow h =
     (let observed = opt_filter (\<lambda>sid. slot q sid \<noteq> None) (ow_observed ow);
          ow1 = ow\<lparr>ow_mint := pq_mint q, ow_queue := q, ow_observed := observed\<rparr>
      in (case observed of
            Some sid \<Rightarrow> (let (_, q', h') = set_active_slot sid q h in (ow1\<lparr>ow_queue := q'\<rparr>, h'))
          | None \<Rightarrow> (let (q', h') = clear_active_slot q h in (ow1\<lparr>ow_queue := q'\<rparr>, h'))))"

definition note_observed_active_slot ::
  "queue_slot_id option \<Rightarrow> owner_state \<Rightarrow> mint_store \<Rightarrow> owner_state \<times> mint_store" where
  "note_observed_active_slot v ow h =
     (let ow1 = ow\<lparr>ow_observed := v\<rparr> in
      case v of
        None \<Rightarrow> (ow1, h)
      | Some sid \<Rightarrow> (let (_, q', h') = set_active_slot sid (ow_queue ow1) h
                     in (ow1\<lparr>ow_queue := q'\<rparr>, h')))"

definition observe_track_change ::
  "queue_slot_id \<Rightarrow> owner_state \<Rightarrow> mint_store
   \<Rightarrow> (usize \<times> queue_slot_id) option \<times> owner_state \<times> mint_store" where
  "observe_track_change sid ow h =
     (case slot_index (ow_queue ow) sid of
        None \<Rightarrow> (None, ow, h)
      | Some index \<Rightarrow>
          (case nth_opt (pq_slots (ow_queue ow)) index of
             None \<Rightarrow> (None, ow, h)
           | Some s \<Rightarrow>
               (let (ow', h') = note_observed_active_slot (Some (qs_slot_id s)) ow h
                in (Some (index, qs_slot_id s), ow', h'))))"

definition apply_completion_progress ::
  "queue_slot_id \<Rightarrow> i64 \<Rightarrow> bool \<Rightarrow> owner_state \<Rightarrow> mint_store \<Rightarrow> owner_state \<times> mint_store" where
  "apply_completion_progress sid position_ticks played ow h =
     (let (_, q', h') = apply_progress sid position_ticks played (ow_queue ow) h
      in (ow\<lparr>ow_queue := q'\<rparr>, h'))"

definition consume_completed_slot ::
  "queue_slot_id \<Rightarrow> bool \<Rightarrow> bool \<Rightarrow> bool \<Rightarrow> owner_state \<Rightarrow> mint_store
   \<Rightarrow> bool \<times> owner_state \<times> mint_store" where
  "consume_completed_slot sid consume consume_videos consume_audio ow h =
     (case slot (ow_queue ow) sid of
        None \<Rightarrow> (False, ow, h)
      | Some s \<Rightarrow>
          (let allowed = (consume \<and> ((qi_is_video (qs_item s) \<and> consume_videos)
                                    \<or> (qi_is_audio (qs_item s) \<and> consume_audio)))
           in if \<not> allowed then (False, ow, h)
              else (let (r, q', h') = consume_slot sid (ow_queue ow) h
                    in ((case r of Applied _ \<Rightarrow> True | Mutation_NotFound \<Rightarrow> False),
                        ow\<lparr>ow_queue := q'\<rparr>, h'))))"

text \<open>\<^verbatim>\<open>checked_add(1)\<close> never overflows on an index into a vector.\<close>

fun step_neighbor :: "direction \<Rightarrow> usize \<Rightarrow> usize option" where
  "step_neighbor Next index = Some (index + 1)"
| "step_neighbor Previous index = (if index = 0 then None else Some (index - 1))"

definition step_base :: "owner_state \<Rightarrow> queue_slot_id option" where
  "step_base ow =
     opt_or (map_option tr_target
              (opt_or (queued_latest (ow_transitions ow)) (in_flight (ow_transitions ow))))
       (opt_or (ow_observed ow) (pq_active (ow_queue ow)))"

definition relative_step_target :: "direction \<Rightarrow> owner_state \<Rightarrow> step_target" where
  "relative_step_target d ow =
     (let latest = opt_or (queued_latest (ow_transitions ow)) (in_flight (ow_transitions ow)) in
      if (case latest of Some t \<Rightarrow> tr_cause t = Cause_Step d | None \<Rightarrow> False) then Coalesced
      else
        (case Option.bind (step_base ow) (slot_index (ow_queue ow)) of
           None \<Rightarrow> AtEdge
         | Some index \<Rightarrow>
             (case Option.bind (step_neighbor d index) (nth_opt (pq_slots (ow_queue ow))) of
                None \<Rightarrow> AtEdge
              | Some s \<Rightarrow> Step_Jump (qs_slot_id s))))"

definition mint_local_transition :: "owner_state \<Rightarrow> (request_id \<times> generation) \<times> owner_state" where
  "mint_local_transition ow =
     (let (ids, t) = mint_local_id (ow_transitions ow) in (ids, ow\<lparr>ow_transitions := t\<rparr>))"

definition accept_local_transition ::
  "transition \<Rightarrow> owner_state \<Rightarrow> dispatch_decision \<times> owner_state" where
  "accept_local_transition t ow =
     (let (d, s) = accept t (ow_transitions ow) in (d, ow\<lparr>ow_transitions := s\<rparr>))"

definition settle_local_transition ::
  "request_id \<Rightarrow> queue_slot_id \<Rightarrow> owner_state \<Rightarrow> settle_outcome \<times> owner_state" where
  "settle_local_transition r sid ow =
     (let (d, s) = settle r sid (ow_transitions ow) in (d, ow\<lparr>ow_transitions := s\<rparr>))"

definition expire_local_transition ::
  "instant \<Rightarrow> owner_state \<Rightarrow> expire_outcome \<times> owner_state" where
  "expire_local_transition now ow =
     (let (d, s) = expire now (ow_transitions ow) in (d, ow\<lparr>ow_transitions := s\<rparr>))"

definition clear_unconfirmable_transition :: "owner_state \<Rightarrow> owner_state" where
  "clear_unconfirmable_transition ow =
     ow\<lparr>ow_transitions := clear_unconfirmable (ow_transitions ow)\<rparr>"

definition reset_local_transitions :: "owner_state \<Rightarrow> owner_state" where
  "reset_local_transitions ow = ow\<lparr>ow_transitions := reset_transitions (ow_transitions ow)\<rparr>"

definition in_flight_transition_slot :: "owner_state \<Rightarrow> queue_slot_id option" where
  "in_flight_transition_slot ow = map_option tr_target (in_flight (ow_transitions ow))"

section \<open>The observed slot\<close>

lemma slot_None_iff [simp]: "slot q sid = None \<longleftrightarrow> sid \<notin> set (slot_ids q)"
  by (auto simp: slot_def slot_ids_def find_None_iff)

lemma set_active_slot_simps:
  "sid \<in> set (slot_ids q) \<Longrightarrow> pq_active (fst (snd (set_active_slot sid q h))) = Some sid"
  "sid \<notin> set (slot_ids q) \<Longrightarrow> snd (set_active_slot sid q h) = (q, h)"
  "pq_slots (fst (snd (set_active_slot sid q h))) = pq_slots q"
  by (auto simp: set_active_slot_def bump_eq Let_def)

lemma set_active_slot_ids [simp]: "slot_ids (fst (snd (set_active_slot sid q h))) = slot_ids q"
  by (simp add: slot_ids_def set_active_slot_simps)

lemma observe_track_change_simps:
  assumes "sid \<in> set (slot_ids (ow_queue ow))"
  shows "\<exists>i. slot_index (ow_queue ow) sid = Some i
    \<and> observe_track_change sid ow h =
        (Some (i, sid), fst (note_observed_active_slot (Some sid) ow h),
         snd (note_observed_active_slot (Some sid) ow h))"
proof -
  obtain i where i: "slot_index (ow_queue ow) sid = Some i" using assms by fastforce
  then have "nth_opt (pq_slots (ow_queue ow)) i = Some (pq_slots (ow_queue ow) ! i)"
    "qs_slot_id (pq_slots (ow_queue ow) ! i) = sid"
    using slot_index_Some [OF i] by auto
  with i show ?thesis by (simp add: observe_track_change_def Let_def split_beta nth_opt_def)
qed

text \<open>
  The observed slot follows the run and nothing else. A report for a slot the queue
  still holds makes that slot the observed and the active one and returns where it is; a
  report for a slot that is gone is dropped and changes nothing; neither moves or changes a
  slot, and the queue invariant holds afterwards.
\<close>

theorem track_change_observed:
  assumes "pq_inv (ow_queue ow)"
  shows "(if sid \<in> set (slot_ids (ow_queue ow))
     then fst (observe_track_change sid ow h)
            = map_option (\<lambda>i. (i, sid)) (slot_index (ow_queue ow) sid)
       \<and> ow_observed (fst (snd (observe_track_change sid ow h))) = Some sid
       \<and> pq_active (ow_queue (fst (snd (observe_track_change sid ow h)))) = Some sid
     else observe_track_change sid ow h = (None, ow, h))
    \<and> pq_slots (ow_queue (fst (snd (observe_track_change sid ow h)))) = pq_slots (ow_queue ow)
    \<and> pq_inv (ow_queue (fst (snd (observe_track_change sid ow h))))"
proof (cases "sid \<in> set (slot_ids (ow_queue ow))")
  case True
  from observe_track_change_simps [OF True, of h] obtain i where i:
    "slot_index (ow_queue ow) sid = Some i"
    "observe_track_change sid ow h = (Some (i, sid), fst (note_observed_active_slot (Some sid) ow h),
       snd (note_observed_active_slot (Some sid) ow h))" by blast
  then show ?thesis
    using True set_active_slot_inv [OF assms, of sid h] set_active_slot_simps [of sid "ow_queue ow" h]
    by (simp add: note_observed_active_slot_def Let_def split_beta)
next
  case False
  then have "slot_index (ow_queue ow) sid = None" by simp
  with assms False show ?thesis by (simp add: observe_track_change_def del: slot_index_None)
qed

definition sample_owner :: owner_state where
  "sample_owner = owner_new sample_order_queue Src_Unknown"

lemma sample_owner_queue [simp]:
  "ow_queue sample_owner = sample_order_queue" "ow_observed sample_owner = None"
  "ow_transitions sample_owner = default_transitions"
  by (simp_all add: sample_owner_def owner_new_def)

lemma track_change_observed_witness:
  "ow_observed (fst (snd (observe_track_change 3 sample_owner sample_store))) = Some 3
   \<and> observe_track_change 9 sample_owner sample_store = (None, sample_owner, sample_store)"
  using track_change_observed [of sample_owner 3 sample_store]
    track_change_observed [of sample_owner 9 sample_store]
  by (simp add: sample_order_queue_inv)

text \<open>
  Adopting a replaced queue keeps the owner's picture consistent: the observed slot
  survives exactly when the new queue still holds it, the queue's active marker is then the
  observed slot and otherwise unset, the slots are the new queue's, and the queue invariant
  holds.
\<close>

theorem sync_keeps_observed:
  assumes "pq_inv q"
  shows "ow_observed (fst (sync_canonical_queue q ow h))
        = opt_filter (\<lambda>sid. sid \<in> set (slot_ids q)) (ow_observed ow)
    \<and> pq_active (ow_queue (fst (sync_canonical_queue q ow h)))
        = ow_observed (fst (sync_canonical_queue q ow h))
    \<and> pq_slots (ow_queue (fst (sync_canonical_queue q ow h))) = pq_slots q
    \<and> pq_inv (ow_queue (fst (sync_canonical_queue q ow h)))"
proof (cases "opt_filter (\<lambda>sid. sid \<in> set (slot_ids q)) (ow_observed ow)")
  case None
  then show ?thesis
    using clear_active_slot_inv [OF assms, of h]
    by (auto simp: sync_canonical_queue_def Let_def split_beta clear_active_slot_def bump_eq)
next
  case (Some sid)
  then have "sid \<in> set (slot_ids q)" by simp
  with Some show ?thesis
    using set_active_slot_inv [OF assms, of sid h] set_active_slot_simps [of sid q h]
    by (simp add: sync_canonical_queue_def Let_def split_beta)
qed

lemma sync_keeps_observed_witness:
  "pq_active (ow_queue (fst (sync_canonical_queue sample_order_queue
      (sample_owner\<lparr>ow_observed := Some 3\<rparr>) sample_store))) = Some 3"
  using sync_keeps_observed [OF sample_order_queue_inv, of "sample_owner\<lparr>ow_observed := Some 3\<rparr>"
      sample_store] by simp

section \<open>Relative steps\<close>

lemma slot_index_nth:
  assumes "pq_inv q" "i < length (pq_slots q)"
  shows "slot_index q (qs_slot_id (pq_slots q ! i)) = Some i"
  using slot_index_iff [OF pq_invD(1) [OF assms(1)]] assms(2) by simp

lemma step_jump_index:
  assumes "relative_step_target d ow = Step_Jump sid"
  shows "\<exists>base i j. step_base ow = Some base \<and> slot_index (ow_queue ow) base = Some i
    \<and> step_neighbor d i = Some j \<and> j < length (pq_slots (ow_queue ow))
    \<and> sid = qs_slot_id (pq_slots (ow_queue ow) ! j)"
  using assms
  by (auto simp: relative_step_target_def Let_def bind_eq_Some_conv simp del: slot_index_None
      split: if_splits option.splits)

fun opposite :: "direction \<Rightarrow> direction" where
  "opposite Next = Previous"
| "opposite Previous = Next"

text \<open>
  Steps work on the latest desired position. When a step resolves to a neighbour and its
  transition is accepted, the same step again is coalesced, and the opposite step goes back
  exactly to the slot the first one started from, whether or not the run has confirmed
  anything yet.
\<close>

theorem step_there_and_back:
  assumes "pq_inv (ow_queue ow)"
    and "in_flight (ow_transitions ow) = None \<longrightarrow> queued_latest (ow_transitions ow) = None"
    and "relative_step_target d ow = Step_Jump sid"
  shows "let ow' = snd (accept_local_transition (transition_with_cause r g sid (Cause_Step d)) ow) in
    relative_step_target d ow' = Coalesced
    \<and> (\<exists>base. step_base ow = Some base
         \<and> relative_step_target (opposite d) ow' = Step_Jump base)"
proof -
  let ?ow = "snd (accept_local_transition (transition_with_cause r g sid (Cause_Step d)) ow)"
  let ?q = "ow_queue ow"
  from step_jump_index [OF assms(3)] obtain base i j where *:
    "step_base ow = Some base" "slot_index ?q base = Some i" "step_neighbor d i = Some j"
    "j < length (pq_slots ?q)" "sid = qs_slot_id (pq_slots ?q ! j)" by blast
  have latest: "opt_or (queued_latest (ow_transitions ?ow)) (in_flight (ow_transitions ?ow))
      = Some (transition_with_cause r g sid (Cause_Step d))"
    using assms(2)
    by (auto simp: accept_local_transition_def accept_def Let_def split_beta)
  have queue: "ow_queue ?ow = ?q" by (simp add: accept_local_transition_def split_beta Let_def)
  have base': "step_base ?ow = Some sid"
    unfolding step_base_def latest by (simp add: transition_with_cause_def)
  have i: "i < length (pq_slots ?q)" "qs_slot_id (pq_slots ?q ! i) = base"
    using slot_index_Some [OF *(2)] by auto
  have j: "slot_index ?q sid = Some j" using slot_index_nth [OF assms(1) *(4)] *(5) by simp
  have undo: "step_neighbor (opposite d) j = Some i"
    using *(3) by (cases d) (auto split: if_splits)
  have "relative_step_target d ?ow = Coalesced"
    unfolding relative_step_target_def latest by (simp add: transition_with_cause_def)
  moreover have "relative_step_target (opposite d) ?ow = Step_Jump base"
    unfolding relative_step_target_def latest base' queue
    using j undo i by (cases d) (simp_all add: transition_with_cause_def Let_def nth_opt_def)
  ultimately show ?thesis using *(1) by (simp add: Let_def)
qed

lemma step_there_and_back_witness:
  "let ow' = snd (accept_local_transition (transition_with_cause 1 1 3 (Cause_Step Next)) sample_owner)
   in relative_step_target Next ow' = Coalesced \<and> relative_step_target Previous ow' = Step_Jump 2"
proof -
  have base: "step_base sample_owner = Some 2"
    by (simp add: step_base_def default_transitions_def)
  have "relative_step_target Next sample_owner = Step_Jump 3"
    by (simp add: relative_step_target_def base default_transitions_def slot_index_ids)
      (simp add: sample_order_queue_def nth_opt_def)
  from step_there_and_back [OF _ _ this, of 1 1] base show ?thesis
    by (simp add: sample_order_queue_inv default_transitions_def Let_def)
qed

section \<open>Consuming completed slots\<close>

text \<open>
  A completed slot is consumed exactly when it is still queued, the completion allows it
  and the policy for its media kind does; then that slot and no other leaves the queue, and
  otherwise nothing changes. The queue invariant is kept either way.
\<close>

theorem consumption_policy:
  assumes "pq_inv (ow_queue ow)"
  shows "(let (consumed, ow', h') = consume_completed_slot sid consume videos audio ow h in
     consumed = (case slot (ow_queue ow) sid of None \<Rightarrow> False
       | Some s \<Rightarrow> consume \<and> (qi_is_video (qs_item s) \<and> videos \<or> qi_is_audio (qs_item s) \<and> audio))
     \<and> slot_ids (ow_queue ow')
         = (if consumed then filter (\<lambda>k. k \<noteq> sid) (slot_ids (ow_queue ow)) else slot_ids (ow_queue ow))
     \<and> (if consumed then pq_inv (ow_queue ow') else ow' = ow \<and> h' = h))"
proof (cases "slot (ow_queue ow) sid")
  case None
  then show ?thesis by (simp add: consume_completed_slot_def del: slot_None_iff)
next
  case (Some s)
  then have "sid \<in> set (slot_ids (ow_queue ow))" by (metis option.distinct(1) slot_None_iff)
  then obtain i where i: "slot_index (ow_queue ow) sid = Some i" by fastforce
  from remove_existing_slot_spec [OF assms i, of h] Some
  have "fst (consume_slot sid (ow_queue ow) h) = Applied s"
    "slot_ids (fst (snd (consume_slot sid (ow_queue ow) h)))
       = filter (\<lambda>k. k \<noteq> sid) (slot_ids (ow_queue ow))"
    by (simp_all add: consume_slot_def split_beta Let_def)
  with Some consume_slot_inv [OF assms, of sid h] show ?thesis
    by (auto simp: consume_completed_slot_def Let_def split_beta)
qed

lemma consumption_policy_witness:
  "slot_ids (ow_queue (fst (snd (consume_completed_slot 1 True True False
      (owner_new sample_order_queue Src_Unknown) sample_store)))) = [2, 3]"
  using consumption_policy [of "owner_new sample_order_queue Src_Unknown" 1 True True False
      sample_store] sample_order_queue_inv
  by (simp add: owner_new_def split_beta Let_def)
    (simp add: slot_def sample_order_queue_def slot_ids_def split: if_splits)

end
