(* ===== verification/Run_Lifecycle.thy ===== *)
theory Run_Lifecycle
  imports Transition Execution_Sequence
begin

text \<open>
  The lifecycle machine of one playback run (\<^verbatim>\<open>mbv-player/src/run/lifecycle.rs\<close>): the
  playback-has-begun boundary, the projection that feeds mpv, the forced-jump arm, and the
  guard that lets a run identity end once.
\<close>

section \<open>State and operations\<close>

record forced_jump =
  fj_slot_id :: queue_slot_id
  fj_transition :: "transition option"
  fj_resume_ticks :: "i64 option"
  fj_from_idle :: bool

datatype projection = Proj_Playlist | Proj_ActiveFile

datatype jump_arm =
    Arm_Idle
  | Arm_Pending forced_jump
  | Arm_ResumeOnly queue_slot_id i64

definition arm_is_idle :: "jump_arm \<Rightarrow> bool" where
  "arm_is_idle a \<longleftrightarrow> (case a of Arm_Idle \<Rightarrow> True | _ \<Rightarrow> False)"

datatype failure_phase = BeforeStart | AfterStart

datatype failure_verdict =
    Continue
  | EndRun "queue_slot_id option" failure_phase

record run_position =
  rp_current_idx :: usize
  rp_queue_len :: usize
  rp_current_slot :: "queue_slot_id option"
  rp_jump_target_idx :: "usize option"

record run_lifecycle =
  rl_began :: bool
  rl_projection :: projection
  rl_jump :: jump_arm
  rl_ended :: "generation option"

definition playback_started :: "run_lifecycle \<Rightarrow> run_lifecycle" where
  "playback_started l = l\<lparr>rl_began := True\<rparr>"

definition lifecycle_for_queue :: "execution_sequence \<Rightarrow> run_lifecycle" where
  "lifecycle_for_queue e =
     \<lparr>rl_began = False,
      rl_projection = (if es_has_audiobookshelf_entries e then Proj_ActiveFile else Proj_Playlist),
      rl_jump = Arm_Idle, rl_ended = None\<rparr>"

definition enter_active_file :: "run_lifecycle \<Rightarrow> run_lifecycle" where
  "enter_active_file l = l\<lparr>rl_projection := Proj_ActiveFile, rl_jump := Arm_Idle\<rparr>"

definition is_active_file :: "run_lifecycle \<Rightarrow> bool" where
  "is_active_file l \<longleftrightarrow> (case rl_projection l of Proj_ActiveFile \<Rightarrow> True | _ \<Rightarrow> False)"

definition submission_accepted :: "run_lifecycle \<Rightarrow> run_lifecycle" where
  "submission_accepted l = l\<lparr>rl_began := False, rl_jump := Arm_Idle, rl_ended := None\<rparr>"

definition neighbor_fallback :: "usize option \<Rightarrow> usize \<Rightarrow> usize" where
  "neighbor_fallback target_idx current_idx =
     (case target_idx of Some i \<Rightarrow> i | None \<Rightarrow> current_idx + 1)"

definition resolved_target_idx :: "run_position \<Rightarrow> usize" where
  "resolved_target_idx pos = neighbor_fallback (rp_jump_target_idx pos) (rp_current_idx pos)"

definition load_failed :: "run_position \<Rightarrow> run_lifecycle \<Rightarrow> failure_verdict \<times> run_lifecycle" where
  "load_failed pos l =
     (let arm = rl_jump l;
          l1 = l\<lparr>rl_jump := Arm_Idle\<rparr>;
          (failed_idx, failed_slot) =
            (case arm of
               Arm_Idle \<Rightarrow> (rp_current_idx pos, rp_current_slot pos)
             | Arm_Pending j \<Rightarrow> (resolved_target_idx pos, Some (fj_slot_id j))
             | Arm_ResumeOnly sid _ \<Rightarrow> (resolved_target_idx pos, Some sid))
      in if \<not> rl_began l1 then (EndRun failed_slot BeforeStart, l1)
         else if is_active_file l1 \<or> failed_idx + 1 \<ge> rp_queue_len pos
         then (EndRun failed_slot AfterStart, l1)
         else (Continue, l1))"

definition close_run :: "generation \<Rightarrow> run_lifecycle \<Rightarrow> bool \<times> run_lifecycle" where
  "close_run identity l =
     (if rl_ended l = Some identity then (False, l)
      else (True, l\<lparr>rl_ended := Some identity\<rparr>))"

definition arm_jump :: "forced_jump \<Rightarrow> run_lifecycle \<Rightarrow> run_lifecycle" where
  "arm_jump j l = l\<lparr>rl_jump := (if is_active_file l then Arm_Idle else Arm_Pending j)\<rparr>"

definition disarm_jump :: "run_lifecycle \<Rightarrow> run_lifecycle" where
  "disarm_jump l = l\<lparr>rl_jump := Arm_Idle\<rparr>"

definition jump_target_slot :: "run_lifecycle \<Rightarrow> queue_slot_id option" where
  "jump_target_slot l =
     (case rl_jump l of
        Arm_Pending j \<Rightarrow> Some (fj_slot_id j)
      | Arm_ResumeOnly sid _ \<Rightarrow> Some sid
      | Arm_Idle \<Rightarrow> None)"

definition jump_settled_on_end_file ::
  "usize option \<Rightarrow> usize \<Rightarrow> usize \<Rightarrow> run_lifecycle
   \<Rightarrow> (usize \<times> transition option) \<times> run_lifecycle" where
  "jump_settled_on_end_file target_index current_idx queue_len l =
     (let next_idx = neighbor_fallback target_index current_idx;
          (tr, resume) =
            (case rl_jump l of
               Arm_Idle \<Rightarrow> (None, None)
             | Arm_Pending j \<Rightarrow>
                 (fj_transition j, map_option (\<lambda>t. (fj_slot_id j, t)) (fj_resume_ticks j))
             | Arm_ResumeOnly sid t \<Rightarrow> (None, Some (sid, t)));
          l1 = l\<lparr>rl_jump := Arm_Idle\<rparr>;
          l2 = (if next_idx < queue_len
                then (case resume of
                        Some (sid, t) \<Rightarrow> l1\<lparr>rl_jump := Arm_ResumeOnly sid t\<rparr>
                      | None \<Rightarrow> l1)
                else l1)
      in ((next_idx, tr), l2))"

definition jump_settled_on_restart ::
  "run_lifecycle \<Rightarrow> (queue_slot_id \<times> transition option) option \<times> run_lifecycle" where
  "jump_settled_on_restart l =
     (case rl_jump l of
        Arm_Pending j \<Rightarrow>
          (if \<not> fj_from_idle j then (None, l)
           else (Some (fj_slot_id j, fj_transition j),
                 l\<lparr>rl_jump := (case fj_resume_ticks j of
                      Some t \<Rightarrow> Arm_ResumeOnly (fj_slot_id j) t
                    | None \<Rightarrow> Arm_Idle)\<rparr>))
      | _ \<Rightarrow> (None, l))"

definition take_resume_ticks :: "run_lifecycle \<Rightarrow> i64 option \<times> run_lifecycle" where
  "take_resume_ticks l =
     (let ticks = (case rl_jump l of
                     Arm_Pending j \<Rightarrow> fj_resume_ticks j
                   | Arm_ResumeOnly _ t \<Rightarrow> Some t
                   | Arm_Idle \<Rightarrow> None)
      in (case ticks of None \<Rightarrow> (None, l) | Some t \<Rightarrow> (Some t, l\<lparr>rl_jump := Arm_Idle\<rparr>)))"

section \<open>Events\<close>

datatype rl_event =
    Rl_Playback_Started
  | Rl_Enter_Active_File
  | Rl_Submission_Accepted
  | Rl_Load_Failed run_position
  | Rl_Close generation
  | Rl_Arm forced_jump
  | Rl_Disarm
  | Rl_End_File "usize option" usize usize
  | Rl_Restart
  | Rl_Take_Resume

fun rl_apply :: "rl_event \<Rightarrow> run_lifecycle \<Rightarrow> run_lifecycle" where
  "rl_apply Rl_Playback_Started l = playback_started l"
| "rl_apply Rl_Enter_Active_File l = enter_active_file l"
| "rl_apply Rl_Submission_Accepted l = submission_accepted l"
| "rl_apply (Rl_Load_Failed pos) l = snd (load_failed pos l)"
| "rl_apply (Rl_Close g) l = snd (close_run g l)"
| "rl_apply (Rl_Arm j) l = arm_jump j l"
| "rl_apply Rl_Disarm l = disarm_jump l"
| "rl_apply (Rl_End_File t c n) l = snd (jump_settled_on_end_file t c n l)"
| "rl_apply Rl_Restart l = snd (jump_settled_on_restart l)"
| "rl_apply Rl_Take_Resume l = snd (take_resume_ticks l)"

lemmas rl_ops = playback_started_def enter_active_file_def submission_accepted_def load_failed_def
  close_run_def arm_jump_def disarm_jump_def jump_settled_on_end_file_def
  jump_settled_on_restart_def take_resume_ticks_def

text \<open>\<open>ended\<close> and \<open>began\<close> change only where they are meant to.\<close>

lemma rl_frame:
  "rl_began (rl_apply ev l) = (case ev of Rl_Playback_Started \<Rightarrow> True
     | Rl_Submission_Accepted \<Rightarrow> False | _ \<Rightarrow> rl_began l)"
  "rl_ended (rl_apply ev l) = (case ev of Rl_Submission_Accepted \<Rightarrow> None
     | Rl_Close g \<Rightarrow> Some g | _ \<Rightarrow> rl_ended l)"
  "is_active_file (rl_apply ev l) \<longleftrightarrow> is_active_file l \<or> ev = Rl_Enter_Active_File"
  by (cases ev; auto simp: rl_ops is_active_file_def Let_def split_beta
      split: jump_arm.split option.split projection.split)+

section \<open>The active-file projection\<close>

definition rl_inv :: "run_lifecycle \<Rightarrow> bool" where
  "rl_inv l \<longleftrightarrow> (is_active_file l \<longrightarrow> rl_jump l = Arm_Idle)"

lemma rl_inv_step: "rl_inv l \<Longrightarrow> rl_inv (rl_apply ev l)"
  by (cases ev) (auto simp: rl_inv_def rl_ops is_active_file_def Let_def split_beta
      split: jump_arm.splits option.splits if_splits projection.splits)

lemma rl_inv_run: "rl_inv l \<Longrightarrow> rl_inv (fold rl_apply evs l)"
  by (induction evs arbitrary: l) (auto intro: rl_inv_step)

lemma active_file_run: "is_active_file l \<Longrightarrow> is_active_file (fold rl_apply evs l)"
  by (induction evs arbitrary: l) (auto simp: rl_frame)

text \<open>
  The active-file projection is final and holds no jump. In every state reached from a
  submitted queue, whatever events arrive in whatever order, a run in the active-file
  projection has no jump armed and so no jump target; and a run that was ever in that
  projection, because its queue holds an Audiobookshelf entry or because it switched, stays
  in it.
\<close>

theorem active_file_holds_no_jump:
  "(is_active_file (fold rl_apply evs (lifecycle_for_queue e))
      \<longrightarrow> jump_target_slot (fold rl_apply evs (lifecycle_for_queue e)) = None)
   \<and> (es_has_audiobookshelf_entries e \<or> Rl_Enter_Active_File \<in> set evs
      \<longrightarrow> is_active_file (fold rl_apply evs (lifecycle_for_queue e)))"
proof -
  have "rl_inv (lifecycle_for_queue e)" by (simp add: rl_inv_def lifecycle_for_queue_def)
  then have "rl_inv (fold rl_apply evs (lifecycle_for_queue e))" by (rule rl_inv_run)
  moreover have "is_active_file (fold rl_apply evs (lifecycle_for_queue e))"
    if "es_has_audiobookshelf_entries e"
    using that by (intro active_file_run) (simp add: lifecycle_for_queue_def is_active_file_def)
  moreover have "is_active_file (fold rl_apply evs (lifecycle_for_queue e))"
    if "Rl_Enter_Active_File \<in> set evs"
  proof -
    from split_list [OF that] obtain xs ys where "evs = xs @ Rl_Enter_Active_File # ys" by blast
    then show ?thesis by (simp add: active_file_run rl_frame del: rl_apply.simps)
  qed
  ultimately show ?thesis by (auto simp: rl_inv_def jump_target_slot_def)
qed

definition sample_jump :: forced_jump where
  "sample_jump = \<lparr>fj_slot_id = 3, fj_transition = Some (transition_new 1 1 3),
     fj_resume_ticks = Some 70, fj_from_idle = False\<rparr>"

lemma active_file_holds_no_jump_witness:
  "is_active_file (fold rl_apply [Rl_Arm sample_jump, Rl_Enter_Active_File] (lifecycle_for_queue es_empty))
   \<and> jump_target_slot (fold rl_apply [Rl_Arm sample_jump, Rl_Enter_Active_File]
        (lifecycle_for_queue es_empty)) = None"
  using active_file_holds_no_jump [of "[Rl_Arm sample_jump, Rl_Enter_Active_File]" es_empty] by simp

section \<open>One end per run identity\<close>

text \<open>The answers of the close calls of a run, in order.\<close>

fun close_answers :: "rl_event list \<Rightarrow> run_lifecycle \<Rightarrow> bool list" where
  "close_answers [] l = []"
| "close_answers (Rl_Close g # evs) l = fst (close_run g l) # close_answers evs (snd (close_run g l))"
| "close_answers (ev # evs) l = close_answers evs (rl_apply ev l)"

fun closes :: "rl_event \<Rightarrow> bool" where
  "closes (Rl_Close _) = True"
| "closes _ = False"

text \<open>Within one submission every close names the run's one identity.\<close>

fun within_submission :: "generation \<Rightarrow> rl_event \<Rightarrow> bool" where
  "within_submission g (Rl_Close g') = (g' = g)"
| "within_submission g Rl_Submission_Accepted = False"
| "within_submission g _ = True"

lemma close_answers_ended:
  "list_all (within_submission g) evs \<Longrightarrow> rl_ended l = Some g \<Longrightarrow>
     close_answers evs l = replicate (length (filter closes evs)) False"
proof (induction evs arbitrary: l)
  case (Cons ev evs)
  have "rl_ended (rl_apply ev l) = Some g" using Cons.prems by (cases ev) (auto simp: rl_frame simp del: rl_apply.simps)
  with Cons show ?case by (cases ev) (simp_all add: close_run_def)
qed simp

lemma close_answers_open:
  "list_all (within_submission g) evs \<Longrightarrow> rl_ended l \<noteq> Some g \<Longrightarrow>
     close_answers evs l = (case length (filter closes evs) of 0 \<Rightarrow> []
       | Suc n \<Rightarrow> True # replicate n False)"
proof (induction evs arbitrary: l)
  case (Cons ev evs)
  show ?case
  proof (cases "closes ev")
    case True
    with Cons.prems have "ev = Rl_Close g" by (cases ev) auto
    with Cons.prems show ?thesis
      using close_answers_ended [of g evs "snd (close_run g l)"] by (simp add: close_run_def)
  next
    case False
    have "rl_ended (rl_apply ev l) \<noteq> Some g"
      using Cons.prems False by (cases ev) (auto simp: rl_frame simp del: rl_apply.simps)
    with Cons.IH [of "rl_apply ev l"] Cons.prems False show ?thesis by (cases ev) simp_all
  qed
qed simp

text \<open>
  A run ends once. From the moment a submission is accepted until the next one, however
  many end paths fire and whatever happens between them, exactly the first close is answered
  yes and every later one no; accepting a submission lets the run end again.
\<close>

theorem run_ends_once:
  assumes "list_all (within_submission g) evs"
  shows "close_answers evs (submission_accepted l)
     = (case length (filter closes evs) of 0 \<Rightarrow> [] | Suc n \<Rightarrow> True # replicate n False)"
  using close_answers_open [OF assms, of "submission_accepted l"]
  by (simp add: submission_accepted_def)

lemma run_ends_once_witness:
  "close_answers [Rl_Playback_Started, Rl_Close 5, Rl_Disarm, Rl_Close 5]
     (submission_accepted (lifecycle_for_queue es_empty)) = [True, False]"
  using run_ends_once [of 5 "[Rl_Playback_Started, Rl_Close 5, Rl_Disarm, Rl_Close 5]"
      "lifecycle_for_queue es_empty"] by simp

section \<open>What a jump delivers\<close>

text \<open>The transition an event announces, and the resume position it hands out.\<close>

fun announced :: "rl_event \<Rightarrow> run_lifecycle \<Rightarrow> transition option" where
  "announced (Rl_End_File t c n) l = snd (fst (jump_settled_on_end_file t c n l))"
| "announced Rl_Restart l = Option.bind (fst (jump_settled_on_restart l)) snd"
| "announced _ l = None"

fun resumed :: "rl_event \<Rightarrow> run_lifecycle \<Rightarrow> i64 option" where
  "resumed Rl_Take_Resume l = fst (take_resume_ticks l)"
| "resumed _ l = None"

fun deliveries ::
  "rl_event list \<Rightarrow> run_lifecycle \<Rightarrow> transition list \<times> i64 list" where
  "deliveries [] l = ([], [])"
| "deliveries (ev # evs) l =
     (let (ts, rs) = deliveries evs (rl_apply ev l) in
      (as_list (announced ev l) @ ts, as_list (resumed ev l) @ rs))"

definition arms :: "rl_event \<Rightarrow> bool" where
  "arms ev \<longleftrightarrow> (case ev of Rl_Arm _ \<Rightarrow> True | _ \<Rightarrow> False)"

text \<open>What an arm can still announce and hand out.\<close>

fun arm_transition :: "jump_arm \<Rightarrow> transition option" where
  "arm_transition (Arm_Pending j) = fj_transition j"
| "arm_transition _ = None"

fun arm_resume :: "jump_arm \<Rightarrow> i64 option" where
  "arm_resume (Arm_Pending j) = fj_resume_ticks j"
| "arm_resume (Arm_ResumeOnly _ t) = Some t"
| "arm_resume Arm_Idle = None"

lemma arm_step:
  assumes "\<not> arms ev"
  shows "announced ev l = None \<and> (arm_transition (rl_jump (rl_apply ev l)) = arm_transition (rl_jump l)
            \<or> arm_transition (rl_jump (rl_apply ev l)) = None)
        \<or> announced ev l = arm_transition (rl_jump l) \<and> arm_transition (rl_jump (rl_apply ev l)) = None"
    and "resumed ev l = None \<and> (arm_resume (rl_jump (rl_apply ev l)) = arm_resume (rl_jump l)
            \<or> arm_resume (rl_jump (rl_apply ev l)) = None)
        \<or> resumed ev l = arm_resume (rl_jump l) \<and> arm_resume (rl_jump (rl_apply ev l)) = None"
  using assms
  by (cases ev; cases "rl_jump l";
      auto simp: arms_def rl_ops Let_def split_beta split: option.splits)+

lemma as_list_take:
  assumes "a = None \<and> (b = v \<or> b = None) \<or> a = v \<and> b = None"
  shows "\<exists>k. as_list a @ take n (as_list b) = take k (as_list v)"
  using assms
  by (elim disjE conjE)
    (auto intro: exI [of _ n] exI [of _ 0] exI [of _ "length (as_list v)"])

lemma take_as_list: "take k (as_list v) \<in> {[], as_list v}"
  by (cases k; cases v) auto

lemma deliveries_bound:
  "\<forall>ev\<in>set evs. \<not> arms ev \<Longrightarrow>
     (\<exists>k. fst (deliveries evs l) = take k (as_list (arm_transition (rl_jump l))))
     \<and> (\<exists>k. snd (deliveries evs l) = take k (as_list (arm_resume (rl_jump l))))"
proof (induction evs arbitrary: l)
  case (Cons ev evs)
  then obtain i j where
    "fst (deliveries evs (rl_apply ev l)) = take i (as_list (arm_transition (rl_jump (rl_apply ev l))))"
    "snd (deliveries evs (rl_apply ev l)) = take j (as_list (arm_resume (rl_jump (rl_apply ev l))))"
    by (meson list.set_intros(2))
  moreover have "\<not> arms ev" using Cons.prems by simp
  ultimately show ?case
    using as_list_take [OF arm_step(1) [of ev l], of i] as_list_take [OF arm_step(2) [of ev l], of j]
    by (simp add: split_beta Let_def)
qed simp

text \<open>
  An armed jump delivers each of its parts at most once and only its own: after arming,
  until the next jump is armed, whatever events come, the run announces the jump's transition
  at most once and seeks to the jump's resume position at most once, and nothing else is
  announced or sought. In the active-file projection nothing is.
\<close>

theorem jump_delivers_once:
  assumes "\<forall>ev\<in>set evs. \<not> arms ev"
  shows "fst (deliveries evs (arm_jump j l)) \<in> {[], as_list (fj_transition j)}
    \<and> snd (deliveries evs (arm_jump j l)) \<in> {[], as_list (fj_resume_ticks j)}
    \<and> (is_active_file l \<longrightarrow> deliveries evs (arm_jump j l) = ([], []))"
proof (cases "is_active_file l")
  case True
  with deliveries_bound [OF assms, of "arm_jump j l"] show ?thesis
    by (simp add: arm_jump_def prod_eq_iff)
next
  case False
  then have "rl_jump (arm_jump j l) = Arm_Pending j" by (simp add: arm_jump_def)
  with deliveries_bound [OF assms, of "arm_jump j l"] obtain m n where
    "fst (deliveries evs (arm_jump j l)) = take m (as_list (fj_transition j))"
    "snd (deliveries evs (arm_jump j l)) = take n (as_list (fj_resume_ticks j))" by auto
  with False show ?thesis
    using take_as_list [of m "fj_transition j"] take_as_list [of n "fj_resume_ticks j"] by simp
qed

lemma jump_delivers_once_witness:
  "deliveries [Rl_End_File (Some 2) 0 3, Rl_Restart, Rl_Take_Resume, Rl_Take_Resume]
     (arm_jump sample_jump (lifecycle_for_queue es_empty)) = ([transition_new 1 1 3], [70])
   \<and> snd (deliveries [Rl_End_File (Some 2) 0 3, Rl_Restart, Rl_Take_Resume, Rl_Take_Resume]
     (arm_jump sample_jump (lifecycle_for_queue es_empty))) \<in> {[], [70]}"
proof -
  let ?evs = "[Rl_End_File (Some 2) 0 3, Rl_Restart, Rl_Take_Resume, Rl_Take_Resume]"
  have "deliveries ?evs (arm_jump sample_jump (lifecycle_for_queue es_empty))
      = ([transition_new 1 1 3], [70])"
    by (simp add: rl_ops lifecycle_for_queue_def es_has_audiobookshelf_entries_def es_empty_def
        is_active_file_def sample_jump_def neighbor_fallback_def Let_def)
  with jump_delivers_once [of ?evs sample_jump "lifecycle_for_queue es_empty"] show ?thesis
    by (simp add: arms_def sample_jump_def)
qed

section \<open>Load failures\<close>

text \<open>
  The verdict on a load failure. The run goes on exactly when playback has begun, mpv's
  playlist holds the queue, and an entry follows the failed one, which is the armed target
  (or the entry after the current one when the target is no longer queued) while a jump is
  armed and the current entry otherwise. When the run ends, the verdict names that entry's
  slot and the side of the start boundary; in every case no jump stays armed and nothing else
  of the lifecycle changes.
\<close>

theorem load_failure_verdict:
  "(let failed_idx = (if rl_jump l = Arm_Idle then rp_current_idx pos
                     else neighbor_fallback (rp_jump_target_idx pos) (rp_current_idx pos));
        failed_slot = (if rl_jump l = Arm_Idle then rp_current_slot pos else jump_target_slot l);
        goes_on = (rl_began l \<and> \<not> is_active_file l \<and> Suc failed_idx < rp_queue_len pos)
    in load_failed pos l =
         ((if goes_on then Continue
           else EndRun failed_slot (if rl_began l then AfterStart else BeforeStart)),
          disarm_jump l))"
  by (cases "rl_jump l")
    (auto simp: load_failed_def Let_def resolved_target_idx_def jump_target_slot_def
      disarm_jump_def is_active_file_def)

end
