(* ===== verification/Run_Decisions.thy ===== *)
theory Run_Decisions
  imports Run_Lifecycle
begin

text \<open>
  The pure decisions of a playback run: per-item lifecycle flags (\<^verbatim>\<open>run/state.rs\<close>), the state
  loaded for the active item, Next Up timing and completion outcomes (\<^verbatim>\<open>run/decisions.rs\<close>),
  end-file classification (\<^verbatim>\<open>run/events/event_classifiers.rs\<close>), the near-end rule
  (\<^verbatim>\<open>proxy.rs\<close>) and the playlist layout arithmetic (\<^verbatim>\<open>lib.rs\<close>, \<^verbatim>\<open>runtime.rs\<close>,
  \<^verbatim>\<open>run/queue_commands.rs\<close>). Ticks are \<^verbatim>\<open>i64\<close>; products and differences that can leave its
  range wrap.
\<close>

text \<open>\<^verbatim>\<open>i64\<close> division truncates towards zero.\<close>

definition tick_div :: "i64 \<Rightarrow> i64 \<Rightarrow> i64" where
  "tick_div a b = sgn a * sgn b * (\<bar>a\<bar> div \<bar>b\<bar>)"

section \<open>Per-item flags\<close>

datatype load_state = Ready | DrainingReplacedFile
datatype drained = HitZero | AlreadyReady
datatype stop_report = NotSent | Sent
datatype stop_action = ReportedNow stop_report | Deferred | NothingPlaying

fun drain :: "load_state \<Rightarrow> drained \<times> load_state" where
  "drain Ready = (AlreadyReady, Ready)"
| "drain DrainingReplacedFile = (HitZero, Ready)"

record item_lifecycle =
  il_load_state :: load_state
  il_stop_report :: stop_report

definition item_lifecycle_new :: item_lifecycle where
  "item_lifecycle_new = \<lparr>il_load_state = Ready, il_stop_report = NotSent\<rparr>"

definition on_drained :: "item_lifecycle \<Rightarrow> drained \<times> item_lifecycle" where
  "on_drained il =
     (let (d, s) = drain (il_load_state il);
          il1 = il\<lparr>il_load_state := s\<rparr>
      in (d, if d = HitZero then il1\<lparr>il_stop_report := NotSent\<rparr> else il1))"

definition mark_reported :: "stop_report \<Rightarrow> item_lifecycle \<Rightarrow> item_lifecycle" where
  "mark_reported r il = il\<lparr>il_stop_report := r\<rparr>"

definition accept_replacement :: "item_lifecycle \<Rightarrow> item_lifecycle" where
  "accept_replacement il = il\<lparr>il_load_state := DrainingReplacedFile\<rparr>"

definition is_unreported :: "item_lifecycle \<Rightarrow> bool" where
  "is_unreported il \<longleftrightarrow> il_stop_report il = NotSent"

datatype next_up = NU_Idle | NU_Armed | NU_Fired

definition next_up_arm :: "next_up \<Rightarrow> next_up" where
  "next_up_arm s = (case s of NU_Idle \<Rightarrow> NU_Armed | _ \<Rightarrow> s)"

definition next_up_fire :: "next_up \<Rightarrow> next_up" where
  "next_up_fire s = NU_Fired"

definition next_up_reset :: "next_up \<Rightarrow> next_up" where
  "next_up_reset s = NU_Idle"

definition next_up_is_fired :: "next_up \<Rightarrow> bool" where
  "next_up_is_fired s \<longleftrightarrow> (case s of NU_Fired \<Rightarrow> True | _ \<Rightarrow> False)"

datatype intro_state = Intro_Pending | Intro_Shown | Intro_Dismissed

definition intro_new :: "bool \<Rightarrow> intro_state" where
  "intro_new past = (if past then Intro_Dismissed else Intro_Pending)"

text \<open>The \<^verbatim>\<open>u8\<close> countdown starts at two and only ever goes down.\<close>

datatype startup_pause = No_Pause | Holding nat

definition startup_pause_new :: "bool \<Rightarrow> startup_pause" where
  "startup_pause_new active = (if active then Holding 2 else No_Pause)"

fun consume_event :: "startup_pause \<Rightarrow> bool \<times> startup_pause" where
  "consume_event No_Pause = (False, No_Pause)"
| "consume_event (Holding n) = (if n > 0 then (True, Holding (n - 1)) else (False, Holding n))"

section \<open>The active item\<close>

record active_item_state =
  ai_osd_title :: string
  ai_last_valid_pos :: i64
  ai_series_id :: string
  ai_season :: i64
  ai_episode :: i64
  ai_intro :: intro_state

definition default_item_state :: active_item_state where
  "default_item_state = \<lparr>ai_osd_title = [], ai_last_valid_pos = 0, ai_series_id = [],
     ai_season = 0, ai_episode = 0, ai_intro = Intro_Pending\<rparr>"

definition resumable_position :: "i64 \<Rightarrow> u64 option \<Rightarrow> i64" where
  "resumable_position position_ticks duration =
     (let runtime = i64_of_u64_or_max (case duration of Some d \<Rightarrow> d | None \<Rightarrow> 0) in
      if should_resume position_ticks runtime then position_ticks else 0)"

fun active_item_state_of :: "queue_item option \<Rightarrow> active_item_state" where
  "active_item_state_of (Some (QI_Emby it)) =
     (let st = default_item_state\<lparr>ai_osd_title := emby_display_name it,
            ai_last_valid_pos :=
              (if emby_is_audio it then 0 else emby_playback_position_ticks it)\<rparr>
      in if emby_item_type it = ''Episode''
         then st\<lparr>ai_series_id := emby_series_id it, ai_season := emby_parent_index_number it,
                 ai_episode := emby_index_number it\<rparr>
         else st)"
| "active_item_state_of (Some (QI_Feed e)) =
     default_item_state\<lparr>ai_osd_title := feed_title e,
       ai_last_valid_pos := resumable_position (feed_position_ticks e) (feed_duration_ticks e)\<rparr>"
| "active_item_state_of (Some (QI_Audiobookshelf (ABS_Episode e))) =
     default_item_state\<lparr>ai_osd_title := ep_title e,
       ai_last_valid_pos := resumable_position (ep_position_ticks e) (ep_duration_ticks e)\<rparr>"
| "active_item_state_of (Some (QI_Audiobookshelf (ABS_Book b))) =
     default_item_state\<lparr>ai_osd_title := book_title b,
       ai_last_valid_pos := resumable_position (book_position_ticks b) (book_duration_ticks b)\<rparr>"
| "active_item_state_of (Some (QI_Twitch t)) =
     default_item_state\<lparr>ai_osd_title := twitch_title t\<rparr>"
| "active_item_state_of None = default_item_state"

text \<open>The separate function that seeds a new run from its first item.\<close>

record initial_item_state =
  ii_position_ticks :: i64
  ii_osd_title :: string
  ii_series_id :: string
  ii_season :: i64
  ii_episode :: i64
  ii_intro_start :: i64
  ii_intro_end :: i64
  ii_past :: bool

fun initial_item_state_of :: "queue_item \<Rightarrow> initial_item_state" where
  "initial_item_state_of (QI_Emby it) =
     (let position_ticks = (if emby_is_audio it then 0 else emby_playback_position_ticks it);
          intro_start = 0; intro_end = 0
      in \<lparr>ii_position_ticks = position_ticks, ii_osd_title = emby_display_name it,
          ii_series_id = (if emby_item_type it = ''Episode'' then emby_series_id it else []),
          ii_season = emby_parent_index_number it, ii_episode = emby_index_number it,
          ii_intro_start = intro_start, ii_intro_end = intro_end,
          ii_past = (intro_end > 0 \<and> position_ticks \<ge> intro_end)\<rparr>)"
| "initial_item_state_of (QI_Feed e) =
     \<lparr>ii_position_ticks = resumable_position (feed_position_ticks e) (feed_duration_ticks e),
      ii_osd_title = feed_title e, ii_series_id = [], ii_season = 0, ii_episode = 0,
      ii_intro_start = 0, ii_intro_end = 0, ii_past = False\<rparr>"
| "initial_item_state_of (QI_Twitch t) =
     \<lparr>ii_position_ticks = 0, ii_osd_title = twitch_title t, ii_series_id = [], ii_season = 0,
      ii_episode = 0, ii_intro_start = 0, ii_intro_end = 0, ii_past = False\<rparr>"
| "initial_item_state_of (QI_Audiobookshelf a) =
     \<lparr>ii_position_ticks = resumable_position (abs_playback_position_ticks a) (abs_duration a),
      ii_osd_title = abs_title a, ii_series_id = [], ii_season = 0, ii_episode = 0,
      ii_intro_start = 0, ii_intro_end = 0, ii_past = False\<rparr>"

definition resolve_jump_target :: "queue_slot_id list \<Rightarrow> queue_slot_id \<Rightarrow> usize option" where
  "resolve_jump_target slots target = position (\<lambda>s. s = target) slots"

section \<open>Next Up\<close>

datatype next_up_target = Fire_Queue usize | Fire_Standalone

record next_up_decision =
  nd_reset :: bool
  nd_arm :: bool
  nd_fire :: "next_up_target option"

definition no_decision :: next_up_decision where
  "no_decision = \<lparr>nd_reset = False, nd_arm = False, nd_fire = None\<rparr>"

definition queue_next_up_decision ::
  "next_up \<Rightarrow> usize option \<Rightarrow> bool \<Rightarrow> bool \<Rightarrow> i64 \<Rightarrow> i64 \<Rightarrow> next_up_decision" where
  "queue_next_up_decision state next_idx current_is_episode next_is_episode runtime ticks =
     (let MIN_RUNTIME = 600 * TICKS_PER_SECOND;
          MIN_REMAIN = 20 * TICKS_PER_SECOND;
          WINDOW = 60 * TICKS_PER_SECOND;
          ARM_WINDOW = 5 * TICKS_PER_SECOND
      in case next_idx of
           None \<Rightarrow> no_decision
         | Some idx \<Rightarrow>
             if \<not> current_is_episode \<or> \<not> next_is_episode \<or> runtime \<le> 0 then no_decision
             else
               (let show_at = runtime - WINDOW;
                    reset = (next_up_is_fired state \<and> ticks < show_at);
                    st = (if reset then NU_Idle else state)
                in if next_up_is_fired st \<or> runtime < MIN_RUNTIME
                   then no_decision\<lparr>nd_reset := reset\<rparr>
                   else if wrap_i64 (runtime - ticks) \<ge> MIN_REMAIN \<and> ticks \<ge> show_at
                   then no_decision\<lparr>nd_reset := reset, nd_fire := Some (Fire_Queue idx)\<rparr>
                   else \<lparr>nd_reset = reset,
                         nd_arm = (st = NU_Idle \<and> ticks > 0 \<and> ticks < ARM_WINDOW),
                         nd_fire = None\<rparr>))"

definition standalone_next_up_decision ::
  "next_up \<Rightarrow> bool \<Rightarrow> i64 \<Rightarrow> i64 \<Rightarrow> next_up_decision" where
  "standalone_next_up_decision state has_series runtime ticks =
     (let WINDOW = 60 * TICKS_PER_SECOND;
          ARM_WINDOW = 5 * TICKS_PER_SECOND;
          arm = (state = NU_Idle \<and> ticks > 0 \<and> ticks < ARM_WINDOW)
      in if next_up_is_fired state then no_decision
         else if \<not> has_series then no_decision\<lparr>nd_arm := arm\<rparr>
         else if runtime > WINDOW \<and> ticks > runtime - WINDOW
         then no_decision\<lparr>nd_fire := Some Fire_Standalone\<rparr>
         else no_decision\<lparr>nd_arm := arm\<rparr>)"

text \<open>
  \<^verbatim>\<open>maybe_fire_queue_next_up\<close>: the decision applied to the run's Next Up state, with the index
  announced in \<^verbatim>\<open>QueueNextUp\<close>, if any. \<open>item_at\<close> reads the run's queue.
\<close>

definition maybe_fire_queue_next_up ::
  "queue_item option \<Rightarrow> (usize \<Rightarrow> queue_item option) \<Rightarrow> usize \<Rightarrow> usize \<Rightarrow> i64 \<Rightarrow> i64 \<Rightarrow> next_up
   \<Rightarrow> next_up \<times> usize option" where
  "maybe_fire_queue_next_up active_item item_at current_idx queue_len runtime ticks state =
     (let current_is_episode = (case active_item of Some it \<Rightarrow> qi_is_tv_episode it | None \<Rightarrow> False);
          next_idx = opt_filter (\<lambda>i. i < queue_len)
            (if current_is_episode then Some (current_idx + 1) else None);
          next_is_episode =
            (case next_idx of
               Some i \<Rightarrow> (case item_at i of Some it \<Rightarrow> qi_is_tv_episode it | None \<Rightarrow> False)
             | None \<Rightarrow> False);
          d = queue_next_up_decision state next_idx current_is_episode next_is_episode runtime ticks;
          st = (if nd_reset d then next_up_reset state else state)
      in (case nd_fire d of
            Some (Fire_Queue i) \<Rightarrow> (next_up_fire st, Some i)
          | _ \<Rightarrow> if nd_arm d then (next_up_arm st, None) else (st, None)))"

definition maybe_fire_standalone_next_up ::
  "bool \<Rightarrow> i64 \<Rightarrow> i64 \<Rightarrow> next_up \<Rightarrow> next_up \<times> bool" where
  "maybe_fire_standalone_next_up has_series runtime ticks state =
     (let d = standalone_next_up_decision state has_series runtime ticks
      in (case nd_fire d of
            Some Fire_Standalone \<Rightarrow> (next_up_fire state, True)
          | _ \<Rightarrow> if nd_arm d then (next_up_arm state, False) else (state, False)))"

text \<open>The positions at which a playback pass announces the next episode.\<close>

fun queue_next_up_pass ::
  "queue_item option \<Rightarrow> (usize \<Rightarrow> queue_item option) \<Rightarrow> usize \<Rightarrow> usize \<Rightarrow> i64 \<Rightarrow> i64 list \<Rightarrow> next_up
   \<Rightarrow> i64 list" where
  "queue_next_up_pass act item_at cur n runtime [] st = []"
| "queue_next_up_pass act item_at cur n runtime (t # ts) st =
     (let (st', fired) = maybe_fire_queue_next_up act item_at cur n runtime t st in
      (if fired = None then [] else [t]) @ queue_next_up_pass act item_at cur n runtime ts st')"

definition both_episodes ::
  "queue_item option \<Rightarrow> (usize \<Rightarrow> queue_item option) \<Rightarrow> usize \<Rightarrow> usize \<Rightarrow> bool" where
  "both_episodes act item_at cur n \<longleftrightarrow>
     (case act of Some it \<Rightarrow> qi_is_tv_episode it | None \<Rightarrow> False) \<and> cur + 1 < n
     \<and> (case item_at (cur + 1) of Some it \<Rightarrow> qi_is_tv_episode it | None \<Rightarrow> False)"

text \<open>The positions in the last minute with at least twenty seconds left.\<close>

definition in_next_up_window :: "i64 \<Rightarrow> i64 \<Rightarrow> bool" where
  "in_next_up_window runtime t \<longleftrightarrow>
     runtime - 60 * TICKS_PER_SECOND \<le> t \<and> t \<le> runtime - 20 * TICKS_PER_SECOND"

lemma sub_in_range: "0 \<le> t \<Longrightarrow> is_i64 t \<Longrightarrow> is_i64 r \<Longrightarrow> 0 < r \<Longrightarrow> wrap_i64 (r - t) = r - t"
  by (simp add: is_i64_def)

lemma decision_unfired:
  assumes "st \<noteq> NU_Fired" "0 \<le> t" "is_i64 t" "is_i64 runtime"
  shows "nd_reset (queue_next_up_decision st nx c e runtime t) = False"
    "nd_fire (queue_next_up_decision st nx c e runtime t)
      = (case nx of None \<Rightarrow> None | Some idx \<Rightarrow>
          if c \<and> e \<and> 600 * TICKS_PER_SECOND \<le> runtime \<and> in_next_up_window runtime t
          then Some (Fire_Queue idx) else None)"
proof -
  have unfired: "next_up_is_fired st = False"
    using assms(1) by (cases st) (auto simp: next_up_is_fired_def)
  show "nd_reset (queue_next_up_decision st nx c e runtime t) = False"
    by (cases nx) (simp_all add: queue_next_up_decision_def unfired no_decision_def Let_def)
  have "wrap_i64 (runtime - t) = runtime - t" if "0 < runtime"
    using sub_in_range assms(2-4) that by simp
  then show "nd_fire (queue_next_up_decision st nx c e runtime t)
      = (case nx of None \<Rightarrow> None | Some idx \<Rightarrow>
          if c \<and> e \<and> 600 * TICKS_PER_SECOND \<le> runtime \<and> in_next_up_window runtime t
          then Some (Fire_Queue idx) else None)"
    by (cases nx) (auto simp: queue_next_up_decision_def unfired no_decision_def Let_def
        in_next_up_window_def TICKS_PER_SECOND_def)
qed

lemma decision_fired:
  assumes "runtime - 60 * TICKS_PER_SECOND \<le> t"
  shows "queue_next_up_decision NU_Fired nx c e runtime t = no_decision"
  using assms by (cases nx) (auto simp: queue_next_up_decision_def no_decision_def Let_def
      next_up_is_fired_def)

lemma maybe_fire_fired:
  assumes "runtime - 60 * TICKS_PER_SECOND \<le> t"
  shows "maybe_fire_queue_next_up act item_at cur n runtime t NU_Fired = (NU_Fired, None)"
  unfolding maybe_fire_queue_next_up_def Let_def decision_fired [OF assms]
  by (simp add: no_decision_def)

lemma maybe_fire_unfired:
  assumes "st \<noteq> NU_Fired" "0 \<le> t" "is_i64 t" "is_i64 runtime"
  shows "\<exists>st'. maybe_fire_queue_next_up act item_at cur n runtime t st
      = (if both_episodes act item_at cur n \<and> 600 * TICKS_PER_SECOND \<le> runtime
            \<and> in_next_up_window runtime t
         then (NU_Fired, Some (cur + 1)) else (st', None)) \<and> st' \<noteq> NU_Fired"
proof -
  have arm: "next_up_arm st \<noteq> NU_Fired"
    using assms(1) by (cases st) (auto simp: next_up_arm_def)
  show ?thesis
    unfolding maybe_fire_queue_next_up_def Let_def decision_unfired [OF assms]
    using assms(1) arm
    by (cases "case act of Some it \<Rightarrow> qi_is_tv_episode it | None \<Rightarrow> False"; cases "cur + 1 < n")
      (auto simp: both_episodes_def next_up_fire_def split: if_splits)
qed

lemma next_up_pass_fired:
  "list_all (\<lambda>t. runtime - 60 * TICKS_PER_SECOND \<le> t) ts \<Longrightarrow>
     queue_next_up_pass act item_at cur n runtime ts NU_Fired = []"
  by (induction ts) (auto simp: maybe_fire_fired)

lemma next_up_pass_quiet:
  assumes "st \<noteq> NU_Fired" "is_i64 runtime" "list_all (\<lambda>t. 0 \<le> t \<and> is_i64 t) ts"
    and "\<not> (both_episodes act item_at cur n \<and> 600 * TICKS_PER_SECOND \<le> runtime)"
  shows "queue_next_up_pass act item_at cur n runtime ts st = []"
  using assms(1,3)
proof (induction ts arbitrary: st)
  case (Cons t ts)
  from Cons.prems assms(2) maybe_fire_unfired [of st t runtime act item_at cur n] assms(4)
  obtain st' where "maybe_fire_queue_next_up act item_at cur n runtime t st = (st', None)"
    "st' \<noteq> NU_Fired" by auto
  with Cons show ?case by simp
qed simp

lemma next_up_pass_once:
  assumes "st \<noteq> NU_Fired" "is_i64 runtime"
    and "list_all (\<lambda>t. 0 \<le> t \<and> is_i64 t) ts"
    and "both_episodes act item_at cur n" "600 * TICKS_PER_SECOND \<le> runtime"
    and "\<forall>i j. i < j \<longrightarrow> j < length ts \<longrightarrow> in_next_up_window runtime (ts ! i)
           \<longrightarrow> runtime - 60 * TICKS_PER_SECOND \<le> ts ! j"
  shows "queue_next_up_pass act item_at cur n runtime ts st
    = as_list (List.find (in_next_up_window runtime) ts)"
  using assms(1,3,6)
proof (induction ts arbitrary: st)
  case (Cons t ts)
  have later: "\<forall>i j. i < j \<longrightarrow> j < length ts \<longrightarrow> in_next_up_window runtime (ts ! i)
           \<longrightarrow> runtime - 60 * TICKS_PER_SECOND \<le> ts ! j"
    using Cons.prems(3) by (metis Suc_less_eq length_Cons nth_Cons_Suc)
  show ?case
  proof (cases "in_next_up_window runtime t")
    case True
    have "runtime - 60 * TICKS_PER_SECOND \<le> ts ! j" if "j < length ts" for j
      using Cons.prems(3) that True by (metis Suc_less_eq length_Cons nth_Cons_0 nth_Cons_Suc zero_less_Suc)
    then have "list_all (\<lambda>t. runtime - 60 * TICKS_PER_SECOND \<le> t) ts"
      by (simp add: list_all_length)
    with True maybe_fire_unfired [of st t runtime act item_at cur n] assms Cons.prems show ?thesis
      by (auto simp: next_up_pass_fired)
  next
    case False
    with maybe_fire_unfired [of st t runtime act item_at cur n] assms Cons.prems
    obtain st' where "maybe_fire_queue_next_up act item_at cur n runtime t st = (st', None)"
      "st' \<noteq> NU_Fired" by auto
    with Cons.IH [of st'] Cons.prems later False show ?thesis by simp
  qed
qed simp

text \<open>
  Next Up is offered once. While an episode of at least ten minutes plays with another
  episode behind it, the next entry is announced at the first reported position in the last
  minute that leaves at least twenty seconds, and then not again for as long as playback does
  not go back to before the last minute; for anything else nothing is announced.
\<close>

theorem next_up_offered_once:
  assumes "st \<noteq> NU_Fired" "is_i64 runtime" "list_all (\<lambda>t. 0 \<le> t \<and> is_i64 t) ts"
    and "\<forall>i j. i < j \<longrightarrow> j < length ts \<longrightarrow> in_next_up_window runtime (ts ! i)
           \<longrightarrow> runtime - 60 * TICKS_PER_SECOND \<le> ts ! j"
  shows "queue_next_up_pass act item_at cur n runtime ts st
    = (if both_episodes act item_at cur n \<and> 600 * TICKS_PER_SECOND \<le> runtime
       then as_list (List.find (in_next_up_window runtime) ts) else [])"
  using next_up_pass_once [OF assms(1-3) _ _ assms(4)] next_up_pass_quiet [OF assms(1-3)]
  by auto

definition sample_episode :: queue_item where
  "sample_episode = QI_Emby ((emby_folder ''e'' ''E'' [])\<lparr>emby_item_type := ''Episode''\<rparr>)"

lemma next_up_offered_once_witness:
  "queue_next_up_pass (Some sample_episode) (\<lambda>_. Some sample_episode) 0 2 12000000000
     [100, 11500000000, 11600000000, 11900000000] NU_Idle = [11500000000]"
proof -
  have window: "\<forall>i j. i < j \<longrightarrow> j < length [100, 11500000000, 11600000000, 11900000000 :: int] \<longrightarrow>
      in_next_up_window 12000000000 ([100, 11500000000, 11600000000, 11900000000] ! i) \<longrightarrow>
      12000000000 - 60 * TICKS_PER_SECOND \<le> [100, 11500000000, 11600000000, 11900000000] ! j"
    by (auto simp: in_next_up_window_def TICKS_PER_SECOND_def nth_Cons' split: if_splits)
  have "both_episodes (Some sample_episode) (\<lambda>_. Some sample_episode) 0 2"
    by (simp add: both_episodes_def sample_episode_def)
  with next_up_offered_once [of NU_Idle 12000000000 _ "Some sample_episode" "\<lambda>_. Some sample_episode"
      0 2, OF _ _ _ window] show ?thesis
    by (simp add: is_i64_def in_next_up_window_def TICKS_PER_SECOND_def)
qed

section \<open>The state of the item that plays\<close>

lemma resumable_position_cases:
  "resumable_position p d = p \<or> resumable_position p d = 0"
  by (simp add: resumable_position_def Let_def)

text \<open>
  A run seeded with an item and a run that advances to it start from the same state: the
  same position, title and series, the intro not yet past; and the same season and episode
  numbers for every item but an Emby item that is no episode. A resumed position is the
  item's own stored position, and audio and Twitch items start at the beginning.
\<close>

theorem item_state_agrees:
  "(let ini = initial_item_state_of it; act = active_item_state_of (Some it) in
     ii_position_ticks ini = ai_last_valid_pos act
     \<and> ii_osd_title ini = ai_osd_title act
     \<and> ii_series_id ini = ai_series_id act
     \<and> intro_new (ii_past ini) = ai_intro act
     \<and> (qi_is_tv_episode it \<or> qi_as_emby it = None
          \<longrightarrow> ii_season ini = ai_season act \<and> ii_episode ini = ai_episode act)
     \<and> ii_position_ticks ini \<in> {0, qi_playback_position_ticks it}
     \<and> (qi_is_emby it \<and> qi_is_audio it \<longrightarrow> ii_position_ticks ini = 0))"
proof (cases it)
  case (QI_Audiobookshelf a)
  then show ?thesis
    using resumable_position_cases [of "abs_playback_position_ticks a" "abs_duration a"]
    by (cases a) (auto simp: Let_def default_item_state_def intro_new_def)
next
  case (QI_Feed e)
  then show ?thesis
    using resumable_position_cases [of "feed_position_ticks e" "feed_duration_ticks e"]
    by (auto simp: Let_def default_item_state_def intro_new_def)
qed (auto simp: Let_def default_item_state_def intro_new_def)

definition sample_video :: queue_item where
  "sample_video = QI_Emby ((emby_folder ''v'' ''V'' [])
     \<lparr>emby_item_type := ''Episode'', emby_playback_position_ticks := 70\<rparr>)"

lemma item_state_agrees_witness:
  "ii_season (initial_item_state_of sample_video)
     = ai_season (active_item_state_of (Some sample_video))
   \<and> ai_last_valid_pos (active_item_state_of (Some sample_video)) = 70"
  using item_state_agrees [of sample_video]
  by (simp add: Let_def sample_video_def emby_is_audio_def emby_folder_def)

section \<open>Completion outcomes\<close>

text \<open>The near-end rule: \<open>position \<times> 20 / runtime \<ge> 19\<close> in 64-bit arithmetic.\<close>

definition is_near_end :: "bool \<Rightarrow> bool \<Rightarrow> i64 \<Rightarrow> i64 \<Rightarrow> bool" where
  "is_near_end is_audio natural last_valid_pos runtime_ticks \<longleftrightarrow>
     \<not> natural \<and> \<not> is_audio \<and> runtime_ticks > 0
     \<and> tick_div (wrap_i64 (last_valid_pos * 20)) runtime_ticks \<ge> 19"

definition queue_completed_pos :: "bool \<Rightarrow> i64 \<Rightarrow> i64" where
  "queue_completed_pos is_audio last_valid_pos = (if is_audio then 0 else last_valid_pos)"

datatype playback_origin = Standalone | Origin_Queue

definition quit_timeout_stop_flags ::
  "playback_origin \<Rightarrow> bool \<Rightarrow> i64 \<Rightarrow> i64 \<Rightarrow> bool \<Rightarrow> bool \<times> bool" where
  "quit_timeout_stop_flags origin is_audio last_valid_pos runtime_ticks stopped_near_end =
     (case origin of
        Standalone \<Rightarrow> (is_near_end is_audio False last_valid_pos runtime_ticks, False)
      | Origin_Queue \<Rightarrow> (stopped_near_end, stopped_near_end))"

datatype end_file_reason = EF_Eof | EF_Stop | EF_Quit | EF_Redirect
datatype stop_report_context = Ordinary | ShutdownAware

definition end_file_stop_report_context :: "end_file_reason \<Rightarrow> stop_report_context" where
  "end_file_stop_report_context r = (if r = EF_Quit then ShutdownAware else Ordinary)"

datatype completed_media = Media_Audio | Media_Video
datatype finish_reason = Natural | NearEnd | Finish_NextUp | Unfinished

record advance_decision_input =
  ad_media :: completed_media
  ad_finish :: finish_reason
  ad_last_valid_pos :: i64

definition advance_decision :: "advance_decision_input \<Rightarrow> bool \<times> bool \<times> bool \<times> i64" where
  "advance_decision inp =
     (let finished = (ad_finish inp \<noteq> Unfinished);
          played = (finished \<and> ad_media inp = Media_Video);
          pos = queue_completed_pos (ad_media inp = Media_Audio) (ad_last_valid_pos inp)
      in (finished, played, finished, pos))"

text \<open>
  The completed track's outcome as \<^verbatim>\<open>on_end_file_queue\<close> computes it from the end-file reason,
  the active item's runtime and the pending Next Up jump.
\<close>

definition completed_outcome ::
  "end_file_reason \<Rightarrow> bool \<Rightarrow> bool \<Rightarrow> i64 \<Rightarrow> i64 \<Rightarrow> bool \<times> bool \<times> bool \<times> i64" where
  "completed_outcome reason is_audio was_next_up last_valid_pos runtime =
     (let natural = (reason = EF_Eof \<and> runtime > 0);
          near_end = is_near_end is_audio natural last_valid_pos runtime
      in advance_decision
           \<lparr>ad_media = (if is_audio then Media_Audio else Media_Video),
            ad_finish = (if natural then Natural else if near_end then NearEnd
                         else if was_next_up then Finish_NextUp else Unfinished),
            ad_last_valid_pos = last_valid_pos\<rparr>)"

definition is_superseded_jump_end_file :: "end_file_reason \<Rightarrow> jump_arm \<Rightarrow> bool \<Rightarrow> bool" where
  "is_superseded_jump_end_file reason arm track_finished \<longleftrightarrow>
     (reason = EF_Stop \<or> reason = EF_Redirect) \<and> \<not> track_finished
     \<and> (case arm of Arm_Pending j \<Rightarrow> fj_transition j = None | _ \<Rightarrow> True)"

definition provider_lifecycle_close_pos :: "queue_item \<Rightarrow> bool \<Rightarrow> i64 \<Rightarrow> i64 \<Rightarrow> i64" where
  "provider_lifecycle_close_pos it natural_end runtime last_valid_pos =
     (if qi_is_audiobookshelf it \<and> natural_end then max runtime 0 else last_valid_pos)"

lemma tick_div_pos: "0 \<le> a \<Longrightarrow> 0 < b \<Longrightarrow> tick_div a b = a div b"
  by (cases "a = 0") (auto simp: tick_div_def)

lemma tick_div_neg: "a < 0 \<Longrightarrow> 0 < b \<Longrightarrow> tick_div a b \<le> 0"
  by (simp add: tick_div_def pos_imp_zdiv_nonneg_iff)

lemma le_div_int:
  assumes "0 < b" shows "k \<le> a div b \<longleftrightarrow> k * b \<le> (a :: int)"
proof
  assume "k \<le> a div b"
  then have "k * b \<le> a div b * b" using assms by (simp add: mult_right_mono)
  also have "\<dots> \<le> a"
    using div_mult_mod_eq [of a b] pos_mod_sign [OF assms, of a] by linarith
  finally show "k * b \<le> a" .
next
  assume "k * b \<le> a"
  from zdiv_mono1 [OF this assms] assms show "k \<le> a div b" by simp
qed

lemma near_end_iff:
  assumes "is_i64 (pos * 20)"
  shows "is_near_end False False pos rt \<longleftrightarrow> 0 < rt \<and> 19 * rt \<le> 20 * pos"
proof (cases "0 < rt")
  case True
  have "tick_div (pos * 20) rt \<ge> 19 \<longleftrightarrow> 19 * rt \<le> 20 * pos"
  proof (cases "0 \<le> pos")
    case nonneg: True
    have "19 \<le> (pos * 20) div rt \<longleftrightarrow> 19 * rt \<le> pos * 20"
      using le_div_int [OF True] by simp
    with nonneg True show ?thesis by (simp add: tick_div_pos mult.commute)
  next
    case False
    with True tick_div_neg [of "pos * 20" rt] have "tick_div (pos * 20) rt \<le> 0" by simp
    with True False show ?thesis by linarith
  qed
  with True assms show ?thesis by (simp add: is_near_end_def)
qed (simp add: is_near_end_def)

text \<open>
  The outcome of a track that ended in a queue. It counts as finished, and may be
  consumed, when mpv reached the end of a file with a known runtime, when a video stopped
  with at most a twentieth of its runtime left, or when Next Up moved on; only a finished
  video counts as played; and the reported position is zero for audio and the last observed
  one for video. Positions up to a twentieth of the 64-bit range are judged without
  overflow.
\<close>

theorem completed_outcome_rule:
  assumes "is_i64 (20 * pos)"
  shows "(let (finished, played, consume, p) = completed_outcome reason audio next_up pos rt in
     (finished \<longleftrightarrow> reason = EF_Eof \<and> 0 < rt \<or> \<not> audio \<and> 0 < rt \<and> 19 * rt \<le> 20 * pos
        \<or> next_up)
     \<and> (played \<longleftrightarrow> finished \<and> \<not> audio) \<and> consume = finished
     \<and> p = (if audio then 0 else pos))"
  using near_end_iff [of pos rt] assms
  by (cases "reason = EF_Eof \<and> 0 < rt"; cases audio)
    (auto simp: completed_outcome_def advance_decision_def queue_completed_pos_def Let_def
      mult.commute is_near_end_def [of True] is_near_end_def [of _ True])

lemma completed_outcome_rule_witness:
  "(let (finished, played, consume, p) =
       completed_outcome EF_Stop False False 58000000000 60000000000
    in finished \<and> played \<and> consume \<and> p = 58000000000)"
  using completed_outcome_rule [of 58000000000 EF_Stop False False 60000000000]
  by (simp add: is_i64_def split_beta Let_def)

end
