(* ===== verification/Run_Playlist.thy ===== *)
theory Run_Playlist
  imports Run_Decisions
begin

text \<open>
  The playlist side of a run: how a queue is loaded into mpv (\<^verbatim>\<open>mbv-player/src/lib.rs\<close>), how
  removals, moves and reorders of the execution sequence are mirrored there
  (\<^verbatim>\<open>run/queue_commands.rs\<close>, \<^verbatim>\<open>runtime.rs\<close>), and what the run does when mpv's playlist
  drifts from it (\<^verbatim>\<open>run/events/playlist_drift.rs\<close>). mpv is not part of the repository: the
  run's commands are collected in a log, and mpv's documented effect of a command on a
  playlist is a parameter with named hypotheses.
\<close>

section \<open>Loading a queue\<close>

definition queue_load_indices :: "usize \<Rightarrow> usize \<Rightarrow> usize list" where
  "queue_load_indices len start_idx = start_idx # [0..<start_idx] @ [start_idx + 1..<len]"

definition queue_load_location :: "usize \<Rightarrow> usize \<Rightarrow> string \<times> string" where
  "queue_load_location index start_idx =
     (if index < start_idx then (''insert-at'', dec index) else (''append'', ''-1''))"

definition active_file_load_location :: "string \<times> string" where
  "active_file_load_location = (''replace'', ''-1'')"

text \<open>
  mpv's \<^verbatim>\<open>loadfile\<close>: \<open>load mode index entry\<close> is the playlist after the command. Documented
  for the two modes of the plan: \<^verbatim>\<open>append\<close> adds at the end, \<^verbatim>\<open>insert-at\<close> inserts at the index.
\<close>

definition loadfile_documented :: "(string \<Rightarrow> string \<Rightarrow> 'e \<Rightarrow> 'e list \<Rightarrow> 'e list) \<Rightarrow> bool" where
  "loadfile_documented load \<longleftrightarrow>
     (\<forall>e xs. load ''append'' ''-1'' e xs = xs @ [e])
     \<and> (\<forall>i e xs. i \<le> length xs \<longrightarrow> load ''insert-at'' (dec i) e xs = insert_at i e xs)"

definition load_queue ::
  "(string \<Rightarrow> string \<Rightarrow> 'e \<Rightarrow> 'e list \<Rightarrow> 'e list) \<Rightarrow> 'e list \<Rightarrow> usize \<Rightarrow> 'e list \<Rightarrow> 'e list" where
  "load_queue load items start_idx =
     fold (\<lambda>i. case queue_load_location i start_idx of (mode, index) \<Rightarrow> load mode index (items ! i))
       (queue_load_indices (length items) start_idx)"

lemma upt_around: "k < n \<Longrightarrow> [0..<n] = [0..<k] @ k # [Suc k..<n]"
  using upt_add_eq_append [of 0 k "n - k"] upt_conv_Cons [of k n] by simp

lemma load_before:
  assumes "loadfile_documented load" "k \<le> start_idx"
  shows "fold (\<lambda>i. case queue_load_location i start_idx of (mode, index) \<Rightarrow> load mode index (items ! i))
      [0..<k] [x] = map (nth items) [0..<k] @ [x]"
  using assms(2)
proof (induction k)
  case (Suc k)
  have "load ''insert-at'' (dec k) (items ! k) (map (nth items) [0..<k] @ [x])
      = insert_at k (items ! k) (map (nth items) [0..<k] @ [x])"
    using assms(1) by (simp add: loadfile_documented_def)
  also have "\<dots> = map (nth items) [0..<k] @ [items ! k, x]"
    by (simp add: insert_at_def)
  finally show ?case using Suc by (simp add: queue_load_location_def)
qed simp

lemma load_after:
  assumes "loadfile_documented load" "start_idx < k"
  shows "fold (\<lambda>i. case queue_load_location i start_idx of (mode, index) \<Rightarrow> load mode index (items ! i))
      [k..<m] xs = xs @ map (nth items) [k..<m]"
proof (induction m)
  case (Suc m)
  have "load ''append'' ''-1'' e ys = ys @ [e]" for e ys
    using assms(1) by (simp add: loadfile_documented_def)
  with Suc assms(2) show ?case by (simp add: queue_load_location_def)
qed simp

text \<open>
  The load plan builds the whole playlist in queue order: whatever slot playback starts
  at, loading the start slot first, the earlier ones inserted before it and the later ones
  appended leaves an empty mpv playlist holding every item exactly once, in order, with the
  start slot at its own index.
\<close>

theorem load_plan_builds_queue:
  assumes "loadfile_documented load" "start_idx < length items"
  shows "load_queue load items start_idx [] = items
    \<and> mset (queue_load_indices (length items) start_idx) = mset [0..<length items]"
proof -
  have first: "load ''append'' ''-1'' (items ! start_idx) [] = [items ! start_idx]"
    using assms(1) by (simp add: loadfile_documented_def)
  have "load_queue load items start_idx []
      = map (nth items) [0..<start_idx] @ items ! start_idx # map (nth items) [Suc start_idx..<length items]"
    using load_before [OF assms(1) order_refl, of items start_idx "items ! start_idx"]
      load_after [OF assms(1), of start_idx "Suc start_idx" items]
    by (simp add: load_queue_def queue_load_indices_def)
      (simp add: queue_load_location_def first)
  also have "\<dots> = map (nth items) ([0..<start_idx] @ [start_idx] @ [Suc start_idx..<length items])"
    by simp
  also have "[0..<start_idx] @ [start_idx] @ [Suc start_idx..<length items] = [0..<length items]"
    using upt_around [OF assms(2)] by simp
  finally have "load_queue load items start_idx [] = items" by (simp add: map_nth)
  moreover have "mset (queue_load_indices (length items) start_idx) = mset [0..<length items]"
    unfolding upt_around [OF assms(2)] by (simp add: queue_load_indices_def)
  ultimately show ?thesis by simp
qed

definition sample_loadfile :: "string \<Rightarrow> string \<Rightarrow> 'e \<Rightarrow> 'e list \<Rightarrow> 'e list" where
  "sample_loadfile mode index e xs =
     (if mode = ''append'' then xs @ [e] else insert_at (undec index) e xs)"

lemma load_plan_builds_queue_witness:
  "load_queue sample_loadfile [1, 2, 3 :: nat] 1 [] = [1, 2, 3]"
proof -
  have "loadfile_documented (sample_loadfile :: _ \<Rightarrow> _ \<Rightarrow> nat \<Rightarrow> _)"
    by (simp add: loadfile_documented_def sample_loadfile_def undec_dec)
  from load_plan_builds_queue [OF this, of 1 "[1, 2, 3]"] show ?thesis by simp
qed

datatype queue_layout_verdict = Layout_Ok | Reassert | ShortLayout

text \<open>\<^verbatim>\<open>usize::try_from\<close> of an \<^verbatim>\<open>i64\<close>.\<close>

definition usize_of_i64 :: "i64 \<Rightarrow> usize option" where
  "usize_of_i64 v = (if v < 0 then None else Some (nat v))"

definition queue_layout_verdict_of :: "usize \<Rightarrow> usize \<Rightarrow> i64 \<Rightarrow> i64 \<Rightarrow> bool \<Rightarrow> queue_layout_verdict" where
  "queue_layout_verdict_of start_idx item_count mpv_pos mpv_count mpv_idle =
     (if usize_of_i64 mpv_count \<noteq> Some item_count then ShortLayout
      else if usize_of_i64 mpv_pos = Some start_idx \<and> \<not> mpv_idle then Layout_Ok
      else Reassert)"

definition divergent_entry :: "i64 \<Rightarrow> usize \<Rightarrow> usize \<Rightarrow> usize option" where
  "divergent_entry pos current_idx queue_len =
     (if pos < 0 then None
      else case usize_of_i64 pos of
             None \<Rightarrow> None
           | Some index \<Rightarrow>
               (if index < queue_len \<and> index \<noteq> current_idx then Some index else None))"

section \<open>Moving an entry\<close>

definition shift_index_for_move :: "usize \<Rightarrow> usize \<Rightarrow> usize \<Rightarrow> usize" where
  "shift_index_for_move idx from to =
     (if idx = from then to
      else if from < idx \<and> idx \<le> to then idx - 1
      else if to \<le> idx \<and> idx < from then idx + 1
      else idx)"

definition playlist_move_args :: "usize \<Rightarrow> usize \<Rightarrow> usize \<times> usize" where
  "playlist_move_args from to = (from, if from < to then to + 1 else to)"

definition move_entry :: "usize \<Rightarrow> usize \<Rightarrow> 'e list \<Rightarrow> 'e list" where
  "move_entry from to xs = insert_at to (xs ! from) (remove_at from xs)"

text \<open>
  mpv's manual on \<^verbatim>\<open>playlist-move\<close>: the entry at index1 takes the place of the entry at
  index2; the moved entry does not end up at index2 when index1 was lower, because index2
  names the target entry and not the index after the move.
\<close>

definition playlist_move_documented :: "(usize \<Rightarrow> usize \<Rightarrow> 'e list \<Rightarrow> 'e list) \<Rightarrow> bool" where
  "playlist_move_documented mv \<longleftrightarrow>
     (\<forall>i j xs. i < length xs \<longrightarrow> j \<le> length xs \<longrightarrow> i \<noteq> j \<longrightarrow>
        mv i j xs = (if i < j then take i xs @ drop (Suc i) (take j xs) @ xs ! i # drop j xs
                     else take j xs @ xs ! i # drop j (take i xs) @ drop (Suc i) xs))"

lemma move_entry_up:
  assumes "from < to" "to < length xs"
  shows "move_entry from to xs
    = take from xs @ drop (Suc from) (take (Suc to) xs) @ xs ! from # drop (Suc to) xs"
proof -
  have "take to (remove_at from xs) = take from xs @ take (to - from) (drop (Suc from) xs)"
    using assms by (simp add: remove_at_def)
  also have "take (to - from) (drop (Suc from) xs) = drop (Suc from) (take (Suc to) xs)"
    using assms by (simp add: take_drop)
  finally show ?thesis
    using assms by (simp add: move_entry_def insert_at_def) (simp add: remove_at_def)
qed

lemma move_entry_down:
  assumes "to < from" "from < length xs"
  shows "move_entry from to xs = take to xs @ xs ! from # drop to (take from xs) @ drop (Suc from) xs"
  using assms by (simp add: move_entry_def insert_at_def remove_at_def)

lemma playlist_move_mirrors:
  assumes "playlist_move_documented mv" "from < length xs" "to < length xs" "from \<noteq> to"
  shows "mv (fst (playlist_move_args from to)) (snd (playlist_move_args from to)) xs
    = move_entry from to xs"
proof (cases "from < to")
  case True
  then have "mv from (Suc to) xs = take from xs @ drop (Suc from) (take (Suc to) xs) @ xs ! from # drop (Suc to) xs"
    using assms by (simp add: playlist_move_documented_def)
  with True assms show ?thesis by (simp add: playlist_move_args_def move_entry_up)
next
  case False
  then have "to < from" using assms(4) by simp
  moreover from this have "mv from to xs = take to xs @ xs ! from # drop to (take from xs) @ drop (Suc from) xs"
    using assms by (simp add: playlist_move_documented_def)
  ultimately show ?thesis using assms by (simp add: playlist_move_args_def move_entry_down)
qed

text \<open>The shifted index names the same entry after the move.\<close>

lemma shift_index_tracks:
  assumes "from < length xs" "to < length xs" "idx < length xs"
  shows "move_entry from to xs ! shift_index_for_move idx from to = xs ! idx
    \<and> shift_index_for_move idx from to < length xs"
proof -
  have len: "length (remove_at from xs) = length xs - 1" using assms(1) by simp
  show ?thesis
    using assms len
    by (auto simp: move_entry_def shift_index_for_move_def nth_insert_at nth_remove_at)
qed

end
