(* ===== verification/Resume_Seam.thy ===== *)
theory Resume_Seam
  imports Playback_Queue Complex_Main
begin

text \<open>
  Where a queue item's start position comes from (\<^verbatim>\<open>mbv-player/src/resume.rs\<close>): the authority
  per item kind, the position each authority yields, the batched refresh from the Emby server
  with its retries, and the position of a jump target. Seconds (\<^verbatim>\<open>f64\<close>) are rational numbers:
  truncation and saturation are modelled, rounding is not. The server's answer to the
  \<open>k\<close>-th fetch is an argument; the sleeps between the attempts are not modelled.
\<close>

section \<open>Seconds and ticks\<close>

type_synonym seconds = rat

definition ticks_to_seconds :: "i64 \<Rightarrow> seconds" where
  "ticks_to_seconds ticks = of_int ticks / of_int TICKS_PER_SECOND"

text \<open>Rust's cast of a float to \<^verbatim>\<open>i64\<close>: towards zero, saturating.\<close>

definition saturating_i64_from_f64 :: "rat \<Rightarrow> i64" where
  "saturating_i64_from_f64 v =
     max (- (2 ^ 63)) (min (2 ^ 63 - 1) (if v \<ge> 0 then \<lfloor>v\<rfloor> else - \<lfloor>- v\<rfloor>))"

definition seconds_to_ticks :: "seconds \<Rightarrow> i64" where
  "seconds_to_ticks s = saturating_i64_from_f64 (s * of_int TICKS_PER_SECOND)"

lemma ticks_round_trip: "is_i64 t \<Longrightarrow> seconds_to_ticks (ticks_to_seconds t) = t"
  by (simp add: seconds_to_ticks_def ticks_to_seconds_def saturating_i64_from_f64_def
      is_i64_def TICKS_PER_SECOND_def)

lemma ticks_to_seconds_pos [simp]: "0 < ticks_to_seconds t \<longleftrightarrow> 0 < t"
  by (simp add: ticks_to_seconds_def TICKS_PER_SECOND_def zero_less_divide_iff)

section \<open>The authority of a start position\<close>

datatype resume_source = RS_Server | RS_Session | RS_Local | RS_Beginning | RS_Handoff seconds

fun resume_source_of :: "queue_item \<Rightarrow> resume_source" where
  "resume_source_of (QI_Emby e) = (if emby_is_audio e then RS_Beginning else RS_Server)"
| "resume_source_of (QI_Feed _) = RS_Local"
| "resume_source_of (QI_Twitch _) = RS_Beginning"
| "resume_source_of (QI_Audiobookshelf _) = RS_Session"

definition resume_seconds :: "i64 \<Rightarrow> i64 \<Rightarrow> seconds" where
  "resume_seconds position_ticks runtime_ticks =
     (if should_resume position_ticks runtime_ticks then ticks_to_seconds position_ticks else 0)"

definition local_runtime :: "queue_item \<Rightarrow> i64" where
  "local_runtime it = i64_of_u64_or_max (case qi_duration it of Some d \<Rightarrow> d | None \<Rightarrow> 0)"

fun source_start_seconds :: "resume_source \<Rightarrow> queue_item \<Rightarrow> seconds" where
  "source_start_seconds (RS_Handoff s) it = s"
| "source_start_seconds RS_Server it = resume_seconds (qi_playback_position_ticks it) (qi_runtime_ticks it)"
| "source_start_seconds RS_Session it = resume_seconds (qi_playback_position_ticks it) (qi_runtime_ticks it)"
| "source_start_seconds RS_Local it = resume_seconds (qi_playback_position_ticks it) (local_runtime it)"
| "source_start_seconds RS_Beginning it = 0"

definition resume_start_pos :: "queue_item \<Rightarrow> seconds" where
  "resume_start_pos it = source_start_seconds (resume_source_of it) it"

definition positive_ticks :: "seconds \<Rightarrow> i64 option" where
  "positive_ticks s = (if s > 0 then Some (seconds_to_ticks s) else None)"

definition resume_ticks_for_item :: "queue_item \<Rightarrow> i64 option" where
  "resume_ticks_for_item it = positive_ticks (resume_start_pos it)"

definition resume_ticks_for_slot :: "playback_queue \<Rightarrow> queue_slot_id \<Rightarrow> i64 option" where
  "resume_ticks_for_slot q sid =
     (case slot q sid of None \<Rightarrow> None | Some s \<Rightarrow> resume_ticks_for_item (qs_item s))"

definition resume_ticks_for_replace_start ::
  "playback_queue \<Rightarrow> queue_slot_id \<Rightarrow> seconds option \<Rightarrow> i64 option" where
  "resume_ticks_for_replace_start q sid start_position_secs =
     (case slot q sid of
        None \<Rightarrow> None
      | Some s \<Rightarrow>
          positive_ticks (source_start_seconds
            (case start_position_secs of None \<Rightarrow> resume_source_of (qs_item s) | Some secs \<Rightarrow> RS_Handoff secs)
            (qs_item s)))"

section \<open>The refresh\<close>

type_synonym fetch_items = "nat \<Rightarrow> string list \<Rightarrow> emby_item list option"

text \<open>\<^verbatim>\<open>EMBY_RESUME_RETRY_DELAYS\<close>, in milliseconds.\<close>

definition EMBY_RESUME_RETRY_DELAYS :: "nat list" where
  "EMBY_RESUME_RETRY_DELAYS = [500, 2000]"

definition server_item :: "queue_item \<Rightarrow> emby_item option" where
  "server_item it = (case resume_source_of it of RS_Server \<Rightarrow> qi_as_emby it | _ \<Rightarrow> None)"

fun wanted_ids :: "string list \<Rightarrow> queue_item list \<Rightarrow> string list" where
  "wanted_ids seen [] = []"
| "wanted_ids seen (it # its) =
     (case server_item it of
        None \<Rightarrow> wanted_ids seen its
      | Some e \<Rightarrow>
          if emby_id e \<in> set seen then wanted_ids seen its
          else emby_id e # wanted_ids (emby_id e # seen) its)"

fun insert_fetched :: "emby_item list \<Rightarrow> (string \<rightharpoonup> emby_item) \<Rightarrow> (string \<rightharpoonup> emby_item)" where
  "insert_fetched [] m = m"
| "insert_fetched (e # es) m = insert_fetched es (m(emby_id e \<mapsto> e))"

text \<open>
  The attempts: the id lists asked for, in order, and what arrived. \<open>k\<close> is the number of
  the next fetch, the last argument the attempts left.
\<close>

fun refresh_attempts ::
  "fetch_items \<Rightarrow> nat \<Rightarrow> string list \<Rightarrow> (string \<rightharpoonup> emby_item) \<Rightarrow> nat
   \<Rightarrow> string list list \<times> (string \<rightharpoonup> emby_item)" where
  "refresh_attempts fetch k missing got 0 = ([], got)"
| "refresh_attempts fetch k missing got (Suc n) =
     (if missing = [] then ([], got)
      else
        (let got1 = (case fetch k missing of None \<Rightarrow> got | Some es \<Rightarrow> insert_fetched es got);
             missing1 = (case fetch k missing of
                 None \<Rightarrow> missing
               | Some es \<Rightarrow> [x \<leftarrow> missing. got1 x = None]);
             (calls, final) = refresh_attempts fetch (k + 1) missing1 got1 n
         in (missing # calls, final)))"

definition refreshed_from_server :: "(string \<rightharpoonup> emby_item) \<Rightarrow> queue_item \<Rightarrow> queue_item" where
  "refreshed_from_server got it =
     (case server_item it of
        None \<Rightarrow> it
      | Some e \<Rightarrow>
          (let (position_ticks, played) =
             (case got (emby_id e) of
                None \<Rightarrow> (0, False)
              | Some f \<Rightarrow> (emby_playback_position_ticks f, emby_played f))
           in QI_Emby (e\<lparr>emby_playback_position_ticks := position_ticks, emby_played := played\<rparr>)))"

definition resume_fetches :: "fetch_items \<Rightarrow> nat list \<Rightarrow> queue_item list
   \<Rightarrow> string list list \<times> (string \<rightharpoonup> emby_item)" where
  "resume_fetches fetch delays items =
     refresh_attempts fetch 0 (wanted_ids [] items) Map.empty (Suc (length delays))"

definition resume_refresh :: "fetch_items \<Rightarrow> nat list \<Rightarrow> queue_item list \<Rightarrow> queue_item list" where
  "resume_refresh fetch delays items =
     map (refreshed_from_server (snd (resume_fetches fetch delays items))) items"

definition jump_ticks :: "fetch_items \<Rightarrow> nat list \<Rightarrow> queue_item \<Rightarrow> i64 option \<Rightarrow> i64 option" where
  "jump_ticks fetch delays it owner_ticks =
     (case resume_source_of it of
        RS_Server \<Rightarrow>
          (case resume_refresh fetch delays [it] of
             [] \<Rightarrow> None
           | r # _ \<Rightarrow> resume_ticks_for_item r)
      | RS_Local \<Rightarrow> owner_ticks
      | _ \<Rightarrow> None)"

section \<open>What a refresh asks and what it keeps\<close>

lemma insert_fetched_Some:
  "insert_fetched es m x = Some f \<Longrightarrow> m x = Some f \<or> f \<in> set es \<and> emby_id f = x"
proof (induction es arbitrary: m)
  case (Cons a es)
  from Cons.IH [of "m(emby_id a \<mapsto> a)"] Cons.prems show ?case
    by (auto simp: fun_upd_def split: if_splits)
qed simp

lemma insert_fetched_None:
  "insert_fetched es m x = None \<longleftrightarrow> m x = None \<and> x \<notin> emby_id ` set es"
  by (induction es arbitrary: m) auto

lemma attempts_Suc:
  "missing \<noteq> [] \<Longrightarrow> refresh_attempts fetch k missing got (Suc n) =
     (let got1 = (case fetch k missing of None \<Rightarrow> got | Some es \<Rightarrow> insert_fetched es got);
          rest = refresh_attempts fetch (Suc k)
                   (case fetch k missing of None \<Rightarrow> missing | Some es \<Rightarrow> [x \<leftarrow> missing. got1 x = None]) got1 n
      in (missing # fst rest, snd rest))"
  by (simp add: Let_def split_beta)

lemma attempts_Nil [simp]: "refresh_attempts fetch k [] got n = ([], got)"
  by (cases n) simp_all

declare refresh_attempts.simps(2) [simp del]

lemma attempts_length: "length (fst (refresh_attempts fetch k missing got n)) \<le> n"
proof (induction n arbitrary: k missing got)
  case (Suc n)
  then show ?case by (cases "missing = []") (simp_all add: attempts_Suc Let_def)
qed simp

lemma attempts_source:
  "snd (refresh_attempts fetch k missing got n) x = Some f \<Longrightarrow>
     got x = Some f \<or> (\<exists>j call es. j < n \<and> fetch (k + j) call = Some es \<and> f \<in> set es \<and> emby_id f = x)"
proof (induction n arbitrary: k missing got)
  case (Suc n)
  show ?case
  proof (cases "missing = []")
    case False
    define got1 where "got1 = (case fetch k missing of None \<Rightarrow> got | Some es \<Rightarrow> insert_fetched es got)"
    have head: "got1 x = Some f \<Longrightarrow> got x = Some f
        \<or> (\<exists>es. fetch k missing = Some es \<and> f \<in> set es \<and> emby_id f = x)"
      by (auto simp: got1_def dest: insert_fetched_Some split: option.splits)
    from Suc.prems False obtain m where "snd (refresh_attempts fetch (Suc k) m got1 n) x = Some f"
      by (auto simp: attempts_Suc Let_def got1_def)
    from Suc.IH [OF this] show ?thesis
    proof (elim disjE exE conjE)
      assume "got1 x = Some f"
      from head [OF this] show ?thesis by (metis add_0_right zero_less_Suc)
    next
      fix j call es assume "j < n" "fetch (Suc k + j) call = Some es" "f \<in> set es" "emby_id f = x"
      then have "Suc j < Suc n \<and> fetch (k + Suc j) call = Some es \<and> f \<in> set es \<and> emby_id f = x" by simp
      then show ?thesis by blast
    qed
  qed (use Suc.prems in simp)
qed simp

lemma attempts_keep: "got x \<noteq> None \<Longrightarrow> snd (refresh_attempts fetch k missing got n) x \<noteq> None"
proof (induction n arbitrary: k missing got)
  case (Suc n)
  define got1 where "got1 = (case fetch k missing of None \<Rightarrow> got | Some es \<Rightarrow> insert_fetched es got)"
  have "got1 x \<noteq> None"
    using Suc.prems insert_fetched_None [of _ got x] by (cases "fetch k missing") (simp_all add: got1_def)
  then have "snd (refresh_attempts fetch (Suc k) m got1 n) x \<noteq> None" for m by (rule Suc.IH)
  with Suc.prems show ?case
    by (cases "missing = []") (simp_all add: attempts_Suc Let_def got1_def)
qed simp

lemma attempts_missed:
  assumes "x \<in> set missing" "snd (refresh_attempts fetch k missing got n) x = None"
  shows "length (fst (refresh_attempts fetch k missing got n)) = n
    \<and> (\<forall>j<n. x \<in> set (fst (refresh_attempts fetch k missing got n) ! j)
          \<and> (\<forall>es. fetch (k + j) (fst (refresh_attempts fetch k missing got n) ! j) = Some es
                 \<longrightarrow> x \<notin> emby_id ` set es))"
  using assms
proof (induction n arbitrary: k missing got)
  case (Suc n)
  define got1 where "got1 = (case fetch k missing of None \<Rightarrow> got | Some es \<Rightarrow> insert_fetched es got)"
  define missing1 where
    "missing1 = (case fetch k missing of None \<Rightarrow> missing | Some es \<Rightarrow> [x \<leftarrow> missing. got1 x = None])"
  define rest where "rest = refresh_attempts fetch (Suc k) missing1 got1 n"
  from Suc.prems(1) have eq: "refresh_attempts fetch k missing got (Suc n) = (missing # fst rest, snd rest)"
    unfolding rest_def missing1_def got1_def
    by (subst attempts_Suc) (auto simp: Let_def)
  have fin: "snd rest x = None" using Suc.prems(2) by (simp add: eq)
  then have none: "got1 x = None"
    using attempts_keep [of got1 x fetch "Suc k" missing1 n] by (cases "got1 x") (auto simp: rest_def)
  with Suc.prems(1) have "x \<in> set missing1" by (simp add: missing1_def split: option.split)
  from Suc.IH [OF this fin [unfolded rest_def]] have ih: "length (fst rest) = n
      \<and> (\<forall>j<n. x \<in> set (fst rest ! j) \<and> (\<forall>es. fetch (Suc k + j) (fst rest ! j) = Some es \<longrightarrow> x \<notin> emby_id ` set es))"
    by (simp add: rest_def)
  have now: "fetch k missing = Some es \<Longrightarrow> x \<notin> emby_id ` set es" for es
    using none by (auto simp: got1_def insert_fetched_None)
  show ?case unfolding eq using ih Suc.prems(1) now
    by (auto simp: less_Suc_eq_0_disj)
qed simp

lemma wanted_iff: "x \<in> set (wanted_ids seen items) \<longleftrightarrow>
    x \<notin> set seen \<and> (\<exists>it e. it \<in> set items \<and> server_item it = Some e \<and> emby_id e = x)"
  by (induction seen items rule: wanted_ids.induct) (auto split: option.splits)

lemma wanted_distinct: "distinct (wanted_ids seen items)"
  by (induction seen items rule: wanted_ids.induct) (auto simp: wanted_iff split: option.splits)

text \<open>
  C36. The refresh never trusts a remembered position. Every item keeps its place and every
  item of another medium is untouched; an Emby video leaves with the position and watched mark
  of an item of its id that some answer of the server delivered, or at the beginning and
  unwatched, and the latter only after every attempt (one more than there are delays) had
  asked for its id and had failed or omitted it.
\<close>

theorem refresh_trusts_the_server:
  assumes "i < length items"
  shows "length (resume_refresh fetch delays items) = length items
    \<and> (case server_item (items ! i) of
         None \<Rightarrow> resume_refresh fetch delays items ! i = items ! i
       | Some e \<Rightarrow>
           (\<exists>k call es f. k \<le> length delays \<and> fetch k call = Some es \<and> f \<in> set es \<and> emby_id f = emby_id e
              \<and> resume_refresh fetch delays items ! i
                  = QI_Emby (e\<lparr>emby_playback_position_ticks := emby_playback_position_ticks f,
                               emby_played := emby_played f\<rparr>))
         \<or> (resume_refresh fetch delays items ! i
                = QI_Emby (e\<lparr>emby_playback_position_ticks := 0, emby_played := False\<rparr>)
            \<and> length (fst (resume_fetches fetch delays items)) = Suc (length delays)
            \<and> (\<forall>k \<le> length delays.
                 emby_id e \<in> set (fst (resume_fetches fetch delays items) ! k)
                 \<and> (case fetch k (fst (resume_fetches fetch delays items) ! k) of
                      None \<Rightarrow> True | Some es \<Rightarrow> emby_id e \<notin> emby_id ` set es))))"
proof (cases "server_item (items ! i)")
  case None
  with assms show ?thesis by (simp add: resume_refresh_def refreshed_from_server_def)
next
  case (Some e)
  let ?r = "resume_fetches fetch delays items"
  have want: "emby_id e \<in> set (wanted_ids [] items)"
    using Some assms by (auto simp: wanted_iff intro!: exI [of _ "items ! i"])
  show ?thesis
  proof (cases "snd ?r (emby_id e)")
    case None
    from attempts_missed [OF want, of fetch 0 Map.empty "Suc (length delays)"] None
    have "length (fst ?r) = Suc (length delays)
      \<and> (\<forall>k \<le> length delays. emby_id e \<in> set (fst ?r ! k)
           \<and> (\<forall>es. fetch k (fst ?r ! k) = Some es \<longrightarrow> emby_id e \<notin> emby_id ` set es))"
      by (simp add: resume_fetches_def less_Suc_eq_le)
    moreover have "resume_refresh fetch delays items ! i
        = QI_Emby (e\<lparr>emby_playback_position_ticks := 0, emby_played := False\<rparr>)"
      using assms Some None by (simp add: resume_refresh_def refreshed_from_server_def)
    ultimately show ?thesis using Some by (simp add: resume_refresh_def split: option.split)
  next
    case (Some f)
    from attempts_source [of fetch 0 _ Map.empty "Suc (length delays)"] Some
    obtain k call es where src: "k \<le> length delays" "fetch k call = Some es" "f \<in> set es" "emby_id f = emby_id e"
      by (fastforce simp: resume_fetches_def less_Suc_eq_le)
    have "resume_refresh fetch delays items ! i
        = QI_Emby (e\<lparr>emby_playback_position_ticks := emby_playback_position_ticks f,
                     emby_played := emby_played f\<rparr>)"
      using assms \<open>server_item (items ! i) = Some e\<close> Some
      by (simp add: resume_refresh_def refreshed_from_server_def)
    with src \<open>server_item (items ! i) = Some e\<close> show ?thesis
      by (simp add: resume_refresh_def) blast
  qed
qed

definition sample_movie :: emby_item where
  "sample_movie = emby_folder ''m1'' ''Movie'' ''movies''"

text \<open>The first attempt fails, the second delivers the item at tick 70.\<close>

definition sample_fetch :: fetch_items where
  "sample_fetch k ids =
     (if k = 1 then Some [sample_movie\<lparr>emby_playback_position_ticks := 70\<rparr>] else None)"

lemma refresh_trusts_the_server_witness:
  "length (resume_refresh sample_fetch EMBY_RESUME_RETRY_DELAYS [QI_Emby sample_movie]) = 1
   \<and> map qi_playback_position_ticks
       (resume_refresh sample_fetch EMBY_RESUME_RETRY_DELAYS [QI_Emby sample_movie]) = [70]"
proof
  show "length (resume_refresh sample_fetch EMBY_RESUME_RETRY_DELAYS [QI_Emby sample_movie]) = 1"
    using refresh_trusts_the_server [of 0 "[QI_Emby sample_movie]" sample_fetch EMBY_RESUME_RETRY_DELAYS]
    by simp
  show "map qi_playback_position_ticks
       (resume_refresh sample_fetch EMBY_RESUME_RETRY_DELAYS [QI_Emby sample_movie]) = [70]"
    by code_simp
qed

end
