(* ===== verification/Run_Commands.thy ===== *)
theory Run_Commands
  imports Run_Playlist Resume_Seam
begin

text \<open>
  The state of a playback run and the handlers that change its sequence: queue removal, move
  and reorder commands (\<^verbatim>\<open>run/queue_commands.rs\<close>), and the reactions to mpv's playlist
  position and count (\<^verbatim>\<open>run/events/playlist_drift.rs\<close>, \<^verbatim>\<open>run/queue.rs\<close>). Commands sent to mpv,
  calls of the session reporter and player events are appended to a log of effects; what the
  reporter returns (subtitle URLs) and the tracing span are not modelled.
\<close>

section \<open>The run\<close>

text \<open>
  Of \<^verbatim>\<open>PlayerStatus\<close> and \<^verbatim>\<open>PlaybackRun\<close> the model keeps the fields the modelled handlers read
  or write; of the session reporter the item it reports on (empty when there is no session),
  whether that is audio, and whether a start was reported. Clock times are kept as whether they
  are set (\<^verbatim>\<open>quit_at\<close>, \<^verbatim>\<open>last_seek_at\<close>, the shutdown deadline). Left out are the handles (channel,
  tracing span, configuration, the prepared source, subtitle URLs) and the status fields for
  tracks, volume and display.
\<close>

record player_status =
  ps_active :: bool
  ps_position_ticks :: i64
  ps_runtime_ticks :: i64
  ps_current_idx :: usize
  ps_queue_len :: usize
  ps_title :: string
  ps_artist :: string
  ps_album :: string
  ps_art_item_id :: string
  ps_art_album_id :: string
  ps_last_valid_pos :: i64
  ps_sequence_generation :: generation

datatype effect =
    Mpv_Playlist_Move usize usize
  | Mpv_Playlist_Remove usize
  | Mpv_Playlist_Clear
  | Mpv_Load_File queue_slot_id
  | Close_Source i64
  | Discard_Prepared
  | Mpv_Stop
  | Mpv_Quit
  | Mpv_Set_Playlist_Pos usize
  | Mpv_Play_Index usize
  | Mpv_Set_Pause bool
  | Mpv_Set_Start i64
  | Mpv_Script string
  | Mpv_Episode_Info string
  | Mpv_Append_File queue_slot_id
  | Mpv_Build_Playlist "queue_slot_id list" usize
  | Report_Stopped i64
  | Stop_Sent string i64 i64
  | Mark_Played string
  | Report_Start_Item string
  | Reporter_Clear_Session
  | Reporter_Clear_Item
  | Event_Track_Completed queue_slot_id generation i64 bool bool
  | Event_Track_Changed queue_slot_id "(request_id \<times> generation) option"
  | Event_Queue_Desynced string
  | Event_Stopped "queue_slot_id option" generation i64 bool bool "string option"
  | Event_Mpv_Quit
  | Event_Output_Started
  | Event_Next_Up_Play
  | Event_Command_Rejected string
  | Mpv_Seek i64
  | Mpv_Show_Text string nat
  | Mpv_Auto_Select_Tracks
  | Mpv_Set_Playlist_Start usize
  | Mpv_Load_At queue_slot_id string string seconds
  | Mpv_Set_Time_Pos i64
  | Mpv_Skip_Intro i64
  | Report_Progress string
  | Observe_Reporting bool
  | Event_Paused_Changed bool
  | Event_Skip_Intro_Play
  | Event_Intro_Started i64
  | Event_Intro_Ended
  | Event_Queue_Next_Up usize
  | Event_Next_Up_Threshold string i64 i64

record play_run =
  pr_identity :: generation
  pr_queue :: execution_sequence
  pr_current_idx :: usize
  pr_lifecycle :: run_lifecycle
  pr_item :: item_lifecycle
  pr_pending_layout :: bool
  pr_status :: player_status
  pr_osd_title :: string
  pr_last_valid_pos :: i64
  pr_series_id :: string
  pr_season :: i64
  pr_episode :: i64
  pr_intro_start :: i64
  pr_intro_end :: i64
  pr_intro_state :: intro_state
  pr_tracks_initialized :: bool
  pr_queue_next_up :: next_up
  pr_origin :: playback_origin
  pr_reporter_id :: string
  pr_reporter_audio :: bool
  pr_start_reported :: bool
  pr_stop_slot :: "queue_slot_id option"
  pr_stop_runtime :: "i64 option"
  pr_quit_at :: bool
  pr_last_seek_at :: bool
  pr_next_up :: next_up
  pr_next_up_jump :: bool
  pr_stopped_near_end :: bool
  pr_mark_played_id :: "string option"
  pr_shutdown_timeout :: bool
  pr_startup_pause :: startup_pause
  pr_log :: "effect list"

definition emit :: "effect \<Rightarrow> play_run \<Rightarrow> play_run" where
  "emit e r = r\<lparr>pr_log := pr_log r @ [e]\<rparr>"

definition pr_queue_len :: "play_run \<Rightarrow> usize" where
  "pr_queue_len r = length (es_slots (pr_queue r))"

definition pr_slot_id_at :: "play_run \<Rightarrow> usize \<Rightarrow> queue_slot_id option" where
  "pr_slot_id_at r idx = map_option xs_slot_id (nth_opt (es_slots (pr_queue r)) idx)"

definition pr_item_at :: "play_run \<Rightarrow> usize \<Rightarrow> queue_item option" where
  "pr_item_at r idx = map_option xs_item (nth_opt (es_slots (pr_queue r)) idx)"

definition pr_active_item :: "play_run \<Rightarrow> queue_item option" where
  "pr_active_item r = map_option xs_item (es_active_slot (pr_queue r))"

definition pr_active_slot_id :: "play_run \<Rightarrow> queue_slot_id option" where
  "pr_active_slot_id r = es_active (pr_queue r)"

definition sync_status_position :: "play_run \<Rightarrow> play_run" where
  "sync_status_position r =
     r\<lparr>pr_status := (pr_status r)\<lparr>ps_current_idx := pr_current_idx r, ps_queue_len := pr_queue_len r\<rparr>\<rparr>"

definition set_active_index :: "usize \<Rightarrow> play_run \<Rightarrow> bool \<times> play_run" where
  "set_active_index idx r =
     (case pr_slot_id_at r idx of
        None \<Rightarrow> (False, r)
      | Some sid \<Rightarrow>
          (let (ok, q) = es_set_active_slot sid (pr_queue r);
               r1 = r\<lparr>pr_queue := q\<rparr>
           in if \<not> ok then (False, r1)
              else (True, sync_status_position (r1\<lparr>pr_current_idx := idx\<rparr>))))"

definition load_active_item_state :: "play_run \<Rightarrow> play_run" where
  "load_active_item_state r =
     (let st = active_item_state_of (pr_active_item r) in
      r\<lparr>pr_osd_title := ai_osd_title st, pr_last_valid_pos := ai_last_valid_pos st,
        pr_series_id := ai_series_id st, pr_season := ai_season st, pr_episode := ai_episode st,
        pr_intro_start := 0, pr_intro_end := 0, pr_intro_state := ai_intro st\<rparr>)"

definition set_current_item_metadata :: "emby_item \<Rightarrow> player_status \<Rightarrow> player_status" where
  "set_current_item_metadata it s =
     s\<lparr>ps_title := emby_display_name it, ps_artist := emby_artist it, ps_album := emby_album it,
       ps_art_item_id := emby_id it,
       ps_art_album_id :=
         (if emby_item_type it = ''Audio'' \<and> emby_album_id it \<noteq> [] then emby_album_id it else [])\<rparr>"

definition show_item :: "queue_item \<Rightarrow> player_status \<Rightarrow> player_status" where
  "show_item it s =
     (case qi_as_emby it of
        Some e \<Rightarrow> set_current_item_metadata e s
      | None \<Rightarrow> s\<lparr>ps_title := qi_title it, ps_art_item_id := qi_id it\<rparr>)"

section \<open>The session reporter\<close>

definition has_session :: "play_run \<Rightarrow> bool" where
  "has_session r \<longleftrightarrow> pr_reporter_id r \<noteq> []"

text \<open>
  What a stop report sends: nothing without a session; the reported item, the position (0 for
  audio) and the run time the status shows at that moment.
\<close>

definition stop_sent :: "i64 \<Rightarrow> play_run \<Rightarrow> effect list" where
  "stop_sent last_valid_pos r =
     (if \<not> has_session r then []
      else [Stop_Sent (pr_reporter_id r) (if pr_reporter_audio r then 0 else last_valid_pos)
              (ps_runtime_ticks (pr_status r))])"

definition report_stopped :: "i64 \<Rightarrow> play_run \<Rightarrow> play_run" where
  "report_stopped last_valid_pos r =
     r\<lparr>pr_log := pr_log r @ Report_Stopped last_valid_pos # stop_sent last_valid_pos r\<rparr>"

lemma report_stopped_frame [simp]:
  "pr_queue (report_stopped p r) = pr_queue r" "pr_current_idx (report_stopped p r) = pr_current_idx r"
  "pr_lifecycle (report_stopped p r) = pr_lifecycle r" "pr_status (report_stopped p r) = pr_status r"
  "pr_item (report_stopped p r) = pr_item r" "pr_identity (report_stopped p r) = pr_identity r"
  "pr_last_valid_pos (report_stopped p r) = pr_last_valid_pos r"
  "pr_origin (report_stopped p r) = pr_origin r" "pr_quit_at (report_stopped p r) = pr_quit_at r"
  "pr_log (report_stopped p r) = pr_log r @ Report_Stopped p # stop_sent p r"
  by (simp_all add: report_stopped_def)

definition start_item :: "emby_item \<Rightarrow> play_run \<Rightarrow> play_run" where
  "start_item e r =
     (emit (Report_Start_Item (emby_id e)) r)
       \<lparr>pr_reporter_id := emby_id e, pr_reporter_audio := emby_is_audio e, pr_start_reported := True\<rparr>"

definition clear_session :: "play_run \<Rightarrow> play_run" where
  "clear_session r = (emit Reporter_Clear_Session r)\<lparr>pr_reporter_id := []\<rparr>"

definition report_active_item :: "play_run \<Rightarrow> play_run" where
  "report_active_item r =
     (case pr_active_item r of
        Some (QI_Emby e) \<Rightarrow> start_item e r
      | _ \<Rightarrow> clear_session r)"

lemma report_active_frame [simp]:
  "pr_queue (report_active_item r) = pr_queue r"
  "pr_current_idx (report_active_item r) = pr_current_idx r"
  "pr_lifecycle (report_active_item r) = pr_lifecycle r"
  "pr_status (report_active_item r) = pr_status r"
  "pr_identity (report_active_item r) = pr_identity r"
  "pr_queue_next_up (report_active_item r) = pr_queue_next_up r"
  "pr_item (report_active_item r) = pr_item r" "pr_origin (report_active_item r) = pr_origin r"
  "pr_quit_at (report_active_item r) = pr_quit_at r"
  "pr_last_valid_pos (report_active_item r) = pr_last_valid_pos r"
  by (simp_all add: report_active_item_def start_item_def clear_session_def emit_def
      split: option.split queue_item.split)

section \<open>mpv moved on its own\<close>

definition adopt_mpv_entry :: "usize \<Rightarrow> i64 \<Rightarrow> play_run \<Rightarrow> bool \<times> play_run" where
  "adopt_mpv_entry index mpv_pos_ticks r =
     (let (ok, r1) = set_active_index index r in
      if \<not> ok then (False, r1)
      else
        (let r2 = load_active_item_state r1;
             r3 = (if mpv_pos_ticks > 0 then r2\<lparr>pr_last_valid_pos := mpv_pos_ticks\<rparr> else r2)
         in case pr_active_item r3 of
              None \<Rightarrow> (True, r3)
            | Some it \<Rightarrow>
                (let s = (pr_status r3)\<lparr>ps_position_ticks := max mpv_pos_ticks 0,
                           ps_runtime_ticks := qi_runtime_ticks it,
                           ps_current_idx := pr_current_idx r3, ps_queue_len := pr_queue_len r3\<rparr>;
                     r4 = report_active_item (r3\<lparr>pr_status := show_item it s\<rparr>)
                 in (True, r4\<lparr>pr_tracks_initialized := False,
                              pr_lifecycle := disarm_jump (pr_lifecycle r4),
                              pr_queue_next_up := next_up_reset (pr_queue_next_up r4)\<rparr>))))"

definition announce_adopted_entry :: "queue_slot_id option \<Rightarrow> i64 \<Rightarrow> play_run \<Rightarrow> play_run" where
  "announce_adopted_entry abandoned_slot abandoned_pos r =
     (let r1 = (case abandoned_slot of
                  Some sid \<Rightarrow>
                    emit (Event_Track_Completed sid (pr_identity r) abandoned_pos False False) r
                | None \<Rightarrow> r)
      in case pr_active_slot_id r1 of
           Some sid \<Rightarrow> emit (Event_Track_Changed sid None) r1
         | None \<Rightarrow> r1)"

definition report_stopped_and_adopt_mpv_entry ::
  "queue_slot_id option \<Rightarrow> i64 \<Rightarrow> usize \<Rightarrow> i64 \<Rightarrow> play_run \<Rightarrow> bool \<times> play_run" where
  "report_stopped_and_adopt_mpv_entry abandoned_slot abandoned_pos index mpv_pos_ticks r =
     (let r1 = report_stopped abandoned_pos r;
          r2 = r1\<lparr>pr_item := mark_reported Sent (pr_item r1)\<rparr>;
          (ok, r3) = adopt_mpv_entry index mpv_pos_ticks r2
      in if \<not> ok then (False, r3)
         else (True, announce_adopted_entry abandoned_slot abandoned_pos r3))"

definition on_playlist_pos_changed :: "i64 \<Rightarrow> i64 \<Rightarrow> play_run \<Rightarrow> play_run" where
  "on_playlist_pos_changed pos mpv_pos_ticks r =
     (if is_active_file (pr_lifecycle r) then r
      else if pr_pending_layout r \<or> il_load_state (pr_item r) \<noteq> Ready
              \<or> \<not> arm_is_idle (rl_jump (pr_lifecycle r)) then r
      else
        (case divergent_entry pos (pr_current_idx r) (pr_queue_len r) of
           None \<Rightarrow> r
         | Some index \<Rightarrow>
             snd (report_stopped_and_adopt_mpv_entry (pr_slot_id_at r (pr_current_idx r))
                    (pr_last_valid_pos r) index mpv_pos_ticks r)))"

section \<open>mpv's playlist changed length\<close>

fun remove_slots_loop :: "queue_slot_id list \<Rightarrow> execution_sequence \<Rightarrow> execution_sequence" where
  "remove_slots_loop [] q = q"
| "remove_slots_loop (sid # sids) q =
     remove_slots_loop sids
       (if es_active q = Some sid then es_remove_active_slot_confirmed sid q
        else es_remove_slot sid q)"

definition rederive_current_idx :: "play_run \<Rightarrow> play_run" where
  "rederive_current_idx r =
     r\<lparr>pr_current_idx :=
         (case Option.bind (es_active (pr_queue r)) (es_slot_index (pr_queue r)) of
            Some i \<Rightarrow> i
          | None \<Rightarrow> pr_current_idx r)\<rparr>"

definition on_playlist_count_changed :: "usize \<Rightarrow> play_run \<Rightarrow> play_run" where
  "on_playlist_count_changed reported r =
     (if is_active_file (pr_lifecycle r) then r
      else if reported = pr_queue_len r then r
      else
        (let old_n = pr_queue_len r in
         if reported < old_n
         then
           (let removed = old_n - reported;
                ids = map xs_slot_id (drop reported (es_slots (pr_queue r)));
                r1 = r\<lparr>pr_queue := remove_slots_loop ids (pr_queue r)\<rparr>
            in emit (Event_Queue_Desynced (''Queue desynced: '' @ dec removed
                        @ '' item(s) removed externally''))
                 (sync_status_position (rederive_current_idx r1)))
         else
           (let added = reported - old_n;
                r1 = (if pr_current_idx r \<ge> pr_queue_len r \<and> pr_queue_len r > 0
                      then r\<lparr>pr_current_idx := pr_queue_len r - 1\<rparr> else r)
            in emit (Event_Queue_Desynced (''Queue desynced: '' @ dec added
                        @ '' item(s) added externally''))
                 (sync_status_position r1))))"

section \<open>Moves and reorders\<close>

definition cmd_queue_move :: "queue_slot_id \<Rightarrow> usize \<Rightarrow> play_run \<Rightarrow> play_run" where
  "cmd_queue_move sid to r =
     (case es_slot_index (pr_queue r) sid of
        None \<Rightarrow> r
      | Some from \<Rightarrow>
          if from \<ge> pr_queue_len r \<or> to \<ge> pr_queue_len r \<or> from = to then r
          else
            (let r1 = (if \<not> is_active_file (pr_lifecycle r)
                       then (case playlist_move_args from to of (f, t) \<Rightarrow> emit (Mpv_Playlist_Move f t) r)
                       else r);
                 r2 = r1\<lparr>pr_queue := snd (es_move_slot sid to (pr_queue r1))\<rparr>;
                 r3 = r2\<lparr>pr_current_idx := shift_index_for_move (pr_current_idx r2) from to\<rparr>
             in sync_status_position r3))"

text \<open>\<open>None\<close> is the panic of the plan's vector insertion.\<close>

definition cmd_queue_reorder :: "queue_slot_id list \<Rightarrow> play_run \<Rightarrow> play_run option" where
  "cmd_queue_reorder order r =
     (let before = map xs_slot_id (es_slots (pr_queue r)) in
      if \<not> is_slot_permutation before order then Some r
      else map_option (\<lambda>plan. fold (\<lambda>(sid, to). cmd_queue_move sid to) plan r)
             (reorder_move_plan before order))"

section \<open>Removals\<close>

text \<open>
  What preparing and loading an item for the active-file projection comes to; both talk to
  mpv and the Audiobookshelf server.
\<close>

datatype select_io = Prepare_Fails | Load_Fails | Select_Works

definition close_prepared_source :: "play_run \<Rightarrow> play_run" where
  "close_prepared_source r = emit (Close_Source (pr_last_valid_pos r)) r"

definition install_active_projection ::
  "queue_slot_id \<Rightarrow> bool \<Rightarrow> play_run \<Rightarrow> bool \<times> play_run" where
  "install_active_projection sid loads r =
     (let r1 = emit (Mpv_Load_File sid) (emit Mpv_Playlist_Clear r) in
      if \<not> loads
      then (let r2 = emit Discard_Prepared (close_prepared_source r1)
            in (False, r2\<lparr>pr_status := (pr_status r2)\<lparr>ps_active := False\<rparr>\<rparr>))
      else (let r2 = close_prepared_source r1
            in (True, r2\<lparr>pr_item := accept_replacement (pr_item r2), pr_pending_layout := False\<rparr>)))"

definition select_active_slot ::
  "(queue_item \<Rightarrow> select_io) \<Rightarrow> queue_slot_id \<Rightarrow> play_run \<Rightarrow> bool \<times> play_run" where
  "select_active_slot io sid r =
     (case es_slot (pr_queue r) sid of
        None \<Rightarrow> (False, r)
      | Some s \<Rightarrow>
          (let r1 = close_prepared_source r in
           case io (xs_item s) of
             Prepare_Fails \<Rightarrow> (False, r1)
           | outcome \<Rightarrow>
               (let (ok, r2) = install_active_projection sid (outcome = Select_Works) r1 in
                if \<not> ok then (False, r2)
                else
                  (let r3 = r2\<lparr>pr_queue := snd (es_set_active_slot sid (pr_queue r2))\<rparr>;
                       r4 = r3\<lparr>pr_current_idx := (case es_slot_index (pr_queue r3) sid of
                                 Some i \<Rightarrow> i | None \<Rightarrow> pr_current_idx r3)\<rparr>
                   in (True, load_active_item_state (sync_status_position r4))))))"

definition remove_neighbor_slot :: "usize \<Rightarrow> play_run \<Rightarrow> queue_slot_id option" where
  "remove_neighbor_slot idx r =
     (if idx + 1 < pr_queue_len r then pr_slot_id_at r (idx + 1)
      else if idx > 0 then pr_slot_id_at r (idx - 1)
      else None)"

definition remove_active_file_slot ::
  "(queue_item \<Rightarrow> select_io) \<Rightarrow> queue_slot_id \<Rightarrow> usize \<Rightarrow> queue_slot_id option \<Rightarrow> play_run \<Rightarrow> play_run" where
  "remove_active_file_slot io sid idx active_sid r =
     (if active_sid \<noteq> Some sid
      then sync_status_position (rederive_current_idx (r\<lparr>pr_queue := es_remove_slot sid (pr_queue r)\<rparr>))
      else
        (case remove_neighbor_slot idx r of
           None \<Rightarrow>
             (let r1 = close_prepared_source r;
                  r2 = r1\<lparr>pr_queue := es_remove_active_slot_confirmed sid (pr_queue r1)\<rparr>
              in sync_status_position (emit Mpv_Playlist_Clear r2))
         | Some next \<Rightarrow>
             (let (ok, r1) = select_active_slot io next r;
                  r2 = (if ok then r1\<lparr>pr_queue := es_remove_slot sid (pr_queue r1)\<rparr> else r1)
              in sync_status_position r2)))"

definition cmd_queue_remove ::
  "(queue_item \<Rightarrow> select_io) \<Rightarrow> queue_slot_id \<Rightarrow> play_run \<Rightarrow> play_run" where
  "cmd_queue_remove io sid r =
     (case es_slot_index (pr_queue r) sid of
        None \<Rightarrow> r
      | Some idx \<Rightarrow>
          (let active_sid = pr_active_slot_id r in
           if is_active_file (pr_lifecycle r) then remove_active_file_slot io sid idx active_sid r
           else
             (let r1 = emit (Mpv_Playlist_Remove idx) r;
                  r2 = (if active_sid = Some sid
                        then (let c = close_prepared_source r1
                              in c\<lparr>pr_queue := es_remove_active_slot_confirmed sid (pr_queue c)\<rparr>)
                        else r1\<lparr>pr_queue := es_remove_slot sid (pr_queue r1)\<rparr>);
                  r3 = sync_status_position r2;
                  r4 = (if jump_target_slot (pr_lifecycle r3) = Some sid
                        then r3\<lparr>pr_lifecycle := disarm_jump (pr_lifecycle r3)\<rparr> else r3)
              in if active_sid \<noteq> Some sid then r4
                 else (emit Reporter_Clear_Item r4)\<lparr>pr_reporter_id := []\<rparr>)))"

definition append_items_to_queue ::
  "(queue_slot_id \<times> queue_item) list \<Rightarrow> play_run \<Rightarrow> play_run option" where
  "append_items_to_queue items r =
     map_option (\<lambda>q. let r1 = r\<lparr>pr_queue := q\<rparr> in
         r1\<lparr>pr_status := (pr_status r1)\<lparr>ps_queue_len := pr_queue_len r1\<rparr>\<rparr>)
       (fold (\<lambda>(sid, it) q. Option.bind q (es_append_with_id sid it)) items (Some (pr_queue r)))"

section \<open>The run and mpv stay in step\<close>

text \<open>
  mpv's playlist after the commands of a log, with \<open>mv\<close> and \<open>rm\<close> for the effect of
  \<^verbatim>\<open>playlist-move\<close> and \<^verbatim>\<open>playlist-remove\<close>.
\<close>

fun mpv_effect ::
  "(usize \<Rightarrow> usize \<Rightarrow> 'e list \<Rightarrow> 'e list) \<Rightarrow> (usize \<Rightarrow> 'e list \<Rightarrow> 'e list) \<Rightarrow> effect
   \<Rightarrow> 'e list \<Rightarrow> 'e list" where
  "mpv_effect mv rm (Mpv_Playlist_Move i j) xs = mv i j xs"
| "mpv_effect mv rm (Mpv_Playlist_Remove i) xs = rm i xs"
| "mpv_effect mv rm Mpv_Playlist_Clear xs = []"
| "mpv_effect mv rm Mpv_Stop xs = []"
| "mpv_effect mv rm _ xs = xs"

definition mpv_playlist ::
  "(usize \<Rightarrow> usize \<Rightarrow> 'e list \<Rightarrow> 'e list) \<Rightarrow> (usize \<Rightarrow> 'e list \<Rightarrow> 'e list) \<Rightarrow> effect list
   \<Rightarrow> 'e list \<Rightarrow> 'e list" where
  "mpv_playlist mv rm effects = fold (mpv_effect mv rm) effects"

definition playlist_remove_documented :: "(usize \<Rightarrow> 'e list \<Rightarrow> 'e list) \<Rightarrow> bool" where
  "playlist_remove_documented rm \<longleftrightarrow>
     (\<forall>i xs. i < length xs \<longrightarrow> rm i xs = take i xs @ drop (Suc i) xs)"

text \<open>The slots of the run's sequence and its log as mpv sees them.\<close>

definition pr_ids :: "play_run \<Rightarrow> queue_slot_id list" where
  "pr_ids r = map xs_slot_id (es_slots (pr_queue r))"

definition in_step ::
  "(usize \<Rightarrow> usize \<Rightarrow> queue_slot_id list \<Rightarrow> queue_slot_id list)
   \<Rightarrow> (usize \<Rightarrow> queue_slot_id list \<Rightarrow> queue_slot_id list) \<Rightarrow> queue_slot_id list \<Rightarrow> play_run \<Rightarrow> bool" where
  "in_step mv rm loaded r \<longleftrightarrow> mpv_playlist mv rm (pr_log r) loaded = pr_ids r"

lemma mpv_playlist_emit:
  "mpv_playlist mv rm (pr_log (emit e r)) xs = mpv_effect mv rm e (mpv_playlist mv rm (pr_log r) xs)"
  by (simp add: mpv_playlist_def emit_def)

lemma emit_frame [simp]:
  "pr_queue (emit e r) = pr_queue r" "pr_current_idx (emit e r) = pr_current_idx r"
  "pr_lifecycle (emit e r) = pr_lifecycle r" "pr_status (emit e r) = pr_status r"
  "pr_item (emit e r) = pr_item r" "pr_pending_layout (emit e r) = pr_pending_layout r"
  "pr_last_valid_pos (emit e r) = pr_last_valid_pos r" "pr_identity (emit e r) = pr_identity r"
  "pr_reporter_id (emit e r) = pr_reporter_id r" "pr_reporter_audio (emit e r) = pr_reporter_audio r"
  "pr_origin (emit e r) = pr_origin r" "pr_quit_at (emit e r) = pr_quit_at r"
  "pr_next_up_jump (emit e r) = pr_next_up_jump r"
  by (simp_all add: emit_def)

lemma sync_frame [simp]:
  "pr_queue (sync_status_position r) = pr_queue r"
  "pr_current_idx (sync_status_position r) = pr_current_idx r"
  "pr_lifecycle (sync_status_position r) = pr_lifecycle r"
  "pr_log (sync_status_position r) = pr_log r"
  "pr_identity (sync_status_position r) = pr_identity r"
  "ps_current_idx (pr_status (sync_status_position r)) = pr_current_idx r"
  "ps_queue_len (pr_status (sync_status_position r)) = pr_queue_len r"
  by (simp_all add: sync_status_position_def)

text \<open>A move, as the code applies it to the three places that know the order.\<close>

lemma es_ids_view: "map xs_slot_id (es_slots q) = view_ids (es_view q)"
  by (simp add: view_ids_def es_view_def comp_def)

lemma es_slot_index_lt:
  "es_slot_index q sid = Some i \<Longrightarrow> i < length (es_slots q) \<and> xs_slot_id (es_slots q ! i) = sid"
  by (auto simp: es_slot_index_def dest: position_lessD position_holds)

lemma es_move_ids:
  assumes "es_slot_index q sid = Some from" "to < length (es_slots q)"
  shows "map xs_slot_id (es_slots (snd (es_move_slot sid to q)))
    = move_entry from to (map xs_slot_id (es_slots q))"
  using assms es_slot_index_lt [OF assms(1)]
  by (simp add: es_move_slot_def Let_def move_entry_def map_insert_at map_remove_at)

definition moves_entry :: "queue_slot_id \<Rightarrow> usize \<Rightarrow> play_run \<Rightarrow> usize \<Rightarrow> bool" where
  "moves_entry sid to r from \<longleftrightarrow>
     es_slot_index (pr_queue r) sid = Some from \<and> to < pr_queue_len r \<and> from \<noteq> to"

lemma cmd_queue_move_result:
  assumes "moves_entry sid to r from"
  shows "pr_ids (cmd_queue_move sid to r) = move_entry from to (pr_ids r)"
    "pr_current_idx (cmd_queue_move sid to r) = shift_index_for_move (pr_current_idx r) from to"
    "pr_lifecycle (cmd_queue_move sid to r) = pr_lifecycle r"
    "pr_queue (cmd_queue_move sid to r) = snd (es_move_slot sid to (pr_queue r))"
    "pr_log (cmd_queue_move sid to r) = pr_log r @
       (if is_active_file (pr_lifecycle r) then []
        else [Mpv_Playlist_Move (fst (playlist_move_args from to)) (snd (playlist_move_args from to))])"
  using assms es_move_ids [of "pr_queue r" sid "from" to] es_slot_index_lt [of "pr_queue r" sid "from"]
  by (simp_all add: moves_entry_def cmd_queue_move_def Let_def pr_ids_def pr_queue_len_def
      split_beta) (simp_all add: emit_def)

lemma cmd_queue_move_idle:
  assumes "\<not> (\<exists>from. moves_entry sid to r from)"
  shows "cmd_queue_move sid to r = r"
  using assms by (auto simp: moves_entry_def cmd_queue_move_def split: option.split)

lemma move_in_step:
  assumes "playlist_move_documented mv" "in_step mv rm loaded r" "\<not> is_active_file (pr_lifecycle r)"
  shows "in_step mv rm loaded (cmd_queue_move sid to r)"
proof (cases "\<exists>from. moves_entry sid to r from")
  case True
  then obtain "from" where m: "moves_entry sid to r from" by blast
  then have lt: "from < length (pr_ids r)" "to < length (pr_ids r)" "from \<noteq> to"
    using es_slot_index_lt [of "pr_queue r" sid "from"]
    by (auto simp: moves_entry_def pr_ids_def pr_queue_len_def)
  from playlist_move_mirrors [OF assms(1) lt] assms(2,3) show ?thesis
    by (simp add: in_step_def cmd_queue_move_result [OF m] mpv_playlist_def)
next
  case False
  with assms(2) show ?thesis by (simp add: cmd_queue_move_idle)
qed

text \<open>The entry the run is on keeps being the entry it is on.\<close>

lemma move_keeps_current:
  assumes "pr_current_idx r < pr_queue_len r"
  shows "pr_slot_id_at (cmd_queue_move sid to r) (pr_current_idx (cmd_queue_move sid to r))
      = pr_slot_id_at r (pr_current_idx r)
    \<and> pr_current_idx (cmd_queue_move sid to r) < pr_queue_len (cmd_queue_move sid to r)"
proof (cases "\<exists>from. moves_entry sid to r from")
  case True
  then obtain "from" where m: "moves_entry sid to r from" by blast
  have at: "pr_slot_id_at x i = nth_opt (pr_ids x) i" for x i
    by (simp add: pr_slot_id_at_def pr_ids_def nth_opt_def)
  have len: "pr_queue_len x = length (pr_ids x)" for x
    by (simp add: pr_queue_len_def pr_ids_def)
  have lt: "from < length (pr_ids r)" "to < length (pr_ids r)" "pr_current_idx r < length (pr_ids r)"
    using m assms es_slot_index_lt [of "pr_queue r" sid "from"]
    by (auto simp: moves_entry_def pr_ids_def pr_queue_len_def)
  have "length (move_entry from to (pr_ids r)) = length (pr_ids r)"
    using lt by (simp add: move_entry_def)
  with shift_index_tracks [OF lt] lt show ?thesis
    by (simp add: at len cmd_queue_move_result [OF m] nth_opt_def)
next
  case False
  with assms show ?thesis by (simp add: cmd_queue_move_idle)
qed

lemma move_es_inv: "es_inv (pr_queue r) \<Longrightarrow> es_inv (pr_queue (cmd_queue_move sid to r))"
proof (cases "\<exists>from. moves_entry sid to r from")
  case True
  assume "es_inv (pr_queue r)"
  with es_seq.move_law [of "pr_queue r" sid to] True show ?thesis
    by (auto simp: cmd_queue_move_result(4))
qed (simp add: cmd_queue_move_idle)

end
