(* ===== verification/Run_Conduct.thy ===== *)
theory Run_Conduct
  imports Run_Commands
begin

text \<open>
  What the sequence handlers of a run guarantee: the run and mpv's playlist stay in step over
  moves, reorders and removals, the coordinate \<open>pr_current_idx\<close> keeps naming the entry that
  plays, and a shortened playlist cuts the sequence at the same place. The last section shows
  where the coordinate is lost: a removal in front of the entry that plays.
\<close>

section \<open>Reorders\<close>

lemma es_inv_distinct: "es_inv (pr_queue r) \<Longrightarrow> distinct (pr_ids r)"
  by (simp add: es_inv_def view_wf_def pr_ids_def es_ids_view)

lemma es_slot_index_ids: "es_slot_index (pr_queue r) sid = position (\<lambda>k. k = sid) (pr_ids r)"
  by (simp add: es_slot_index_def pr_ids_def position_map)

lemma move_entry_self: "i < length xs \<Longrightarrow> move_entry i i xs = xs"
  by (simp add: move_entry_def insert_at_def remove_at_def id_take_nth_drop [symmetric])

lemma move_id_entry:
  assumes "distinct xs" "i < length xs" "to < length xs"
  shows "move_id (xs ! i) to xs = move_entry i to xs"
proof -
  have "min to (length xs - 1) = to" using assms(3) by simp
  moreover have "filter (\<lambda>k. k \<noteq> xs ! i) xs = remove_at i xs"
    using remove_at_filter [OF assms(1,2)] by simp
  ultimately show ?thesis by (simp add: move_id_def move_entry_def)
qed

lemma cmd_queue_move_ids:
  assumes "es_inv (pr_queue r)" "sid \<in> set (pr_ids r)" "to < length (pr_ids r)"
  shows "pr_ids (cmd_queue_move sid to r) = move_id sid to (pr_ids r)"
proof -
  from assms(2) obtain i where i: "position (\<lambda>k. k = sid) (pr_ids r) = Some i" by fastforce
  have lt: "i < length (pr_ids r)" "pr_ids r ! i = sid"
    using position_lessD [OF i] position_holds [OF i] by auto
  have moved: "move_id sid to (pr_ids r) = move_entry i to (pr_ids r)"
    using move_id_entry [OF es_inv_distinct [OF assms(1)] lt(1) assms(3)] lt(2) by simp
  show ?thesis
  proof (cases "i = to")
    case True
    then have "cmd_queue_move sid to r = r"
      using i by (intro cmd_queue_move_idle) (auto simp: moves_entry_def es_slot_index_ids)
    with True lt show ?thesis by (simp add: moved move_entry_self)
  next
    case False
    then have "moves_entry sid to r i"
      using i assms(3) by (simp add: moves_entry_def es_slot_index_ids) (simp add: pr_queue_len_def pr_ids_def)
    then show ?thesis by (simp add: cmd_queue_move_result(1) moved)
  qed
qed

lemma cmd_queue_move_active: "pr_active_slot_id (cmd_queue_move sid to r) = pr_active_slot_id r"
  by (simp add: cmd_queue_move_def pr_active_slot_id_def es_move_slot_def Let_def
      split: option.splits prod.splits)

lemma cmd_queue_move_lifecycle: "pr_lifecycle (cmd_queue_move sid to r) = pr_lifecycle r"
  by (simp add: cmd_queue_move_def Let_def split: option.splits prod.splits)

text \<open>What every move keeps, and hence every list of moves.\<close>

definition pr_current_slot :: "play_run \<Rightarrow> queue_slot_id option" where
  "pr_current_slot r = pr_slot_id_at r (pr_current_idx r)"

definition run_ready :: "play_run \<Rightarrow> bool" where
  "run_ready r \<longleftrightarrow> es_inv (pr_queue r) \<and> pr_current_idx r < pr_queue_len r"

definition same_place :: "play_run \<Rightarrow> play_run \<Rightarrow> bool" where
  "same_place r r' \<longleftrightarrow> run_ready r' \<and> pr_current_slot r' = pr_current_slot r
     \<and> pr_active_slot_id r' = pr_active_slot_id r \<and> pr_lifecycle r' = pr_lifecycle r"

lemma move_same_place: "run_ready r \<Longrightarrow> same_place r (cmd_queue_move sid to r)"
  using move_keeps_current [of r sid to]
  by (simp add: same_place_def run_ready_def pr_current_slot_def move_es_inv
      cmd_queue_move_active cmd_queue_move_lifecycle)

lemma moves_same_place:
  "run_ready r \<Longrightarrow> same_place r (fold (\<lambda>(sid, to). cmd_queue_move sid to) plan r)"
proof (induction plan arbitrary: r)
  case (Cons m plan)
  obtain sid to where m: "m = (sid, to)" by (cases m)
  from move_same_place [OF Cons.prems, of sid to]
  have "same_place r (cmd_queue_move sid to r)" .
  with Cons.IH [of "cmd_queue_move sid to r"] show ?case by (simp add: m same_place_def)
qed (simp add: same_place_def)

lemma moves_in_step:
  assumes "playlist_move_documented mv"
  shows "in_step mv rm loaded r \<Longrightarrow> \<not> is_active_file (pr_lifecycle r) \<Longrightarrow>
    in_step mv rm loaded (fold (\<lambda>(sid, to). cmd_queue_move sid to) plan r)"
proof (induction plan arbitrary: r)
  case (Cons m plan)
  then show ?case
    using move_in_step [OF assms Cons.prems] by (cases m) (simp add: cmd_queue_move_lifecycle)
qed simp

lemma moves_ids:
  "es_inv (pr_queue r) \<Longrightarrow> plan_in_range (pr_ids r) plan \<Longrightarrow>
    pr_ids (fold (\<lambda>(sid, to). cmd_queue_move sid to) plan r) = move_ids plan (pr_ids r)"
proof (induction plan arbitrary: r)
  case (Cons m plan)
  obtain sid to where m: "m = (sid, to)" by (cases m)
  have ids: "pr_ids (cmd_queue_move sid to r) = move_id sid to (pr_ids r)"
    using Cons.prems by (intro cmd_queue_move_ids) (auto simp: m plan_in_range_def)
  have "plan_in_range (pr_ids (cmd_queue_move sid to r)) plan"
    using plan_in_range_step(1) [OF _ es_inv_distinct [OF Cons.prems(1)]] Cons.prems(2)
    by (simp add: ids m)
  from Cons.IH [OF move_es_inv [OF Cons.prems(1)] this] show ?case
    by (simp add: m ids move_ids_def)
qed (simp add: move_ids_def)

text \<open>
  C21. A reorder command moves the run, mpv and the coordinate together. An order that does
  not name exactly the run's slots changes nothing; any other order is reached exactly, the
  planning never panics, the entry at the run's coordinate and the active slot are the ones
  they were, and in the playlist projection the commands sent to mpv leave mpv's playlist in
  the same order as the run's sequence.
\<close>

theorem reorder_keeps_run_in_step:
  assumes "run_ready r"
  shows "\<exists>r'. cmd_queue_reorder order r = Some r' \<and> same_place r r'
    \<and> pr_ids r' = (if mset order = mset (pr_ids r) then order else pr_ids r)
    \<and> (mset order \<noteq> mset (pr_ids r) \<longrightarrow> r' = r)
    \<and> (playlist_move_documented mv \<longrightarrow> in_step mv rm loaded r \<longrightarrow> \<not> is_active_file (pr_lifecycle r)
        \<longrightarrow> in_step mv rm loaded r')"
proof (cases "mset order = mset (pr_ids r)")
  case False
  then have "cmd_queue_reorder order r = Some r"
    using is_slot_permutation_iff [of "pr_ids r" order] es_inv_distinct [of r] assms
    by (auto simp: cmd_queue_reorder_def run_ready_def pr_ids_def Let_def)
  with False assms show ?thesis by (simp add: same_place_def)
next
  case True
  have inv: "es_inv (pr_queue r)" using assms by (simp add: run_ready_def)
  from reorder_move_plan_ok [OF es_inv_distinct [OF inv] True] obtain plan where plan:
    "reorder_move_plan (pr_ids r) order = Some plan" "move_ids plan (pr_ids r) = order"
    "plan_in_range (pr_ids r) plan" by blast
  let ?r = "fold (\<lambda>(sid, to). cmd_queue_move sid to) plan r"
  have "cmd_queue_reorder order r = Some ?r"
    using True plan(1) is_slot_permutation_iff [of "pr_ids r" order] es_inv_distinct [OF inv]
    by (simp add: cmd_queue_reorder_def pr_ids_def Let_def)
  moreover have "pr_ids ?r = order" using moves_ids [OF inv plan(3)] plan(2) by simp
  ultimately show ?thesis
    using moves_same_place [OF assms, of plan] moves_in_step [of mv rm loaded r plan] True by simp
qed

text \<open>A run over three Twitch streams, on the second one.\<close>

definition sample_run :: play_run where
  "sample_run = \<lparr>pr_identity = 1,
     pr_queue = \<lparr>es_slots = map (\<lambda>n. \<lparr>xs_slot_id = n,
         xs_item = QI_Twitch \<lparr>twitch_url = [], twitch_title = []\<rparr>\<rparr>) [1, 2, 3], es_active = Some 2\<rparr>,
     pr_current_idx = 1, pr_lifecycle = lifecycle_for_queue es_empty,
     pr_item = \<lparr>il_load_state = Ready, il_stop_report = NotSent\<rparr>, pr_pending_layout = False,
     pr_status = \<lparr>ps_active = True, ps_position_ticks = 0, ps_runtime_ticks = 0, ps_current_idx = 1,
       ps_queue_len = 3, ps_title = [], ps_artist = [], ps_album = [], ps_art_item_id = [],
       ps_art_album_id = [], ps_last_valid_pos = 50, ps_sequence_generation = 1\<rparr>,
     pr_osd_title = [], pr_last_valid_pos = 50, pr_series_id = [], pr_season = 0, pr_episode = 0,
     pr_intro_start = 0, pr_intro_end = 0, pr_intro_state = Intro_Pending,
     pr_tracks_initialized = True, pr_queue_next_up = NU_Idle, pr_origin = Origin_Queue,
     pr_reporter_id = [], pr_reporter_audio = False, pr_start_reported = False, pr_stop_slot = None,
     pr_stop_runtime = None, pr_quit_at = False, pr_last_seek_at = False, pr_next_up = NU_Idle,
     pr_next_up_jump = False, pr_stopped_near_end = False, pr_mark_played_id = None,
     pr_shutdown_timeout = False, pr_startup_pause = No_Pause, pr_log = []\<rparr>"

lemma sample_run_facts [simp]:
  "run_ready sample_run" "pr_ids sample_run = [1, 2, 3]" "es_inv (pr_queue sample_run)"
  "\<not> is_active_file (pr_lifecycle sample_run)" "pr_queue_len sample_run = 3"
  "pr_current_idx sample_run = 1" "es_active (pr_queue sample_run) = Some 2"
  "in_step mv rm [1, 2, 3] sample_run"
  by (simp_all add: sample_run_def run_ready_def es_inv_def view_wf_def view_ids_def es_view_def
      pr_ids_def pr_queue_len_def in_step_def mpv_playlist_def is_active_file_def
      lifecycle_for_queue_def es_has_audiobookshelf_entries_def es_empty_def)

definition sample_playlist_move :: "usize \<Rightarrow> usize \<Rightarrow> 'e list \<Rightarrow> 'e list" where
  "sample_playlist_move i j xs =
     (if i < j then take i xs @ drop (Suc i) (take j xs) @ xs ! i # drop j xs
      else take j xs @ xs ! i # drop j (take i xs) @ drop (Suc i) xs)"

definition sample_playlist_remove :: "usize \<Rightarrow> 'e list \<Rightarrow> 'e list" where
  "sample_playlist_remove i xs = take i xs @ drop (Suc i) xs"

lemma sample_mpv_documented [simp]:
  "playlist_move_documented sample_playlist_move" "playlist_remove_documented sample_playlist_remove"
  by (simp_all add: playlist_move_documented_def playlist_remove_documented_def
      sample_playlist_move_def sample_playlist_remove_def)

lemma reorder_keeps_run_in_step_witness:
  "\<exists>r'. cmd_queue_reorder [2, 3, 1] sample_run = Some r' \<and> pr_ids r' = [2, 3, 1]
     \<and> in_step sample_playlist_move sample_playlist_remove [1, 2, 3] r'"
  using reorder_keeps_run_in_step [of sample_run "[2, 3, 1]" sample_playlist_move
      sample_playlist_remove "[1, 2, 3]"]
  by (auto simp: add_mset_commute)

section \<open>A shortened playlist\<close>

lemma es_inv_pairs:
  "es_inv q \<longleftrightarrow> distinct (map xs_slot_id (es_slots q))
     \<and> (\<forall>sid. es_active q = Some sid \<longrightarrow> sid \<in> set (map xs_slot_id (es_slots q)))"
  by (auto simp: es_inv_def view_wf_def es_ids_view [symmetric] es_view_def view_ids_def comp_def)

lemma remove_slots_loop_tail:
  "es_inv q \<Longrightarrow> es_slots q = front @ tail \<Longrightarrow>
    remove_slots_loop (map xs_slot_id tail) q
      = q\<lparr>es_slots := front, es_active := opt_filter (\<lambda>sid. sid \<in> xs_slot_id ` set front) (es_active q)\<rparr>"
proof (induction tail arbitrary: q)
  case Nil
  then show ?case by (cases "es_active q") (auto simp: es_inv_pairs)
next
  case (Cons s tail)
  let ?sid = "xs_slot_id s"
  have d: "distinct (map xs_slot_id (front @ s # tail))" using Cons.prems by (simp add: es_inv_pairs)
  have idx: "es_slot_index q ?sid = Some (length front)"
    using position_distinct [of xs_slot_id "es_slots q" "length front"] d Cons.prems(2)
    by (simp add: es_slot_index_def)
  let ?q = "q\<lparr>es_slots := front @ tail, es_active := (if es_active q = Some ?sid then None else es_active q)\<rparr>"
  have step: "(if es_active q = Some ?sid then es_remove_active_slot_confirmed ?sid q
      else es_remove_slot ?sid q) = ?q"
    using idx Cons.prems(2)
    by (simp add: es_remove_active_slot_confirmed_def es_remove_slot_def Let_def remove_at_def)
  have "es_inv ?q" using d Cons.prems by (auto simp: es_inv_pairs)
  from Cons.IH [OF this] show ?case
    using d step by (cases "es_active q") auto
qed




section \<open>Removals\<close>

lemma removal_result:
  assumes "es_slot_index (pr_queue r) sid = Some i" "\<not> is_active_file (pr_lifecycle r)"
  shows "pr_queue (cmd_queue_remove io sid r)
      = (if es_active (pr_queue r) = Some sid then es_remove_active_slot_confirmed sid (pr_queue r)
         else es_remove_slot sid (pr_queue r))"
    "pr_lifecycle (cmd_queue_remove io sid r)
      = (if jump_target_slot (pr_lifecycle r) = Some sid then disarm_jump (pr_lifecycle r)
         else pr_lifecycle r)"
    "pr_current_idx (cmd_queue_remove io sid r) = pr_current_idx r"
    "pr_log (cmd_queue_remove io sid r) = pr_log r @ Mpv_Playlist_Remove i
       # (if es_active (pr_queue r) = Some sid then [Close_Source (pr_last_valid_pos r), Reporter_Clear_Item]
          else [])"
  using assms
  by (simp_all add: cmd_queue_remove_def Let_def pr_active_slot_id_def close_prepared_source_def)
    (simp_all add: emit_def)

lemma removal_queue:
  assumes "es_slot_index q sid = Some i"
  shows "(if es_active q = Some sid then es_remove_active_slot_confirmed sid q else es_remove_slot sid q)
    = q\<lparr>es_slots := remove_at i (es_slots q),
        es_active := (if es_active q = Some sid then None else es_active q)\<rparr>"
  using assms by (simp add: es_remove_active_slot_confirmed_def es_remove_slot_def Let_def)

text \<open>
  C26. A removal command in the playlist projection takes the slot out of the run and out of
  mpv's playlist at the same place: afterwards the run holds the other slots in their order
  and mpv's playlist agrees with it; the active marker is dropped exactly when its slot was
  the removed one; no jump stays armed at the removed slot and any other jump stays armed.
\<close>

theorem removal_keeps_run_in_step:
  assumes "es_inv (pr_queue r)" "sid \<in> set (pr_ids r)" "\<not> is_active_file (pr_lifecycle r)"
  shows "let r' = cmd_queue_remove io sid r in
    es_inv (pr_queue r') \<and> pr_ids r' = filter (\<lambda>k. k \<noteq> sid) (pr_ids r)
    \<and> pr_active_slot_id r'
        = (if pr_active_slot_id r = Some sid then None else pr_active_slot_id r)
    \<and> jump_target_slot (pr_lifecycle r') = opt_filter (\<lambda>k. k \<noteq> sid) (jump_target_slot (pr_lifecycle r))
    \<and> (playlist_remove_documented rm \<longrightarrow> in_step mv rm loaded r \<longrightarrow> in_step mv rm loaded r')"
proof -
  from assms(2) obtain i where i: "position (\<lambda>k. k = sid) (pr_ids r) = Some i" by fastforce
  have lt: "i < length (pr_ids r)" "pr_ids r ! i = sid"
    using position_lessD [OF i] position_holds [OF i] by auto
  have idx: "es_slot_index (pr_queue r) sid = Some i" using i by (simp add: es_slot_index_ids)
  note res = removal_result [OF idx assms(3), of io]
  have ids: "pr_ids (cmd_queue_remove io sid r) = remove_at i (pr_ids r)"
    unfolding pr_ids_def res(1) removal_queue [OF idx] by (simp add: map_remove_at)
  have filt: "remove_at i (pr_ids r) = filter (\<lambda>k. k \<noteq> sid) (pr_ids r)"
    using remove_at_filter [OF es_inv_distinct [OF assms(1)] lt(1)] lt(2) by simp
  have inv: "es_inv (pr_queue (cmd_queue_remove io sid r))"
    using es_seq.remove_law [OF assms(1), of sid] es_seq.confirm_law [OF assms(1), of sid]
    unfolding res(1) by simp
  have act: "es_active (pr_queue (cmd_queue_remove io sid r))
      = (if es_active (pr_queue r) = Some sid then None else es_active (pr_queue r))"
    unfolding res(1) removal_queue [OF idx] by simp
  have jump: "jump_target_slot (pr_lifecycle (cmd_queue_remove io sid r))
      = opt_filter (\<lambda>k. k \<noteq> sid) (jump_target_slot (pr_lifecycle r))"
    by (cases "jump_target_slot (pr_lifecycle r)")
      (auto simp: res(2) disarm_jump_def jump_target_slot_def)
  have step: "in_step mv rm loaded (cmd_queue_remove io sid r)"
    if "playlist_remove_documented rm" "in_step mv rm loaded r"
    using that lt(1) unfolding in_step_def ids res(4)
    by (simp add: mpv_playlist_def playlist_remove_documented_def remove_at_def)
  show ?thesis
    using inv act jump step by (simp add: Let_def ids filt pr_active_slot_id_def)
qed

lemma removal_keeps_run_in_step_witness:
  "pr_ids (cmd_queue_remove (\<lambda>_. Select_Works) 1 sample_run) = [2, 3]
   \<and> pr_active_slot_id (cmd_queue_remove (\<lambda>_. Select_Works) 1 sample_run) = Some 2
   \<and> in_step sample_playlist_move sample_playlist_remove [1, 2, 3] (cmd_queue_remove (\<lambda>_. Select_Works) 1 sample_run)"
  using removal_keeps_run_in_step [of sample_run 1 "\<lambda>_. Select_Works" sample_playlist_remove sample_playlist_move "[1, 2, 3]"]
  by (simp add: Let_def pr_active_slot_id_def)

section \<open>mpv moved on its own\<close>

text \<open>The run listens to mpv's position: nothing is loading and no jump is in flight.\<close>

definition listens_to_mpv :: "play_run \<Rightarrow> bool" where
  "listens_to_mpv r \<longleftrightarrow> \<not> pr_pending_layout r \<and> il_load_state (pr_item r) = Ready
     \<and> arm_is_idle (rl_jump (pr_lifecycle r)) \<and> \<not> is_active_file (pr_lifecycle r)"

text \<open>What the reporter is told about the item of a slot.\<close>

definition start_report :: "queue_item \<Rightarrow> effect" where
  "start_report it = (case it of QI_Emby e \<Rightarrow> Report_Start_Item (emby_id e) | _ \<Rightarrow> Reporter_Clear_Session)"

definition drift_log :: "play_run \<Rightarrow> queue_slot_id option \<Rightarrow> queue_slot_id \<Rightarrow> queue_item \<Rightarrow> effect list" where
  "drift_log r old new it = Report_Stopped (pr_last_valid_pos r) # stop_sent (pr_last_valid_pos r) r @ start_report it
     # (case old of Some sid \<Rightarrow>
          [Event_Track_Completed sid (pr_identity r) (pr_last_valid_pos r) False False] | None \<Rightarrow> [])
     @ [Event_Track_Changed new None]"

lemma set_active_index_ok:
  assumes "pr_slot_id_at r j = Some new"
  shows "set_active_index j r = (True, sync_status_position
    (r\<lparr>pr_queue := (pr_queue r)\<lparr>es_active := Some new\<rparr>, pr_current_idx := j\<rparr>))"
proof -
  have "\<exists>s\<in>set (es_slots (pr_queue r)). xs_slot_id s = new"
    using assms by (auto simp: pr_slot_id_at_def nth_opt_def split: if_splits)
  then show ?thesis
    using assms by (auto simp: set_active_index_def es_set_active_slot_def es_slot_index_def)
qed

lemma load_active_frame [simp]:
  "pr_queue (load_active_item_state r) = pr_queue r"
  "pr_current_idx (load_active_item_state r) = pr_current_idx r"
  "pr_lifecycle (load_active_item_state r) = pr_lifecycle r"
  "pr_status (load_active_item_state r) = pr_status r"
  "pr_identity (load_active_item_state r) = pr_identity r"
  "pr_log (load_active_item_state r) = pr_log r"
  by (simp_all add: load_active_item_state_def Let_def)

lemma report_active_result:
  "pr_active_item r = Some it \<Longrightarrow> pr_log (report_active_item r) = pr_log r @ [start_report it]"
  by (cases it) (simp_all add: report_active_item_def start_report_def start_item_def clear_session_def emit_def)

lemma active_item_cong:
  "pr_queue x = pr_queue y \<Longrightarrow> pr_active_item x = pr_active_item y"
  by (simp add: pr_active_item_def)

lemma adopt_result:
  assumes "pr_slot_id_at r j = Some new" "es_slot (pr_queue r) new = Some s"
  shows "let r' = snd (adopt_mpv_entry j p r) in
    fst (adopt_mpv_entry j p r) \<and> pr_queue r' = (pr_queue r)\<lparr>es_active := Some new\<rparr>
    \<and> pr_current_idx r' = j \<and> pr_identity r' = pr_identity r
    \<and> ps_current_idx (pr_status r') = j \<and> ps_queue_len (pr_status r') = pr_queue_len r
    \<and> pr_lifecycle r' = disarm_jump (pr_lifecycle r)
    \<and> \<not> pr_tracks_initialized r' \<and> pr_queue_next_up r' = NU_Idle
    \<and> pr_log r' = pr_log r @ [start_report (xs_item s)]"
proof -
  have item: "pr_active_item x = Some (xs_item s)"
    if "pr_queue x = (pr_queue r)\<lparr>es_active := Some new\<rparr>" for x
    using that assms(2) by (simp add: pr_active_item_def es_active_slot_def es_slot_def)
  show ?thesis
    by (simp add: adopt_mpv_entry_def Let_def set_active_index_ok [OF assms(1)] item
        report_active_result split_beta pr_queue_len_def show_item_def set_current_item_metadata_def
        next_up_reset_def split: option.split)
qed

lemma drift_adopted:
  assumes "listens_to_mpv r" "divergent_entry pos (pr_current_idx r) (pr_queue_len r) = Some j"
    "pr_slot_id_at r j = Some new" "es_slot (pr_queue r) new = Some s"
  shows "let r' = on_playlist_pos_changed pos p r in
    pr_queue r' = (pr_queue r)\<lparr>es_active := Some new\<rparr> \<and> pr_current_idx r' = j
    \<and> ps_current_idx (pr_status r') = j \<and> ps_queue_len (pr_status r') = pr_queue_len r
    \<and> pr_lifecycle r' = disarm_jump (pr_lifecycle r)
    \<and> \<not> pr_tracks_initialized r' \<and> pr_queue_next_up r' = NU_Idle
    \<and> pr_log r' = pr_log r @ drift_log r (pr_current_slot r) new (xs_item s)"
proof -
  let ?r1 = "(report_stopped (pr_last_valid_pos r) r)\<lparr>pr_item := mark_reported Sent (pr_item r)\<rparr>"
  have "on_playlist_pos_changed pos p r
      = snd (report_stopped_and_adopt_mpv_entry (pr_current_slot r) (pr_last_valid_pos r) j p r)"
    using assms(1,2) by (simp add: on_playlist_pos_changed_def listens_to_mpv_def pr_current_slot_def)
  moreover have "pr_slot_id_at ?r1 j = Some new" "es_slot (pr_queue ?r1) new = Some s"
    using assms(3,4) by (simp_all add: pr_slot_id_at_def)
  note adopt_result [OF this, of p, unfolded Let_def]
  ultimately show ?thesis
    by (simp add: report_stopped_and_adopt_mpv_entry_def Let_def split_beta announce_adopted_entry_def
        pr_active_slot_id_def pr_queue_len_def drift_log_def split: option.split) (simp add: emit_def)
qed

text \<open>
  C31. When mpv leaves the active entry on its own, the run follows it: if the reported
  position names another entry of the sequence and the run is listening, the run's coordinate,
  status and active slot become that entry's, no jump stays armed, the next-up offer and the
  track set-up start over, and the log gets exactly the stop report of the old item, the start
  report of the new one and the two announcements, in this order. In every other case nothing
  changes.
\<close>

theorem playlist_drift_followed:
  "let r' = on_playlist_pos_changed pos p r in
    if listens_to_mpv r \<and> 0 \<le> pos \<and> nat pos < pr_queue_len r \<and> nat pos \<noteq> pr_current_idx r
    then es_inv (pr_queue r) \<longrightarrow>
      (let s = es_slots (pr_queue r) ! nat pos in
       pr_queue r' = (pr_queue r)\<lparr>es_active := Some (xs_slot_id s)\<rparr>
       \<and> pr_current_idx r' = nat pos \<and> ps_current_idx (pr_status r') = nat pos
       \<and> ps_queue_len (pr_status r') = pr_queue_len r
       \<and> pr_lifecycle r' = disarm_jump (pr_lifecycle r)
       \<and> \<not> pr_tracks_initialized r' \<and> pr_queue_next_up r' = NU_Idle
       \<and> pr_log r' = pr_log r @ drift_log r (pr_current_slot r) (xs_slot_id s) (xs_item s))
    else r' = r"
proof (cases "listens_to_mpv r \<and> 0 \<le> pos \<and> nat pos < pr_queue_len r \<and> nat pos \<noteq> pr_current_idx r")
  case False
  then have "on_playlist_pos_changed pos p r = r"
    by (auto simp: on_playlist_pos_changed_def listens_to_mpv_def divergent_entry_def usize_of_i64_def)
  with False show ?thesis by auto
next
  case True
  let ?s = "es_slots (pr_queue r) ! nat pos"
  have dv: "divergent_entry pos (pr_current_idx r) (pr_queue_len r) = Some (nat pos)"
    using True by (simp add: divergent_entry_def usize_of_i64_def)
  have at: "pr_slot_id_at r (nat pos) = Some (xs_slot_id ?s)"
    using True by (simp add: pr_slot_id_at_def pr_queue_len_def)
  have slot: "es_slot (pr_queue r) (xs_slot_id ?s) = Some ?s" if "es_inv (pr_queue r)"
    using that True position_distinct [of xs_slot_id "es_slots (pr_queue r)" "nat pos"]
    by (simp add: es_slot_def find_position es_inv_pairs pr_queue_len_def)
  show ?thesis
    using True drift_adopted [OF _ dv at slot, of p] by (simp add: Let_def)
qed

lemma playlist_drift_followed_witness:
  "pr_current_idx (on_playlist_pos_changed 2 0 sample_run) = 2
   \<and> pr_active_slot_id (on_playlist_pos_changed 2 0 sample_run) = Some 3"
proof -
  have "listens_to_mpv sample_run" "es_slots (pr_queue sample_run) ! 2
      = \<lparr>xs_slot_id = 3, xs_item = QI_Twitch \<lparr>twitch_url = [], twitch_title = []\<rparr>\<rparr>"
    by (simp_all add: listens_to_mpv_def sample_run_def arm_is_idle_def lifecycle_for_queue_def
        es_empty_def es_has_audiobookshelf_entries_def is_active_file_def)
  with playlist_drift_followed [of 2 0 sample_run] show ?thesis
    by (simp add: Let_def pr_active_slot_id_def)
qed

section \<open>Where the coordinate is lost\<close>

lemma cmd_queue_remove_quiet:
  assumes "es_slot_index (pr_queue r) sid = Some i" "\<not> is_active_file (pr_lifecycle r)"
    "es_active (pr_queue r) \<noteq> Some sid" "arm_is_idle (rl_jump (pr_lifecycle r))"
  shows "cmd_queue_remove io sid r = sync_status_position
      (r\<lparr>pr_log := pr_log r @ [Mpv_Playlist_Remove i],
         pr_queue := (pr_queue r)\<lparr>es_slots := remove_at i (es_slots (pr_queue r))\<rparr>\<rparr>)"
proof -
  have "jump_target_slot (pr_lifecycle r) = None"
    using assms(4) by (simp add: arm_is_idle_def jump_target_slot_def split: jump_arm.splits)
  with assms(1-3) show ?thesis
    by (simp add: cmd_queue_remove_def Let_def pr_active_slot_id_def es_remove_slot_def emit_def)
qed

text \<open>
  C27. A removal in front of the entry that plays leaves the run's coordinate one too high.
  mpv keeps playing the same entry, now at the index before, and reports that position; the
  run takes the report for a jump of mpv's own: it stops the report of the playing item and
  announces the completion of the slot after it, which never played, before it announces the
  slot that has been playing all along.
\<close>

theorem removal_before_current_misreports:
  assumes "es_inv (pr_queue r)" "listens_to_mpv r" "pr_current_slot r = Some playing"
    "es_active (pr_queue r) = Some playing" "es_slot_index (pr_queue r) sid = Some i"
    "i < pr_current_idx r" "pr_slot_id_at r (Suc (pr_current_idx r)) = Some unplayed"
  shows "let r1 = cmd_queue_remove io sid r;
      r2 = on_playlist_pos_changed (int (pr_current_idx r - 1)) mpv_pos r1 in
    pr_slot_id_at r1 (pr_current_idx r - 1) = Some playing
    \<and> pr_active_slot_id r1 = Some playing \<and> pr_active_slot_id r2 = Some playing
    \<and> {Report_Stopped (pr_last_valid_pos r),
        Event_Track_Completed unplayed (pr_identity r) (pr_last_valid_pos r) False False,
        Event_Track_Changed playing None} \<subseteq> set (pr_log r2)"
proof -
  let ?k = "pr_current_idx r - 1"
  let ?r1 = "cmd_queue_remove io sid r"
  have ids: "i < length (es_slots (pr_queue r))" "xs_slot_id (es_slots (pr_queue r) ! i) = sid"
    using es_slot_index_lt [OF assms(5)] by auto
  have nth: "pr_slot_id_at r1 n = nth_opt (pr_ids r1) n" for r1 n
    by (simp add: pr_slot_id_at_def pr_ids_def nth_opt_def)
  have cur: "pr_ids r ! pr_current_idx r = playing" "pr_current_idx r < length (pr_ids r)"
    "pr_ids r ! Suc (pr_current_idx r) = unplayed" "Suc (pr_current_idx r) < length (pr_ids r)"
    using assms(3,7) by (auto simp: pr_current_slot_def nth nth_opt_def split: if_splits)
  have "sid \<noteq> playing"
    using es_inv_distinct [OF assms(1)] ids cur assms(6)
    by (auto simp: pr_ids_def distinct_conv_nth)
  then have r1: "?r1 = sync_status_position (r\<lparr>pr_log := pr_log r @ [Mpv_Playlist_Remove i],
      pr_queue := (pr_queue r)\<lparr>es_slots := remove_at i (es_slots (pr_queue r))\<rparr>\<rparr>)"
    using assms(2,4,5) by (intro cmd_queue_remove_quiet) (auto simp: listens_to_mpv_def)
  have ids1: "pr_ids ?r1 = remove_at i (pr_ids r)" by (simp add: r1 pr_ids_def map_remove_at)
  have cur1: "pr_current_idx ?r1 = pr_current_idx r" by (simp add: r1)
  have at: "pr_slot_id_at ?r1 ?k = Some playing" "pr_slot_id_at ?r1 (pr_current_idx r) = Some unplayed"
    using cur assms(6) by (auto simp: nth ids1 nth_opt_def nth_remove_at)
  have len: "?k < pr_queue_len ?r1" "?k \<noteq> pr_current_idx ?r1"
    using at(1) assms(6) by (auto simp: pr_slot_id_at_def pr_queue_len_def nth_opt_def cur1 split: if_splits)
  have listens: "listens_to_mpv ?r1"
    using assms(2) by (simp add: listens_to_mpv_def r1 sync_status_position_def)
  have dv: "divergent_entry (int ?k) (pr_current_idx ?r1) (pr_queue_len ?r1) = Some ?k"
    using len by (simp add: divergent_entry_def usize_of_i64_def)
  obtain s where s: "es_slot (pr_queue ?r1) playing = Some s"
  proof -
    have "\<exists>s\<in>set (es_slots (pr_queue ?r1)). xs_slot_id s = playing"
      using at(1) by (auto simp: pr_slot_id_at_def nth_opt_def split: if_splits)
    then show ?thesis using that
      by (cases "es_slot (pr_queue ?r1) playing") (auto simp: es_slot_def find_None_iff)
  qed
  have act: "pr_active_slot_id ?r1 = Some playing" using assms(4) by (simp add: r1 pr_active_slot_id_def)
  have kept: "pr_last_valid_pos ?r1 = pr_last_valid_pos r" "pr_identity ?r1 = pr_identity r"
    by (simp_all add: r1 sync_status_position_def)
  from drift_adopted [OF listens dv at(1) s, of mpv_pos] at act kept show ?thesis
    by (simp add: Let_def drift_log_def pr_current_slot_def cur1 pr_active_slot_id_def)
qed

lemma removal_before_current_misreports_witness:
  "Event_Track_Completed 3 1 50 False False
     \<in> set (pr_log (on_playlist_pos_changed 0 0 (cmd_queue_remove (\<lambda>_. Select_Works) 1 sample_run)))"
proof -
  have "listens_to_mpv sample_run" "pr_current_slot sample_run = Some 2"
    "es_slot_index (pr_queue sample_run) 1 = Some 0"
    "pr_slot_id_at sample_run (Suc (pr_current_idx sample_run)) = Some 3"
    "pr_identity sample_run = 1" "pr_last_valid_pos sample_run = 50"
    by (simp_all add: listens_to_mpv_def sample_run_def arm_is_idle_def lifecycle_for_queue_def
        es_empty_def es_has_audiobookshelf_entries_def is_active_file_def pr_current_slot_def
        pr_slot_id_at_def nth_opt_def es_slot_index_def)
  with removal_before_current_misreports [of sample_run 2 1 0 3 "\<lambda>_. Select_Works" 0] show ?thesis
    by (simp add: Let_def)
qed

end
