(* ===== verification/List_Flow.thy ===== *)
theory List_Flow
  imports Prelude
begin

text \<open>
  The list arithmetic every list shape of the user interface shares
  (\<^verbatim>\<open>mbv-surfaces/src/list\<close>): a flow of selectable and structural rows, cursor movement over
  its selectable rows, ordered marks, and the viewport. In the source the cursor and the
  viewport are traits whose default methods work on the accessors of an implementing shape;
  here those methods are functions of the accessors, and the locales \<open>cursored\<close> and
  \<open>viewported\<close> state what the accessors promise and prove what the methods then do.
\<close>

section \<open>Row flow\<close>

datatype 'a row = Selectable 'a | Structural

fun row_target :: "'a row \<Rightarrow> 'a option" where
  "row_target (Selectable t) = Some t"
| "row_target Structural = None"

fun row_is_structural :: "'a row \<Rightarrow> bool" where
  "row_is_structural Structural = True"
| "row_is_structural (Selectable t) = False"

record 'a row_flow =
  rf_rows :: "'a row list"

definition rf_len :: "'a row_flow \<Rightarrow> usize" where
  "rf_len f = length (rf_rows f)"

definition rf_row_at :: "'a row_flow \<Rightarrow> usize \<Rightarrow> 'a row option" where
  "rf_row_at f p = nth_opt (rf_rows f) p"

definition rf_position_of :: "'a row_flow \<Rightarrow> 'a \<Rightarrow> usize option" where
  "rf_position_of f t = position (\<lambda>r. case row_target r of Some c \<Rightarrow> c = t | None \<Rightarrow> False) (rf_rows f)"

definition selectable_len :: "'a row_flow \<Rightarrow> usize" where
  "selectable_len f = length (filter (\<lambda>r. row_target r \<noteq> None) (rf_rows f))"

definition rf_target_at :: "'a row_flow \<Rightarrow> usize \<Rightarrow> 'a option" where
  "rf_target_at f p = Option.bind (rf_row_at f p) row_target"

text \<open>
  The source slices up to the position and panics past the end of the flow; both callers pass
  positions of the flow (\<open>rf_index_lt\<close>, \<open>rf_find_lt\<close>).
\<close>

definition selectable_ordinal_at :: "'a row_flow \<Rightarrow> usize \<Rightarrow> usize option" where
  "selectable_ordinal_at f p =
     (let n = length (filter (\<lambda>r. row_target r \<noteq> None) (take (Suc p) (rf_rows f)))
      in if n = 0 then None else Some (n - 1))"

definition position_of_selectable :: "'a row_flow \<Rightarrow> usize \<Rightarrow> usize option" where
  "position_of_selectable f n =
     nth_opt (filter (\<lambda>p. rf_target_at f p \<noteq> None) [0..<length (rf_rows f)]) n"

section \<open>Cursor\<close>

definition cur_index :: "('s \<Rightarrow> 'a option) \<Rightarrow> 'a row_flow \<Rightarrow> 's \<Rightarrow> usize option" where
  "cur_index selected f s = Option.bind (selected s) (rf_position_of f)"

definition cur_first :: "('a option \<Rightarrow> 's \<Rightarrow> 's) \<Rightarrow> 'a row_flow \<Rightarrow> 's \<Rightarrow> usize option \<times> 's" where
  "cur_first set_selected f s =
     (let p = position_of_selectable f 0
      in (p, set_selected (Option.bind p (rf_target_at f)) s))"

definition cur_select_target ::
  "('a option \<Rightarrow> 's \<Rightarrow> 's) \<Rightarrow> 'a row_flow \<Rightarrow> 'a \<Rightarrow> 's \<Rightarrow> bool \<times> 's" where
  "cur_select_target set_selected f t s =
     (if rf_position_of f t \<noteq> None then (True, set_selected (Some t) s)
      else (False, snd (cur_first set_selected f s)))"

definition cur_last :: "('a option \<Rightarrow> 's \<Rightarrow> 's) \<Rightarrow> 'a row_flow \<Rightarrow> 's \<Rightarrow> usize option \<times> 's" where
  "cur_last set_selected f s =
     (let p = (if selectable_len f = 0 then None
               else position_of_selectable f (selectable_len f - 1))
      in (p, set_selected (Option.bind p (rf_target_at f)) s))"

definition cur_select_ordinal ::
  "('a option \<Rightarrow> 's \<Rightarrow> 's) \<Rightarrow> 'a row_flow \<Rightarrow> usize \<Rightarrow> 's \<Rightarrow> usize option \<times> 's" where
  "cur_select_ordinal set_selected f ordinal s =
     (if selectable_len f = 0 then (None, set_selected None s)
      else (let p = position_of_selectable f (min ordinal (selectable_len f - 1))
            in (p, set_selected (Option.bind p (rf_target_at f)) s)))"

text \<open>
  \<^verbatim>\<open>isize\<close> distances are integers. The saturating addition cannot be told from an exact one:
  its result is cut to the last row.
\<close>

definition shift_clamped :: "usize \<Rightarrow> int \<Rightarrow> usize \<Rightarrow> usize" where
  "shift_clamped current delta len =
     (if delta < 0 then current - nat \<bar>delta\<bar> else min (current + nat \<bar>delta\<bar>) (len - 1))"

definition cur_move_by ::
  "('s \<Rightarrow> 'a option) \<Rightarrow> ('a option \<Rightarrow> 's \<Rightarrow> 's) \<Rightarrow> 'a row_flow \<Rightarrow> int \<Rightarrow> 's \<Rightarrow> usize option \<times> 's" where
  "cur_move_by selected set_selected f delta s =
     (if selectable_len f = 0 then (None, set_selected None s)
      else cur_select_ordinal set_selected f
        (case Option.bind (cur_index selected f s) (selectable_ordinal_at f) of
           Some current \<Rightarrow> shift_clamped current delta (selectable_len f)
         | None \<Rightarrow> if delta < 0 then selectable_len f - 1 else 0) s)"

section \<open>Marks\<close>

type_synonym 'a marks = "'a list"

definition marks_add :: "'a \<Rightarrow> 'a marks \<Rightarrow> bool \<times> 'a marks" where
  "marks_add t ms = (if \<exists>m\<in>set ms. m = t then (False, ms) else (True, ms @ [t]))"

definition marks_remove :: "'a \<Rightarrow> 'a marks \<Rightarrow> bool \<times> 'a marks" where
  "marks_remove t ms =
     (case position (\<lambda>m. m = t) ms of None \<Rightarrow> (False, ms) | Some i \<Rightarrow> (True, remove_at i ms))"

definition marks_contains :: "'a \<Rightarrow> 'a marks \<Rightarrow> bool" where
  "marks_contains t ms \<longleftrightarrow> (\<exists>m\<in>set ms. m = t)"

definition marks_set_targets :: "'a list \<Rightarrow> 'a marks \<Rightarrow> 'a marks" where
  "marks_set_targets ts ms = ts"

definition marks_retain :: "('a \<Rightarrow> bool) \<Rightarrow> 'a marks \<Rightarrow> 'a marks" where
  "marks_retain keep ms = filter keep ms"

definition marked_targets_in_flow_order :: "'a marks \<Rightarrow> 'a row_flow \<Rightarrow> 'a list" where
  "marked_targets_in_flow_order ms f =
     filter (\<lambda>t. marks_contains t ms) (List.map_filter (rf_target_at f) [0..<rf_len f])"

section \<open>Viewport\<close>

datatype viewport_anchor = FollowSelection | Free
datatype paging_policy = VisibleViewport

fun leading_structural_offset :: "'a row_flow \<Rightarrow> usize \<Rightarrow> usize" where
  "leading_structural_offset f 0 = 0"
| "leading_structural_offset f (Suc k) =
     (if (case rf_row_at f k of Some r \<Rightarrow> row_is_structural r | None \<Rightarrow> False)
      then leading_structural_offset f k else Suc k)"

definition max_viewport_offset_for_len :: "usize \<Rightarrow> usize \<Rightarrow> usize" where
  "max_viewport_offset_for_len len viewport_len = len - max viewport_len 1"

text \<open>\<^verbatim>\<open>i64::saturating_add\<close> and \<^verbatim>\<open>i64::try_from\<close> of a \<^verbatim>\<open>usize\<close>.\<close>

definition sat_i64 :: "int \<Rightarrow> i64" where
  "sat_i64 x = max i64_min (min x i64_max)"

definition i64_of_usize :: "usize \<Rightarrow> i64 option" where
  "i64_of_usize n = (if int n \<le> i64_max then Some (int n) else None)"

definition scrolled_viewport_offset :: "usize \<Rightarrow> i64 \<Rightarrow> usize \<Rightarrow> usize \<Rightarrow> usize" where
  "scrolled_viewport_offset current delta len viewport_len =
     (let max_offset = max_viewport_offset_for_len len viewport_len;
          cur = (case i64_of_usize (min current max_offset) of
                   Some c \<Rightarrow> c | None \<Rightarrow> if delta < 0 then 1 else 0);
          mx = (case i64_of_usize max_offset of Some m \<Rightarrow> m | None \<Rightarrow> i64_max)
      in nat (max 0 (min (sat_i64 (cur + delta)) mx)))"

definition resolved_viewport_offset ::
  "bool \<Rightarrow> viewport_anchor \<Rightarrow> usize \<Rightarrow> 'a row_flow \<Rightarrow> usize \<Rightarrow> usize option \<Rightarrow> usize" where
  "resolved_viewport_offset raise anchor current f viewport_len selected_position =
     (let height = max viewport_len 1;
          max_offset = max_viewport_offset_for_len (rf_len f) height;
          offset = min current max_offset
      in case (case anchor of FollowSelection \<Rightarrow> selected_position | Free \<Rightarrow> None) of
           None \<Rightarrow> offset
         | Some p \<Rightarrow>
             min (if p < offset then (if raise then leading_structural_offset f p else p)
                  else if p \<ge> offset + height then p + 1 - height
                  else offset) max_offset)"

definition vp_clamp ::
  "('s \<Rightarrow> usize) \<Rightarrow> (usize \<Rightarrow> 's \<Rightarrow> 's) \<Rightarrow> 'a row_flow \<Rightarrow> usize \<Rightarrow> 's \<Rightarrow> usize \<times> 's" where
  "vp_clamp offset set_offset f viewport_len s =
     (let off = min (offset s) (max_viewport_offset_for_len (rf_len f) viewport_len)
      in (off, set_offset off s))"

definition vp_scroll ::
  "('s \<Rightarrow> usize) \<Rightarrow> (usize \<Rightarrow> 's \<Rightarrow> 's) \<Rightarrow> (viewport_anchor \<Rightarrow> 's \<Rightarrow> 's) \<Rightarrow> 'a row_flow \<Rightarrow> usize
   \<Rightarrow> i64 \<Rightarrow> 's \<Rightarrow> usize \<times> 's" where
  "vp_scroll offset set_offset set_anchor f viewport_len delta s =
     (let off = scrolled_viewport_offset (offset s) delta (rf_len f) viewport_len
      in (off, set_anchor Free (set_offset off s)))"

definition vp_keep_selection_visible ::
  "bool \<Rightarrow> ('s \<Rightarrow> usize) \<Rightarrow> (usize \<Rightarrow> 's \<Rightarrow> 's) \<Rightarrow> ('s \<Rightarrow> viewport_anchor) \<Rightarrow> 'a row_flow \<Rightarrow> usize
   \<Rightarrow> usize option \<Rightarrow> 's \<Rightarrow> usize \<times> 's" where
  "vp_keep_selection_visible raise offset set_offset anchor f viewport_len pos s =
     (let off = resolved_viewport_offset raise (anchor s) (offset s) f viewport_len pos
      in (off, set_offset off s))"

definition page_position :: "'a row_flow \<Rightarrow> usize \<Rightarrow> int \<Rightarrow> usize \<Rightarrow> usize option" where
  "page_position f viewport_len direction current =
     (let distance = max viewport_len 1;
          desired = (if direction < 0 then current - distance
                     else min (current + distance) (rf_len f - 1));
          ok = (\<lambda>p. rf_target_at f p \<noteq> None)
      in if direction < 0
         then opt_or (List.find ok (rev [0..<Suc desired])) (List.find ok [Suc desired..<rf_len f])
         else opt_or (List.find ok [desired..<rf_len f]) (List.find ok (rev [0..<desired])))"

definition page_by_visible_rows ::
  "('s \<Rightarrow> 'a option) \<Rightarrow> ('a option \<Rightarrow> 's \<Rightarrow> 's) \<Rightarrow> 'a row_flow \<Rightarrow> usize \<Rightarrow> int \<Rightarrow> 's
   \<Rightarrow> usize option \<times> 's" where
  "page_by_visible_rows selected set_selected f viewport_len direction s =
     (let recovery = (if direction < 0 then -1 else 1)
      in case cur_index selected f s of
           None \<Rightarrow> cur_move_by selected set_selected f recovery s
         | Some current \<Rightarrow>
             (case page_position f viewport_len direction current of
                None \<Rightarrow> cur_move_by selected set_selected f recovery s
              | Some p \<Rightarrow>
                  (case (selectable_ordinal_at f current, selectable_ordinal_at f p) of
                     (Some co, Some to) \<Rightarrow>
                       cur_move_by selected set_selected f (int to - int co) s
                   | _ \<Rightarrow> cur_move_by selected set_selected f recovery s)))"

definition vp_page ::
  "bool \<Rightarrow> ('s \<Rightarrow> 'a option) \<Rightarrow> ('a option \<Rightarrow> 's \<Rightarrow> 's) \<Rightarrow> ('s \<Rightarrow> usize) \<Rightarrow> (usize \<Rightarrow> 's \<Rightarrow> 's)
   \<Rightarrow> ('s \<Rightarrow> viewport_anchor) \<Rightarrow> 'a row_flow \<Rightarrow> usize \<Rightarrow> int \<Rightarrow> paging_policy \<Rightarrow> 's \<Rightarrow> usize option \<times> 's" where
  "vp_page raise selected set_selected offset set_offset anchor f viewport_len direction policy s =
     (case policy of VisibleViewport \<Rightarrow>
        (let (p, s1) = page_by_visible_rows selected set_selected f viewport_len direction s
         in (p, snd (vp_keep_selection_visible raise offset set_offset anchor f viewport_len p s1))))"

definition vp_reconcile ::
  "bool \<Rightarrow> ('s \<Rightarrow> 'a option) \<Rightarrow> ('s \<Rightarrow> usize) \<Rightarrow> (usize \<Rightarrow> 's \<Rightarrow> 's) \<Rightarrow> ('s \<Rightarrow> viewport_anchor)
   \<Rightarrow> 'a row_flow \<Rightarrow> usize \<Rightarrow> 's \<Rightarrow> usize \<times> 's" where
  "vp_reconcile raise selected offset set_offset anchor f viewport_len s =
     (let s1 = snd (vp_clamp offset set_offset f viewport_len s)
      in vp_keep_selection_visible raise offset set_offset anchor f viewport_len
           (cur_index selected f s1) s1)"

section \<open>The selectable rows of a flow\<close>

definition row_targets :: "'a row list \<Rightarrow> 'a list" where
  "row_targets rs = List.map_filter row_target rs"

definition rf_targets :: "'a row_flow \<Rightarrow> 'a list" where
  "rf_targets f = row_targets (rf_rows f)"

lemma row_targets_simps [simp]:
  "row_targets [] = []" "row_targets (Selectable t # rs) = t # row_targets rs"
  "row_targets (Structural # rs) = row_targets rs" "row_targets (xs @ ys) = row_targets xs @ row_targets ys"
  by (simp_all add: row_targets_def List.map_filter_def)

lemma length_row_targets: "length (filter (\<lambda>r. row_target r \<noteq> None) rs) = length (row_targets rs)"
proof (induction rs)
  case (Cons r rs)
  then show ?case by (cases r) auto
qed simp

lemma selectable_len_targets: "selectable_len f = length (rf_targets f)"
  unfolding selectable_len_def rf_targets_def by (rule length_row_targets)

abbreviation row_is :: "'a \<Rightarrow> 'a row \<Rightarrow> bool" where
  "row_is t r \<equiv> (case row_target r of Some c \<Rightarrow> c = t | None \<Rightarrow> False)"

lemma position_row_targets:
  "position (row_is t) rs = Some p \<Longrightarrow>
    position (\<lambda>c. c = t) (row_targets rs) = Some (length (row_targets (take p rs)))
    \<and> row_targets (take (Suc p) rs) = row_targets (take p rs) @ [t] \<and> p < length rs"
proof (induction rs arbitrary: p)
  case (Cons r rs)
  show ?case
  proof (cases r)
    case (Selectable c)
    with Cons show ?thesis by (cases "c = t") auto
  next
    case Structural
    with Cons show ?thesis by auto
  qed
qed simp

lemma position_row_targets_None:
  "position (row_is t) rs = None \<longleftrightarrow> t \<notin> set (row_targets rs)"
proof (induction rs)
  case (Cons r rs)
  then show ?case by (cases r) auto
qed simp

lemma rf_position_Some:
  assumes "rf_position_of f t = Some p"
  shows "selectable_ordinal_at f p = position (\<lambda>c. c = t) (rf_targets f)"
    "\<exists>i. position (\<lambda>c. c = t) (rf_targets f) = Some i" "p < rf_len f"
  using position_row_targets [of t "rf_rows f" p] assms
  unfolding rf_position_of_def selectable_ordinal_at_def rf_targets_def rf_len_def
    length_row_targets Let_def by simp_all

lemma rf_position_None: "rf_position_of f t = None \<longleftrightarrow> t \<notin> set (rf_targets f)"
  by (simp add: rf_position_of_def rf_targets_def position_row_targets_None del: position_None)

lemma cur_ordinal:
  "Option.bind (cur_index selected f s) (selectable_ordinal_at f)
    = Option.bind (selected s) (\<lambda>t. position (\<lambda>c. c = t) (rf_targets f))"
proof (cases "selected s")
  case (Some t)
  then show ?thesis
    using rf_position_Some(1) [of f t] rf_position_None [of f t] position_None [of "\<lambda>c. c = t" "rf_targets f"]
    by (cases "rf_position_of f t") (auto simp: cur_index_def simp del: position_None)
qed (simp add: cur_index_def)

definition row_target_at :: "'a row list \<Rightarrow> usize \<Rightarrow> 'a option" where
  "row_target_at rs p = Option.bind (nth_opt rs p) row_target"

lemma row_target_at_snoc:
  "row_target_at (rs @ [r]) p = (if p < length rs then row_target_at rs p
     else if p = length rs then row_target r else None)"
  by (simp add: row_target_at_def nth_opt_def nth_append)

lemma map_filter_cong_set: "(\<And>x. x \<in> set xs \<Longrightarrow> g x = h x) \<Longrightarrow> List.map_filter g xs = List.map_filter h xs"
  by (induction xs) (auto simp: List.map_filter_simps split: option.split)

lemma map_filter_append: "List.map_filter g (xs @ ys) = List.map_filter g xs @ List.map_filter g ys"
  by (simp add: List.map_filter_def)

lemma selectable_positions:
  "List.map_filter (row_target_at rs) [0..<length rs] = row_targets rs"
proof (induction rs rule: rev_induct)
  case (snoc r rs)
  have "List.map_filter (row_target_at (rs @ [r])) [0..<length rs]
      = List.map_filter (row_target_at rs) [0..<length rs]"
    by (rule map_filter_cong_set) (simp add: row_target_at_snoc)
  with snoc show ?case
    by (cases r) (simp_all add: map_filter_append List.map_filter_simps row_target_at_snoc [of _ _ "length rs"])
qed (simp add: List.map_filter_simps)

lemma position_of_selectable_target:
  "Option.bind (position_of_selectable f n) (rf_target_at f) = nth_opt (rf_targets f) n"
proof -
  let ?ps = "filter (\<lambda>p. rf_target_at f p \<noteq> None) [0..<length (rf_rows f)]"
  have map: "map (\<lambda>p. the (rf_target_at f p)) ?ps = rf_targets f"
    using selectable_positions [of "rf_rows f"]
    by (simp add: rf_target_at_def [abs_def] rf_row_at_def rf_targets_def row_target_at_def [abs_def]
        List.map_filter_def comp_def)
  then have len: "length ?ps = length (rf_targets f)" by (metis length_map)
  show ?thesis
  proof (cases "n < length ?ps")
    case True
    then have "rf_target_at f (?ps ! n) \<noteq> None" using nth_mem [OF True] by auto
    moreover have "the (rf_target_at f (?ps ! n)) = rf_targets f ! n"
      using True map by (metis (no_types, lifting) nth_map)
    ultimately show ?thesis
      using True len by (auto simp: position_of_selectable_def nth_opt_def)
  next
    case False
    then show ?thesis using len by (simp add: position_of_selectable_def nth_opt_def)
  qed
qed

section \<open>The cursor contract\<close>

text \<open>The target a movement of \<open>delta\<close> selects among the targets of the flow.\<close>

definition moved_target :: "'a list \<Rightarrow> 'a option \<Rightarrow> int \<Rightarrow> 'a option" where
  "moved_target ts cur delta =
     (if ts = [] then None
      else nth_opt ts
        (case Option.bind cur (\<lambda>t. position (\<lambda>c. c = t) ts) of
           Some i \<Rightarrow> shift_clamped i delta (length ts)
         | None \<Rightarrow> if delta < 0 then length ts - 1 else 0))"

locale cursored =
  fixes wf :: "'s \<Rightarrow> bool"
    and flow_of :: "'s \<Rightarrow> 'a row_flow"
    and selected :: "'s \<Rightarrow> 'a option"
    and set_selected :: "'a option \<Rightarrow> 's \<Rightarrow> 's"
  assumes wf_set: "wf s \<Longrightarrow> wf (set_selected target s)"
    and flow_set: "wf s \<Longrightarrow> flow_of (set_selected target s) = flow_of s"
    and selected_set: "wf s \<Longrightarrow> t \<in> set (rf_targets (flow_of s)) \<Longrightarrow>
      selected (set_selected (Some t) s) = Some t"
    and selected_none: "wf s \<Longrightarrow> rf_targets (flow_of s) = [] \<Longrightarrow> selected (set_selected None s) = None"
begin

lemma selected_nth:
  assumes "wf s" "rf_targets (flow_of s) = [] \<longrightarrow> n = 0"
    "rf_targets (flow_of s) \<noteq> [] \<longrightarrow> n < length (rf_targets (flow_of s))"
  shows "selected (set_selected (nth_opt (rf_targets (flow_of s)) n) s) = nth_opt (rf_targets (flow_of s)) n"
  using assms selected_set [of s] selected_none [of s]
  by (cases "rf_targets (flow_of s) = []") (auto simp: nth_opt_def)

lemma first_selected:
  "wf s \<Longrightarrow> selected (snd (cur_first set_selected (flow_of s) s)) = nth_opt (rf_targets (flow_of s)) 0"
  using selected_nth [of s 0] by (simp add: cur_first_def Let_def position_of_selectable_target)

lemma clamped_selected:
  assumes "wf s" "rf_targets (flow_of s) \<noteq> []"
  shows "selected (set_selected (nth_opt (rf_targets (flow_of s))
        (min n (length (rf_targets (flow_of s)) - 1))) s)
    = nth_opt (rf_targets (flow_of s)) (min n (length (rf_targets (flow_of s)) - 1))"
proof -
  have "0 < length (rf_targets (flow_of s))" using assms(2) by simp
  then have "min n (length (rf_targets (flow_of s)) - 1) < length (rf_targets (flow_of s))" by linarith
  with selected_nth [OF assms(1), of "min n (length (rf_targets (flow_of s)) - 1)"] assms(2)
  show ?thesis by simp
qed

lemma ordinal_selected:
  assumes "wf s"
  shows "selected (snd (cur_select_ordinal set_selected (flow_of s) n s))
    = nth_opt (rf_targets (flow_of s)) (min n (length (rf_targets (flow_of s)) - 1))"
proof (cases "rf_targets (flow_of s) = []")
  case True
  with assms selected_none [of s] show ?thesis
    by (simp add: cur_select_ordinal_def selectable_len_targets nth_opt_def)
next
  case False
  with clamped_selected [OF assms False, of n] show ?thesis
    unfolding cur_select_ordinal_def selectable_len_targets Let_def position_of_selectable_target
    by simp
qed

lemma last_selected:
  assumes "wf s"
  shows "selected (snd (cur_last set_selected (flow_of s) s))
    = nth_opt (rf_targets (flow_of s)) (length (rf_targets (flow_of s)) - 1)"
proof (cases "rf_targets (flow_of s) = []")
  case True
  with assms selected_none [of s] show ?thesis
    by (simp add: cur_last_def selectable_len_targets nth_opt_def)
next
  case False
  with clamped_selected [OF assms False, of "length (rf_targets (flow_of s)) - 1"] show ?thesis
    unfolding cur_last_def selectable_len_targets Let_def by (simp add: position_of_selectable_target)
qed

lemma target_selected:
  assumes "wf s"
  shows "selected (snd (cur_select_target set_selected (flow_of s) t s))
    = (if t \<in> set (rf_targets (flow_of s)) then Some t else nth_opt (rf_targets (flow_of s)) 0)"
  using assms rf_position_None [of "flow_of s" t] first_selected [OF assms]
  by (auto simp: cur_select_target_def selected_set)

lemma shift_clamped_less: "i < n \<Longrightarrow> shift_clamped i delta n < n"
  by (auto simp: shift_clamped_def)

lemma moved_selected:
  assumes "wf s"
  shows "selected (snd (cur_move_by selected set_selected (flow_of s) delta s))
    = moved_target (rf_targets (flow_of s)) (selected s) delta"
proof (cases "rf_targets (flow_of s) = []")
  case True
  with assms show ?thesis
    by (simp add: cur_move_by_def moved_target_def selectable_len_targets selected_none)
next
  case False
  let ?ts = "rf_targets (flow_of s)"
  let ?n = "case Option.bind (selected s) (\<lambda>t. position (\<lambda>c. c = t) ?ts) of
      Some i \<Rightarrow> shift_clamped i delta (length ?ts) | None \<Rightarrow> if delta < 0 then length ?ts - 1 else 0"
  have "?n < length ?ts"
    using False by (auto split: option.split simp: bind_eq_Some_conv intro!: shift_clamped_less
        dest: position_lessD)
  then have fit: "min ?n (length ?ts - 1) = ?n" by simp
  have "cur_move_by selected set_selected (flow_of s) delta s
      = cur_select_ordinal set_selected (flow_of s) ?n s"
    unfolding cur_move_by_def cur_ordinal selectable_len_targets using False by simp
  moreover have "moved_target ?ts (selected s) delta = nth_opt ?ts ?n"
    unfolding moved_target_def using False by simp
  ultimately show ?thesis using ordinal_selected [OF assms, of ?n] unfolding fit by (simp only:)
qed

lemma cursor_frame:
  assumes "wf s"
  shows "wf (snd (cur_first set_selected f s)) \<and> flow_of (snd (cur_first set_selected f s)) = flow_of s"
    "wf (snd (cur_last set_selected f s)) \<and> flow_of (snd (cur_last set_selected f s)) = flow_of s"
    "wf (snd (cur_select_ordinal set_selected f n s))
      \<and> flow_of (snd (cur_select_ordinal set_selected f n s)) = flow_of s"
    "wf (snd (cur_select_target set_selected f t s))
      \<and> flow_of (snd (cur_select_target set_selected f t s)) = flow_of s"
    "wf (snd (cur_move_by selected set_selected f delta s))
      \<and> flow_of (snd (cur_move_by selected set_selected f delta s)) = flow_of s"
  using assms
  by (simp_all add: cur_first_def cur_last_def cur_select_ordinal_def cur_select_target_def
      cur_move_by_def Let_def wf_set flow_set)

end

section \<open>The viewport contract\<close>

lemma max_offset_le: "max_viewport_offset_for_len len vl \<le> len - 1"
  by (simp add: max_viewport_offset_for_len_def)

lemma clamp_sat: "lo \<le> x \<Longrightarrow> m \<le> hi \<Longrightarrow> min (max lo (min x hi)) m = (min x m :: int)"
  by (simp add: min_def max_def)

lemma scrolled_offset_clamp:
  assumes "int len \<le> i64_max" "is_i64 delta"
  shows "int (scrolled_viewport_offset current delta len vl)
    = max 0 (min (int (min current (max_viewport_offset_for_len len vl)) + delta)
        (int (max_viewport_offset_for_len len vl)))"
proof -
  let ?m = "max_viewport_offset_for_len len vl"
  let ?c = "int (min current ?m)"
  have m: "int ?m \<le> i64_max" using assms(1) max_offset_le [of len vl] by linarith
  then have c: "?c \<le> i64_max" by linarith
  have "i64_min \<le> delta" using assms(2) by (simp only: is_i64_def)
  then have "i64_min \<le> ?c + delta" by linarith
  from clamp_sat [OF this m] have "min (sat_i64 (?c + delta)) (int ?m) = min (?c + delta) (int ?m)"
    by (simp only: sat_i64_def)
  moreover have "i64_of_usize (min current ?m) = Some ?c" "i64_of_usize ?m = Some (int ?m)"
    unfolding i64_of_usize_def using m c by (simp_all only: if_True)
  ultimately show ?thesis by (simp add: scrolled_viewport_offset_def Let_def)
qed

lemma leading_offset_le: "leading_structural_offset f p \<le> p"
  by (induction p) auto

lemma leading_offset_structural:
  "leading_structural_offset f p \<le> k \<Longrightarrow> k < p \<Longrightarrow> rf_row_at f k = Some Structural"
proof (induction p)
  case (Suc p)
  then show ?case
    by (cases "k = p") (auto split: if_splits option.splits elim: row_is_structural.elims)
qed simp

definition visible_at :: "usize \<Rightarrow> usize \<Rightarrow> usize \<Rightarrow> bool" where
  "visible_at offset viewport_len p \<longleftrightarrow> offset \<le> p \<and> p < offset + max viewport_len 1"

lemma resolved_bounds: "resolved_viewport_offset raise anchor current f vl pos \<le> max_viewport_offset_for_len (rf_len f) vl"
  by (simp add: resolved_viewport_offset_def Let_def max_viewport_offset_for_len_def split: option.split)

lemma resolved_kept:
  assumes "p < rf_len f" "current \<le> max_viewport_offset_for_len (rf_len f) vl" "visible_at current vl p"
  shows "resolved_viewport_offset raise anchor current f vl (Some p) = current"
  using assms
  by (cases anchor)
    (simp_all add: resolved_viewport_offset_def visible_at_def Let_def max_viewport_offset_for_len_def)

lemma resolved_visible:
  assumes "p < rf_len f" "raise \<longrightarrow> p - leading_structural_offset f p < max vl 1"
  shows "visible_at (resolved_viewport_offset raise FollowSelection current f vl (Some p)) vl p"
  using assms leading_offset_le [of f p]
  by (auto simp: resolved_viewport_offset_def visible_at_def Let_def max_viewport_offset_for_len_def
      max_def min_def)

locale viewported = cursored wf flow_of selected set_selected
  for wf :: "'s \<Rightarrow> bool" and flow_of :: "'s \<Rightarrow> 'a row_flow"
    and selected :: "'s \<Rightarrow> 'a option" and set_selected :: "'a option \<Rightarrow> 's \<Rightarrow> 's" +
  fixes offset :: "'s \<Rightarrow> usize"
    and set_offset :: "usize \<Rightarrow> 's \<Rightarrow> 's"
    and anchor :: "'s \<Rightarrow> viewport_anchor"
    and set_anchor :: "viewport_anchor \<Rightarrow> 's \<Rightarrow> 's"
  assumes wf_offset: "wf s \<Longrightarrow> wf (set_offset n s) \<and> wf (set_anchor a s)"
    and flow_offset: "wf s \<Longrightarrow> flow_of (set_offset n s) = flow_of s \<and> flow_of (set_anchor a s) = flow_of s"
    and selected_offset: "wf s \<Longrightarrow> selected (set_offset n s) = selected s \<and> selected (set_anchor a s) = selected s"
    and offset_set: "wf s \<Longrightarrow> n \<le> rf_len (flow_of s) - 1 \<Longrightarrow> offset (set_offset n s) = n"
    and offset_anchor: "wf s \<Longrightarrow> offset (set_anchor a s) = offset s"
    and anchor_set: "wf s \<Longrightarrow> anchor (set_offset n s) = anchor s \<and> anchor (set_anchor a s) = a"
begin

lemma scroll_frees:
  assumes "wf s" "int (rf_len (flow_of s)) \<le> i64_max" "is_i64 delta"
  shows "let s' = snd (vp_scroll offset set_offset set_anchor (flow_of s) vl delta s) in
    wf s' \<and> selected s' = selected s \<and> anchor s' = Free
    \<and> int (offset s') = max 0 (min (int (min (offset s) (max_viewport_offset_for_len (rf_len (flow_of s)) vl)) + delta)
        (int (max_viewport_offset_for_len (rf_len (flow_of s)) vl)))"
proof -
  let ?m = "max_viewport_offset_for_len (rf_len (flow_of s)) vl"
  let ?o = "scrolled_viewport_offset (offset s) delta (rf_len (flow_of s)) vl"
  note clamp = scrolled_offset_clamp [OF assms(2,3), of "offset s" vl]
  have "int ?o \<le> int ?m" unfolding clamp by linarith
  then have le: "?o \<le> rf_len (flow_of s) - 1" using max_offset_le [of "rf_len (flow_of s)" vl] by linarith
  have "wf (set_offset ?o s)" using assms(1) wf_offset by blast
  with assms(1) clamp offset_set [OF assms(1) le] show ?thesis
    by (simp add: vp_scroll_def Let_def wf_offset selected_offset offset_anchor anchor_set)
qed

lemma keep_visible:
  assumes "wf s" "anchor s = FollowSelection" "p < rf_len (flow_of s)"
    "raise \<longrightarrow> p - leading_structural_offset (flow_of s) p < max vl 1"
  shows "let s' = snd (vp_keep_selection_visible raise offset set_offset anchor (flow_of s) vl (Some p) s) in
    wf s' \<and> selected s' = selected s \<and> visible_at (offset s') vl p"
proof -
  let ?o = "resolved_viewport_offset raise (anchor s) (offset s) (flow_of s) vl (Some p)"
  have "?o \<le> rf_len (flow_of s) - 1"
    using resolved_bounds max_offset_le order_trans by blast
  then show ?thesis
    using assms resolved_visible [OF assms(3,4), of "offset s"]
    by (simp add: vp_keep_selection_visible_def Let_def wf_offset selected_offset offset_set)
qed

end

end
