(* ===== verification/Key_Input.thy ===== *)
theory Key_Input
  imports Prelude
begin

text \<open>
  The neutral keyboard vocabulary every client translates its raw input into
  (\<^verbatim>\<open>mbv-ui-msg/src/key.rs\<close>). A modifier set is the byte of flags of the source; a character
  key carries its Unicode code point.
\<close>

unbundle bit_operations_syntax

datatype key =
    Key_Backspace | Key_Enter | Key_Esc | Key_Left | Key_Right | Key_Up | Key_Down | Key_Home
  | Key_End | Key_PageUp | Key_PageDown | Key_Tab | Key_BackTab | Key_Delete | Key_Insert
  | Key_Function "8 word" | Key_Char nat | Key_Null

type_synonym key_modifiers = "8 word"

definition MOD_NONE :: key_modifiers where "MOD_NONE = 0"
definition MOD_SHIFT :: key_modifiers where "MOD_SHIFT = 1"
definition MOD_CONTROL :: key_modifiers where "MOD_CONTROL = 2"
definition MOD_ALT :: key_modifiers where "MOD_ALT = 4"

definition mods_contain :: "key_modifiers \<Rightarrow> key_modifiers \<Rightarrow> bool" where
  "mods_contain m other \<longleftrightarrow> m AND other = other"

definition mods_union :: "key_modifiers \<Rightarrow> key_modifiers \<Rightarrow> key_modifiers" where
  "mods_union m other = m OR other"

definition mods_without :: "key_modifiers \<Rightarrow> key_modifiers \<Rightarrow> key_modifiers" where
  "mods_without m other = m AND NOT other"

definition mods_empty :: "key_modifiers \<Rightarrow> bool" where
  "mods_empty m \<longleftrightarrow> m = 0"

record key_event =
  ke_code :: key
  ke_modifiers :: key_modifiers

text \<open>The character key of an ASCII literal of the source.\<close>

definition char_key :: "char \<Rightarrow> key" where
  "char_key c = Key_Char (of_char c)"

lemma char_key_inject [simp]: "char_key a = char_key b \<longleftrightarrow> a = b"
  by (simp add: char_key_def)

lemma mods_contain_none [simp]: "mods_contain 0 MOD_SHIFT = False" "mods_contain 0 MOD_CONTROL = False"
  "mods_contain 0 MOD_ALT = False"
  by (simp_all add: mods_contain_def MOD_SHIFT_def MOD_CONTROL_def MOD_ALT_def)

end
