(* ===== verification/Media_List.thy ===== *)
theory Media_List
  imports List_Flow Key_Input
begin

text \<open>
  The canonical media-list owner (\<^verbatim>\<open>mbv-surfaces/src/media_list.rs\<close>): the rows of one list,
  its cursor, resting scroll, marks and viewport anchor, with every operation a presentation
  can delegate to it. The marquee text and its clock, which only the painter reads, are left
  out. Indexing a row by a stored position panics in the source when the position is stale;
  the model reads no row then, and the invariant (theory \<open>Media_List_Laws\<close>) excludes it.
\<close>

section \<open>Rows\<close>

text \<open>A bounded percentage; the constructor clamps.\<close>

type_synonym active_progress = "8 word"

definition active_progress_new :: "16 word \<Rightarrow> active_progress" where
  "active_progress_new percent = ucast (min percent 100)"

datatype media_kind = Kind_Collection | Kind_Media

datatype media_semantic_state =
    MS_Ordinary | MS_Played
  | MS_Active "active_progress option"
  | MS_NowPlaying "active_progress option"

definition ms_active :: "16 word option \<Rightarrow> media_semantic_state" where
  "ms_active progress = MS_Active (map_option active_progress_new progress)"

text \<open>
  The percentage is computed in 128 bits from two positive \<^verbatim>\<open>i64\<close> values, so neither the
  product nor its saturation matters.
\<close>

definition ms_from_progress :: "bool \<Rightarrow> i64 \<Rightarrow> i64 \<Rightarrow> media_semantic_state" where
  "ms_from_progress played position_ticks runtime_ticks =
     (if position_ticks > 0
      then ms_active (if runtime_ticks > 0
             then Some (word_of_int (min (position_ticks * 100 div runtime_ticks) 100)) else None)
      else if played then MS_Played else MS_Ordinary)"

definition music_or_progress :: "bool \<Rightarrow> bool \<Rightarrow> i64 \<Rightarrow> i64 \<Rightarrow> media_semantic_state" where
  "music_or_progress is_music played position_ticks runtime_ticks =
     (if is_music then MS_Ordinary else ms_from_progress played position_ticks runtime_ticks)"

datatype media_list_title_reveal = Reveal_Always | Reveal_OnSelection
datatype media_list_trailing = Gutter string

datatype 'a media_list_row =
    ML_Item (ml_target: 'a) (ml_primary: string) (ml_secondary: "string option")
      (ml_trailing: "media_list_trailing option") (ml_duration: "string option")
      (ml_kind: media_kind) (ml_state: media_semantic_state)
  | ML_Heading string
  | ML_Spacer

fun selectable_target :: "'a media_list_row \<Rightarrow> 'a option" where
  "selectable_target (ML_Item t _ _ _ _ _ _) = Some t"
| "selectable_target (ML_Heading _) = None"
| "selectable_target ML_Spacer = None"

section \<open>The owner\<close>

record 'a media_list =
  ml_rows :: "'a media_list_row list"
  ml_selectable :: "usize list"
  ml_cursor :: usize
  ml_scroll :: usize
  ml_marks :: "'a marks"
  ml_range_anchor :: "'a option"
  ml_frozen :: "'a list"
  ml_live_range :: bool
  ml_title_reveal :: media_list_title_reveal
  ml_viewport_anchor :: viewport_anchor

definition ml_new :: "'a media_list" where
  "ml_new = \<lparr>ml_rows = [], ml_selectable = [], ml_cursor = 0, ml_scroll = 0, ml_marks = [],
     ml_range_anchor = None, ml_frozen = [], ml_live_range = False,
     ml_title_reveal = Reveal_Always, ml_viewport_anchor = FollowSelection\<rparr>"

definition ml_row_target :: "'a media_list \<Rightarrow> usize \<Rightarrow> 'a option" where
  "ml_row_target l row = Option.bind (nth_opt (ml_rows l) row) selectable_target"

definition ml_selected_display_row :: "'a media_list \<Rightarrow> usize option" where
  "ml_selected_display_row l = nth_opt (ml_selectable l) (ml_cursor l)"

definition ml_selected_target :: "'a media_list \<Rightarrow> 'a option" where
  "ml_selected_target l = Option.bind (nth_opt (ml_selectable l) (ml_cursor l)) (ml_row_target l)"

definition ml_set_scroll :: "usize \<Rightarrow> 'a media_list \<Rightarrow> 'a media_list" where
  "ml_set_scroll off l = l\<lparr>ml_scroll := min off (length (ml_rows l) - 1)\<rparr>"

definition ml_set_viewport_anchor :: "viewport_anchor \<Rightarrow> 'a media_list \<Rightarrow> 'a media_list" where
  "ml_set_viewport_anchor a l = l\<lparr>ml_viewport_anchor := a\<rparr>"

definition ml_is_visual_mode :: "'a media_list \<Rightarrow> bool" where
  "ml_is_visual_mode l \<longleftrightarrow> ml_marks l \<noteq> []"

definition ml_row_flow :: "'a media_list \<Rightarrow> 'a row_flow" where
  "ml_row_flow l = \<lparr>rf_rows =
     map (\<lambda>r. case selectable_target r of Some t \<Rightarrow> Selectable t | None \<Rightarrow> Structural) (ml_rows l)\<rparr>"

definition ml_position_of :: "'a media_list \<Rightarrow> 'a \<Rightarrow> usize option" where
  "ml_position_of l t = position (\<lambda>row. ml_row_target l row = Some t) (ml_selectable l)"

definition ml_select_target :: "'a \<Rightarrow> 'a media_list \<Rightarrow> bool \<times> 'a media_list" where
  "ml_select_target t l =
     (case ml_position_of l t of Some i \<Rightarrow> (True, l\<lparr>ml_cursor := i\<rparr>) | None \<Rightarrow> (False, l))"

definition ml_set_selected_target :: "'a option \<Rightarrow> 'a media_list \<Rightarrow> 'a media_list" where
  "ml_set_selected_target target l =
     (case target of Some t \<Rightarrow> snd (ml_select_target t l) | None \<Rightarrow> l)"

text \<open>\<^verbatim>\<open>isize\<close> is 64 bits wide, so the conversion of the distance never saturates.\<close>

definition ml_move_selection :: "i64 \<Rightarrow> 'a media_list \<Rightarrow> 'a media_list" where
  "ml_move_selection delta l =
     snd (cur_move_by ml_selected_target ml_set_selected_target (ml_row_flow l) delta l)"

definition ml_select_first :: "'a media_list \<Rightarrow> 'a media_list" where
  "ml_select_first l = snd (cur_first ml_set_selected_target (ml_row_flow l) l)"

definition ml_select_last :: "'a media_list \<Rightarrow> 'a media_list" where
  "ml_select_last l = snd (cur_last ml_set_selected_target (ml_row_flow l) l)"

definition ml_select_index :: "usize \<Rightarrow> 'a media_list \<Rightarrow> 'a media_list" where
  "ml_select_index i l = snd (cur_select_ordinal ml_set_selected_target (ml_row_flow l) i l)"

record wide_viewport =
  wv_offset :: usize
  wv_height :: usize
  wv_total_rows :: usize

text \<open>The owner raises a selection scrolled in from above over its heading.\<close>

definition ml_resolve_viewport :: "usize \<Rightarrow> 'a media_list \<Rightarrow> wide_viewport" where
  "ml_resolve_viewport viewport_height l =
     \<lparr>wv_offset = resolved_viewport_offset True (ml_viewport_anchor l) (ml_scroll l) (ml_row_flow l)
        viewport_height (ml_selected_display_row l),
      wv_height = max viewport_height 1, wv_total_rows = length (ml_rows l)\<rparr>"

section \<open>Marks\<close>

definition ml_clear_selection :: "'a media_list \<Rightarrow> 'a media_list" where
  "ml_clear_selection l =
     l\<lparr>ml_marks := [], ml_frozen := [], ml_range_anchor := None, ml_live_range := False\<rparr>"

definition ml_toggle_selection :: "'a \<Rightarrow> 'a media_list \<Rightarrow> 'a media_list" where
  "ml_toggle_selection t l =
     (let was_empty = (ml_marks l = []);
          l1 = (if was_empty
                then (case ml_selected_target l of
                        Some c \<Rightarrow> l\<lparr>ml_marks := snd (marks_add c (ml_marks l)), ml_range_anchor := Some c\<rparr>
                      | None \<Rightarrow> l)
                else l);
          l2 = (if marks_contains t (ml_marks l1)
                then (if \<not> was_empty then l1\<lparr>ml_marks := snd (marks_remove t (ml_marks l1))\<rparr> else l1)
                else if ml_position_of l1 t \<noteq> None
                then l1\<lparr>ml_marks := snd (marks_add t (ml_marks l1))\<rparr> else l1);
          l3 = (if ml_marks l2 = [] then ml_clear_selection l2
                else if ml_range_anchor l2 = None then l2\<lparr>ml_range_anchor := Some t\<rparr> else l2)
      in l3\<lparr>ml_frozen := ml_marks l3, ml_live_range := False\<rparr>)"

definition ml_range_targets :: "usize \<Rightarrow> usize \<Rightarrow> 'a media_list \<Rightarrow> 'a list" where
  "ml_range_targets lo hi l =
     List.map_filter (\<lambda>(i, row).
         case ml_row_target l row of
           None \<Rightarrow> None
         | Some c \<Rightarrow> if (\<exists>m\<in>set (ml_frozen l). m = c) \<or> lo \<le> i \<and> i \<le> hi then Some c else None)
       (zip [0..<length (ml_selectable l)] (ml_selectable l))"

definition ml_extend_selection_to :: "'a \<Rightarrow> 'a media_list \<Rightarrow> 'a media_list" where
  "ml_extend_selection_to t l =
     (case ml_position_of l t of
        None \<Rightarrow> l
      | Some e \<Rightarrow>
          (let anchor = (case opt_or (ml_range_anchor l) (ml_selected_target l) of
                           Some a \<Rightarrow> a | None \<Rightarrow> t)
           in case ml_position_of l anchor of
                None \<Rightarrow> l\<lparr>ml_range_anchor := Some t, ml_marks := marks_set_targets [t] (ml_marks l)\<rparr>
              | Some s \<Rightarrow>
                  (let (lo, hi) = (if s \<le> e then (s, e) else (e, s))
                   in l\<lparr>ml_marks := marks_set_targets (ml_range_targets lo hi l) (ml_marks l),
                        ml_range_anchor := Some anchor\<rparr>)))"

definition ml_present :: "'a media_list \<Rightarrow> 'a list" where
  "ml_present l = List.map_filter (ml_row_target l) (ml_selectable l)"

definition ml_select_all :: "'a media_list \<Rightarrow> 'a media_list" where
  "ml_select_all l =
     l\<lparr>ml_range_anchor := ml_selected_target l, ml_marks := marks_set_targets (ml_present l) (ml_marks l),
       ml_frozen := ml_present l, ml_live_range := False\<rparr>"

definition ml_enter_visual_mode :: "'a media_list \<Rightarrow> 'a media_list" where
  "ml_enter_visual_mode l =
     (case ml_selected_target l of
        None \<Rightarrow> l
      | Some t \<Rightarrow>
          (let l1 = (if ml_marks l = [] then l\<lparr>ml_marks := snd (marks_add t (ml_marks l)), ml_frozen := []\<rparr>
                     else l\<lparr>ml_frozen := ml_marks l\<rparr>)
           in l1\<lparr>ml_range_anchor := Some t, ml_live_range := True\<rparr>))"

section \<open>Content\<close>

definition ml_reset_presentation :: "'a media_list \<Rightarrow> 'a media_list" where
  "ml_reset_presentation l =
     l\<lparr>ml_cursor := 0, ml_scroll := 0, ml_marks := [], ml_frozen := [], ml_range_anchor := None,
       ml_live_range := False\<rparr>"

definition ml_patch_row :: "'a \<Rightarrow> 'a media_list_row \<Rightarrow> 'a media_list \<Rightarrow> bool \<times> 'a media_list" where
  "ml_patch_row t row l =
     (case position (\<lambda>r. selectable_target r = Some t) (ml_rows l) of
        None \<Rightarrow> (False, l)
      | Some i \<Rightarrow> (True, l\<lparr>ml_rows := (ml_rows l)[i := row]\<rparr>))"

definition ml_set_content :: "'a media_list_row list \<Rightarrow> 'a media_list \<Rightarrow> 'a media_list" where
  "ml_set_content rows l =
     (let previous = ml_selected_target l;
          l1 = l\<lparr>ml_rows := rows,
                 ml_selectable := filter (\<lambda>i. selectable_target (rows ! i) \<noteq> None) [0..<length rows]\<rparr>;
          l2 = (case previous of
                  Some t \<Rightarrow> snd (cur_select_target ml_set_selected_target (ml_row_flow l1) t l1)
                | None \<Rightarrow> l1\<lparr>ml_cursor := min (ml_cursor l1) (length (ml_selectable l1) - 1)\<rparr>);
          l3 = (if ml_selectable l2 = [] then l2\<lparr>ml_cursor := 0\<rparr> else l2);
          present = ml_present l3;
          l4 = l3\<lparr>ml_marks := marks_retain (\<lambda>t. t \<in> set present) (ml_marks l3),
                  ml_frozen := filter (\<lambda>t. t \<in> set present) (ml_frozen l3)\<rparr>;
          l5 = (if (case ml_range_anchor l4 of Some t \<Rightarrow> t \<notin> set present | None \<Rightarrow> False)
                then l4\<lparr>ml_range_anchor := ml_selected_target l4\<rparr> else l4);
          l6 = (if ml_marks l5 = []
                then l5\<lparr>ml_frozen := [], ml_range_anchor := None, ml_live_range := False\<rparr> else l5)
      in snd (vp_clamp ml_scroll ml_set_scroll (ml_row_flow l6) 1 l6))"

section \<open>Delegated operations\<close>

datatype 'a media_list_operation =
    Op_Move i64 | Op_Page i64 | Op_Scroll i64 | Op_First | Op_Last | Op_ActivateCurrent
  | Op_ContextCurrent | Op_Select 'a | Op_Toggle 'a | Op_Range 'a | Op_Activate 'a | Op_Context 'a

datatype media_list_disposition = ML_Unhandled | ML_Consumed

datatype 'a row_intent =
    Intent_Activate 'a | Intent_Context 'a | Intent_ContextSelection "'a list"

text \<open>The origin of a summary made here is always the queue.\<close>

record 'a media_list_transition =
  mt_disposition :: media_list_disposition
  mt_selected_target :: "'a option"
  mt_selection_count :: "usize option"
  mt_external_intent :: "'a row_intent option"

definition PAGE_DISTANCE :: i64 where "PAGE_DISTANCE = 5"

definition ml_scroll_wheel :: "i64 \<Rightarrow> usize \<Rightarrow> 'a media_list \<Rightarrow> 'a media_list" where
  "ml_scroll_wheel delta viewport_len l =
     ml_set_viewport_anchor Free
       (ml_set_scroll (scrolled_viewport_offset (ml_scroll l) delta (length (ml_rows l)) viewport_len) l)"

definition ml_re_anchor :: "'a media_list_operation \<Rightarrow> 'a media_list \<Rightarrow> 'a media_list" where
  "ml_re_anchor oper l =
     (case oper of Op_Scroll _ \<Rightarrow> l | Op_Context _ \<Rightarrow> l
      | _ \<Rightarrow> ml_set_viewport_anchor FollowSelection l)"

definition ml_context_intent :: "'a \<Rightarrow> 'a media_list \<Rightarrow> 'a row_intent \<times> 'a media_list" where
  "ml_context_intent t l =
     (if ml_is_visual_mode l
      then (if \<exists>m\<in>set (ml_marks l). m = t
            then (Intent_ContextSelection (marked_targets_in_flow_order (ml_marks l) (ml_row_flow l)), l)
            else (Intent_Context t, ml_clear_selection l))
      else (Intent_Context t, l))"

fun extends_range :: "'a media_list_operation \<Rightarrow> bool" where
  "extends_range (Op_Move _) = True"
| "extends_range (Op_Page _) = True"
| "extends_range Op_First = True"
| "extends_range Op_Last = True"
| "extends_range _ = False"

fun ml_apply :: "usize \<Rightarrow> 'a media_list_operation \<Rightarrow> 'a media_list \<Rightarrow> 'a row_intent option \<times> 'a media_list" where
  "ml_apply vl (Op_Move d) l = (None, ml_move_selection d l)"
| "ml_apply vl (Op_Page d) l = (None, ml_move_selection (sat_i64 (d * PAGE_DISTANCE)) l)"
| "ml_apply vl (Op_Scroll d) l = (None, ml_scroll_wheel d vl l)"
| "ml_apply vl Op_First l = (None, ml_select_first l)"
| "ml_apply vl Op_Last l = (None, ml_select_last l)"
| "ml_apply vl Op_ActivateCurrent l = (map_option Intent_Activate (ml_selected_target l), l)"
| "ml_apply vl Op_ContextCurrent l =
     (case ml_selected_target l of
        None \<Rightarrow> (None, l)
      | Some t \<Rightarrow> (let (i, l1) = ml_context_intent t l in (Some i, l1)))"
| "ml_apply vl (Op_Select t) l = (None, snd (ml_select_target t (ml_clear_selection l)))"
| "ml_apply vl (Op_Toggle t) l = (None, snd (ml_select_target t (ml_toggle_selection t l)))"
| "ml_apply vl (Op_Range t) l = (None, snd (ml_select_target t (ml_extend_selection_to t l)))"
| "ml_apply vl (Op_Activate t) l = (Some (Intent_Activate t), snd (ml_select_target t l))"
| "ml_apply vl (Op_Context t) l = (let (i, l1) = ml_context_intent t l in (Some i, l1))"

definition ml_delegate_with_viewport_len ::
  "'a media_list_operation \<Rightarrow> usize \<Rightarrow> 'a media_list \<Rightarrow> 'a media_list_transition \<times> 'a media_list" where
  "ml_delegate_with_viewport_len oper viewport_len l =
     (let before = ml_selected_target l;
          before_count = length (ml_marks l);
          l1 = ml_re_anchor oper l;
          scroll_before = (case oper of Op_Scroll _ \<Rightarrow> Some (ml_scroll l1) | _ \<Rightarrow> None);
          (intent, l2) = ml_apply viewport_len oper l1;
          l3 = (if extends_range oper \<and> ml_live_range l2
                then (case ml_selected_target l2 of
                        Some t \<Rightarrow> ml_extend_selection_to t l2 | None \<Rightarrow> l2)
                else l2);
          after = ml_selected_target l3;
          count = length (ml_marks l3)
      in (\<lparr>mt_disposition =
             (case scroll_before of
                Some off \<Rightarrow> if ml_scroll l3 = off then ML_Unhandled else ML_Consumed
              | None \<Rightarrow>
                  if before \<noteq> None \<or> after \<noteq> None \<or> intent \<noteq> None \<or> before_count \<noteq> count
                  then ML_Consumed else ML_Unhandled),
           mt_selected_target = (if before \<noteq> after then after else None),
           mt_selection_count = (if before_count \<noteq> count then Some count else None),
           mt_external_intent = intent\<rparr>, l3))"

definition ml_delegate :: "'a media_list_operation \<Rightarrow> 'a media_list \<Rightarrow> 'a media_list_transition \<times> 'a media_list" where
  "ml_delegate oper l = ml_delegate_with_viewport_len oper 1 l"

section \<open>Visual-mode keys\<close>

record visual_key_outcome =
  vk_selected :: usize
  vk_marks_replaced :: bool

definition ml_outcome :: "bool \<Rightarrow> 'a media_list \<Rightarrow> visual_key_outcome" where
  "ml_outcome replaced l = \<lparr>vk_selected = length (ml_marks l), vk_marks_replaced = replaced\<rparr>"

definition ml_handle_visual_key ::
  "key_event \<Rightarrow> 'a media_list \<Rightarrow> visual_key_outcome option \<times> 'a media_list" where
  "ml_handle_visual_key k l =
     (if ke_code k = char_key CHR ''a'' \<and> mods_contain (ke_modifiers k) MOD_CONTROL
      then (let l1 = ml_select_all l in (Some (ml_outcome True l1), l1))
      else if (ke_code k = char_key CHR ''v'' \<or> ke_code k = char_key CHR ''V'')
              \<and> ke_modifiers k = MOD_SHIFT
      then (let l1 = ml_enter_visual_mode l in (Some (ml_outcome True l1), l1))
      else if \<not> ml_is_visual_mode l \<or> \<not> mods_empty (ke_modifiers k) then (None, l)
      else if ke_code k = Key_Esc
      then (let l1 = ml_clear_selection l in (Some (ml_outcome False l1), l1))
      else if ke_code k = char_key CHR '' ''
      then (case ml_selected_target l of
              None \<Rightarrow> (None, l)
            | Some t \<Rightarrow> (let l1 = ml_toggle_selection t l in (Some (ml_outcome False l1), l1)))
      else (None, l))"

end
