(* ===== verification/Media_List_Laws.thy ===== *)
theory Media_List_Laws
  imports Media_List
begin

text \<open>
  The media list keeps its index, cursor and marks consistent: the invariant, the media list
  as an instance of the cursor and viewport contracts of \<open>List_Flow\<close>, and what movement,
  range selection, content replacement and the wheel do.
\<close>

section \<open>The index of selectable rows\<close>

definition ml_targets :: "'a media_list \<Rightarrow> 'a list" where
  "ml_targets l = rf_targets (ml_row_flow l)"

definition selectable_rows :: "'a media_list_row list \<Rightarrow> usize list" where
  "selectable_rows rows = filter (\<lambda>i. selectable_target (rows ! i) \<noteq> None) [0..<length rows]"

definition ml_indexed :: "'a media_list \<Rightarrow> bool" where
  "ml_indexed l \<longleftrightarrow> ml_selectable l = selectable_rows (ml_rows l)"

definition ml_wf :: "'a media_list \<Rightarrow> bool" where
  "ml_wf l \<longleftrightarrow> ml_indexed l
     \<and> (if ml_selectable l = [] then ml_cursor l = 0 else ml_cursor l < length (ml_selectable l))
     \<and> ml_scroll l \<le> length (ml_rows l) - 1"

lemma ml_wfD: "ml_wf l \<Longrightarrow> ml_indexed l" by (simp add: ml_wf_def)

lemma ml_wf_cong:
  "ml_rows l' = ml_rows l \<Longrightarrow> ml_selectable l' = ml_selectable l \<Longrightarrow> ml_cursor l' = ml_cursor l
    \<Longrightarrow> ml_scroll l' = ml_scroll l \<Longrightarrow> ml_wf l' = ml_wf l"
  by (simp add: ml_wf_def ml_indexed_def)

lemma row_target_flow: "row_target_at (rf_rows (ml_row_flow l)) i = ml_row_target l i"
  by (simp add: row_target_at_def ml_row_flow_def ml_row_target_def nth_opt_def split: option.split)

lemma map_filter_filter: "List.map_filter g (filter (\<lambda>x. g x \<noteq> None) xs) = List.map_filter g xs"
  by (simp add: List.map_filter_def)

lemma map_filter_all: "(\<And>x. x \<in> set xs \<Longrightarrow> g x \<noteq> None) \<Longrightarrow> map g xs = map Some (List.map_filter g xs)"
  by (induction xs) (auto simp: List.map_filter_simps split: option.split)

lemma selectable_targets:
  assumes "ml_indexed l"
  shows "map (ml_row_target l) (ml_selectable l) = map Some (ml_targets l)"
    "ml_present l = ml_targets l"
proof -
  have sel: "ml_selectable l = filter (\<lambda>i. ml_row_target l i \<noteq> None) [0..<length (ml_rows l)]"
    using assms unfolding ml_indexed_def selectable_rows_def
    by (auto simp: ml_row_target_def nth_opt_def intro!: filter_cong)
  have "List.map_filter (ml_row_target l) (ml_selectable l)
      = List.map_filter (ml_row_target l) [0..<length (ml_rows l)]"
    unfolding sel by (rule map_filter_filter)
  also have "\<dots> = ml_targets l"
    using selectable_positions [of "rf_rows (ml_row_flow l)"]
    by (simp add: ml_targets_def rf_targets_def row_target_flow [abs_def])
      (simp add: ml_row_flow_def)
  finally have "List.map_filter (ml_row_target l) (ml_selectable l) = ml_targets l" .
  then show "map (ml_row_target l) (ml_selectable l) = map Some (ml_targets l)"
      "ml_present l = ml_targets l"
    using map_filter_all [of "ml_selectable l" "ml_row_target l"] sel
    by (auto simp: ml_present_def)
qed

lemma selectable_length: "ml_indexed l \<Longrightarrow> length (ml_selectable l) = length (ml_targets l)"
  using arg_cong [OF selectable_targets(1), of l length] by simp

lemma nth_selectable:
  "ml_indexed l \<Longrightarrow> i < length (ml_targets l) \<Longrightarrow> ml_row_target l (ml_selectable l ! i) = Some (ml_targets l ! i)"
  using arg_cong [OF selectable_targets(1), of l "\<lambda>xs. xs ! i"] by (simp add: selectable_length)

lemma selected_target_nth: "ml_indexed l \<Longrightarrow> ml_selected_target l = nth_opt (ml_targets l) (ml_cursor l)"
  by (simp add: ml_selected_target_def nth_opt_def selectable_length nth_selectable)

lemma position_of_targets: "ml_indexed l \<Longrightarrow> ml_position_of l t = position (\<lambda>c. c = t) (ml_targets l)"
  using position_map [of "\<lambda>r. r = Some t" "ml_row_target l" "ml_selectable l"]
    position_map [of "\<lambda>r. r = Some t" Some "ml_targets l"]
  by (simp add: ml_position_of_def selectable_targets)

lemma selected_None: "ml_wf l \<Longrightarrow> ml_selected_target l = None \<longleftrightarrow> ml_targets l = []"
  using selectable_length [of l]
  by (auto simp: selected_target_nth nth_opt_def ml_wf_def split: if_splits)

section \<open>The contracts\<close>

lemma ml_frames:
  "ml_row_flow (ml_set_selected_target target l) = ml_row_flow l"
  "ml_row_flow (ml_set_scroll n l) = ml_row_flow l"
  "ml_row_flow (ml_set_viewport_anchor a l) = ml_row_flow l"
  by (simp_all add: ml_row_flow_def ml_set_selected_target_def ml_select_target_def ml_set_scroll_def
      ml_set_viewport_anchor_def split: option.split)

lemma ml_row_flow_len: "rf_len (ml_row_flow l) = length (ml_rows l)"
  by (simp add: rf_len_def ml_row_flow_def)

lemma select_target_wf:
  assumes "ml_wf l" shows "ml_wf (snd (ml_select_target t l))"
proof (cases "ml_position_of l t")
  case None
  with assms show ?thesis by (simp add: ml_select_target_def)
next
  case (Some i)
  then have "i < length (ml_selectable l)"
    using ml_wfD [OF assms] by (simp add: position_of_targets selectable_length position_lessD)
  with Some assms show ?thesis
    by (auto simp: ml_select_target_def ml_wf_def ml_indexed_def)
qed

lemma set_selected_wf: "ml_wf l \<Longrightarrow> ml_wf (ml_set_selected_target target l)"
  by (simp add: ml_set_selected_target_def select_target_wf split: option.split)

lemma select_target_found:
  assumes "ml_indexed l" "t \<in> set (ml_targets l)"
  shows "ml_selected_target (snd (ml_select_target t l)) = Some t"
    "ml_cursor (snd (ml_select_target t l)) < length (ml_selectable l)"
proof -
  from assms(2) obtain i where i: "position (\<lambda>c. c = t) (ml_targets l) = Some i" by fastforce
  then have "i < length (ml_targets l)" "ml_targets l ! i = t"
    using position_lessD [OF i] position_holds [OF i] by auto
  with i assms nth_selectable [OF assms(1), of i]
  show "ml_selected_target (snd (ml_select_target t l)) = Some t"
    "ml_cursor (snd (ml_select_target t l)) < length (ml_selectable l)"
    by (simp_all add: ml_select_target_def position_of_targets ml_selected_target_def nth_opt_def
        selectable_length ml_row_target_def)
qed

lemma select_target_indexed: "ml_indexed l \<Longrightarrow> ml_indexed (snd (ml_select_target t l))"
  by (simp add: ml_select_target_def ml_indexed_def split: option.split)

interpretation mlc: cursored ml_indexed ml_row_flow ml_selected_target ml_set_selected_target
proof unfold_locales
  fix l :: "'a media_list" and t
  assume wf: "ml_indexed l"
  show "ml_indexed (ml_set_selected_target target l)" for target
    using wf by (simp add: ml_set_selected_target_def select_target_indexed split: option.split)
  show "t \<in> set (rf_targets (ml_row_flow l)) \<Longrightarrow>
      ml_selected_target (ml_set_selected_target (Some t) l) = Some t"
    using select_target_found(1) [OF wf] by (simp add: ml_set_selected_target_def ml_targets_def)
  show "rf_targets (ml_row_flow l) = [] \<Longrightarrow> ml_selected_target (ml_set_selected_target None l) = None"
    using wf selectable_length [OF wf]
    by (simp add: ml_set_selected_target_def ml_targets_def ml_selected_target_def nth_opt_def)
qed (simp add: ml_frames)

interpretation mlv: viewported ml_indexed ml_row_flow ml_selected_target ml_set_selected_target
  ml_scroll ml_set_scroll ml_viewport_anchor ml_set_viewport_anchor
  by unfold_locales
    (simp_all add: ml_selected_target_def ml_row_target_def [abs_def] ml_set_scroll_def
      ml_set_viewport_anchor_def ml_row_flow_len ml_indexed_def, simp_all add: ml_row_flow_def)

section \<open>The invariant\<close>

definition ml_marks_ok :: "'a media_list \<Rightarrow> bool" where
  "ml_marks_ok l \<longleftrightarrow> distinct (ml_marks l) \<and> set (ml_marks l) \<subseteq> set (ml_targets l)
     \<and> set (ml_frozen l) \<subseteq> set (ml_targets l)
     \<and> (case ml_range_anchor l of Some t \<Rightarrow> t \<in> set (ml_targets l) | None \<Rightarrow> ml_marks l = [])
     \<and> (ml_marks l = [] \<longrightarrow> ml_frozen l = [] \<and> ml_range_anchor l = None \<and> \<not> ml_live_range l)"

definition ml_inv :: "'a media_list \<Rightarrow> bool" where
  "ml_inv l \<longleftrightarrow> ml_wf l \<and> distinct (ml_targets l) \<and> ml_marks_ok l"

text \<open>What the cursor and the viewport operations leave alone.\<close>

definition same_marks :: "'a media_list \<Rightarrow> 'a media_list \<Rightarrow> bool" where
  "same_marks l l' \<longleftrightarrow> ml_rows l' = ml_rows l \<and> ml_marks l' = ml_marks l \<and> ml_frozen l' = ml_frozen l
     \<and> ml_range_anchor l' = ml_range_anchor l \<and> ml_live_range l' = ml_live_range l"

lemma same_marks_refl: "same_marks l l" by (simp add: same_marks_def)

lemma same_marks_trans: "same_marks a b \<Longrightarrow> same_marks b c \<Longrightarrow> same_marks a c"
  by (simp add: same_marks_def)

lemma same_rows_targets: "ml_rows l' = ml_rows l \<Longrightarrow> ml_targets l' = ml_targets l"
  by (simp add: ml_targets_def ml_row_flow_def)

lemma marks_ok_cong:
  "ml_targets l' = ml_targets l \<Longrightarrow> ml_marks l' = ml_marks l \<Longrightarrow> ml_frozen l' = ml_frozen l
    \<Longrightarrow> ml_range_anchor l' = ml_range_anchor l \<Longrightarrow> ml_live_range l' = ml_live_range l
    \<Longrightarrow> ml_marks_ok l' = ml_marks_ok l"
  by (cases "ml_range_anchor l") (simp_all add: ml_marks_ok_def)

lemma same_marks_inv: "same_marks l l' \<Longrightarrow> ml_wf l' \<Longrightarrow> ml_inv l \<Longrightarrow> ml_inv l'"
  using same_rows_targets [of l' l]
  by (cases "ml_range_anchor l") (auto simp: same_marks_def ml_inv_def ml_marks_ok_def)

lemma set_selected_same: "same_marks l (ml_set_selected_target target l)"
  by (simp add: same_marks_def ml_set_selected_target_def ml_select_target_def split: option.split)

lemma select_target_same: "same_marks l (snd (ml_select_target t l))"
  by (simp add: same_marks_def ml_select_target_def split: option.split)

lemma cursor_same:
  "same_marks l (ml_select_first l)" "same_marks l (ml_select_last l)" "same_marks l (ml_select_index i l)"
  "same_marks l (ml_move_selection d l)"
  "same_marks l (snd (cur_select_target ml_set_selected_target f t l))"
  by (simp_all add: ml_select_first_def cur_first_def ml_select_last_def cur_last_def ml_select_index_def
      cur_select_ordinal_def ml_move_selection_def cur_move_by_def cur_select_target_def Let_def
      set_selected_same)

lemma cursor_wf:
  assumes "ml_wf l"
  shows "ml_wf (ml_select_first l)" "ml_wf (ml_select_last l)" "ml_wf (ml_select_index i l)"
    "ml_wf (ml_move_selection d l)"
  using assms
  by (simp_all add: ml_select_first_def cur_first_def ml_select_last_def cur_last_def ml_select_index_def
      cur_select_ordinal_def ml_move_selection_def cur_move_by_def Let_def set_selected_wf)

lemma scroll_same: "same_marks l (ml_set_scroll n l)" "same_marks l (ml_set_viewport_anchor a l)"
  by (simp_all add: same_marks_def ml_set_scroll_def ml_set_viewport_anchor_def)

lemma marks_add_simps:
  "set (snd (marks_add t ms)) = insert t (set ms)" "distinct ms \<Longrightarrow> distinct (snd (marks_add t ms))"
  "snd (marks_add t ms) \<noteq> []"
  by (auto simp: marks_add_def)

lemma marks_remove_filter: "distinct ms \<Longrightarrow> snd (marks_remove t ms) = filter (\<lambda>m. m \<noteq> t) ms"
proof (cases "position (\<lambda>m. m = t) ms")
  case None
  then have "t \<notin> set ms" by auto
  then have "filter (\<lambda>m. m \<noteq> t) ms = ms" by (auto intro: filter_True)
  with None show ?thesis by (simp add: marks_remove_def del: position_None)
next
  case (Some i)
  assume d: "distinct ms"
  have "i < length ms" "ms ! i = t" using position_lessD [OF Some] position_holds [OF Some] by auto
  then have "remove_at i ms = filter (\<lambda>m. m \<noteq> t) ms"
    using d
  proof (induction ms arbitrary: i)
    case (Cons m ms)
    show ?case
    proof (cases i)
      case 0
      with Cons.prems have "filter (\<lambda>m. m \<noteq> t) ms = ms" by (auto intro: filter_True)
      with 0 Cons.prems show ?thesis by (simp add: remove_at_def)
    next
      case (Suc j)
      with Cons have "remove_at j ms = filter (\<lambda>m. m \<noteq> t) ms" by simp
      with Suc Cons.prems show ?thesis by (auto simp: remove_at_def)
    qed
  qed simp
  with Some show ?thesis by (simp add: marks_remove_def)
qed

lemma marks_contains_iff: "marks_contains t ms \<longleftrightarrow> t \<in> set ms"
  by (auto simp: marks_contains_def)

lemma clear_selection_inv: "ml_inv l \<Longrightarrow> ml_inv (ml_clear_selection l)"
  using same_rows_targets [of "ml_clear_selection l" l] ml_wf_cong [of "ml_clear_selection l" l]
  by (simp add: ml_inv_def ml_marks_ok_def ml_clear_selection_def)

text \<open>The targets a range picks out: those frozen or between its ends, in display order.\<close>

lemma map_filter_enumerate:
  "List.map_filter (\<lambda>(i, row). case g row of None \<Rightarrow> None | Some c \<Rightarrow> if P i c then Some c else None)
     (zip [0..<length xs] xs)
   = map (\<lambda>i. the (g (xs ! i)))
       (filter (\<lambda>i. case g (xs ! i) of None \<Rightarrow> False | Some c \<Rightarrow> P i c) [0..<length xs])"
proof -
  have "zip [0..<length xs] xs = map (\<lambda>i. (i, xs ! i)) [0..<length xs]"
    by (rule nth_equalityI) auto
  then show ?thesis
    by (auto simp: List.map_filter_def filter_map comp_def split: option.splits
        intro!: map_cong filter_cong)
qed

lemma range_targets_eq:
  assumes "ml_indexed l"
  shows "ml_range_targets lo hi l = map (nth (ml_targets l))
    (filter (\<lambda>i. ml_targets l ! i \<in> set (ml_frozen l) \<or> lo \<le> i \<and> i \<le> hi) [0..<length (ml_targets l)])"
proof -
  have "ml_range_targets lo hi l = map (\<lambda>i. the (ml_row_target l (ml_selectable l ! i)))
      (filter (\<lambda>i. case ml_row_target l (ml_selectable l ! i) of None \<Rightarrow> False
         | Some c \<Rightarrow> (\<exists>m\<in>set (ml_frozen l). m = c) \<or> lo \<le> i \<and> i \<le> hi) [0..<length (ml_selectable l)])"
    unfolding ml_range_targets_def
    by (rule map_filter_enumerate)
  also have "\<dots> = map (nth (ml_targets l))
      (filter (\<lambda>i. ml_targets l ! i \<in> set (ml_frozen l) \<or> lo \<le> i \<and> i \<le> hi) [0..<length (ml_targets l)])"
    using assms by (intro map_cong filter_cong) (auto simp: selectable_length nth_selectable)
  finally show ?thesis .
qed

lemma range_targets_facts:
  assumes "ml_indexed l" "distinct (ml_targets l)"
  shows "distinct (ml_range_targets lo hi l)" "set (ml_range_targets lo hi l) \<subseteq> set (ml_targets l)"
    "lo \<le> i \<Longrightarrow> i \<le> hi \<Longrightarrow> i < length (ml_targets l) \<Longrightarrow> ml_targets l ! i \<in> set (ml_range_targets lo hi l)"
  using assms by (auto simp: range_targets_eq distinct_map inj_on_def nth_eq_iff_index_eq)

text \<open>A state that differs in its marks only, with marks left.\<close>

definition same_place :: "'a media_list \<Rightarrow> 'a media_list \<Rightarrow> bool" where
  "same_place l l' \<longleftrightarrow> ml_rows l' = ml_rows l \<and> ml_selectable l' = ml_selectable l
     \<and> ml_cursor l' = ml_cursor l \<and> ml_scroll l' = ml_scroll l"

lemma same_place_facts:
  assumes "same_place l l'"
  shows "ml_targets l' = ml_targets l" "ml_wf l' = ml_wf l" "ml_selected_target l' = ml_selected_target l"
    "ml_position_of l' = ml_position_of l" "ml_row_flow l' = ml_row_flow l"
  using assms same_rows_targets [of l' l] ml_wf_cong [of l' l]
  by (simp_all add: same_place_def ml_selected_target_def ml_row_target_def [abs_def]
      ml_position_of_def [abs_def] ml_row_flow_def)

lemma inv_marked:
  assumes "ml_inv l" "same_place l l'" "distinct (ml_marks l')" "ml_marks l' \<noteq> []"
    "set (ml_marks l') \<subseteq> set (ml_targets l)" "set (ml_frozen l') \<subseteq> set (ml_targets l)"
    "ml_range_anchor l' = Some a" "a \<in> set (ml_targets l)"
  shows "ml_inv l'"
  using assms same_place_facts(1,2) [OF assms(2)] by (simp add: ml_inv_def ml_marks_ok_def)

lemma position_in_targets:
  assumes "ml_indexed l" "ml_position_of l t = Some i"
  shows "t \<in> set (ml_targets l)" "i < length (ml_targets l)" "ml_targets l ! i = t"
  using assms position_lessD [of "\<lambda>c. c = t" "ml_targets l" i] position_holds [of "\<lambda>c. c = t" "ml_targets l" i]
  by (auto simp: position_of_targets)

lemma ml_invD:
  assumes "ml_inv l"
  shows "ml_wf l" "ml_indexed l" "distinct (ml_targets l)" "distinct (ml_marks l)"
    "set (ml_marks l) \<subseteq> set (ml_targets l)" "set (ml_frozen l) \<subseteq> set (ml_targets l)"
  using assms by (auto simp: ml_inv_def ml_marks_ok_def ml_wf_def)

lemma extend_selection_place: "same_place l (ml_extend_selection_to t l)"
  by (simp add: same_place_def ml_extend_selection_to_def Let_def split: option.split)

lemma extend_selection_inv:
  assumes "ml_inv l"
  shows "ml_inv (ml_extend_selection_to t l)"
proof (cases "ml_position_of l t")
  case None
  with assms show ?thesis by (simp add: ml_extend_selection_to_def)
next
  case (Some e)
  note inv = ml_invD [OF assms]
  note te = position_in_targets [OF inv(2) Some]
  let ?a = "case opt_or (ml_range_anchor l) (ml_selected_target l) of Some a \<Rightarrow> a | None \<Rightarrow> t"
  show ?thesis
  proof (cases "ml_position_of l ?a")
    case None
    then show ?thesis
      using Some te inv assms
      by (intro inv_marked [OF assms extend_selection_place, where a = t])
        (simp_all add: ml_extend_selection_to_def Let_def marks_set_targets_def)
  next
    case anchor: (Some k)
    let ?lo = "min k e" and ?hi = "max k e"
    have result: "ml_marks (ml_extend_selection_to t l) = ml_range_targets ?lo ?hi l"
        "ml_range_anchor (ml_extend_selection_to t l) = Some ?a"
        "ml_frozen (ml_extend_selection_to t l) = ml_frozen l"
      using Some anchor
      by (simp_all add: ml_extend_selection_to_def Let_def marks_set_targets_def min_def max_def)
    have "t \<in> set (ml_range_targets ?lo ?hi l)"
      using range_targets_facts(3) [OF inv(2,3), of ?lo e ?hi] te by simp
    then have "ml_range_targets ?lo ?hi l \<noteq> []" by auto
    with result range_targets_facts(1,2) [OF inv(2,3)] inv position_in_targets(1) [OF inv(2) anchor]
    show ?thesis by (intro inv_marked [OF assms extend_selection_place, where a = ?a]) simp_all
  qed
qed

lemma toggle_selection_place: "same_place l (ml_toggle_selection t l)"
  by (simp add: same_place_def ml_toggle_selection_def Let_def ml_clear_selection_def split: option.split)

definition toggled_marks :: "'a \<Rightarrow> 'a media_list \<Rightarrow> 'a list" where
  "toggled_marks t l =
     (if ml_marks l = []
      then (case ml_selected_target l of None \<Rightarrow> []
            | Some c \<Rightarrow> if t = c \<or> t \<notin> set (ml_targets l) then [c] else [c, t])
      else if t \<in> set (ml_marks l) then filter (\<lambda>m. m \<noteq> t) (ml_marks l)
      else if t \<in> set (ml_targets l) then ml_marks l @ [t] else ml_marks l)"

lemma position_marks [simp]:
  "ml_position_of (l\<lparr>ml_marks := m\<rparr>) = ml_position_of l"
  "ml_position_of (l\<lparr>ml_marks := m, ml_range_anchor := a\<rparr>) = ml_position_of l"
  by (rule same_place_facts(4), simp add: same_place_def)+

lemma position_of_None: "ml_indexed l \<Longrightarrow> ml_position_of l t = None \<longleftrightarrow> t \<notin> set (ml_targets l)"
  by (auto simp: position_of_targets)

lemma toggle_selection_result:
  assumes "ml_inv l"
  shows "ml_toggle_selection t l = (if toggled_marks t l = [] then ml_clear_selection l
    else l\<lparr>ml_marks := toggled_marks t l, ml_frozen := toggled_marks t l, ml_live_range := False,
      ml_range_anchor := if ml_marks l = [] then ml_selected_target l else ml_range_anchor l\<rparr>)"
proof (cases "ml_marks l = []")
  case True
  note inv = ml_invD [OF assms]
  show ?thesis
  proof (cases "ml_selected_target l")
    case None
    then have "ml_position_of l t = None" using inv selected_None [of l] by (simp add: position_of_None)
    with None True show ?thesis
      by (simp add: ml_toggle_selection_def toggled_marks_def Let_def marks_contains_def
          ml_clear_selection_def)
  next
    case (Some c)
    with True inv(2) show ?thesis
      by (auto simp: ml_toggle_selection_def toggled_marks_def Let_def marks_contains_def
          marks_add_def position_of_None simp del: not_None_eq)
  qed
next
  case False
  then obtain a where "ml_range_anchor l = Some a"
    using assms by (auto simp: ml_inv_def ml_marks_ok_def split: option.splits)
  with False ml_invD [OF assms] show ?thesis
    by (auto simp: ml_toggle_selection_def toggled_marks_def Let_def marks_contains_iff
        marks_add_def marks_remove_filter position_of_None ml_clear_selection_def simp del: not_None_eq)
qed

lemma toggle_selection_inv:
  assumes "ml_inv l"
  shows "ml_inv (ml_toggle_selection t l)"
proof (cases "toggled_marks t l = []")
  case True
  then show ?thesis using toggle_selection_result [OF assms, of t] clear_selection_inv [OF assms] by simp
next
  case False
  note inv = ml_invD [OF assms]
  note res = toggle_selection_result [OF assms, of t]
  have sel: "c \<in> set (ml_targets l)" if "ml_selected_target l = Some c" for c
    using that inv by (auto simp: selected_target_nth nth_opt_def split: if_splits)
  obtain a where a: "(if ml_marks l = [] then ml_selected_target l else ml_range_anchor l) = Some a"
      "a \<in> set (ml_targets l)"
    using False assms sel
    by (auto simp: toggled_marks_def ml_inv_def ml_marks_ok_def split: option.splits if_splits)
  have "distinct (toggled_marks t l)" "set (toggled_marks t l) \<subseteq> set (ml_targets l)"
    using inv sel by (auto simp: toggled_marks_def split: option.splits)
  with False res a show ?thesis
    by (intro inv_marked [OF assms toggle_selection_place, where a = a]) simp_all
qed

lemma selected_in_targets:
  "ml_indexed l \<Longrightarrow> ml_selected_target l = Some c \<Longrightarrow> c \<in> set (ml_targets l)"
  by (auto simp: selected_target_nth nth_opt_def split: if_splits)

lemma select_all_inv:
  assumes "ml_inv l"
  shows "ml_inv (ml_select_all l)"
proof (cases "ml_targets l = []")
  case True
  note inv = ml_invD [OF assms]
  have "ml_marks l = []" using inv(5) True by simp
  moreover have "ml_selected_target l = None" using True inv selected_None by blast
  ultimately have "ml_select_all l = ml_clear_selection l"
    using selectable_targets(2) [OF inv(2)] True
    by (simp add: ml_select_all_def ml_clear_selection_def marks_set_targets_def)
  with clear_selection_inv [OF assms] show ?thesis by simp
next
  case False
  note inv = ml_invD [OF assms]
  obtain c where "ml_selected_target l = Some c" using False inv selected_None [OF inv(1)] by auto
  with False inv selectable_targets(2) [OF inv(2)] selected_in_targets [OF inv(2)] show ?thesis
    by (intro inv_marked [OF assms, where a = c])
      (simp_all add: ml_select_all_def same_place_def marks_set_targets_def)
qed

lemma enter_visual_mode_inv:
  assumes "ml_inv l"
  shows "ml_inv (ml_enter_visual_mode l)"
proof (cases "ml_selected_target l")
  case None
  with assms show ?thesis by (simp add: ml_enter_visual_mode_def)
next
  case (Some c)
  note inv = ml_invD [OF assms]
  have c: "c \<in> set (ml_targets l)" using selected_in_targets [OF inv(2) Some] .
  have res: "ml_enter_visual_mode l = l\<lparr>ml_marks := if ml_marks l = [] then [c] else ml_marks l,
      ml_frozen := ml_marks l, ml_range_anchor := Some c, ml_live_range := True\<rparr>"
    using Some by (simp add: ml_enter_visual_mode_def Let_def marks_add_def)
  show ?thesis
    unfolding res by (rule inv_marked [OF assms, where a = c]) (use c inv in \<open>simp_all add: same_place_def\<close>)
qed

lemma reset_presentation_inv:
  assumes "ml_inv l"
  shows "ml_inv (ml_reset_presentation l)"
proof -
  have "ml_targets (ml_reset_presentation l) = ml_targets l"
    by (rule same_rows_targets) (simp add: ml_reset_presentation_def)
  with assms show ?thesis
    by (auto simp: ml_inv_def ml_marks_ok_def ml_reset_presentation_def ml_wf_def ml_indexed_def
        split: if_splits)
qed

lemma patch_row_inv:
  assumes "ml_inv l" "selectable_target row = Some t"
  shows "ml_inv (snd (ml_patch_row t row l))"
proof (cases "position (\<lambda>r. selectable_target r = Some t) (ml_rows l)")
  case None
  with assms show ?thesis by (simp add: ml_patch_row_def del: position_None)
next
  case (Some i)
  have old: "selectable_target (ml_rows l ! i) = Some t" "i < length (ml_rows l)"
    using position_holds [OF Some] position_lessD [OF Some] by auto
  let ?l = "l\<lparr>ml_rows := (ml_rows l)[i := row]\<rparr>"
  have same: "map selectable_target ((ml_rows l)[i := row]) = map selectable_target (ml_rows l)"
    using old assms(2) by (intro nth_equalityI) (auto simp: nth_list_update)
  have "ml_row_flow ?l = ml_row_flow l"
    using arg_cong [OF same, of "map (\<lambda>v. case v of Some t \<Rightarrow> Selectable t | None \<Rightarrow> Structural)"]
    by (simp add: ml_row_flow_def comp_def)
  moreover have "selectable_rows ((ml_rows l)[i := row]) = selectable_rows (ml_rows l)"
    unfolding selectable_rows_def using old assms(2) by (intro filter_cong) (auto simp: nth_list_update)
  ultimately have "ml_targets ?l = ml_targets l" "ml_wf ?l = ml_wf l"
    by (simp_all add: ml_targets_def ml_wf_def ml_indexed_def)
  with assms(1) marks_ok_cong [of ?l l] have "ml_inv ?l" by (simp add: ml_inv_def)
  with Some show ?thesis by (simp add: ml_patch_row_def)
qed

section \<open>Replacing the content\<close>

definition rows_targets :: "'a media_list_row list \<Rightarrow> 'a list" where
  "rows_targets rows = List.map_filter selectable_target rows"

lemma ml_targets_rows: "ml_targets l = rows_targets (ml_rows l)"
proof -
  have "row_targets (map (\<lambda>r. case selectable_target r of Some t \<Rightarrow> Selectable t | None \<Rightarrow> Structural) rows)
      = rows_targets rows" for rows :: "'a media_list_row list"
    by (induction rows) (auto simp: rows_targets_def List.map_filter_simps split: option.split)
  then show ?thesis by (simp add: ml_targets_def rf_targets_def ml_row_flow_def)
qed

text \<open>The list with its new rows and the cursor settled, before the marks are looked at.\<close>

definition ml_settled :: "'a media_list_row list \<Rightarrow> 'a media_list \<Rightarrow> 'a media_list" where
  "ml_settled rows l =
     (let l1 = l\<lparr>ml_rows := rows, ml_selectable := selectable_rows rows\<rparr>;
          l2 = (case ml_selected_target l of
                  Some t \<Rightarrow> snd (cur_select_target ml_set_selected_target (ml_row_flow l1) t l1)
                | None \<Rightarrow> l1\<lparr>ml_cursor := min (ml_cursor l1) (length (ml_selectable l1) - 1)\<rparr>)
      in if ml_selectable l2 = [] then l2\<lparr>ml_cursor := 0\<rparr> else l2)"

lemma set_selected_cursor:
  assumes "ml_indexed l" "t \<in> set (ml_targets l)"
  shows "\<exists>i<length (ml_targets l). ml_targets l ! i = t
    \<and> ml_set_selected_target (Some t) l = l\<lparr>ml_cursor := i\<rparr>"
proof -
  obtain i where i: "ml_position_of l t = Some i"
    using assms position_of_None [OF assms(1), of t] by (cases "ml_position_of l t") auto
  with position_in_targets [OF assms(1) i] show ?thesis
    by (auto simp: ml_set_selected_target_def ml_select_target_def)
qed

text \<open>The target a replacement of the rows selects.\<close>

definition settled_target :: "'a list \<Rightarrow> 'a option \<Rightarrow> 'a option" where
  "settled_target ts previous =
     (case previous of Some t \<Rightarrow> if t \<in> set ts then Some t else nth_opt ts 0 | None \<Rightarrow> nth_opt ts 0)"

lemma settled_result:
  assumes "ml_wf l"
  shows "\<exists>i. ml_settled rows l
      = l\<lparr>ml_rows := rows, ml_selectable := selectable_rows rows, ml_cursor := i\<rparr>
    \<and> (if rows_targets rows = [] then i = 0 else i < length (rows_targets rows)
         \<and> settled_target (rows_targets rows) (ml_selected_target l) = Some (rows_targets rows ! i))"
proof -
  let ?l1 = "l\<lparr>ml_rows := rows, ml_selectable := selectable_rows rows\<rparr>"
  have idx: "ml_indexed ?l1" by (simp add: ml_indexed_def)
  have tgt: "ml_targets ?l1 = rows_targets rows" by (simp add: ml_targets_rows)
  have len: "length (selectable_rows rows) = length (rows_targets rows)"
    using selectable_length [OF idx] tgt by simp
  then have none: "selectable_rows rows = [] \<longleftrightarrow> rows_targets rows = []" by auto
  show ?thesis
  proof (cases "ml_selected_target l")
    case None
    then have "ml_cursor l = 0"
      using assms selected_None [OF assms] selectable_length [OF ml_wfD [OF assms]]
      by (auto simp: ml_wf_def split: if_splits)
    with None none len show ?thesis
      by (intro exI [of _ 0]) (simp add: ml_settled_def Let_def settled_target_def nth_opt_def)
  next
    case (Some t)
    show ?thesis
    proof (cases "rows_targets rows = []")
      case True
      then have "rf_targets (ml_row_flow ?l1) = []" using tgt by (simp add: ml_targets_def)
      then have "snd (cur_select_target ml_set_selected_target (ml_row_flow ?l1) t ?l1) = ?l1"
        using rf_position_None [of "ml_row_flow ?l1" t]
          position_of_selectable_target [of "ml_row_flow ?l1" 0]
        by (simp add: cur_select_target_def cur_first_def Let_def nth_opt_def ml_set_selected_target_def)
      with Some True none show ?thesis
        by (intro exI [of _ 0]) (simp add: ml_settled_def Let_def)
    next
      case False
      let ?t = "if t \<in> set (rows_targets rows) then t else rows_targets rows ! 0"
      have mem: "?t \<in> set (ml_targets ?l1)" using False tgt by simp
      have "snd (cur_select_target ml_set_selected_target (ml_row_flow ?l1) t ?l1)
          = ml_set_selected_target (Some ?t) ?l1"
        using rf_position_None [of "ml_row_flow ?l1" t] tgt False
          position_of_selectable_target [of "ml_row_flow ?l1" 0]
        by (auto simp: cur_select_target_def cur_first_def Let_def nth_opt_def ml_targets_def)
      moreover obtain i where "i < length (rows_targets rows)" "rows_targets rows ! i = ?t"
          "ml_set_selected_target (Some ?t) ?l1 = ?l1\<lparr>ml_cursor := i\<rparr>"
        using set_selected_cursor [OF idx mem] tgt by auto
      ultimately show ?thesis
        using Some False none
        by (intro exI [of _ i]) (auto simp: ml_settled_def Let_def settled_target_def nth_opt_def)
    qed
  qed
qed

text \<open>The second half of the replacement: the marks that are still present, and the scroll.\<close>

definition ml_retained :: "'a media_list \<Rightarrow> 'a media_list" where
  "ml_retained l3 =
     (let present = ml_present l3;
          l4 = l3\<lparr>ml_marks := marks_retain (\<lambda>t. t \<in> set present) (ml_marks l3),
                  ml_frozen := filter (\<lambda>t. t \<in> set present) (ml_frozen l3)\<rparr>;
          l5 = (if (case ml_range_anchor l4 of Some t \<Rightarrow> t \<notin> set present | None \<Rightarrow> False)
                then l4\<lparr>ml_range_anchor := ml_selected_target l4\<rparr> else l4);
          l6 = (if ml_marks l5 = []
                then l5\<lparr>ml_frozen := [], ml_range_anchor := None, ml_live_range := False\<rparr> else l5)
      in snd (vp_clamp ml_scroll ml_set_scroll (ml_row_flow l6) 1 l6))"

lemma set_content_halves: "ml_set_content rows l = ml_retained (ml_settled rows l)"
  unfolding ml_set_content_def ml_retained_def ml_settled_def Let_def selectable_rows_def ..

lemma selected_marks [simp]:
  "ml_selected_target (l\<lparr>ml_marks := m, ml_frozen := f\<rparr>) = ml_selected_target l"
  by (rule same_place_facts(3)) (simp add: same_place_def)

lemma retained_result:
  assumes "ml_present s = ts"
  shows "ml_retained s =
    (let ms = filter (\<lambda>t. t \<in> set ts) (ml_marks s)
     in s\<lparr>ml_marks := ms, ml_frozen := if ms = [] then [] else filter (\<lambda>t. t \<in> set ts) (ml_frozen s),
          ml_range_anchor := if ms = [] then None
            else (case ml_range_anchor s of None \<Rightarrow> None
                  | Some a \<Rightarrow> if a \<in> set ts then Some a else ml_selected_target s),
          ml_live_range := ms \<noteq> [] \<and> ml_live_range s,
          ml_scroll := min (ml_scroll s) (length (ml_rows s) - 1)\<rparr>)"
  by (cases "ml_range_anchor s"; cases "filter (\<lambda>t. t \<in> set ts) (ml_marks s)")
    (simp_all add: ml_retained_def Let_def assms marks_retain_def vp_clamp_def ml_set_scroll_def
      ml_row_flow_len max_viewport_offset_for_len_def)

lemma settled_present: "ml_wf l \<Longrightarrow> ml_present (ml_settled rows l) = rows_targets rows"
  using settled_result [of l rows] selectable_targets(2) [of "ml_settled rows l"]
  by (auto simp: ml_indexed_def ml_targets_rows)

lemma settled_selected:
  assumes "ml_wf l"
  shows "ml_selected_target (ml_settled rows l) = settled_target (rows_targets rows) (ml_selected_target l)"
proof -
  obtain i where i: "ml_settled rows l
      = l\<lparr>ml_rows := rows, ml_selectable := selectable_rows rows, ml_cursor := i\<rparr>"
    "if rows_targets rows = [] then i = 0 else i < length (rows_targets rows)
      \<and> settled_target (rows_targets rows) (ml_selected_target l) = Some (rows_targets rows ! i)"
    using settled_result [OF assms, of rows] by auto
  have "ml_indexed (ml_settled rows l)" by (simp add: i ml_indexed_def)
  from selected_target_nth [OF this] i show ?thesis
    by (auto simp: ml_targets_rows nth_opt_def settled_target_def split: option.splits if_splits)
qed

lemma set_content_fields:
  fixes l :: "'a media_list" and rows :: "'a media_list_row list"
  assumes "ml_wf l"
  defines "ms \<equiv> filter (\<lambda>t. t \<in> set (rows_targets rows)) (ml_marks l)"
  shows "ml_rows (ml_set_content rows l) = rows"
    "ml_selectable (ml_set_content rows l) = selectable_rows rows"
    "ml_cursor (ml_set_content rows l) = ml_cursor (ml_settled rows l)"
    "ml_scroll (ml_set_content rows l) = min (ml_scroll l) (length rows - 1)"
    "ml_marks (ml_set_content rows l) = ms"
    "ml_frozen (ml_set_content rows l)
      = (if ms = [] then [] else filter (\<lambda>t. t \<in> set (rows_targets rows)) (ml_frozen l))"
    "ml_range_anchor (ml_set_content rows l) = (if ms = [] then None
        else (case ml_range_anchor l of None \<Rightarrow> None
              | Some a \<Rightarrow> if a \<in> set (rows_targets rows) then Some a
                        else ml_selected_target (ml_settled rows l)))"
    "ml_live_range (ml_set_content rows l) = (ms \<noteq> [] \<and> ml_live_range l)"
    "ml_viewport_anchor (ml_set_content rows l) = ml_viewport_anchor l"
proof -
  obtain i where i: "ml_settled rows l
      = l\<lparr>ml_rows := rows, ml_selectable := selectable_rows rows, ml_cursor := i\<rparr>"
    using settled_result [OF assms(1), of rows] by blast
  show "ml_rows (ml_set_content rows l) = rows"
    "ml_selectable (ml_set_content rows l) = selectable_rows rows"
    "ml_cursor (ml_set_content rows l) = ml_cursor (ml_settled rows l)"
    "ml_scroll (ml_set_content rows l) = min (ml_scroll l) (length rows - 1)"
    "ml_marks (ml_set_content rows l) = ms"
    "ml_frozen (ml_set_content rows l)
      = (if ms = [] then [] else filter (\<lambda>t. t \<in> set (rows_targets rows)) (ml_frozen l))"
    "ml_range_anchor (ml_set_content rows l) = (if ms = [] then None
        else (case ml_range_anchor l of None \<Rightarrow> None
              | Some a \<Rightarrow> if a \<in> set (rows_targets rows) then Some a
                        else ml_selected_target (ml_settled rows l)))"
    "ml_live_range (ml_set_content rows l) = (ms \<noteq> [] \<and> ml_live_range l)"
    "ml_viewport_anchor (ml_set_content rows l) = ml_viewport_anchor l"
    unfolding set_content_halves retained_result [OF settled_present [OF assms(1)]] Let_def ms_def
    by (simp_all add: i)
qed

lemma set_content_inv:
  assumes "ml_inv l" "distinct (rows_targets rows)"
  shows "ml_inv (ml_set_content rows l)"
    "ml_selected_target (ml_set_content rows l)
      = settled_target (rows_targets rows) (ml_selected_target l)"
proof -
  let ?ts = "rows_targets rows" and ?r = "ml_set_content rows l" and ?s = "ml_settled rows l"
  let ?ms = "filter (\<lambda>t. t \<in> set ?ts) (ml_marks l)"
  note inv = ml_invD [OF assms(1)]
  obtain i where i: "?s = l\<lparr>ml_rows := rows, ml_selectable := selectable_rows rows, ml_cursor := i\<rparr>"
    "if ?ts = [] then i = 0 else i < length ?ts
      \<and> settled_target ?ts (ml_selected_target l) = Some (?ts ! i)"
    using settled_result [OF inv(1), of rows] by auto
  note r = set_content_fields [OF inv(1), of rows]
  have idx: "ml_indexed ?r" by (simp add: ml_indexed_def r)
  have tgt: "ml_targets ?r = ?ts" by (simp add: ml_targets_rows r)
  have len: "length (selectable_rows rows) = length ?ts"
    using selectable_length [OF idx] tgt r by simp
  have wf: "ml_wf ?r"
    using i len idx r(1-4) unfolding ml_wf_def by (auto split: if_splits)
  have sel: "ml_selected_target ?s = settled_target ?ts (ml_selected_target l)"
    by (rule settled_selected [OF inv(1)])
  show "ml_selected_target ?r = settled_target ?ts (ml_selected_target l)"
    using selected_target_nth [OF idx] i r(3) tgt
    by (auto simp: nth_opt_def settled_target_def split: option.splits if_splits)
  show "ml_inv ?r"
  proof (cases "?ms = []")
    case True
    with wf tgt assms(2) r(5-8) show ?thesis by (simp add: ml_inv_def ml_marks_ok_def)
  next
    case False
    then have "ml_marks l \<noteq> []" by auto
    then obtain a where a: "ml_range_anchor l = Some a"
      using assms(1) by (auto simp: ml_inv_def ml_marks_ok_def split: option.splits)
    have "?ts \<noteq> []" using False by (auto simp: filter_empty_conv)
    then obtain c where "ml_selected_target ?s = Some c" "c \<in> set ?ts"
      using i(2) sel by auto
    with False a wf tgt assms(2) r(5-8) inv show ?thesis
      by (auto simp: ml_inv_def ml_marks_ok_def)
  qed
qed

section \<open>Every operation keeps the invariant\<close>

lemma cursor_inv:
  assumes "ml_inv l"
  shows "ml_inv (ml_select_first l)" "ml_inv (ml_select_last l)" "ml_inv (ml_select_index i l)"
    "ml_inv (ml_move_selection d l)"
  by (rule same_marks_inv [OF cursor_same(1) cursor_wf(1) [OF ml_invD(1) [OF assms]] assms]
      same_marks_inv [OF cursor_same(2) cursor_wf(2) [OF ml_invD(1) [OF assms]] assms]
      same_marks_inv [OF cursor_same(3) cursor_wf(3) [OF ml_invD(1) [OF assms]] assms]
      same_marks_inv [OF cursor_same(4) cursor_wf(4) [OF ml_invD(1) [OF assms]] assms])+

lemma select_target_inv: "ml_inv l \<Longrightarrow> ml_inv (snd (ml_select_target t l))"
  by (rule same_marks_inv [OF select_target_same select_target_wf [OF ml_invD(1)]])

lemma scroll_wf: "ml_wf l \<Longrightarrow> ml_wf (ml_set_scroll n l)" "ml_wf l \<Longrightarrow> ml_wf (ml_set_viewport_anchor a l)"
  by (auto simp: ml_wf_def ml_indexed_def ml_set_scroll_def ml_set_viewport_anchor_def)

lemma scroll_inv: "ml_inv l \<Longrightarrow> ml_inv (ml_set_scroll n l)" "ml_inv l \<Longrightarrow> ml_inv (ml_set_viewport_anchor a l)"
  by (rule same_marks_inv [OF scroll_same(1) scroll_wf(1) [OF ml_invD(1)]],
      assumption, assumption)
    (rule same_marks_inv [OF scroll_same(2) scroll_wf(2) [OF ml_invD(1)]])

lemma context_intent_inv: "ml_inv l \<Longrightarrow> ml_inv (snd (ml_context_intent t l))"
  by (simp add: ml_context_intent_def clear_selection_inv)

lemma ml_apply_inv: "ml_inv l \<Longrightarrow> ml_inv (snd (ml_apply vl oper l))"
  by (cases oper)
    (simp_all add: cursor_inv select_target_inv scroll_inv context_intent_inv clear_selection_inv
      toggle_selection_inv extend_selection_inv ml_scroll_wheel_def split_beta split: option.split)

lemma delegate_inv:
  assumes "ml_inv l" shows "ml_inv (snd (ml_delegate_with_viewport_len oper vl l))"
proof -
  have "ml_inv (ml_re_anchor oper l)"
    using assms by (simp add: ml_re_anchor_def scroll_inv split: media_list_operation.split)
  from ml_apply_inv [OF this] show ?thesis
    by (simp add: ml_delegate_with_viewport_len_def Let_def split_beta extend_selection_inv
        split: option.split)
qed

lemma visual_key_inv: "ml_inv l \<Longrightarrow> ml_inv (snd (ml_handle_visual_key k l))"
  by (simp add: ml_handle_visual_key_def Let_def select_all_inv enter_visual_mode_inv
      clear_selection_inv toggle_selection_inv split: option.split)

text \<open>
  The events an owner receives: delegated operations, visual-mode keys, new content, a live
  patch of one row, a reset, and the owner's own cursor and scroll placements.
\<close>

datatype 'a ml_event =
    LE_Operation "'a media_list_operation" usize | LE_Key key_event
  | LE_Content "'a media_list_row list" | LE_Patch 'a "'a media_list_row"
  | LE_Reset | LE_Select_Index usize | LE_Set_Scroll usize | LE_Clear

fun ml_event_apply :: "'a ml_event \<Rightarrow> 'a media_list \<Rightarrow> 'a media_list" where
  "ml_event_apply (LE_Operation oper vl) l = snd (ml_delegate_with_viewport_len oper vl l)"
| "ml_event_apply (LE_Key k) l = snd (ml_handle_visual_key k l)"
| "ml_event_apply (LE_Content rows) l = ml_set_content rows l"
| "ml_event_apply (LE_Patch t row) l = snd (ml_patch_row t row l)"
| "ml_event_apply LE_Reset l = ml_reset_presentation l"
| "ml_event_apply (LE_Select_Index i) l = ml_select_index i l"
| "ml_event_apply (LE_Set_Scroll n) l = ml_set_scroll n l"
| "ml_event_apply LE_Clear l = ml_clear_selection l"

text \<open>Rows carry distinct identities, and a patch keeps the identity of its row.\<close>

fun ml_event_ok :: "'a ml_event \<Rightarrow> bool" where
  "ml_event_ok (LE_Content rows) = distinct (rows_targets rows)"
| "ml_event_ok (LE_Patch t row) = (selectable_target row = Some t)"
| "ml_event_ok _ = True"

lemma ml_event_inv: "ml_inv l \<Longrightarrow> ml_event_ok e \<Longrightarrow> ml_inv (ml_event_apply e l)"
  by (cases e) (simp_all add: cursor_inv delegate_inv visual_key_inv set_content_inv patch_row_inv
      reset_presentation_inv scroll_inv clear_selection_inv)

lemma ml_new_inv: "ml_inv ml_new"
  by (simp add: ml_new_def ml_inv_def ml_wf_def ml_indexed_def ml_marks_ok_def selectable_rows_def
      ml_targets_rows rows_targets_def List.map_filter_simps)

text \<open>
  C22. A media list never loses its bearings. Whatever operations, keys, row replacements,
  patches and resets arrive, as long as the rows of a list carry distinct identities: the
  cursor is on a selectable row whenever there is one, the marks are distinct rows of the
  list, a range anchor is a row of the list and exists exactly while there are marks, and a
  live range or frozen rows never outlive the marks.
\<close>

theorem media_list_invariant:
  assumes "list_all ml_event_ok evs"
  shows "ml_inv (fold ml_event_apply evs ml_new)"
proof -
  have "ml_inv l \<Longrightarrow> list_all ml_event_ok evs \<Longrightarrow> ml_inv (fold ml_event_apply evs l)" for l
    by (induction evs arbitrary: l) (auto intro: ml_event_inv)
  with ml_new_inv assms show ?thesis by blast
qed

text \<open>A list of three rows under a heading.\<close>

definition sample_row :: "int \<Rightarrow> int media_list_row" where
  "sample_row n = ML_Item n [] None None None Kind_Media MS_Ordinary"

definition sample_list :: "int media_list" where
  "sample_list = ml_set_content [ML_Heading [], sample_row 1, sample_row 2, sample_row 3] ml_new"

lemma sample_list_facts [simp]:
  "ml_inv sample_list" "ml_targets sample_list = [1, 2, 3]" "ml_selected_target sample_list = Some 1"
  "ml_marks sample_list = []" "\<not> ml_live_range sample_list" "ml_scroll sample_list = 0"
proof -
  have rows: "rows_targets [ML_Heading [], sample_row 1, sample_row 2, sample_row 3] = [1, 2, 3]"
    by (simp add: rows_targets_def List.map_filter_simps sample_row_def)
  show "ml_inv sample_list"
    unfolding sample_list_def by (rule set_content_inv(1) [OF ml_new_inv]) (simp add: rows)
  have new: "ml_wf ml_new" "ml_selected_target (ml_new :: int media_list) = None"
    using ml_invD(1) [OF ml_new_inv] by (simp_all add: ml_new_def ml_selected_target_def nth_opt_def)
  obtain i where i: "ml_settled [ML_Heading [], sample_row 1, sample_row 2, sample_row 3] ml_new
      = ml_new\<lparr>ml_rows := [ML_Heading [], sample_row 1, sample_row 2, sample_row 3],
          ml_selectable := selectable_rows [ML_Heading [], sample_row 1, sample_row 2, sample_row 3],
          ml_cursor := i\<rparr>"
    using settled_result [OF new(1)] by blast
  note r = set_content_halves [of _ ml_new] retained_result [OF settled_present [OF new(1)]] Let_def
  show "ml_marks sample_list = []" "\<not> ml_live_range sample_list" "ml_scroll sample_list = 0"
    unfolding sample_list_def r by (simp_all add: i) (simp_all add: ml_new_def)
  show "ml_targets sample_list = [1, 2, 3]"
    unfolding ml_targets_rows sample_list_def r by (simp add: i rows)
  show "ml_selected_target sample_list = Some 1"
    unfolding sample_list_def
    by (simp add: set_content_inv(2) [OF ml_new_inv] rows new(2) settled_target_def nth_opt_def)
qed

lemma media_list_invariant_witness:
  "ml_inv (fold ml_event_apply [LE_Content [sample_row 1, ML_Spacer, sample_row 2],
     LE_Operation (Op_Move 1) 3, LE_Key \<lparr>ke_code = char_key CHR ''a'', ke_modifiers = MOD_CONTROL\<rparr>,
     LE_Content [sample_row 2]] ml_new)"
  by (rule media_list_invariant)
    (simp add: rows_targets_def List.map_filter_simps sample_row_def)

section \<open>Movement and ranges\<close>

lemma extend_result:
  assumes "ml_inv l" "ml_position_of l t = Some e" "ml_range_anchor l = Some a" "ml_position_of l a = Some k"
  shows "ml_marks (ml_extend_selection_to t l) = map (nth (ml_targets l))
      (filter (\<lambda>i. ml_targets l ! i \<in> set (ml_frozen l) \<or> min k e \<le> i \<and> i \<le> max k e)
        [0..<length (ml_targets l)])"
    "ml_frozen (ml_extend_selection_to t l) = ml_frozen l"
  using assms range_targets_eq [OF ml_invD(2) [OF assms(1)], of "min k e" "max k e"]
  by (cases "k \<le> e"; simp add: ml_extend_selection_to_def Let_def marks_set_targets_def)+

lemma move_selected:
  "ml_wf l \<Longrightarrow> ml_selected_target (ml_move_selection d l) = moved_target (ml_targets l) (ml_selected_target l) d"
  using mlc.moved_selected [OF ml_wfD, of l d] by (simp add: ml_move_selection_def ml_targets_def)

lemma delegate_move:
  "snd (ml_delegate (Op_Move d) l) =
     (let l2 = ml_move_selection d (ml_set_viewport_anchor FollowSelection l)
      in if ml_live_range l2 then (case ml_selected_target l2 of
           Some t \<Rightarrow> ml_extend_selection_to t l2 | None \<Rightarrow> l2) else l2)"
  by (simp add: ml_delegate_def ml_delegate_with_viewport_len_def ml_re_anchor_def Let_def)

text \<open>
  A movement selects the row its distance from the selected one, among the selectable
  rows and cut off at both ends; from nowhere it selects the first row, or the last when it
  goes up. Without a live range the marks stay as they are; with one, the marks become the
  frozen rows and all rows from the range's anchor to the new selection, in display order.
\<close>

theorem movement_extends_range:
  assumes "ml_inv l"
  shows "let l' = snd (ml_delegate (Op_Move d) l); ts = ml_targets l in
    ml_selected_target l' = moved_target ts (ml_selected_target l) d
    \<and> ml_rows l' = ml_rows l \<and> ml_frozen l' = ml_frozen l
    \<and> (\<not> ml_live_range l \<longrightarrow> ml_marks l' = ml_marks l)
    \<and> (\<forall>a k t e. ml_live_range l \<and> ml_range_anchor l = Some a \<and> ml_position_of l a = Some k
         \<and> ml_selected_target l' = Some t \<and> ml_position_of l t = Some e \<longrightarrow>
         ml_marks l' = map (nth ts)
           (filter (\<lambda>i. ts ! i \<in> set (ml_frozen l) \<or> min k e \<le> i \<and> i \<le> max k e) [0..<length ts]))"
proof -
  let ?l1 = "ml_set_viewport_anchor FollowSelection l"
  let ?l2 = "ml_move_selection d ?l1"
  let ?l' = "snd (ml_delegate (Op_Move d) l)"
  have place1: "same_place l ?l1" by (simp add: same_place_def ml_set_viewport_anchor_def)
  have same: "same_marks l ?l2" using scroll_same(2) cursor_same(4) by (rule same_marks_trans)
  have inv2: "ml_inv ?l2" using assms by (intro cursor_inv scroll_inv)
  have tgt: "ml_targets ?l2 = ml_targets l" using same by (intro same_rows_targets) (simp add: same_marks_def)
  have pos: "ml_position_of ?l2 t = ml_position_of l t" for t
    by (simp add: position_of_targets ml_invD(2) inv2 assms tgt)
  have "ml_wf ?l1" using ml_invD(1) assms scroll_wf(2) by blast
  from move_selected [OF this, of d] have sel: "ml_selected_target ?l2
      = moved_target (ml_targets l) (ml_selected_target l) d"
    by (simp add: same_place_facts [OF place1])
  have cases': "?l' = (if ml_live_range l then (case ml_selected_target ?l2 of
      Some t \<Rightarrow> ml_extend_selection_to t ?l2 | None \<Rightarrow> ?l2) else ?l2)"
    using delegate_move [of d l] same by (simp add: same_marks_def Let_def)
  have ext: "ml_selected_target (ml_extend_selection_to t ?l2) = ml_selected_target ?l2"
      "ml_rows (ml_extend_selection_to t ?l2) = ml_rows ?l2"
      "ml_frozen (ml_extend_selection_to t ?l2) = ml_frozen ?l2" for t
    using same_place_facts(3) [OF extend_selection_place, of t ?l2] extend_selection_place [of ?l2 t]
    by (simp_all add: same_place_def)
      (simp add: ml_extend_selection_to_def Let_def split: option.split)
  have sel': "ml_selected_target ?l' = ml_selected_target ?l2"
    unfolding cases' by (simp add: ext split: option.split)
  moreover have "ml_rows ?l' = ml_rows l \<and> ml_frozen ?l' = ml_frozen l"
    unfolding cases' using same by (simp add: ext same_marks_def split: option.split)
  moreover have "\<not> ml_live_range l \<longrightarrow> ml_marks ?l' = ml_marks l"
    unfolding cases' using same by (simp add: same_marks_def)
  moreover have "ml_marks ?l' = map (nth (ml_targets l))
      (filter (\<lambda>i. ml_targets l ! i \<in> set (ml_frozen l) \<or> min k e \<le> i \<and> i \<le> max k e) [0..<length (ml_targets l)])"
    if "ml_live_range l" "ml_range_anchor l = Some a" "ml_position_of l a = Some k"
      "ml_selected_target ?l2 = Some t" "ml_position_of l t = Some e" for a k t e
    using that same extend_result(1) [OF inv2, of t e a k] unfolding cases'
    by (simp add: pos tgt same_marks_def)
  ultimately show ?thesis unfolding Let_def sel' sel [symmetric] by blast
qed

lemma movement_extends_range_witness:
  "ml_selected_target (snd (ml_delegate (Op_Move 5) sample_list)) = Some 3
   \<and> ml_marks (snd (ml_delegate (Op_Move 5) sample_list)) = []"
  using movement_extends_range [of sample_list 5]
  by (simp add: Let_def moved_target_def nth_opt_def shift_clamped_def)

section \<open>Content\<close>

text \<open>
  New rows keep what they can. The selected row stays selected when the new rows still
  have it, and otherwise the first row is selected; the marks are exactly the old marks still
  present, in their order; a vanished range anchor moves to the selected row; when no mark is
  left, the frozen rows, the anchor and the live range are gone; and the scroll stays where it
  was unless the list became shorter.
\<close>

theorem content_keeps_selection:
  assumes "ml_inv l" "distinct (rows_targets rows)"
  shows "let l' = ml_set_content rows l; ts = rows_targets rows in
    ml_selected_target l' = (case ml_selected_target l of
        Some t \<Rightarrow> if t \<in> set ts then Some t else nth_opt ts 0 | None \<Rightarrow> nth_opt ts 0)
    \<and> ml_marks l' = filter (\<lambda>t. t \<in> set ts) (ml_marks l)
    \<and> ml_range_anchor l' = (if ml_marks l' = [] then None
        else (case ml_range_anchor l of None \<Rightarrow> None
              | Some a \<Rightarrow> if a \<in> set ts then Some a else ml_selected_target l'))
    \<and> ml_live_range l' = (ml_marks l' \<noteq> [] \<and> ml_live_range l)
    \<and> ml_scroll l' = min (ml_scroll l) (length rows - 1) \<and> ml_inv l'"
proof -
  note wf = ml_invD(1) [OF assms(1)]
  have sel: "ml_selected_target (ml_settled rows l) = ml_selected_target (ml_set_content rows l)"
    using set_content_inv(2) [OF assms] settled_selected [OF wf] by simp
  show ?thesis
    using set_content_inv(1) [OF assms] set_content_inv(2) [OF assms, unfolded settled_target_def]
    unfolding Let_def set_content_fields(4,5,7,8) [OF wf, of rows] sel by blast
qed

lemma content_keeps_selection_witness:
  "ml_selected_target (ml_set_content [sample_row 4, sample_row 1] sample_list) = Some 1"
proof -
  have rows: "rows_targets [sample_row 4, sample_row 1] = [4, 1]"
    by (simp add: rows_targets_def List.map_filter_simps sample_row_def)
  show ?thesis
    using content_keeps_selection [of sample_list "[sample_row 4, sample_row 1]"]
    by (simp add: rows Let_def)
qed

section \<open>The wheel and the viewport\<close>

lemma scroll_wheel_vp:
  "ml_scroll_wheel d vl l = snd (vp_scroll ml_scroll ml_set_scroll ml_set_viewport_anchor (ml_row_flow l) vl d l)"
  by (simp add: ml_scroll_wheel_def vp_scroll_def Let_def ml_row_flow_len)

text \<open>
  The wheel moves the viewport and nothing else: the selection, the marks and the range
  are untouched; the offset moves by the distance, cut off at both ends of the list; the
  operation counts as handled exactly when the offset changed; and the next resolve at the
  same height leaves the viewport where the wheel put it, wherever the selection is.
\<close>

theorem wheel_moves_viewport_only:
  assumes "ml_inv l" "int (length (ml_rows l)) \<le> i64_max" "is_i64 d"
  shows "let (m, l') = ml_delegate_with_viewport_len (Op_Scroll d) vl l;
      top = max_viewport_offset_for_len (length (ml_rows l)) vl in
    int (ml_scroll l') = max 0 (min (int (min (ml_scroll l) top) + d) (int top))
    \<and> same_marks l l' \<and> ml_cursor l' = ml_cursor l
    \<and> ml_selected_target l' = ml_selected_target l \<and> mt_selected_target m = None
    \<and> mt_selection_count m = None \<and> mt_external_intent m = None
    \<and> (mt_disposition m = ML_Consumed \<longleftrightarrow> ml_scroll l' \<noteq> ml_scroll l)
    \<and> wv_offset (ml_resolve_viewport vl l') = ml_scroll l'"
proof -
  let ?l' = "ml_scroll_wheel d vl l"
  let ?top = "max_viewport_offset_for_len (length (ml_rows l)) vl"
  note idx = ml_invD(2) [OF assms(1)]
  from mlv.scroll_frees [OF idx _ assms(3), of vl] assms(2)
  have s: "ml_selected_target ?l' = ml_selected_target l" "ml_viewport_anchor ?l' = Free"
    "int (ml_scroll ?l') = max 0 (min (int (min (ml_scroll l) ?top) + d) (int ?top))"
    by (simp_all add: ml_row_flow_len scroll_wheel_vp Let_def)
  have frame: "same_marks l ?l'" "ml_cursor ?l' = ml_cursor l" "length (ml_rows ?l') = length (ml_rows l)"
    by (simp_all add: ml_scroll_wheel_def same_marks_def ml_set_scroll_def ml_set_viewport_anchor_def)
  have "int (ml_scroll ?l') \<le> int ?top" unfolding s(3) by linarith
  then have "ml_scroll ?l' \<le> ?top" by simp
  then have "wv_offset (ml_resolve_viewport vl ?l') = ml_scroll ?l'"
    using s(2) frame(3)
    by (simp add: ml_resolve_viewport_def resolved_viewport_offset_def Let_def ml_row_flow_len
        max_viewport_offset_for_len_def)
  moreover have "ml_delegate_with_viewport_len (Op_Scroll d) vl l
      = (\<lparr>mt_disposition = if ml_scroll ?l' = ml_scroll l then ML_Unhandled else ML_Consumed,
          mt_selected_target = None, mt_selection_count = None, mt_external_intent = None\<rparr>, ?l')"
    using s(1) frame(1) by (simp add: ml_delegate_with_viewport_len_def ml_re_anchor_def Let_def same_marks_def)
  ultimately show ?thesis using s frame by (simp add: Let_def)
qed

lemma wheel_moves_viewport_only_witness:
  "ml_selected_target (snd (ml_delegate_with_viewport_len (Op_Scroll 3) 2 sample_list)) = Some 1"
proof -
  have "length (ml_rows sample_list) = 4"
    unfolding sample_list_def
    by (simp add: set_content_fields(1) [OF ml_invD(1) [OF ml_new_inv]])
  with wheel_moves_viewport_only [of sample_list 3 2] show ?thesis
    by (simp add: split_beta Let_def is_i64_def)
qed

text \<open>
  C33. The resolved viewport of a list that follows its selection. The offset stays inside the
  list and never passes the selected row from above; it does not move when the selected row is
  already visible; and the selected row is visible, unless it was above the viewport and so
  many structural rows stand directly above it that raising the viewport over all of them
  pushes the row itself out at the bottom.
\<close>

theorem viewport_shows_selection:
  assumes "ml_inv l" "ml_viewport_anchor l = FollowSelection" "ml_selected_display_row l = Some p"
  shows "let o1 = wv_offset (ml_resolve_viewport height l);
      top = max_viewport_offset_for_len (length (ml_rows l)) height;
      heading = leading_structural_offset (ml_row_flow l) p in
    o1 \<le> top \<and> o1 \<le> p \<and> (\<forall>k. heading \<le> k \<and> k < p \<longrightarrow> rf_row_at (ml_row_flow l) k = Some Structural)
    \<and> (visible_at (min (ml_scroll l) top) height p \<longrightarrow> o1 = min (ml_scroll l) top)
    \<and> (visible_at o1 height p
       \<or> p < min (ml_scroll l) top \<and> o1 = heading \<and> p - heading \<ge> max height 1)"
proof -
  let ?f = "ml_row_flow l"
  have "p \<in> set (ml_selectable l)"
    using assms(3) by (auto simp: ml_selected_display_row_def nth_opt_def split: if_splits)
  then have p: "p < rf_len ?f"
    using ml_invD(2) [OF assms(1)] by (auto simp: ml_indexed_def selectable_rows_def ml_row_flow_len)
  have top: "max_viewport_offset_for_len (length (ml_rows l)) height = rf_len ?f - max height 1"
    by (simp add: max_viewport_offset_for_len_def ml_row_flow_len)
  have result: "wv_offset (ml_resolve_viewport height l)
      = (let offset = min (ml_scroll l) (rf_len ?f - max height 1)
         in min (if p < offset then leading_structural_offset ?f p
                 else if p \<ge> offset + max height 1 then p + 1 - max height 1 else offset)
            (rf_len ?f - max height 1))"
    using assms(2,3)
    by (simp add: ml_resolve_viewport_def resolved_viewport_offset_def Let_def max_viewport_offset_for_len_def)
  have "leading_structural_offset ?f p \<le> p" by (rule leading_offset_le)
  then show ?thesis
    unfolding Let_def top result using p leading_offset_structural [of ?f p]
    by (auto simp: visible_at_def)
qed

lemma viewport_shows_selection_witness:
  "\<exists>p. ml_selected_display_row sample_list = Some p
    \<and> wv_offset (ml_resolve_viewport 2 sample_list) \<le> p"
proof -
  have "ml_viewport_anchor sample_list = FollowSelection"
    unfolding sample_list_def
    by (simp add: set_content_fields(9) [OF ml_invD(1) [OF ml_new_inv]]) (simp add: ml_new_def)
  moreover obtain p where "ml_selected_display_row sample_list = Some p"
    using sample_list_facts(3)
    by (auto simp: ml_selected_target_def ml_selected_display_row_def bind_eq_Some_conv)
  ultimately show ?thesis
    using viewport_shows_selection [of sample_list p 2] by (simp add: Let_def)
qed

end
