(* ===== verification/Fuzzy_Match.thy ===== *)
theory Fuzzy_Match
  imports Text_Base "HOL-Library.Sublist"
begin

text \<open>
  The acceptance rule the library's searches share (\<^verbatim>\<open>mbv-text/src/fuzzy_match.rs\<close>): every
  word of the query has to match inside one word of the candidate, in order. The score of one
  word against one word is the third-party matcher's (\<^verbatim>\<open>SkimMatcherV2\<close>), the parameter \<open>m\<close>,
  which takes the candidate's word and the query's word. The code takes the candidate's
  words greedily; the theorem shows that this loses no match.
\<close>

section \<open>White space\<close>

text \<open>The number of bytes of the white space character a string starts with, 0 for none.\<close>

definition ws_width :: "string \<Rightarrow> usize" where
  "ws_width s =
     (case s of [] \<Rightarrow> 0
      | a # t \<Rightarrow> if ws1 a then 1
          else (case t of [] \<Rightarrow> 0
                | b # u \<Rightarrow> if ws2 a b then 2
                    else (case u of [] \<Rightarrow> 0 | c # v \<Rightarrow> if ws3 a b c then 3 else 0)))"

text \<open>\<^verbatim>\<open>str::split_whitespace\<close>; the accumulator is the word read so far, reversed.\<close>

function words_from :: "string \<Rightarrow> string \<Rightarrow> string list" where
  "words_from cur [] = (if cur = [] then [] else [rev cur])"
| "words_from cur (a # s) =
     (if ws_width (a # s) = 0 then words_from (a # cur) s
      else if cur = [] then words_from [] (drop (ws_width (a # s)) (a # s))
      else rev cur # words_from [] (drop (ws_width (a # s)) (a # s)))"
  by pat_completeness auto
termination
  by (relation "measure (\<lambda>(cur, s). length s)") auto

definition split_whitespace :: "string \<Rightarrow> string list" where
  "split_whitespace s = words_from [] s"

lemma words_nonempty: "w \<in> set (words_from cur s) \<Longrightarrow> w \<noteq> []"
  by (induction cur s rule: words_from.induct) (auto split: if_splits)

section \<open>The score\<close>

type_synonym word_matcher = "string \<Rightarrow> string \<Rightarrow> i64 option"

text \<open>\<^verbatim>\<open>words.by_ref().find_map(..)\<close>: the score and the words not looked at yet.\<close>

fun next_word_match :: "word_matcher \<Rightarrow> string \<Rightarrow> string list \<Rightarrow> (i64 \<times> string list) option" where
  "next_word_match m q [] = None"
| "next_word_match m q (w # ws) =
     (case m w q of Some score \<Rightarrow> Some (score, ws) | None \<Rightarrow> next_word_match m q ws)"

fun score_words ::
  "word_matcher \<Rightarrow> string list \<Rightarrow> string list \<Rightarrow> bool \<Rightarrow> i64 \<Rightarrow> i64 option" where
  "score_words m ws [] matched_a_query_word tot =
     (if matched_a_query_word then Some tot else None)"
| "score_words m ws (q # qs) matched_a_query_word tot =
     (case next_word_match m q ws of
        None \<Rightarrow> None
      | Some (score, rest) \<Rightarrow> score_words m rest qs True (wrap_i64 (tot + score)))"

definition word_match_score :: "word_matcher \<Rightarrow> string \<Rightarrow> string \<Rightarrow> i64 option" where
  "word_match_score m text query =
     score_words m (split_whitespace text) (split_whitespace query) False 0"

section \<open>Greedy matching is complete\<close>

text \<open>Words of the candidate, in order, that match the words of the query one by one.\<close>

definition matches_in_order :: "word_matcher \<Rightarrow> string list \<Rightarrow> string list \<Rightarrow> bool" where
  "matches_in_order m ws qs \<longleftrightarrow> (\<exists>us. subseq us ws \<and> list_all2 (\<lambda>w q. m w q \<noteq> None) us qs)"

lemma in_order_Nil [simp]: "matches_in_order m ws []"
  by (auto simp: matches_in_order_def)

lemma in_order_no_words [simp]: "matches_in_order m [] (q # qs) = False"
  by (auto simp: matches_in_order_def list_all2_Cons2)

lemma in_order_drop: "matches_in_order m ws qs \<Longrightarrow> matches_in_order m (w # ws) qs"
  by (auto simp: matches_in_order_def intro: list_emb_Cons)

lemma in_order_step:
  "matches_in_order m (w # ws) (q # qs) \<longleftrightarrow>
     (if m w q \<noteq> None then matches_in_order m ws qs else matches_in_order m ws (q # qs))"
proof (cases "m w q = None")
  case True
  show ?thesis
  proof
    assume "matches_in_order m (w # ws) (q # qs)"
    then obtain u us where "subseq (u # us) (w # ws)" "m u q \<noteq> None"
      "list_all2 (\<lambda>w q. m w q \<noteq> None) us qs"
      by (auto simp: matches_in_order_def list_all2_Cons2)
    moreover from this True have "u \<noteq> w" by auto
    ultimately have "subseq (u # us) ws \<and> list_all2 (\<lambda>w q. m w q \<noteq> None) (u # us) (q # qs)"
      by simp
    then have "matches_in_order m ws (q # qs)" unfolding matches_in_order_def by blast
    with True show "if m w q \<noteq> None then matches_in_order m ws qs else matches_in_order m ws (q # qs)"
      by simp
  qed (use True in_order_drop in auto)
next
  case False
  have "matches_in_order m ws qs" if "matches_in_order m (w # ws) (q # qs)"
  proof -
    from that obtain u us where "subseq (u # us) (w # ws)"
      "list_all2 (\<lambda>w q. m w q \<noteq> None) us qs"
      by (auto simp: matches_in_order_def list_all2_Cons2)
    moreover from this(1) have "subseq us ws"
      by (metis subseq_Cons' subseq_Cons2' subseq_Cons2_neq)
    ultimately show ?thesis unfolding matches_in_order_def by blast
  qed
  moreover have "matches_in_order m (w # ws) (q # qs)" if rest: "matches_in_order m ws qs"
  proof -
    from rest obtain us where "subseq us ws" "list_all2 (\<lambda>w q. m w q \<noteq> None) us qs"
      by (auto simp: matches_in_order_def)
    with False have "subseq (w # us) (w # ws) \<and> list_all2 (\<lambda>w q. m w q \<noteq> None) (w # us) (q # qs)"
      by simp
    then show ?thesis unfolding matches_in_order_def by blast
  qed
  ultimately show ?thesis using False by auto
qed

lemma next_word_in_order:
  "matches_in_order m ws (q # qs) \<longleftrightarrow>
     (\<exists>score rest. next_word_match m q ws = Some (score, rest) \<and> matches_in_order m rest qs)"
proof (induction ws)
  case (Cons w ws)
  then show ?case by (cases "m w q") (simp_all add: in_order_step)
qed simp

lemma score_words_in_order:
  "score_words m ws qs matched tot \<noteq> None \<longleftrightarrow> (qs = [] \<longrightarrow> matched) \<and> matches_in_order m ws qs"
proof (induction qs arbitrary: ws matched tot)
  case (Cons q qs)
  then show ?case
    by (auto simp: next_word_in_order split: option.splits prod.splits)
qed simp

text \<open>
  A candidate text is accepted exactly when the query has a word and some words of the
  text, in their order, match the words of the query one by one: taking the first word of the
  text that matches and never going back loses no match, and no query word is ever matched
  across two words of the text.
\<close>

theorem fuzzy_accepts_iff_in_order:
  "word_match_score m text query \<noteq> None \<longleftrightarrow>
     split_whitespace query \<noteq> [] \<and> matches_in_order m (split_whitespace text) (split_whitespace query)"
  unfolding word_match_score_def score_words_in_order by simp

end
