(* ===== verification/Tree_Model.thy ===== *)
theory Tree_Model
  imports List_Flow Media_List Fuzzy_Match "HOL-Library.AList" "HOL-Library.Monad_Syntax"
begin

text \<open>
  The tree browser (\<^verbatim>\<open>mbv-components/src/list/tree_browser.rs\<close> and \<^verbatim>\<open>tree_browser/types.rs\<close>):
  its rows, the arena of nodes, and the replacement of the projected forest.

  A loop of the source that follows parents or children is given fuel here; running out of it,
  like a panic of the source, is the value \<open>None\<close>. \<open>Tree_Forest\<close> and \<open>Tree_Laws\<close> show that the
  fuel handed out (one more than the number of nodes) is always enough for a forest that
  reconciliation has accepted, so no operation of the owner diverges or panics.

  Node identifiers are natural numbers; the source's allocator saturates at \<^verbatim>\<open>usize::MAX\<close>,
  which no run reaches. A \<^verbatim>\<open>HashMap\<close> that is only read and extended is a function into
  \<open>option\<close>, one that is compared is an association list. The \<^verbatim>\<open>Rect\<close> of the terminal library
  is its four public fields; its \<^verbatim>\<open>contains\<close>, \<^verbatim>\<open>bottom\<close> and \<^verbatim>\<open>new\<close> are parameters. The marquee,
  its clock and the error's backtrace are left out.
\<close>

section \<open>Loops over lists that may fail\<close>

fun fold_opt :: "('b \<Rightarrow> 'a \<Rightarrow> 'a option) \<Rightarrow> 'b list \<Rightarrow> 'a \<Rightarrow> 'a option" where
  "fold_opt f [] s = Some s"
| "fold_opt f (x # xs) s = (case f x s of None \<Rightarrow> None | Some s' \<Rightarrow> fold_opt f xs s')"

text \<open>\<^verbatim>\<open>iter().any(..)\<close> stops at the first element that holds.\<close>

fun any_opt :: "('b \<Rightarrow> bool option) \<Rightarrow> 'b list \<Rightarrow> bool option" where
  "any_opt f [] = Some False"
| "any_opt f (x # xs) =
     (case f x of None \<Rightarrow> None | Some True \<Rightarrow> Some True | Some False \<Rightarrow> any_opt f xs)"

section \<open>Rows and nodes\<close>

datatype tree_title_role = Title_Heading | Title_Secondary | Title_Standard

record tree_trailing = tt_text :: string

definition tree_trailing_new :: "string \<Rightarrow> tree_trailing" where
  "tree_trailing_new text = \<lparr>tt_text = text\<rparr>"

datatype tree_mark_policy = Mark_Direct | Mark_Aggregate | Mark_Excluded

record 'a tree_node =
  tn_target :: 'a
  tn_parent :: "'a option"
  tn_title :: string
  tn_search_text :: string
  tn_title_role :: tree_title_role
  tn_trailing :: "tree_trailing option"
  tn_semantic_state :: media_semantic_state
  tn_mark_policy :: tree_mark_policy
  tn_expandable :: bool

definition tree_node_new ::
  "'a \<Rightarrow> 'a option \<Rightarrow> string \<Rightarrow> string \<Rightarrow> media_semantic_state \<Rightarrow> tree_mark_policy \<Rightarrow> 'a tree_node" where
  "tree_node_new t parent title search_text state policy =
     \<lparr>tn_target = t, tn_parent = parent, tn_title = title, tn_search_text = search_text,
      tn_title_role = Title_Standard, tn_trailing = None, tn_semantic_state = state,
      tn_mark_policy = policy, tn_expandable = False\<rparr>"

definition with_trailing :: "string \<Rightarrow> 'a tree_node \<Rightarrow> 'a tree_node" where
  "with_trailing trailing n = n\<lparr>tn_trailing := Some (tree_trailing_new trailing)\<rparr>"

definition with_title_role :: "tree_title_role \<Rightarrow> 'a tree_node \<Rightarrow> 'a tree_node" where
  "with_title_role role n = n\<lparr>tn_title_role := role\<rparr>"

definition with_expandable :: "bool \<Rightarrow> 'a tree_node \<Rightarrow> 'a tree_node" where
  "with_expandable expandable n = n\<lparr>tn_expandable := expandable\<rparr>"

datatype 'a tree_entry = Entry_Node "'a tree_node" | Entry_Heading string | Entry_Spacer

datatype structural_row = Row_Heading string | Row_Spacer
datatype visible_row = Visible_Node nat | Visible_Structural nat usize

datatype 'a tree_error =
    Duplicate_Target 'a
  | Missing_Parent 'a 'a
  | Self_Parent 'a
  | Cycle_Target 'a

fun kind_name :: "'a tree_error \<Rightarrow> string" where
  "kind_name (Duplicate_Target t) = ''components.tree_browser.duplicate_target''"
| "kind_name (Missing_Parent t p) = ''components.tree_browser.missing_parent''"
| "kind_name (Self_Parent t) = ''components.tree_browser.self_parent''"
| "kind_name (Cycle_Target t) = ''components.tree_browser.cycle''"

section \<open>Retained paint\<close>

record rect =
  rect_x :: "16 word"
  rect_y :: "16 word"
  rect_width :: "16 word"
  rect_height :: "16 word"

record point =
  point_x :: "16 word"
  point_y :: "16 word"

text \<open>What the code calls of the terminal library's \<^verbatim>\<open>Rect\<close>.\<close>

record geometry =
  geo_contains :: "rect \<Rightarrow> point \<Rightarrow> bool"
  geo_bottom :: "rect \<Rightarrow> 16 word"
  geo_new :: "16 word \<Rightarrow> 16 word \<Rightarrow> 16 word \<Rightarrow> 16 word \<Rightarrow> rect"

record 'a completed_paint =
  cp_claim_rect :: rect
  cp_content_rect :: rect
  cp_rows :: "(rect \<times> 'a) list"
  cp_selected_row_rect :: "rect option"

record 'a paint_state =
  ps_completed :: "'a completed_paint option"
  ps_last_content_rect :: "rect option"

definition paint_new :: "'a paint_state" where
  "paint_new = \<lparr>ps_completed = None, ps_last_content_rect = None\<rparr>"

definition paint_begin :: "'a paint_state \<Rightarrow> 'a paint_state" where
  "paint_begin p = p\<lparr>ps_completed := None\<rparr>"

definition paint_invalidate :: "'a paint_state \<Rightarrow> 'a paint_state" where
  "paint_invalidate p = p\<lparr>ps_completed := None\<rparr>"

definition store_completed ::
  "rect \<Rightarrow> rect \<Rightarrow> (rect \<times> 'a) list \<Rightarrow> rect option \<Rightarrow> 'a paint_state \<Rightarrow> 'a paint_state" where
  "store_completed claim content rows selected p =
     p\<lparr>ps_completed := Some \<lparr>cp_claim_rect = claim, cp_content_rect = content, cp_rows = rows,
         cp_selected_row_rect = selected\<rparr>,
       ps_last_content_rect := Some content\<rparr>"

definition paint_is_valid :: "'a paint_state \<Rightarrow> bool" where
  "paint_is_valid p \<longleftrightarrow> ps_completed p \<noteq> None"

definition paint_content_rect :: "'a paint_state \<Rightarrow> rect option" where
  "paint_content_rect p = map_option cp_content_rect (ps_completed p)"

definition claims_point :: "geometry \<Rightarrow> 'a paint_state \<Rightarrow> point \<Rightarrow> bool" where
  "claims_point geo p pt \<longleftrightarrow>
     (case ps_completed p of None \<Rightarrow> False | Some c \<Rightarrow> geo_contains geo (cp_claim_rect c) pt)"

definition resolve_point :: "geometry \<Rightarrow> 'a paint_state \<Rightarrow> point \<Rightarrow> 'a option" where
  "resolve_point geo p pt =
     (case ps_completed p of
        None \<Rightarrow> None
      | Some c \<Rightarrow>
          if \<not> geo_contains geo (cp_claim_rect c) pt then None
          else map_option snd (List.find (\<lambda>(r, t). geo_contains geo r pt) (cp_rows c)))"

definition paint_selected_row_rect :: "'a paint_state \<Rightarrow> rect option" where
  "paint_selected_row_rect p = Option.bind (ps_completed p) cp_selected_row_rect"

section \<open>Validation of a projection\<close>

text \<open>The index of each target; a repeated target is the first error reported.\<close>

fun index_targets ::
  "'a tree_node list \<Rightarrow> usize \<Rightarrow> ('a \<Rightarrow> usize option) \<Rightarrow> 'a tree_error + ('a \<Rightarrow> usize option)" where
  "index_targets [] i index = Inr index"
| "index_targets (n # ns) i index =
     (if index (tn_target n) \<noteq> None then Inl (Duplicate_Target (tn_target n))
      else index_targets ns (Suc i) (index(tn_target n \<mapsto> i)))"

fun parents_error :: "('a \<Rightarrow> usize option) \<Rightarrow> 'a tree_node list \<Rightarrow> 'a tree_error option" where
  "parents_error index [] = None"
| "parents_error index (n # ns) =
     (case tn_parent n of
        None \<Rightarrow> parents_error index ns
      | Some p \<Rightarrow>
          if p = tn_target n then Some (Self_Parent (tn_target n))
          else if index p = None then Some (Missing_Parent (tn_target n) p)
          else parents_error index ns)"

text \<open>
  The walk up one parent chain. It ends for every list of nodes: each target after the first
  is the parent of a node, and none is looked at twice.
\<close>

definition parent_by_index ::
  "'a tree_node list \<Rightarrow> ('a \<Rightarrow> usize option) \<Rightarrow> 'a \<Rightarrow> 'a option" where
  "parent_by_index nodes index t =
     Option.bind (Option.bind (index t) (nth_opt nodes)) tn_parent"

definition parent_targets :: "'a tree_node list \<Rightarrow> 'a set" where
  "parent_targets nodes = {p. \<exists>n\<in>set nodes. tn_parent n = Some p}"

lemma finite_parent_targets [simp]: "finite (parent_targets nodes)"
proof -
  have "parent_targets nodes \<subseteq> the ` tn_parent ` set nodes"
    by (force simp: parent_targets_def)
  then show ?thesis by (rule finite_subset) simp
qed

lemma parent_by_index_target: "parent_by_index nodes index t = Some p \<Longrightarrow> p \<in> parent_targets nodes"
  by (auto simp: parent_by_index_def parent_targets_def bind_eq_Some_conv)

function chain_cycle ::
  "'a tree_node list \<Rightarrow> ('a \<Rightarrow> usize option) \<Rightarrow> 'a set \<Rightarrow> 'a option \<Rightarrow> 'a option" where
  "chain_cycle nodes index seen None = None"
| "chain_cycle nodes index seen (Some t) =
     (if t \<in> seen then Some t
      else chain_cycle nodes index (insert t seen) (parent_by_index nodes index t))"
  by pat_completeness auto

abbreviation chain_measure :: "'a tree_node list \<Rightarrow> 'a set \<Rightarrow> 'a option \<Rightarrow> nat" where
  "chain_measure nodes seen cur \<equiv>
     2 * card (parent_targets nodes - seen)
     + (case cur of None \<Rightarrow> 0 | Some t \<Rightarrow> if t \<in> parent_targets nodes then 1 else 2)"

lemma chain_measure_less:
  assumes "t \<notin> seen"
  shows "chain_measure nodes (insert t seen) (parent_by_index nodes index t)
    < chain_measure nodes seen (Some t)"
proof -
  let ?P = "parent_targets nodes"
  have next_le: "(case parent_by_index nodes index t of None \<Rightarrow> 0
      | Some p \<Rightarrow> if p \<in> ?P then 1 else 2) \<le> (1 :: nat)"
    by (auto split: option.split dest: parent_by_index_target)
  show ?thesis
  proof (cases "t \<in> ?P")
    case True
    then have "t \<in> ?P - seen" using assms by simp
    then have "card (?P - insert t seen) < card (?P - seen)"
      by (metis Diff_insert card_Diff1_less finite_Diff finite_parent_targets)
    with True next_le show ?thesis by simp
  next
    case False
    then have "?P - insert t seen = ?P - seen" by auto
    with False next_le show ?thesis by simp
  qed
qed

termination chain_cycle
  by (relation "measure (\<lambda>(nodes, index, seen, cur). chain_measure nodes seen cur)")
    (simp_all only: in_measure case_prod_conv wf_measure, rule chain_measure_less)

declare chain_cycle.simps [simp del]

fun cycles_error ::
  "'a tree_node list \<Rightarrow> ('a \<Rightarrow> usize option) \<Rightarrow> 'a tree_node list \<Rightarrow> 'a tree_error option" where
  "cycles_error nodes index [] = None"
| "cycles_error nodes index (n # ns) =
     (case chain_cycle nodes index {} (Some (tn_target n)) of
        Some t \<Rightarrow> Some (Cycle_Target t)
      | None \<Rightarrow> cycles_error nodes index ns)"

definition validate_forest :: "'a tree_node list \<Rightarrow> 'a tree_error option" where
  "validate_forest nodes =
     (case index_targets nodes 0 (\<lambda>t. None) of
        Inl e \<Rightarrow> Some e
      | Inr index \<Rightarrow> opt_or (parents_error index nodes) (cycles_error nodes index nodes))"

section \<open>The owner\<close>

record 'a arena_node =
  an_node :: "'a tree_node"
  an_children :: "nat list"
  an_depth :: usize
  an_root_index :: usize

type_synonym 'a arena = "nat \<Rightarrow> 'a arena_node option"
type_synonym 'a root_structures = "('a \<times> structural_row list) list"

record 'a forest =
  fo_arena :: "'a arena"
  fo_target_to_node :: "'a \<Rightarrow> nat option"
  fo_ordered :: "nat list"
  fo_roots :: "nat list"

record 'a reconciled_selection =
  rs_selected :: "'a option"
  rs_expanded :: "'a set"
  rs_marks :: "'a marks"

record 'a tree_browser =
  tb_arena :: "'a arena"
  tb_target_to_node :: "'a \<Rightarrow> nat option"
  tb_ordered :: "nat list"
  tb_roots :: "nat list"
  tb_root_structures :: "'a root_structures"
  tb_next_node_id :: nat
  tb_model_revision :: u64
  tb_selected :: "'a option"
  tb_expanded :: "'a set"
  tb_marks :: "'a marks"
  tb_viewport_offset :: usize
  tb_viewport_anchor :: viewport_anchor
  tb_configured_geometry :: "(rect \<times> rect) option"
  tb_filter_active :: bool
  tb_filter_query :: string
  tb_filter_anchor :: "'a option"
  tb_filter_matches :: "nat set"
  tb_paint :: "'a paint_state"
  tb_focused :: bool
  tb_palette_focused :: bool

definition tb_new :: "'a tree_browser" where
  "tb_new =
     \<lparr>tb_arena = (\<lambda>i. None), tb_target_to_node = (\<lambda>t. None), tb_ordered = [], tb_roots = [],
      tb_root_structures = [], tb_next_node_id = 0, tb_model_revision = 0, tb_selected = None,
      tb_expanded = {}, tb_marks = [], tb_viewport_offset = 0,
      tb_viewport_anchor = FollowSelection, tb_configured_geometry = None,
      tb_filter_active = False, tb_filter_query = [], tb_filter_anchor = None,
      tb_filter_matches = {}, tb_paint = paint_new, tb_focused = True, tb_palette_focused = True\<rparr>"

definition tree_fuel :: "'a tree_browser \<Rightarrow> nat" where
  "tree_fuel tb = Suc (length (tb_ordered tb))"

definition tb_node_target :: "'a tree_browser \<Rightarrow> nat \<Rightarrow> 'a option" where
  "tb_node_target tb i = map_option (\<lambda>e. tn_target (an_node e)) (tb_arena tb i)"

definition tb_filtering :: "'a tree_browser \<Rightarrow> bool" where
  "tb_filtering tb \<longleftrightarrow> tb_filter_active tb \<and> trim (tb_filter_query tb) \<noteq> []"

section \<open>The visible rows\<close>

definition tb_filter_matches_for_query :: "word_matcher \<Rightarrow> 'a tree_browser \<Rightarrow> 'a list" where
  "tb_filter_matches_for_query m tb =
     (if \<not> tb_filter_active tb \<or> trim (tb_filter_query tb) = []
      then List.map_filter (tb_node_target tb) (tb_ordered tb)
      else map (\<lambda>e. tn_target (an_node e))
        (filter (\<lambda>e. word_match_score m (tn_search_text (an_node e)) (tb_filter_query tb) \<noteq> None)
          (List.map_filter (tb_arena tb) (tb_ordered tb))))"

fun has_matching_descendant :: "nat \<Rightarrow> 'a tree_browser \<Rightarrow> nat \<Rightarrow> bool option" where
  "has_matching_descendant 0 tb i = None"
| "has_matching_descendant (Suc fuel) tb i =
     (case tb_arena tb i of
        None \<Rightarrow> Some False
      | Some e \<Rightarrow> any_opt (\<lambda>c. if c \<in> tb_filter_matches tb then Some True
                              else has_matching_descendant fuel tb c) (an_children e))"

text \<open>One node and, below it, what its expansion shows; the accumulator is the code's vector.\<close>

fun push_visible :: "nat \<Rightarrow> 'a tree_browser \<Rightarrow> nat \<Rightarrow> nat list \<Rightarrow> nat list option" where
  "push_visible 0 tb i visible = None"
| "push_visible (Suc fuel) tb i visible =
     (case tb_arena tb i of
        None \<Rightarrow> Some visible
      | Some e \<Rightarrow> do {
          descendant_match \<leftarrow> (if tb_filtering tb then has_matching_descendant (tree_fuel tb) tb i
                               else Some False);
          if tb_filtering tb \<and> i \<notin> tb_filter_matches tb \<and> \<not> descendant_match then Some visible
          else if tn_target (an_node e) \<in> tb_expanded tb \<or> descendant_match
          then fold_opt (push_visible fuel tb) (an_children e) (visible @ [i])
          else Some (visible @ [i])
        })"

definition tb_visible_node_ids :: "'a tree_browser \<Rightarrow> nat list option" where
  "tb_visible_node_ids tb = fold_opt (push_visible (tree_fuel tb) tb) (tb_roots tb) []"

text \<open>The structural rows above a root.\<close>

definition structure_rows :: "'a tree_browser \<Rightarrow> nat \<Rightarrow> visible_row list" where
  "structure_rows tb root =
     (case Option.bind (tb_node_target tb root) (map_of (tb_root_structures tb)) of
        None \<Rightarrow> []
      | Some structures \<Rightarrow> map (Visible_Structural root) [0..<length structures])"

definition tb_visible_flow_rows :: "'a tree_browser \<Rightarrow> visible_row list option" where
  "tb_visible_flow_rows tb =
     fold_opt (\<lambda>root output. do {
         nodes \<leftarrow> push_visible (tree_fuel tb) tb root [];
         if nodes = [] then Some output
         else Some (output @ structure_rows tb root @ map Visible_Node nodes)
       }) (tb_roots tb) []"

definition tb_visible_len :: "'a tree_browser \<Rightarrow> usize option" where
  "tb_visible_len tb = map_option length (tb_visible_flow_rows tb)"

fun flow_row_of :: "'a tree_browser \<Rightarrow> visible_row \<Rightarrow> 'a row" where
  "flow_row_of tb (Visible_Node i) =
     (case tb_node_target tb i of Some t \<Rightarrow> Selectable t | None \<Rightarrow> Structural)"
| "flow_row_of tb (Visible_Structural root k) = Structural"

definition tb_current_flow :: "'a tree_browser \<Rightarrow> 'a row_flow option" where
  "tb_current_flow tb =
     map_option (\<lambda>rows. \<lparr>rf_rows = map (flow_row_of tb) rows\<rparr>) (tb_visible_flow_rows tb)"

text \<open>The declared content height, or that of the last completed frame.\<close>

definition tb_viewport_height :: "'a tree_browser \<Rightarrow> usize option" where
  "tb_viewport_height tb =
     opt_or (map_option (\<lambda>(claim, content). unat (rect_height content)) (tb_configured_geometry tb))
       (map_option (\<lambda>r. unat (rect_height r)) (ps_last_content_rect (tb_paint tb)))"

text \<open>The accessors the shared list arithmetic works on.\<close>

definition tb_set_selected :: "'a option \<Rightarrow> 'a tree_browser \<Rightarrow> 'a tree_browser" where
  "tb_set_selected target tb = tb\<lparr>tb_selected := target\<rparr>"

definition tb_set_offset :: "usize \<Rightarrow> 'a tree_browser \<Rightarrow> 'a tree_browser" where
  "tb_set_offset off tb = tb\<lparr>tb_viewport_offset := off\<rparr>"

definition tb_set_anchor :: "viewport_anchor \<Rightarrow> 'a tree_browser \<Rightarrow> 'a tree_browser" where
  "tb_set_anchor a tb = tb\<lparr>tb_viewport_anchor := a\<rparr>"

definition tb_reconcile_selection_with_height ::
  "usize option \<Rightarrow> 'a tree_browser \<Rightarrow> 'a tree_browser option" where
  "tb_reconcile_selection_with_height height tb = do {
     flow \<leftarrow> tb_current_flow tb;
     let tb1 = (if cur_index tb_selected flow tb = None
                then snd (cur_first tb_set_selected flow tb) else tb);
     Some (case height of
             None \<Rightarrow> tb1
           | Some h \<Rightarrow> snd (vp_reconcile False tb_selected tb_viewport_offset tb_set_offset
                             tb_viewport_anchor flow h tb1))
   }"

definition tb_reconcile_selection :: "'a tree_browser \<Rightarrow> 'a tree_browser option" where
  "tb_reconcile_selection tb = tb_reconcile_selection_with_height (tb_viewport_height tb) tb"

definition tb_invalidate_paint :: "'a tree_browser \<Rightarrow> 'a tree_browser" where
  "tb_invalidate_paint tb = tb\<lparr>tb_paint := paint_invalidate (tb_paint tb)\<rparr>"

section \<open>Replacing the forest\<close>

definition project_nodes :: "'a tree_entry list \<Rightarrow> 'a tree_node list" where
  "project_nodes entries =
     List.map_filter (\<lambda>e. case e of Entry_Node n \<Rightarrow> Some n | Entry_Heading t \<Rightarrow> None | Entry_Spacer \<Rightarrow> None)
       entries"

text \<open>Structural rows wait for the next root, and are dropped when there is none.\<close>

fun project_structures ::
  "'a tree_entry list \<Rightarrow> structural_row list \<Rightarrow> 'a root_structures \<Rightarrow> 'a root_structures" where
  "project_structures [] pending structures = structures"
| "project_structures (e # es) pending structures =
     (case e of
        Entry_Heading title \<Rightarrow> project_structures es (pending @ [Row_Heading title]) structures
      | Entry_Spacer \<Rightarrow> project_structures es (pending @ [Row_Spacer]) structures
      | Entry_Node n \<Rightarrow>
          if tn_parent n = None \<and> pending \<noteq> []
          then project_structures es [] (AList.update (tn_target n) pending structures)
          else project_structures es pending structures)"

definition project_root_structures :: "'a tree_entry list \<Rightarrow> 'a root_structures" where
  "project_root_structures entries = project_structures entries [] []"

definition structures_eq :: "'a root_structures \<Rightarrow> 'a root_structures \<Rightarrow> bool" where
  "structures_eq xs ys \<longleftrightarrow> (\<forall>k\<in>set (map fst xs @ map fst ys). map_of xs k = map_of ys k)"

definition tb_content_changed ::
  "'a tree_node list \<Rightarrow> 'a root_structures \<Rightarrow> 'a tree_browser \<Rightarrow> bool" where
  "tb_content_changed nodes structures tb \<longleftrightarrow>
     length (tb_ordered tb) \<noteq> length nodes
     \<or> \<not> structures_eq (tb_root_structures tb) structures
     \<or> (\<exists>(i, n)\<in>set (zip (tb_ordered tb) nodes).
          case tb_arena tb i of None \<Rightarrow> True | Some e \<Rightarrow> an_node e \<noteq> n)"

fun allocate_nodes :: "'a tree_node list \<Rightarrow> 'a forest \<Rightarrow> nat \<Rightarrow> 'a forest \<times> nat" where
  "allocate_nodes [] fo next = (fo, next)"
| "allocate_nodes (n # ns) fo next =
     allocate_nodes ns
       (fo\<lparr>fo_target_to_node := (fo_target_to_node fo)(tn_target n \<mapsto> next),
           fo_ordered := fo_ordered fo @ [next],
           fo_arena := (fo_arena fo)(next \<mapsto>
             \<lparr>an_node = n, an_children = [], an_depth = 0, an_root_index = 0\<rparr>)\<rparr>)
       (Suc next)"

definition empty_forest :: "'a forest" where
  "empty_forest = \<lparr>fo_arena = (\<lambda>i. None), fo_target_to_node = (\<lambda>t. None), fo_ordered = [], fo_roots = []\<rparr>"

text \<open>A parent that is not in the target map makes the source panic.\<close>

definition link_node :: "nat \<Rightarrow> 'a forest \<Rightarrow> 'a forest option" where
  "link_node i fo =
     (case Option.bind (fo_arena fo i) (\<lambda>e. tn_parent (an_node e)) of
        Some parent \<Rightarrow> do {
          parent_id \<leftarrow> fo_target_to_node fo parent;
          Some (case fo_arena fo parent_id of
                  Some p \<Rightarrow> fo\<lparr>fo_arena := (fo_arena fo)(parent_id \<mapsto>
                              p\<lparr>an_children := an_children p @ [i]\<rparr>)\<rparr>
                | None \<Rightarrow> fo)
        }
      | None \<Rightarrow> Some (fo\<lparr>fo_roots := fo_roots fo @ [i]\<rparr>))"

definition link_parent_nodes :: "'a forest \<Rightarrow> 'a forest option" where
  "link_parent_nodes fo = fold_opt link_node (fo_ordered fo) fo"

text \<open>The stack's top is the head of the list.\<close>

fun depth_loop :: "nat \<Rightarrow> (nat \<times> usize \<times> usize) list \<Rightarrow> 'a arena \<Rightarrow> 'a arena option" where
  "depth_loop fuel [] arena = Some arena"
| "depth_loop 0 (x # stack) arena = None"
| "depth_loop (Suc fuel) ((i, depth, root_index) # stack) arena =
     (case arena i of
        None \<Rightarrow> depth_loop fuel stack arena
      | Some e \<Rightarrow>
          depth_loop fuel (map (\<lambda>c. (c, depth + 1, root_index)) (an_children e) @ stack)
            (arena(i \<mapsto> e\<lparr>an_depth := depth, an_root_index := root_index\<rparr>)))"

definition compute_forest_depths :: "'a forest \<Rightarrow> 'a forest option" where
  "compute_forest_depths fo = do {
     arena \<leftarrow> depth_loop (Suc (length (fo_ordered fo)))
       (rev (map (\<lambda>(root_index, i). (i, 0, root_index)) (enumerate 0 (fo_roots fo)))) (fo_arena fo);
     Some (fo\<lparr>fo_arena := arena\<rparr>)
   }"

definition tb_rebuild_forest :: "'a tree_node list \<Rightarrow> nat \<Rightarrow> ('a forest \<times> nat) option" where
  "tb_rebuild_forest nodes next = do {
     let (fo, next') = allocate_nodes nodes empty_forest next;
     linked \<leftarrow> link_parent_nodes fo;
     forest \<leftarrow> compute_forest_depths linked;
     Some (forest, next')
   }"

text \<open>
  The arena is indexed with an identifier just read from the target map; allocation fills the
  two together, so the panic of the indexing cannot happen and is read as "no node" here.
\<close>

definition fo_node :: "'a forest \<Rightarrow> 'a \<Rightarrow> 'a arena_node option" where
  "fo_node fo t = Option.bind (fo_target_to_node fo t) (fo_arena fo)"

definition an_is_expandable :: "'a arena_node \<Rightarrow> bool" where
  "an_is_expandable e \<longleftrightarrow> tn_expandable (an_node e) \<or> an_children e \<noteq> []"

definition reconcile_projected_selection ::
  "'a forest \<Rightarrow> 'a tree_browser \<Rightarrow> 'a reconciled_selection" where
  "reconcile_projected_selection fo tb =
     \<lparr>rs_selected = opt_or (opt_filter (\<lambda>t. fo_target_to_node fo t \<noteq> None) (tb_selected tb))
        (map_option (\<lambda>e. tn_target (an_node e))
          (Option.bind (nth_opt (fo_ordered fo) 0) (fo_arena fo))),
      rs_expanded = Set.filter (\<lambda>t. case fo_node fo t of None \<Rightarrow> False | Some e \<Rightarrow> an_is_expandable e)
        (tb_expanded tb),
      rs_marks = filter (\<lambda>t. case fo_node fo t of None \<Rightarrow> False
          | Some e \<Rightarrow> tn_mark_policy (an_node e) = Mark_Direct)
        (filter (\<lambda>t. fo_target_to_node fo t \<noteq> None) (tb_marks tb))\<rparr>"

definition tb_commit_reconciliation ::
  "word_matcher \<Rightarrow> 'a root_structures \<Rightarrow> 'a forest \<Rightarrow> 'a tree_browser \<Rightarrow> 'a tree_browser option" where
  "tb_commit_reconciliation m structures fo tb = do {
     let selection = reconcile_projected_selection fo tb;
     let tb1 = tb\<lparr>tb_arena := fo_arena fo, tb_target_to_node := fo_target_to_node fo,
                  tb_ordered := fo_ordered fo, tb_roots := fo_roots fo,
                  tb_root_structures := structures,
                  tb_model_revision := u64_sat_inc (tb_model_revision tb),
                  tb_selected := rs_selected selection,
                  tb_expanded := rs_expanded selection,
                  tb_marks := marks_set_targets (rs_marks selection) (tb_marks tb)\<rparr>;
     len \<leftarrow> tb_visible_len tb1;
     let tb2 = tb1\<lparr>tb_viewport_offset := min (tb_viewport_offset tb1) (len - 1)\<rparr>;
     let tb3 = tb2\<lparr>tb_filter_matches :=
                 set (List.map_filter (tb_target_to_node tb2)
                   (tb_filter_matches_for_query m (tb2\<lparr>tb_filter_matches := {}\<rparr>)))\<rparr>;
     tb_reconcile_selection (tb_invalidate_paint tb3)
   }"

text \<open>The error of a rejected projection, or \<open>None\<close>, and the owner afterwards.\<close>

definition tb_reconcile ::
  "word_matcher \<Rightarrow> 'a tree_entry list \<Rightarrow> 'a tree_browser \<Rightarrow> ('a tree_error option \<times> 'a tree_browser) option" where
  "tb_reconcile m entries tb =
     (let nodes = project_nodes entries; structures = project_root_structures entries
      in case validate_forest nodes of
           Some e \<Rightarrow> Some (Some e, tb)
         | None \<Rightarrow>
             if \<not> tb_content_changed nodes structures tb then Some (None, tb)
             else do {
               (forest, next) \<leftarrow> tb_rebuild_forest nodes (tb_next_node_id tb);
               tb' \<leftarrow> tb_commit_reconciliation m structures forest (tb\<lparr>tb_next_node_id := next\<rparr>);
               Some (None, tb')
             })"

section \<open>Queries and the restored position\<close>

definition tb_root_targets :: "'a tree_browser \<Rightarrow> 'a list" where
  "tb_root_targets tb = List.map_filter (tb_node_target tb) (tb_roots tb)"

definition tb_entry :: "'a tree_browser \<Rightarrow> 'a \<Rightarrow> 'a arena_node option" where
  "tb_entry tb t = Option.bind (tb_target_to_node tb t) (tb_arena tb)"

definition tb_children_of :: "'a tree_browser \<Rightarrow> 'a \<Rightarrow> 'a list option" where
  "tb_children_of tb t =
     map_option (\<lambda>e. List.map_filter (tb_node_target tb) (an_children e)) (tb_entry tb t)"

definition tb_node :: "'a tree_browser \<Rightarrow> 'a \<Rightarrow> 'a tree_node option" where
  "tb_node tb t = map_option an_node (tb_entry tb t)"

definition tb_is_expanded :: "'a tree_browser \<Rightarrow> 'a \<Rightarrow> bool" where
  "tb_is_expanded tb t \<longleftrightarrow> t \<in> tb_expanded tb"

definition tb_visible_targets :: "'a tree_browser \<Rightarrow> 'a list option" where
  "tb_visible_targets tb =
     map_option (List.map_filter (tb_node_target tb)) (tb_visible_node_ids tb)"

text \<open>The parents of a node up to its root, nearest first.\<close>

fun ancestor_loop :: "nat \<Rightarrow> 'a tree_browser \<Rightarrow> nat \<Rightarrow> 'a list \<Rightarrow> 'a list option" where
  "ancestor_loop 0 tb cursor ancestors = None"
| "ancestor_loop (Suc fuel) tb cursor ancestors = do {
     e \<leftarrow> tb_arena tb cursor;
     (case tn_parent (an_node e) of
        None \<Rightarrow> Some ancestors
      | Some parent \<Rightarrow> do {
          parent_id \<leftarrow> tb_target_to_node tb parent;
          ancestor_loop fuel tb parent_id (ancestors @ [parent])
        })
   }"

fun settled_loop :: "nat \<Rightarrow> 'a tree_browser \<Rightarrow> nat list \<Rightarrow> visible_row list \<Rightarrow> visible_row list option" where
  "settled_loop fuel tb [] settled = Some settled"
| "settled_loop 0 tb (i # stack) settled = None"
| "settled_loop (Suc fuel) tb (i # stack) settled =
     (let settled' = settled @ [Visible_Node i]
      in case tb_arena tb i of
           None \<Rightarrow> settled_loop fuel tb stack settled'
         | Some e \<Rightarrow> settled_loop fuel tb (an_children e @ stack) settled')"

definition tb_settled_rows :: "'a tree_browser \<Rightarrow> visible_row list option" where
  "tb_settled_rows tb =
     fold_opt (\<lambda>root settled. settled_loop (tree_fuel tb) tb [root] (settled @ structure_rows tb root))
       (tb_roots tb) []"

definition tb_visible_row_for_flow_offset :: "usize \<Rightarrow> 'a tree_browser \<Rightarrow> usize option option" where
  "tb_visible_row_for_flow_offset off tb = do {
     visible \<leftarrow> tb_visible_flow_rows tb;
     settled \<leftarrow> tb_settled_rows tb;
     Some (nth_opt (List.map_filter (\<lambda>row. position (\<lambda>v. v = row) visible) (drop off settled)) 0)
   }"

definition tb_anchor_selection_to :: "'a \<Rightarrow> usize \<Rightarrow> 'a tree_browser \<Rightarrow> (bool \<times> 'a tree_browser) option" where
  "tb_anchor_selection_to t flow_offset tb =
     (case tb_target_to_node tb t of
        None \<Rightarrow> Some (False, tb)
      | Some i \<Rightarrow> do {
          ancestors \<leftarrow> ancestor_loop (tree_fuel tb) tb i [];
          let visible_target = (case List.find (\<lambda>a. a \<notin> tb_expanded tb) (rev ancestors) of
                                  Some a \<Rightarrow> a | None \<Rightarrow> t);
          let tb1 = tb\<lparr>tb_selected := Some visible_target\<rparr>;
          row \<leftarrow> tb_visible_row_for_flow_offset flow_offset tb1;
          let tb2 = (case row of Some r \<Rightarrow> tb1\<lparr>tb_viewport_offset := r\<rparr> | None \<Rightarrow> tb1);
          Some (True, tb_invalidate_paint tb2)
        })"

fun reveal_loop :: "nat \<Rightarrow> nat \<Rightarrow> 'a tree_browser \<Rightarrow> 'a tree_browser option" where
  "reveal_loop 0 cursor tb = None"
| "reveal_loop (Suc fuel) cursor tb = do {
     e \<leftarrow> tb_arena tb cursor;
     (case tn_parent (an_node e) of
        None \<Rightarrow> Some tb
      | Some parent \<Rightarrow> do {
          parent_id \<leftarrow> tb_target_to_node tb parent;
          reveal_loop fuel parent_id (tb\<lparr>tb_expanded := insert parent (tb_expanded tb)\<rparr>)
        })
   }"

definition tb_reveal :: "'a \<Rightarrow> 'a tree_browser \<Rightarrow> 'a tree_browser option" where
  "tb_reveal t tb =
     (case tb_target_to_node tb t of None \<Rightarrow> Some tb | Some i \<Rightarrow> reveal_loop (tree_fuel tb) i tb)"

definition tb_search_bar :: "'a tree_browser \<Rightarrow> (string \<times> bool) option" where
  "tb_search_bar tb = (if tb_filter_active tb then Some (tb_filter_query tb, False) else None)"

definition tb_clamp_viewport_to :: "usize \<Rightarrow> 'a tree_browser \<Rightarrow> 'a tree_browser option" where
  "tb_clamp_viewport_to viewport_height tb = do {
     len \<leftarrow> tb_visible_len tb;
     Some (tb_invalidate_paint (tb\<lparr>tb_viewport_offset := min (tb_viewport_offset tb) (len - viewport_height)\<rparr>))
   }"

definition tb_set_geometry :: "rect \<Rightarrow> rect \<Rightarrow> 'a tree_browser \<Rightarrow> 'a tree_browser option" where
  "tb_set_geometry claim content tb = do {
     tb1 \<leftarrow> (if tb_configured_geometry tb \<noteq> Some (claim, content)
             then tb_reconcile_selection (tb\<lparr>tb_configured_geometry := Some (claim, content)\<rparr>)
             else Some tb);
     Some (tb_invalidate_paint tb1)
   }"

definition tb_set_paint_focus :: "bool \<Rightarrow> bool \<Rightarrow> 'a tree_browser \<Rightarrow> 'a tree_browser" where
  "tb_set_paint_focus focused palette_focused tb =
     tb\<lparr>tb_focused := focused, tb_palette_focused := palette_focused\<rparr>"

definition tb_resolve_current_point :: "geometry \<Rightarrow> point \<Rightarrow> 'a tree_browser \<Rightarrow> 'a option" where
  "tb_resolve_current_point geo pt tb = resolve_point geo (tb_paint tb) pt"

end
