(* ===== verification/Tree_Operations.thy ===== *)
theory Tree_Operations
  imports Tree_Model
begin

text \<open>
  The operations of the tree browser (\<^verbatim>\<open>tree_browser/operations.rs\<close>): cursor, viewport,
  expansion, filter, marks and the outgoing intents, all through \<open>tb_apply\<close>. The shared list
  arithmetic of \<open>List_Flow\<close> works on the owner's accessors, as the private adapter does in the
  source. \<open>None\<close> is a loop that does not end or a panic; \<open>Tree_Laws\<close> excludes both.
\<close>

section \<open>Vocabulary\<close>

datatype tree_consumed = Tree_Unhandled | Tree_Consumed

datatype 'a tree_external_intent =
    Intent_Activate 'a
  | Intent_Context 'a
  | Intent_Context_Selection "'a list"

record 'a tree_selection_change =
  sc_previous :: "'a option"
  sc_current :: "'a option"

record tree_mark_summary =
  ms_marked_count :: usize
  ms_has_partial_aggregate :: bool

datatype 'a tree_operation =
    Op_Move i64
  | Op_Page i64
  | Op_Scroll i64
  | Op_First
  | Op_Last
  | Op_Parent
  | Op_Right
  | Op_Toggle_Expansion
  | Op_Toggle_Expansion_Target 'a
  | Op_Anchor_Selection 'a usize
  | Op_Select 'a
  | Op_Pointer_Toggle_Mark point
  | Op_Activate
  | Op_Context
  | Op_Edit_Filter string
  | Op_Clear_Filter
  | Op_Clear_Marks

record 'a tree_transition =
  tr_disposition :: tree_consumed
  tr_selected_target :: "'a option"
  tr_selected_target_change :: "'a tree_selection_change option"
  tr_mark_summary :: "tree_mark_summary option"
  tr_mark_summary_change :: "tree_mark_summary option"
  tr_external_intent :: "'a tree_external_intent option"

datatype aggregate_mark_state = Agg_Unmarked | Agg_Partial | Agg_Marked

section \<open>Expansion\<close>

definition tb_is_expandable :: "'a tree_browser \<Rightarrow> 'a \<Rightarrow> bool" where
  "tb_is_expandable tb t \<longleftrightarrow> (case tb_entry tb t of None \<Rightarrow> False | Some e \<Rightarrow> an_is_expandable e)"

definition tb_set_expanded :: "'a \<Rightarrow> bool \<Rightarrow> 'a tree_browser \<Rightarrow> 'a tree_browser" where
  "tb_set_expanded t expanded tb =
     (if tb_target_to_node tb t = None then tb
      else if expanded then tb\<lparr>tb_expanded := insert t (tb_expanded tb)\<rparr>
      else tb\<lparr>tb_expanded := tb_expanded tb - {t}\<rparr>)"

definition tb_parent_target :: "'a tree_browser \<Rightarrow> 'a \<Rightarrow> 'a option" where
  "tb_parent_target tb t = Option.bind (tb_entry tb t) (\<lambda>e. tn_parent (an_node e))"

definition tb_toggle_expanded :: "'a \<Rightarrow> 'a tree_browser \<Rightarrow> 'a tree_browser" where
  "tb_toggle_expanded t tb = tb_set_expanded t (t \<notin> tb_expanded tb) tb"

definition tb_select_parent :: "'a row_flow \<Rightarrow> 'a tree_browser \<Rightarrow> 'a tree_browser" where
  "tb_select_parent flow tb =
     (case Option.bind (Option.bind (tb_selected tb) (tb_parent_target tb)) (rf_position_of flow) of
        None \<Rightarrow> tb
      | Some p \<Rightarrow> tb_set_selected (rf_target_at flow p) tb)"

definition tb_re_anchor_following :: "'a tree_browser \<Rightarrow> 'a tree_browser" where
  "tb_re_anchor_following tb = tb_set_anchor FollowSelection tb"

definition tb_painted_window_targets :: "'a tree_browser \<Rightarrow> 'a list option" where
  "tb_painted_window_targets tb = do {
     visible \<leftarrow> tb_visible_flow_rows tb;
     let last = tb_viewport_offset tb + (case tb_viewport_height tb of None \<Rightarrow> 0 | Some h \<Rightarrow> h);
     Some (List.map_filter
       (\<lambda>row. case row of Visible_Node i \<Rightarrow> tb_node_target tb i | Visible_Structural r k \<Rightarrow> None)
       (drop (tb_viewport_offset tb) (take last visible)))
   }"

definition tb_reset_presentation :: "'a tree_browser \<Rightarrow> 'a tree_browser option" where
  "tb_reset_presentation tb = do {
     tb1 \<leftarrow> tb_reconcile_selection
       (tb\<lparr>tb_marks := [], tb_filter_active := False, tb_filter_query := [],
           tb_filter_anchor := None, tb_filter_matches := {}, tb_expanded := {},
           tb_selected := None, tb_viewport_offset := 0\<rparr>);
     Some (tb_invalidate_paint tb1)
   }"

section \<open>Marks\<close>

fun descendant_loop :: "nat \<Rightarrow> 'a tree_browser \<Rightarrow> nat list \<Rightarrow> nat list \<Rightarrow> nat list option" where
  "descendant_loop fuel tb [] output = Some output"
| "descendant_loop 0 tb (c # stack) output = None"
| "descendant_loop (Suc fuel) tb (c # stack) output = do {
     keep \<leftarrow> (if \<not> tb_filtering tb then Some True
             else if c \<in> tb_filter_matches tb then Some True
             else has_matching_descendant (tree_fuel tb) tb c);
     descendant_loop fuel tb
       (case tb_arena tb c of None \<Rightarrow> stack | Some e \<Rightarrow> rev (an_children e) @ stack)
       (if keep then output @ [c] else output)
   }"

definition tb_visible_descendants :: "'a tree_browser \<Rightarrow> nat \<Rightarrow> nat list option" where
  "tb_visible_descendants tb i =
     descendant_loop (tree_fuel tb) tb
       (case tb_arena tb i of None \<Rightarrow> [] | Some e \<Rightarrow> rev (an_children e)) []"

text \<open>The directly markable targets among some nodes.\<close>

definition direct_targets :: "'a tree_browser \<Rightarrow> nat list \<Rightarrow> 'a list" where
  "direct_targets tb ids =
     map (\<lambda>e. tn_target (an_node e))
       (filter (\<lambda>e. tn_mark_policy (an_node e) = Mark_Direct) (List.map_filter (tb_arena tb) ids))"

definition tb_aggregate_mark_state_for :: "'a tree_browser \<Rightarrow> 'a \<Rightarrow> aggregate_mark_state option" where
  "tb_aggregate_mark_state_for tb t =
     (case tb_target_to_node tb t of
        None \<Rightarrow> Some Agg_Unmarked
      | Some i \<Rightarrow> do {
          descendants \<leftarrow> tb_visible_descendants tb i;
          let direct = direct_targets tb descendants;
          Some (if direct = [] then Agg_Unmarked
                else (let marked = length (filter (\<lambda>d. marks_contains d (tb_marks tb)) direct)
                      in if marked = 0 then Agg_Unmarked
                         else if marked = length direct then Agg_Marked else Agg_Partial))
        })"

definition tb_selected_summary :: "'a tree_browser \<Rightarrow> tree_mark_summary option" where
  "tb_selected_summary tb = do {
     ids \<leftarrow> tb_visible_node_ids tb;
     partial \<leftarrow> any_opt (\<lambda>i. case tb_arena tb i of
           None \<Rightarrow> Some False
         | Some e \<Rightarrow>
             if tn_mark_policy (an_node e) = Mark_Aggregate
             then map_option (\<lambda>a. a = Agg_Partial) (tb_aggregate_mark_state_for tb (tn_target (an_node e)))
             else Some False) ids;
     Some \<lparr>ms_marked_count = length (filter (\<lambda>e. marks_contains (tn_target (an_node e)) (tb_marks tb))
              (List.map_filter (tb_arena tb) ids)),
           ms_has_partial_aggregate = partial\<rparr>
   }"

definition tb_action_targets :: "'a tree_browser \<Rightarrow> 'a list option" where
  "tb_action_targets tb =
     map_option (\<lambda>ids. map (\<lambda>e. tn_target (an_node e))
         (filter (\<lambda>e. marks_contains (tn_target (an_node e)) (tb_marks tb))
           (List.map_filter (tb_arena tb) ids)))
       (tb_visible_node_ids tb)"

definition tb_toggle_mark_target :: "'a \<Rightarrow> 'a tree_browser \<Rightarrow> (bool \<times> 'a tree_browser) option" where
  "tb_toggle_mark_target t tb =
     (case tb_target_to_node tb t of
        None \<Rightarrow> Some (False, tb)
      | Some i \<Rightarrow> do {
          e \<leftarrow> tb_arena tb i;
          (case tn_mark_policy (an_node e) of
             Mark_Excluded \<Rightarrow> Some (False, tb)
           | Mark_Direct \<Rightarrow>
               Some (True, tb\<lparr>tb_marks :=
                 snd (if marks_contains t (tb_marks tb) then marks_remove t (tb_marks tb)
                      else marks_add t (tb_marks tb))\<rparr>)
           | Mark_Aggregate \<Rightarrow> do {
               descendants \<leftarrow> tb_visible_descendants tb i;
               let children = direct_targets tb descendants;
               let all_marked = (\<forall>c\<in>set children. marks_contains c (tb_marks tb));
               Some (if children = [] then (False, tb)
                     else (True, tb\<lparr>tb_marks :=
                       fold (\<lambda>c ms. snd (if all_marked then marks_remove c ms else marks_add c ms))
                         children (tb_marks tb)\<rparr>))
             })
        })"

section \<open>Filter\<close>

definition tb_filter_edit :: "word_matcher \<Rightarrow> string \<Rightarrow> 'a tree_browser \<Rightarrow> 'a tree_browser option" where
  "tb_filter_edit m query tb = do {
     let tb1 = (if tb_filter_active tb then tb
                else tb\<lparr>tb_filter_anchor := tb_selected tb, tb_filter_active := True\<rparr>);
     let tb2 = tb1\<lparr>tb_filter_query := query\<rparr>;
     let tb3 = tb2\<lparr>tb_filter_matches :=
                 set (List.map_filter (tb_target_to_node tb2) (tb_filter_matches_for_query m tb2))\<rparr>;
     tb4 \<leftarrow> tb_reconcile_selection tb3;
     Some (tb_invalidate_paint tb4)
   }"

definition tb_clear_filter :: "'a tree_browser \<Rightarrow> 'a tree_browser option" where
  "tb_clear_filter tb = do {
     let anchor = tb_filter_anchor tb;
     tb1 \<leftarrow> tb_reconcile_selection
       (tb\<lparr>tb_filter_anchor := None, tb_filter_active := False, tb_filter_query := [],
           tb_filter_matches := {},
           tb_selected := opt_filter (\<lambda>t. tb_target_to_node tb t \<noteq> None) anchor\<rparr>);
     Some (tb_invalidate_paint tb1)
   }"

section \<open>Operations\<close>

definition tb_transition ::
  "'a option \<Rightarrow> tree_mark_summary \<Rightarrow> tree_consumed \<Rightarrow> 'a tree_external_intent option
   \<Rightarrow> 'a tree_browser \<Rightarrow> 'a tree_transition option" where
  "tb_transition previous previous_marks disposition intent tb = do {
     let current = tb_selected tb;
     current_marks \<leftarrow> tb_selected_summary tb;
     Some \<lparr>tr_disposition = disposition, tr_selected_target = current,
           tr_selected_target_change =
             (if previous \<noteq> current then Some \<lparr>sc_previous = previous, sc_current = current\<rparr> else None),
           tr_mark_summary = Some current_marks,
           tr_mark_summary_change = (if previous_marks \<noteq> current_marks then Some current_marks else None),
           tr_external_intent = intent\<rparr>
   }"

definition tb_apply_wheel_scroll :: "i64 \<Rightarrow> 'a tree_browser \<Rightarrow> (bool \<times> 'a tree_browser) option" where
  "tb_apply_wheel_scroll delta tb = do {
     len \<leftarrow> tb_visible_len tb;
     let height = (case tb_viewport_height tb of None \<Rightarrow> 1 | Some h \<Rightarrow> h);
     let before = tb_viewport_offset tb;
     let after = scrolled_viewport_offset before delta len height;
     Some (before \<noteq> after, tb_set_anchor Free (tb_set_offset after tb))
   }"

text \<open>\<^verbatim>\<open>isize\<close> is 64 bits wide, so the conversions of distances never saturate.\<close>

definition tb_apply_page :: "i64 \<Rightarrow> 'a row_flow \<Rightarrow> 'a tree_browser \<Rightarrow> bool \<times> 'a tree_browser" where
  "tb_apply_page direction flow tb =
     (case tb_viewport_height tb of
        None \<Rightarrow> (False, tb)
      | Some height \<Rightarrow>
          (True, snd (vp_page False tb_selected tb_set_selected tb_viewport_offset tb_set_offset
                    tb_viewport_anchor flow height direction VisibleViewport tb)))"

definition tb_apply_toggle_expansion :: "'a \<Rightarrow> 'a tree_browser \<Rightarrow> (tree_consumed \<times> 'a tree_browser) option" where
  "tb_apply_toggle_expansion t tb =
     (if \<not> tb_is_expandable tb t then Some (Tree_Unhandled, tb)
      else do {
        tb1 \<leftarrow> tb_reconcile_selection (tb_toggle_expanded t tb);
        Some (Tree_Consumed, tb1)
      })"

definition tb_apply_right ::
  "'a tree_browser \<Rightarrow> ((tree_consumed \<times> 'a tree_external_intent option) \<times> 'a tree_browser) option" where
  "tb_apply_right tb =
     (case tb_selected tb of
        None \<Rightarrow> Some ((Tree_Unhandled, None), tb)
      | Some t \<Rightarrow>
          if \<not> tb_is_expandable tb t then Some ((Tree_Unhandled, None), tb)
          else if t \<in> tb_expanded tb
          then Some (if (case tb_entry tb t of None \<Rightarrow> False | Some e \<Rightarrow> tn_parent (an_node e) = None)
                     then ((Tree_Consumed, Some (Intent_Activate t)), tb)
                     else ((Tree_Consumed, None), tb))
          else do {
            tb1 \<leftarrow> tb_reconcile_selection (tb_toggle_expanded t tb);
            Some ((Tree_Consumed, None), tb1)
          })"

definition tb_apply_pointer_toggle_mark ::
  "geometry \<Rightarrow> point \<Rightarrow> 'a tree_browser \<Rightarrow> (bool \<times> 'a tree_browser) option" where
  "tb_apply_pointer_toggle_mark geo pt tb =
     (case tb_resolve_current_point geo pt tb of
        None \<Rightarrow> Some (False, tb)
      | Some t \<Rightarrow> do {
          (toggled, tb1) \<leftarrow> tb_toggle_mark_target t (tb\<lparr>tb_selected := Some t\<rparr>);
          tb2 \<leftarrow> tb_reconcile_selection tb1;
          Some (True, tb2)
        })"

definition tb_apply_activate :: "'a tree_browser \<Rightarrow> tree_consumed \<times> 'a tree_external_intent option" where
  "tb_apply_activate tb =
     (case tb_selected tb of
        None \<Rightarrow> (Tree_Unhandled, None)
      | Some t \<Rightarrow> (Tree_Consumed, Some (Intent_Activate t)))"

definition tb_apply_context ::
  "'a tree_browser \<Rightarrow> (tree_consumed \<times> 'a tree_external_intent option) option" where
  "tb_apply_context tb =
     (case tb_selected tb of
        None \<Rightarrow> Some (Tree_Unhandled, None)
      | Some t \<Rightarrow> do {
          targets \<leftarrow> tb_action_targets tb;
          Some (Tree_Consumed,
            Some (if targets = [] then Intent_Context t else Intent_Context_Selection targets))
        })"

fun op_keeps_free_scroll :: "'a tree_operation \<Rightarrow> bool" where
  "op_keeps_free_scroll (Op_Scroll d) = True"
| "op_keeps_free_scroll (Op_Toggle_Expansion_Target t) = True"
| "op_keeps_free_scroll (Op_Edit_Filter q) = True"
| "op_keeps_free_scroll Op_Clear_Filter = True"
| "op_keeps_free_scroll Op_Clear_Marks = True"
| "op_keeps_free_scroll _ = False"

text \<open>
  The inner option is the source's: no disposition means unhandled without touching the paint.
\<close>

type_synonym 'a op_outcome =
  "((tree_consumed \<times> 'a tree_external_intent option) option \<times> 'a tree_browser) option"

definition consumed_after :: "'a tree_browser option \<Rightarrow> 'a op_outcome" where
  "consumed_after r = map_option (\<lambda>tb. (Some (Tree_Consumed, None), tb)) r"

definition tb_apply_operation ::
  "geometry \<Rightarrow> word_matcher \<Rightarrow> 'a tree_operation \<Rightarrow> 'a row_flow \<Rightarrow> 'a tree_browser \<Rightarrow> 'a op_outcome" where
  "tb_apply_operation geo m op flow tb0 =
     (let tb = (if op_keeps_free_scroll op then tb0 else tb_re_anchor_following tb0)
      in case op of
           Op_Move delta \<Rightarrow>
             consumed_after (tb_reconcile_selection
               (snd (cur_move_by tb_selected tb_set_selected flow delta tb)))
         | Op_Page direction \<Rightarrow>
             (let (paged, tb1) = tb_apply_page direction flow tb
              in Some (if paged then Some (Tree_Consumed, None) else None, tb1))
         | Op_First \<Rightarrow> consumed_after (tb_reconcile_selection (snd (cur_first tb_set_selected flow tb)))
         | Op_Last \<Rightarrow> consumed_after (tb_reconcile_selection (snd (cur_last tb_set_selected flow tb)))
         | Op_Parent \<Rightarrow> consumed_after (tb_reconcile_selection (tb_select_parent flow tb))
         | Op_Scroll delta \<Rightarrow> do {
             (moved, tb1) \<leftarrow> tb_apply_wheel_scroll delta tb;
             Some (if moved then Some (Tree_Consumed, None) else None, tb1)
           }
         | Op_Right \<Rightarrow> do {
             (outcome, tb1) \<leftarrow> tb_apply_right tb;
             Some (Some outcome, tb1)
           }
         | Op_Toggle_Expansion \<Rightarrow>
             (case tb_selected tb of
                None \<Rightarrow> Some (Some (Tree_Unhandled, None), tb)
              | Some t \<Rightarrow> do {
                  (disposition, tb1) \<leftarrow> tb_apply_toggle_expansion t tb;
                  Some (Some (disposition, None), tb1)
                })
         | Op_Toggle_Expansion_Target t \<Rightarrow> do {
             (disposition, tb1) \<leftarrow> tb_apply_toggle_expansion t tb;
             Some (Some (disposition, None), tb1)
           }
         | Op_Anchor_Selection t flow_offset \<Rightarrow> do {
             (found, tb1) \<leftarrow> tb_anchor_selection_to t flow_offset tb;
             Some (Some (if found then Tree_Consumed else Tree_Unhandled, None), tb1)
           }
         | Op_Select t \<Rightarrow> do {
             let (found, tb1) = cur_select_target tb_set_selected flow t tb;
             tb2 \<leftarrow> tb_reconcile_selection tb1;
             Some (Some (if found then Tree_Consumed else Tree_Unhandled, None), tb2)
           }
         | Op_Pointer_Toggle_Mark pt \<Rightarrow> do {
             (resolved, tb1) \<leftarrow> tb_apply_pointer_toggle_mark geo pt tb;
             Some (if resolved then Some (Tree_Consumed, None) else None, tb1)
           }
         | Op_Activate \<Rightarrow> Some (Some (tb_apply_activate tb), tb)
         | Op_Context \<Rightarrow> map_option (\<lambda>outcome. (Some outcome, tb)) (tb_apply_context tb)
         | Op_Edit_Filter query \<Rightarrow> consumed_after (tb_filter_edit m query tb)
         | Op_Clear_Filter \<Rightarrow> consumed_after (tb_clear_filter tb)
         | Op_Clear_Marks \<Rightarrow> consumed_after (Some (tb\<lparr>tb_marks := []\<rparr>)))"

definition tb_apply ::
  "geometry \<Rightarrow> word_matcher \<Rightarrow> 'a tree_operation \<Rightarrow> 'a tree_browser
   \<Rightarrow> ('a tree_transition \<times> 'a tree_browser) option" where
  "tb_apply geo m op tb = do {
     let previous = tb_selected tb;
     previous_marks \<leftarrow> tb_selected_summary tb;
     (case op of
        Op_Scroll delta \<Rightarrow> do {
          (moved, tb1) \<leftarrow> tb_apply_wheel_scroll delta tb;
          let tb2 = tb_invalidate_paint tb1;
          transition \<leftarrow> tb_transition previous previous_marks
            (if moved then Tree_Consumed else Tree_Unhandled) None tb2;
          Some (transition, tb2)
        }
      | _ \<Rightarrow> do {
          flow \<leftarrow> tb_current_flow tb;
          (outcome, tb1) \<leftarrow> tb_apply_operation geo m op flow tb;
          (case outcome of
             None \<Rightarrow> do {
               transition \<leftarrow> tb_transition previous previous_marks Tree_Unhandled None tb1;
               Some (transition, tb1)
             }
           | Some (disposition, intent) \<Rightarrow> do {
               let tb2 = tb_invalidate_paint tb1;
               transition \<leftarrow> tb_transition previous previous_marks disposition intent tb2;
               Some (transition, tb2)
             })
        })
   }"

end
