(* ===== verification/Tree_Forest.thy ===== *)
theory Tree_Forest
  imports Tree_Operations
begin

text \<open>
  Walks over a forest. Every loop of the tree browser visits a node before what is below it:
  the relation \<open>walk\<close> is that order, and for each loop a lemma says that it returns what the
  walk prescribes when its fuel covers the length of the walk. The locale \<open>rooted_forest\<close>
  states what a forest of nodes promises (children exist, a node has one parent, no node is
  below itself) and proves that walks exist, visit each node once and hence are never longer
  than the number of nodes. \<open>Tree_Laws\<close> interprets it on the arena and on its mirror image.
\<close>

section \<open>Walks\<close>

type_synonym kids = "nat \<Rightarrow> nat list option"

text \<open>A stack entry carries the depth and the root a node is visited with.\<close>

inductive walk :: "kids \<Rightarrow> (nat \<times> usize \<times> usize) list \<Rightarrow> (nat \<times> usize \<times> usize) list \<Rightarrow> bool"
  for sk :: kids where
  walk_Nil: "walk sk [] []"
| walk_Cons: "sk i = Some ks \<Longrightarrow> walk sk (map (\<lambda>c. (c, Suc d, r)) ks) w \<Longrightarrow> walk sk st w'
    \<Longrightarrow> walk sk ((i, d, r) # st) ((i, d, r) # w @ w')"

inductive_cases walk_NilE: "walk sk [] w"
inductive_cases walk_ConsE: "walk sk ((i, d, r) # st) w"

definition child_rel :: "kids \<Rightarrow> (nat \<times> nat) set" where
  "child_rel sk = {(p, c). \<exists>ks. sk p = Some ks \<and> c \<in> set ks}"

lemma child_rel_iff: "(p, c) \<in> child_rel sk \<longleftrightarrow> (\<exists>ks. sk p = Some ks \<and> c \<in> set ks)"
  by (simp add: child_rel_def)

abbreviation ids :: "(nat \<times> usize \<times> usize) list \<Rightarrow> nat list" where
  "ids w \<equiv> map fst w"

text \<open>The stack of a loop that only remembers nodes.\<close>

abbreviation plain :: "nat list \<Rightarrow> (nat \<times> usize \<times> usize) list" where
  "plain cs \<equiv> map (\<lambda>c. (c, 0, 0)) cs"

lemma walk_starts: "walk sk st w \<Longrightarrow> set st \<subseteq> set w"
  by (induction rule: walk.induct) auto

lemma walk_closed:
  "walk sk st w \<Longrightarrow> (p, d, r) \<in> set w \<Longrightarrow> sk p = Some ks \<Longrightarrow> c \<in> set ks \<Longrightarrow> (c, Suc d, r) \<in> set w"
proof (induction arbitrary: p d r ks rule: walk.induct)
  case (walk_Cons i ks' d' r' w st w')
  have "(k, Suc d', r') \<in> set w" if "k \<in> set ks'" for k
    using that walk_starts [OF walk_Cons.hyps(2)] by auto
  with walk_Cons show ?case by auto
qed simp

lemma walk_defined: "walk sk st w \<Longrightarrow> (p, d, r) \<in> set w \<Longrightarrow> sk p \<noteq> None"
  by (induction rule: walk.induct) auto

lemma walk_below:
  "walk sk st w \<Longrightarrow> j \<in> set (ids w) \<Longrightarrow> \<exists>c\<in>set (ids st). (c, j) \<in> (child_rel sk)\<^sup>*"
proof (induction rule: walk.induct)
  case (walk_Cons i ks d r w st w')
  show ?case
  proof (cases "j \<in> set (ids w)")
    case True
    with walk_Cons.IH(1) obtain c where "c \<in> set ks" "(c, j) \<in> (child_rel sk)\<^sup>*" by auto
    moreover from this walk_Cons.hyps(1) have "(i, c) \<in> child_rel sk" by (auto simp: child_rel_iff)
    ultimately have "(i, j) \<in> (child_rel sk)\<^sup>*" by simp
    then show ?thesis by auto
  next
    case False
    with walk_Cons show ?thesis by auto
  qed
qed simp

lemma walk_ids:
  assumes "walk sk st w"
  shows "set (ids w) = {j. \<exists>c\<in>set (ids st). (c, j) \<in> (child_rel sk)\<^sup>*}"
proof
  show "set (ids w) \<subseteq> {j. \<exists>c\<in>set (ids st). (c, j) \<in> (child_rel sk)\<^sup>*}"
    using walk_below [OF assms] by blast
  have "j \<in> set (ids w)" if "c \<in> set (ids st)" "(c, j) \<in> (child_rel sk)\<^sup>*" for c j
    using that(2)
  proof (induction rule: rtrancl_induct)
    case base
    from that(1) walk_starts [OF assms] show ?case by auto
  next
    case (step j k)
    then obtain d r where "(j, d, r) \<in> set w" by auto
    with step(2) walk_closed [OF assms] show ?case by (force simp: child_rel_iff)
  qed
  then show "{j. \<exists>c\<in>set (ids st). (c, j) \<in> (child_rel sk)\<^sup>*} \<subseteq> set (ids w)" by blast
qed

text \<open>The labels do not matter for the nodes visited.\<close>

lemma walk_relabel:
  "walk sk st w \<Longrightarrow> ids st = ids st' \<Longrightarrow> \<exists>w'. walk sk st' w' \<and> ids w' = ids w"
proof (induction arbitrary: st' rule: walk.induct)
  case walk_Nil
  then show ?case by (auto intro: walk.walk_Nil)
next
  case (walk_Cons i ks d r w st w')
  then obtain e s rest where st': "st' = (i, e, s) # rest" "ids rest = ids st"
    by (cases st') auto
  obtain v where v: "walk sk (map (\<lambda>c. (c, Suc e, s)) ks) v" "ids v = ids w"
    using walk_Cons.IH(1) [of "map (\<lambda>c. (c, Suc e, s)) ks"] by (auto simp: comp_def)
  obtain v' where v': "walk sk rest v'" "ids v' = ids w'"
    using walk_Cons.IH(2) [of rest] st'(2) by auto
  from walk.walk_Cons [OF walk_Cons.hyps(1) v(1) v'(1)] v(2) v'(2) st' show ?case by auto
qed

section \<open>What the loops do on a walk\<close>

definition skel :: "'a arena \<Rightarrow> kids" where
  "skel a i = map_option an_children (a i)"

lemma skel_Some: "skel a i = Some ks \<longleftrightarrow> (\<exists>e. a i = Some e \<and> an_children e = ks)"
  by (auto simp: skel_def)

definition mirror :: "kids \<Rightarrow> kids" where
  "mirror sk i = map_option rev (sk i)"

lemma settled_loop_walk:
  "walk (skel (tb_arena tb)) st w \<Longrightarrow>
    settled_loop (k + length w) tb (ids st @ rest) acc = settled_loop k tb rest (acc @ map Visible_Node (ids w))"
proof (induction arbitrary: k rest acc rule: walk.induct)
  case (walk_Cons i ks d r w st w')
  then obtain e where e: "tb_arena tb i = Some e" "an_children e = ks" by (auto simp: skel_Some)
  have "settled_loop (k + length w' + length w) tb (ids (map (\<lambda>c. (c, Suc d, r)) ks) @ (ids st @ rest))
      (acc @ [Visible_Node i])
    = settled_loop k tb rest (acc @ [Visible_Node i] @ map Visible_Node (ids w @ ids w'))"
    unfolding walk_Cons.IH by simp
  with e show ?case by (simp add: comp_def add.assoc add.commute [of "length w'"])
qed simp

text \<open>\<open>label\<close> is what the depth loop leaves: the last label given to a node.\<close>

definition relabel :: "(nat \<times> usize \<times> usize) list \<Rightarrow> 'a arena \<Rightarrow> 'a arena" where
  "relabel w a = (\<lambda>j. case a j of None \<Rightarrow> None
     | Some e \<Rightarrow> (case map_of (rev w) j of None \<Rightarrow> Some e
        | Some (d, r) \<Rightarrow> Some (e\<lparr>an_depth := d, an_root_index := r\<rparr>)))"

lemma relabel_Nil [simp]: "relabel [] a = a"
  by (rule ext) (simp add: relabel_def split: option.split)

lemma relabel_append: "relabel (w @ w') a = relabel w' (relabel w a)"
  by (rule ext) (auto simp: relabel_def map_add_def split: option.split prod.split)

lemma relabel_one:
  "a i = Some e \<Longrightarrow> relabel [(i, d, r)] a = a(i \<mapsto> e\<lparr>an_depth := d, an_root_index := r\<rparr>)"
  by (rule ext) (auto simp: relabel_def split: option.split)

lemma skel_relabel [simp]: "skel (relabel w a) = skel a"
  by (rule ext) (auto simp: skel_def relabel_def split: option.split prod.split)

lemma depth_loop_walk:
  "walk sk st w \<Longrightarrow> skel a = sk \<Longrightarrow>
    depth_loop (k + length w) (st @ rest) a = depth_loop k rest (relabel w a)"
proof (induction arbitrary: k rest a rule: walk.induct)
  case (walk_Cons i ks d r w st w')
  then obtain e where e: "a i = Some e" "an_children e = ks"
    using skel_Some [of a i ks] by metis
  let ?a = "relabel [(i, d, r)] a"
  have "depth_loop (k + length w' + length w) (map (\<lambda>c. (c, Suc d, r)) ks @ (st @ rest)) ?a
    = depth_loop (k + length w') (st @ rest) (relabel w ?a)"
    by (rule walk_Cons.IH(1)) (simp add: walk_Cons.prems)
  also have "\<dots> = depth_loop k rest (relabel w' (relabel w ?a))"
    by (rule walk_Cons.IH(2)) (simp add: walk_Cons.prems)
  also have "relabel w' (relabel w ?a) = relabel ((i, d, r) # w @ w') a"
    using relabel_append [of "[(i, d, r)]" "w @ w'" a] by (simp add: relabel_append)
  finally have loop: "depth_loop (k + length w' + length w) (map (\<lambda>c. (c, Suc d, r)) ks @ (st @ rest)) ?a
    = depth_loop k rest (relabel ((i, d, r) # w @ w') a)" .
  have "?a = a(i \<mapsto> e\<lparr>an_depth := d, an_root_index := r\<rparr>)" using e(1) by (rule relabel_one)
  with loop e show ?case by (simp add: add.assoc add.commute [of "length w'"])
qed simp

lemma any_opt_Cons_False: "f x = Some False \<Longrightarrow> any_opt f (x # xs) = any_opt f xs"
  by simp

lemma has_matching_walk:
  "walk (skel (tb_arena tb)) st w \<Longrightarrow> length w \<le> fuel \<Longrightarrow>
    any_opt (\<lambda>c. if c \<in> tb_filter_matches tb then Some True else has_matching_descendant fuel tb c) (ids st)
    = Some (\<exists>j\<in>set (ids w). j \<in> tb_filter_matches tb)"
proof (induction arbitrary: fuel rule: walk.induct)
  case (walk_Cons i ks d r w st w')
  then obtain e where e: "tb_arena tb i = Some e" "an_children e = ks" by (auto simp: skel_Some)
  from walk_Cons.prems obtain f where f: "fuel = Suc f" "length w \<le> f" "length w' \<le> fuel"
    by (cases fuel) auto
  have "has_matching_descendant fuel tb i = Some (\<exists>j\<in>set (ids w). j \<in> tb_filter_matches tb)"
    using walk_Cons.IH(1) [OF f(2)] e f(1) by (simp add: comp_def)
  with walk_Cons.IH(2) [OF f(3)] show ?case
    by (cases "i \<in> tb_filter_matches tb"; cases "\<exists>j\<in>set (ids w). j \<in> tb_filter_matches tb")
      (simp_all add: bex_Un)
qed simp

text \<open>More fuel than needed changes nothing about the loops above.\<close>

lemma settled_loop_enough:
  assumes "walk (skel (tb_arena tb)) (plain cs) w" "length w \<le> fuel"
  shows "settled_loop fuel tb cs acc = Some (acc @ map Visible_Node (ids w))"
proof -
  have "settled_loop (fuel - length w + length w) tb (ids (plain cs) @ []) acc
      = settled_loop (fuel - length w) tb [] (acc @ map Visible_Node (ids w))"
    by (rule settled_loop_walk [OF assms(1)])
  with assms(2) show ?thesis by (simp add: comp_def)
qed

section \<open>A forest of nodes\<close>

lemma rtrancl_linear:
  assumes "single_valued (r\<inverse>)" "(a, x) \<in> r\<^sup>*" "(b, x) \<in> r\<^sup>*"
  shows "(a, b) \<in> r\<^sup>* \<or> (b, a) \<in> r\<^sup>*"
  using single_valued_confluent [OF assms(1), of x a b] assms(2,3)
  by (auto simp: rtrancl_converse)

locale rooted_forest =
  fixes ok :: "'s \<Rightarrow> bool" and nodes :: "'s \<Rightarrow> nat list" and kids_of :: "'s \<Rightarrow> kids"
  assumes kids_dom: "ok s \<Longrightarrow> kids_of s i \<noteq> None \<longleftrightarrow> i \<in> set (nodes s)"
    and kids_nodes: "ok s \<Longrightarrow> kids_of s i = Some ks \<Longrightarrow> distinct ks \<and> set ks \<subseteq> set (nodes s)"
    and kids_unique: "ok s \<Longrightarrow> kids_of s i = Some ks \<Longrightarrow> kids_of s j = Some ls \<Longrightarrow>
      c \<in> set ks \<Longrightarrow> c \<in> set ls \<Longrightarrow> i = j"
    and kids_wf: "ok s \<Longrightarrow> wf ((child_rel (kids_of s))\<inverse>)"
begin

lemma kids_acyclic: "ok s \<Longrightarrow> (i, i) \<notin> (child_rel (kids_of s))\<^sup>+"
  using wf_acyclic [OF kids_wf, of s] by (auto simp: acyclic_def trancl_converse)

lemma parents_unique: "ok s \<Longrightarrow> single_valued ((child_rel (kids_of s))\<inverse>)"
  by (auto simp: single_valued_def child_rel_iff dest: kids_unique)

lemma walk_one:
  assumes "ok s" "i \<in> set (nodes s)"
  shows "\<exists>w. walk (kids_of s) [(i, d, r)] w"
  using kids_wf [OF assms(1)] assms(2)
proof (induction i arbitrary: d rule: wf_induct_rule)
  case (less i)
  then obtain ks where ks: "kids_of s i = Some ks" using kids_dom [OF assms(1)] by blast
  have sub: "set ks \<subseteq> set (nodes s)" using kids_nodes [OF assms(1) ks] by blast
  have "\<exists>w. walk (kids_of s) (map (\<lambda>c. (c, Suc d, r)) cs) w" if "set cs \<subseteq> set ks" for cs
    using that
  proof (induction cs)
    case (Cons c cs)
    then have "(i, c) \<in> child_rel (kids_of s)" using ks by (auto simp: child_rel_iff)
    then obtain w where "walk (kids_of s) [(c, Suc d, r)] w"
      using less.IH [of c "Suc d"] Cons.prems sub by auto
    moreover obtain w' where "walk (kids_of s) (map (\<lambda>c. (c, Suc d, r)) cs) w'" using Cons by auto
    ultimately show ?case
      by (auto elim!: walk_ConsE walk_NilE intro: walk_Cons)
  qed (auto intro: walk_Nil)
  then obtain w where "walk (kids_of s) (map (\<lambda>c. (c, Suc d, r)) ks) w" by blast
  from walk_Cons [OF ks this walk_Nil] show ?case by blast
qed

lemma walk_exists:
  assumes "ok s" "set (ids st) \<subseteq> set (nodes s)"
  shows "\<exists>w. walk (kids_of s) st w"
  using assms(2)
proof (induction st)
  case (Cons x st)
  obtain i d r where x: "x = (i, d, r)" by (cases x)
  with Cons.prems walk_one [OF assms(1), of i d r] obtain w where "walk (kids_of s) [(i, d, r)] w" by auto
  moreover from Cons obtain w' where "walk (kids_of s) st w'" by auto
  ultimately show ?case unfolding x by (auto elim!: walk_ConsE walk_NilE intro: walk_Cons)
qed (auto intro: walk_Nil)

text \<open>No node of the start is below another one of it.\<close>

definition apart :: "'s \<Rightarrow> nat list \<Rightarrow> bool" where
  "apart s cs \<longleftrightarrow> distinct cs \<and> (\<forall>c\<in>set cs. \<forall>c'\<in>set cs. (c, c') \<notin> (child_rel (kids_of s))\<^sup>+)"

lemma apart_kids:
  assumes "ok s" "kids_of s i = Some ks" shows "apart s ks"
proof -
  let ?R = "child_rel (kids_of s)"
  have kid: "(i, c) \<in> ?R" if "c \<in> set ks" for c using that assms(2) by (auto simp: child_rel_iff)
  have "(c, c') \<notin> ?R\<^sup>+" if c: "c \<in> set ks" "c' \<in> set ks" for c c'
  proof
    assume "(c, c') \<in> ?R\<^sup>+"
    then obtain p where "(c, p) \<in> ?R\<^sup>*" "(p, c') \<in> ?R" by (meson tranclD2)
    moreover from this(2) kid [OF c(2)] parents_unique [OF assms(1)] have "p = i"
      by (auto simp: single_valued_def)
    ultimately have "(i, i) \<in> ?R\<^sup>+" using kid [OF c(1)] by (meson rtrancl_into_trancl2)
    with kids_acyclic [OF assms(1)] show False by blast
  qed
  with kids_nodes [OF assms] show ?thesis by (simp add: apart_def)
qed

lemma walk_distinct:
  assumes "ok s" "walk (kids_of s) st w" "apart s (ids st)"
  shows "distinct (ids w)"
  using assms(2,3)
proof (induction rule: walk.induct)
  case (walk_Cons i ks d r w st w')
  let ?R = "child_rel (kids_of s)"
  have kid: "(i, c) \<in> ?R" if "c \<in> set ks" for c
    using that walk_Cons.hyps(1) by (auto simp: child_rel_iff)
  note apart_ks = apart_kids [OF assms(1) walk_Cons.hyps(1)]
  have below: "(i, j) \<in> ?R\<^sup>+" if "j \<in> set (ids w)" for j
    using walk_below [OF walk_Cons.hyps(2) that] kid by (auto intro: rtrancl_into_trancl2)
  have "j \<noteq> i" if "j \<in> set (ids w)" for j
    using below [OF that] kids_acyclic [OF assms(1)] by auto
  moreover have cross: "(i, c) \<notin> ?R\<^sup>*" "(c, i) \<notin> ?R\<^sup>*" if "c \<in> set (ids st)" for c
    using that walk_Cons.prems by (auto simp: apart_def rtrancl_eq_or_trancl)
  then have "i \<notin> set (ids w')"
    using walk_below [OF walk_Cons.hyps(3), of i] by auto
  moreover have "set (ids w) \<inter> set (ids w') = {}"
  proof (rule ccontr)
    assume "set (ids w) \<inter> set (ids w') \<noteq> {}"
    then obtain j where j: "j \<in> set (ids w)" "j \<in> set (ids w')" by blast
    from walk_below [OF walk_Cons.hyps(3) j(2)] obtain c where
      c: "c \<in> set (ids st)" "(c, j) \<in> ?R\<^sup>*" by blast
    from below [OF j(1)] have "(i, j) \<in> ?R\<^sup>*" by simp
    from rtrancl_linear [OF parents_unique [OF assms(1)] this c(2)] cross [OF c(1)] show False by blast
  qed
  moreover have "distinct (ids w)"
    using walk_Cons.IH(1) apart_ks by (simp add: comp_def)
  moreover have "distinct (ids w')"
    using walk_Cons.IH(2) walk_Cons.prems by (simp add: apart_def)
  ultimately show ?case by auto
qed simp

lemma walk_in_nodes:
  assumes "ok s" "walk (kids_of s) st w" shows "set (ids w) \<subseteq> set (nodes s)"
  using walk_defined [OF assms(2)] kids_dom [OF assms(1)] by force

lemma walk_bound:
  assumes "ok s" "walk (kids_of s) st w" "apart s (ids st)"
  shows "length w \<le> length (nodes s)"
proof -
  have "length w = card (set (ids w))"
    using distinct_card [OF walk_distinct [OF assms]] by simp
  also have "\<dots> \<le> card (set (nodes s))" using walk_in_nodes [OF assms(1,2)] by (simp add: card_mono)
  also have "\<dots> \<le> length (nodes s)" by (rule card_length)
  finally show ?thesis .
qed

lemma apart_one: "ok s \<Longrightarrow> apart s [i]"
  by (simp add: apart_def kids_acyclic)

lemma apart_orphans:
  assumes "distinct cs" "\<And>c p. c \<in> set cs \<Longrightarrow> (p, c) \<notin> child_rel (kids_of s)"
  shows "apart s cs"
  using assms by (auto simp: apart_def dest!: tranclD2)

end

end
