(* ===== verification/Tree_Visible.thy ===== *)
theory Tree_Visible
  imports Tree_Forest
begin

text \<open>
  The structure of an accepted forest (\<open>tb_struct\<close>), the arena and its mirror image as rooted
  forests, and what the loops return on them: the visible rows are the nodes of the complete
  order that pass the filter or whose ancestors are all expanded, and no loop runs out of fuel.
\<close>

section \<open>Structure\<close>

definition node_parent :: "'a tree_browser \<Rightarrow> nat \<Rightarrow> 'a option" where
  "node_parent tb i = Option.bind (tb_arena tb i) (\<lambda>e. tn_parent (an_node e))"

definition tb_struct :: "'a tree_browser \<Rightarrow> bool" where
  "tb_struct tb \<longleftrightarrow>
     distinct (tb_ordered tb)
     \<and> (\<forall>i. tb_arena tb i \<noteq> None \<longleftrightarrow> i \<in> set (tb_ordered tb))
     \<and> (\<forall>t i. tb_target_to_node tb t = Some i \<longleftrightarrow> tb_node_target tb i = Some t)
     \<and> tb_roots tb = filter (\<lambda>i. node_parent tb i = None) (tb_ordered tb)
     \<and> (\<forall>i e. tb_arena tb i = Some e \<longrightarrow>
          an_children e = filter (\<lambda>j. node_parent tb j = Some (tn_target (an_node e))) (tb_ordered tb))
     \<and> (\<forall>i e. tb_arena tb i = Some e \<longrightarrow> tn_parent (an_node e) = None \<longrightarrow> an_depth e = 0)
     \<and> (\<forall>i e p. tb_arena tb i = Some e \<longrightarrow> tn_parent (an_node e) = Some p \<longrightarrow>
          (\<exists>q f. tb_target_to_node tb p = Some q \<and> tb_arena tb q = Some f
             \<and> an_depth e = Suc (an_depth f)))"

lemma tb_structD:
  assumes "tb_struct tb"
  shows struct_distinct: "distinct (tb_ordered tb)"
    and struct_dom: "tb_arena tb i \<noteq> None \<longleftrightarrow> i \<in> set (tb_ordered tb)"
    and struct_ids: "tb_target_to_node tb t = Some i \<longleftrightarrow> tb_node_target tb i = Some t"
    and struct_roots: "tb_roots tb = filter (\<lambda>i. node_parent tb i = None) (tb_ordered tb)"
    and struct_children: "tb_arena tb i = Some e \<Longrightarrow>
      an_children e = filter (\<lambda>j. node_parent tb j = Some (tn_target (an_node e))) (tb_ordered tb)"
    and struct_depth0: "tb_arena tb i = Some e \<Longrightarrow> tn_parent (an_node e) = None \<Longrightarrow> an_depth e = 0"
    and struct_parent: "tb_arena tb i = Some e \<Longrightarrow> tn_parent (an_node e) = Some p \<Longrightarrow>
      \<exists>q f. tb_target_to_node tb p = Some q \<and> tb_arena tb q = Some f \<and> an_depth e = Suc (an_depth f)"
  using assms unfolding tb_struct_def by blast+

lemma tb_struct_cong:
  "tb_arena tb' = tb_arena tb \<Longrightarrow> tb_target_to_node tb' = tb_target_to_node tb \<Longrightarrow>
    tb_ordered tb' = tb_ordered tb \<Longrightarrow> tb_roots tb' = tb_roots tb \<Longrightarrow> tb_struct tb' = tb_struct tb"
  by (simp add: tb_struct_def node_parent_def tb_node_target_def)

lemma tb_struct_new: "tb_struct tb_new"
  by (simp add: tb_struct_def tb_new_def node_parent_def tb_node_target_def)

abbreviation tb_kids :: "'a tree_browser \<Rightarrow> kids" where
  "tb_kids tb \<equiv> skel (tb_arena tb)"

abbreviation tb_child_rel :: "'a tree_browser \<Rightarrow> (nat \<times> nat) set" where
  "tb_child_rel tb \<equiv> child_rel (tb_kids tb)"

lemma tb_child_iff:
  assumes "tb_struct tb"
  shows "(p, c) \<in> tb_child_rel tb \<longleftrightarrow>
    (\<exists>e. tb_arena tb p = Some e \<and> node_parent tb c = Some (tn_target (an_node e)))"
  using struct_children [OF assms, of p] struct_dom [OF assms, of c]
  by (auto simp: child_rel_iff skel_Some node_parent_def bind_eq_Some_conv)

lemma tb_parent_child:
  assumes "tb_struct tb" "tb_arena tb c = Some e" "tn_parent (an_node e) = Some t"
  obtains p f where "tb_target_to_node tb t = Some p" "tb_arena tb p = Some f"
    "tn_target (an_node f) = t" "(p, c) \<in> tb_child_rel tb" "an_depth e = Suc (an_depth f)"
proof -
  from struct_parent [OF assms] obtain p f where
    pf: "tb_target_to_node tb t = Some p" "tb_arena tb p = Some f" "an_depth e = Suc (an_depth f)" by blast
  moreover from this(1) struct_ids [OF assms(1)] pf(2) have "tn_target (an_node f) = t"
    by (simp add: tb_node_target_def)
  moreover from this pf(2) assms have "(p, c) \<in> tb_child_rel tb"
    by (auto simp: tb_child_iff node_parent_def)
  ultimately show thesis using that by blast
qed

text \<open>The depth of the arena: for nodes of the arena it falls from a child to its parent.\<close>

definition tb_depth :: "'a tree_browser \<Rightarrow> nat \<Rightarrow> usize" where
  "tb_depth tb i = (case tb_arena tb i of None \<Rightarrow> 0 | Some e \<Rightarrow> an_depth e)"

lemma child_depth: "tb_struct tb \<Longrightarrow> (p, c) \<in> tb_child_rel tb \<Longrightarrow> tb_depth tb c = Suc (tb_depth tb p)"
proof -
  assume st: "tb_struct tb" and "(p, c) \<in> tb_child_rel tb"
  then obtain e f where e: "tb_arena tb p = Some e" "tb_arena tb c = Some f"
    "tn_parent (an_node f) = Some (tn_target (an_node e))"
    by (auto simp: tb_child_iff node_parent_def bind_eq_Some_conv)
  from struct_parent [OF st e(2,3)] obtain q g where q: "tb_target_to_node tb (tn_target (an_node e)) = Some q"
    "tb_arena tb q = Some g" "an_depth f = Suc (an_depth g)" by blast
  moreover from e(1) struct_ids [OF st, of "tn_target (an_node e)" p] have "tb_target_to_node tb (tn_target (an_node e)) = Some p"
    by (simp add: tb_node_target_def)
  ultimately show "tb_depth tb c = Suc (tb_depth tb p)" using e by (simp add: tb_depth_def)
qed

lemma tb_kids_unique:
  assumes "tb_struct tb" "(p, c) \<in> tb_child_rel tb" "(q, c) \<in> tb_child_rel tb"
  shows "p = q"
proof -
  from assms obtain e f where e: "tb_arena tb p = Some e" "tb_arena tb q = Some f"
    "tn_target (an_node e) = tn_target (an_node f)"
    by (auto simp: tb_child_iff)
  with struct_ids [OF assms(1), of "tn_target (an_node e)" p] struct_ids [OF assms(1), of "tn_target (an_node e)" q]
  show ?thesis by (simp add: tb_node_target_def)
qed

lemma child_rel_mirror [simp]: "child_rel (mirror sk) = child_rel sk"
  by (auto simp: child_rel_def mirror_def)

interpretation trf: rooted_forest tb_struct tb_ordered "\<lambda>tb. skel (tb_arena tb)"
proof unfold_locales
  fix tb :: "'a tree_browser" and i j c ks ls
  assume st: "tb_struct tb"
  show "skel (tb_arena tb) i \<noteq> None \<longleftrightarrow> i \<in> set (tb_ordered tb)"
    using struct_dom [OF st] by (simp add: skel_def)
  show "distinct ks \<and> set ks \<subseteq> set (tb_ordered tb)" if "skel (tb_arena tb) i = Some ks"
    using that struct_children [OF st, of i] struct_distinct [OF st] by (auto simp: skel_Some)
  show "i = j" if "skel (tb_arena tb) i = Some ks" "skel (tb_arena tb) j = Some ls" "c \<in> set ks" "c \<in> set ls"
    using that tb_kids_unique [OF st, of i c j] by (auto simp: child_rel_iff)
  show "wf ((tb_child_rel tb)\<inverse>)"
  proof (rule wf_subset)
    show "wf (measure (\<lambda>i. Max (tb_depth tb ` set (tb_ordered tb)) - tb_depth tb i))" by simp
    show "(tb_child_rel tb)\<inverse> \<subseteq> measure (\<lambda>i. Max (tb_depth tb ` set (tb_ordered tb)) - tb_depth tb i)"
    proof clarsimp
      fix c p assume pc: "(p, c) \<in> tb_child_rel tb"
      then have "c \<in> set (tb_ordered tb)"
        using struct_dom [OF st, of c] by (auto simp: tb_child_iff [OF st] node_parent_def bind_eq_Some_conv)
      then have "tb_depth tb c \<le> Max (tb_depth tb ` set (tb_ordered tb))" by simp
      with child_depth [OF st pc]
      show "Max (tb_depth tb ` set (tb_ordered tb)) - tb_depth tb c
        < Max (tb_depth tb ` set (tb_ordered tb)) - tb_depth tb p" by simp
    qed
  qed
qed

interpretation trm: rooted_forest tb_struct tb_ordered "\<lambda>tb. mirror (skel (tb_arena tb))"
proof unfold_locales
  fix tb :: "'a tree_browser" and i j c ks ls
  assume st: "tb_struct tb"
  show "mirror (skel (tb_arena tb)) i \<noteq> None \<longleftrightarrow> i \<in> set (tb_ordered tb)"
    using trf.kids_dom [OF st] by (simp add: mirror_def)
  show "distinct ks \<and> set ks \<subseteq> set (tb_ordered tb)" if "mirror (skel (tb_arena tb)) i = Some ks"
    using that trf.kids_nodes [OF st, of i] by (auto simp: mirror_def)
  show "i = j" if "mirror (skel (tb_arena tb)) i = Some ks" "mirror (skel (tb_arena tb)) j = Some ls"
    "c \<in> set ks" "c \<in> set ls"
    using that trf.kids_unique [OF st] by (auto simp: mirror_def)
  show "wf ((child_rel (mirror (skel (tb_arena tb))))\<inverse>)"
    using trf.kids_wf [OF st] by simp
qed

section \<open>Matching descendants\<close>

definition below_match :: "'a tree_browser \<Rightarrow> nat \<Rightarrow> bool" where
  "below_match tb i \<longleftrightarrow> (\<exists>j\<in>tb_filter_matches tb. (i, j) \<in> (tb_child_rel tb)\<^sup>+)"

lemma labelled_ids [simp]: "map (fst \<circ> (\<lambda>c. (c, d, r))) cs = cs"
  by (simp add: comp_def)

lemma strict_below:
  assumes "sk i = Some cs" "walk sk (plain cs) w"
  shows "set (ids w) = {j. (i, j) \<in> (child_rel sk)\<^sup>+}"
proof -
  have "(i, j) \<in> (child_rel sk)\<^sup>+ \<longleftrightarrow> (\<exists>c\<in>set cs. (c, j) \<in> (child_rel sk)\<^sup>*)" for j
    using assms(1) by (auto simp: child_rel_iff dest!: tranclD intro: rtrancl_into_trancl2)
  with walk_ids [OF assms(2)] show ?thesis by simp
qed

lemma no_node_no_child: "sk i = None \<Longrightarrow> (i, j) \<notin> (child_rel sk)\<^sup>+"
  by (auto simp: child_rel_iff dest!: tranclD)

lemma children_walk:
  assumes "tb_struct tb" "tb_arena tb i = Some e"
  obtains w where "walk (tb_kids tb) (plain (an_children e)) w" "length w \<le> length (tb_ordered tb)"
    "set (ids w) = {j. (i, j) \<in> (tb_child_rel tb)\<^sup>+}"
proof -
  have sk: "tb_kids tb i = Some (an_children e)" using assms(2) by (simp add: skel_def)
  with trf.kids_nodes [OF assms(1)] trf.walk_exists [OF assms(1), of "plain (an_children e)"]
  obtain w where w: "walk (tb_kids tb) (plain (an_children e)) w" by auto
  with trf.walk_bound [OF assms(1) w] trf.apart_kids [OF assms(1) sk] strict_below [OF sk w] that
  show thesis by (simp add: comp_def)
qed

lemma has_matching_node:
  assumes "tb_struct tb"
  shows "has_matching_descendant (tree_fuel tb) tb i = Some (below_match tb i)"
proof (cases "tb_arena tb i")
  case None
  then have "tb_kids tb i = None" by (simp add: skel_def)
  with None no_node_no_child [of "tb_kids tb" i] show ?thesis
    by (simp add: tree_fuel_def below_match_def)
next
  case (Some e)
  obtain w where w: "walk (tb_kids tb) (plain (an_children e)) w" "length w \<le> length (tb_ordered tb)"
    "set (ids w) = {j. (i, j) \<in> (tb_child_rel tb)\<^sup>+}"
    using children_walk [OF assms Some] by metis
  have "(\<exists>j\<in>set (ids w). j \<in> tb_filter_matches tb) = below_match tb i"
    unfolding w(3) below_match_def by auto
  with has_matching_walk [OF w(1,2)] Some show ?thesis by (simp add: tree_fuel_def comp_def)
qed

section \<open>Which nodes are shown\<close>

definition node_passes :: "'a tree_browser \<Rightarrow> nat \<Rightarrow> bool" where
  "node_passes tb i \<longleftrightarrow> tb_filtering tb \<longrightarrow> i \<in> tb_filter_matches tb \<or> below_match tb i"

definition node_expanded :: "'a tree_browser \<Rightarrow> nat \<Rightarrow> bool" where
  "node_expanded tb i \<longleftrightarrow> (\<exists>t\<in>tb_expanded tb. tb_node_target tb i = Some t)"

definition node_open :: "'a tree_browser \<Rightarrow> nat \<Rightarrow> bool" where
  "node_open tb i \<longleftrightarrow> node_expanded tb i \<or> tb_filtering tb \<and> below_match tb i"

inductive shown_from :: "'a tree_browser \<Rightarrow> nat list \<Rightarrow> nat \<Rightarrow> bool"
  for tb :: "'a tree_browser" and cs :: "nat list" where
  shown_start: "c \<in> set cs \<Longrightarrow> node_passes tb c \<Longrightarrow> shown_from tb cs c"
| shown_child: "shown_from tb cs p \<Longrightarrow> node_open tb p \<Longrightarrow> (p, c) \<in> tb_child_rel tb \<Longrightarrow>
    node_passes tb c \<Longrightarrow> shown_from tb cs c"

lemma shown_from_Nil [simp]: "\<not> shown_from tb [] j"
  by (rule notI, induction rule: shown_from.induct) auto

lemma shown_from_mono: "shown_from tb cs j \<Longrightarrow> set cs \<subseteq> set ds \<Longrightarrow> shown_from tb ds j"
  by (induction rule: shown_from.induct) (auto intro: shown_start shown_child)

lemma shown_from_append: "shown_from tb (xs @ ys) j \<longleftrightarrow> shown_from tb xs j \<or> shown_from tb ys j"
proof
  show "shown_from tb (xs @ ys) j \<Longrightarrow> shown_from tb xs j \<or> shown_from tb ys j"
    by (induction rule: shown_from.induct) (auto intro: shown_start shown_child)
qed (auto intro: shown_from_mono)

lemma shown_from_one:
  assumes "tb_kids tb i = Some ks"
  shows "shown_from tb [i] j \<longleftrightarrow> node_passes tb i \<and> (j = i \<or> node_open tb i \<and> shown_from tb ks j)"
proof
  show "shown_from tb [i] j \<Longrightarrow> node_passes tb i \<and> (j = i \<or> node_open tb i \<and> shown_from tb ks j)"
  proof (induction rule: shown_from.induct)
    case (shown_child p c)
    then show ?case using assms
      by (auto simp: child_rel_iff intro: shown_from.shown_child shown_from.shown_start)
  qed simp
  have "shown_from tb [i] j" if ks: "shown_from tb ks j" and i: "node_passes tb i" "node_open tb i"
    using ks
  proof (induction rule: shown_from.induct)
    case (shown_start c)
    have "shown_from tb [i] i" using i(1) by (simp add: shown_from.shown_start)
    moreover have "(i, c) \<in> tb_child_rel tb" using shown_start assms by (auto simp: child_rel_iff)
    ultimately show ?case using i(2) shown_start(2) by (blast intro: shown_from.shown_child)
  qed (auto intro: shown_from.shown_child)
  then show "node_passes tb i \<and> (j = i \<or> node_open tb i \<and> shown_from tb ks j) \<Longrightarrow> shown_from tb [i] j"
    by (auto intro: shown_start)
qed

lemma shown_from_Cons: "shown_from tb (i # cs) j \<longleftrightarrow> shown_from tb [i] j \<or> shown_from tb cs j"
  using shown_from_append [of tb "[i]" cs j] by simp

lemma push_visible_node:
  assumes "tb_struct tb" "tb_arena tb i = Some e"
  shows "push_visible (Suc fuel) tb i visible =
    (if \<not> node_passes tb i then Some visible
     else if node_open tb i then fold_opt (push_visible fuel tb) (an_children e) (visible @ [i])
     else Some (visible @ [i]))"
  using assms
  by (auto simp: has_matching_node node_passes_def node_open_def node_expanded_def tb_node_target_def)

declare push_visible.simps [simp del]

lemma fold_opt_walk:
  "walk (tb_kids tb) st w \<Longrightarrow> tb_struct tb \<Longrightarrow> length w \<le> fuel \<Longrightarrow>
    \<exists>vs. fold_opt (push_visible fuel tb) (ids st) visible = Some (visible @ vs)
      \<and> subseq vs (ids w) \<and> set vs = {j. shown_from tb (ids st) j}"
proof (induction arbitrary: fuel visible rule: walk.induct)
  case walk_Nil
  then show ?case by simp
next
  case (walk_Cons i ks d r w st w')
  then obtain e where e: "tb_arena tb i = Some e" "an_children e = ks" by (auto simp: skel_Some)
  from walk_Cons.prems obtain f where f: "fuel = Suc f" "length w \<le> f" "length w' \<le> fuel"
    by (cases fuel) auto
  obtain us where us: "push_visible fuel tb i visible = Some (visible @ us)"
    "subseq us (i # ids w)" "set us = {j. shown_from tb [i] j}"
  proof (cases "node_passes tb i \<and> node_open tb i")
    case True
    obtain vs where vs: "fold_opt (push_visible f tb) ks (visible @ [i]) = Some ((visible @ [i]) @ vs)"
      "subseq vs (ids w)" "set vs = {j. shown_from tb ks j}"
      using walk_Cons.IH(1) [OF walk_Cons.prems(1) f(2), of "visible @ [i]"] by auto
    show ?thesis
    proof (rule that)
      show "push_visible fuel tb i visible = Some (visible @ (i # vs))"
        using True vs(1) by (simp add: f(1) push_visible_node [OF walk_Cons.prems(1) e(1)] e(2))
      show "subseq (i # vs) (i # ids w)" using vs(2) by simp
      show "set (i # vs) = {j. shown_from tb [i] j}"
        unfolding shown_from_one [OF walk_Cons.hyps(1)] using True vs(3) by auto
    qed
  next
    case False
    let ?us = "if node_passes tb i then [i] else []"
    show ?thesis
    proof (rule that)
      show "push_visible fuel tb i visible = Some (visible @ ?us)"
        using False by (simp add: f(1) push_visible_node [OF walk_Cons.prems(1) e(1)])
      show "subseq ?us (i # ids w)" by simp
      show "set ?us = {j. shown_from tb [i] j}"
        unfolding shown_from_one [OF walk_Cons.hyps(1)] using False by auto
    qed
  qed
  obtain vs where vs: "fold_opt (push_visible fuel tb) (ids st) (visible @ us) = Some ((visible @ us) @ vs)"
    "subseq vs (ids w')" "set vs = {j. shown_from tb (ids st) j}"
    using walk_Cons.IH(2) [OF walk_Cons.prems(1) f(3), of "visible @ us"] by auto
  have "fold_opt (push_visible fuel tb) (ids ((i, d, r) # st)) visible = Some (visible @ us @ vs)"
    using us(1) vs(1) by simp
  moreover have "subseq (us @ vs) (ids ((i, d, r) # w @ w'))"
    using list_emb_append_mono [OF us(2) vs(2)] by simp
  moreover have "set (us @ vs) = {j. shown_from tb (ids ((i, d, r) # st)) j}"
    using us(3) vs(3) shown_from_Cons [of tb i "ids st"] by auto
  ultimately show ?case by blast
qed

section \<open>The rows in closed form\<close>

definition tb_shown :: "'a tree_browser \<Rightarrow> nat \<Rightarrow> bool" where
  "tb_shown tb j \<longleftrightarrow>
     (if tb_filtering tb then j \<in> tb_filter_matches tb \<or> below_match tb j
      else \<forall>a. (a, j) \<in> (tb_child_rel tb)\<^sup>+ \<longrightarrow> node_expanded tb a)"

lemma below_parent: "(p, c) \<in> tb_child_rel tb \<Longrightarrow> c \<in> tb_filter_matches tb \<or> below_match tb c \<Longrightarrow> below_match tb p"
  by (auto simp: below_match_def intro: trancl_into_trancl2)

lemma shown_parent:
  assumes "(p, c) \<in> tb_child_rel tb" "tb_shown tb c" shows "tb_shown tb p \<and> node_open tb p"
proof (cases "tb_filtering tb")
  case True
  with assms below_parent [OF assms(1)] show ?thesis by (simp add: tb_shown_def node_open_def)
next
  case False
  have "(a, c) \<in> (tb_child_rel tb)\<^sup>+" if "(a, p) \<in> (tb_child_rel tb)\<^sup>+" for a
    using that assms(1) by (rule trancl_into_trancl)
  with False assms show ?thesis by (auto simp: tb_shown_def node_open_def)
qed

lemma shown_passes: "tb_shown tb j \<Longrightarrow> node_passes tb j"
  by (auto simp: tb_shown_def node_passes_def split: if_splits)

lemma shown_from_orphans:
  assumes "tb_struct tb" "\<And>c p. c \<in> set cs \<Longrightarrow> (p, c) \<notin> tb_child_rel tb"
  shows "shown_from tb cs j \<longleftrightarrow> (\<exists>c\<in>set cs. (c, j) \<in> (tb_child_rel tb)\<^sup>*) \<and> tb_shown tb j"
proof
  show "shown_from tb cs j \<Longrightarrow> (\<exists>c\<in>set cs. (c, j) \<in> (tb_child_rel tb)\<^sup>*) \<and> tb_shown tb j"
  proof (induction rule: shown_from.induct)
    case (shown_start c)
    then have "(a, c) \<notin> (tb_child_rel tb)\<^sup>+" for a using assms(2) by (auto dest!: tranclD2)
    with shown_start show ?case by (auto simp: tb_shown_def node_passes_def)
  next
    case (shown_child p c)
    have "a = p \<or> (a, p) \<in> (tb_child_rel tb)\<^sup>+" if "(a, c) \<in> (tb_child_rel tb)\<^sup>+" for a
      using that tb_kids_unique [OF assms(1) _ shown_child.hyps(3)]
      by (metis rtranclD tranclD2)
    then have "node_expanded tb a" if "\<not> tb_filtering tb" "(a, c) \<in> (tb_child_rel tb)\<^sup>+" for a
      using that shown_child.IH shown_child.hyps(2) by (auto simp: tb_shown_def node_open_def)
    with shown_child.hyps(4) have "tb_shown tb c"
      by (auto simp: tb_shown_def node_passes_def)
    with shown_child show ?case by (meson rtrancl.rtrancl_into_rtrancl)
  qed
  assume "(\<exists>c\<in>set cs. (c, j) \<in> (tb_child_rel tb)\<^sup>*) \<and> tb_shown tb j"
  then obtain c where c: "c \<in> set cs" and "(c, j) \<in> (tb_child_rel tb)\<^sup>*" "tb_shown tb j" by blast
  from this(2,3) show "shown_from tb cs j"
  proof (induction rule: rtrancl_induct)
    case base
    with c shown_passes show ?case by (blast intro: shown_start)
  next
    case (step p k)
    from shown_parent [OF step.hyps(2) step.prems] step.IH step.hyps(2) shown_passes [OF step.prems]
    show ?case by (blast intro: shown_child)
  qed
qed

text \<open>The complete order below a node, as the walk over the settled rows lists it.\<close>

fun visible_node :: "visible_row \<Rightarrow> nat option" where
  "visible_node (Visible_Node i) = Some i"
| "visible_node (Visible_Structural root k) = None"

definition tb_preorder :: "'a tree_browser \<Rightarrow> nat \<Rightarrow> nat list" where
  "tb_preorder tb i = List.map_filter visible_node (the (settled_loop (tree_fuel tb) tb [i] []))"

lemma map_filter_nodes [simp]: "List.map_filter visible_node (map Visible_Node is) = is"
  by (induction "is") (simp_all add: List.map_filter_simps)

lemma preorder_walk:
  assumes "tb_struct tb" "i \<in> set (tb_ordered tb)"
  obtains w where "walk (tb_kids tb) [(i, 0, 0)] w" "ids w = tb_preorder tb i"
    "length w \<le> length (tb_ordered tb)"
proof -
  from trf.walk_one [OF assms] obtain w where w: "walk (tb_kids tb) [(i, 0, 0)] w" by blast
  with trf.walk_bound [OF assms(1) w] trf.apart_one [OF assms(1)]
  have le: "length w \<le> length (tb_ordered tb)" by simp
  have "settled_loop (tree_fuel tb) tb [i] [] = Some ([] @ map Visible_Node (ids w))"
    by (rule settled_loop_enough) (use w le in \<open>simp_all add: tree_fuel_def\<close>)
  then have "tb_preorder tb i = ids w"
    unfolding tb_preorder_def by (simp only: option.sel append_Nil map_filter_nodes)
  with w le that show thesis by metis
qed

lemma preorder_settled:
  assumes "tb_struct tb" "i \<in> set (tb_ordered tb)"
  shows "settled_loop (tree_fuel tb) tb [i] acc = Some (acc @ map Visible_Node (tb_preorder tb i))"
proof -
  obtain w where "walk (tb_kids tb) [(i, 0, 0)] w" "ids w = tb_preorder tb i"
    "length w \<le> length (tb_ordered tb)" by (rule preorder_walk [OF assms])
  with settled_loop_enough [of tb "[i]" w "tree_fuel tb" acc] show ?thesis by (simp add: tree_fuel_def)
qed

lemma preorder_set:
  assumes "tb_struct tb" "i \<in> set (tb_ordered tb)"
  shows "set (tb_preorder tb i) = {j. (i, j) \<in> (tb_child_rel tb)\<^sup>*}"
proof -
  obtain w where "walk (tb_kids tb) [(i, 0, 0)] w" "ids w = tb_preorder tb i"
    by (rule preorder_walk [OF assms])
  with walk_ids [of "tb_kids tb" "[(i, 0, 0)]" w] show ?thesis by simp
qed

lemma preorder_distinct:
  assumes "tb_struct tb" "i \<in> set (tb_ordered tb)" shows "distinct (tb_preorder tb i)"
proof -
  obtain w where "walk (tb_kids tb) [(i, 0, 0)] w" "ids w = tb_preorder tb i"
    by (rule preorder_walk [OF assms])
  with trf.walk_distinct [OF assms(1), of "[(i, 0, 0)]" w] trf.apart_one [OF assms(1), of i]
  show ?thesis by simp
qed

lemma subseq_filter_set: "subseq xs ys \<Longrightarrow> distinct ys \<Longrightarrow> xs = filter (\<lambda>y. y \<in> set xs) ys"
proof (induction rule: list_emb.induct)
  case (list_emb_Cons xs ys y)
  moreover from this have "y \<notin> set xs" by (auto dest: list_emb_set)
  ultimately show ?case by simp
next
  case (list_emb_Cons2 x y xs ys)
  then have "filter (\<lambda>z. z = x \<or> z \<in> set xs) ys = filter (\<lambda>z. z \<in> set xs) ys"
    by (intro filter_cong) auto
  with list_emb_Cons2 show ?case by simp
qed simp

lemma root_orphan:
  assumes "tb_struct tb" "r \<in> set (tb_roots tb)"
  shows "(p, r) \<notin> tb_child_rel tb" "r \<in> set (tb_ordered tb)"
  using assms by (auto simp: tb_child_iff struct_roots)

lemma push_visible_root:
  assumes "tb_struct tb" "r \<in> set (tb_roots tb)"
  shows "push_visible (tree_fuel tb) tb r visible
    = Some (visible @ filter (tb_shown tb) (tb_preorder tb r))"
proof -
  note root = root_orphan [OF assms]
  obtain w where w: "walk (tb_kids tb) [(r, 0, 0)] w" "ids w = tb_preorder tb r"
    "length w \<le> length (tb_ordered tb)" by (rule preorder_walk [OF assms(1) root(2)])
  from fold_opt_walk [OF w(1) assms(1), of "tree_fuel tb" visible] w(3) obtain vs where
    vs: "fold_opt (push_visible (tree_fuel tb) tb) [r] visible = Some (visible @ vs)"
      "subseq vs (ids w)" "set vs = {j. shown_from tb [r] j}"
    by (auto simp: tree_fuel_def)
  have "shown_from tb [r] j \<longleftrightarrow> (r, j) \<in> (tb_child_rel tb)\<^sup>* \<and> tb_shown tb j" for j
    using shown_from_orphans [OF assms(1), of "[r]" j] root(1) by simp
  then have "filter (\<lambda>y. y \<in> set vs) (ids w) = filter (tb_shown tb) (ids w)"
    unfolding vs(3) w(2)
    by (intro filter_cong) (auto simp: preorder_set [OF assms(1) root(2)])
  with subseq_filter_set [OF vs(2)] preorder_distinct [OF assms(1) root(2)] w(2)
  have "vs = filter (tb_shown tb) (tb_preorder tb r)" by simp
  with vs(1) show ?thesis by (simp split: option.splits)
qed

lemma fold_opt_concat:
  "(\<And>x acc. x \<in> set xs \<Longrightarrow> f x acc = Some (acc @ g x)) \<Longrightarrow> fold_opt f xs acc = Some (acc @ concat (map g xs))"
  by (induction xs arbitrary: acc) auto

definition tb_all_nodes :: "'a tree_browser \<Rightarrow> nat list" where
  "tb_all_nodes tb = concat (map (tb_preorder tb) (tb_roots tb))"

lemma visible_ids_closed:
  assumes "tb_struct tb"
  shows "tb_visible_node_ids tb = Some (filter (tb_shown tb) (tb_all_nodes tb))"
proof -
  have "tb_visible_node_ids tb
      = Some ([] @ concat (map (\<lambda>r. filter (tb_shown tb) (tb_preorder tb r)) (tb_roots tb)))"
    unfolding tb_visible_node_ids_def by (rule fold_opt_concat) (rule push_visible_root [OF assms])
  then show ?thesis by (simp add: tb_all_nodes_def filter_concat comp_def)
qed

definition root_rows :: "'a tree_browser \<Rightarrow> nat \<Rightarrow> visible_row list" where
  "root_rows tb r =
     (let ns = filter (tb_shown tb) (tb_preorder tb r)
      in if ns = [] then [] else structure_rows tb r @ map Visible_Node ns)"

lemma flow_rows_closed:
  assumes "tb_struct tb"
  shows "tb_visible_flow_rows tb = Some (concat (map (root_rows tb) (tb_roots tb)))"
proof -
  have "tb_visible_flow_rows tb = Some ([] @ concat (map (root_rows tb) (tb_roots tb)))"
    unfolding tb_visible_flow_rows_def
    by (rule fold_opt_concat) (simp add: push_visible_root [OF assms] root_rows_def Let_def)
  then show ?thesis by simp
qed

lemma settled_rows_closed:
  assumes "tb_struct tb"
  shows "tb_settled_rows tb
    = Some (concat (map (\<lambda>r. structure_rows tb r @ map Visible_Node (tb_preorder tb r)) (tb_roots tb)))"
proof -
  have "tb_settled_rows tb
    = Some ([] @ concat (map (\<lambda>r. structure_rows tb r @ map Visible_Node (tb_preorder tb r)) (tb_roots tb)))"
    unfolding tb_settled_rows_def
    by (rule fold_opt_concat) (simp add: preorder_settled [OF assms] root_orphan(2) [OF assms])
  then show ?thesis by simp
qed

section \<open>All nodes, descendants, ancestors\<close>

lemma ordered_arena: "tb_struct tb \<Longrightarrow> i \<in> set (tb_ordered tb) \<Longrightarrow> \<exists>e. tb_arena tb i = Some e"
  using struct_dom by blast

lemma reached_from_root:
  assumes "tb_struct tb" "i \<in> set (tb_ordered tb)"
  shows "\<exists>r\<in>set (tb_roots tb). (r, i) \<in> (tb_child_rel tb)\<^sup>*"
  using assms(2)
proof (induction "tb_depth tb i" arbitrary: i rule: less_induct)
  case less
  from ordered_arena [OF assms(1) less.prems] obtain e where e: "tb_arena tb i = Some e" by blast
  show ?case
  proof (cases "tn_parent (an_node e)")
    case None
    with e less.prems show ?thesis by (auto simp: struct_roots [OF assms(1)] node_parent_def)
  next
    case (Some t)
    with tb_parent_child [OF assms(1) e] obtain p f where
      "tb_arena tb p = Some f" "(p, i) \<in> tb_child_rel tb" by metis
    moreover from this struct_dom [OF assms(1), of p] child_depth [OF assms(1)]
    have "p \<in> set (tb_ordered tb)" "tb_depth tb p < tb_depth tb i" by auto
    ultimately show ?thesis using less.hyps by (meson rtrancl.rtrancl_into_rtrancl)
  qed
qed

lemma all_nodes_set:
  assumes "tb_struct tb" shows "set (tb_all_nodes tb) = set (tb_ordered tb)"
proof -
  have "j \<in> set (tb_ordered tb)" if "r \<in> set (tb_ordered tb)" "(r, j) \<in> (tb_child_rel tb)\<^sup>*" for r j
    using that(2,1)
  proof (induction rule: rtrancl_induct)
    case (step y z)
    then show ?case using trf.kids_nodes [OF assms] by (auto simp: child_rel_iff)
  qed
  then show ?thesis
    using reached_from_root [OF assms] root_orphan(2) [OF assms]
    by (auto simp: tb_all_nodes_def preorder_set [OF assms])
qed

lemma all_nodes_distinct:
  assumes "tb_struct tb" shows "distinct (tb_all_nodes tb)"
proof -
  have "distinct (concat (map (tb_preorder tb) rs))"
    if "set rs \<subseteq> set (tb_roots tb)" "distinct rs" for rs
    using that
  proof (induction rs)
    case (Cons r rs)
    have "set (tb_preorder tb r) \<inter> set (tb_preorder tb r') = {}" if r': "r' \<in> set rs" for r'
    proof (rule ccontr)
      assume "set (tb_preorder tb r) \<inter> set (tb_preorder tb r') \<noteq> {}"
      moreover have roots: "r \<in> set (tb_roots tb)" "r' \<in> set (tb_roots tb)" using Cons.prems r' by auto
      ultimately obtain j where "(r, j) \<in> (tb_child_rel tb)\<^sup>*" "(r', j) \<in> (tb_child_rel tb)\<^sup>*"
        using root_orphan(2) [OF assms] by (auto simp: preorder_set [OF assms])
      then have "(r, r') \<in> (tb_child_rel tb)\<^sup>* \<or> (r', r) \<in> (tb_child_rel tb)\<^sup>*"
        using rtrancl_linear [OF trf.parents_unique [OF assms]] by blast
      then have "r = r'" using root_orphan(1) [OF assms] roots by (metis rtranclE)
      with Cons.prems r' show False by auto
    qed
    with Cons root_orphan(2) [OF assms] preorder_distinct [OF assms] show ?case by auto
  qed simp
  moreover have "distinct (tb_roots tb)"
    using struct_distinct [OF assms] by (simp add: struct_roots [OF assms])
  ultimately show ?thesis by (simp add: tb_all_nodes_def)
qed

lemma descendant_loop_walk:
  "walk (mirror (tb_kids tb)) st w \<Longrightarrow> tb_struct tb \<Longrightarrow>
    descendant_loop (k + length w) tb (ids st @ rest) acc
      = descendant_loop k tb rest (acc @ filter (node_passes tb) (ids w))"
proof (induction arbitrary: k rest acc rule: walk.induct)
  case (walk_Cons i ks d r w st w')
  then obtain e where e: "tb_arena tb i = Some e" "ks = rev (an_children e)"
    by (auto simp: mirror_def skel_def)
  let ?acc = "if node_passes tb i then acc @ [i] else acc"
  have "descendant_loop (k + length w' + length w) tb (ids (map (\<lambda>c. (c, Suc d, r)) ks) @ (ids st @ rest)) ?acc
    = descendant_loop k tb rest (?acc @ filter (node_passes tb) (ids w @ ids w'))"
    unfolding walk_Cons.IH(1) [OF walk_Cons.prems] walk_Cons.IH(2) [OF walk_Cons.prems] by simp
  moreover have "descendant_loop (Suc n) tb (i # stack) acc
      = descendant_loop n tb (rev (an_children e) @ stack) ?acc" for n stack
    using e(1) by (auto simp: has_matching_node [OF walk_Cons.prems] node_passes_def)
  ultimately show ?case
    using e(2) by (simp add: add.assoc add.commute [of "length w'"] del: descendant_loop.simps)
qed simp

lemma visible_descendants_closed:
  assumes "tb_struct tb"
  obtains ds where "tb_visible_descendants tb i = Some ds" "distinct ds"
    "set ds = {j. (i, j) \<in> (tb_child_rel tb)\<^sup>+ \<and> node_passes tb j}"
proof (cases "tb_arena tb i")
  case None
  with no_node_no_child [of "tb_kids tb" i] that [of "[]"] show thesis
    by (simp add: tb_visible_descendants_def skel_def)
next
  case (Some e)
  let ?sk = "mirror (tb_kids tb)" and ?cs = "rev (an_children e)"
  have sk: "?sk i = Some ?cs" using Some by (simp add: mirror_def skel_def)
  with trm.kids_nodes [OF assms sk] trm.walk_exists [OF assms, of "plain ?cs"]
  obtain w where w: "walk ?sk (plain ?cs) w" by auto
  have apart: "trm.apart tb (ids (plain ?cs))" using trm.apart_kids [OF assms sk] by simp
  have le: "length w \<le> length (tb_ordered tb)" by (rule trm.walk_bound [OF assms w apart])
  then obtain k where k: "tree_fuel tb = k + length w" unfolding tree_fuel_def
    by (metis add.commute le_Suc_eq le_add_diff_inverse2 Suc_leD)
  have "tb_visible_descendants tb i = Some (filter (node_passes tb) (ids w))"
    using descendant_loop_walk [OF w assms, of k "[]" "[]"] Some
    by (simp add: tb_visible_descendants_def k)
  moreover have "distinct (ids w)" by (rule trm.walk_distinct [OF assms w apart])
  moreover have "set (ids w) = {j. (i, j) \<in> (tb_child_rel tb)\<^sup>+}"
    using strict_below [OF sk w] by simp
  ultimately show thesis by (intro that [of "filter (node_passes tb) (ids w)"]) auto
qed

inductive up_chain :: "'a tree_browser \<Rightarrow> nat \<Rightarrow> 'a list \<Rightarrow> bool" for tb :: "'a tree_browser" where
  up_root: "tb_arena tb i = Some e \<Longrightarrow> tn_parent (an_node e) = None \<Longrightarrow> up_chain tb i []"
| up_step: "(q, i) \<in> tb_child_rel tb \<Longrightarrow> tb_node_target tb q = Some t \<Longrightarrow> up_chain tb q ts \<Longrightarrow> up_chain tb i (t # ts)"

lemma ancestor_loop_chain:
  assumes "tb_struct tb" "i \<in> set (tb_ordered tb)" "tb_depth tb i < fuel"
  shows "\<exists>ts. ancestor_loop fuel tb i acc = Some (acc @ ts) \<and> up_chain tb i ts"
  using assms(2,3)
proof (induction fuel arbitrary: i acc)
  case (Suc fuel)
  from ordered_arena [OF assms(1) Suc.prems(1)] obtain e where e: "tb_arena tb i = Some e" by blast
  show ?case
  proof (cases "tn_parent (an_node e)")
    case None
    with e show ?thesis by (auto intro: up_root)
  next
    case (Some t)
    from tb_parent_child [OF assms(1) e Some] obtain p f where
      p: "tb_target_to_node tb t = Some p" "tb_arena tb p = Some f" "tn_target (an_node f) = t"
        "(p, i) \<in> tb_child_rel tb" by metis
    with struct_dom [OF assms(1), of p] child_depth [OF assms(1) p(4)] Suc.prems(2)
    obtain ts where "ancestor_loop fuel tb p (acc @ [t]) = Some ((acc @ [t]) @ ts)" "up_chain tb p ts"
      using Suc.IH [of p "acc @ [t]"] by auto
    with e Some p show ?thesis by (auto simp: tb_node_target_def intro!: up_step)
  qed
qed simp

lemma depth_bound:
  assumes "tb_struct tb" "i \<in> set (tb_ordered tb)"
  shows "tb_depth tb i < length (tb_ordered tb)"
proof -
  have "{0..tb_depth tb i} \<subseteq> tb_depth tb ` set (tb_ordered tb)" if "i \<in> set (tb_ordered tb)" for i
    using that
  proof (induction "tb_depth tb i" arbitrary: i)
    case 0
    then show ?case by force
  next
    case (Suc n)
    from ordered_arena [OF assms(1) Suc.prems] obtain e where e: "tb_arena tb i = Some e" by blast
    with Suc.hyps(2) struct_depth0 [OF assms(1) e] obtain t where "tn_parent (an_node e) = Some t"
      by (auto simp: tb_depth_def)
    with tb_parent_child [OF assms(1) e] obtain p f where
      p: "tb_arena tb p = Some f" "(p, i) \<in> tb_child_rel tb" by metis
    then have "p \<in> set (tb_ordered tb)" "tb_depth tb i = Suc (tb_depth tb p)"
      using struct_dom [OF assms(1), of p] child_depth [OF assms(1) p(2)] by auto
    moreover from this Suc.hyps have "{0..tb_depth tb p} \<subseteq> tb_depth tb ` set (tb_ordered tb)" by simp
    moreover have "{0..Suc (tb_depth tb p)} = insert (Suc (tb_depth tb p)) {0..tb_depth tb p}" by auto
    ultimately show ?case using Suc.prems by (metis image_eqI insert_subset)
  qed
  from this [OF assms(2)] have "card {0..tb_depth tb i} \<le> card (tb_depth tb ` set (tb_ordered tb))"
    by (intro card_mono) simp_all
  also have "\<dots> \<le> length (tb_ordered tb)" by (meson List.finite_set card_image_le card_length le_trans)
  finally show ?thesis by simp
qed

lemma up_chain_targets:
  assumes "tb_struct tb" "up_chain tb i ts"
  shows "set ts = {t. \<exists>a. (a, i) \<in> (tb_child_rel tb)\<^sup>+ \<and> tb_node_target tb a = Some t}"
  using assms(2)
proof (induction rule: up_chain.induct)
  case (up_root i e)
  then show ?case by (auto simp: tb_child_iff [OF assms(1)] node_parent_def dest!: tranclD2)
next
  case (up_step q i t ts)
  have "(a, i) \<in> (tb_child_rel tb)\<^sup>+ \<longleftrightarrow> a = q \<or> (a, q) \<in> (tb_child_rel tb)\<^sup>+" for a
    using up_step.hyps(1) tb_kids_unique [OF assms(1) _ up_step.hyps(1)]
    by (metis rtranclD tranclD2 trancl.simps)
  with up_step show ?case by auto
qed

text \<open>The shallowest collapsed ancestor has only expanded ones above it.\<close>

lemma find_append: "List.find p (xs @ ys) = (case List.find p xs of None \<Rightarrow> List.find p ys | Some x \<Rightarrow> Some x)"
  by (induction xs) auto

lemma up_chain_shallowest:
  assumes "tb_struct tb" "up_chain tb i ts" "List.find (\<lambda>a. a \<notin> tb_expanded tb) (rev ts) = Some t"
  shows "\<exists>a. (a, i) \<in> (tb_child_rel tb)\<^sup>+ \<and> tb_node_target tb a = Some t
    \<and> (\<forall>b. (b, a) \<in> (tb_child_rel tb)\<^sup>+ \<longrightarrow> node_expanded tb b)"
  using assms(2,3)
proof (induction rule: up_chain.induct)
  case (up_step q i t' ts)
  show ?case
  proof (cases "List.find (\<lambda>a. a \<notin> tb_expanded tb) (rev ts)")
    case None
    then have all: "set ts \<subseteq> tb_expanded tb" by (auto simp: find_None_iff)
    have "node_expanded tb b" if "(b, q) \<in> (tb_child_rel tb)\<^sup>+" for b
    proof -
      from that have "\<exists>u. tb_node_target tb b = Some u"
        by (auto simp: child_rel_iff skel_Some tb_node_target_def dest!: tranclD)
      then obtain u where "tb_node_target tb b = Some u" by blast
      with that all up_chain_targets [OF assms(1) up_step.hyps(3)] show ?thesis
        by (auto simp: node_expanded_def)
    qed
    moreover have "t = t'" using up_step.prems None by (simp add: find_append split: if_splits)
    ultimately show ?thesis using up_step.hyps by blast
  next
    case (Some u)
    with up_step.prems have "List.find (\<lambda>a. a \<notin> tb_expanded tb) (rev ts) = Some t"
      by (simp add: find_append)
    from up_step.IH [OF this] up_step.hyps(1) show ?thesis by (meson trancl.trancl_into_trancl)
  qed
qed simp

end
