(* ===== verification/Tree_Rebuild.thy ===== *)
theory Tree_Rebuild
  imports Tree_Reconcile
begin

text \<open>
  The arena built from an accepted projection: allocation, the links and the depths in closed
  form, and that the result has the structure \<open>tb_struct\<close> asks for.
\<close>

section \<open>Allocation\<close>

definition node_ids :: "'a tree_node list \<Rightarrow> nat \<Rightarrow> nat list" where
  "node_ids ns n0 = [n0..<n0 + length ns]"

definition id_of :: "'a tree_node list \<Rightarrow> nat \<Rightarrow> 'a \<Rightarrow> nat option" where
  "id_of ns n0 t = map_option (\<lambda>k. n0 + k) (position (\<lambda>n. tn_target n = t) ns)"

definition parent_at :: "'a tree_node list \<Rightarrow> nat \<Rightarrow> nat \<Rightarrow> 'a option" where
  "parent_at ns n0 j = tn_parent (ns ! (j - n0))"

lemma allocate_closed:
  "distinct (map tn_target ns) \<Longrightarrow>
   allocate_nodes ns fo n0 =
     (fo\<lparr>fo_arena := (\<lambda>j. if n0 \<le> j \<and> j < n0 + length ns
            then Some \<lparr>an_node = ns ! (j - n0), an_children = [], an_depth = 0, an_root_index = 0\<rparr>
            else fo_arena fo j),
         fo_target_to_node := (\<lambda>t. opt_or (id_of ns n0 t) (fo_target_to_node fo t)),
         fo_ordered := fo_ordered fo @ node_ids ns n0\<rparr>, n0 + length ns)"
proof (induction ns arbitrary: fo n0)
  case Nil
  then show ?case by (auto simp: id_of_def node_ids_def fun_eq_iff intro!: forest.equality)
next
  case (Cons n ns)
  have "\<forall>m\<in>set ns. tn_target m \<noteq> tn_target n" using Cons.prems by (metis distinct.simps(2) image_eqI list.set_map list.simps(9))
  then have none: "position (\<lambda>m. tn_target m = tn_target n) ns = None" by simp
  have ids: "opt_or (id_of ns (Suc n0) t) (if t = tn_target n then Some n0 else x)
      = opt_or (id_of (n # ns) n0 t) x" for t x
  proof (cases "t = tn_target n")
    case True
    with none show ?thesis by (simp add: id_of_def del: position_None)
  next
    case False
    then show ?thesis by (cases "position (\<lambda>n. tn_target n = t) ns") (simp_all add: id_of_def del: position_None)
  qed
  have arena: "(if Suc n0 \<le> j \<and> j < Suc n0 + length ns then Some (F (ns ! (j - Suc n0)))
        else (a(n0 \<mapsto> F n)) j)
      = (if n0 \<le> j \<and> j < n0 + length (n # ns) then Some (F ((n # ns) ! (j - n0))) else a j)"
    for j and F :: "'a tree_node \<Rightarrow> 'a arena_node" and a
  proof (cases "n0 < j")
    case True
    then have "j - n0 = Suc (j - Suc n0)" by simp
    with True show ?thesis by simp
  qed auto
  have upt: "xs @ [n0] @ node_ids ns (Suc n0) = xs @ node_ids (n # ns) n0" for xs
    by (simp add: node_ids_def upt_conv_Cons del: upt_Suc)
  show ?case
    using Cons by (simp add: fun_upd_def [symmetric] upt [simplified])
      (simp add: fun_eq_iff ids arena [simplified])
qed

section \<open>Links\<close>

text \<open>The forest once the nodes \<open>xs\<close> are linked.\<close>

definition linked_node :: "'a tree_node list \<Rightarrow> nat \<Rightarrow> nat list \<Rightarrow> nat \<Rightarrow> 'a arena_node" where
  "linked_node ns n0 xs j =
     \<lparr>an_node = ns ! (j - n0),
      an_children = filter (\<lambda>c. parent_at ns n0 c = Some (tn_target (ns ! (j - n0)))) xs,
      an_depth = 0, an_root_index = 0\<rparr>"

definition linked :: "'a tree_node list \<Rightarrow> nat \<Rightarrow> nat list \<Rightarrow> 'a forest" where
  "linked ns n0 xs =
     \<lparr>fo_arena = (\<lambda>j. if n0 \<le> j \<and> j < n0 + length ns then Some (linked_node ns n0 xs j) else None),
      fo_target_to_node = id_of ns n0, fo_ordered = node_ids ns n0,
      fo_roots = filter (\<lambda>c. parent_at ns n0 c = None) xs\<rparr>"

lemma id_of_Some:
  assumes "distinct (map tn_target ns)"
  shows "id_of ns n0 t = Some j \<longleftrightarrow> n0 \<le> j \<and> j < n0 + length ns \<and> tn_target (ns ! (j - n0)) = t"
proof
  show "id_of ns n0 t = Some j \<Longrightarrow> n0 \<le> j \<and> j < n0 + length ns \<and> tn_target (ns ! (j - n0)) = t"
    by (auto simp: id_of_def position_Some_iff)
  assume "n0 \<le> j \<and> j < n0 + length ns \<and> tn_target (ns ! (j - n0)) = t"
  then have "j - n0 < length ns" "tn_target (ns ! (j - n0)) = t" "n0 + (j - n0) = j" by auto
  with position_distinct [OF assms this(1,2)] show "id_of ns n0 t = Some j" by (simp add: id_of_def)
qed

lemma parent_present:
  assumes "forest_ok ns" "j < length ns" "tn_parent (ns ! j) = Some p"
  shows "\<exists>q. id_of ns n0 p = Some q"
proof -
  from assms have "p \<in> set (map tn_target ns)" by (auto simp: forest_ok_def)
  then have "position (\<lambda>n. tn_target n = p) ns \<noteq> None" unfolding position_None by auto
  then obtain k where "position (\<lambda>n. tn_target n = p) ns = Some k" by blast
  then show ?thesis by (simp add: id_of_def)
qed

lemma link_node_linked:
  assumes ok: "forest_ok ns" and i: "i \<in> set (node_ids ns n0)"
  shows "link_node i (linked ns n0 xs) = Some (linked ns n0 (xs @ [i]))"
proof (cases "parent_at ns n0 i")
  case None
  then have same: "linked_node ns n0 (xs @ [i]) = linked_node ns n0 xs"
    by (simp add: linked_node_def fun_eq_iff)
  have "fo_arena (linked ns n0 xs) i = Some (linked_node ns n0 xs i)"
    using i by (simp add: linked_def node_ids_def)
  moreover have "tn_parent (an_node (linked_node ns n0 xs i)) = None"
    using None by (simp add: linked_node_def parent_at_def)
  ultimately have "link_node i (linked ns n0 xs)
      = Some ((linked ns n0 xs)\<lparr>fo_roots := fo_roots (linked ns n0 xs) @ [i]\<rparr>)"
    by (simp add: link_node_def)
  with None same show ?thesis by (simp add: linked_def cong: if_cong)
next
  case (Some p)
  have dist: "distinct (map tn_target ns)" using ok by (simp add: forest_ok_def)
  from i have range: "n0 \<le> i" "i < n0 + length ns" by (simp_all add: node_ids_def)
  then have "i - n0 < length ns" by simp
  then obtain q where q: "id_of ns n0 p = Some q"
    using parent_present [OF ok _ Some [unfolded parent_at_def]] by blast
  then have qr: "n0 \<le> q" "q < n0 + length ns" "tn_target (ns ! (q - n0)) = p"
    by (simp_all add: id_of_Some [OF dist])
  have "linked_node ns n0 (xs @ [i]) j
      = (if j = q then linked_node ns n0 xs q\<lparr>an_children := an_children (linked_node ns n0 xs q) @ [i]\<rparr>
         else linked_node ns n0 xs j)" if "n0 \<le> j" "j < n0 + length ns" for j
  proof (cases "j = q")
    case True
    with Some qr show ?thesis by (simp add: linked_node_def)
  next
    case False
    with that q id_of_Some [OF dist, of n0 p j] have "tn_target (ns ! (j - n0)) \<noteq> p" by auto
    with False Some show ?thesis by (simp add: linked_node_def)
  qed
  then have arena: "(fo_arena (linked ns n0 xs))(q \<mapsto>
      linked_node ns n0 xs q\<lparr>an_children := an_children (linked_node ns n0 xs q) @ [i]\<rparr>)
    = fo_arena (linked ns n0 (xs @ [i]))"
    using qr by (auto simp: linked_def fun_eq_iff)
  have "link_node i (linked ns n0 xs)
    = Some ((linked ns n0 xs)\<lparr>fo_arena := fo_arena (linked ns n0 (xs @ [i]))\<rparr>)"
    using Some q qr range unfolding arena [symmetric]
    by (simp add: link_node_def linked_def linked_node_def [of ns n0 xs i] parent_at_def)
  also have "(linked ns n0 xs)\<lparr>fo_arena := fo_arena (linked ns n0 (xs @ [i]))\<rparr> = linked ns n0 (xs @ [i])"
    using Some by (simp add: linked_def)
  finally show ?thesis .
qed

lemma link_fold:
  "forest_ok ns \<Longrightarrow> set ys \<subseteq> set (node_ids ns n0) \<Longrightarrow>
    fold_opt link_node ys (linked ns n0 xs) = Some (linked ns n0 (xs @ ys))"
  by (induction ys arbitrary: xs) (simp_all add: link_node_linked)

lemma allocate_linked:
  assumes "forest_ok ns"
  shows "allocate_nodes ns empty_forest n0 = (linked ns n0 [], n0 + length ns)"
proof -
  have "opt_or (id_of ns n0 t) None = id_of ns n0 t" for t
    by (cases "id_of ns n0 t") simp_all
  with allocate_closed [of ns empty_forest n0] assms show ?thesis
    by (simp add: forest_ok_def empty_forest_def linked_def linked_node_def cong: if_cong)
qed

lemma link_parents_linked:
  "forest_ok ns \<Longrightarrow> link_parent_nodes (linked ns n0 []) = Some (linked ns n0 (node_ids ns n0))"
  using link_fold [of ns "node_ids ns n0" n0 "[]"] by (simp add: link_parent_nodes_def linked_def)

section \<open>Depths\<close>

abbreviation full :: "'a tree_node list \<Rightarrow> nat \<Rightarrow> 'a forest" where
  "full ns n0 \<equiv> linked ns n0 (node_ids ns n0)"

lemma full_arena:
  "fo_arena (full ns n0) j = (if j \<in> set (node_ids ns n0) then Some (linked_node ns n0 (node_ids ns n0) j) else None)"
  by (simp add: linked_def node_ids_def)

lemma full_child:
  "(p, c) \<in> child_rel (skel (fo_arena (full ns n0))) \<longleftrightarrow>
    p \<in> set (node_ids ns n0) \<and> c \<in> set (node_ids ns n0)
    \<and> parent_at ns n0 c = Some (tn_target (ns ! (p - n0)))"
  by (auto simp: child_rel_iff skel_def full_arena linked_node_def)

lemma full_child_parent:
  assumes "(p, c) \<in> child_rel (skel (fo_arena (full ns n0)))"
  shows "(tn_target (ns ! (c - n0)), tn_target (ns ! (p - n0))) \<in> parent_rel ns"
proof -
  from assms have "c - n0 < length ns" "tn_parent (ns ! (c - n0)) = Some (tn_target (ns ! (p - n0)))"
    unfolding full_child by (auto simp: node_ids_def parent_at_def)
  then show ?thesis by (force simp: parent_rel_def)
qed

lemma full_finite: "finite (child_rel (skel (fo_arena (full ns n0))))"
  by (rule finite_subset [of _ "set (node_ids ns n0) \<times> set (node_ids ns n0)"]) (auto simp: full_child)

lemma full_acyclic:
  assumes "forest_ok ns" shows "acyclic (child_rel (skel (fo_arena (full ns n0))))"
proof -
  have "(tn_target (ns ! (c - n0)), tn_target (ns ! (p - n0))) \<in> (parent_rel ns)\<^sup>+"
    if "(p, c) \<in> (child_rel (skel (fo_arena (full ns n0))))\<^sup>+" for p c
    using that by (induction rule: trancl_induct)
      (auto dest: full_child_parent intro: trancl_into_trancl2)
  with assms show ?thesis unfolding forest_ok_def acyclic_def by blast
qed

definition built_ok :: "'a tree_node list \<times> nat \<Rightarrow> bool" where
  "built_ok b \<longleftrightarrow> forest_ok (fst b)"

definition built_kids :: "'a tree_node list \<times> nat \<Rightarrow> kids" where
  "built_kids b = skel (fo_arena (full (fst b) (snd b)))"

interpretation trl: rooted_forest built_ok "\<lambda>b. node_ids (fst b) (snd b)" built_kids
proof unfold_locales
  fix b :: "'a tree_node list \<times> nat" and i j c ks ls
  assume ok: "built_ok b"
  obtain ns n0 where b: "b = (ns, n0)" by (cases b)
  show "built_kids b i \<noteq> None \<longleftrightarrow> i \<in> set (node_ids (fst b) (snd b))"
    by (simp add: b built_kids_def skel_def full_arena)
  show "distinct ks \<and> set ks \<subseteq> set (node_ids (fst b) (snd b))" if "built_kids b i = Some ks"
  proof -
    from that have "ks = filter (\<lambda>c. parent_at ns n0 c = Some (tn_target (ns ! (i - n0)))) (node_ids ns n0)"
      by (auto simp: b built_kids_def skel_def full_arena linked_node_def split: if_splits)
    moreover have "distinct (node_ids ns n0)" by (simp add: node_ids_def)
    ultimately show ?thesis by (simp add: b)
  qed
  show "i = j" if "built_kids b i = Some ks" "built_kids b j = Some ls" "c \<in> set ks" "c \<in> set ls"
  proof -
    from that have "(i, c) \<in> child_rel (built_kids b)" "(j, c) \<in> child_rel (built_kids b)"
      by (auto simp: child_rel_iff)
    then have ij: "i - n0 < length ns" "j - n0 < length ns" "n0 \<le> i" "n0 \<le> j"
      "tn_target (ns ! (i - n0)) = tn_target (ns ! (j - n0))"
      unfolding b built_kids_def fst_conv snd_conv full_child by (auto simp: node_ids_def)
    moreover have "distinct (map tn_target ns)" using ok by (simp add: b built_ok_def forest_ok_def)
    ultimately have "i - n0 = j - n0" by (metis length_map nth_eq_iff_index_eq nth_map)
    with ij show ?thesis by simp
  qed
  have "finite ((child_rel (built_kids b))\<inverse>)" "acyclic ((child_rel (built_kids b))\<inverse>)"
    using ok full_finite full_acyclic by (simp_all add: b built_kids_def built_ok_def)
  then show "wf ((child_rel (built_kids b))\<inverse>)" by (rule finite_acyclic_wf)
qed

lemma built_reached:
  assumes "forest_ok ns" "i \<in> set (node_ids ns n0)"
  shows "\<exists>r\<in>set (fo_roots (full ns n0)). (r, i) \<in> (child_rel (built_kids (ns, n0)))\<^sup>*"
proof -
  have "wf (child_rel (built_kids (ns, n0)))"
    unfolding built_kids_def fst_conv snd_conv
    by (rule finite_acyclic_wf [OF full_finite full_acyclic [OF assms(1)]])
  then show ?thesis
    using assms(2)
  proof (induction i rule: wf_induct_rule)
    case (less i)
    show ?case
    proof (cases "parent_at ns n0 i")
      case None
      with less.prems show ?thesis by (auto simp: linked_def)
    next
      case (Some p)
      from less.prems have i: "i - n0 < length ns" by (auto simp: node_ids_def)
      with parent_present [OF assms(1) i Some [unfolded parent_at_def]]
      obtain q where q: "id_of ns n0 p = Some q" by blast
      then have "q \<in> set (node_ids ns n0)" "tn_target (ns ! (q - n0)) = p"
        using assms(1) by (auto simp: id_of_Some forest_ok_def node_ids_def)
      with Some less.prems have step: "(q, i) \<in> child_rel (built_kids (ns, n0))" "q \<in> set (node_ids ns n0)"
        by (simp_all add: built_kids_def full_child)
      from less.IH [OF this] step(1) show ?thesis by (meson rtrancl.rtrancl_into_rtrancl)
    qed
  qed
qed

definition depth_stack :: "'a forest \<Rightarrow> (nat \<times> usize \<times> usize) list" where
  "depth_stack fo = rev (map (\<lambda>(root_index, i). (i, 0, root_index)) (enumerate 0 (fo_roots fo)))"

lemma depth_stack_ids: "ids (depth_stack fo) = rev (fo_roots fo)"
proof -
  have "map (\<lambda>x. fst (case x of (root_index, i) \<Rightarrow> (i, 0 :: nat, root_index))) (enumerate k xs) = xs" for k and xs :: "nat list"
    by (induction xs arbitrary: k) simp_all
  then show ?thesis by (simp add: depth_stack_def rev_map [symmetric] comp_def)
qed

lemma depth_stack_zero: "(i, d, r) \<in> set (depth_stack fo) \<Longrightarrow> d = 0"
  by (auto simp: depth_stack_def)

lemma map_of_distinct_iff:
  "distinct (map fst w) \<Longrightarrow> map_of (rev w) j = Some x \<longleftrightarrow> (j, x) \<in> set w"
  using map_of_eq_Some_iff [of "rev w" j x] by (simp add: rev_map [symmetric])

lemma rebuilt:
  assumes "forest_ok ns"
  obtains w where "tb_rebuild_forest ns n0 = Some ((full ns n0)\<lparr>fo_arena := relabel w (fo_arena (full ns n0))\<rparr>, n0 + length ns)"
    "distinct (ids w)" "set (ids w) = set (node_ids ns n0)"
    "\<And>r. r \<in> set (fo_roots (full ns n0)) \<Longrightarrow> \<exists>k. (r, 0, k) \<in> set w"
    "\<And>p c d k. (p, d, k) \<in> set w \<Longrightarrow> (p, c) \<in> child_rel (built_kids (ns, n0)) \<Longrightarrow> (c, Suc d, k) \<in> set w"
proof -
  let ?b = "(ns, n0)" and ?fo = "full ns n0" and ?st = "depth_stack (full ns n0)"
  have ok: "built_ok ?b" using assms by (simp add: built_ok_def)
  have roots: "set (fo_roots ?fo) \<subseteq> set (node_ids ns n0)" by (auto simp: linked_def)
  then obtain w where w: "walk (built_kids ?b) ?st w"
    using trl.walk_exists [OF ok, of ?st] by (auto simp: depth_stack_ids)
  have apart: "trl.apart ?b (ids ?st)"
  proof (rule trl.apart_orphans)
    show "distinct (ids ?st)" by (simp add: depth_stack_ids linked_def node_ids_def)
    fix c p assume "c \<in> set (ids ?st)"
    then have "parent_at ns n0 c = None" by (simp add: depth_stack_ids linked_def)
    then show "(p, c) \<notin> child_rel (built_kids ?b)" by (simp add: built_kids_def full_child)
  qed
  have le: "length w \<le> length (node_ids ns n0)" using trl.walk_bound [OF ok w apart] by simp
  define k where "k = Suc (length (node_ids ns n0)) - length w"
  have k: "Suc (length (fo_ordered ?fo)) = k + length w"
    using le by (simp add: linked_def k_def)
  have "depth_loop (k + length w) (?st @ []) (fo_arena ?fo) = depth_loop k [] (relabel w (fo_arena ?fo))"
    by (rule depth_loop_walk [OF w]) (simp add: built_kids_def)
  then have "compute_forest_depths ?fo = Some (?fo\<lparr>fo_arena := relabel w (fo_arena ?fo)\<rparr>)"
    using k by (simp add: compute_forest_depths_def depth_stack_def)
  then have rb: "tb_rebuild_forest ns n0
      = Some (?fo\<lparr>fo_arena := relabel w (fo_arena ?fo)\<rparr>, n0 + length ns)"
    by (simp add: tb_rebuild_forest_def allocate_linked [OF assms] link_parents_linked [OF assms])
  have "set (ids w) = set (node_ids ns n0)"
  proof
    show "set (ids w) \<subseteq> set (node_ids ns n0)" using trl.walk_in_nodes [OF ok w] by simp
    show "set (node_ids ns n0) \<subseteq> set (ids w)"
      unfolding walk_ids [OF w] depth_stack_ids using built_reached [OF assms] by auto
  qed
  moreover have "\<exists>k. (r, 0, k) \<in> set w" if "r \<in> set (fo_roots ?fo)" for r
  proof -
    from that have "r \<in> set (ids ?st)" by (simp add: depth_stack_ids)
    then obtain d k where "(r, d, k) \<in> set ?st" by auto
    with depth_stack_zero walk_starts [OF w] show ?thesis by blast
  qed
  moreover have "(c, Suc d, k) \<in> set w"
    if "(p, d, k) \<in> set w" "(p, c) \<in> child_rel (built_kids ?b)" for p c d k
    using that walk_closed [OF w] by (auto simp: child_rel_iff)
  ultimately show thesis using that rb trl.walk_distinct [OF ok w apart] by blast
qed

end
