(* ===== verification/Tree_Paint.thy ===== *)
theory Tree_Paint
  imports Tree_Operations
begin

text \<open>
  Painting the tree browser (\<^verbatim>\<open>tree_browser/operations/paint.rs\<close> and \<^verbatim>\<open>render.rs\<close>): the rows
  handed to the renderer, the pointer targets kept of the frame, and \<^verbatim>\<open>view\<close>. The renderer
  itself draws on the terminal and is left out.
\<close>

section \<open>Painted rows\<close>

datatype tree_aggregate_mark = Aggregate_None | Aggregate_Partial | Aggregate_Full
datatype tree_paint_row_kind = Paint_Node | Paint_Heading | Paint_Spacer

record tree_paint_row =
  pr_kind :: tree_paint_row_kind
  pr_title :: string
  pr_title_role :: tree_title_role
  pr_trailing :: "string option"
  pr_depth :: usize
  pr_root_index :: usize
  pr_group_root_index :: usize
  pr_zebra_striped :: bool
  pr_selected :: bool
  pr_marked :: bool
  pr_aggregate_mark :: tree_aggregate_mark
  pr_semantic_state :: media_semantic_state

definition tree_row_is_full_width :: "bool \<Rightarrow> bool \<Rightarrow> bool" where
  "tree_row_is_full_width selected marked \<longleftrightarrow> selected \<or> marked"

record stripe_state =
  ss_rows :: "tree_paint_row list"
  ss_group_root_index :: usize
  ss_group_item_index :: usize

definition structural_paint_row :: "structural_row \<Rightarrow> usize \<Rightarrow> usize \<Rightarrow> tree_paint_row" where
  "structural_paint_row structure root_index group_root_index =
     (let (kind, title) = (case structure of Row_Heading title \<Rightarrow> (Paint_Heading, title)
                                           | Row_Spacer \<Rightarrow> (Paint_Spacer, []))
      in \<lparr>pr_kind = kind, pr_title = title, pr_title_role = Title_Standard, pr_trailing = None,
          pr_depth = 0, pr_root_index = root_index, pr_group_root_index = group_root_index,
          pr_zebra_striped = False, pr_selected = False, pr_marked = False,
          pr_aggregate_mark = Aggregate_None, pr_semantic_state = MS_Ordinary\<rparr>)"

definition tb_grouped :: "'a tree_browser \<Rightarrow> bool" where
  "tb_grouped tb \<longleftrightarrow>
     (\<exists>structures\<in>set (map snd (tb_root_structures tb)).
        \<exists>s\<in>set structures. case s of Row_Heading title \<Rightarrow> True | Row_Spacer \<Rightarrow> False)"

definition paint_step ::
  "'a tree_browser \<Rightarrow> usize \<times> visible_row \<Rightarrow> stripe_state \<Rightarrow> stripe_state option" where
  "paint_step tb indexed st =
     (let (flow_index, visible) = indexed in
      case visible of
        Visible_Structural root index \<Rightarrow>
          (case tb_arena tb root of
             None \<Rightarrow> Some st
           | Some e \<Rightarrow>
               (case Option.bind (map_of (tb_root_structures tb) (tn_target (an_node e)))
                       (\<lambda>structures. nth_opt structures index) of
                  None \<Rightarrow> Some st
                | Some structure \<Rightarrow>
                    (let st1 = (case structure of
                          Row_Heading title \<Rightarrow>
                            st\<lparr>ss_group_root_index := an_root_index e, ss_group_item_index := 0\<rparr>
                        | Row_Spacer \<Rightarrow> st)
                     in Some (if flow_index \<ge> tb_viewport_offset tb
                          then st1\<lparr>ss_rows := ss_rows st1
                                 @ [structural_paint_row structure (an_root_index e)
                                      (ss_group_root_index st1)]\<rparr>
                          else st1))))
      | Visible_Node i \<Rightarrow>
          (case tb_arena tb i of
             None \<Rightarrow> Some st
           | Some e \<Rightarrow>
               (let t = tn_target (an_node e);
                    zebra_striped = (if tb_grouped tb then ss_group_item_index st mod 2 = 0
                                     else (an_root_index e - ss_group_root_index st) mod 2 = 0);
                    st1 = (if tb_grouped tb
                           then st\<lparr>ss_group_item_index := ss_group_item_index st + 1\<rparr> else st)
                in if flow_index < tb_viewport_offset tb then Some st1
                   else do {
                     aggregate_mark \<leftarrow>
                       (if tn_mark_policy (an_node e) = Mark_Aggregate
                        then map_option (\<lambda>a. case a of Agg_Marked \<Rightarrow> Aggregate_Full
                               | Agg_Partial \<Rightarrow> Aggregate_Partial | Agg_Unmarked \<Rightarrow> Aggregate_None)
                             (tb_aggregate_mark_state_for tb t)
                        else Some Aggregate_None);
                     Some (st1\<lparr>ss_rows := ss_rows st1
                       @ [\<lparr>pr_kind = Paint_Node, pr_title = tn_title (an_node e),
                           pr_title_role = tn_title_role (an_node e),
                           pr_trailing = map_option tt_text (tn_trailing (an_node e)),
                           pr_depth = an_depth e, pr_root_index = an_root_index e,
                           pr_group_root_index = ss_group_root_index st1,
                           pr_zebra_striped = zebra_striped,
                           pr_selected = (tb_selected tb = Some t),
                           pr_marked = marks_contains t (tb_marks tb),
                           pr_aggregate_mark = aggregate_mark,
                           pr_semantic_state = tn_semantic_state (an_node e)\<rparr>]\<rparr>)
                   })))"

definition tb_visible_rows :: "visible_row list \<Rightarrow> 'a tree_browser \<Rightarrow> tree_paint_row list option" where
  "tb_visible_rows visible_rows tb =
     map_option ss_rows (fold_opt (paint_step tb) (enumerate 0 visible_rows)
       \<lparr>ss_rows = [], ss_group_root_index = 0, ss_group_item_index = 0\<rparr>)"

section \<open>Pointer targets\<close>

text \<open>\<^verbatim>\<open>y.checked_add(u16::try_from(index).unwrap_or(u16::MAX))\<close>.\<close>

definition row_y :: "16 word \<Rightarrow> usize \<Rightarrow> 16 word option" where
  "row_y y index =
     (let n = unat y + min index 65535 in if n \<le> 65535 then Some (word_of_nat n) else None)"

definition tb_retained_row ::
  "geometry \<Rightarrow> visible_row \<Rightarrow> usize \<Rightarrow> rect \<Rightarrow> rect \<Rightarrow> 'a tree_browser \<Rightarrow> (rect \<times> 'a) option" where
  "tb_retained_row geo row index claim content tb =
     (case row of
        Visible_Structural r k \<Rightarrow> None
      | Visible_Node i \<Rightarrow> do {
          y \<leftarrow> row_y (rect_y content) index;
          if y \<ge> geo_bottom geo content then None
          else do {
            t \<leftarrow> tb_node_target tb i;
            let marked = marks_contains t (tb_marks tb);
            let selected = (tb_focused tb \<and> tb_selected tb = Some t);
            Some (if tree_row_is_full_width selected marked
                  then geo_new geo (rect_x claim) y (rect_width claim) 1
                  else geo_new geo (rect_x content) y (rect_width content) 1, t)
          }
        })"

definition tb_retained_rows ::
  "geometry \<Rightarrow> visible_row list \<Rightarrow> rect \<Rightarrow> rect \<Rightarrow> 'a tree_browser \<Rightarrow> (rect \<times> 'a) list" where
  "tb_retained_rows geo visible_rows claim content tb =
     List.map_filter (\<lambda>(index, row). tb_retained_row geo row index claim content tb)
       (enumerate 0 (drop (tb_viewport_offset tb) visible_rows))"

section \<open>The frame\<close>

definition tb_view :: "geometry \<Rightarrow> rect \<Rightarrow> 'a tree_browser \<Rightarrow> (tree_paint_row list \<times> 'a tree_browser) option" where
  "tb_view geo area tb = do {
     let (claim, content) = (case tb_configured_geometry tb of None \<Rightarrow> (area, area) | Some g \<Rightarrow> g);
     tb1 \<leftarrow> tb_reconcile_selection_with_height (Some (unat (rect_height content))) tb;
     let tb2 = tb1\<lparr>tb_paint := paint_begin (tb_paint tb1)\<rparr>;
     visible_rows \<leftarrow> tb_visible_flow_rows tb2;
     rows \<leftarrow> tb_visible_rows visible_rows tb2;
     let selected_row = map_option (\<lambda>y. geo_new geo (rect_x content) y (rect_width content) 1)
           (Option.bind (position pr_selected rows) (row_y (rect_y content)));
     Some (rows, tb2\<lparr>tb_paint := store_completed claim content
              (tb_retained_rows geo visible_rows claim content tb2) selected_row (tb_paint tb2)\<rparr>)
   }"

end
