(* ===== verification/Tree_Laws.thy ===== *)
theory Tree_Laws
  imports Tree_Rebuild Tree_Paint
begin

text \<open>
  The invariant of the tree browser and that every public operation returns and keeps it; the
  browser as an instance of the cursor and viewport contracts of \<open>List_Flow\<close>; and what
  reconciliation, the visible flow, expansion, the restored position, marks and the wheel do.
\<close>

section \<open>The rebuilt arena\<close>

lemma relabel_Some:
  assumes "distinct (ids w)" "a j = Some e" "(j, d, r) \<in> set w"
  shows "relabel w a j = Some (e\<lparr>an_depth := d, an_root_index := r\<rparr>)"
  using map_of_distinct_iff [OF assms(1), of j "(d, r)"] assms by (simp add: relabel_def)

lemma relabel_None: "a j = None \<Longrightarrow> relabel w a j = None"
  by (simp add: relabel_def)

lemma built_struct:
  assumes ok: "forest_ok ns" and w: "distinct (ids w)" "set (ids w) = set (node_ids ns n0)"
    "\<And>r. r \<in> set (fo_roots (full ns n0)) \<Longrightarrow> \<exists>k. (r, 0, k) \<in> set w"
    "\<And>p c d k. (p, d, k) \<in> set w \<Longrightarrow> (p, c) \<in> child_rel (built_kids (ns, n0)) \<Longrightarrow> (c, Suc d, k) \<in> set w"
    and tb: "tb_arena tb = relabel w (fo_arena (full ns n0))" "tb_target_to_node tb = id_of ns n0"
    "tb_ordered tb = node_ids ns n0" "tb_roots tb = fo_roots (full ns n0)"
  shows "tb_struct tb"
proof -
  have dist: "distinct (map tn_target ns)" using ok by (simp add: forest_ok_def)
  have node: "\<exists>e d r. (j, d, r) \<in> set w \<and> tb_arena tb j = Some e \<and> an_node e = ns ! (j - n0)
      \<and> an_children e = an_children (linked_node ns n0 (node_ids ns n0) j) \<and> an_depth e = d"
    if "j \<in> set (node_ids ns n0)" for j
  proof -
    from that w(2) obtain d r where jd: "(j, d, r) \<in> set w" by force
    have "fo_arena (full ns n0) j = Some (linked_node ns n0 (node_ids ns n0) j)"
      using that by (simp add: full_arena)
    from relabel_Some [where a = "fo_arena (full ns n0)", OF w(1) this jd] jd show ?thesis
      by (auto simp: tb linked_node_def)
  qed
  have none: "tb_arena tb j = None" if "j \<notin> set (node_ids ns n0)" for j
    using that by (simp add: tb relabel_None full_arena)
  have parent: "node_parent tb j = parent_at ns n0 j" if "j \<in> set (node_ids ns n0)" for j
    using node [OF that] by (auto simp: node_parent_def parent_at_def)
  have target: "tb_node_target tb j = Some t \<longleftrightarrow> id_of ns n0 t = Some j" for j t
  proof (cases "j \<in> set (node_ids ns n0)")
    case True
    with node [OF True] show ?thesis
      by (auto simp: tb_node_target_def id_of_Some [OF dist] node_ids_def)
  next
    case False
    with none [OF False] show ?thesis
      by (auto simp: tb_node_target_def id_of_Some [OF dist] node_ids_def)
  qed
  have depths: "\<exists>q f. tb_target_to_node tb p = Some q \<and> tb_arena tb q = Some f \<and> an_depth e = Suc (an_depth f)"
    if e: "tb_arena tb i = Some e" "tn_parent (an_node e) = Some p" for i e p
  proof -
    have i: "i \<in> set (node_ids ns n0)" using none [of i] e(1) by fastforce
    with e parent [OF i] have pi: "parent_at ns n0 i = Some p" by (simp add: node_parent_def)
    moreover from i have il: "i - n0 < length ns" by (auto simp: node_ids_def)
    ultimately obtain q where q: "id_of ns n0 p = Some q"
      using parent_present [OF ok il] unfolding parent_at_def by blast
    then have qs: "q \<in> set (node_ids ns n0)" "tn_target (ns ! (q - n0)) = p"
      by (auto simp: id_of_Some [OF dist] node_ids_def)
    with i pi have "(q, i) \<in> child_rel (built_kids (ns, n0))" by (simp add: built_kids_def full_child)
    moreover obtain f d r where f: "(q, d, r) \<in> set w" "tb_arena tb q = Some f" "an_depth f = d"
      using node [OF qs(1)] by blast
    ultimately have "(i, Suc d, r) \<in> set w" using w(4) by blast
    moreover obtain d' r' where "(i, d', r') \<in> set w" "an_depth e = d'" using node [OF i] e(1) by auto
    ultimately have "an_depth e = Suc d" using w(1) by (meson eq_key_imp_eq_value prod.inject)
    with q f show ?thesis by (simp add: tb)
  qed
  have roots: "an_depth e = 0" if e: "tb_arena tb i = Some e" "tn_parent (an_node e) = None" for i e
  proof -
    have i: "i \<in> set (node_ids ns n0)" using none [of i] e(1) by fastforce
    with e parent [OF i] have "i \<in> set (fo_roots (full ns n0))" by (simp add: node_parent_def linked_def)
    from w(3) [OF this] obtain k where "(i, 0, k) \<in> set w" by blast
    moreover obtain d' r' where "(i, d', r') \<in> set w" "an_depth e = d'" using node [OF i] e(1) by auto
    ultimately show ?thesis using w(1) by (meson eq_key_imp_eq_value prod.inject)
  qed
  have children: "an_children e = filter (\<lambda>j. node_parent tb j = Some (tn_target (an_node e))) (tb_ordered tb)"
    if e: "tb_arena tb i = Some e" for i e
  proof -
    have i: "i \<in> set (node_ids ns n0)" using none [of i] e by fastforce
    with e node [OF i] have "an_children e
        = filter (\<lambda>c. parent_at ns n0 c = Some (tn_target (an_node e))) (node_ids ns n0)"
      by (auto simp: linked_node_def)
    also have "\<dots> = filter (\<lambda>j. node_parent tb j = Some (tn_target (an_node e))) (tb_ordered tb)"
      unfolding tb(3) by (rule filter_cong) (simp_all add: parent)
    finally show ?thesis .
  qed
  have "tb_roots tb = filter (\<lambda>i. node_parent tb i = None) (tb_ordered tb)"
    unfolding tb(3,4) linked_def forest.simps by (rule filter_cong) (simp_all add: parent)
  moreover have "tb_arena tb i \<noteq> None \<longleftrightarrow> i \<in> set (tb_ordered tb)" for i
    using node [of i] none [of i] by (cases "i \<in> set (node_ids ns n0)") (auto simp: tb(3))
  moreover have "distinct (tb_ordered tb)" by (simp add: tb node_ids_def)
  moreover have "tb_target_to_node tb t = Some i \<longleftrightarrow> tb_node_target tb i = Some t" for t i
    by (simp add: target tb(2))
  ultimately show ?thesis unfolding tb_struct_def using children roots depths by blast
qed

section \<open>What the visible rows depend on\<close>

definition same_rows :: "'a tree_browser \<Rightarrow> 'a tree_browser \<Rightarrow> bool" where
  "same_rows tb tb' \<longleftrightarrow> tb_arena tb' = tb_arena tb \<and> tb_ordered tb' = tb_ordered tb
     \<and> tb_roots tb' = tb_roots tb \<and> tb_root_structures tb' = tb_root_structures tb
     \<and> tb_expanded tb' = tb_expanded tb \<and> tb_filter_active tb' = tb_filter_active tb
     \<and> tb_filter_query tb' = tb_filter_query tb \<and> tb_filter_matches tb' = tb_filter_matches tb"

lemma same_rows_refl [simp]: "same_rows tb tb"
  by (simp add: same_rows_def)

lemma same_matching:
  assumes "same_rows tb tb'"
  shows "has_matching_descendant fuel tb' = has_matching_descendant fuel tb"
proof (induction fuel)
  case (Suc fuel)
  have f: "tb_arena tb' = tb_arena tb" "tb_filter_matches tb' = tb_filter_matches tb"
    using assms by (simp_all add: same_rows_def)
  show ?case unfolding fun_eq_iff has_matching_descendant.simps Suc f by simp
qed (simp add: fun_eq_iff)

lemma same_push:
  assumes "same_rows tb tb'"
  shows "push_visible fuel tb' = push_visible fuel tb"
proof (induction fuel)
  case 0
  show ?case by (simp add: fun_eq_iff push_visible.simps)
next
  case (Suc fuel)
  have f: "tb_filtering tb' = tb_filtering tb" "tree_fuel tb' = tree_fuel tb" "tb_arena tb' = tb_arena tb"
    "tb_filter_matches tb' = tb_filter_matches tb" "tb_expanded tb' = tb_expanded tb"
    using assms by (simp_all add: same_rows_def tb_filtering_def tree_fuel_def)
  show ?case unfolding fun_eq_iff push_visible.simps Suc f same_matching [OF assms] by simp
qed

lemma same_flow:
  assumes "same_rows tb tb'"
  shows "tb_visible_flow_rows tb' = tb_visible_flow_rows tb" "tb_visible_node_ids tb' = tb_visible_node_ids tb"
    "tb_current_flow tb' = tb_current_flow tb" "tb_visible_len tb' = tb_visible_len tb"
proof -
  have t: "tb_node_target tb' = tb_node_target tb"
    using assms by (simp add: same_rows_def tb_node_target_def fun_eq_iff)
  then have r: "structure_rows tb' = structure_rows tb"
    using assms by (simp add: same_rows_def structure_rows_def fun_eq_iff)
  have f: "tree_fuel tb' = tree_fuel tb" "tb_roots tb' = tb_roots tb"
    using assms by (simp_all add: same_rows_def tree_fuel_def)
  show rows: "tb_visible_flow_rows tb' = tb_visible_flow_rows tb"
    unfolding tb_visible_flow_rows_def same_push [OF assms] r f by (rule refl)
  show "tb_visible_node_ids tb' = tb_visible_node_ids tb"
    by (simp add: tb_visible_node_ids_def same_push [OF assms] f)
  have "flow_row_of tb' = flow_row_of tb"
  proof
    show "flow_row_of tb' row = flow_row_of tb row" for row by (cases row) (simp_all add: t)
  qed
  then show "tb_current_flow tb' = tb_current_flow tb" by (simp add: tb_current_flow_def rows)
  show "tb_visible_len tb' = tb_visible_len tb" by (simp add: tb_visible_len_def rows)
qed

definition tb_flow :: "'a tree_browser \<Rightarrow> 'a row_flow" where
  "tb_flow tb = the (tb_current_flow tb)"

definition tb_targets :: "'a tree_browser \<Rightarrow> 'a list" where
  "tb_targets tb = List.map_filter (tb_node_target tb) (filter (tb_shown tb) (tb_all_nodes tb))"

lemma current_flow: "tb_struct tb \<Longrightarrow> tb_current_flow tb = Some (tb_flow tb)"
  by (simp add: tb_flow_def tb_current_flow_def flow_rows_closed)

lemma row_targets_flow:
  "row_targets (map (flow_row_of tb) rows) = List.map_filter (tb_node_target tb) (List.map_filter visible_node rows)"
proof (induction rows)
  case (Cons row rows)
  then show ?case
    by (cases row) (simp_all add: List.map_filter_simps split: option.split)
qed (simp add: List.map_filter_simps)

lemma map_filter_append': "List.map_filter f (xs @ ys) = List.map_filter f xs @ List.map_filter f ys"
  by (simp add: List.map_filter_def)

lemma structure_rows_no_node [simp]: "List.map_filter visible_node (structure_rows tb r) = []"
proof -
  have "List.map_filter visible_node (map (Visible_Structural r) ks) = []" for ks
    by (induction ks) (simp_all add: List.map_filter_simps)
  then show ?thesis by (simp add: structure_rows_def List.map_filter_simps split: option.split)
qed

lemma root_rows_nodes: "List.map_filter visible_node (root_rows tb r) = filter (tb_shown tb) (tb_preorder tb r)"
  by (simp add: root_rows_def Let_def map_filter_append' List.map_filter_simps(2))

lemma flow_nodes:
  "List.map_filter visible_node (concat (map (root_rows tb) rs)) = concat (map (\<lambda>r. filter (tb_shown tb) (tb_preorder tb r)) rs)"
  by (induction rs) (simp_all add: map_filter_append' root_rows_nodes List.map_filter_simps)

lemma flow_targets: "tb_struct tb \<Longrightarrow> rf_targets (tb_flow tb) = tb_targets tb"
  by (simp add: tb_flow_def tb_current_flow_def flow_rows_closed rf_targets_def row_targets_flow
      flow_nodes tb_targets_def tb_all_nodes_def filter_concat comp_def)

lemma targets_known:
  assumes "tb_struct tb" "t \<in> set (tb_targets tb)"
  shows "\<exists>i. tb_target_to_node tb t = Some i \<and> tb_shown tb i \<and> i \<in> set (tb_ordered tb)"
  using assms all_nodes_set [OF assms(1)]
  by (auto simp: tb_targets_def List.map_filter_def struct_ids)

lemma target_listed:
  assumes "tb_struct tb" "tb_target_to_node tb t = Some i" "tb_shown tb i"
  shows "t \<in> set (tb_targets tb)"
proof -
  from assms have nt: "tb_node_target tb i = Some t" by (simp add: struct_ids)
  then have "i \<in> set (tb_ordered tb)" using struct_dom [OF assms(1), of i] by (auto simp: tb_node_target_def)
  with nt assms(3) all_nodes_set [OF assms(1)] show ?thesis
    by (auto simp: tb_targets_def List.map_filter_def intro!: image_eqI [of _ _ i])
qed

section \<open>The shared contracts\<close>

lemma struct_updates [simp]:
  "tb_struct (tb\<lparr>tb_selected := x\<rparr>) = tb_struct tb"
  "tb_struct (tb\<lparr>tb_expanded := ex\<rparr>) = tb_struct tb"
  "tb_struct (tb\<lparr>tb_marks := ms\<rparr>) = tb_struct tb"
  "tb_struct (tb\<lparr>tb_viewport_offset := n\<rparr>) = tb_struct tb"
  "tb_struct (tb\<lparr>tb_viewport_anchor := an\<rparr>) = tb_struct tb"
  "tb_struct (tb\<lparr>tb_configured_geometry := g\<rparr>) = tb_struct tb"
  "tb_struct (tb\<lparr>tb_filter_active := b\<rparr>) = tb_struct tb"
  "tb_struct (tb\<lparr>tb_filter_query := q\<rparr>) = tb_struct tb"
  "tb_struct (tb\<lparr>tb_filter_anchor := x\<rparr>) = tb_struct tb"
  "tb_struct (tb\<lparr>tb_filter_matches := M\<rparr>) = tb_struct tb"
  "tb_struct (tb\<lparr>tb_paint := pt\<rparr>) = tb_struct tb"
  "tb_struct (tb\<lparr>tb_focused := b\<rparr>) = tb_struct tb"
  "tb_struct (tb\<lparr>tb_palette_focused := b\<rparr>) = tb_struct tb"
  by (rule tb_struct_cong, simp_all)+

lemma flow_updates [simp]:
  "tb_current_flow (tb\<lparr>tb_selected := x\<rparr>) = tb_current_flow tb"
  "tb_current_flow (tb\<lparr>tb_viewport_offset := n\<rparr>) = tb_current_flow tb"
  "tb_current_flow (tb\<lparr>tb_viewport_anchor := an\<rparr>) = tb_current_flow tb"
  "tb_current_flow (tb\<lparr>tb_marks := ms\<rparr>) = tb_current_flow tb"
  by (rule same_flow(3), simp add: same_rows_def)+

interpretation trv: viewported tb_struct tb_flow tb_selected tb_set_selected
  tb_viewport_offset tb_set_offset tb_viewport_anchor tb_set_anchor
  by unfold_locales (simp_all add: tb_set_selected_def tb_set_offset_def tb_set_anchor_def tb_flow_def)

end
