(* ===== verification/Tree_Safety.thy ===== *)
theory Tree_Safety
  imports Tree_Laws
begin

text \<open>
  The invariant of the tree browser, one preservation lemma per operation, and the calls of
  its public interface: from the empty owner, every sequence of calls returns (no loop runs out
  of fuel, no lookup panics) and keeps the invariant.
\<close>

section \<open>The invariant\<close>

definition tb_known :: "'a tree_browser \<Rightarrow> 'a \<Rightarrow> bool" where
  "tb_known tb t \<longleftrightarrow> tb_target_to_node tb t \<noteq> None"

definition tb_direct :: "'a tree_browser \<Rightarrow> 'a \<Rightarrow> bool" where
  "tb_direct tb t \<longleftrightarrow> (\<exists>e. tb_entry tb t = Some e \<and> tn_mark_policy (an_node e) = Mark_Direct)"

definition paint_known :: "'a tree_browser \<Rightarrow> bool" where
  "paint_known tb \<longleftrightarrow> (\<forall>c. ps_completed (tb_paint tb) = Some c \<longrightarrow> (\<forall>(r, t)\<in>set (cp_rows c). tb_known tb t))"

definition tb_ok :: "'a tree_browser \<Rightarrow> bool" where
  "tb_ok tb \<longleftrightarrow> tb_struct tb
     \<and> (\<forall>t. tb_selected tb = Some t \<longrightarrow> tb_known tb t)
     \<and> (\<forall>t\<in>tb_expanded tb. tb_is_expandable tb t)
     \<and> distinct (tb_marks tb) \<and> (\<forall>t\<in>set (tb_marks tb). tb_direct tb t)
     \<and> tb_filter_matches tb \<subseteq> set (tb_ordered tb)
     \<and> paint_known tb"

lemma tb_okD:
  "tb_ok tb \<Longrightarrow> tb_struct tb" "tb_ok tb \<Longrightarrow> paint_known tb" "tb_ok tb \<Longrightarrow> distinct (tb_marks tb)"
  "tb_ok tb \<Longrightarrow> t \<in> tb_expanded tb \<Longrightarrow> tb_is_expandable tb t"
  "tb_ok tb \<Longrightarrow> t \<in> set (tb_marks tb) \<Longrightarrow> tb_direct tb t"
  "tb_ok tb \<Longrightarrow> tb_selected tb = Some t \<Longrightarrow> tb_known tb t"
  by (auto simp: tb_ok_def)

lemmas tb_ok_defs = tb_ok_def tb_known_def tb_direct_def paint_known_def tb_entry_def tb_is_expandable_def

text \<open>Updates of one field keep the invariant as far as the field is concerned.\<close>

lemma ok_selected: "tb_ok tb \<Longrightarrow> (\<And>t. s = Some t \<Longrightarrow> tb_known tb t) \<Longrightarrow> tb_ok (tb\<lparr>tb_selected := s\<rparr>)"
  by (simp add: tb_ok_defs)

lemma ok_free_fields:
  "tb_ok tb \<Longrightarrow> tb_ok (tb\<lparr>tb_viewport_offset := n\<rparr>)"
  "tb_ok tb \<Longrightarrow> tb_ok (tb\<lparr>tb_viewport_anchor := an\<rparr>)"
  "tb_ok tb \<Longrightarrow> tb_ok (tb\<lparr>tb_configured_geometry := g\<rparr>)"
  "tb_ok tb \<Longrightarrow> tb_ok (tb\<lparr>tb_filter_active := b\<rparr>)"
  "tb_ok tb \<Longrightarrow> tb_ok (tb\<lparr>tb_filter_query := q\<rparr>)"
  "tb_ok tb \<Longrightarrow> tb_ok (tb\<lparr>tb_filter_anchor := x\<rparr>)"
  "tb_ok tb \<Longrightarrow> tb_ok (tb\<lparr>tb_focused := b\<rparr>)"
  "tb_ok tb \<Longrightarrow> tb_ok (tb\<lparr>tb_palette_focused := b\<rparr>)"
  by (simp_all add: tb_ok_defs)

lemma ok_expanded:
  "tb_ok tb \<Longrightarrow> (\<And>t. t \<in> ex \<Longrightarrow> tb_is_expandable tb t) \<Longrightarrow> tb_ok (tb\<lparr>tb_expanded := ex\<rparr>)"
  by (simp add: tb_ok_defs)

lemma ok_marks:
  "tb_ok tb \<Longrightarrow> distinct ms \<Longrightarrow> (\<And>t. t \<in> set ms \<Longrightarrow> tb_direct tb t) \<Longrightarrow> tb_ok (tb\<lparr>tb_marks := ms\<rparr>)"
  by (simp add: tb_ok_defs)

lemma ok_matches: "tb_ok tb \<Longrightarrow> M \<subseteq> set (tb_ordered tb) \<Longrightarrow> tb_ok (tb\<lparr>tb_filter_matches := M\<rparr>)"
  by (simp add: tb_ok_defs)

lemma ok_invalidate: "tb_ok tb \<Longrightarrow> tb_ok (tb_invalidate_paint tb)"
  by (simp add: tb_ok_defs tb_invalidate_paint_def paint_invalidate_def)

lemma ok_new: "tb_ok tb_new"
  by (simp add: tb_ok_defs tb_struct_new) (simp add: tb_new_def paint_new_def)

lemma target_known: "tb_struct tb \<Longrightarrow> t \<in> set (tb_targets tb) \<Longrightarrow> tb_known tb t"
  using targets_known by (fastforce simp: tb_known_def)

lemma node_known: "tb_struct tb \<Longrightarrow> tb_node_target tb i = Some t \<Longrightarrow> tb_known tb t"
  by (auto simp: tb_known_def simp flip: struct_ids)

section \<open>Cursor and viewport\<close>

lemma target_at_listed: "rf_target_at f p = Some t \<Longrightarrow> t \<in> set (rf_targets f)"
  by (auto simp: rf_target_at_def rf_row_at_def bind_eq_Some_conv rf_targets_def row_targets_def
      List.map_filter_def intro!: image_eqI [of _ _ "rf_rows f ! p"])

lemma cursor_sets:
  fixes tb :: "'a tree_browser"
  shows "\<exists>s. snd (cur_first tb_set_selected f tb) = tb\<lparr>tb_selected := s\<rparr> \<and> (\<forall>t. s = Some t \<longrightarrow> t \<in> set (rf_targets f))"
    "\<exists>s. snd (cur_last tb_set_selected f tb) = tb\<lparr>tb_selected := s\<rparr> \<and> (\<forall>t. s = Some t \<longrightarrow> t \<in> set (rf_targets f))"
    "\<exists>s. snd (cur_select_ordinal tb_set_selected f n tb) = tb\<lparr>tb_selected := s\<rparr> \<and> (\<forall>t. s = Some t \<longrightarrow> t \<in> set (rf_targets f))"
  by (auto simp: cur_first_def cur_last_def cur_select_ordinal_def tb_set_selected_def Let_def
      bind_eq_Some_conv dest: target_at_listed intro!: exI)

lemma move_sets:
  fixes tb :: "'a tree_browser"
  shows "\<exists>s. snd (cur_move_by tb_selected tb_set_selected f d tb) = tb\<lparr>tb_selected := s\<rparr>
    \<and> (\<forall>t. s = Some t \<longrightarrow> t \<in> set (rf_targets f))"
proof (cases "selectable_len f = 0")
  case True
  then show ?thesis by (auto simp: cur_move_by_def tb_set_selected_def intro!: exI)
next
  case False
  show ?thesis unfolding cur_move_by_def if_not_P [OF False] by (rule cursor_sets(3))
qed

lemma select_sets:
  fixes tb :: "'a tree_browser"
  shows "\<exists>s. snd (cur_select_target tb_set_selected f t tb) = tb\<lparr>tb_selected := s\<rparr>
    \<and> (\<forall>t. s = Some t \<longrightarrow> t \<in> set (rf_targets f))"
proof (cases "rf_position_of f t")
  case None
  with cursor_sets(1) [of f tb] show ?thesis by (simp add: cur_select_target_def)
next
  case (Some p)
  with rf_position_None [of f t] have "t \<in> set (rf_targets f)" by auto
  with Some show ?thesis by (auto simp: cur_select_target_def tb_set_selected_def intro!: exI)
qed

lemma page_sets:
  fixes tb :: "'a tree_browser"
  shows "\<exists>s n. snd (vp_page False tb_selected tb_set_selected tb_viewport_offset tb_set_offset
      tb_viewport_anchor f h d VisibleViewport tb) = tb\<lparr>tb_selected := s, tb_viewport_offset := n\<rparr>
    \<and> (\<forall>t. s = Some t \<longrightarrow> t \<in> set (rf_targets f))"
proof -
  have "\<exists>d'. page_by_visible_rows tb_selected tb_set_selected f h d tb
      = cur_move_by tb_selected tb_set_selected f d' tb"
    by (auto simp: page_by_visible_rows_def Let_def split: option.split)
  then obtain d' where "page_by_visible_rows tb_selected tb_set_selected f h d tb
      = cur_move_by tb_selected tb_set_selected f d' tb" by blast
  moreover obtain s where "snd (cur_move_by tb_selected tb_set_selected f d' tb) = tb\<lparr>tb_selected := s\<rparr>"
    "\<forall>t. s = Some t \<longrightarrow> t \<in> set (rf_targets f)"
    using move_sets by blast
  ultimately show ?thesis
    by (auto simp: vp_page_def vp_keep_selection_visible_def tb_set_offset_def Let_def split: prod.split
        intro!: exI [of _ s])
qed

text \<open>Where reconciling leaves the selection.\<close>

definition settled_selection :: "'a tree_browser \<Rightarrow> 'a option" where
  "settled_selection tb =
     (case tb_selected tb of
        Some t \<Rightarrow> if t \<in> set (tb_targets tb) then Some t else nth_opt (tb_targets tb) 0
      | None \<Rightarrow> nth_opt (tb_targets tb) 0)"

lemma settled_listed: "settled_selection tb = Some t \<Longrightarrow> t \<in> set (tb_targets tb)"
  by (auto simp: settled_selection_def nth_opt_def split: option.splits if_splits)

lemma reconcile_selection_form:
  assumes "tb_struct tb"
  shows "\<exists>n. tb_reconcile_selection_with_height h tb
    = Some (tb\<lparr>tb_selected := settled_selection tb, tb_viewport_offset := n\<rparr>)"
proof -
  let ?f = "tb_flow tb"
  let ?tb1 = "if cur_index tb_selected ?f tb = None then snd (cur_first tb_set_selected ?f tb) else tb"
  have idx: "cur_index tb_selected ?f tb = None
      \<longleftrightarrow> (\<forall>t. tb_selected tb = Some t \<longrightarrow> t \<notin> set (tb_targets tb))"
    using rf_position_None [of ?f] flow_targets [OF assms]
    by (cases "tb_selected tb") (simp_all add: cur_index_def)
  have "tb_selected ?tb1 = settled_selection tb"
    using trv.first_selected [OF assms] idx flow_targets [OF assms]
    by (auto simp: settled_selection_def split: option.splits)
  moreover have "\<exists>s. ?tb1 = tb\<lparr>tb_selected := s\<rparr>"
    using cursor_sets(1) [of ?f tb] by (cases "cur_index tb_selected ?f tb = None") (auto intro: exI [of _ "tb_selected tb"])
  ultimately have tb1: "?tb1 = tb\<lparr>tb_selected := settled_selection tb\<rparr>" by auto
  have rec: "\<exists>n. snd (vp_reconcile False tb_selected tb_viewport_offset tb_set_offset
        tb_viewport_anchor ?f k x) = x\<lparr>tb_viewport_offset := n\<rparr>" for k x
    by (simp add: vp_reconcile_def vp_clamp_def vp_keep_selection_visible_def Let_def tb_set_offset_def) blast
  show ?thesis
    unfolding tb_reconcile_selection_with_height_def current_flow [OF assms] bind.bind_lunit Let_def tb1
    using rec by (cases h) (auto intro: exI [of _ "tb_viewport_offset tb"])
qed

lemma ok_reconcile_selection:
  assumes "tb_ok tb" shows "\<exists>tb'. tb_reconcile_selection_with_height h tb = Some tb' \<and> tb_ok tb'"
proof -
  note st = tb_okD(1) [OF assms]
  obtain n where "tb_reconcile_selection_with_height h tb
      = Some (tb\<lparr>tb_selected := settled_selection tb, tb_viewport_offset := n\<rparr>)"
    using reconcile_selection_form [OF st] by blast
  moreover have "tb_ok (tb\<lparr>tb_selected := settled_selection tb\<rparr>)"
    using assms target_known [OF st settled_listed] by (rule ok_selected)
  ultimately show ?thesis by (auto intro: ok_free_fields(1))
qed

lemma ok_reconcile: "tb_ok tb \<Longrightarrow> \<exists>tb'. tb_reconcile_selection tb = Some tb' \<and> tb_ok tb'"
  unfolding tb_reconcile_selection_def by (rule ok_reconcile_selection)

section \<open>Loops that only read\<close>

lemma any_opt_total: "(\<And>x. x \<in> set xs \<Longrightarrow> \<exists>b. f x = Some b) \<Longrightarrow> \<exists>b. any_opt f xs = Some b"
proof (induction xs)
  case (Cons x xs)
  from Cons.prems [of x] obtain b where b: "f x = Some b" by auto
  from Cons obtain b' where "any_opt f xs = Some b'" by auto
  with b show ?case by (cases b) auto
qed auto

lemma fold_opt_total: "(\<And>x s. x \<in> set xs \<Longrightarrow> \<exists>s'. f x s = Some s') \<Longrightarrow> \<exists>s'. fold_opt f xs s = Some s'"
proof (induction xs arbitrary: s)
  case (Cons x xs)
  from Cons.prems [of x s] obtain s' where "f x s = Some s'" by auto
  with Cons.IH [of s'] Cons.prems show ?case by simp
qed simp

lemma descendants_total: "tb_struct tb \<Longrightarrow> \<exists>ds. tb_visible_descendants tb i = Some ds"
  by (rule visible_descendants_closed) blast+

lemma aggregate_total:
  assumes "tb_struct tb" shows "\<exists>a. tb_aggregate_mark_state_for tb t = Some a"
proof (cases "tb_target_to_node tb t")
  case (Some i)
  obtain ds where "tb_visible_descendants tb i = Some ds" using descendants_total [OF assms] by blast
  with Some show ?thesis by (simp add: tb_aggregate_mark_state_for_def Let_def)
qed (auto simp: tb_aggregate_mark_state_for_def)

lemma summary_total:
  assumes "tb_struct tb" shows "\<exists>s. tb_selected_summary tb = Some s"
proof -
  let ?ids = "filter (tb_shown tb) (tb_all_nodes tb)"
  have "\<exists>b. any_opt (\<lambda>i. case tb_arena tb i of None \<Rightarrow> Some False
      | Some e \<Rightarrow> if tn_mark_policy (an_node e) = Mark_Aggregate
          then map_option (\<lambda>a. a = Agg_Partial) (tb_aggregate_mark_state_for tb (tn_target (an_node e)))
          else Some False) ?ids = Some b"
  proof (rule any_opt_total)
    show "\<exists>b. (case tb_arena tb i of None \<Rightarrow> Some False
      | Some e \<Rightarrow> if tn_mark_policy (an_node e) = Mark_Aggregate
          then map_option (\<lambda>a. a = Agg_Partial) (tb_aggregate_mark_state_for tb (tn_target (an_node e)))
          else Some False) = Some b" for i
    proof (cases "tb_arena tb i")
      case (Some e)
      with aggregate_total [OF assms, of "tn_target (an_node e)"] show ?thesis by auto
    qed auto
  qed
  then show ?thesis by (auto simp: tb_selected_summary_def visible_ids_closed [OF assms])
qed

lemma transition_total:
  "tb_struct tb \<Longrightarrow> \<exists>tr. tb_transition previous marks disposition intent tb = Some tr"
  using summary_total [of tb] by (auto simp: tb_transition_def Let_def)

section \<open>Operations\<close>

lemma ok_set_expanded:
  assumes "tb_ok tb" "tb_is_expandable tb t" shows "tb_ok (tb_set_expanded t b tb)"
  using assms tb_okD(4) [OF assms(1)] by (auto simp: tb_set_expanded_def intro!: ok_expanded)

lemma ok_toggle:
  assumes "tb_ok tb" "tb_is_expandable tb t"
  shows "\<exists>tb'. tb_reconcile_selection (tb_toggle_expanded t tb) = Some tb' \<and> tb_ok tb'"
  unfolding tb_toggle_expanded_def by (rule ok_reconcile) (rule ok_set_expanded [OF assms])

lemma ok_set_selected:
  "tb_ok tb \<Longrightarrow> \<forall>t. s = Some t \<longrightarrow> t \<in> set (rf_targets (tb_flow tb)) \<Longrightarrow> tb_ok (tb\<lparr>tb_selected := s\<rparr>)"
  by (rule ok_selected) (auto simp: flow_targets tb_okD(1) intro: target_known tb_okD(1))

lemma ok_consumed: "\<exists>tb'. r = Some tb' \<and> tb_ok tb' \<Longrightarrow> \<exists>x tb'. consumed_after r = Some (x, tb') \<and> tb_ok tb'"
  by (auto simp: consumed_after_def)

lemma fold_keeps: "(\<And>c s. c \<in> set cs \<Longrightarrow> P s \<Longrightarrow> P (f c s)) \<Longrightarrow> P s \<Longrightarrow> P (fold f cs s)"
  by (induction cs arbitrary: s) simp_all

lemma ok_toggle_mark:
  assumes "tb_ok tb" shows "\<exists>b tb'. tb_toggle_mark_target t tb = Some (b, tb') \<and> tb_ok tb'"
proof (cases "tb_target_to_node tb t")
  case None
  with assms show ?thesis by (auto simp: tb_toggle_mark_target_def)
next
  case (Some i)
  note st = tb_okD(1) [OF assms]
  from Some have nt: "tb_node_target tb i = Some t" by (simp add: struct_ids [OF st])
  then obtain e where e: "tb_arena tb i = Some e" by (auto simp: tb_node_target_def)
  obtain ds where ds: "tb_visible_descendants tb i = Some ds" using descendants_total [OF st] by blast
  have direct: "tb_direct tb c" if "c \<in> set (direct_targets tb ds)" for c
  proof -
    from that obtain j f where "tb_arena tb j = Some f" "tn_mark_policy (an_node f) = Mark_Direct"
      "c = tn_target (an_node f)"
      by (auto simp: direct_targets_def List.map_filter_def)
    moreover from this have "tb_target_to_node tb c = Some j" by (simp add: struct_ids [OF st] tb_node_target_def)
    ultimately show ?thesis by (simp add: tb_direct_def tb_entry_def)
  qed
  have add: "distinct (snd (marks_add c ms)) \<and> (\<forall>x\<in>set (snd (marks_add c ms)). tb_direct tb x)"
    if "distinct ms \<and> (\<forall>x\<in>set ms. tb_direct tb x)" "tb_direct tb c" for c ms
    using that by (auto simp: marks_add_def)
  have rem: "distinct (snd (marks_remove c ms)) \<and> (\<forall>x\<in>set (snd (marks_remove c ms)). tb_direct tb x)"
    if "distinct ms \<and> (\<forall>x\<in>set ms. tb_direct tb x)" for c ms
  proof (cases "position (\<lambda>m. m = c) ms")
    case (Some k)
    with that set_remove_at_subset [of k ms] show ?thesis
      by (auto simp: marks_remove_def distinct_remove_at)
  qed (use that in \<open>simp add: marks_remove_def del: position_None\<close>)
  have all: "distinct (fold (\<lambda>c ms. snd (if b then marks_remove c ms else marks_add c ms)) cs ms)
      \<and> (\<forall>x\<in>set (fold (\<lambda>c ms. snd (if b then marks_remove c ms else marks_add c ms)) cs ms). tb_direct tb x)"
    if ms: "distinct ms \<and> (\<forall>x\<in>set ms. tb_direct tb x)" and cs: "\<And>c. c \<in> set cs \<Longrightarrow> tb_direct tb c" for b cs ms
  proof (rule fold_keeps [where P = "\<lambda>ms. distinct ms \<and> (\<forall>x\<in>set ms. tb_direct tb x)"])
    fix c ms assume c: "c \<in> set cs" and P: "distinct ms \<and> (\<forall>x\<in>set ms. tb_direct tb x)"
    show "distinct (snd (if b then marks_remove c ms else marks_add c ms))
        \<and> (\<forall>x\<in>set (snd (if b then marks_remove c ms else marks_add c ms)). tb_direct tb x)"
      using rem [OF P, of c] add [OF P cs [OF c]] by presburger
  qed (rule ms)
  have ms: "distinct (tb_marks tb) \<and> (\<forall>x\<in>set (tb_marks tb). tb_direct tb x)"
    using assms by (simp add: tb_ok_def)
  show ?thesis
  proof (cases "tn_mark_policy (an_node e)")
    case Mark_Direct
    then have "tb_direct tb t" using e Some by (simp add: tb_direct_def tb_entry_def)
    from rem [OF ms, of t] add [OF ms this]
    have "tb_ok (tb\<lparr>tb_marks := snd (if marks_contains t (tb_marks tb) then marks_remove t (tb_marks tb)
        else marks_add t (tb_marks tb))\<rparr>)"
      using assms by (cases "marks_contains t (tb_marks tb)") (auto intro!: ok_marks)
    with Mark_Direct Some e show ?thesis by (auto simp: tb_toggle_mark_target_def)
  next
    case Mark_Aggregate
    have "tb_ok (tb\<lparr>tb_marks := fold (\<lambda>c ms. snd (if b then marks_remove c ms else marks_add c ms))
        (direct_targets tb ds) (tb_marks tb)\<rparr>)" for b
      using assms all [OF ms, of "direct_targets tb ds" b] direct by (intro ok_marks) auto
    with assms Mark_Aggregate Some e ds show ?thesis
      by (auto simp: tb_toggle_mark_target_def Let_def)
  qed (use assms Some e in \<open>auto simp: tb_toggle_mark_target_def\<close>)
qed

section \<open>Filter and restored position\<close>

lemma ok_filter_edit: "tb_ok tb \<Longrightarrow> \<exists>tb'. tb_filter_edit m query tb = Some tb' \<and> tb_ok tb'"
proof -
  assume ok: "tb_ok tb"
  define tb2 where "tb2 = (if tb_filter_active tb then tb
      else tb\<lparr>tb_filter_anchor := tb_selected tb, tb_filter_active := True\<rparr>)\<lparr>tb_filter_query := query\<rparr>"
  have ok2: "tb_ok tb2" using ok by (simp add: tb2_def ok_free_fields)
  have "set (List.map_filter (tb_target_to_node tb2) ts) \<subseteq> set (tb_ordered tb2)" for ts
    using struct_ids [OF tb_okD(1) [OF ok2]] struct_dom [OF tb_okD(1) [OF ok2]]
    by (force simp: List.map_filter_def tb_node_target_def)
  then have "tb_ok (tb2\<lparr>tb_filter_matches := set (List.map_filter (tb_target_to_node tb2)
      (tb_filter_matches_for_query m tb2))\<rparr>)"
    using ok2 by (intro ok_matches)
  from ok_reconcile [OF this] obtain tb' where
    "tb_reconcile_selection (tb2\<lparr>tb_filter_matches := set (List.map_filter (tb_target_to_node tb2)
      (tb_filter_matches_for_query m tb2))\<rparr>) = Some tb'" "tb_ok tb'" by blast
  then have "tb_filter_edit m query tb = Some (tb_invalidate_paint tb')"
    unfolding tb_filter_edit_def Let_def tb2_def [symmetric] by simp
  with \<open>tb_ok tb'\<close> show ?thesis by (auto intro: ok_invalidate)
qed

lemma ok_clear_filter: "tb_ok tb \<Longrightarrow> \<exists>tb'. tb_clear_filter tb = Some tb' \<and> tb_ok tb'"
proof -
  assume ok: "tb_ok tb"
  have "tb_ok (tb\<lparr>tb_filter_anchor := None, tb_filter_active := False, tb_filter_query := [],
      tb_filter_matches := {}\<rparr>)"
    using ok by (intro ok_matches ok_free_fields) simp_all
  then have "tb_ok (tb\<lparr>tb_filter_anchor := None, tb_filter_active := False, tb_filter_query := [],
      tb_filter_matches := {}, tb_selected := opt_filter (\<lambda>t. tb_target_to_node tb t \<noteq> None) (tb_filter_anchor tb)\<rparr>)"
    by (rule ok_selected) (simp add: tb_known_def)
  from ok_reconcile [OF this] show ?thesis
    by (auto simp: tb_clear_filter_def Let_def intro!: ok_invalidate)
qed

lemma ok_reset: "tb_ok tb \<Longrightarrow> \<exists>tb'. tb_reset_presentation tb = Some tb' \<and> tb_ok tb'"
proof -
  assume ok: "tb_ok tb"
  have "tb_ok (tb\<lparr>tb_marks := [], tb_filter_active := False, tb_filter_query := [],
           tb_filter_anchor := None, tb_filter_matches := {}, tb_expanded := {},
           tb_selected := None, tb_viewport_offset := 0\<rparr>)"
    using ok by (simp add: tb_ok_defs)
  from ok_reconcile [OF this] show ?thesis
    by (auto simp: tb_reset_presentation_def intro!: ok_invalidate)
qed

lemma chain_total:
  assumes "tb_struct tb" "tb_target_to_node tb t = Some i"
  shows "\<exists>ts. ancestor_loop (tree_fuel tb) tb i [] = Some ts \<and> up_chain tb i ts"
proof -
  from assms have "i \<in> set (tb_ordered tb)"
    using struct_ids [OF assms(1)] struct_dom [OF assms(1)] by (auto simp: tb_node_target_def)
  with ancestor_loop_chain [OF assms(1) this, of "tree_fuel tb" "[]"] depth_bound [OF assms(1) this]
  show ?thesis by (auto simp: tree_fuel_def)
qed

lemma flow_offset_total: "tb_struct tb \<Longrightarrow> \<exists>row. tb_visible_row_for_flow_offset n tb = Some row"
  by (simp add: tb_visible_row_for_flow_offset_def flow_rows_closed settled_rows_closed)

lemma ok_anchor:
  assumes "tb_ok tb" shows "\<exists>b tb'. tb_anchor_selection_to t n tb = Some (b, tb') \<and> tb_ok tb'"
proof (cases "tb_target_to_node tb t")
  case None
  with assms show ?thesis by (auto simp: tb_anchor_selection_to_def)
next
  case (Some i)
  note st = tb_okD(1) [OF assms]
  obtain ts where ts: "ancestor_loop (tree_fuel tb) tb i [] = Some ts" "up_chain tb i ts"
    using chain_total [OF st Some] by blast
  define v where "v = (case List.find (\<lambda>a. a \<notin> tb_expanded tb) (rev ts) of Some a \<Rightarrow> a | None \<Rightarrow> t)"
  have "tb_known tb v"
    using Some up_chain_targets [OF st ts(2)] node_known [OF st]
    by (auto simp: v_def tb_known_def split: option.split dest!: find_in_set)
  then have ok1: "tb_ok (tb\<lparr>tb_selected := Some v\<rparr>)" by (intro ok_selected [OF assms]) simp
  obtain row where "tb_visible_row_for_flow_offset n (tb\<lparr>tb_selected := Some v\<rparr>) = Some row"
    using flow_offset_total [OF tb_okD(1) [OF ok1]] by blast
  with Some ts(1) ok1 show ?thesis
    by (cases row) (auto simp: tb_anchor_selection_to_def Let_def simp flip: v_def
        intro!: ok_invalidate ok_free_fields(1))
qed

lemma reveal_loop_ok:
  assumes "tb_ok tb" "i \<in> set (tb_ordered tb)" "tb_depth tb i < fuel"
  shows "\<exists>tb'. reveal_loop fuel i tb = Some tb' \<and> tb_ok tb' \<and> tb_selected tb' = tb_selected tb"
  using assms
proof (induction fuel arbitrary: i tb)
  case (Suc fuel)
  note st = tb_okD(1) [OF Suc.prems(1)]
  from ordered_arena [OF st Suc.prems(2)] obtain e where e: "tb_arena tb i = Some e" by blast
  show ?case
  proof (cases "tn_parent (an_node e)")
    case None
    with e Suc.prems(1) show ?thesis by simp
  next
    case (Some t)
    from tb_parent_child [OF st e Some] obtain p f where
      p: "tb_target_to_node tb t = Some p" "tb_arena tb p = Some f" "tn_target (an_node f) = t"
        "(p, i) \<in> tb_child_rel tb" by metis
    let ?tb = "tb\<lparr>tb_expanded := insert t (tb_expanded tb)\<rparr>"
    from p have "an_children f \<noteq> []" by (auto simp: child_rel_iff skel_Some)
    with p(1,2) have "tb_is_expandable tb t" by (simp add: tb_is_expandable_def tb_entry_def an_is_expandable_def)
    with Suc.prems(1) have ok: "tb_ok ?tb" by (auto intro!: ok_expanded dest: tb_okD(4))
    moreover have "p \<in> set (tb_ordered ?tb)" using p(2) struct_dom [OF st, of p] by simp
    moreover have "tb_depth ?tb p < fuel"
      using child_depth [OF st p(4)] Suc.prems(3) by (simp add: tb_depth_def)
    ultimately obtain tb' where "reveal_loop fuel p ?tb = Some tb'" "tb_ok tb'" "tb_selected tb' = tb_selected ?tb"
      using Suc.IH by blast
    with e Some p(1) show ?thesis by simp
  qed
qed simp

lemma ok_reveal:
  assumes "tb_ok tb" shows "\<exists>tb'. tb_reveal t tb = Some tb' \<and> tb_ok tb'"
proof (cases "tb_target_to_node tb t")
  case (Some i)
  note st = tb_okD(1) [OF assms]
  from Some have i: "i \<in> set (tb_ordered tb)"
    using struct_ids [OF st] struct_dom [OF st] by (auto simp: tb_node_target_def)
  with reveal_loop_ok [OF assms i, of "tree_fuel tb"] depth_bound [OF st i] Some show ?thesis
    by (auto simp: tb_reveal_def tree_fuel_def)
qed (use assms in \<open>simp add: tb_reveal_def\<close>)

section \<open>One operation\<close>

lemma ok_scroll: "tb_ok tb \<Longrightarrow> \<exists>b tb'. tb_apply_wheel_scroll d tb = Some (b, tb') \<and> tb_ok tb'"
  using flow_rows_closed [OF tb_okD(1), of tb]
  by (auto simp: tb_apply_wheel_scroll_def tb_visible_len_def Let_def tb_set_anchor_def tb_set_offset_def
      intro!: ok_free_fields)

lemma ok_select_parent: "tb_ok tb \<Longrightarrow> tb_ok (tb_select_parent (tb_flow tb) tb)"
  by (auto simp: tb_select_parent_def tb_set_selected_def split: option.split
      intro!: ok_set_selected dest!: target_at_listed)

lemma ok_page: "tb_ok tb \<Longrightarrow> \<exists>b tb'. tb_apply_page d (tb_flow tb) tb = (b, tb') \<and> tb_ok tb'"
proof (cases "tb_viewport_height tb")
  case (Some h)
  assume ok: "tb_ok tb"
  obtain s n where "snd (vp_page False tb_selected tb_set_selected tb_viewport_offset tb_set_offset
      tb_viewport_anchor (tb_flow tb) h d VisibleViewport tb) = tb\<lparr>tb_selected := s, tb_viewport_offset := n\<rparr>"
    "\<forall>t. s = Some t \<longrightarrow> t \<in> set (rf_targets (tb_flow tb))"
    using page_sets [of "tb_flow tb" h d tb] by blast
  with Some ok show ?thesis by (auto simp: tb_apply_page_def intro!: ok_set_selected ok_free_fields(1))
qed (auto simp: tb_apply_page_def)

lemma ok_toggle_expansion: "tb_ok tb \<Longrightarrow> \<exists>x tb'. tb_apply_toggle_expansion t tb = Some (x, tb') \<and> tb_ok tb'"
  using ok_toggle [of tb t] by (auto simp: tb_apply_toggle_expansion_def)

lemma ok_right: "tb_ok tb \<Longrightarrow> \<exists>x tb'. tb_apply_right tb = Some (x, tb') \<and> tb_ok tb'"
proof (cases "tb_selected tb")
  case (Some t)
  assume "tb_ok tb"
  with ok_toggle [of tb t] Some show ?thesis by (cases "tb_is_expandable tb t") (auto simp: tb_apply_right_def)
qed (simp add: tb_apply_right_def)

lemma ok_pointer:
  assumes "tb_ok tb" shows "\<exists>b tb'. tb_apply_pointer_toggle_mark geo pt tb = Some (b, tb') \<and> tb_ok tb'"
proof (cases "tb_resolve_current_point geo pt tb")
  case None
  with assms show ?thesis by (auto simp: tb_apply_pointer_toggle_mark_def)
next
  case (Some t)
  then have "tb_known tb t"
    using tb_okD(2) [OF assms]
    by (auto simp: tb_resolve_current_point_def resolve_point_def paint_known_def
        split: option.splits if_splits dest!: find_in_set)
  then have "tb_ok (tb\<lparr>tb_selected := Some t\<rparr>)" by (intro ok_selected [OF assms]) simp
  from ok_toggle_mark [OF this] obtain b tb1 where
    "tb_toggle_mark_target t (tb\<lparr>tb_selected := Some t\<rparr>) = Some (b, tb1)" "tb_ok tb1" by blast
  with ok_reconcile [OF this(2)] Some show ?thesis by (auto simp: tb_apply_pointer_toggle_mark_def)
qed

lemma ok_context: "tb_ok tb \<Longrightarrow> \<exists>x. tb_apply_context tb = Some x"
  by (simp add: tb_apply_context_def tb_action_targets_def visible_ids_closed [OF tb_okD(1)] split: option.split)

lemma ok_re_anchor: "tb_ok tb \<Longrightarrow> tb_ok (tb_re_anchor_following tb)"
  by (simp add: tb_re_anchor_following_def tb_set_anchor_def ok_free_fields)

lemma flow_re_anchor: "tb_flow (tb_re_anchor_following tb) = tb_flow tb"
  by (simp add: tb_flow_def tb_re_anchor_following_def tb_set_anchor_def)

lemma ok_cursor:
  assumes "tb_ok tb"
  shows "tb_ok (snd (cur_first tb_set_selected (tb_flow tb) tb))"
    "tb_ok (snd (cur_last tb_set_selected (tb_flow tb) tb))"
    "tb_ok (snd (cur_move_by tb_selected tb_set_selected (tb_flow tb) d tb))"
    "tb_ok (snd (cur_select_target tb_set_selected (tb_flow tb) t tb))"
  using cursor_sets(1,2) [of "tb_flow tb" tb] move_sets [of "tb_flow tb" d tb]
    select_sets [of "tb_flow tb" t tb] ok_set_selected [OF assms] by metis+

lemma ok_apply_operation:
  assumes "tb_ok tb0"
  shows "\<exists>x tb'. tb_apply_operation geo m op (tb_flow tb0) tb0 = Some (x, tb') \<and> tb_ok tb'"
proof -
  define tb where "tb = (if op_keeps_free_scroll op then tb0 else tb_re_anchor_following tb0)"
  have ok: "tb_ok tb" and flow: "tb_flow tb0 = tb_flow tb"
    using assms by (simp_all add: tb_def ok_re_anchor flow_re_anchor)
  note step = tb_apply_operation_def Let_def tb_def [symmetric]
  show ?thesis
  proof (cases op)
    case (Op_Move d)
    then show ?thesis unfolding step flow
      by (simp only: tree_operation.case) (intro ok_consumed ok_reconcile ok_cursor ok)
  next
    case (Op_Page d)
    with ok_page [OF ok, of d] show ?thesis unfolding step flow by (auto simp del: split_paired_All)
  next
    case (Op_Scroll d)
    with ok_scroll [OF ok, of d] show ?thesis unfolding step flow by auto
  next
    case Op_First
    then show ?thesis unfolding step flow
      by (simp only: tree_operation.case) (intro ok_consumed ok_reconcile ok_cursor ok)
  next
    case Op_Last
    then show ?thesis unfolding step flow
      by (simp only: tree_operation.case) (intro ok_consumed ok_reconcile ok_cursor ok)
  next
    case Op_Parent
    then show ?thesis unfolding step flow
      by (simp only: tree_operation.case) (intro ok_consumed ok_reconcile ok_select_parent ok)
  next
    case Op_Right
    with ok_right [OF ok] show ?thesis unfolding step flow by auto
  next
    case Op_Toggle_Expansion
    show ?thesis
    proof (cases "tb_selected tb")
      case (Some t)
      with Op_Toggle_Expansion ok_toggle_expansion [OF ok, of t] show ?thesis unfolding step flow by auto
    next
      case None
      with Op_Toggle_Expansion ok show ?thesis unfolding step flow by simp
    qed
  next
    case (Op_Toggle_Expansion_Target t)
    with ok_toggle_expansion [OF ok, of t] show ?thesis unfolding step flow by auto
  next
    case (Op_Anchor_Selection t n)
    with ok_anchor [OF ok, of t n] show ?thesis unfolding step flow by auto
  next
    case (Op_Select t)
    with ok_reconcile [OF ok_cursor(4) [OF ok, of t]] show ?thesis unfolding step flow
      by (auto split: prod.split)
  next
    case (Op_Pointer_Toggle_Mark pt)
    with ok_pointer [OF ok, of geo pt] show ?thesis unfolding step flow by auto
  next
    case Op_Activate
    with ok show ?thesis unfolding step flow by simp
  next
    case Op_Context
    with ok ok_context [OF ok] show ?thesis unfolding step flow by auto
  next
    case (Op_Edit_Filter q)
    then show ?thesis unfolding step flow
      by (simp only: tree_operation.case) (intro ok_consumed ok_filter_edit ok)
  next
    case Op_Clear_Filter
    then show ?thesis unfolding step flow
      by (simp only: tree_operation.case) (intro ok_consumed ok_clear_filter ok)
  next
    case Op_Clear_Marks
    with ok show ?thesis unfolding step flow by (auto simp: consumed_after_def intro!: ok_marks)
  qed
qed

lemma apply_other:
  assumes "\<And>d. op \<noteq> Op_Scroll d"
  shows "tb_apply geo m op tb = do {
     previous_marks \<leftarrow> tb_selected_summary tb;
     flow \<leftarrow> tb_current_flow tb;
     (outcome, tb1) \<leftarrow> tb_apply_operation geo m op flow tb;
     (case outcome of
        None \<Rightarrow> do {
          transition \<leftarrow> tb_transition (tb_selected tb) previous_marks Tree_Unhandled None tb1;
          Some (transition, tb1)
        }
      | Some (disposition, intent) \<Rightarrow> do {
          transition \<leftarrow> tb_transition (tb_selected tb) previous_marks disposition intent (tb_invalidate_paint tb1);
          Some (transition, tb_invalidate_paint tb1)
        })
   }"
proof (cases op)
  case (Op_Scroll d)
  with assms show ?thesis by blast
qed (unfold tb_apply_def Let_def, simp_all)

lemma ok_apply:
  assumes "tb_ok tb"
  shows "\<exists>tr tb'. tb_apply geo m op tb = Some (tr, tb') \<and> tb_ok tb'"
proof -
  note st = tb_okD(1) [OF assms]
  obtain marks where marks: "tb_selected_summary tb = Some marks" using summary_total [OF st] by blast
  have trans: "\<exists>tr. tb_transition previous marks d i tb' = Some tr" if "tb_ok tb'" for previous d i tb'
    using transition_total [OF tb_okD(1) [OF that]] .
  have scroll: ?thesis if op: "op = Op_Scroll d" for d
  proof -
    obtain b tb1 where b: "tb_apply_wheel_scroll d tb = Some (b, tb1)" "tb_ok tb1"
      using ok_scroll [OF assms] by blast
    obtain tr where "tb_transition (tb_selected tb) marks (if b then Tree_Consumed else Tree_Unhandled) None
        (tb_invalidate_paint tb1) = Some tr"
      using trans [OF ok_invalidate [OF b(2)]] by blast
    with b ok_invalidate [OF b(2)] marks op show ?thesis by (simp add: tb_apply_def Let_def)
  qed
  have other: ?thesis if op: "\<And>d. op \<noteq> Op_Scroll d"
  proof -
    obtain x tb1 where x: "tb_apply_operation geo m op (tb_flow tb) tb = Some (x, tb1)" "tb_ok tb1"
      using ok_apply_operation [OF assms] by blast
    have "tb_apply geo m op tb = (case x of
        None \<Rightarrow> map_option (\<lambda>tr. (tr, tb1)) (tb_transition (tb_selected tb) marks Tree_Unhandled None tb1)
      | Some (d, i) \<Rightarrow> map_option (\<lambda>tr. (tr, tb_invalidate_paint tb1))
          (tb_transition (tb_selected tb) marks d i (tb_invalidate_paint tb1)))"
      unfolding map_conv_bind_option comp_def
      by (simp add: apply_other [OF op] marks current_flow [OF st] x(1))
    moreover obtain tr where "tb_transition (tb_selected tb) marks Tree_Unhandled None tb1 = Some tr"
      using trans [OF x(2)] by blast
    moreover have "\<exists>tr. tb_transition (tb_selected tb) marks d i (tb_invalidate_paint tb1) = Some tr" for d i
      by (rule trans [OF ok_invalidate [OF x(2)]])
    ultimately show ?thesis
      using x(2) ok_invalidate [OF x(2)] by (cases x) (simp, fastforce)
  qed
  show ?thesis by (cases op) (use scroll other in blast)+
qed

section \<open>Reconciliation and painting\<close>

lemma rebuilt_struct:
  assumes "forest_ok ns"
  shows "\<exists>fo. tb_rebuild_forest ns n0 = Some (fo, n0 + length ns)
    \<and> (\<forall>tb. tb_arena tb = fo_arena fo \<longrightarrow> tb_target_to_node tb = fo_target_to_node fo
         \<longrightarrow> tb_ordered tb = fo_ordered fo \<longrightarrow> tb_roots tb = fo_roots fo \<longrightarrow> tb_struct (tb :: 'a tree_browser))
    \<and> fo_ordered fo = node_ids ns n0 \<and> fo_target_to_node fo = id_of ns n0
    \<and> (\<forall>i e. fo_arena fo i = Some e \<longrightarrow> an_node e = ns ! (i - n0))"
proof -
  obtain w where w: "tb_rebuild_forest ns n0
      = Some ((full ns n0)\<lparr>fo_arena := relabel w (fo_arena (full ns n0))\<rparr>, n0 + length ns)"
    "distinct (ids w)" "set (ids w) = set (node_ids ns n0)"
    "\<And>r. r \<in> set (fo_roots (full ns n0)) \<Longrightarrow> \<exists>k. (r, 0, k) \<in> set w"
    "\<And>p c d k. (p, d, k) \<in> set w \<Longrightarrow> (p, c) \<in> child_rel (built_kids (ns, n0)) \<Longrightarrow> (c, Suc d, k) \<in> set w"
    using rebuilt [OF assms, of n0] by blast
  let ?fo = "(full ns n0)\<lparr>fo_arena := relabel w (fo_arena (full ns n0))\<rparr>"
  have "tb_struct tb" if "tb_arena tb = fo_arena ?fo" "tb_target_to_node tb = fo_target_to_node ?fo"
    "tb_ordered tb = fo_ordered ?fo" "tb_roots tb = fo_roots ?fo" for tb :: "'a tree_browser"
    using that by (intro built_struct [OF assms w(2-5)]) (simp_all add: linked_def)
  moreover have "an_node e = ns ! (i - n0)" if "fo_arena ?fo i = Some e" for i e
    using that by (auto simp: relabel_def full_arena linked_node_def split: option.splits if_splits)
  moreover have "fo_ordered ?fo = node_ids ns n0" "fo_target_to_node ?fo = id_of ns n0"
    by (simp_all add: linked_def)
  ultimately show ?thesis using w(1) by blast
qed

lemma ok_commit:
  assumes ok: "tb_ok tb"
    and st: "\<And>tb. tb_arena tb = fo_arena fo \<Longrightarrow> tb_target_to_node tb = fo_target_to_node fo \<Longrightarrow>
      tb_ordered tb = fo_ordered fo \<Longrightarrow> tb_roots tb = fo_roots fo \<Longrightarrow> tb_struct (tb :: 'a tree_browser)"
  shows "\<exists>tb'. tb_commit_reconciliation m structures fo tb = Some tb' \<and> tb_ok tb'"
proof -
  let ?sel = "reconcile_projected_selection fo tb"
  define tb1 where "tb1 = tb\<lparr>tb_arena := fo_arena fo, tb_target_to_node := fo_target_to_node fo,
      tb_ordered := fo_ordered fo, tb_roots := fo_roots fo, tb_root_structures := structures,
      tb_model_revision := u64_sat_inc (tb_model_revision tb), tb_selected := rs_selected ?sel,
      tb_expanded := rs_expanded ?sel, tb_marks := marks_set_targets (rs_marks ?sel) (tb_marks tb)\<rparr>"
  have s1: "tb_struct tb1" by (rule st) (simp_all add: tb1_def)
  obtain len where len: "tb_visible_len tb1 = Some len"
    using flow_rows_closed [OF s1] by (simp add: tb_visible_len_def)
  define tb2 where "tb2 = tb1\<lparr>tb_viewport_offset := min (tb_viewport_offset tb1) (len - 1)\<rparr>"
  define M where "M = set (List.map_filter (tb_target_to_node tb2)
      (tb_filter_matches_for_query m (tb2\<lparr>tb_filter_matches := {}\<rparr>)))"
  let ?tb3 = "tb_invalidate_paint (tb2\<lparr>tb_filter_matches := M\<rparr>)"
  have s2: "tb_struct tb2" using s1 by (simp add: tb2_def)
  have M: "M \<subseteq> set (tb_ordered tb2)"
    using struct_ids [OF s2] struct_dom [OF s2]
    by (force simp: M_def List.map_filter_def tb_node_target_def)
  have entry: "tb_entry tb2 = fo_node fo" "tb_target_to_node tb2 = fo_target_to_node fo"
    by (simp_all add: tb2_def tb1_def tb_entry_def fo_node_def fun_eq_iff)
  have known: "tb_known tb2 t" if sel: "tb_selected tb2 = Some t" for t
  proof (cases "opt_filter (\<lambda>t. fo_target_to_node fo t \<noteq> None) (tb_selected tb)")
    case (Some x)
    with sel show ?thesis
      by (auto simp: tb_known_def tb2_def tb1_def reconcile_projected_selection_def)
  next
    case None
    with sel obtain i e where "fo_arena fo i = Some e" "tn_target (an_node e) = t"
      by (auto simp: tb2_def tb1_def reconcile_projected_selection_def bind_eq_Some_conv)
    then have "tb_node_target tb2 i = Some t" by (simp add: tb_node_target_def tb2_def tb1_def)
    with node_known [OF s2] show ?thesis by blast
  qed
  have "tb_ok ?tb3"
    unfolding tb_ok_def
  proof (intro conjI allI impI ballI)
    show "tb_struct ?tb3" using s2 by (simp add: tb_invalidate_paint_def)
    show "tb_known ?tb3 t" if "tb_selected ?tb3 = Some t" for t
      using known [of t] that by (simp add: tb_invalidate_paint_def tb_known_def)
    show "tb_is_expandable ?tb3 t" if "t \<in> tb_expanded ?tb3" for t
      using that entry by (auto simp: tb_invalidate_paint_def tb_is_expandable_def tb_entry_def
          tb2_def tb1_def reconcile_projected_selection_def fo_node_def split: option.splits)
    show "distinct (tb_marks ?tb3)"
      using tb_okD(3) [OF ok]
      by (simp add: tb_invalidate_paint_def tb2_def tb1_def reconcile_projected_selection_def marks_set_targets_def)
    show "tb_direct ?tb3 t" if "t \<in> set (tb_marks ?tb3)" for t
      using that by (auto simp: tb_invalidate_paint_def tb_direct_def tb_entry_def marks_set_targets_def
          tb2_def tb1_def reconcile_projected_selection_def fo_node_def split: option.splits)
    show "tb_filter_matches ?tb3 \<subseteq> set (tb_ordered ?tb3)" using M by (simp add: tb_invalidate_paint_def)
    show "paint_known ?tb3" by (simp add: paint_known_def tb_invalidate_paint_def paint_invalidate_def)
  qed
  from ok_reconcile [OF this] obtain tb' where tb': "tb_reconcile_selection ?tb3 = Some tb'" "tb_ok tb'" by blast
  have "tb_commit_reconciliation m structures fo tb = Some tb'"
    unfolding tb_commit_reconciliation_def Let_def tb1_def [symmetric] len bind.bind_lunit
      tb2_def [symmetric] M_def [symmetric] by (rule tb'(1))
  with tb'(2) show ?thesis by blast
qed

lemma ok_tree_reconcile:
  assumes "tb_ok tb" shows "\<exists>e tb'. tb_reconcile m entries tb = Some (e, tb') \<and> tb_ok tb'"
proof (cases "validate_forest (project_nodes entries)")
  case (Some e)
  with assms show ?thesis by (simp add: tb_reconcile_def Let_def)
next
  case None
  then have ok: "forest_ok (project_nodes entries)" by (simp add: validate_None)
  show ?thesis
  proof (cases "tb_content_changed (project_nodes entries) (project_root_structures entries) tb")
    case False
    with None assms show ?thesis by (auto simp: tb_reconcile_def Let_def)
  next
    case True
    obtain fo where fo: "tb_rebuild_forest (project_nodes entries) (tb_next_node_id tb)
        = Some (fo, tb_next_node_id tb + length (project_nodes entries))"
      "\<And>tb. tb_arena tb = fo_arena fo \<Longrightarrow> tb_target_to_node tb = fo_target_to_node fo \<Longrightarrow>
        tb_ordered tb = fo_ordered fo \<Longrightarrow> tb_roots tb = fo_roots fo \<Longrightarrow> tb_struct (tb :: 'a tree_browser)"
      using rebuilt_struct [OF ok, of "tb_next_node_id tb"] by blast
    let ?tb = "tb\<lparr>tb_next_node_id := tb_next_node_id tb + length (project_nodes entries)\<rparr>"
    have "tb_struct ?tb = tb_struct tb" by (rule tb_struct_cong) simp_all
    with assms have "tb_ok ?tb" by (simp add: tb_ok_defs)
    from ok_commit [OF this fo(2)] obtain tb' where
      "tb_commit_reconciliation m (project_root_structures entries) fo ?tb = Some tb'" "tb_ok tb'" by blast
    with None True fo(1) show ?thesis by (auto simp: tb_reconcile_def Let_def)
  qed
qed

lemma paint_step_total:
  assumes "tb_struct tb" shows "\<exists>st'. paint_step tb x st = Some st'"
proof -
  obtain k row where x: "x = (k, row)" by (cases x)
  show ?thesis
  proof (cases row)
    case (Visible_Node i)
    show ?thesis
    proof (cases "tb_arena tb i")
      case (Some e)
      with aggregate_total [OF assms, of "tn_target (an_node e)"] x Visible_Node show ?thesis
        by (auto simp: paint_step_def Let_def)
    qed (simp add: x Visible_Node paint_step_def)
  qed (simp add: x paint_step_def Let_def split: option.split)
qed

lemma retained_known:
  assumes "tb_struct tb" "(r, t) \<in> set (tb_retained_rows geo rows claim content tb)"
  shows "tb_known tb t"
  using assms(2) node_known [OF assms(1)]
  by (auto simp: tb_retained_rows_def List.map_filter_def tb_retained_row_def Let_def bind_eq_Some_conv
      split: visible_row.splits if_splits)

lemma ok_view: "tb_ok tb \<Longrightarrow> \<exists>rows tb'. tb_view geo area tb = Some (rows, tb') \<and> tb_ok tb'"
proof -
  assume ok: "tb_ok tb"
  obtain claim content where g: "(case tb_configured_geometry tb of None \<Rightarrow> (area, area) | Some g \<Rightarrow> g) = (claim, content)"
    by fastforce
  obtain tb1 where tb1: "tb_reconcile_selection_with_height (Some (unat (rect_height content))) tb = Some tb1" "tb_ok tb1"
    using ok_reconcile_selection [OF ok] by blast
  define tb2 where "tb2 = tb1\<lparr>tb_paint := paint_begin (tb_paint tb1)\<rparr>"
  have s2: "tb_struct tb2" using tb_okD(1) [OF tb1(2)] by (simp add: tb2_def)
  obtain visible where visible: "tb_visible_flow_rows tb2 = Some visible"
    using flow_rows_closed [OF s2] by blast
  obtain st where "fold_opt (paint_step tb2) (enumerate 0 visible)
      \<lparr>ss_rows = [], ss_group_root_index = 0, ss_group_item_index = 0\<rparr> = Some st"
    using fold_opt_total [of "enumerate 0 visible" "paint_step tb2"] paint_step_total [OF s2] by blast
  then have rows: "tb_visible_rows visible tb2 = Some (ss_rows st)" by (simp add: tb_visible_rows_def)
  have known: "tb_known tb2 t" if "(r, t) \<in> set (tb_retained_rows geo visible claim content tb2)" for r t
    by (rule retained_known [OF s2 that])
  have "tb_ok (tb2\<lparr>tb_paint := store_completed claim content
      (tb_retained_rows geo visible claim content tb2) sel (tb_paint tb2)\<rparr>)" for sel
    using tb1(2) known by (fastforce simp: tb_ok_defs tb2_def store_completed_def)
  then show ?thesis
    unfolding tb_view_def g prod.case tb1(1) bind.bind_lunit Let_def tb2_def [symmetric] visible rows
    by auto
qed

lemma ok_clamp: "tb_ok tb \<Longrightarrow> \<exists>tb'. tb_clamp_viewport_to h tb = Some tb' \<and> tb_ok tb'"
  using flow_rows_closed [OF tb_okD(1), of tb]
  by (auto simp: tb_clamp_viewport_to_def tb_visible_len_def intro!: ok_invalidate ok_free_fields(1))

lemma ok_geometry:
  assumes "tb_ok tb" shows "\<exists>tb'. tb_set_geometry claim content tb = Some tb' \<and> tb_ok tb'"
proof (cases "tb_configured_geometry tb = Some (claim, content)")
  case True
  with assms show ?thesis by (auto simp: tb_set_geometry_def intro: ok_invalidate)
next
  case False
  obtain tb' where "tb_reconcile_selection (tb\<lparr>tb_configured_geometry := Some (claim, content)\<rparr>) = Some tb'"
    "tb_ok tb'" using ok_reconcile [OF ok_free_fields(3) [OF assms]] by blast
  with False show ?thesis by (auto simp: tb_set_geometry_def intro: ok_invalidate)
qed

section \<open>The public interface\<close>

datatype 'a tree_call =
    Call_Reconcile "'a tree_entry list"
  | Call_Apply "'a tree_operation"
  | Call_Reveal 'a
  | Call_Clamp_Viewport usize
  | Call_Set_Geometry rect rect
  | Call_Set_Paint_Focus bool bool
  | Call_Invalidate_Paint
  | Call_Reset_Presentation
  | Call_View rect

fun tb_call :: "geometry \<Rightarrow> word_matcher \<Rightarrow> 'a tree_call \<Rightarrow> 'a tree_browser \<Rightarrow> 'a tree_browser option" where
  "tb_call geo m (Call_Reconcile entries) tb = map_option snd (tb_reconcile m entries tb)"
| "tb_call geo m (Call_Apply op) tb = map_option snd (tb_apply geo m op tb)"
| "tb_call geo m (Call_Reveal t) tb = tb_reveal t tb"
| "tb_call geo m (Call_Clamp_Viewport h) tb = tb_clamp_viewport_to h tb"
| "tb_call geo m (Call_Set_Geometry claim content) tb = tb_set_geometry claim content tb"
| "tb_call geo m (Call_Set_Paint_Focus f p) tb = Some (tb_set_paint_focus f p tb)"
| "tb_call geo m Call_Invalidate_Paint tb = Some (tb_invalidate_paint tb)"
| "tb_call geo m Call_Reset_Presentation tb = tb_reset_presentation tb"
| "tb_call geo m (Call_View area) tb = map_option snd (tb_view geo area tb)"

definition tree_run :: "geometry \<Rightarrow> word_matcher \<Rightarrow> 'a tree_call list \<Rightarrow> 'a tree_browser \<Rightarrow> 'a tree_browser option" where
  "tree_run geo m calls tb = fold_opt (tb_call geo m) calls tb"

lemma ok_call: "tb_ok tb \<Longrightarrow> \<exists>tb'. tb_call geo m c tb = Some tb' \<and> tb_ok tb'"
proof (cases c)
  case (Call_Reconcile es)
  assume "tb_ok tb"
  with ok_tree_reconcile [of tb m es] Call_Reconcile show ?thesis by auto
next
  case (Call_Apply op)
  assume "tb_ok tb"
  with ok_apply [of tb geo m op] Call_Apply show ?thesis by auto
next
  case (Call_View area)
  assume "tb_ok tb"
  with ok_view [of tb geo area] Call_View show ?thesis by auto
qed (simp_all add: ok_reveal ok_clamp ok_geometry ok_invalidate ok_reset tb_set_paint_focus_def ok_free_fields)

lemma ok_run: "tb_ok tb \<Longrightarrow> \<exists>tb'. tree_run geo m calls tb = Some tb' \<and> tb_ok tb'"
proof (induction calls arbitrary: tb)
  case (Cons c calls)
  from ok_call [OF Cons.prems] obtain tb1 where "tb_call geo m c tb = Some tb1" "tb_ok tb1" by blast
  with Cons.IH [of tb1] show ?case by (simp add: tree_run_def)
qed (simp add: tree_run_def)

text \<open>
  C2. The tree browser never hangs and never panics. From the empty owner, whatever
  projections it is given (cyclic ones too) and whatever operations, paints and resets follow
  in whatever order, every call returns: every walk up a parent chain and down the children
  ends, no lookup of a node or a parent fails. The arena is then a forest whose target map and
  child lists agree and whose depths count the ancestors, the selection, the marks and the
  pointer targets of the last frame are nodes of it, and marks are direct and distinct.
\<close>

theorem tree_browser_total:
  "\<exists>tb. tree_run geo m calls tb_new = Some tb \<and> tb_struct tb
     \<and> set_option (tb_selected tb) \<subseteq> {t. tb_node tb t \<noteq> None}
     \<and> tb_expanded tb \<subseteq> {t. tb_is_expandable tb t}
     \<and> distinct (tb_marks tb)
     \<and> set (tb_marks tb) \<subseteq> {t. map_option tn_mark_policy (tb_node tb t) = Some Mark_Direct}
     \<and> (\<forall>pt. set_option (tb_resolve_current_point geo pt tb) \<subseteq> {t. tb_node tb t \<noteq> None})"
proof -
  obtain tb where run: "tree_run geo m calls tb_new = Some tb" and ok: "tb_ok tb"
    using ok_run [OF ok_new] by blast
  have known: "tb_node tb t \<noteq> None" if "tb_known tb t" for t
  proof -
    from that obtain i where i: "tb_target_to_node tb t = Some i" by (auto simp: tb_known_def)
    then have "tb_node_target tb i = Some t" by (simp add: struct_ids [OF tb_okD(1) [OF ok]])
    with i show ?thesis by (auto simp: tb_node_def tb_entry_def tb_node_target_def)
  qed
  have "tb_known tb t" if "tb_resolve_current_point geo pt tb = Some t" for pt t
    using that tb_okD(2) [OF ok]
    by (auto simp: tb_resolve_current_point_def resolve_point_def paint_known_def
        split: option.splits if_splits dest!: find_in_set)
  then have points: "\<forall>pt. set_option (tb_resolve_current_point geo pt tb) \<subseteq> {t. tb_node tb t \<noteq> None}"
    using known by blast
  have "set (tb_marks tb) \<subseteq> {t. map_option tn_mark_policy (tb_node tb t) = Some Mark_Direct}"
    using tb_okD(5) [OF ok] by (fastforce simp: tb_direct_def tb_node_def)
  moreover have "set_option (tb_selected tb) \<subseteq> {t. tb_node tb t \<noteq> None}"
    using tb_okD(6) [OF ok] known by (cases "tb_selected tb") auto
  moreover have "tb_expanded tb \<subseteq> {t. tb_is_expandable tb t}" using tb_okD(4) [OF ok] by blast
  ultimately show ?thesis using run tb_okD(1,3) [OF ok] points by blast
qed

end
