(* ===== verification/Tree_Results.thy ===== *)
theory Tree_Results
  imports Tree_Safety Media_List_Laws
begin

text \<open>
  What the tree browser promises, stated over everything it can reach from the empty owner: the
  rows shown, the restored selection, what survives a new projection, and the aggregate mark.
\<close>

section \<open>The rows shown\<close>

text \<open>
  C9. The rows the tree shows are a filter of one fixed order. In every reachable state the
  nodes of the arena, listed in depth-first order of the projection, are all of them, once each;
  the visible nodes are those of the list that are shown: with a non-empty filter the nodes that
  match it or have a match below them, without one the nodes all of whose ancestors are
  expanded. A root's headings and spacers come before it and only when something of it is shown.
\<close>

theorem tree_shows_filtered_preorder:
  "\<exists>tb. tree_run geo m calls tb_new = Some tb
     \<and> distinct (tb_all_nodes tb) \<and> set (tb_all_nodes tb) = set (tb_ordered tb)
     \<and> tb_visible_node_ids tb = Some (filter (tb_shown tb) (tb_all_nodes tb))
     \<and> tb_visible_flow_rows tb = Some (concat (map (\<lambda>r.
          let ns = filter (tb_shown tb) (tb_preorder tb r)
          in if ns = [] then [] else structure_rows tb r @ map Visible_Node ns) (tb_roots tb)))
     \<and> tb_all_nodes tb = concat (map (tb_preorder tb) (tb_roots tb))"
proof -
  obtain tb where run: "tree_run geo m calls tb_new = Some tb" and ok: "tb_ok tb"
    using ok_run [OF ok_new] by blast
  note st = tb_okD(1) [OF ok]
  show ?thesis
    using run all_nodes_distinct [OF st] all_nodes_set [OF st] visible_ids_closed [OF st]
      flow_rows_closed [OF st]
    unfolding root_rows_def [abs_def] by (auto simp: tb_all_nodes_def)
qed

section \<open>The restored selection\<close>

lemma up_chain_all_expanded:
  assumes "tb_struct tb" "up_chain tb i ts" "List.find (\<lambda>a. a \<notin> tb_expanded tb) (rev ts) = None"
    and "(b, i) \<in> (tb_child_rel tb)\<^sup>+"
  shows "node_expanded tb b"
proof -
  from assms(4) obtain u where u: "tb_node_target tb b = Some u"
    by (auto simp: child_rel_iff skel_Some tb_node_target_def dest!: tranclD)
  have "set ts \<subseteq> tb_expanded tb" using assms(3) by (auto simp: find_None_iff)
  with u assms(4) up_chain_targets [OF assms(1,2)] show ?thesis by (auto simp: node_expanded_def)
qed

text \<open>The node a restored selection lands on: the target, or its shallowest collapsed ancestor.\<close>

definition landing :: "'a tree_browser \<Rightarrow> nat \<Rightarrow> nat \<Rightarrow> bool" where
  "landing tb i a \<longleftrightarrow> (a, i) \<in> (tb_child_rel tb)\<^sup>*
     \<and> (\<forall>b. (b, a) \<in> (tb_child_rel tb)\<^sup>+ \<longrightarrow> node_expanded tb b)
     \<and> (a = i \<or> \<not> node_expanded tb a)"

lemma anchor_lands:
  assumes "tb_ok tb" "tb_target_to_node tb t = Some i"
  obtains a v n where "landing tb i a" "tb_node_target tb a = Some v"
    "tb_anchor_selection_to t off tb
       = Some (True, tb_invalidate_paint (tb\<lparr>tb_selected := Some v, tb_viewport_offset := n\<rparr>))"
proof -
  note st = tb_okD(1) [OF assms(1)]
  obtain ts where ts: "ancestor_loop (tree_fuel tb) tb i [] = Some ts" "up_chain tb i ts"
    using chain_total [OF st assms(2)] by blast
  define v where "v = (case List.find (\<lambda>a. a \<notin> tb_expanded tb) (rev ts) of Some a \<Rightarrow> a | None \<Rightarrow> t)"
  have "\<exists>a. landing tb i a \<and> tb_node_target tb a = Some v"
  proof (cases "List.find (\<lambda>a. a \<notin> tb_expanded tb) (rev ts)")
    case None
    with up_chain_all_expanded [OF st ts(2)] assms(2) show ?thesis
      by (intro exI [of _ i]) (auto simp: landing_def v_def struct_ids [OF st])
  next
    case (Some u)
    from up_chain_shallowest [OF st ts(2) Some] obtain a where
      a: "(a, i) \<in> (tb_child_rel tb)\<^sup>+" "tb_node_target tb a = Some u"
        "\<forall>b. (b, a) \<in> (tb_child_rel tb)\<^sup>+ \<longrightarrow> node_expanded tb b" by blast
    moreover have "u \<notin> tb_expanded tb" using Some by (auto simp: find_Some_iff)
    ultimately show ?thesis using Some by (auto simp: landing_def v_def node_expanded_def)
  qed
  then obtain a where a: "landing tb i a" "tb_node_target tb a = Some v" by blast
  obtain row where "tb_visible_row_for_flow_offset off (tb\<lparr>tb_selected := Some v\<rparr>) = Some row"
    using flow_offset_total [of "tb\<lparr>tb_selected := Some v\<rparr>"] st by auto
  then have "tb_anchor_selection_to t off tb
      = Some (True, tb_invalidate_paint (tb\<lparr>tb_selected := Some v,
          tb_viewport_offset := (case row of Some r \<Rightarrow> r | None \<Rightarrow> tb_viewport_offset tb)\<rparr>))"
    using assms(2) ts(1) by (cases row) (simp_all add: tb_anchor_selection_to_def Let_def flip: v_def)
  with a that show thesis by blast
qed

text \<open>
  A restored position lands on a row. In every reachable state, asking for a target the
  projection does not hold changes nothing and reports so; asking for a known one selects it
  when all its ancestors are expanded and otherwise its shallowest collapsed ancestor, which
  itself is shown when no filter is on; nothing is expanded or collapsed by it, and the marks
  and the filter stay.
\<close>

theorem restored_selection_lands:
  "\<exists>tb found tb'. tree_run geo m calls tb_new = Some tb
     \<and> tb_anchor_selection_to t off tb = Some (found, tb')
     \<and> tb_expanded tb' = tb_expanded tb \<and> tb_marks tb' = tb_marks tb
     \<and> tb_filter_query tb' = tb_filter_query tb
     \<and> (case tb_target_to_node tb t of
          None \<Rightarrow> \<not> found \<and> tb' = tb
        | Some i \<Rightarrow> found \<and> (\<exists>a v. landing tb i a \<and> tb_node_target tb a = Some v
            \<and> tb_selected tb' = Some v \<and> (tb_filtering tb \<or> v \<in> set (tb_targets tb'))))"
proof -
  obtain tb where run: "tree_run geo m calls tb_new = Some tb" and ok: "tb_ok tb"
    using ok_run [OF ok_new] by blast
  note st = tb_okD(1) [OF ok]
  show ?thesis
  proof (cases "tb_target_to_node tb t")
    case None
    with run show ?thesis by (auto simp: tb_anchor_selection_to_def)
  next
    case (Some i)
    obtain a v n where a: "landing tb i a" "tb_node_target tb a = Some v"
      "tb_anchor_selection_to t off tb
       = Some (True, tb_invalidate_paint (tb\<lparr>tb_selected := Some v, tb_viewport_offset := n\<rparr>))"
      by (rule anchor_lands [OF ok Some])
    let ?tb' = "tb_invalidate_paint (tb\<lparr>tb_selected := Some v, tb_viewport_offset := n\<rparr>)"
    have st': "tb_struct ?tb'" using st by (simp add: tb_invalidate_paint_def)
    have "v \<in> set (tb_targets ?tb')" if "\<not> tb_filtering tb"
    proof -
      have "tb_shown tb a" using a(1) that by (simp add: tb_shown_def landing_def)
      then have "v \<in> set (tb_targets tb)" using target_listed [OF st] a(2) by (simp add: struct_ids [OF st])
      moreover have "tb_current_flow ?tb' = tb_current_flow tb"
        by (rule same_flow(3)) (simp add: same_rows_def tb_invalidate_paint_def)
      ultimately show ?thesis
        using flow_targets [OF st] flow_targets [OF st'] by (simp add: tb_flow_def)
    qed
    with run Some a show ?thesis by (fastforce simp: tb_invalidate_paint_def)
  qed
qed

section \<open>A new projection\<close>

text \<open>The nodes the arena holds, in the order of the projection.\<close>

definition tb_listing :: "'a tree_browser \<Rightarrow> 'a tree_node list" where
  "tb_listing tb = List.map_filter (\<lambda>i. map_option an_node (tb_arena tb i)) (tb_ordered tb)"

lemma map_filter_total: "(\<And>x. x \<in> set xs \<Longrightarrow> f x = Some (g x)) \<Longrightarrow> List.map_filter f xs = map g xs"
  by (induction xs) (simp_all add: List.map_filter_simps)

lemma unchanged_listing:
  assumes "\<not> tb_content_changed nodes structures tb" shows "tb_listing tb = nodes"
proof -
  from assms have len: "length (tb_ordered tb) = length nodes"
    and same: "\<And>i n. (i, n) \<in> set (zip (tb_ordered tb) nodes) \<Longrightarrow> \<exists>e. tb_arena tb i = Some e \<and> an_node e = n"
    by (auto simp: tb_content_changed_def split: option.splits)
  have "List.map_filter (\<lambda>i. map_option an_node (tb_arena tb i)) xs = ns"
    if "length xs = length ns" "set (zip xs ns) \<subseteq> set (zip (tb_ordered tb) nodes)" for xs ns
    using that
  proof (induction xs ns rule: list_induct2)
    case (Cons x xs n ns)
    then have "\<exists>e. tb_arena tb x = Some e \<and> an_node e = n" using same by auto
    with Cons show ?case by (auto simp: List.map_filter_simps)
  qed (simp add: List.map_filter_simps)
  from this [OF len subset_refl] show ?thesis by (simp add: tb_listing_def)
qed

lemma commit_form:
  assumes ok: "tb_ok tb" and f: "forest_ok nodes"
    and rb: "tb_rebuild_forest nodes (tb_next_node_id tb) = Some (fo, nid)"
    and cm: "tb_commit_reconciliation m structures fo (tb\<lparr>tb_next_node_id := nid\<rparr>) = Some tb'"
  defines "wanted \<equiv> (case tb_selected tb of
      Some t \<Rightarrow> if t \<in> set (map tn_target nodes) then Some t else map_option tn_target (nth_opt nodes 0)
    | None \<Rightarrow> map_option tn_target (nth_opt nodes 0))"
  shows "tb_listing tb' = nodes" "tb_marks tb' = filter (tb_direct tb') (tb_marks tb)"
    "tb_expanded tb' = {t \<in> tb_expanded tb. tb_is_expandable tb' t}"
    "tb_selected tb' = (if wanted \<in> Some ` set (tb_targets tb') then wanted else nth_opt (tb_targets tb') 0)"
proof -
  from rebuilt_struct [OF f, of "tb_next_node_id tb"] rb have
    st: "\<And>tb. tb_arena tb = fo_arena fo \<Longrightarrow> tb_target_to_node tb = fo_target_to_node fo \<Longrightarrow>
        tb_ordered tb = fo_ordered fo \<Longrightarrow> tb_roots tb = fo_roots fo \<Longrightarrow> tb_struct (tb :: 'a tree_browser)"
    and ids: "fo_ordered fo = node_ids nodes (tb_next_node_id tb)"
      "fo_target_to_node fo = id_of nodes (tb_next_node_id tb)"
      "\<And>i e. fo_arena fo i = Some e \<Longrightarrow> an_node e = nodes ! (i - tb_next_node_id tb)"
    by auto
  let ?sel = "reconcile_projected_selection fo tb"
  from cm obtain n b where tb3: "tb_reconcile_selection n = Some tb'"
    and n: "tb_arena n = fo_arena fo" "tb_target_to_node n = fo_target_to_node fo"
      "tb_ordered n = fo_ordered fo" "tb_roots n = fo_roots fo" "tb_selected n = rs_selected ?sel"
      "tb_expanded n = rs_expanded ?sel" "tb_marks n = rs_marks ?sel"
    by (auto simp: tb_commit_reconciliation_def Let_def bind_eq_Some_conv tb_invalidate_paint_def
        reconcile_projected_selection_def marks_set_targets_def)
  have sn: "tb_struct n" by (rule st) (simp_all add: n)
  obtain off where tb': "tb' = n\<lparr>tb_selected := settled_selection n, tb_viewport_offset := off\<rparr>"
    using reconcile_selection_form [OF sn, of "tb_viewport_height n"] tb3
    by (auto simp: tb_reconcile_selection_def)
  have st': "tb_struct tb'" using sn by (simp add: tb')
  have targets: "tb_targets tb' = tb_targets n"
    using flow_targets [OF st'] flow_targets [OF sn] by (simp add: tb' tb_flow_def)
  have entry: "tb_entry tb' = fo_node fo" by (simp add: tb' n tb_entry_def fo_node_def fun_eq_iff)
  have dom: "fo_arena fo i \<noteq> None \<longleftrightarrow> i \<in> set (fo_ordered fo)" for i
    using struct_dom [OF sn, of i] n by simp
  have ord: "tb_ordered tb' = fo_ordered fo" by (simp add: tb' n)
  have "tb_listing tb' = map (\<lambda>i. nodes ! (i - tb_next_node_id tb)) (fo_ordered fo)"
    unfolding tb_listing_def ord by (rule map_filter_total) (use dom ids(3) in \<open>fastforce simp: tb' n\<close>)
  also have "\<dots> = nodes" unfolding ids(1) node_ids_def by (rule nth_equalityI) simp_all
  finally show "tb_listing tb' = nodes" .
  have known: "fo_target_to_node fo t \<noteq> None \<longleftrightarrow> t \<in> set (map tn_target nodes)" for t
    by (auto simp: ids(2) id_of_def)
  have node_known: "fo_node fo t \<noteq> None \<Longrightarrow> fo_target_to_node fo t \<noteq> None" for t
    by (auto simp: fo_node_def bind_eq_Some_conv)
  show "tb_marks tb' = filter (tb_direct tb') (tb_marks tb)"
    using node_known by (auto simp: tb' n reconcile_projected_selection_def tb_direct_def
        entry [unfolded tb'] intro!: filter_cong split: option.splits)
  show "tb_expanded tb' = {t \<in> tb_expanded tb. tb_is_expandable tb' t}"
    by (auto simp: tb' n reconcile_projected_selection_def tb_is_expandable_def entry [unfolded tb'])
  have first: "map_option (\<lambda>e. tn_target (an_node e)) (Option.bind (nth_opt (fo_ordered fo) 0) (fo_arena fo))
      = map_option tn_target (nth_opt nodes 0)"
  proof (cases nodes)
    case (Cons a ns)
    then have "nth_opt (fo_ordered fo) 0 = Some (tb_next_node_id tb)"
      by (simp add: ids(1) node_ids_def del: upt_Suc)
    moreover from Cons dom [of "tb_next_node_id tb"] obtain e where "fo_arena fo (tb_next_node_id tb) = Some e"
      by (auto simp: ids(1) node_ids_def)
    ultimately show ?thesis using ids(3) Cons by (auto simp: nth_opt_def)
  qed (simp add: ids(1) node_ids_def nth_opt_def)
  have "tb_selected n = wanted"
    unfolding n reconcile_projected_selection_def first wanted_def
    using known by (auto split: option.splits)
  then have "settled_selection n = (if wanted \<in> Some ` set (tb_targets n) then wanted else nth_opt (tb_targets n) 0)"
    by (auto simp: settled_selection_def split: option.splits)
  then show "tb_selected tb' = (if wanted \<in> Some ` set (tb_targets tb') then wanted else nth_opt (tb_targets tb') 0)"
    unfolding targets by (simp add: tb')
qed

text \<open>
  C19. What survives a new projection. In every reachable state, a projection that is no forest
  leaves the owner exactly as it was and reports the reason; one that is replaces the nodes by
  its own, in its order, keeps of the marks those that are still directly markable and of the
  expansion the nodes that can still be expanded, and keeps the selection when it is still
  there and shown; a selection that is gone falls back to the first node of the projection, or
  to the first shown one. A projection equal to the current one changes nothing.
\<close>

theorem projection_keeps_survivors:
  "\<exists>tb r tb'. tree_run geo m calls tb_new = Some tb
     \<and> tb_reconcile m entries tb = Some (r, tb')
     \<and> r = validate_forest (project_nodes entries)
     \<and> (case r of
          Some e \<Rightarrow> tb' = tb
        | None \<Rightarrow> tb_listing tb' = project_nodes entries
            \<and> tb_marks tb' = filter (tb_direct tb') (tb_marks tb)
            \<and> tb_expanded tb' = {t \<in> tb_expanded tb. tb_is_expandable tb' t}
            \<and> (if tb_content_changed (project_nodes entries) (project_root_structures entries) tb
               then tb_selected tb' =
                 (let first = map_option tn_target (nth_opt (project_nodes entries) 0);
                      wanted = (case tb_selected tb of
                          Some t \<Rightarrow> if t \<in> set (map tn_target (project_nodes entries)) then Some t else first
                        | None \<Rightarrow> first)
                  in if wanted \<in> Some ` set (tb_targets tb') then wanted else nth_opt (tb_targets tb') 0)
               else tb' = tb))"
proof -
  obtain tb where run: "tree_run geo m calls tb_new = Some tb" and ok: "tb_ok tb"
    using ok_run [OF ok_new] by blast
  let ?ns = "project_nodes entries" and ?ss = "project_root_structures entries"
  show ?thesis
  proof (cases "validate_forest ?ns")
    case (Some e)
    with run show ?thesis by (auto simp: tb_reconcile_def)
  next
    case None
    then have f: "forest_ok ?ns" by (simp add: validate_None)
    show ?thesis
    proof (cases "tb_content_changed ?ns ?ss tb")
      case False
      have "filter (tb_direct tb) (tb_marks tb) = tb_marks tb"
        using tb_okD(5) [OF ok] by (auto intro!: filter_True)
      with False None run unchanged_listing [OF False] tb_okD(4) [OF ok] show ?thesis
        by (auto simp: tb_reconcile_def Let_def)
    next
      case True
      obtain r tb' where rec: "tb_reconcile m entries tb = Some (r, tb')"
        using ok_tree_reconcile [OF ok] by blast
      with None True obtain fo nid where
        rb: "tb_rebuild_forest ?ns (tb_next_node_id tb) = Some (fo, nid)" and
        cm: "tb_commit_reconciliation m ?ss fo (tb\<lparr>tb_next_node_id := nid\<rparr>) = Some tb'" and r: "r = None"
        by (auto simp: tb_reconcile_def Let_def bind_eq_Some_conv)
      from commit_form [OF ok f rb cm] rec run None True r show ?thesis by (auto simp: Let_def)
    qed
  qed
qed

section \<open>The aggregate mark\<close>

lemma fold_marks_add: "set (fold (\<lambda>c ms. snd (marks_add c ms)) cs ms) = set ms \<union> set cs"
  by (induction cs arbitrary: ms) (auto simp: marks_add_simps)

lemma fold_marks_remove:
  "distinct ms \<Longrightarrow> set (fold (\<lambda>c ms. snd (marks_remove c ms)) cs ms) = set ms - set cs"
proof (induction cs arbitrary: ms)
  case (Cons c cs)
  then have "distinct (filter (\<lambda>m. m \<noteq> c) ms)" by simp
  from Cons.IH [OF this] Cons.prems show ?case by (auto simp: marks_remove_filter)
qed simp

lemma fold_marks_toggle:
  "distinct ms \<Longrightarrow> set (fold (\<lambda>c ms. snd (if b then marks_remove c ms else marks_add c ms)) cs ms)
     = (if b then set ms - set cs else set ms \<union> set cs)"
  by (cases b) (simp_all add: fold_marks_add fold_marks_remove)

text \<open>The directly markable targets under a node that pass the filter, collapsed or not.\<close>

definition direct_below :: "'a tree_browser \<Rightarrow> 'a \<Rightarrow> 'a set" where
  "direct_below tb t = {u. \<exists>i j e. tb_target_to_node tb t = Some i \<and> (i, j) \<in> (tb_child_rel tb)\<^sup>+
     \<and> node_passes tb j \<and> tb_arena tb j = Some e \<and> tn_mark_policy (an_node e) = Mark_Direct
     \<and> u = tn_target (an_node e)}"

lemma set_direct_targets:
  "set (direct_targets tb ds) = {u. \<exists>j e. j \<in> set ds \<and> tb_arena tb j = Some e
     \<and> tn_mark_policy (an_node e) = Mark_Direct \<and> u = tn_target (an_node e)}"
  by (force simp: direct_targets_def List.map_filter_def)

text \<open>
  Marking a branch marks all of it or none of it. In every reachable state the mark key
  changes only the marks: on a directly markable node it adds or removes that node, on an
  excluded or unknown one nothing, and on an aggregate the directly markable nodes below it
  that the filter lets through, collapsed ones included, all become marked unless all of them
  were, and then all become unmarked; the other marks stay, and an aggregate with none below
  reports that nothing happened.
\<close>

theorem aggregate_mark_is_all_or_none:
  "\<exists>tb found tb'. tree_run geo m calls tb_new = Some tb
     \<and> tb_toggle_mark_target t tb = Some (found, tb') \<and> tb' = tb\<lparr>tb_marks := tb_marks tb'\<rparr>
     \<and> (case map_option (\<lambda>e. tn_mark_policy (an_node e)) (tb_entry tb t) of
          Some Mark_Direct \<Rightarrow> found \<and> set (tb_marks tb') =
            (if t \<in> set (tb_marks tb) then set (tb_marks tb) - {t} else insert t (set (tb_marks tb)))
        | Some Mark_Aggregate \<Rightarrow> found = (direct_below tb t \<noteq> {}) \<and> set (tb_marks tb') =
            (if direct_below tb t \<subseteq> set (tb_marks tb) then set (tb_marks tb) - direct_below tb t
             else set (tb_marks tb) \<union> direct_below tb t)
        | _ \<Rightarrow> \<not> found \<and> tb' = tb)"
proof -
  obtain tb where run: "tree_run geo m calls tb_new = Some tb" and ok: "tb_ok tb"
    using ok_run [OF ok_new] by blast
  note st = tb_okD(1) [OF ok] and dist = tb_okD(3) [OF ok]
  show ?thesis
  proof (cases "tb_target_to_node tb t")
    case None
    with run show ?thesis by (auto simp: tb_toggle_mark_target_def tb_entry_def)
  next
    case (Some i)
    then have "tb_node_target tb i = Some t" by (simp add: struct_ids [OF st])
    then obtain e where e: "tb_arena tb i = Some e" by (auto simp: tb_node_target_def)
    with Some have entry: "tb_entry tb t = Some e" by (simp add: tb_entry_def)
    show ?thesis
    proof (cases "tn_mark_policy (an_node e)")
      case Mark_Direct
      with run Some e entry show ?thesis
        by (auto simp: tb_toggle_mark_target_def marks_contains_iff marks_add_simps
            marks_remove_filter [OF dist])
    next
      case Mark_Aggregate
      obtain ds where ds: "tb_visible_descendants tb i = Some ds"
        "set ds = {j. (i, j) \<in> (tb_child_rel tb)\<^sup>+ \<and> node_passes tb j}"
        by (rule visible_descendants_closed [OF st])
      have below: "set (direct_targets tb ds) = direct_below tb t"
        using Some by (auto simp: set_direct_targets direct_below_def ds(2))
      let ?all = "\<forall>c\<in>set (direct_targets tb ds). marks_contains c (tb_marks tb)"
      let ?ms = "fold (\<lambda>c ms. snd (if ?all then marks_remove c ms else marks_add c ms))
        (direct_targets tb ds) (tb_marks tb)"
      have call: "tb_toggle_mark_target t tb = Some (if direct_targets tb ds = [] then (False, tb)
          else (True, tb\<lparr>tb_marks := ?ms\<rparr>))"
        unfolding tb_toggle_mark_target_def Some option.case e bind.bind_lunit Mark_Aggregate
          tree_mark_policy.case ds(1) Let_def ..
      have "?all \<longleftrightarrow> direct_below tb t \<subseteq> set (tb_marks tb)"
        by (auto simp: marks_contains_iff below)
      then have ms: "set ?ms = (if direct_below tb t \<subseteq> set (tb_marks tb)
          then set (tb_marks tb) - direct_below tb t else set (tb_marks tb) \<union> direct_below tb t)"
        unfolding fold_marks_toggle [OF dist] below by simp
      show ?thesis
      proof (cases "direct_targets tb ds = []")
        case True
        then have "direct_below tb t = {}" by (simp flip: below)
        with True run call entry Mark_Aggregate show ?thesis by auto
      next
        case False
        then have "direct_below tb t \<noteq> {}" by (simp flip: below)
        moreover define tb' where "tb' = tb\<lparr>tb_marks := ?ms\<rparr>"
        moreover have "tb_toggle_mark_target t tb = Some (True, tb')" using False call by (simp add: tb'_def)
        moreover have "set (tb_marks tb') = (if direct_below tb t \<subseteq> set (tb_marks tb)
            then set (tb_marks tb) - direct_below tb t else set (tb_marks tb) \<union> direct_below tb t)"
          unfolding tb'_def using ms by simp
        moreover have "tb' = tb\<lparr>tb_marks := tb_marks tb'\<rparr>" by (simp add: tb'_def)
        ultimately show ?thesis using run entry Mark_Aggregate by (intro exI [of _ tb] exI [of _ True] exI [of _ tb']) simp
      qed
    qed (use run Some e entry in \<open>auto simp: tb_toggle_mark_target_def\<close>)
  qed
qed

section \<open>A scroll lost under a filter\<close>

text \<open>
  A projection is committed while the filter's matches still name the nodes of the forest before
  it, so the visible length the offset is clamped with is the length of nothing: three rows that
  all match, scrolled by the wheel to the third, and one more row is projected. Without the
  filter the offset stays, with it the list jumps to the top.
\<close>

definition sample_geometry :: geometry where
  "sample_geometry =
     \<lparr>geo_contains = (\<lambda>r p. rect_y r = point_y p), geo_bottom = (\<lambda>r. rect_y r + rect_height r),
      geo_new = (\<lambda>x y w h. \<lparr>rect_x = x, rect_y = y, rect_width = w, rect_height = h\<rparr>)\<rparr>"

definition sample_matcher :: word_matcher where
  "sample_matcher w q = (if w = q then Some 1 else None)"

definition sample_projection :: "nat list \<Rightarrow> nat tree_call" where
  "sample_projection ts = Call_Reconcile
     (map (\<lambda>t. Entry_Node (tree_node_new t None ''a'' ''a'' MS_Ordinary Mark_Direct)) ts)"

definition sample_scrolled :: "nat tree_call list \<Rightarrow> nat tree_browser option" where
  "sample_scrolled before = tree_run sample_geometry sample_matcher
     ([sample_projection [1, 2, 3],
       (let r = \<lparr>rect_x = 0, rect_y = 0, rect_width = 9, rect_height = 1\<rparr> in Call_Set_Geometry r r)]
      @ before @ [Call_Apply (Op_Scroll 2), sample_projection [1, 2, 3, 4]]) tb_new"

lemma filtered_scroll_lost:
  "map_option (\<lambda>tb. (tb_viewport_offset tb, map_option length (tb_visible_flow_rows tb)))
     (sample_scrolled []) = Some (2, Some 4)"
  "map_option (\<lambda>tb. (tb_viewport_offset tb, map_option length (tb_visible_flow_rows tb)))
     (sample_scrolled [Call_Apply (Op_Edit_Filter ''a'')]) = Some (0, Some 4)"
  by code_simp+

end
