(* ===== verification/Run_Endings.thy ===== *)
theory Run_Endings
  imports Run_Commands
begin

text \<open>
  How an item and a run end (\<^verbatim>\<open>run/events/queue_advance.rs\<close>, \<^verbatim>\<open>run/events/termination.rs\<close>,
  \<^verbatim>\<open>run/state.rs\<close>, the stop and quit paths of \<^verbatim>\<open>run/run_loop.rs\<close>): mpv's end-file events advance the
  queue or end the run, errors end it, a stop request and mpv's shutdown end it. What mpv, the
  server and the configuration answer is an argument.
\<close>

section \<open>Answers of mpv, the server and the configuration\<close>

record answers =
  an_playlist_pos :: i64
  an_position_ticks :: i64
  an_set_works :: bool
  an_select :: "queue_item \<Rightarrow> select_io"
  an_select_error :: string
  an_mark_works :: bool
  an_seek_works :: bool
  an_seek_settled :: bool
  an_idle_active :: bool
  an_playlist_count :: i64
  an_duration :: "seconds option"
  an_fetch :: fetch_items
  an_use_mpv_config :: bool
  an_skip_intro :: bool

section \<open>Ends of items and runs\<close>

record stop_outcome =
  so_slot_id :: "queue_slot_id option"
  so_position_ticks :: i64
  so_played :: bool
  so_consume :: bool
  so_error :: "string option"

definition end_run :: "stop_outcome \<Rightarrow> play_run \<Rightarrow> play_run" where
  "end_run outcome r =
     (let (closed, l) = close_run (pr_identity r) (pr_lifecycle r);
          r1 = r\<lparr>pr_lifecycle := l\<rparr>
      in if \<not> closed then r1
         else emit (Event_Stopped (so_slot_id outcome) (pr_identity r1) (so_position_ticks outcome)
                     (so_played outcome) (so_consume outcome) (so_error outcome))
                (r1\<lparr>pr_status := (pr_status r1)\<lparr>ps_active := False\<rparr>\<rparr>))"

definition report_stop_now_or_background :: "play_run \<Rightarrow> play_run" where
  "report_stop_now_or_background r =
     (let r1 = report_stopped (pr_last_valid_pos r) r
      in r1\<lparr>pr_item := mark_reported Sent (pr_item r1)\<rparr>)"

definition pin_stop_runtime :: "play_run \<Rightarrow> play_run" where
  "pin_stop_runtime r =
     r\<lparr>pr_stop_runtime :=
         opt_or (opt_filter (\<lambda>t. t > 0) (map_option qi_runtime_ticks (pr_active_item r)))
           (opt_filter (\<lambda>t. t > 0) (Some (ps_runtime_ticks (pr_status r))))\<rparr>"

definition cancel_pending_quit :: "play_run \<Rightarrow> play_run" where
  "cancel_pending_quit r =
     r\<lparr>pr_quit_at := False, pr_stop_slot := None, pr_stop_runtime := None, pr_shutdown_timeout := False\<rparr>"

definition close_prepared_source_at :: "i64 \<Rightarrow> play_run \<Rightarrow> play_run" where
  "close_prepared_source_at pos r = emit (Close_Source pos) r"

definition reset_next_up_state :: "play_run \<Rightarrow> play_run" where
  "reset_next_up_state r =
     r\<lparr>pr_next_up := next_up_reset (pr_next_up r),
       pr_queue_next_up := next_up_reset (pr_queue_next_up r), pr_next_up_jump := False\<rparr>"

definition begin_item_lifecycle :: "stop_action \<Rightarrow> play_run \<Rightarrow> play_run" where
  "begin_item_lifecycle action r =
     (let report = (case action of ReportedNow rep \<Rightarrow> rep | Deferred \<Rightarrow> NotSent | NothingPlaying \<Rightarrow> NotSent);
          r1 = r\<lparr>pr_item := accept_replacement (mark_reported report (pr_item r)),
                 pr_tracks_initialized := False, pr_lifecycle := disarm_jump (pr_lifecycle r)\<rparr>;
          r2 = reset_next_up_state r1
      in r2\<lparr>pr_mark_played_id := None, pr_stopped_near_end := False\<rparr>)"

definition park_for_failed_load :: "play_run \<Rightarrow> play_run" where
  "park_for_failed_load r =
     (let old_pos = pr_last_valid_pos r;
          r1 = (if is_unreported (pr_item r)
                then (let a = report_stopped old_pos r in a\<lparr>pr_item := mark_reported Sent (pr_item a)\<rparr>)
                else r);
          r2 = emit Mpv_Playlist_Clear (emit Mpv_Stop (close_prepared_source_at old_pos r1))
      in clear_session (begin_item_lifecycle (ReportedNow (il_stop_report (pr_item r2))) r2))"

definition mark_played_or_retry :: "bool \<Rightarrow> queue_item \<Rightarrow> play_run \<Rightarrow> play_run" where
  "mark_played_or_retry played_out it r =
     (if \<not> played_out then r
      else (case qi_as_emby it of None \<Rightarrow> r | Some e \<Rightarrow> emit (Mark_Played (emby_id e)) r))"

definition emit_track_changed :: "queue_slot_id \<Rightarrow> transition option \<Rightarrow> play_run \<Rightarrow> play_run" where
  "emit_track_changed sid tr r =
     emit (Event_Track_Changed sid
       (map_option (\<lambda>t. (tr_request_id t, tr_generation t)) (opt_filter (\<lambda>t. tr_target t = sid) tr))) r"

definition set_next_item_status :: "queue_item \<Rightarrow> play_run \<Rightarrow> play_run" where
  "set_next_item_status it r =
     r\<lparr>pr_status := show_item it
         ((pr_status r)\<lparr>ps_position_ticks := 0, ps_runtime_ticks := qi_runtime_ticks it,
            ps_current_idx := pr_current_idx r, ps_queue_len := pr_queue_len r\<rparr>)\<rparr>"

definition start_next_item_reporting :: "queue_item \<Rightarrow> play_run \<Rightarrow> play_run" where
  "start_next_item_reporting it r =
     (case qi_as_emby it of Some e \<Rightarrow> start_item e r | None \<Rightarrow> clear_session r)"

definition ep_tag :: "emby_item \<Rightarrow> string" where
  "ep_tag e =
     (if emby_item_type e = ''Episode'' \<and> emby_parent_index_number e > 0 \<and> emby_index_number e > 0
      then ''Season '' @ dec (nat (emby_parent_index_number e))
           @ ''  Episode '' @ dec (nat (emby_index_number e))
      else [])"

definition send_ep_info :: "queue_item \<Rightarrow> play_run \<Rightarrow> play_run" where
  "send_ep_info it r =
     (case qi_as_emby it of Some e \<Rightarrow> emit (Mpv_Episode_Info (ep_tag e)) r | None \<Rightarrow> r)"

section \<open>The end of a queue entry\<close>

text \<open>What \<^verbatim>\<open>on_end_file_queue\<close> computed of the completed entry.\<close>

record queue_end_stop =
  qe_slot_id :: "queue_slot_id option"
  qe_item :: queue_item
  qe_pos :: i64
  qe_played_out :: bool
  qe_consume :: bool
  qe_natural :: bool
  qe_runtime :: i64

definition stop_for_missing_completed :: "queue_slot_id option \<Rightarrow> play_run \<Rightarrow> play_run" where
  "stop_for_missing_completed sl r =
     (let r1 = report_stopped (pr_last_valid_pos r) r;
          r2 = r1\<lparr>pr_item := mark_reported Sent (pr_item r1)\<rparr>
      in end_run \<lparr>so_slot_id = sl, so_position_ticks = pr_last_valid_pos r2, so_played = False,
                  so_consume = False, so_error = None\<rparr> r2)"

definition stop_at_queue_end :: "queue_end_stop \<Rightarrow> play_run \<Rightarrow> play_run" where
  "stop_at_queue_end stop r =
     (let r1 = report_stopped (qe_pos stop) r;
          r2 = r1\<lparr>pr_item := mark_reported Sent (pr_item r1)\<rparr>;
          r3 = close_prepared_source_at
                 (provider_lifecycle_close_pos (qe_item stop) (qe_natural stop) (qe_runtime stop)
                    (pr_last_valid_pos r2)) r2;
          r4 = mark_played_or_retry (qe_played_out stop) (qe_item stop) r3
      in end_run \<lparr>so_slot_id = qe_slot_id stop, so_position_ticks = qe_pos stop,
                  so_played = qe_played_out stop, so_consume = qe_consume stop, so_error = None\<rparr> r4)"

definition stop_for_failed_advance :: "queue_slot_id option \<Rightarrow> play_run \<Rightarrow> play_run" where
  "stop_for_failed_advance sl r =
     end_run \<lparr>so_slot_id = sl, so_position_ticks = 0, so_played = False, so_consume = False,
              so_error = Some ''failed to prepare media: service unavailable''\<rparr> r"

text \<open>
  The step to the next entry. \<open>None\<close> is the panic of the \<^verbatim>\<open>expect\<close>; the \<^verbatim>\<open>debug_assert\<close> before
  it is compiled out in release builds and not part of the model.
\<close>

definition advance_select :: "answers \<Rightarrow> queue_end_stop \<Rightarrow> usize \<Rightarrow> play_run \<Rightarrow> bool \<times> play_run" where
  "advance_select ans end_stop next_idx r =
     (if is_active_file (pr_lifecycle r)
      then (let r1 = close_prepared_source_at
                   (provider_lifecycle_close_pos (qe_item end_stop) (qe_natural end_stop)
                      (qe_runtime end_stop) (pr_last_valid_pos r)) r;
                (selected, r2) = (case pr_slot_id_at r next_idx of
                      None \<Rightarrow> (False, r1)
                    | Some sid \<Rightarrow> select_active_slot (an_select ans) sid r1)
            in (selected, if selected then r2\<lparr>pr_item := snd (on_drained (pr_item r2))\<rparr> else r2))
      else set_active_index next_idx r)"

text \<open>The bookkeeping between the two entries.\<close>

definition enter_next_item :: "queue_end_stop \<Rightarrow> queue_item \<Rightarrow> play_run \<Rightarrow> play_run" where
  "enter_next_item end_stop next_item r =
     (let r1 = set_next_item_status next_item (r\<lparr>pr_tracks_initialized := False\<rparr>);
          r2 = report_stopped (qe_pos end_stop) r1;
          r3 = mark_played_or_retry (qe_played_out end_stop) (qe_item end_stop) r2;
          r4 = emit (Mpv_Set_Start 0) r3;
          r5 = r4\<lparr>pr_queue_next_up := next_up_reset (pr_queue_next_up r4)\<rparr>;
          r6 = emit (Mpv_Script ''mbv-skip-intro-dismiss'') (send_ep_info next_item r5)
      in start_next_item_reporting next_item r6)"

definition announce_advance :: "queue_end_stop \<Rightarrow> transition option \<Rightarrow> play_run \<Rightarrow> play_run" where
  "announce_advance end_stop settling r =
     (let r1 = (case qe_slot_id end_stop of
                  Some sid \<Rightarrow> emit (Event_Track_Completed sid (pr_identity r) (qe_pos end_stop)
                                    (qe_played_out end_stop) (qe_consume end_stop)) r
                | None \<Rightarrow> r)
      in case pr_active_slot_id r1 of
           Some sid \<Rightarrow> emit_track_changed sid settling r1
         | None \<Rightarrow> r1)"

definition advance_to_next_track ::
  "answers \<Rightarrow> queue_end_stop \<Rightarrow> usize \<Rightarrow> transition option \<Rightarrow> play_run \<Rightarrow> play_run option" where
  "advance_to_next_track ans end_stop next_idx settling r =
     (let (advanced, r1) = advance_select ans end_stop next_idx r in
      case pr_active_item r1 of
        None \<Rightarrow> None
      | Some next_item \<Rightarrow>
          (let r2 = load_active_item_state r1 in
           if is_active_file (pr_lifecycle r2) \<and> \<not> advanced
           then Some (stop_for_failed_advance (qe_slot_id end_stop) r2)
           else Some (announce_advance end_stop settling (enter_next_item end_stop next_item r2))))"

definition settle_forced_jump :: "play_run \<Rightarrow> (usize \<times> transition option) \<times> play_run" where
  "settle_forced_jump r =
     (let target_index = Option.bind (jump_target_slot (pr_lifecycle r)) (es_slot_index (pr_queue r));
          (res, l) = jump_settled_on_end_file target_index (pr_current_idx r) (pr_queue_len r) (pr_lifecycle r)
      in (res, r\<lparr>pr_lifecycle := l\<rparr>))"

definition handle_superseded_jump :: "answers \<Rightarrow> queue_slot_id option \<Rightarrow> play_run \<Rightarrow> play_run" where
  "handle_superseded_jump ans sl r =
     (case (if is_active_file (pr_lifecycle r) then None
            else divergent_entry (an_playlist_pos ans) (pr_current_idx r) (pr_queue_len r)) of
        None \<Rightarrow> r
      | Some index \<Rightarrow>
          snd (report_stopped_and_adopt_mpv_entry sl (pr_last_valid_pos r) index (an_position_ticks ans) r))"

text \<open>The result is the code's: whether the event loop goes on without looking at the status.\<close>

definition on_end_file_queue ::
  "answers \<Rightarrow> end_file_reason \<Rightarrow> queue_slot_id option \<Rightarrow> bool \<Rightarrow> play_run \<Rightarrow> (bool \<times> play_run) option" where
  "on_end_file_queue ans reason sl is_audio r =
     (case Option.bind sl (es_slot (pr_queue r)) of
        None \<Rightarrow> Some (False, stop_for_missing_completed sl r)
      | Some s \<Rightarrow>
          (let item = xs_item s;
               runtime = qi_runtime_ticks item;
               natural = (reason = EF_Eof \<and> runtime > 0);
               was_next_up = pr_next_up_jump r;
               r1 = r\<lparr>pr_next_up_jump := False\<rparr>;
               (track_finished, played_out, consume_track, completed_pos) =
                 completed_outcome reason is_audio was_next_up (pr_last_valid_pos r1) runtime
           in if is_superseded_jump_end_file reason (rl_jump (pr_lifecycle r1)) track_finished
              then Some (True, handle_superseded_jump ans sl r1)
              else
                (let ((next_idx, settling), r2) = settle_forced_jump r1;
                     end_stop = \<lparr>qe_slot_id = sl, qe_item = item, qe_pos = completed_pos,
                       qe_played_out = played_out, qe_consume = consume_track,
                       qe_natural = natural, qe_runtime = runtime\<rparr>
                 in if next_idx \<ge> pr_queue_len r2
                    then Some (False, stop_at_queue_end end_stop r2)
                    else map_option (\<lambda>r3. (False, r3))
                           (advance_to_next_track ans end_stop next_idx settling r2))))"

definition handle_queue_quit :: "queue_slot_id option \<Rightarrow> bool \<Rightarrow> play_run \<Rightarrow> play_run" where
  "handle_queue_quit sl is_audio r =
     (let runtime = (case pr_active_item r of None \<Rightarrow> 0 | Some it \<Rightarrow> qi_runtime_ticks it);
          r1 = r\<lparr>pr_stop_runtime := Some runtime\<rparr>;
          near_end = is_near_end is_audio False (pr_last_valid_pos r1) runtime;
          r2 = (if is_unreported (pr_item r1) then report_stop_now_or_background r1 else r1);
          r3 = (if near_end \<and> \<not> is_audio \<and> has_session r2 then emit (Mark_Played (pr_reporter_id r2)) r2
                else r2)
      in r3\<lparr>pr_stopped_near_end := near_end, pr_stop_slot := sl\<rparr>)"

section \<open>The end of a standalone file\<close>

definition report_for_end_file :: "end_file_reason \<Rightarrow> play_run \<Rightarrow> play_run" where
  "report_for_end_file reason r =
     (if reason = EF_Quit then report_stop_now_or_background r
      else (let r1 = report_stopped (pr_last_valid_pos r) r
            in r1\<lparr>pr_item := mark_reported Sent (pr_item r1)\<rparr>))"

definition retry_natural_mark_played :: "answers \<Rightarrow> bool \<Rightarrow> bool \<Rightarrow> play_run \<Rightarrow> play_run" where
  "retry_natural_mark_played ans natural_end is_audio r =
     (if \<not> natural_end \<or> is_audio \<or> \<not> has_session r then r
      else (let r1 = emit (Mark_Played (pr_reporter_id r)) r
            in if an_mark_works ans then r1 else r1\<lparr>pr_mark_played_id := Some (pr_reporter_id r)\<rparr>))"

definition on_end_file_standalone :: "answers \<Rightarrow> end_file_reason \<Rightarrow> play_run \<Rightarrow> play_run" where
  "on_end_file_standalone ans reason r =
     (let r1 = (if reason = EF_Quit then pin_stop_runtime r else r);
          runtime = ps_runtime_ticks (pr_status r1);
          natural_end = (reason = EF_Eof \<and> runtime > 0);
          is_audio = pr_reporter_audio r1;
          sl = pr_active_slot_id r1;
          r2 = report_for_end_file reason r1;
          lifecycle_pos = (case pr_active_item r2 of
              None \<Rightarrow> pr_last_valid_pos r2
            | Some it \<Rightarrow> provider_lifecycle_close_pos it natural_end runtime (pr_last_valid_pos r2));
          r3 = retry_natural_mark_played ans natural_end is_audio (close_prepared_source_at lifecycle_pos r2)
      in end_run \<lparr>so_slot_id = sl, so_position_ticks = 0,
                  so_played = (natural_end \<and> \<not> is_audio \<and> has_session r3),
                  so_consume = False, so_error = None\<rparr> r3)"

section \<open>End-file events\<close>

definition on_end_file :: "answers \<Rightarrow> end_file_reason \<Rightarrow> play_run \<Rightarrow> (bool \<times> play_run) option" where
  "on_end_file ans reason r =
     (if pr_quit_at r then Some (True, r)
      else if il_load_state (pr_item r) \<noteq> Ready
      then Some (True, r\<lparr>pr_item := snd (on_drained (pr_item r))\<rparr>)
      else
        (let sl = pr_active_slot_id r; is_audio = pr_reporter_audio r in
         if pr_origin r = Origin_Queue \<and> reason = EF_Quit
         then Some (True, handle_queue_quit sl is_audio r)
         else if pr_origin r = Standalone then Some (False, on_end_file_standalone ans reason r)
         else on_end_file_queue ans reason sl is_audio r))"

text \<open>The event loop returns when the handler did not ask to go on and the run is inactive.\<close>

definition end_file_tick :: "answers \<Rightarrow> end_file_reason \<Rightarrow> play_run \<Rightarrow> (bool \<times> play_run) option" where
  "end_file_tick ans reason r =
     map_option (\<lambda>(should_continue, r1). (\<not> should_continue \<and> \<not> ps_active (pr_status r1), r1))
       (on_end_file ans reason r)"

section \<open>Errors\<close>

datatype mpv_failure = Audio_Output_Init | Process_Exited | Other_Failure string

fun failure_text :: "mpv_failure \<Rightarrow> string" where
  "failure_text Audio_Output_Init = ''audio output initialization failed''"
| "failure_text Process_Exited = ''mpv process exited''"
| "failure_text (Other_Failure text) = text"

definition is_clocked_audio_error :: "mpv_failure \<Rightarrow> bool \<Rightarrow> bool" where
  "is_clocked_audio_error failure audio_device_configured \<longleftrightarrow>
     audio_device_configured \<and> failure = Audio_Output_Init"

definition stop_run_with_error :: "queue_slot_id option \<Rightarrow> i64 \<Rightarrow> string \<Rightarrow> play_run \<Rightarrow> play_run" where
  "stop_run_with_error failed_slot pos error r =
     (let r1 = close_prepared_source r;
          r2 = close_prepared_source_at (pr_last_valid_pos r1) r1
      in end_run \<lparr>so_slot_id = failed_slot, so_position_ticks = pos, so_played = False,
                  so_consume = False, so_error = Some error\<rparr> r2)"

definition run_position_of :: "play_run \<Rightarrow> run_position" where
  "run_position_of r =
     \<lparr>rp_current_idx = pr_current_idx r, rp_queue_len = pr_queue_len r,
      rp_current_slot = pr_slot_id_at r (pr_current_idx r),
      rp_jump_target_idx = Option.bind (jump_target_slot (pr_lifecycle r)) (es_slot_index (pr_queue r))\<rparr>"

definition stop_for_process_exit :: "mpv_failure \<Rightarrow> play_run \<Rightarrow> bool \<times> play_run" where
  "stop_for_process_exit failure r =
     (if failure \<noteq> Process_Exited then (False, r)
      else (True, stop_run_with_error (pr_active_slot_id r) (pr_last_valid_pos r)
                    ''mpv process exited unexpectedly'' r))"

definition stop_for_unrecoverable_error :: "mpv_failure \<Rightarrow> play_run \<Rightarrow> bool \<times> play_run" where
  "stop_for_unrecoverable_error failure r =
     (case failure of
        Other_Failure text \<Rightarrow>
          (let (verdict, l) = load_failed (run_position_of r) (pr_lifecycle r);
               r1 = r\<lparr>pr_lifecycle := l\<rparr>
           in case verdict of
                Continue \<Rightarrow> (False, r1)
              | EndRun failed_slot phase \<Rightarrow>
                  (True, stop_run_with_error failed_slot (pr_last_valid_pos r1)
                     ((case phase of BeforeStart \<Rightarrow> ''failed to start media: ''
                                   | AfterStart \<Rightarrow> ''failed to play media: '') @ failure_text failure) r1))
      | _ \<Rightarrow> (False, r))"

text \<open>The configured audio device, when there is one, is an argument. True ends the event loop.\<close>

definition on_mpv_error :: "string option \<Rightarrow> mpv_failure \<Rightarrow> play_run \<Rightarrow> bool \<times> play_run" where
  "on_mpv_error audio_device failure r =
     (let (done1, r1) = stop_for_process_exit failure r in
      if done1 then (True, r1)
      else
        (let (done2, r2) = stop_for_unrecoverable_error failure r1 in
         if done2 then (True, r2)
         else if \<not> is_clocked_audio_error failure (audio_device \<noteq> None) then (False, r2)
         else (True, stop_run_with_error (pr_active_slot_id r2) 0
                 (''audio output failed to start (device: ''
                    @ (case audio_device of None \<Rightarrow> [] | Some d \<Rightarrow> d) @ '')'') r2)))"

section \<open>Stop requests and shutdown\<close>

definition handle_stop_request :: "play_run \<Rightarrow> play_run" where
  "handle_stop_request r =
     pin_stop_runtime ((emit Mpv_Quit r)\<lparr>pr_quit_at := True, pr_stop_slot := pr_active_slot_id r\<rparr>)"

definition stopped_runtime :: "play_run \<Rightarrow> i64" where
  "stopped_runtime r =
     (case opt_or (pr_stop_runtime r) (map_option qi_runtime_ticks (pr_active_item r)) of
        Some t \<Rightarrow> t | None \<Rightarrow> 0)"

definition finalize_quit :: "play_run \<Rightarrow> play_run" where
  "finalize_quit r =
     (let r1 = (if is_unreported (pr_item r) then report_stop_now_or_background r else r);
          (played, consume) = quit_timeout_stop_flags (pr_origin r1) (pr_reporter_audio r1)
             (pr_last_valid_pos r1) (stopped_runtime r1) (pr_stopped_near_end r1)
      in end_run \<lparr>so_slot_id = opt_or (pr_stop_slot r1) (pr_active_slot_id r1),
                  so_position_ticks = pr_last_valid_pos r1, so_played = played,
                  so_consume = consume, so_error = None\<rparr> r1)"

definition shutdown_standalone :: "queue_slot_id option \<Rightarrow> play_run \<Rightarrow> play_run" where
  "shutdown_standalone sl r =
     (let r1 = (case pr_mark_played_id r of None \<Rightarrow> r | Some m \<Rightarrow> emit (Mark_Played m) r)
                 \<lparr>pr_mark_played_id := None\<rparr>;
          near_end = (has_session r1
             \<and> is_near_end (pr_reporter_audio r1) False (pr_last_valid_pos r1) (stopped_runtime r1));
          r2 = (if near_end then emit (Mark_Played (pr_reporter_id r1)) r1 else r1);
          r3 = end_run \<lparr>so_slot_id = sl, so_position_ticks = pr_last_valid_pos r2,
                        so_played = near_end, so_consume = False, so_error = None\<rparr> r2
      in if pr_quit_at r3 then r3 else emit Event_Mpv_Quit r3)"

definition shutdown_queue :: "queue_slot_id option \<Rightarrow> play_run \<Rightarrow> play_run" where
  "shutdown_queue sl r =
     (let r1 = end_run \<lparr>so_slot_id = sl, so_position_ticks = pr_last_valid_pos r,
                        so_played = pr_stopped_near_end r, so_consume = pr_stopped_near_end r,
                        so_error = None\<rparr> r
      in if pr_quit_at r1 then r1 else emit Event_Mpv_Quit r1)"

definition on_shutdown :: "play_run \<Rightarrow> play_run" where
  "on_shutdown r =
     (let sl = opt_or (pr_stop_slot r) (pr_active_slot_id r);
          r1 = close_prepared_source (r\<lparr>pr_stop_slot := None\<rparr>);
          r2 = (if is_unreported (pr_item r1) then report_stop_now_or_background r1 else r1)
      in if pr_origin r2 = Standalone then shutdown_standalone sl r2 else shutdown_queue sl r2)"

end
