(* ===== verification/Run_Starts.thy ===== *)
theory Run_Starts
  imports Run_Endings
begin

text \<open>
  How a run starts playing something (\<^verbatim>\<open>run/commands/queue.rs\<close>, \<^verbatim>\<open>run/commands/load.rs\<close>,
  \<^verbatim>\<open>run/events/restart.rs\<close>, \<^verbatim>\<open>start_queue_playback\<close> and \<^verbatim>\<open>reassert_queue_layout\<close> of \<^verbatim>\<open>lib.rs\<close>):
  jumps to a slot, appends, queue submissions and replacements, and mpv's report that playback
  has restarted. \<open>None\<close> is the panic of the execution sequence on a duplicate slot identity. The
  position a prepared source starts at and the external subtitles are not modelled.
\<close>

section \<open>Jumps\<close>

definition slot_id_debug :: "queue_slot_id \<Rightarrow> string" where
  "slot_id_debug sid = ''QueueSlotId('' @ dec (unat sid) @ '')''"

definition reject_stale_jump :: "queue_slot_id \<Rightarrow> play_run \<Rightarrow> play_run" where
  "reject_stale_jump sid r =
     emit (Event_Command_Rejected (''Playback selection rejected: stale slot '' @ slot_id_debug sid)) r"

definition set_pending_playlist_jump :: "forced_jump \<Rightarrow> play_run \<Rightarrow> play_run" where
  "set_pending_playlist_jump j r = r\<lparr>pr_lifecycle := arm_jump j (pr_lifecycle r)\<rparr>"

definition report_jumped_item :: "i64 \<Rightarrow> play_run \<Rightarrow> play_run" where
  "report_jumped_item outgoing_pos r =
     (case pr_active_item r of
        None \<Rightarrow> r
      | Some it \<Rightarrow>
          (let r1 = report_stopped outgoing_pos r;
               r2 = set_next_item_status it (r1\<lparr>pr_tracks_initialized := False\<rparr>);
               r3 = start_next_item_reporting it r2
           in r3\<lparr>pr_item := mark_reported NotSent (pr_item r3)\<rparr>))"

definition stop_for_active_file_failure ::
  "queue_slot_id option \<Rightarrow> i64 \<Rightarrow> string \<Rightarrow> play_run \<Rightarrow> play_run" where
  "stop_for_active_file_failure failed_slot position_ticks error r =
     end_run \<lparr>so_slot_id = failed_slot, so_position_ticks = position_ticks, so_played = False,
              so_consume = False, so_error = Some error\<rparr> (park_for_failed_load r)"

definition cmd_jump_to_active_file ::
  "answers \<Rightarrow> queue_slot_id \<Rightarrow> transition option \<Rightarrow> play_run \<Rightarrow> play_run" where
  "cmd_jump_to_active_file ans sid tr r =
     (let outgoing_pos = pr_last_valid_pos r;
          (ok, r1) = select_active_slot (an_select ans) sid r
      in if ok
         then emit_track_changed sid tr (report_jumped_item outgoing_pos (emit (Mpv_Set_Pause False) r1))
         else stop_for_active_file_failure (Some sid) 0
                (''failed to select slot '' @ slot_id_debug sid @ '': '' @ an_select_error ans) r1)"

definition cmd_jump_to_playlist ::
  "answers \<Rightarrow> queue_slot_id \<Rightarrow> usize \<Rightarrow> i64 option \<Rightarrow> play_run \<Rightarrow> play_run" where
  "cmd_jump_to_playlist ans sid idx resume_ticks r =
     (let from_idle = (\<not> ps_active (pr_status r));
          r1 = (if from_idle then r\<lparr>pr_tracks_initialized := False\<rparr> else r);
          tr = (case rl_jump (pr_lifecycle r1) of Arm_Pending j \<Rightarrow> fj_transition j | _ \<Rightarrow> None);
          r2 = set_pending_playlist_jump
                 \<lparr>fj_slot_id = sid, fj_transition = tr, fj_resume_ticks = resume_ticks,
                  fj_from_idle = from_idle\<rparr> r1;
          r3 = emit (Mpv_Set_Playlist_Pos idx) r2
      in if \<not> an_set_works ans then r3\<lparr>pr_lifecycle := disarm_jump (pr_lifecycle r3)\<rparr>
         else emit (Mpv_Set_Pause False) (if from_idle then emit (Mpv_Play_Index idx) r3 else r3))"

definition cmd_jump_to ::
  "answers \<Rightarrow> queue_slot_id \<Rightarrow> request_id \<Rightarrow> generation \<Rightarrow> i64 option \<Rightarrow> play_run \<Rightarrow> play_run" where
  "cmd_jump_to ans sid req gen owner_ticks r =
     (case resolve_jump_target (map xs_slot_id (es_slots (pr_queue r))) sid of
        None \<Rightarrow> reject_stale_jump sid r
      | Some idx \<Rightarrow>
          (let tr = transition_new req gen sid;
               resume_ticks = (case es_slot (pr_queue r) sid of
                   Some s \<Rightarrow> jump_ticks (an_fetch ans) EMBY_RESUME_RETRY_DELAYS (xs_item s) owner_ticks
                 | None \<Rightarrow> owner_ticks);
               r1 = set_pending_playlist_jump
                      \<lparr>fj_slot_id = sid, fj_transition = Some tr, fj_resume_ticks = resume_ticks,
                       fj_from_idle = False\<rparr> r
           in if is_active_file (pr_lifecycle r1)
              then cmd_jump_to_active_file ans sid (Some tr) r1
              else cmd_jump_to_playlist ans sid idx resume_ticks r1))"

section \<open>Appends\<close>

definition refresh_slots ::
  "answers \<Rightarrow> (queue_slot_id \<times> queue_item) list \<Rightarrow> (queue_slot_id \<times> queue_item) list" where
  "refresh_slots ans items =
     zip (map fst items) (resume_refresh (an_fetch ans) EMBY_RESUME_RETRY_DELAYS (map snd items))"

definition has_url_source :: "(queue_slot_id \<times> queue_item) list \<Rightarrow> bool" where
  "has_url_source items \<longleftrightarrow> (\<forall>(sid, it)\<in>set items. mpv_url_source_of it \<noteq> None)"

definition append_items_via_mpv ::
  "answers \<Rightarrow> (queue_slot_id \<times> queue_item) list \<Rightarrow> play_run \<Rightarrow> play_run option" where
  "append_items_via_mpv ans new_items r =
     (let items = refresh_slots ans new_items in
      if \<not> has_url_source items
      then Some (emit (Event_Command_Rejected
             ''Queue append rejected: item has no direct mpv URL source'') r)
      else append_items_to_queue items
             (fold (\<lambda>(sid, it). emit (Mpv_Load_At sid ''append-play'' ''-1'' (resume_start_pos it))) items r))"

definition promote_to_active_file ::
  "answers \<Rightarrow> (queue_slot_id \<times> queue_item) list \<Rightarrow> play_run \<Rightarrow> play_run option" where
  "promote_to_active_file ans new_items r =
     (case es_active_slot (pr_queue r) of
        None \<Rightarrow> Some r
      | Some s \<Rightarrow>
          (case an_select ans (xs_item s) of
             Prepare_Fails \<Rightarrow> Some r
           | outcome \<Rightarrow>
               (let (ok, r1) = install_active_projection (xs_slot_id s) (outcome = Select_Works) r in
                if \<not> ok
                then Some (stop_for_active_file_failure (pr_active_slot_id r1) (pr_last_valid_pos r1)
                             (''failed to load media: '' @ an_select_error ans) r1)
                else map_option (\<lambda>r2. r2\<lparr>pr_lifecycle := enter_active_file (pr_lifecycle r2)\<rparr>)
                       (append_items_to_queue new_items r1))))"

definition cmd_append_queue ::
  "answers \<Rightarrow> (queue_slot_id \<times> queue_item) list \<Rightarrow> play_run \<Rightarrow> play_run option" where
  "cmd_append_queue ans new_items r =
     (if new_items = [] then Some r
      else if is_active_file (pr_lifecycle r) then append_items_to_queue new_items r
      else if \<exists>(sid, it)\<in>set new_items. qi_is_audiobookshelf it
      then promote_to_active_file ans new_items r
      else append_items_via_mpv ans new_items r)"

section \<open>Submissions\<close>

definition start_queue_playback :: "answers \<Rightarrow> usize \<Rightarrow> play_run \<Rightarrow> play_run" where
  "start_queue_playback ans start_idx r =
     (let r1 = emit (Mpv_Set_Playlist_Pos start_idx) (emit (Mpv_Set_Playlist_Start start_idx) r)
      in if \<not> an_idle_active ans then r1 else emit (Mpv_Play_Index start_idx) r1)"

definition reassert_queue_layout :: "answers \<Rightarrow> usize \<Rightarrow> usize \<Rightarrow> play_run \<Rightarrow> play_run" where
  "reassert_queue_layout ans start_idx item_count r =
     (case queue_layout_verdict_of start_idx item_count (an_playlist_pos ans) (an_playlist_count ans)
             (an_idle_active ans) of
        Layout_Ok \<Rightarrow> r
      | Reassert \<Rightarrow>
          (if an_idle_active ans then emit (Mpv_Play_Index start_idx) r
           else emit (Mpv_Set_Pause False) (emit (Mpv_Set_Playlist_Pos start_idx) r))
      | ShortLayout \<Rightarrow> r)"

definition origin_of_count :: "usize \<Rightarrow> playback_origin" where
  "origin_of_count n = (if n = 1 then Standalone else Origin_Queue)"

text \<open>\<open>start_secs\<close> is the carried start position of a replacement.\<close>

definition initialize_queue_start :: "bool \<Rightarrow> queue_item \<Rightarrow> seconds option \<Rightarrow> play_run \<Rightarrow> play_run" where
  "initialize_queue_start had_previous_queue active_item start_secs r =
     (let r1 = (if had_previous_queue
                then begin_item_lifecycle (ReportedNow Sent) (report_stopped (pr_last_valid_pos r) r)
                else begin_item_lifecycle NothingPlaying r);
          r2 = r1\<lparr>pr_pending_layout := False\<rparr>;
          r3 = start_next_item_reporting active_item r2
      in r3\<lparr>pr_status := show_item active_item
             ((pr_status r3)\<lparr>ps_position_ticks :=
                  (case start_secs of None \<Rightarrow> qi_playback_position_ticks active_item
                   | Some secs \<Rightarrow> seconds_to_ticks secs),
                ps_runtime_ticks := qi_runtime_ticks active_item,
                ps_current_idx := pr_current_idx r3, ps_queue_len := pr_queue_len r3\<rparr>)\<rparr>)"

definition accept_stopped_replacement ::
  "(queue_slot_id \<times> queue_item) list \<Rightarrow> usize \<Rightarrow> queue_item \<Rightarrow> string \<Rightarrow> play_run \<Rightarrow> play_run option" where
  "accept_stopped_replacement items start_idx active_item error r =
     (let r1 = park_for_failed_load r in
      map_option
        (\<lambda>q. let r2 = r1\<lparr>pr_queue := q, pr_current_idx := start_idx,
                        pr_lifecycle := enter_active_file (pr_lifecycle r1)\<rparr>;
                 r3 = load_active_item_state (r2\<lparr>pr_origin := origin_of_count (pr_queue_len r2)\<rparr>);
                 position_ticks = qi_playback_position_ticks active_item;
                 s = (pr_status r3)\<lparr>ps_position_ticks := position_ticks,
                       ps_last_valid_pos := position_ticks, ps_runtime_ticks := qi_runtime_ticks active_item,
                       ps_current_idx := start_idx, ps_queue_len := pr_queue_len r3\<rparr>;
                 s1 = (case qi_as_emby active_item of
                         Some e \<Rightarrow> set_current_item_metadata e s
                       | None \<Rightarrow> s\<lparr>ps_title := qi_title active_item, ps_artist := [], ps_album := [],
                                  ps_art_item_id := qi_id active_item, ps_art_album_id := []\<rparr>);
                 r4 = r3\<lparr>pr_pending_layout := False, pr_status := s1\<rparr>
             in end_run \<lparr>so_slot_id = pr_active_slot_id r4, so_position_ticks = position_ticks,
                         so_played = False, so_consume = False, so_error = Some error\<rparr> r4)
        (if items = [] then Some (pr_queue r1)
         else es_from_slot_items items (map_option fst (nth_opt items start_idx))))"

definition clear_run_queue :: "play_run \<Rightarrow> play_run" where
  "clear_run_queue r =
     (let r1 = emit Mpv_Playlist_Clear (close_prepared_source r)
      in sync_status_position (r1\<lparr>pr_queue := es_clear (pr_queue r1), pr_current_idx := 0\<rparr>))"

definition replace_with_queue_items ::
  "answers \<Rightarrow> (queue_slot_id \<times> queue_item) list \<Rightarrow> usize \<Rightarrow> seconds option \<Rightarrow> play_run \<Rightarrow> play_run option" where
  "replace_with_queue_items ans items start start_secs r0 =
     (let r = cancel_pending_quit r0 in
      if items = [] then Some (clear_run_queue r)
      else
        (let r1 = r\<lparr>pr_lifecycle := submission_accepted (pr_lifecycle r)\<rparr>;
             start_idx = min start (length items - 1);
             (active_sid, active_item) = items ! start_idx
         in case an_select ans active_item of
              Prepare_Fails \<Rightarrow>
                accept_stopped_replacement items start_idx active_item
                  (''failed to prepare media: '' @ an_select_error ans) r1
            | outcome \<Rightarrow>
                (let had_previous_queue = (pr_queue_len r1 > 0) in
                 Option.bind (es_from_slot_items items (Some active_sid))
                   (\<lambda>q. let r2 = r1\<lparr>pr_queue := q, pr_current_idx := start_idx,
                                   pr_lifecycle := enter_active_file (pr_lifecycle r1)\<rparr>;
                            (ok, r3) = install_active_projection active_sid (outcome = Select_Works) r2
                        in if \<not> ok
                           then accept_stopped_replacement [] start_idx active_item
                                  (''failed to load media: '' @ an_select_error ans) r3
                           else
                             (let r4 = load_active_item_state
                                         (r3\<lparr>pr_origin := origin_of_count (pr_queue_len r3)\<rparr>);
                                  r5 = initialize_queue_start had_previous_queue active_item start_secs r4
                              in Some (r5\<lparr>pr_status := (pr_status r5)\<lparr>ps_active := True\<rparr>\<rparr>))))))"

definition load_slot_at ::
  "(queue_slot_id \<times> queue_item) list \<Rightarrow> usize \<Rightarrow> seconds option \<Rightarrow> usize \<Rightarrow> play_run \<Rightarrow> play_run" where
  "load_slot_at items start_idx start_secs i r =
     (let (sid, it) = items ! i;
          (mode, index) = queue_load_location i start_idx;
          source = (if i = start_idx
                    then (case start_secs of None \<Rightarrow> resume_source_of it | Some secs \<Rightarrow> RS_Handoff secs)
                    else resume_source_of it)
      in emit (Mpv_Load_At sid mode index (source_start_seconds source it)) r)"

definition load_queue_into_mpv ::
  "answers \<Rightarrow> (queue_slot_id \<times> queue_item) list \<Rightarrow> usize \<Rightarrow> seconds option \<Rightarrow> play_run \<Rightarrow> play_run" where
  "load_queue_into_mpv ans items start_idx start_secs r =
     (let r1 = emit Mpv_Stop (emit (Mpv_Script ''mbv-next-up-dismiss'')
                 (emit (Mpv_Script ''mbv-skip-intro-dismiss'') r));
          r2 = fold (load_slot_at items start_idx start_secs)
                 (queue_load_indices (length items) start_idx) r1
      in reassert_queue_layout ans start_idx (length items) (start_queue_playback ans start_idx r2))"

definition cmd_submit_queue ::
  "answers \<Rightarrow> (queue_slot_id \<times> queue_item) list \<Rightarrow> usize \<Rightarrow> seconds option \<Rightarrow> play_run \<Rightarrow> play_run option" where
  "cmd_submit_queue ans submitted start start_secs r =
     (if is_active_file (pr_lifecycle r) \<or> (\<exists>(sid, it)\<in>set submitted. qi_is_audiobookshelf it)
      then replace_with_queue_items ans submitted start start_secs r
      else
        (let items = refresh_slots ans submitted in
         if \<not> has_url_source items
         then Some (emit (Event_Command_Rejected
                ''Queue submission rejected: item has no direct mpv URL source'') r)
         else
           (let r1 = cancel_pending_quit r in
            if items = [] then Some r1
            else
              (let start_idx = min start (length items - 1);
                   r2 = emit (Mpv_Set_Pause False) (close_prepared_source r1);
                   had_previous_queue = (pr_queue_len r2 > 0);
                   r3 = load_queue_into_mpv ans items start_idx start_secs r2;
                   (active_sid, active_item) = items ! start_idx;
                   r4 = (send_ep_info active_item r3)\<lparr>pr_origin := origin_of_count (length items)\<rparr>
               in map_option
                    (\<lambda>q. initialize_queue_start had_previous_queue active_item start_secs
                           (load_active_item_state (r4\<lparr>pr_queue := q, pr_current_idx := start_idx\<rparr>)))
                    (es_from_slot_items items (Some active_sid))))))"

text \<open>The arm of the command dispatcher: a non-empty submission renames the run.\<close>

definition accept_submission ::
  "answers \<Rightarrow> (queue_slot_id \<times> queue_item) list \<Rightarrow> usize \<Rightarrow> seconds option \<Rightarrow> play_run \<Rightarrow> play_run option" where
  "accept_submission ans items start start_secs r =
     cmd_submit_queue ans items start start_secs
       (if items = [] then r
        else r\<lparr>pr_identity := ps_sequence_generation (pr_status r),
               pr_lifecycle := submission_accepted (pr_lifecycle r)\<rparr>)"

section \<open>Playback restarted\<close>

definition report_start_when_playing :: "emby_item \<Rightarrow> play_run \<Rightarrow> play_run" where
  "report_start_when_playing e r =
     (if pr_start_reported r \<or> \<not> has_session r then r
      else (emit (Report_Start_Item (emby_id e)) r)\<lparr>pr_start_reported := True\<rparr>)"

definition report_progress :: "string \<Rightarrow> play_run \<Rightarrow> play_run" where
  "report_progress event_name r =
     (if \<not> has_session r \<or> \<not> pr_start_reported r then r else emit (Report_Progress event_name) r)"

definition settle_idle_jump_on_restart ::
  "i64 \<Rightarrow> play_run \<Rightarrow> (queue_slot_id \<times> transition option) option \<times> play_run" where
  "settle_idle_jump_on_restart position_ticks r =
     (let (res, l) = jump_settled_on_restart (pr_lifecycle r); r1 = r\<lparr>pr_lifecycle := l\<rparr> in
      case res of
        None \<Rightarrow> (None, r1)
      | Some (sid, tr) \<Rightarrow>
          (case es_slot_index (pr_queue r1) sid of
             None \<Rightarrow> (None, r1\<lparr>pr_lifecycle := disarm_jump (pr_lifecycle r1)\<rparr>)
           | Some index \<Rightarrow>
               (let (ok, r2) = set_active_index index r1 in
                if \<not> ok then (None, r2)
                else
                  (let r3 = report_active_item
                              ((load_active_item_state r2)\<lparr>pr_last_valid_pos := position_ticks\<rparr>);
                       r4 = r3\<lparr>pr_item := mark_reported NotSent (pr_item r3)\<rparr>;
                       s = (pr_status r4)\<lparr>ps_active := True, ps_position_ticks := pr_last_valid_pos r4,
                             ps_runtime_ticks := (case pr_active_item r4 of
                                None \<Rightarrow> 0 | Some it \<Rightarrow> qi_runtime_ticks it)\<rparr>;
                       r5 = r4\<lparr>pr_status := (case pr_active_item r4 of
                                None \<Rightarrow> s | Some it \<Rightarrow> show_item it s)\<rparr>
                   in (Some (sid, tr), emit (Observe_Reporting True) r5)))))"

definition apply_forced_resume :: "answers \<Rightarrow> play_run \<Rightarrow> play_run" where
  "apply_forced_resume ans r =
     (let (ticks, l) = take_resume_ticks (pr_lifecycle r); r1 = r\<lparr>pr_lifecycle := l\<rparr> in
      case ticks of
        None \<Rightarrow> r1
      | Some t \<Rightarrow>
          (let r2 = emit (Mpv_Seek t) r1
           in if \<not> an_seek_works ans then r2 else r2\<lparr>pr_last_seek_at := True\<rparr>))"

definition init_tracks_once :: "answers \<Rightarrow> play_run \<Rightarrow> play_run" where
  "init_tracks_once ans r =
     (let r1 = (emit Mpv_Auto_Select_Tracks r)\<lparr>pr_tracks_initialized := True\<rparr>;
          r2 = apply_forced_resume ans r1;
          r3 = (case pr_active_item r2 of None \<Rightarrow> r2 | Some it \<Rightarrow> send_ep_info it r2)
      in if an_use_mpv_config ans then emit (Mpv_Show_Text (pr_osd_title r3) 3000) r3 else r3)"

definition show_seek_osd :: "answers \<Rightarrow> play_run \<Rightarrow> play_run" where
  "show_seek_osd ans r =
     (let r1 = r\<lparr>pr_last_seek_at := False\<rparr> in
      if \<not> pr_last_seek_at r \<or> \<not> an_use_mpv_config ans then r1
      else emit (Mpv_Show_Text (pr_osd_title r1) 2000) r1)"

definition settle_seek_osd :: "answers \<Rightarrow> string \<Rightarrow> play_run \<Rightarrow> string \<times> play_run" where
  "settle_seek_osd ans event_name r =
     (if pr_origin r = Standalone
      then (''Seek'', show_seek_osd ans (r\<lparr>pr_next_up := next_up_reset (pr_next_up r)\<rparr>))
      else (event_name, show_seek_osd ans r))"

text \<open>\<^verbatim>\<open>an_seek_settled\<close>: the last seek is more than 500 ms old.\<close>

definition report_restart_progress :: "answers \<Rightarrow> string \<Rightarrow> play_run \<Rightarrow> play_run" where
  "report_restart_progress ans event_name r =
     (if pr_quit_at r \<or> (pr_last_seek_at r \<and> \<not> an_seek_settled ans) then r
      else
        (let r1 = r\<lparr>pr_last_seek_at := False\<rparr> in
         if pr_origin r1 = Standalone then report_progress event_name r1
         else if \<not> pr_reporter_audio r1 then report_progress ''TimeUpdate'' r1
         else r1))"

definition sp_is_holding :: "startup_pause \<Rightarrow> bool" where
  "sp_is_holding p \<longleftrightarrow> (case p of Holding _ \<Rightarrow> True | No_Pause \<Rightarrow> False)"

definition sp_clear :: "startup_pause \<Rightarrow> startup_pause" where
  "sp_clear p = No_Pause"

definition on_playback_restart :: "answers \<Rightarrow> play_run \<Rightarrow> play_run" where
  "on_playback_restart ans r =
     (let r1 = r\<lparr>pr_lifecycle := playback_started (pr_lifecycle r)\<rparr>;
          r2 = (case Option.bind (pr_active_item r1) qi_as_emby of
                  None \<Rightarrow> r1 | Some e \<Rightarrow> report_start_when_playing e r1);
          (settled, r3) = settle_idle_jump_on_restart (an_position_ticks ans) r2;
          was_seek = pr_last_seek_at r3;
          r4 = (emit Event_Output_Started r3)\<lparr>pr_pending_layout := False\<rparr>;
          r5 = (if sp_is_holding (pr_startup_pause r4)
                then emit (Mpv_Set_Pause False) (r4\<lparr>pr_startup_pause := sp_clear (pr_startup_pause r4)\<rparr>)
                else r4);
          (event_name, r6) = (if pr_tracks_initialized r5 then settle_seek_osd ans ''TimeUpdate'' r5
                              else (''TimeUpdate'', init_tracks_once ans r5));
          r7 = report_restart_progress ans event_name r6;
          r8 = (if was_seek then emit (Observe_Reporting True) r7 else r7)
      in case settled of None \<Rightarrow> r8 | Some (sid, tr) \<Rightarrow> emit_track_changed sid tr r8)"

end
