(* ===== verification/Run_Loop.thy ===== *)
theory Run_Loop
  imports Run_Starts
begin

text \<open>
  The event loop of a run (\<^verbatim>\<open>run/run_loop.rs\<close>, \<^verbatim>\<open>run/commands.rs\<close>,
  \<^verbatim>\<open>run/events/track_progress.rs\<close>, \<^verbatim>\<open>handle_intro\<close> of \<^verbatim>\<open>runtime.rs\<close>): commands and mpv events
  are dispatched to the handlers, one tick of the loop at a time. Commands that only set a volume,
  a track, mute or a display property, and the reaction to the same properties, leave the modelled
  state alone; they, log messages and the mouse are not modelled. The dead \<^verbatim>\<open>LoadNew\<close>
  command, which no caller constructs, is left out.
\<close>

section \<open>Time positions\<close>

definition handle_intro :: "bool \<Rightarrow> i64 \<Rightarrow> play_run \<Rightarrow> play_run" where
  "handle_intro always_skip ticks r =
     (let start = pr_intro_start r; fin = pr_intro_end r in
      if fin \<le> start then r
      else
        (let r1 =
           (if pr_intro_state r = Intro_Pending \<and> ticks \<ge> start
            then (if ticks < fin
                  then (let s = r\<lparr>pr_intro_state := Intro_Shown\<rparr>
                        in if always_skip then emit (Mpv_Set_Time_Pos fin) s
                           else emit (Mpv_Skip_Intro fin) (emit (Event_Intro_Started fin) s))
                  else r\<lparr>pr_intro_state := Intro_Dismissed\<rparr>)
            else r)
         in if pr_intro_state r1 = Intro_Shown \<and> ticks \<ge> fin
            then emit (Mpv_Script ''mbv-skip-intro-dismiss'')
                   (emit Event_Intro_Ended (r1\<lparr>pr_intro_state := Intro_Dismissed\<rparr>))
            else r1))"

definition adopted_runtime :: "i64 \<Rightarrow> seconds option \<Rightarrow> i64 option" where
  "adopted_runtime current_ticks mpv_duration_secs =
     opt_filter (\<lambda>t. t \<noteq> current_ticks)
       (opt_filter (\<lambda>t. t > 0) (map_option seconds_to_ticks (opt_filter (\<lambda>s. s > 0) mpv_duration_secs)))"

definition fire_queue_next_up :: "i64 \<Rightarrow> play_run \<Rightarrow> play_run" where
  "fire_queue_next_up ticks r =
     (let (st, fired) = maybe_fire_queue_next_up (pr_active_item r) (pr_item_at r) (pr_current_idx r)
            (pr_queue_len r) (ps_runtime_ticks (pr_status r)) ticks (pr_queue_next_up r);
          r1 = r\<lparr>pr_queue_next_up := st\<rparr>
      in case fired of None \<Rightarrow> r1 | Some idx \<Rightarrow> emit (Event_Queue_Next_Up idx) r1)"

definition fire_standalone_next_up :: "i64 \<Rightarrow> play_run \<Rightarrow> play_run" where
  "fire_standalone_next_up ticks r =
     (let (st, fired) = maybe_fire_standalone_next_up (pr_series_id r \<noteq> [])
            (ps_runtime_ticks (pr_status r)) ticks (pr_next_up r);
          r1 = r\<lparr>pr_next_up := st\<rparr>
      in if fired then emit (Event_Next_Up_Threshold (pr_series_id r1) (pr_season r1) (pr_episode r1)) r1
         else r1)"

definition on_time_pos :: "answers \<Rightarrow> seconds \<Rightarrow> play_run \<Rightarrow> play_run" where
  "on_time_pos ans pos_secs r =
     (let ticks = seconds_to_ticks pos_secs;
          r1 = (case adopted_runtime (ps_runtime_ticks (pr_status r)) (an_duration ans) of
                  Some runtime \<Rightarrow> r\<lparr>pr_status := (pr_status r)\<lparr>ps_runtime_ticks := runtime\<rparr>\<rparr>
                | None \<Rightarrow> r);
          s = (pr_status r1)\<lparr>ps_position_ticks := ticks\<rparr>;
          r2 = (if pos_secs > 0
                then r1\<lparr>pr_last_valid_pos := ticks, pr_status := s\<lparr>ps_last_valid_pos := ticks\<rparr>\<rparr>
                else r1\<lparr>pr_status := s\<rparr>);
          r3 = (if pr_origin r2 = Origin_Queue then fire_queue_next_up ticks r2
                else fire_standalone_next_up ticks r2)
      in handle_intro (an_skip_intro ans) ticks r3)"

section \<open>Commands\<close>

datatype player_command =
    Cmd_Jump_To queue_slot_id request_id generation "i64 option"
  | Cmd_Queue_Append "(queue_slot_id \<times> queue_item) list"
  | Cmd_Queue_Remove queue_slot_id
  | Cmd_Queue_Move queue_slot_id usize
  | Cmd_Queue_Reorder "queue_slot_id list"
  | Cmd_Submit_Queue "(queue_slot_id \<times> queue_item) list" usize "seconds option"
  | Cmd_Seek i64

text \<open>The first result says whether the command cancels a pending stop.\<close>

fun handle_command :: "answers \<Rightarrow> player_command \<Rightarrow> play_run \<Rightarrow> (bool \<times> play_run) option" where
  "handle_command ans (Cmd_Jump_To sid req gen ticks) r = Some (False, cmd_jump_to ans sid req gen ticks r)"
| "handle_command ans (Cmd_Queue_Append items) r = map_option (Pair False) (cmd_append_queue ans items r)"
| "handle_command ans (Cmd_Queue_Remove sid) r = Some (False, cmd_queue_remove (an_select ans) sid r)"
| "handle_command ans (Cmd_Queue_Move sid to) r = Some (False, cmd_queue_move sid to r)"
| "handle_command ans (Cmd_Queue_Reorder order) r = map_option (Pair False) (cmd_queue_reorder order r)"
| "handle_command ans (Cmd_Submit_Queue items start secs) r =
     map_option (Pair True) (accept_submission ans items start secs r)"
| "handle_command ans (Cmd_Seek ticks) r = Some (False, (emit (Mpv_Seek ticks) r)\<lparr>pr_last_seek_at := True\<rparr>)"

section \<open>Events\<close>

datatype mpv_event =
    Ev_Time_Pos seconds
  | Ev_Pause bool
  | Ev_Playlist_Pos i64
  | Ev_Playlist_Count usize
  | Ev_Playback_Restart
  | Ev_End_File end_file_reason
  | Ev_Next_Up_Play
  | Ev_Skip_Intro_Play
  | Ev_Shutdown
  | Ev_Failed mpv_failure

definition on_pause_changed :: "bool \<Rightarrow> play_run \<Rightarrow> play_run" where
  "on_pause_changed paused r =
     (let (consumed, p) = consume_event (pr_startup_pause r); r1 = r\<lparr>pr_startup_pause := p\<rparr> in
      if consumed then r1
      else
        (let r2 = emit (Observe_Reporting True) (emit (Event_Paused_Changed paused) r1)
         in if pr_quit_at r2 then r2
            else report_progress (if paused then ''Pause'' else ''Unpause'') r2))"

fun handle_mpv_event ::
  "answers \<Rightarrow> string option \<Rightarrow> mpv_event \<Rightarrow> play_run \<Rightarrow> (bool \<times> play_run) option" where
  "handle_mpv_event ans device (Ev_Time_Pos s) r = Some (False, on_time_pos ans s r)"
| "handle_mpv_event ans device (Ev_Pause p) r = Some (False, on_pause_changed p r)"
| "handle_mpv_event ans device (Ev_Playlist_Pos pos) r =
     Some (False, on_playlist_pos_changed pos (an_position_ticks ans) r)"
| "handle_mpv_event ans device (Ev_Playlist_Count n) r =
     Some (False, if il_load_state (pr_item r) = Ready then on_playlist_count_changed n r else r)"
| "handle_mpv_event ans device Ev_Playback_Restart r = Some (False, on_playback_restart ans r)"
| "handle_mpv_event ans device (Ev_End_File reason) r = end_file_tick ans reason r"
| "handle_mpv_event ans device Ev_Next_Up_Play r =
     Some (False, emit Event_Next_Up_Play (r\<lparr>pr_next_up_jump := True\<rparr>))"
| "handle_mpv_event ans device Ev_Skip_Intro_Play r = Some (False, emit Event_Skip_Intro_Play r)"
| "handle_mpv_event ans device Ev_Shutdown r = Some (True, on_shutdown r)"
| "handle_mpv_event ans device (Ev_Failed failure) r = Some (on_mpv_error device failure r)"

section \<open>The loop\<close>

fun handle_commands ::
  "(answers \<times> player_command) list \<Rightarrow> bool \<Rightarrow> play_run \<Rightarrow> (bool \<times> play_run) option" where
  "handle_commands [] cancel r = Some (cancel, r)"
| "handle_commands ((ans, c) # cs) cancel r =
     (case handle_command ans c r of
        None \<Rightarrow> None
      | Some (cancels, r1) \<Rightarrow> handle_commands cs (cancel \<or> cancels) r1)"

fun handle_events ::
  "string option \<Rightarrow> (answers \<times> mpv_event) list \<Rightarrow> play_run \<Rightarrow> (bool \<times> play_run) option" where
  "handle_events device [] r = Some (False, r)"
| "handle_events device ((ans, e) # es) r =
     (case handle_mpv_event ans device e r of
        None \<Rightarrow> None
      | Some (returns, r1) \<Rightarrow> if returns then Some (True, r1) else handle_events device es r1)"

text \<open>
  One tick: the commands that are waiting, whether a stop request is waiting, whether a pending
  quit is more than 200 ms old, and the events mpv has queued. The first result says that the
  loop returns; \<open>None\<close> is a panic.
\<close>

record tick_input =
  ti_commands :: "(answers \<times> player_command) list"
  ti_stop :: bool
  ti_quit_elapsed :: bool
  ti_events :: "(answers \<times> mpv_event) list"

definition run_tick :: "string option \<Rightarrow> tick_input \<Rightarrow> play_run \<Rightarrow> (bool \<times> play_run) option" where
  "run_tick device inp r =
     (case handle_commands (ti_commands inp) False r of
        None \<Rightarrow> None
      | Some (cancel_stop, r1) \<Rightarrow>
          (let r2 = emit (Observe_Reporting False) r1;
               r3 = (if \<not> cancel_stop \<and> \<not> pr_quit_at r2 \<and> ti_stop inp then handle_stop_request r2 else r2)
           in if pr_quit_at r3 \<and> ti_quit_elapsed inp then Some (True, finalize_quit r3)
              else handle_events device (ti_events inp) r3))"

text \<open>The loop until it returns, or until the input ends.\<close>

fun run_ticks :: "string option \<Rightarrow> tick_input list \<Rightarrow> play_run \<Rightarrow> (bool \<times> play_run) option" where
  "run_ticks device [] r = Some (False, r)"
| "run_ticks device (inp # inps) r =
     (case run_tick device inp r of
        None \<Rightarrow> None
      | Some (returns, r1) \<Rightarrow> if returns then Some (True, r1) else run_ticks device inps r1)"

text \<open>A panicking run announces its end as well, under its identity.\<close>

definition panic_stopped :: "string \<Rightarrow> play_run \<Rightarrow> effect" where
  "panic_stopped msg r = Event_Stopped None (pr_identity r) 0 False False (Some msg)"

section \<open>A new run\<close>

record run_init =
  ri_start_idx :: usize
  ri_origin :: playback_origin
  ri_status :: player_status
  ri_startup_pause :: bool
  ri_session_item :: string
  ri_session_audio :: bool

text \<open>\<open>None\<close> is the panic on duplicate identities or on an empty queue.\<close>

definition new_from_slot_items ::
  "(queue_slot_id \<times> queue_item) list \<Rightarrow> run_init \<Rightarrow> play_run option" where
  "new_from_slot_items items init =
     Option.bind (es_from_slot_items items (map_option fst (nth_opt items (ri_start_idx init))))
       (\<lambda>q. case es_active_slot q of
          None \<Rightarrow> None
        | Some s \<Rightarrow>
            (let st = initial_item_state_of (xs_item s);
                 start_idx = min (ri_start_idx init) (length (es_slots q) - 1)
             in Some \<lparr>pr_identity = ps_sequence_generation (ri_status init), pr_queue = q,
                  pr_current_idx = start_idx, pr_lifecycle = lifecycle_for_queue q,
                  pr_item = \<lparr>il_load_state = Ready, il_stop_report = NotSent\<rparr>,
                  pr_pending_layout = (start_idx > 0), pr_status = ri_status init,
                  pr_osd_title = ii_osd_title st, pr_last_valid_pos = ii_position_ticks st,
                  pr_series_id = ii_series_id st, pr_season = ii_season st,
                  pr_episode = ii_episode st, pr_intro_start = ii_intro_start st,
                  pr_intro_end = ii_intro_end st, pr_intro_state = intro_new (ii_past st),
                  pr_tracks_initialized = False, pr_queue_next_up = NU_Idle,
                  pr_origin = ri_origin init, pr_reporter_id = ri_session_item init,
                  pr_reporter_audio = ri_session_audio init, pr_start_reported = False,
                  pr_stop_slot = None, pr_stop_runtime = None, pr_quit_at = False,
                  pr_last_seek_at = False, pr_next_up = NU_Idle, pr_next_up_jump = False,
                  pr_stopped_near_end = False, pr_mark_played_id = None,
                  pr_shutdown_timeout = False,
                  pr_startup_pause = startup_pause_new (ri_startup_pause init), pr_log = []\<rparr>))"

end
