(* ===== verification/Run_Stops.thy ===== *)
theory Run_Stops
  imports Run_Loop
begin

text \<open>
  What the handlers of a run announce: the end of the run, at most once per submission, and the
  intro events. Each handler is shown quiet (it neither ends the run nor reopens it nor speaks of
  an intro) or is shown to go through \<open>end_run\<close>.
\<close>

definition is_stopped :: "effect \<Rightarrow> bool" where
  "is_stopped e \<longleftrightarrow> (case e of Event_Stopped _ _ _ _ _ _ \<Rightarrow> True | _ \<Rightarrow> False)"

definition is_intro :: "effect \<Rightarrow> bool" where
  "is_intro e \<longleftrightarrow> (case e of Event_Intro_Started _ \<Rightarrow> True | Event_Intro_Ended \<Rightarrow> True
      | Mpv_Skip_Intro _ \<Rightarrow> True | Mpv_Set_Time_Pos _ \<Rightarrow> True | _ \<Rightarrow> False)"

definition stops :: "play_run \<Rightarrow> effect list" where
  "stops r = filter is_stopped (pr_log r)"

definition intros :: "play_run \<Rightarrow> effect list" where
  "intros r = filter is_intro (pr_log r)"

definition run_view :: "play_run \<Rightarrow> generation \<times> generation option \<times> effect list \<times> effect list" where
  "run_view r = (pr_identity r, rl_ended (pr_lifecycle r), stops r, intros r)"

definition intro_off :: "play_run \<Rightarrow> bool" where
  "intro_off r \<longleftrightarrow> pr_intro_end r \<le> pr_intro_start r"

section \<open>Updates\<close>

lemma view_emit [simp]:
  "\<not> is_stopped e \<Longrightarrow> \<not> is_intro e \<Longrightarrow> run_view (emit e r) = run_view r"
  "intro_off (emit e r) = intro_off r"
  by (simp_all add: run_view_def emit_def stops_def intros_def intro_off_def)

lemma view_update [simp]:
  "run_view (r\<lparr>pr_queue := a1\<rparr>) = run_view r" "run_view (r\<lparr>pr_current_idx := a2\<rparr>) = run_view r"
  "run_view (r\<lparr>pr_item := a3\<rparr>) = run_view r" "run_view (r\<lparr>pr_pending_layout := a4\<rparr>) = run_view r"
  "run_view (r\<lparr>pr_status := a5\<rparr>) = run_view r" "run_view (r\<lparr>pr_osd_title := a6\<rparr>) = run_view r"
  "run_view (r\<lparr>pr_last_valid_pos := a7\<rparr>) = run_view r" "run_view (r\<lparr>pr_series_id := a8\<rparr>) = run_view r"
  "run_view (r\<lparr>pr_season := a9\<rparr>) = run_view r" "run_view (r\<lparr>pr_episode := b1\<rparr>) = run_view r"
  "run_view (r\<lparr>pr_intro_start := b2\<rparr>) = run_view r" "run_view (r\<lparr>pr_intro_end := b3\<rparr>) = run_view r"
  "run_view (r\<lparr>pr_intro_state := b4\<rparr>) = run_view r"
  "run_view (r\<lparr>pr_tracks_initialized := b5\<rparr>) = run_view r"
  "run_view (r\<lparr>pr_queue_next_up := b6\<rparr>) = run_view r" "run_view (r\<lparr>pr_origin := b7\<rparr>) = run_view r"
  "run_view (r\<lparr>pr_reporter_id := b8\<rparr>) = run_view r" "run_view (r\<lparr>pr_reporter_audio := b9\<rparr>) = run_view r"
  "run_view (r\<lparr>pr_start_reported := c1\<rparr>) = run_view r" "run_view (r\<lparr>pr_stop_slot := c2\<rparr>) = run_view r"
  "run_view (r\<lparr>pr_stop_runtime := c3\<rparr>) = run_view r" "run_view (r\<lparr>pr_quit_at := c4\<rparr>) = run_view r"
  "run_view (r\<lparr>pr_last_seek_at := c5\<rparr>) = run_view r" "run_view (r\<lparr>pr_next_up := c6\<rparr>) = run_view r"
  "run_view (r\<lparr>pr_next_up_jump := c7\<rparr>) = run_view r"
  "run_view (r\<lparr>pr_stopped_near_end := c8\<rparr>) = run_view r"
  "run_view (r\<lparr>pr_mark_played_id := c9\<rparr>) = run_view r"
  "run_view (r\<lparr>pr_shutdown_timeout := d1\<rparr>) = run_view r"
  "run_view (r\<lparr>pr_startup_pause := d2\<rparr>) = run_view r"
  "rl_ended l = rl_ended (pr_lifecycle r) \<Longrightarrow> run_view (r\<lparr>pr_lifecycle := l\<rparr>) = run_view r"
  by (simp_all add: run_view_def stops_def intros_def)

lemma intro_off_update [simp]:
  "intro_off (r\<lparr>pr_queue := a1\<rparr>) = intro_off r" "intro_off (r\<lparr>pr_current_idx := a2\<rparr>) = intro_off r"
  "intro_off (r\<lparr>pr_item := a3\<rparr>) = intro_off r" "intro_off (r\<lparr>pr_pending_layout := a4\<rparr>) = intro_off r"
  "intro_off (r\<lparr>pr_status := a5\<rparr>) = intro_off r" "intro_off (r\<lparr>pr_osd_title := a6\<rparr>) = intro_off r"
  "intro_off (r\<lparr>pr_last_valid_pos := a7\<rparr>) = intro_off r" "intro_off (r\<lparr>pr_series_id := a8\<rparr>) = intro_off r"
  "intro_off (r\<lparr>pr_season := a9\<rparr>) = intro_off r" "intro_off (r\<lparr>pr_episode := b1\<rparr>) = intro_off r"
  "intro_off (r\<lparr>pr_intro_state := b4\<rparr>) = intro_off r"
  "intro_off (r\<lparr>pr_tracks_initialized := b5\<rparr>) = intro_off r"
  "intro_off (r\<lparr>pr_queue_next_up := b6\<rparr>) = intro_off r" "intro_off (r\<lparr>pr_origin := b7\<rparr>) = intro_off r"
  "intro_off (r\<lparr>pr_reporter_id := b8\<rparr>) = intro_off r" "intro_off (r\<lparr>pr_reporter_audio := b9\<rparr>) = intro_off r"
  "intro_off (r\<lparr>pr_start_reported := c1\<rparr>) = intro_off r" "intro_off (r\<lparr>pr_stop_slot := c2\<rparr>) = intro_off r"
  "intro_off (r\<lparr>pr_stop_runtime := c3\<rparr>) = intro_off r" "intro_off (r\<lparr>pr_quit_at := c4\<rparr>) = intro_off r"
  "intro_off (r\<lparr>pr_last_seek_at := c5\<rparr>) = intro_off r" "intro_off (r\<lparr>pr_next_up := c6\<rparr>) = intro_off r"
  "intro_off (r\<lparr>pr_next_up_jump := c7\<rparr>) = intro_off r"
  "intro_off (r\<lparr>pr_stopped_near_end := c8\<rparr>) = intro_off r"
  "intro_off (r\<lparr>pr_mark_played_id := c9\<rparr>) = intro_off r"
  "intro_off (r\<lparr>pr_shutdown_timeout := d1\<rparr>) = intro_off r"
  "intro_off (r\<lparr>pr_startup_pause := d2\<rparr>) = intro_off r"
  "intro_off (r\<lparr>pr_lifecycle := d3\<rparr>) = intro_off r" "intro_off (r\<lparr>pr_identity := d4\<rparr>) = intro_off r"
  by (simp_all add: intro_off_def)

lemma lifecycle_keeps_end [simp]:
  "rl_ended (arm_jump j l) = rl_ended l" "rl_ended (disarm_jump l) = rl_ended l"
  "rl_ended (enter_active_file l) = rl_ended l" "rl_ended (playback_started l) = rl_ended l"
  "rl_ended (snd (load_failed pos l)) = rl_ended l"
  "rl_ended (snd (jump_settled_on_end_file t c n l)) = rl_ended l"
  "rl_ended (snd (jump_settled_on_restart l)) = rl_ended l"
  "rl_ended (snd (take_resume_ticks l)) = rl_ended l"
  by (simp_all add: arm_jump_def disarm_jump_def enter_active_file_def playback_started_def
      load_failed_def jump_settled_on_end_file_def jump_settled_on_restart_def take_resume_ticks_def
      Let_def split_beta split: jump_arm.split option.split)

declare is_stopped_def [simp] is_intro_def [simp]

section \<open>Quiet handlers\<close>

lemma load_active_item_state_off [simp]: "intro_off (load_active_item_state r)"
  by (simp add: load_active_item_state_def Let_def intro_off_def)

lemma report_stopped_quiet [simp]:
  "run_view (report_stopped p r) = run_view r" "intro_off r \<Longrightarrow> intro_off (report_stopped p r)"
  by (simp_all add: report_stopped_def stop_sent_def run_view_def stops_def intros_def intro_off_def)

lemma sync_status_position_quiet [simp]:
  "run_view (sync_status_position r) = run_view r" "intro_off r \<Longrightarrow> intro_off (sync_status_position r)"
  by (simp_all add: sync_status_position_def Let_def split_beta)

lemma set_active_index_quiet [simp]:
  "run_view (snd (set_active_index i r)) = run_view r" "intro_off r \<Longrightarrow> intro_off (snd (set_active_index i r))"
  by (simp_all add: set_active_index_def Let_def split_beta split: option.split)

lemma load_active_item_state_quiet [simp]:
  "run_view (load_active_item_state r) = run_view r" "intro_off r \<Longrightarrow> intro_off (load_active_item_state r)"
  by (simp add: load_active_item_state_def Let_def) simp

lemma start_item_quiet [simp]:
  "run_view (start_item e r) = run_view r" "intro_off r \<Longrightarrow> intro_off (start_item e r)"
  by (simp_all add: start_item_def Let_def split_beta)

lemma clear_session_quiet [simp]:
  "run_view (clear_session r) = run_view r" "intro_off r \<Longrightarrow> intro_off (clear_session r)"
  by (simp_all add: clear_session_def Let_def split_beta)

lemma report_active_item_quiet [simp]:
  "run_view (report_active_item r) = run_view r" "intro_off r \<Longrightarrow> intro_off (report_active_item r)"
  by (simp_all add: report_active_item_def Let_def split_beta split: option.split queue_item.split)

lemma adopt_mpv_entry_quiet [simp]:
  "run_view (snd (adopt_mpv_entry i p r)) = run_view r" "intro_off r \<Longrightarrow> intro_off (snd (adopt_mpv_entry i p r))"
  by (simp_all add: adopt_mpv_entry_def Let_def split_beta split: option.split)

lemma announce_adopted_entry_quiet [simp]:
  "run_view (announce_adopted_entry s p r) = run_view r" "intro_off r \<Longrightarrow> intro_off (announce_adopted_entry s p r)"
  by (simp_all add: announce_adopted_entry_def Let_def split_beta split: option.split)

lemma report_stopped_and_adopt_mpv_entry_quiet [simp]:
  "run_view (snd (report_stopped_and_adopt_mpv_entry s p i q r)) = run_view r" "intro_off r \<Longrightarrow> intro_off (snd (report_stopped_and_adopt_mpv_entry s p i q r))"
  by (simp_all add: report_stopped_and_adopt_mpv_entry_def Let_def split_beta)

lemma on_playlist_pos_changed_quiet [simp]:
  "run_view (on_playlist_pos_changed p q r) = run_view r" "intro_off r \<Longrightarrow> intro_off (on_playlist_pos_changed p q r)"
  by (simp_all add: on_playlist_pos_changed_def Let_def split_beta split: option.split)

lemma rederive_current_idx_quiet [simp]:
  "run_view (rederive_current_idx r) = run_view r" "intro_off r \<Longrightarrow> intro_off (rederive_current_idx r)"
  by (simp_all add: rederive_current_idx_def Let_def split_beta)

lemma on_playlist_count_changed_quiet [simp]:
  "run_view (on_playlist_count_changed n r) = run_view r" "intro_off r \<Longrightarrow> intro_off (on_playlist_count_changed n r)"
  by (simp_all add: on_playlist_count_changed_def Let_def split_beta)

lemma cmd_queue_move_quiet [simp]:
  "run_view (cmd_queue_move s i r) = run_view r" "intro_off r \<Longrightarrow> intro_off (cmd_queue_move s i r)"
  by (simp_all add: cmd_queue_move_def Let_def split_beta split: option.split prod.split)

lemma close_prepared_source_quiet [simp]:
  "run_view (close_prepared_source r) = run_view r" "intro_off r \<Longrightarrow> intro_off (close_prepared_source r)"
  by (simp_all add: close_prepared_source_def Let_def split_beta)

lemma install_active_projection_quiet [simp]:
  "run_view (snd (install_active_projection s b r)) = run_view r" "intro_off r \<Longrightarrow> intro_off (snd (install_active_projection s b r))"
  by (simp_all add: install_active_projection_def Let_def split_beta)

lemma select_active_slot_quiet [simp]:
  "run_view (snd (select_active_slot io s r)) = run_view r" "intro_off r \<Longrightarrow> intro_off (snd (select_active_slot io s r))"
  by (simp_all add: select_active_slot_def Let_def split_beta split: option.split select_io.split)

lemma remove_active_file_slot_quiet [simp]:
  "run_view (remove_active_file_slot io s i a r) = run_view r" "intro_off r \<Longrightarrow> intro_off (remove_active_file_slot io s i a r)"
  by (simp_all add: remove_active_file_slot_def Let_def split_beta split: option.split)

lemma cmd_queue_remove_still [simp]:
  "run_view (cmd_queue_remove io s r) = run_view r" "intro_off r \<Longrightarrow> intro_off (cmd_queue_remove io s r)"
  by (simp_all add: cmd_queue_remove_def Let_def split_beta split: option.split)

lemma report_stop_now_or_background_quiet [simp]:
  "run_view (report_stop_now_or_background r) = run_view r" "intro_off r \<Longrightarrow> intro_off (report_stop_now_or_background r)"
  by (simp_all add: report_stop_now_or_background_def Let_def split_beta)

lemma pin_stop_runtime_quiet [simp]:
  "run_view (pin_stop_runtime r) = run_view r" "intro_off r \<Longrightarrow> intro_off (pin_stop_runtime r)"
  by (simp_all add: pin_stop_runtime_def Let_def split_beta)

lemma cancel_pending_quit_quiet [simp]:
  "run_view (cancel_pending_quit r) = run_view r" "intro_off r \<Longrightarrow> intro_off (cancel_pending_quit r)"
  by (simp_all add: cancel_pending_quit_def Let_def split_beta)

lemma close_prepared_source_at_quiet [simp]:
  "run_view (close_prepared_source_at p r) = run_view r" "intro_off r \<Longrightarrow> intro_off (close_prepared_source_at p r)"
  by (simp_all add: close_prepared_source_at_def Let_def split_beta)

lemma reset_next_up_state_quiet [simp]:
  "run_view (reset_next_up_state r) = run_view r" "intro_off r \<Longrightarrow> intro_off (reset_next_up_state r)"
  by (simp_all add: reset_next_up_state_def Let_def split_beta)

lemma begin_item_lifecycle_quiet [simp]:
  "run_view (begin_item_lifecycle a r) = run_view r" "intro_off r \<Longrightarrow> intro_off (begin_item_lifecycle a r)"
  by (simp_all add: begin_item_lifecycle_def Let_def split_beta split: stop_action.split)

lemma park_for_failed_load_quiet [simp]:
  "run_view (park_for_failed_load r) = run_view r" "intro_off r \<Longrightarrow> intro_off (park_for_failed_load r)"
  by (simp_all add: park_for_failed_load_def Let_def split_beta)

lemma mark_played_or_retry_quiet [simp]:
  "run_view (mark_played_or_retry b it r) = run_view r" "intro_off r \<Longrightarrow> intro_off (mark_played_or_retry b it r)"
  by (simp_all add: mark_played_or_retry_def Let_def split_beta split: option.split)

lemma emit_track_changed_quiet [simp]:
  "run_view (emit_track_changed s tr r) = run_view r" "intro_off r \<Longrightarrow> intro_off (emit_track_changed s tr r)"
  by (simp_all add: emit_track_changed_def Let_def split_beta)

lemma set_next_item_status_quiet [simp]:
  "run_view (set_next_item_status it r) = run_view r" "intro_off r \<Longrightarrow> intro_off (set_next_item_status it r)"
  by (simp_all add: set_next_item_status_def Let_def split_beta)

lemma start_next_item_reporting_quiet [simp]:
  "run_view (start_next_item_reporting it r) = run_view r" "intro_off r \<Longrightarrow> intro_off (start_next_item_reporting it r)"
  by (simp_all add: start_next_item_reporting_def Let_def split_beta split: option.split)

lemma send_ep_info_quiet [simp]:
  "run_view (send_ep_info it r) = run_view r" "intro_off r \<Longrightarrow> intro_off (send_ep_info it r)"
  by (simp_all add: send_ep_info_def Let_def split_beta split: option.split)

lemma advance_select_quiet [simp]:
  "run_view (snd (advance_select ans es i r)) = run_view r" "intro_off r \<Longrightarrow> intro_off (snd (advance_select ans es i r))"
  by (simp_all add: advance_select_def Let_def split_beta split: option.split)

lemma enter_next_item_quiet [simp]:
  "run_view (enter_next_item es it r) = run_view r" "intro_off r \<Longrightarrow> intro_off (enter_next_item es it r)"
  by (simp_all add: enter_next_item_def Let_def)

lemma announce_advance_quiet [simp]:
  "run_view (announce_advance es tr r) = run_view r" "intro_off r \<Longrightarrow> intro_off (announce_advance es tr r)"
  by (simp_all add: announce_advance_def Let_def split: option.split)

lemma settle_forced_jump_quiet [simp]:
  "run_view (snd (settle_forced_jump r)) = run_view r" "intro_off r \<Longrightarrow> intro_off (snd (settle_forced_jump r))"
  by (simp_all add: settle_forced_jump_def Let_def split_beta)

lemma handle_superseded_jump_quiet [simp]:
  "run_view (handle_superseded_jump ans s r) = run_view r" "intro_off r \<Longrightarrow> intro_off (handle_superseded_jump ans s r)"
  by (simp_all add: handle_superseded_jump_def Let_def split_beta split: option.split)

lemma handle_queue_quit_quiet [simp]:
  "run_view (handle_queue_quit s b r) = run_view r" "intro_off r \<Longrightarrow> intro_off (handle_queue_quit s b r)"
  by (simp_all add: handle_queue_quit_def Let_def split_beta split: option.split)

lemma report_for_end_file_quiet [simp]:
  "run_view (report_for_end_file rs r) = run_view r" "intro_off r \<Longrightarrow> intro_off (report_for_end_file rs r)"
  by (simp_all add: report_for_end_file_def Let_def split_beta)

lemma retry_natural_mark_played_quiet [simp]:
  "run_view (retry_natural_mark_played ans a b r) = run_view r" "intro_off r \<Longrightarrow> intro_off (retry_natural_mark_played ans a b r)"
  by (simp_all add: retry_natural_mark_played_def Let_def split_beta)

lemma handle_stop_request_quiet [simp]:
  "run_view (handle_stop_request r) = run_view r" "intro_off r \<Longrightarrow> intro_off (handle_stop_request r)"
  by (simp_all add: handle_stop_request_def Let_def split_beta)

lemma reject_stale_jump_quiet [simp]:
  "run_view (reject_stale_jump s r) = run_view r" "intro_off r \<Longrightarrow> intro_off (reject_stale_jump s r)"
  by (simp_all add: reject_stale_jump_def Let_def split_beta)

lemma set_pending_playlist_jump_quiet [simp]:
  "run_view (set_pending_playlist_jump j r) = run_view r" "intro_off r \<Longrightarrow> intro_off (set_pending_playlist_jump j r)"
  by (simp_all add: set_pending_playlist_jump_def Let_def split_beta)

lemma report_jumped_item_quiet [simp]:
  "run_view (report_jumped_item p r) = run_view r" "intro_off r \<Longrightarrow> intro_off (report_jumped_item p r)"
  by (simp_all add: report_jumped_item_def Let_def split_beta split: option.split)

lemma cmd_jump_to_playlist_quiet [simp]:
  "run_view (cmd_jump_to_playlist ans s i t r) = run_view r" "intro_off r \<Longrightarrow> intro_off (cmd_jump_to_playlist ans s i t r)"
  by (simp_all add: cmd_jump_to_playlist_def Let_def split_beta split: jump_arm.split)

lemma start_queue_playback_quiet [simp]:
  "run_view (start_queue_playback ans i r) = run_view r" "intro_off r \<Longrightarrow> intro_off (start_queue_playback ans i r)"
  by (simp_all add: start_queue_playback_def Let_def split_beta)

lemma reassert_queue_layout_quiet [simp]:
  "run_view (reassert_queue_layout ans i n r) = run_view r" "intro_off r \<Longrightarrow> intro_off (reassert_queue_layout ans i n r)"
  by (simp_all add: reassert_queue_layout_def Let_def split_beta split: queue_layout_verdict.split)

lemma initialize_queue_start_quiet [simp]:
  "run_view (initialize_queue_start b it s r) = run_view r" "intro_off r \<Longrightarrow> intro_off (initialize_queue_start b it s r)"
  by (simp_all add: initialize_queue_start_def Let_def split_beta)

lemma clear_run_queue_quiet [simp]:
  "run_view (clear_run_queue r) = run_view r" "intro_off r \<Longrightarrow> intro_off (clear_run_queue r)"
  by (simp_all add: clear_run_queue_def Let_def split_beta)

lemma load_slot_at_quiet [simp]:
  "run_view (load_slot_at items i s n r) = run_view r" "intro_off r \<Longrightarrow> intro_off (load_slot_at items i s n r)"
  by (simp_all add: load_slot_at_def Let_def split_beta split: prod.split)

lemma report_start_when_playing_quiet [simp]:
  "run_view (report_start_when_playing e r) = run_view r" "intro_off r \<Longrightarrow> intro_off (report_start_when_playing e r)"
  by (simp_all add: report_start_when_playing_def Let_def split_beta)

lemma report_progress_quiet [simp]:
  "run_view (report_progress s r) = run_view r" "intro_off r \<Longrightarrow> intro_off (report_progress s r)"
  by (simp_all add: report_progress_def Let_def split_beta)

lemma settle_idle_jump_on_restart_quiet [simp]:
  "run_view (snd (settle_idle_jump_on_restart p r)) = run_view r" "intro_off r \<Longrightarrow> intro_off (snd (settle_idle_jump_on_restart p r))"
  by (simp_all add: settle_idle_jump_on_restart_def Let_def split_beta split: option.split)

lemma apply_forced_resume_quiet [simp]:
  "run_view (apply_forced_resume ans r) = run_view r" "intro_off r \<Longrightarrow> intro_off (apply_forced_resume ans r)"
  by (simp_all add: apply_forced_resume_def Let_def split_beta split: option.split)

lemma init_tracks_once_quiet [simp]:
  "run_view (init_tracks_once ans r) = run_view r" "intro_off r \<Longrightarrow> intro_off (init_tracks_once ans r)"
  by (simp_all add: init_tracks_once_def Let_def split_beta split: option.split)

lemma show_seek_osd_quiet [simp]:
  "run_view (show_seek_osd ans r) = run_view r" "intro_off r \<Longrightarrow> intro_off (show_seek_osd ans r)"
  by (simp_all add: show_seek_osd_def Let_def split_beta)

lemma settle_seek_osd_quiet [simp]:
  "run_view (snd (settle_seek_osd ans s r)) = run_view r" "intro_off r \<Longrightarrow> intro_off (snd (settle_seek_osd ans s r))"
  by (simp_all add: settle_seek_osd_def Let_def split_beta)

lemma report_restart_progress_quiet [simp]:
  "run_view (report_restart_progress ans s r) = run_view r" "intro_off r \<Longrightarrow> intro_off (report_restart_progress ans s r)"
  by (simp_all add: report_restart_progress_def Let_def split_beta)

lemma on_playback_restart_quiet [simp]:
  "run_view (on_playback_restart ans r) = run_view r" "intro_off r \<Longrightarrow> intro_off (on_playback_restart ans r)"
  by (simp_all add: on_playback_restart_def Let_def split_beta split: option.split)

lemma fire_queue_next_up_quiet [simp]:
  "run_view (fire_queue_next_up t r) = run_view r" "intro_off r \<Longrightarrow> intro_off (fire_queue_next_up t r)"
  by (simp_all add: fire_queue_next_up_def Let_def split_beta split: option.split)

lemma fire_standalone_next_up_quiet [simp]:
  "run_view (fire_standalone_next_up t r) = run_view r" "intro_off r \<Longrightarrow> intro_off (fire_standalone_next_up t r)"
  by (simp_all add: fire_standalone_next_up_def Let_def split_beta)

lemma on_pause_changed_quiet [simp]:
  "run_view (on_pause_changed b r) = run_view r" "intro_off r \<Longrightarrow> intro_off (on_pause_changed b r)"
  by (simp_all add: on_pause_changed_def Let_def split_beta)


lemma fold_quiet:
  assumes "\<And>x r. run_view (f x r) = run_view r" "\<And>x r. intro_off r \<Longrightarrow> intro_off (f x r)"
  shows "run_view (fold f xs r) = run_view r" "intro_off r \<Longrightarrow> intro_off (fold f xs r)"
proof -
  show "run_view (fold f xs r) = run_view r" by (induction xs arbitrary: r) (simp_all add: assms(1))
  show "intro_off r \<Longrightarrow> intro_off (fold f xs r)" by (induction xs arbitrary: r) (simp_all add: assms(2))
qed

lemma load_queue_into_mpv_quiet [simp]:
  "run_view (load_queue_into_mpv ans items i s r) = run_view r"
  "intro_off r \<Longrightarrow> intro_off (load_queue_into_mpv ans items i s r)"
  using fold_quiet [of "load_slot_at items i s"] by (simp_all add: load_queue_into_mpv_def Let_def)

lemma cmd_queue_reorder_quiet:
  assumes "cmd_queue_reorder order r = Some r'"
  shows "run_view r' = run_view r" "intro_off r \<Longrightarrow> intro_off r'"
proof -
  let ?f = "\<lambda>(sid, to). cmd_queue_move sid to"
  have q: "run_view (?f x s) = run_view s" "intro_off s \<Longrightarrow> intro_off (?f x s)" for x s
    by (simp_all split: prod.split)
  from assms have "r' = r \<or> (\<exists>plan. r' = fold ?f plan r)"
    by (auto simp: cmd_queue_reorder_def Let_def split: if_splits)
  then show "run_view r' = run_view r" "intro_off r \<Longrightarrow> intro_off r'"
    using fold_quiet [of ?f, OF q] by auto
qed

lemma append_items_to_queue_quiet:
  assumes "append_items_to_queue items r = Some r'"
  shows "run_view r' = run_view r" "intro_off r \<Longrightarrow> intro_off r'"
  using assms by (auto simp: append_items_to_queue_def Let_def)

section \<open>The budget of ends\<close>

text \<open>The ends announced so far, plus the one still to come while the run is open.\<close>

definition stop_budget :: "play_run \<Rightarrow> nat" where
  "stop_budget r = length (stops r) + (if rl_ended (pr_lifecycle r) = Some (pr_identity r) then 0 else 1)"

definition keeps :: "play_run \<Rightarrow> play_run \<Rightarrow> bool" where
  "keeps r r' \<longleftrightarrow> stop_budget r' = stop_budget r \<and> pr_identity r' = pr_identity r
     \<and> (intro_off r \<longrightarrow> intro_off r' \<and> intros r' = intros r)"

lemma keeps_quiet: "run_view r' = run_view r \<Longrightarrow> (intro_off r \<Longrightarrow> intro_off r') \<Longrightarrow> keeps r r'"
  by (auto simp: keeps_def stop_budget_def run_view_def)

lemma keeps_trans: "keeps r s \<Longrightarrow> keeps s t \<Longrightarrow> keeps r t"
  by (simp add: keeps_def)

lemma keeps_end_run: "keeps r (end_run out r)"
  by (auto simp: keeps_def stop_budget_def end_run_def close_run_def Let_def emit_def stops_def
      intros_def intro_off_def)

lemma end_run_after: "run_view s = run_view r \<Longrightarrow> (intro_off r \<Longrightarrow> intro_off s) \<Longrightarrow> keeps r (end_run out s)"
  using keeps_trans [OF keeps_quiet keeps_end_run] .

lemma keeps_refl [simp]: "keeps r r" by (simp add: keeps_def)

lemma keeps_then: "keeps r s \<Longrightarrow> run_view t = run_view s \<Longrightarrow> (intro_off s \<Longrightarrow> intro_off t) \<Longrightarrow> keeps r t"
  using keeps_trans [OF _ keeps_quiet] .

section \<open>Handlers that may end the run\<close>

lemma stop_for_missing_completed_keeps: "keeps r (stop_for_missing_completed s r)"
  by (simp add: stop_for_missing_completed_def Let_def end_run_after)

lemma stop_at_queue_end_keeps: "keeps r (stop_at_queue_end es r)"
  by (simp add: stop_at_queue_end_def Let_def end_run_after)

lemma stop_for_failed_advance_keeps: "keeps r (stop_for_failed_advance s r)"
  by (simp add: stop_for_failed_advance_def end_run_after)

lemma stop_run_with_error_keeps: "keeps r (stop_run_with_error s p e r)"
  by (simp add: stop_run_with_error_def Let_def end_run_after)

lemma finalize_quit_keeps: "keeps r (finalize_quit r)"
  by (simp add: finalize_quit_def Let_def split_beta end_run_after)

lemma on_end_file_standalone_keeps: "keeps r (on_end_file_standalone ans rs r)"
  by (simp add: on_end_file_standalone_def Let_def end_run_after)

lemma stop_for_active_file_failure_keeps: "keeps r (stop_for_active_file_failure s p e r)"
  by (simp add: stop_for_active_file_failure_def end_run_after)

lemma shutdown_queue_keeps: "keeps r (shutdown_queue s r)"
  by (rule keeps_then [OF keeps_end_run]) (simp_all add: shutdown_queue_def Let_def)

lemma shutdown_standalone_keeps: "keeps r (shutdown_standalone s r)"
proof -
  have quit: "keeps t (let u = end_run out t in if pr_quit_at u then u else emit Event_Mpv_Quit u)" for out t
    by (rule keeps_then [OF keeps_end_run]) (simp_all add: Let_def)
  let ?r1 = "(case pr_mark_played_id r of None \<Rightarrow> r | Some m \<Rightarrow> emit (Mark_Played m) r)\<lparr>pr_mark_played_id := None\<rparr>"
  have r1: "run_view ?r1 = run_view r" "intro_off r \<Longrightarrow> intro_off ?r1"
    by (simp_all split: option.split)
  have "keeps r (if b then emit (Mark_Played m) ?r1 else ?r1)" for b m
    by (rule keeps_quiet) (use r1 in simp_all)
  from keeps_trans [OF this quit] show ?thesis
    unfolding shutdown_standalone_def Let_def .
qed

lemma on_shutdown_keeps: "keeps r (on_shutdown r)"
proof -
  let ?r1 = "close_prepared_source (r\<lparr>pr_stop_slot := None\<rparr>)"
  let ?r2 = "if is_unreported (pr_item ?r1) then report_stop_now_or_background ?r1 else ?r1"
  have "keeps r ?r2" by (rule keeps_quiet) simp_all
  then show ?thesis
    using keeps_trans [OF _ shutdown_standalone_keeps] keeps_trans [OF _ shutdown_queue_keeps]
    unfolding on_shutdown_def Let_def by (cases "pr_origin ?r2 = Standalone") simp_all
qed

lemma on_mpv_error_keeps: "keeps r (snd (on_mpv_error device f r))"
proof -
  have p: "keeps r (snd (stop_for_process_exit f r))" for r
    by (simp add: stop_for_process_exit_def stop_run_with_error_keeps)
  have u: "keeps r (snd (stop_for_unrecoverable_error f r))" for r
  proof (cases f)
    case (Other_Failure reason)
    let ?l = "load_failed (run_position_of r) (pr_lifecycle r)"
    have "keeps r (r\<lparr>pr_lifecycle := snd ?l\<rparr>)" by (rule keeps_quiet) simp_all
    then show ?thesis using keeps_trans [OF _ stop_run_with_error_keeps]
      by (simp add: Other_Failure stop_for_unrecoverable_error_def Let_def split_beta
          split: failure_verdict.split)
  qed (simp_all add: stop_for_unrecoverable_error_def)
  show ?thesis
    using p [of r] keeps_trans [OF p u] keeps_trans [OF keeps_trans [OF p u] stop_run_with_error_keeps]
    by (simp add: on_mpv_error_def Let_def split_beta)
qed

lemma advance_to_next_track_keeps:
  assumes "advance_to_next_track ans es i tr r = Some r'"
  shows "keeps r r'"
proof -
  let ?a = "advance_select ans es i r"
  let ?b = "load_active_item_state (snd ?a)"
  have b: "keeps r ?b" by (rule keeps_quiet) simp_all
  show ?thesis
  proof (cases "is_active_file (pr_lifecycle ?b) \<and> \<not> fst ?a")
    case True
    with assms have "r' = stop_for_failed_advance (qe_slot_id es) ?b"
      by (auto simp: advance_to_next_track_def Let_def split_beta split: option.splits)
    with b keeps_trans stop_for_failed_advance_keeps show ?thesis by blast
  next
    case False
    with assms show ?thesis
      by (intro keeps_quiet)
        (auto simp: advance_to_next_track_def Let_def split_beta split: option.splits)
  qed
qed

lemma on_end_file_queue_keeps:
  assumes "on_end_file_queue ans rs sl a r = Some (c, r')"
  shows "keeps r r'"
proof (cases "Option.bind sl (es_slot (pr_queue r))")
  case None
  with assms show ?thesis by (auto simp: on_end_file_queue_def stop_for_missing_completed_keeps)
next
  case (Some s)
  let ?r1 = "r\<lparr>pr_next_up_jump := False\<rparr>"
  let ?r2 = "snd (settle_forced_jump ?r1)"
  have r2: "keeps r ?r2" by (rule keeps_quiet) simp_all
  from assms Some consider "r' = handle_superseded_jump ans sl ?r1"
    | es where "r' = stop_at_queue_end es ?r2"
    | es i tr where "advance_to_next_track ans es i tr ?r2 = Some r'"
    by (auto simp: on_end_file_queue_def Let_def split_beta split: if_splits)
  then show ?thesis
  proof cases
    case 1
    then show ?thesis by (simp add: keeps_quiet)
  next
    case 2
    with keeps_trans [OF r2 stop_at_queue_end_keeps] show ?thesis by simp
  next
    case 3
    from keeps_trans [OF r2 advance_to_next_track_keeps [OF this]] show ?thesis .
  qed
qed

lemma on_end_file_keeps:
  assumes "on_end_file ans rs r = Some (c, r')"
  shows "keeps r r'"
proof -
  from assms consider "run_view r' = run_view r" "intro_off r \<Longrightarrow> intro_off r'"
    | "r' = on_end_file_standalone ans rs r"
    | "on_end_file_queue ans rs (pr_active_slot_id r) (pr_reporter_audio r) r = Some (c, r')"
    by (auto simp: on_end_file_def Let_def split: if_splits)
  then show ?thesis
    using on_end_file_queue_keeps on_end_file_standalone_keeps keeps_quiet by cases blast+
qed

lemma end_file_tick_keeps: "end_file_tick ans rs r = Some (c, r') \<Longrightarrow> keeps r r'"
  by (auto simp: end_file_tick_def dest: on_end_file_keeps)

lemma cmd_jump_to_keeps: "keeps r (cmd_jump_to ans sid req gen t r)"
proof -
  have a: "keeps r (cmd_jump_to_active_file ans sid tr r)" for tr r
  proof (cases "fst (select_active_slot (an_select ans) sid r)")
    case True
    then show ?thesis by (intro keeps_quiet) (simp_all add: cmd_jump_to_active_file_def split_beta)
  next
    case False
    have "keeps r (snd (select_active_slot (an_select ans) sid r))" by (rule keeps_quiet) simp_all
    with False keeps_trans [OF _ stop_for_active_file_failure_keeps] show ?thesis
      by (simp add: cmd_jump_to_active_file_def split_beta)
  qed
  have p: "keeps r (set_pending_playlist_jump j r)" for j
    by (rule keeps_quiet) simp_all
  show ?thesis
    using keeps_trans [OF p a]
    by (auto simp: cmd_jump_to_def Let_def intro: keeps_quiet split: option.split)
qed

lemma handle_intro_keeps: "keeps r (handle_intro b t r)"
  by (auto simp: keeps_def handle_intro_def Let_def intro_off_def stop_budget_def emit_def stops_def
      intros_def)

lemma on_time_pos_keeps: "keeps r (on_time_pos ans s r)"
  unfolding on_time_pos_def Let_def
  by (rule keeps_trans [OF keeps_quiet handle_intro_keeps]) (auto split: option.split)

section \<open>Appends and submissions\<close>

lemma cmd_append_queue_keeps:
  assumes "cmd_append_queue ans items r = Some r'"
  shows "keeps r r'"
proof -
  have app: "append_items_to_queue xs t = Some t' \<Longrightarrow> keeps t t'" for xs t t'
    by (rule keeps_quiet) (simp_all add: append_items_to_queue_quiet)
  have via: "append_items_via_mpv ans items r = Some r' \<Longrightarrow> keeps r r'"
  proof -
    assume a: "append_items_via_mpv ans items r = Some r'"
    let ?f = "\<lambda>(sid, it). emit (Mpv_Load_At sid ''append-play'' ''-1'' (resume_start_pos it))"
    have q: "run_view (?f x t) = run_view t" "intro_off t \<Longrightarrow> intro_off (?f x t)" for x t
      by (simp_all split: prod.split)
    have "keeps r (fold ?f xs r)" for xs using fold_quiet [of ?f, OF q] by (intro keeps_quiet)
    with a keeps_trans app show "keeps r r'"
      by (auto simp: append_items_via_mpv_def Let_def keeps_quiet split: if_splits) blast
  qed
  have promote: "promote_to_active_file ans items r = Some r' \<Longrightarrow> keeps r r'"
  proof -
    assume p: "promote_to_active_file ans items r = Some r'"
    have i: "keeps r (snd (install_active_projection sid b r))" for sid b by (rule keeps_quiet) simp_all
    have e: "keeps t (t\<lparr>pr_lifecycle := enter_active_file (pr_lifecycle t)\<rparr>)" for t
      by (rule keeps_quiet) simp_all
    from p consider "r' = r"
      | sid b p e where "r' = stop_for_active_file_failure
          (pr_active_slot_id (snd (install_active_projection sid b r))) p e (snd (install_active_projection sid b r))"
      | sid b t where "append_items_to_queue items (snd (install_active_projection sid b r)) = Some t"
          "r' = t\<lparr>pr_lifecycle := enter_active_file (pr_lifecycle t)\<rparr>"
      by (auto simp: promote_to_active_file_def Let_def split_beta split: option.splits select_io.splits if_splits)
    then show "keeps r r'"
    proof cases
      case 2
      with keeps_trans [OF i stop_for_active_file_failure_keeps] show ?thesis by simp
    next
      case 3
      with keeps_trans [OF keeps_trans [OF i app] e] show ?thesis by simp
    qed simp
  qed
  from assms via promote app show ?thesis
    by (auto simp: cmd_append_queue_def split: if_splits)
qed

lemma accept_stopped_replacement_keeps:
  assumes "accept_stopped_replacement items i it err r = Some r'"
  shows "keeps r r'"
  using assms
  by (auto simp: accept_stopped_replacement_def Let_def intro!: end_run_after split: option.splits)

lemma replace_keeps:
  assumes "replace_with_queue_items ans items i secs r = Some r'" "rl_ended (pr_lifecycle r) = None"
  shows "keeps r r'"
proof -
  let ?c = "cancel_pending_quit r"
  let ?r1 = "?c\<lparr>pr_lifecycle := submission_accepted (pr_lifecycle ?c)\<rparr>"
  have "rl_ended (pr_lifecycle ?c) = None"
    using assms(2) cancel_pending_quit_quiet(1) [of r] by (simp add: run_view_def)
  then have r1: "keeps r ?r1" by (intro keeps_quiet) (simp_all add: submission_accepted_def)
  have inst: "keeps t (snd (install_active_projection sid b
      (t\<lparr>pr_queue := q, pr_current_idx := n, pr_lifecycle := enter_active_file (pr_lifecycle t)\<rparr>)))"
    for t sid b q n by (rule keeps_quiet) simp_all
  show ?thesis
  proof (cases "items = []")
    case True
    with assms(1) show ?thesis by (auto simp: replace_with_queue_items_def Let_def intro: keeps_quiet)
  next
    case False
    let ?n = "min i (length items - 1)"
    obtain sid it where x: "items ! ?n = (sid, it)" by fastforce
    show ?thesis
    proof (cases "an_select ans it = Prepare_Fails")
      case True
      with False x assms(1) obtain err where "accept_stopped_replacement items ?n it err ?r1 = Some r'"
        by (auto simp: replace_with_queue_items_def Let_def)
      from keeps_trans [OF r1 accept_stopped_replacement_keeps [OF this]] show ?thesis .
    next
      case prepared: False
      let ?t = "\<lambda>q. install_active_projection sid (an_select ans it = Select_Works)
          (?r1\<lparr>pr_queue := q, pr_current_idx := ?n, pr_lifecycle := enter_active_file (pr_lifecycle ?r1)\<rparr>)"
      from False x prepared assms(1) obtain q where q: "es_from_slot_items items (Some sid) = Some q"
        by (cases "es_from_slot_items items (Some sid)")
          (auto simp: replace_with_queue_items_def Let_def split: select_io.splits)
      note t = keeps_trans [OF r1 inst]
      show ?thesis
      proof (cases "fst (?t q)")
        case True
        with False x prepared q assms(1) obtain orig had where r': "r' =
            (\<lambda>u. u\<lparr>pr_status := (pr_status u)\<lparr>ps_active := True\<rparr>\<rparr>)
              (initialize_queue_start had it secs (load_active_item_state ((snd (?t q))\<lparr>pr_origin := orig\<rparr>)))"
          by (cases "an_select ans it") (auto simp: replace_with_queue_items_def Let_def split_beta)
        show ?thesis unfolding r' by (rule keeps_then [OF t]) simp_all
      next
        case False
        with \<open>items \<noteq> []\<close> x prepared q assms(1) obtain err where
          "accept_stopped_replacement [] ?n it err (snd (?t q)) = Some r'"
          by (cases "an_select ans it") (auto simp: replace_with_queue_items_def Let_def split_beta)
        from keeps_trans [OF t accept_stopped_replacement_keeps [OF this]] show ?thesis .
      qed
    qed
  qed
qed

lemma cmd_submit_queue_keeps:
  assumes "cmd_submit_queue ans items i secs r = Some r'" "rl_ended (pr_lifecycle r) = None"
  shows "keeps r r'"
proof -
  have "replace_with_queue_items ans items i secs r = Some r' \<or> (run_view r' = run_view r \<and> (intro_off r \<longrightarrow> intro_off r'))"
    using assms(1)
    by (auto simp: cmd_submit_queue_def Let_def split_beta split: if_splits option.splits)
  then show ?thesis using replace_keeps [OF _ assms(2)] keeps_quiet by blast
qed

section \<open>The loop\<close>

definition spends :: "nat \<Rightarrow> play_run \<Rightarrow> play_run \<Rightarrow> bool" where
  "spends n r r' \<longleftrightarrow> stop_budget r' \<le> stop_budget r + n
     \<and> (intro_off r \<longrightarrow> intro_off r' \<and> intros r' = intros r)"

lemma spends_keeps: "keeps r r' \<Longrightarrow> spends n r r'" by (simp add: spends_def keeps_def)

lemma spends_trans: "spends m r s \<Longrightarrow> spends n s t \<Longrightarrow> spends (m + n) r t"
  by (simp add: spends_def)

lemma accept_submission_spends:
  assumes "accept_submission ans items i secs r = Some r'"
  shows "spends 1 r r'"
proof (cases "items = []")
  case True
  have "r' = cancel_pending_quit r \<or> r' = clear_run_queue (cancel_pending_quit r)"
    using assms
    by (auto simp: True accept_submission_def cmd_submit_queue_def replace_with_queue_items_def
        refresh_slots_def has_url_source_def Let_def split: if_splits)
  then show ?thesis by (auto intro!: spends_keeps keeps_quiet)
next
  case False
  let ?r1 = "r\<lparr>pr_identity := ps_sequence_generation (pr_status r),
               pr_lifecycle := submission_accepted (pr_lifecycle r)\<rparr>"
  have "spends 1 r ?r1"
    by (auto simp: spends_def stop_budget_def stops_def intros_def submission_accepted_def)
  moreover have "keeps ?r1 r'"
    using assms False by (intro cmd_submit_queue_keeps) (simp_all add: accept_submission_def submission_accepted_def)
  ultimately show ?thesis using spends_trans spends_keeps [of ?r1 r' 0] by fastforce
qed

fun is_submission :: "player_command \<Rightarrow> bool" where
  "is_submission (Cmd_Submit_Queue _ _ _) = True"
| "is_submission _ = False"

definition submissions :: "(answers \<times> player_command) list \<Rightarrow> nat" where
  "submissions cs = length (filter (is_submission \<circ> snd) cs)"

lemma handle_command_spends:
  "handle_command ans c r = Some (b, r') \<Longrightarrow> spends (if is_submission c then 1 else 0) r r'"
proof (cases c)
  case (Cmd_Submit_Queue items i secs)
  assume "handle_command ans c r = Some (b, r')"
  with Cmd_Submit_Queue accept_submission_spends show ?thesis by auto
qed (auto intro!: spends_keeps cmd_jump_to_keeps
      intro: keeps_quiet cmd_append_queue_keeps cmd_queue_reorder_quiet)

lemma handle_commands_spends:
  "handle_commands cs b r = Some (b', r') \<Longrightarrow> spends (submissions cs) r r'"
proof (induction cs b r rule: handle_commands.induct)
  case (2 ans c cs b r)
  then obtain cancels r1 where h: "handle_command ans c r = Some (cancels, r1)"
      and rest: "handle_commands cs (b \<or> cancels) r1 = Some (b', r')"
    by (auto split: option.splits)
  from spends_trans [OF handle_command_spends [OF h] "2.IH" [OF h refl rest]] show ?case
    by (simp add: submissions_def split: if_splits)
qed (simp add: spends_keeps)

lemma handle_mpv_event_keeps:
  assumes "handle_mpv_event ans device e r = Some (b, r')"
  shows "keeps r r'"
proof (cases e)
  case (Ev_Failed f)
  with assms show ?thesis using on_mpv_error_keeps [of r device f] by simp
qed (use assms in \<open>auto intro: on_time_pos_keeps on_shutdown_keeps end_file_tick_keeps keeps_quiet\<close>)

lemma handle_events_keeps: "handle_events device es r = Some (b, r') \<Longrightarrow> keeps r r'"
proof (induction device es r rule: handle_events.induct)
  case (2 device ans e es r)
  then obtain b1 r1 where h: "handle_mpv_event ans device e r = Some (b1, r1)"
    by (auto split: option.splits)
  from handle_mpv_event_keeps [OF h] "2.IH" [OF h refl] "2.prems" h show ?case
    by (auto split: if_splits intro: keeps_trans)
qed simp

lemma run_tick_spends:
  assumes "run_tick device inp r = Some (b, r')"
  shows "spends (submissions (ti_commands inp)) r r'"
proof -
  from assms obtain c r1 where h: "handle_commands (ti_commands inp) False r = Some (c, r1)"
    by (auto simp: run_tick_def split: option.splits)
  let ?r2 = "emit (Observe_Reporting False) r1"
  let ?r3 = "if \<not> c \<and> \<not> pr_quit_at ?r2 \<and> ti_stop inp then handle_stop_request ?r2 else ?r2"
  have r3: "keeps r1 ?r3" by (rule keeps_quiet) simp_all
  have "r' = finalize_quit ?r3 \<or> handle_events device (ti_events inp) ?r3 = Some (b, r')"
    using assms h by (auto simp: run_tick_def Let_def split: if_splits)
  then have "keeps ?r3 r'" using finalize_quit_keeps handle_events_keeps by blast
  from spends_trans [OF handle_commands_spends [OF h] spends_keeps [OF keeps_trans [OF r3 this], of 0]]
  show ?thesis by simp
qed

definition all_submissions :: "tick_input list \<Rightarrow> nat" where
  "all_submissions inps = (\<Sum>inp\<leftarrow>inps. submissions (ti_commands inp))"

lemma run_ticks_spends:
  "run_ticks device inps r = Some (b, r') \<Longrightarrow> spends (all_submissions inps) r r'"
proof (induction device inps r rule: run_ticks.induct)
  case (2 device inp inps r)
  then obtain b1 r1 where h: "run_tick device inp r = Some (b1, r1)"
    by (auto split: option.splits)
  show ?case
  proof (cases b1)
    case True
    with "2.prems" h run_tick_spends [OF h] show ?thesis
      by (simp add: spends_def all_submissions_def)
  next
    case False
    with "2.prems" h have "run_ticks device inps r1 = Some (b, r')" by simp
    from spends_trans [OF run_tick_spends [OF h] "2.IH" [OF h refl False this]] show ?thesis
      by (simp add: all_submissions_def)
  qed
qed (simp add: spends_keeps)

lemma initial_intro_off [simp]: "ii_intro_end (initial_item_state_of it) \<le> ii_intro_start (initial_item_state_of it)"
  by (cases it) (simp_all add: Let_def)

lemma new_run_view:
  assumes "new_from_slot_items items init = Some r"
  shows "stop_budget r = 1" "intro_off r" "intros r = []" "stops r = []"
  using assms
  by (auto simp: new_from_slot_items_def stop_budget_def stops_def intros_def intro_off_def
      lifecycle_for_queue_def Let_def split: bind_splits option.splits)

section \<open>A run ends once, and never speaks of an intro\<close>



section \<open>A sample run\<close>

definition sample_answers :: answers where
  "sample_answers = \<lparr>an_playlist_pos = 0, an_position_ticks = 0, an_set_works = True,
     an_select = (\<lambda>it. Select_Works), an_select_error = [], an_mark_works = True,
     an_seek_works = True, an_seek_settled = True, an_idle_active = True, an_playlist_count = 2,
     an_duration = None, an_fetch = (\<lambda>k ids. None), an_use_mpv_config = False,
     an_skip_intro = False\<rparr>"

definition sample_status :: player_status where
  "sample_status = \<lparr>ps_active = True, ps_position_ticks = 0, ps_runtime_ticks = 0,
     ps_current_idx = 0, ps_queue_len = 2, ps_title = [], ps_artist = [], ps_album = [],
     ps_art_item_id = [], ps_art_album_id = [], ps_last_valid_pos = 0, ps_sequence_generation = 1\<rparr>"

definition sample_init :: run_init where
  "sample_init = \<lparr>ri_start_idx = 0, ri_origin = Origin_Queue, ri_status = sample_status,
     ri_startup_pause = False, ri_session_item = [], ri_session_audio = False\<rparr>"

definition sample_feed :: "string \<Rightarrow> queue_item" where
  "sample_feed guid = QI_Feed \<lparr>feed_guid = guid, feed_title = guid, feed_enclosure_url = Some guid,
     feed_link = None, feed_mime_type = None, feed_duration_ticks = Some 1000,
     feed_pub_date_secs = None, feed_feed_kind = None, feed_feed_id = None,
     feed_position_ticks = 0, feed_played = False\<rparr>"

definition sample_items :: "(queue_slot_id \<times> queue_item) list" where
  "sample_items = [(1, sample_feed ''a''), (2, sample_feed ''b'')]"

text \<open>One tick that plays both entries out, one that hears of mpv's shutdown.\<close>

definition sample_ticks :: "tick_input list" where
  "sample_ticks =
     [\<lparr>ti_commands = [], ti_stop = False, ti_quit_elapsed = False,
       ti_events = [(sample_answers, Ev_Playback_Restart), (sample_answers, Ev_Time_Pos 1),
         (sample_answers, Ev_End_File EF_Eof), (sample_answers, Ev_End_File EF_Eof)]\<rparr>,
      \<lparr>ti_commands = [], ti_stop = True, ti_quit_elapsed = False,
       ti_events = [(sample_answers, Ev_Shutdown)]\<rparr>]"

definition run_sample :: "(bool \<times> play_run) option" where
  "run_sample = Option.bind (new_from_slot_items sample_items sample_init) (run_ticks None sample_ticks)"

lemma run_sample_stops:
  "map_option (\<lambda>(returned, r). (returned, length (stops r))) run_sample = Some (True, 1)"
  by code_simp

end
