(* ===== verification/Run_Results.thy ===== *)
theory Run_Results
  imports Run_Stops Run_Conduct
begin

text \<open>
  What a run delivers: a queue plays to its end, a jump is answered on its target and resumes
  there, and what the stop reports of a replaced or completed item carry.
\<close>

section \<open>What the owner hears of the slots\<close>

fun ended_slot :: "effect \<Rightarrow> queue_slot_id list" where
  "ended_slot (Event_Track_Completed sid _ _ _ _) = [sid]"
| "ended_slot (Event_Stopped (Some sid) _ _ _ _ _) = [sid]"
| "ended_slot _ = []"

fun entered_slot :: "effect \<Rightarrow> (queue_slot_id \<times> (request_id \<times> generation) option) list" where
  "entered_slot (Event_Track_Changed sid tag) = [(sid, tag)]"
| "entered_slot _ = []"

definition slot_ends :: "play_run \<Rightarrow> queue_slot_id list" where
  "slot_ends r = concat (map ended_slot (pr_log r))"

definition slot_entries :: "play_run \<Rightarrow> (queue_slot_id \<times> (request_id \<times> generation) option) list" where
  "slot_entries r = concat (map entered_slot (pr_log r))"

text \<open>The state an end-file decides on, with what was announced.\<close>

definition run_core where
  "run_core r = (pr_queue r, pr_current_idx r, pr_lifecycle r, pr_item r, pr_origin r, pr_quit_at r,
     pr_identity r, ps_active (pr_status r), slot_ends r, slot_entries r)"

lemma core_emit:
  "ended_slot e = [] \<Longrightarrow> entered_slot e = [] \<Longrightarrow> run_core (emit e r) = run_core r"
  by (simp add: run_core_def emit_def slot_ends_def slot_entries_def)

lemma announced_emit [simp]:
  "slot_ends (emit e r) = slot_ends r @ ended_slot e"
  "slot_entries (emit e r) = slot_entries r @ entered_slot e"
  by (simp_all add: emit_def slot_ends_def slot_entries_def)

lemma core_update [simp]:
  "run_core (r\<lparr>pr_osd_title := a6\<rparr>) = run_core r" "run_core (r\<lparr>pr_last_valid_pos := a7\<rparr>) = run_core r"
  "run_core (r\<lparr>pr_series_id := a8\<rparr>) = run_core r" "run_core (r\<lparr>pr_season := a9\<rparr>) = run_core r"
  "run_core (r\<lparr>pr_episode := b1\<rparr>) = run_core r" "run_core (r\<lparr>pr_intro_start := b2\<rparr>) = run_core r"
  "run_core (r\<lparr>pr_intro_end := b3\<rparr>) = run_core r" "run_core (r\<lparr>pr_intro_state := b4\<rparr>) = run_core r"
  "run_core (r\<lparr>pr_tracks_initialized := b5\<rparr>) = run_core r"
  "run_core (r\<lparr>pr_queue_next_up := b6\<rparr>) = run_core r"
  "run_core (r\<lparr>pr_reporter_id := b8\<rparr>) = run_core r" "run_core (r\<lparr>pr_reporter_audio := b9\<rparr>) = run_core r"
  "run_core (r\<lparr>pr_start_reported := c1\<rparr>) = run_core r"
  "run_core (r\<lparr>pr_next_up_jump := c7\<rparr>) = run_core r"
  by (simp_all add: run_core_def slot_ends_def slot_entries_def)

lemma core_status [simp]:
  "ps_active s = ps_active (pr_status r) \<Longrightarrow> run_core (r\<lparr>pr_status := s\<rparr>) = run_core r"
  by (simp add: run_core_def slot_ends_def slot_entries_def)

lemma show_item_active [simp]: "ps_active (show_item it s) = ps_active s"
  by (simp add: show_item_def set_current_item_metadata_def split: option.split)

lemma core_helpers [simp]:
  "run_core (report_stopped p r) = run_core r"
  "run_core (mark_played_or_retry b it r) = run_core r"
  "run_core (send_ep_info it r) = run_core r"
  "run_core (start_next_item_reporting it r) = run_core r"
  "run_core (set_next_item_status it r) = run_core r"
  "run_core (load_active_item_state r) = run_core r"
  "run_core (close_prepared_source_at p r) = run_core r"
proof -
  have "concat (map ended_slot (stop_sent p r)) = []" "concat (map entered_slot (stop_sent p r)) = []"
    by (simp_all add: stop_sent_def)
  then show "run_core (report_stopped p r) = run_core r"
    by (simp add: report_stopped_def run_core_def slot_ends_def slot_entries_def)
qed (simp_all add: mark_played_or_retry_def send_ep_info_def start_next_item_reporting_def
    set_next_item_status_def start_item_def clear_session_def load_active_item_state_def
    close_prepared_source_at_def Let_def core_emit split: option.split)

lemma core_enter [simp]: "run_core (enter_next_item es it r) = run_core r"
  by (simp add: enter_next_item_def Let_def core_emit)

section \<open>Going on to another entry\<close>

lemma slot_id_at_ids: "pr_slot_id_at r i = nth_opt (pr_ids r) i"
  by (simp add: pr_slot_id_at_def pr_ids_def nth_opt_def)

lemma set_active_index_result:
  assumes "i < pr_queue_len r" "es_inv (pr_queue r)"
  shows "set_active_index i r
    = (True, sync_status_position (r\<lparr>pr_queue := (pr_queue r)\<lparr>es_active := Some (pr_ids r ! i)\<rparr>,
                                   pr_current_idx := i\<rparr>))"
proof -
  have "pr_slot_id_at r i = Some (pr_ids r ! i)"
    using assms(1) by (simp add: slot_id_at_ids nth_opt_def pr_ids_def pr_queue_len_def)
  moreover have "es_slot_index (pr_queue r) (pr_ids r ! i) \<noteq> None"
    using assms(1) by (auto simp: es_slot_index_def pr_ids_def pr_queue_len_def)
  ultimately show ?thesis by (simp add: set_active_index_def es_set_active_slot_def)
qed

lemma active_item_at:
  assumes "i < pr_queue_len r" "es_active (pr_queue r) = Some (pr_ids r ! i)"
  shows "pr_active_item r \<noteq> None"
proof -
  have "xs_slot_id (es_slots (pr_queue r) ! i) = pr_ids r ! i"
    using assms(1) by (simp add: pr_ids_def pr_queue_len_def)
  then have "List.find (\<lambda>s. xs_slot_id s = pr_ids r ! i) (es_slots (pr_queue r)) \<noteq> None"
    using assms(1) by (auto simp: find_None_iff pr_queue_len_def dest!: nth_mem)
  then show ?thesis
    by (auto simp: pr_active_item_def es_active_slot_def es_slot_def assms(2))
qed

definition moved_to :: "usize \<Rightarrow> queue_slot_id list \<Rightarrow> (request_id \<times> generation) option \<Rightarrow> play_run \<Rightarrow> play_run \<Rightarrow> bool" where
  "moved_to i ended tag r r' \<longleftrightarrow>
     pr_queue r' = (pr_queue r)\<lparr>es_active := Some (pr_ids r ! i)\<rparr> \<and> pr_current_idx r' = i
     \<and> pr_lifecycle r' = pr_lifecycle r \<and> pr_item r' = pr_item r \<and> pr_origin r' = pr_origin r
     \<and> pr_quit_at r' = pr_quit_at r \<and> pr_identity r' = pr_identity r
     \<and> ps_active (pr_status r') = ps_active (pr_status r)
     \<and> slot_ends r' = slot_ends r @ ended \<and> slot_entries r' = slot_entries r @ [(pr_ids r ! i, tag)]"

lemma advance_playlist:
  assumes "\<not> is_active_file (pr_lifecycle r)" "i < pr_queue_len r" "es_inv (pr_queue r)"
  shows "\<exists>r'. advance_to_next_track ans es i tr r = Some r'
    \<and> moved_to i (as_list (qe_slot_id es))
        (map_option (\<lambda>t. (tr_request_id t, tr_generation t)) (opt_filter (\<lambda>t. tr_target t = pr_ids r ! i) tr)) r r'"
proof -
  let ?r1 = "sync_status_position (r\<lparr>pr_queue := (pr_queue r)\<lparr>es_active := Some (pr_ids r ! i)\<rparr>, pr_current_idx := i\<rparr>)"
  have sel: "advance_select ans es i r = (True, ?r1)"
    using assms by (simp add: advance_select_def set_active_index_result)
  have "pr_active_item ?r1 \<noteq> None"
    using assms(2) by (intro active_item_at [of i]) (simp_all add: pr_queue_len_def pr_ids_def)
  then obtain it where it: "pr_active_item ?r1 = Some it" by blast
  let ?r2 = "load_active_item_state ?r1"
  let ?r9 = "enter_next_item es it ?r2"
  have core: "run_core ?r9 = run_core ?r1" by simp
  then have fields: "pr_queue ?r9 = (pr_queue r)\<lparr>es_active := Some (pr_ids r ! i)\<rparr>" "pr_current_idx ?r9 = i"
    "pr_lifecycle ?r9 = pr_lifecycle r" "pr_item ?r9 = pr_item r" "pr_origin ?r9 = pr_origin r"
    "pr_quit_at ?r9 = pr_quit_at r" "pr_identity ?r9 = pr_identity r"
    "ps_active (pr_status ?r9) = ps_active (pr_status r)" "slot_ends ?r9 = slot_ends r"
    "slot_entries ?r9 = slot_entries r"
    by (simp_all add: run_core_def sync_status_position_def slot_ends_def slot_entries_def)
  have "pr_lifecycle ?r2 = pr_lifecycle r"
    by (simp add: load_active_item_state_def Let_def)
  then have "advance_to_next_track ans es i tr r = Some (announce_advance es tr ?r9)"
    using assms(1) by (simp add: advance_to_next_track_def sel it Let_def)
  then show ?thesis
    by (simp add: moved_to_def announce_advance_def Let_def pr_active_slot_id_def emit_track_changed_def
        fields split: option.split)
qed

section \<open>A queue plays to its end\<close>

definition playing_at :: "play_run \<Rightarrow> usize \<Rightarrow> bool" where
  "playing_at r i \<longleftrightarrow> es_inv (pr_queue r) \<and> i < pr_queue_len r \<and> pr_current_idx r = i
     \<and> es_active (pr_queue r) = Some (pr_ids r ! i) \<and> pr_origin r = Origin_Queue
     \<and> il_load_state (pr_item r) = Ready \<and> \<not> pr_quit_at r \<and> rl_jump (pr_lifecycle r) = Arm_Idle
     \<and> \<not> is_active_file (pr_lifecycle r) \<and> ps_active (pr_status r)
     \<and> rl_ended (pr_lifecycle r) \<noteq> Some (pr_identity r)"

lemma slot_at_id:
  assumes "i < pr_queue_len r"
  obtains s where "es_slot (pr_queue r) (pr_ids r ! i) = Some s"
proof -
  have "List.find (\<lambda>s. xs_slot_id s = pr_ids r ! i) (es_slots (pr_queue r)) \<noteq> None"
    using assms by (auto simp: find_None_iff pr_queue_len_def pr_ids_def in_set_conv_nth)
  then show thesis using that by (auto simp: es_slot_def)
qed

lemma settle_idle:
  assumes "rl_jump (pr_lifecycle r) = Arm_Idle"
  shows "settle_forced_jump r = ((pr_current_idx r + 1, None), r)"
  using assms
  by (simp add: settle_forced_jump_def jump_settled_on_end_file_def jump_target_slot_def
      neighbor_fallback_def Let_def)

lemma moved_playing:
  assumes "moved_to (Suc i) es tag r r'" "playing_at r i" "Suc i < pr_queue_len r"
  shows "playing_at r' (Suc i) \<and> pr_ids r' = pr_ids r"
  using assms by (auto simp: playing_at_def moved_to_def pr_ids_def pr_queue_len_def es_inv_pairs)

lemma eof_advances:
  assumes "playing_at r i" "Suc i < pr_queue_len r"
  shows "\<exists>r'. end_file_tick ans EF_Eof r = Some (False, r') \<and> playing_at r' (Suc i)
    \<and> pr_ids r' = pr_ids r \<and> slot_ends r' = slot_ends r @ [pr_ids r ! i]"
proof -
  let ?r = "r\<lparr>pr_next_up_jump := False\<rparr>"
  have i: "i < pr_queue_len r" using assms(2) by simp
  obtain s where s: "es_slot (pr_queue r) (pr_ids r ! i) = Some s" using slot_at_id [OF i] .
  have p: "playing_at ?r i" "pr_ids ?r = pr_ids r" "slot_ends ?r = slot_ends r" "pr_queue_len ?r = pr_queue_len r"
    using assms(1) by (simp_all add: playing_at_def slot_ends_def pr_ids_def pr_queue_len_def)
  have settle: "settle_forced_jump ?r = ((Suc i, None), ?r)"
    using assms(1) settle_idle [of ?r] by (simp add: playing_at_def)
  have "on_end_file ans EF_Eof r = on_end_file_queue ans EF_Eof (Some (pr_ids r ! i)) (pr_reporter_audio r) r"
    using assms(1) by (simp add: on_end_file_def Let_def playing_at_def pr_active_slot_id_def)
  also have "\<exists>es. qe_slot_id es = Some (pr_ids r ! i)
      \<and> \<dots> = map_option (Pair False) (advance_to_next_track ans es (Suc i) None ?r)"
    using assms(2) settle p(4)
    by (auto simp: on_end_file_queue_def s Let_def split_beta is_superseded_jump_end_file_def
        intro!: exI [of _ "\<lparr>qe_slot_id = _, qe_item = _, qe_pos = _, qe_played_out = _, qe_consume = _, qe_natural = _, qe_runtime = _\<rparr>"])
  finally obtain es where es: "qe_slot_id es = Some (pr_ids r ! i)"
    "on_end_file ans EF_Eof r = map_option (Pair False) (advance_to_next_track ans es (Suc i) None ?r)" by blast
  obtain r' where r': "advance_to_next_track ans es (Suc i) None ?r = Some r'"
      "moved_to (Suc i) [pr_ids r ! i] None ?r r'"
    using advance_playlist [of ?r "Suc i" ans es None] p assms(2) es(1) by (auto simp: playing_at_def)
  from moved_playing [OF r'(2) p(1)] assms(2) p have "playing_at r' (Suc i)" "pr_ids r' = pr_ids r" by simp_all
  moreover from this(1) have "ps_active (pr_status r')" by (simp add: playing_at_def)
  ultimately show ?thesis
    using r' es(2) p by (simp add: end_file_tick_def moved_to_def)
qed

lemma eof_ends:
  assumes "playing_at r i" "Suc i = pr_queue_len r"
  shows "\<exists>r'. end_file_tick ans EF_Eof r = Some (True, r') \<and> slot_ends r' = slot_ends r @ [pr_ids r ! i]
    \<and> rl_ended (pr_lifecycle r') = Some (pr_identity r')"
proof -
  let ?r = "r\<lparr>pr_next_up_jump := False\<rparr>"
  have i: "i < pr_queue_len r" using assms(2) by simp
  obtain s where s: "es_slot (pr_queue r) (pr_ids r ! i) = Some s" using slot_at_id [OF i] .
  have settle: "settle_forced_jump ?r = ((Suc i, None), ?r)"
    using assms(1) settle_idle [of ?r] by (simp add: playing_at_def)
  have len: "pr_queue_len ?r = pr_queue_len r" by (simp add: pr_queue_len_def)
  have "on_end_file ans EF_Eof r = on_end_file_queue ans EF_Eof (Some (pr_ids r ! i)) (pr_reporter_audio r) r"
    using assms(1) by (simp add: on_end_file_def Let_def playing_at_def pr_active_slot_id_def)
  also have "\<exists>es. qe_slot_id es = Some (pr_ids r ! i) \<and> \<dots> = Some (False, stop_at_queue_end es ?r)"
    using assms(2) settle len
    by (auto simp: on_end_file_queue_def s Let_def split_beta is_superseded_jump_end_file_def
        intro!: exI [of _ "\<lparr>qe_slot_id = _, qe_item = _, qe_pos = _, qe_played_out = _, qe_consume = _, qe_natural = _, qe_runtime = _\<rparr>"])
  finally obtain es where es: "qe_slot_id es = Some (pr_ids r ! i)"
    "on_end_file ans EF_Eof r = Some (False, stop_at_queue_end es ?r)" by blast
  have "\<exists>t p. stop_at_queue_end es ?r = end_run \<lparr>so_slot_id = qe_slot_id es, so_position_ticks = qe_pos es,
      so_played = qe_played_out es, so_consume = qe_consume es, so_error = None\<rparr>
        (mark_played_or_retry (qe_played_out es) (qe_item es) (close_prepared_source_at p t))
      \<and> t = (report_stopped (qe_pos es) ?r)\<lparr>pr_item := mark_reported Sent (pr_item (report_stopped (qe_pos es) ?r))\<rparr>"
    by (auto simp: stop_at_queue_end_def Let_def)
  then obtain t p where stop: "stop_at_queue_end es ?r = end_run \<lparr>so_slot_id = qe_slot_id es, so_position_ticks = qe_pos es,
      so_played = qe_played_out es, so_consume = qe_consume es, so_error = None\<rparr>
        (mark_played_or_retry (qe_played_out es) (qe_item es) (close_prepared_source_at p t))"
    and t: "t = (report_stopped (qe_pos es) ?r)\<lparr>pr_item := mark_reported Sent (pr_item (report_stopped (qe_pos es) ?r))\<rparr>"
    by blast
  let ?u = "mark_played_or_retry (qe_played_out es) (qe_item es) (close_prepared_source_at p t)"
  have "slot_ends t = slot_ends ?r"
    using core_helpers(1) [of "qe_pos es" ?r] unfolding t
    by (simp add: run_core_def slot_ends_def)
  moreover have "run_core ?u = run_core t" by simp
  ultimately have u: "slot_ends ?u = slot_ends r" "pr_lifecycle ?u = pr_lifecycle r" "pr_identity ?u = pr_identity r"
    by (simp_all add: run_core_def t slot_ends_def)
  then have "slot_ends (end_run out ?u) = slot_ends r @ as_list (so_slot_id out)
      \<and> \<not> ps_active (pr_status (end_run out ?u))
      \<and> rl_ended (pr_lifecycle (end_run out ?u)) = Some (pr_identity (end_run out ?u))" for out
    using assms(1)
    by (auto simp: end_run_def close_run_def Let_def playing_at_def)
      (auto simp: emit_def slot_ends_def split: option.splits)
  from this [of "\<lparr>so_slot_id = qe_slot_id es, so_position_ticks = qe_pos es,
      so_played = qe_played_out es, so_consume = qe_consume es, so_error = None\<rparr>"] show ?thesis
    using es by (simp add: end_file_tick_def stop)
qed

lemma queue_played:
  assumes "playing_at r i" "length answers = pr_queue_len r - i"
  shows "\<exists>r'. handle_events device (map (\<lambda>ans. (ans, Ev_End_File EF_Eof)) answers) r = Some (True, r')
    \<and> slot_ends r' = slot_ends r @ drop i (pr_ids r) \<and> rl_ended (pr_lifecycle r') = Some (pr_identity r')"
  using assms
proof (induction answers arbitrary: r i)
  case Nil
  then show ?case by (simp add: playing_at_def)
next
  case (Cons ans answers)
  have i: "i < length (pr_ids r)" using Cons.prems(1) by (simp add: playing_at_def pr_queue_len_def pr_ids_def)
  then have drop: "drop i (pr_ids r) = pr_ids r ! i # drop (Suc i) (pr_ids r)" by (simp add: Cons_nth_drop_Suc)
  have len: "pr_queue_len t = length (pr_ids t)" for t by (simp add: pr_queue_len_def pr_ids_def)
  show ?case
  proof (cases "Suc i = pr_queue_len r")
    case True
    from eof_ends [OF Cons.prems(1) this, of ans] drop True show ?thesis by (auto simp: len)
  next
    case False
    with i have lt: "Suc i < pr_queue_len r" by (simp add: len)
    obtain r1 where r1: "end_file_tick ans EF_Eof r = Some (False, r1)" "playing_at r1 (Suc i)"
        "pr_ids r1 = pr_ids r" "slot_ends r1 = slot_ends r @ [pr_ids r ! i]"
      using eof_advances [OF Cons.prems(1) lt, of ans] by blast
    have "length answers = pr_queue_len r1 - Suc i" using Cons.prems(2) lt r1(3) by (simp add: len)
    from Cons.IH [OF r1(2) this] r1 drop show ?thesis by auto
  qed
qed

text \<open>
  C11. A queue plays to its end. From any entry of a playlist queue, with no jump or quit under
  way, the natural ends of the remaining entries carry the run to its end whatever mpv and the
  servers answer: no handler panics, each remaining slot is announced finished exactly once and
  in queue order, exactly one of these announcements is the end of the run, and the loop returns
  at the end of the last entry and not before.
\<close>

theorem queue_plays_to_its_end:
  assumes "playing_at r i" "length answers = pr_queue_len r - i"
  shows "\<exists>r'. handle_events device (map (\<lambda>ans. (ans, Ev_End_File EF_Eof)) answers) r = Some (True, r')
    \<and> slot_ends r' = slot_ends r @ drop i (pr_ids r) \<and> length (stops r') = Suc (length (stops r))"
proof -
  obtain r' where r': "handle_events device (map (\<lambda>ans. (ans, Ev_End_File EF_Eof)) answers) r = Some (True, r')"
    "slot_ends r' = slot_ends r @ drop i (pr_ids r)" "rl_ended (pr_lifecycle r') = Some (pr_identity r')"
    using queue_played [OF assms, of device] by blast
  from handle_events_keeps [OF r'(1)] have "stop_budget r' = stop_budget r" by (simp add: keeps_def)
  with r'(3) assms(1) have "length (stops r') = Suc (length (stops r))"
    by (simp add: stop_budget_def playing_at_def)
  with r' show ?thesis by blast
qed

section \<open>A jump is answered\<close>

fun sought :: "effect \<Rightarrow> i64 list" where
  "sought (Mpv_Seek t) = [t]"
| "sought _ = []"

definition seeks :: "play_run \<Rightarrow> i64 list" where
  "seeks r = concat (map sought (pr_log r))"

lemma seeks_emit [simp]: "seeks (emit e r) = seeks r @ sought e"
  by (simp add: seeks_def emit_def)

definition resume_of :: "answers \<Rightarrow> queue_slot_id \<Rightarrow> i64 option \<Rightarrow> play_run \<Rightarrow> i64 option" where
  "resume_of ans sid owner_ticks r =
     (case es_slot (pr_queue r) sid of
        Some s \<Rightarrow> jump_ticks (an_fetch ans) EMBY_RESUME_RETRY_DELAYS (xs_item s) owner_ticks
      | None \<Rightarrow> owner_ticks)"

definition armed_jump :: "queue_slot_id \<Rightarrow> request_id \<Rightarrow> generation \<Rightarrow> i64 option \<Rightarrow> forced_jump" where
  "armed_jump sid req gen ticks =
     \<lparr>fj_slot_id = sid, fj_transition = Some (transition_new req gen sid), fj_resume_ticks = ticks,
      fj_from_idle = False\<rparr>"

lemma resolve_at:
  assumes "es_inv (pr_queue r)" "k < pr_queue_len r"
  shows "resolve_jump_target (map xs_slot_id (es_slots (pr_queue r))) (pr_ids r ! k) = Some k"
    "es_slot_index (pr_queue r) (pr_ids r ! k) = Some k"
proof -
  have d: "distinct (map xs_slot_id (es_slots (pr_queue r)))" using assms(1) by (simp add: es_inv_pairs)
  show "es_slot_index (pr_queue r) (pr_ids r ! k) = Some k"
    using position_distinct [OF d, of k] assms(2) by (simp add: es_slot_index_def pr_ids_def pr_queue_len_def)
  then show "resolve_jump_target (map xs_slot_id (es_slots (pr_queue r))) (pr_ids r ! k) = Some k"
    by (simp add: resolve_jump_target_def position_map es_slot_index_def)
qed

lemma jump_arms:
  assumes "playing_at r i" "k < pr_queue_len r" "an_set_works ans"
  shows "cmd_jump_to ans (pr_ids r ! k) req gen ticks r
    = emit (Mpv_Set_Pause False) (emit (Mpv_Set_Playlist_Pos k) (r\<lparr>pr_lifecycle := (pr_lifecycle r)
        \<lparr>rl_jump := Arm_Pending (armed_jump (pr_ids r ! k) req gen (resume_of ans (pr_ids r ! k) ticks r))\<rparr>\<rparr>))"
  using assms resolve_at [of r k]
  by (simp add: playing_at_def cmd_jump_to_def cmd_jump_to_playlist_def set_pending_playlist_jump_def
      arm_jump_def is_active_file_def armed_jump_def resume_of_def Let_def)

lemma enter_tracks [simp]: "\<not> pr_tracks_initialized (enter_next_item es it r)"
  by (simp add: enter_next_item_def Let_def start_next_item_reporting_def start_item_def clear_session_def
      send_ep_info_def mark_played_or_retry_def report_stopped_def set_next_item_status_def emit_def
      split: option.split)

lemma advance_tracks:
  assumes "advance_to_next_track ans es i tr r = Some r'" "\<not> is_active_file (pr_lifecycle r)"
  shows "\<not> pr_tracks_initialized r'"
proof -
  let ?q = "load_active_item_state (snd (advance_select ans es i r))"
  have "pr_lifecycle ?q = pr_lifecycle r"
    using assms(2)
    by (simp add: advance_select_def set_active_index_def load_active_item_state_def Let_def split_beta
        split: option.split)
  with assms obtain it where "r' = announce_advance es tr (enter_next_item es it ?q)"
    by (auto simp: advance_to_next_track_def Let_def split_beta split: option.splits)
  then show ?thesis
    by (simp add: announce_advance_def Let_def emit_track_changed_def emit_def split: option.split)
qed

lemma jump_settles:
  assumes "playing_at r i" "k < pr_queue_len r"
    and j: "r1 = r\<lparr>pr_lifecycle := (pr_lifecycle r)\<lparr>rl_jump := Arm_Pending (armed_jump (pr_ids r ! k) req gen ticks)\<rparr>,
                  pr_log := pr_log r @ sent\<rparr>"
    and sent: "concat (map ended_slot sent) = []" "concat (map entered_slot sent) = []"
  shows "\<exists>r'. end_file_tick ans EF_Stop r1 = Some (False, r')
    \<and> es_active (pr_queue r') = Some (pr_ids r ! k) \<and> pr_current_idx r' = k \<and> pr_ids r' = pr_ids r
    \<and> slot_ends r' = slot_ends r @ [pr_ids r ! i]
    \<and> slot_entries r' = slot_entries r @ [(pr_ids r ! k, Some (req, gen))]
    \<and> rl_jump (pr_lifecycle r') = (case ticks of None \<Rightarrow> Arm_Idle | Some t \<Rightarrow> Arm_ResumeOnly (pr_ids r ! k) t)
    \<and> \<not> pr_tracks_initialized r'"
proof -
  let ?sid = "pr_ids r ! k"
  let ?a = "case ticks of None \<Rightarrow> Arm_Idle | Some t \<Rightarrow> Arm_ResumeOnly ?sid t"
  let ?r = "r1\<lparr>pr_next_up_jump := False\<rparr>"
  let ?r2 = "?r\<lparr>pr_lifecycle := (pr_lifecycle r)\<lparr>rl_jump := ?a\<rparr>\<rparr>"
  have i: "i < pr_queue_len r" using assms(1) by (simp add: playing_at_def)
  obtain s where s: "es_slot (pr_queue r) (pr_ids r ! i) = Some s" using slot_at_id [OF i] .
  have k: "es_slot_index (pr_queue r) ?sid = Some k"
    using assms(1,2) resolve_at(2) by (simp add: playing_at_def)
  have same: "pr_queue ?r = pr_queue r" "pr_queue_len ?r2 = pr_queue_len r" "pr_ids ?r2 = pr_ids r"
    "slot_ends ?r2 = slot_ends r" "slot_entries ?r2 = slot_entries r"
    using sent by (simp_all add: j pr_queue_len_def pr_ids_def slot_ends_def slot_entries_def)
  have settle: "settle_forced_jump ?r = ((k, Some (transition_new req gen ?sid)), ?r2)"
    using assms(2) k
    by (simp add: settle_forced_jump_def jump_settled_on_end_file_def jump_target_slot_def
        neighbor_fallback_def armed_jump_def j pr_queue_len_def Let_def split: option.split)
  have "on_end_file ans EF_Stop r1 = on_end_file_queue ans EF_Stop (Some (pr_ids r ! i)) (pr_reporter_audio r) r1"
    using assms(1) by (simp add: on_end_file_def Let_def playing_at_def pr_active_slot_id_def j)
  also have "\<exists>es. qe_slot_id es = Some (pr_ids r ! i)
      \<and> \<dots> = map_option (Pair False) (advance_to_next_track ans es k (Some (transition_new req gen ?sid)) ?r2)"
    using assms(2) settle same(2) s
    by (auto simp: on_end_file_queue_def Let_def split_beta is_superseded_jump_end_file_def j armed_jump_def
        intro!: exI [of _ "\<lparr>qe_slot_id = _, qe_item = _, qe_pos = _, qe_played_out = _, qe_consume = _, qe_natural = _, qe_runtime = _\<rparr>"])
  finally obtain es where es: "qe_slot_id es = Some (pr_ids r ! i)"
    "on_end_file ans EF_Stop r1 = map_option (Pair False)
       (advance_to_next_track ans es k (Some (transition_new req gen ?sid)) ?r2)" by blast
  have fl: "\<not> is_active_file (pr_lifecycle ?r2)" "es_inv (pr_queue ?r2)" "ps_active (pr_status ?r2)"
    using assms(1) by (simp_all add: playing_at_def is_active_file_def j)
  obtain r' where r': "advance_to_next_track ans es k (Some (transition_new req gen ?sid)) ?r2 = Some r'"
      "moved_to k [pr_ids r ! i] (Some (req, gen)) ?r2 r'"
    using advance_playlist [OF fl(1) _ fl(2), of k ans es "Some (transition_new req gen ?sid)"] assms(2) same es(1)
    by (auto simp: transition_new_def transition_with_cause_def)
  have "pr_ids r' = pr_ids r" using r'(2) by (simp add: moved_to_def pr_ids_def j)
  moreover have "\<not> pr_tracks_initialized r'" using advance_tracks [OF r'(1) fl(1)] .
  ultimately show ?thesis
    using r' es(2) fl(3) same by (simp add: end_file_tick_def moved_to_def)
qed

lemma seeks_helpers [simp]:
  "seeks (report_progress n r) = seeks r" "seeks (send_ep_info it r) = seeks r"
  "seeks (report_start_when_playing e r) = seeks r" "seeks (emit_track_changed sid tr r) = seeks r"
  "seeks (report_restart_progress ans n r) = seeks r"
  by (simp_all add: report_progress_def send_ep_info_def report_start_when_playing_def
      emit_track_changed_def report_restart_progress_def seeks_def emit_def Let_def split: option.split)

lemma init_tracks_seeks:
  assumes "rl_jump (pr_lifecycle r) = (case ticks of None \<Rightarrow> Arm_Idle | Some t \<Rightarrow> Arm_ResumeOnly sid t)"
  shows "seeks (init_tracks_once ans r) = seeks r @ as_list ticks"
    "rl_jump (pr_lifecycle (init_tracks_once ans r)) = Arm_Idle"
proof -
  let ?r1 = "(emit Mpv_Auto_Select_Tracks r)\<lparr>pr_tracks_initialized := True\<rparr>"
  have s1: "seeks ?r1 = seeks r" by (simp add: seeks_def emit_def)
  have r2: "seeks (apply_forced_resume ans ?r1) = seeks ?r1 @ as_list ticks"
    "rl_jump (pr_lifecycle (apply_forced_resume ans ?r1)) = Arm_Idle"
    using assms
    by (cases ticks; simp add: apply_forced_resume_def take_resume_ticks_def seeks_def emit_def Let_def)+
  have info: "pr_lifecycle (send_ep_info it t) = pr_lifecycle t" for it t
    by (simp add: send_ep_info_def split: option.split)
  show "seeks (init_tracks_once ans r) = seeks r @ as_list ticks"
    "rl_jump (pr_lifecycle (init_tracks_once ans r)) = Arm_Idle"
    using r2 s1 by (simp_all add: init_tracks_once_def Let_def info split: option.split)
qed

lemma restart_resumes:
  assumes "rl_jump (pr_lifecycle r) = (case ticks of None \<Rightarrow> Arm_Idle | Some t \<Rightarrow> Arm_ResumeOnly sid t)"
    "\<not> pr_tracks_initialized r"
  shows "seeks (on_playback_restart ans r) = seeks r @ as_list ticks
    \<and> rl_jump (pr_lifecycle (on_playback_restart ans r)) = Arm_Idle"
proof -
  let ?r1 = "r\<lparr>pr_lifecycle := playback_started (pr_lifecycle r)\<rparr>"
  let ?r2 = "case Option.bind (pr_active_item ?r1) qi_as_emby of
      None \<Rightarrow> ?r1 | Some e \<Rightarrow> report_start_when_playing e ?r1"
  have r2: "seeks ?r2 = seeks r" "pr_lifecycle ?r2 = playback_started (pr_lifecycle r)"
    "pr_tracks_initialized ?r2 = pr_tracks_initialized r"
    by (simp_all add: report_start_when_playing_def emit_def seeks_def split: option.split)
  have settle: "settle_idle_jump_on_restart p ?r2 = (None, ?r2)" for p
    using assms(1) r2(2)
    by (cases ticks) (simp_all add: settle_idle_jump_on_restart_def jump_settled_on_restart_def
        playback_started_def Let_def)
  let ?r4 = "(emit Event_Output_Started ?r2)\<lparr>pr_pending_layout := False\<rparr>"
  let ?r5 = "if sp_is_holding (pr_startup_pause ?r4)
      then emit (Mpv_Set_Pause False) (?r4\<lparr>pr_startup_pause := sp_clear (pr_startup_pause ?r4)\<rparr>) else ?r4"
  have r5: "seeks ?r5 = seeks r" "pr_lifecycle ?r5 = playback_started (pr_lifecycle r)"
      "\<not> pr_tracks_initialized ?r5"
    using r2 assms(2) by (auto simp: seeks_def emit_def)
  let ?r6 = "init_tracks_once ans ?r5"
  have r6: "seeks ?r6 = seeks ?r5 @ as_list ticks" "rl_jump (pr_lifecycle ?r6) = Arm_Idle"
    using init_tracks_seeks [of ?r5 sid ticks ans] assms(1) r5(2) by (simp_all add: playback_started_def)
  have prog: "pr_lifecycle (report_restart_progress ans n t) = pr_lifecycle t" for n t
    by (simp add: report_restart_progress_def report_progress_def Let_def emit_def)
  have "on_playback_restart ans r =
      (let r7 = report_restart_progress ans ''TimeUpdate'' ?r6
       in if pr_last_seek_at ?r2 then emit (Observe_Reporting True) r7 else r7)"
    using r5(3) unfolding on_playback_restart_def Let_def settle prod.case by simp
  then show ?thesis using r5(1) r6 prog by (simp add: Let_def)
qed

text \<open>
  C12. A jump in a playing queue is answered: when the owner asks for any slot of the queue and
  mpv accepts the move, the end of the file it leaves completes the left slot and nothing else,
  moves the run to the asked slot and announces it once, tagged with the owner's request; and
  when playback restarts there, mpv is asked to seek exactly to the resume position the medium
  prescribes, if it prescribes one, and the jump is spent.
\<close>

theorem jump_is_answered:
  assumes "playing_at r i" "k < pr_queue_len r" "an_set_works ans"
  shows "\<exists>r'. end_file_tick ans2 EF_Stop (cmd_jump_to ans (pr_ids r ! k) req gen ticks r) = Some (False, r')
    \<and> pr_ids r' = pr_ids r \<and> pr_current_idx r' = k \<and> pr_active_slot_id r' = Some (pr_ids r ! k)
    \<and> slot_ends r' = slot_ends r @ [pr_ids r ! i]
    \<and> slot_entries r' = slot_entries r @ [(pr_ids r ! k, Some (req, gen))]
    \<and> seeks (on_playback_restart ans3 r') = seeks r' @ as_list (resume_of ans (pr_ids r ! k) ticks r)
    \<and> rl_jump (pr_lifecycle (on_playback_restart ans3 r')) = Arm_Idle"
proof -
  let ?t = "resume_of ans (pr_ids r ! k) ticks r"
  have "cmd_jump_to ans (pr_ids r ! k) req gen ticks r
    = r\<lparr>pr_lifecycle := (pr_lifecycle r)\<lparr>rl_jump := Arm_Pending (armed_jump (pr_ids r ! k) req gen ?t)\<rparr>,
        pr_log := pr_log r @ [Mpv_Set_Playlist_Pos k, Mpv_Set_Pause False]\<rparr>"
    using jump_arms [OF assms] by (simp add: emit_def)
  from jump_settles [OF assms(1,2) this, of ans2] restart_resumes [where ticks = ?t and sid = "pr_ids r ! k" and ans = ans3]
  show ?thesis by (auto simp: pr_active_slot_id_def)
qed

section \<open>What the stop report of a replaced item carries\<close>

definition is_stop_sent :: "effect \<Rightarrow> bool" where
  "is_stop_sent e \<longleftrightarrow> (case e of Stop_Sent _ _ _ \<Rightarrow> True | _ \<Rightarrow> False)"

definition stop_reports :: "play_run \<Rightarrow> effect list" where
  "stop_reports r = filter is_stop_sent (pr_log r)"

definition reporter_view :: "play_run \<Rightarrow> string \<times> bool \<times> i64 \<times> effect list" where
  "reporter_view r =
     (pr_reporter_id r, pr_reporter_audio r, ps_runtime_ticks (pr_status r), stop_reports r)"

lemma reporter_emit [simp]: "\<not> is_stop_sent e \<Longrightarrow> reporter_view (emit e r) = reporter_view r"
  by (simp add: reporter_view_def stop_reports_def emit_def)

lemma reporter_fold:
  "(\<And>x t. reporter_view (f x t) = reporter_view t) \<Longrightarrow> reporter_view (fold f xs r) = reporter_view r"
  by (induction xs arbitrary: r) simp_all

lemma reporter_load [simp]:
  "reporter_view (load_queue_into_mpv ans items i secs r) = reporter_view r"
proof -
  have "reporter_view (load_slot_at items i secs n t) = reporter_view t" for n t
    by (simp add: load_slot_at_def Let_def is_stop_sent_def split: prod.split)
  then have "reporter_view (fold (load_slot_at items i secs) ns t) = reporter_view t" for ns t
    by (rule reporter_fold)
  then show ?thesis
    by (simp add: load_queue_into_mpv_def start_queue_playback_def reassert_queue_layout_def Let_def
        is_stop_sent_def split: queue_layout_verdict.split)
qed

lemma reporter_helpers [simp]:
  "reporter_view (cancel_pending_quit r) = reporter_view r"
  "reporter_view (close_prepared_source r) = reporter_view r"
  "reporter_view (send_ep_info it r) = reporter_view r"
  "reporter_view (load_active_item_state r) = reporter_view r"
  "reporter_view (r\<lparr>pr_origin := og\<rparr>) = reporter_view r"
  "reporter_view (r\<lparr>pr_queue := q, pr_current_idx := n\<rparr>) = reporter_view r"
  "reporter_view (r\<lparr>pr_identity := g, pr_lifecycle := l\<rparr>) = reporter_view r"
  by (simp_all add: cancel_pending_quit_def close_prepared_source_def send_ep_info_def
      load_active_item_state_def reporter_view_def stop_reports_def emit_def is_stop_sent_def Let_def
      split: option.split)

lemma stop_reports_begin [simp]: "stop_reports (begin_item_lifecycle a r) = stop_reports r"
  by (simp add: begin_item_lifecycle_def reset_next_up_state_def stop_reports_def Let_def)

lemma stop_reports_start [simp]: "stop_reports (start_next_item_reporting it r) = stop_reports r"
  by (simp add: start_next_item_reporting_def start_item_def clear_session_def stop_reports_def emit_def
      is_stop_sent_def split: option.split)

lemma initialize_reports:
  assumes "has_session r"
  shows "stop_reports (initialize_queue_start True it secs r) = stop_reports r
    @ [Stop_Sent (pr_reporter_id r) (if pr_reporter_audio r then 0 else pr_last_valid_pos r)
         (ps_runtime_ticks (pr_status r))]"
proof -
  have upd: "stop_reports (t\<lparr>pr_status := v\<rparr>) = stop_reports t"
    "stop_reports (t\<lparr>pr_pending_layout := b\<rparr>) = stop_reports t" for t v b
    by (simp_all add: stop_reports_def)
  have "stop_reports (report_stopped (pr_last_valid_pos r) r) = stop_reports r
      @ [Stop_Sent (pr_reporter_id r) (if pr_reporter_audio r then 0 else pr_last_valid_pos r)
           (ps_runtime_ticks (pr_status r))]"
    using assms by (simp add: stop_reports_def stop_sent_def is_stop_sent_def)
  then show ?thesis by (simp add: initialize_queue_start_def Let_def upd)
qed

lemma refresh_length [simp]: "length (refresh_slots ans items) = length items"
  by (simp add: refresh_slots_def resume_refresh_def)

lemma es_from_active:
  assumes "es_from_slot_items items (Some sid) = Some q" "n < length items" "items ! n = (sid, it)"
  shows "map_option xs_item (es_active_slot q) = Some it"
proof -
  let ?slots = "map (\<lambda>(sid, it). \<lparr>xs_slot_id = sid, xs_item = it\<rparr>) items"
  have uniq: "assert_unique_slot_ids items []" and q: "q = \<lparr>es_slots = ?slots, es_active = Some sid\<rparr>"
    using assms nth_mem [OF assms(2)] by (auto simp: es_from_slot_items_def Let_def split: if_splits)
  have d: "distinct (map fst items)" using uniq by (simp add: assert_unique_slot_ids_def unique_slot_ids_loop_iff)
  have "xs_slot_id (?slots ! n) = sid" using assms(2,3) by simp
  moreover have "xs_slot_id (?slots ! j) \<noteq> sid" if "j < n" for j
  proof -
    have "map fst items ! j \<noteq> map fst items ! n"
      using d that assms(2) nth_eq_iff_index_eq [OF d, of j n] by simp
    then show ?thesis using that assms(2,3) by (simp add: split_beta)
  qed
  ultimately have "List.find (\<lambda>s. xs_slot_id s = sid) ?slots = Some (?slots ! n)"
    using assms(2) by (auto simp: find_Some_iff intro!: exI [of _ n])
  then show ?thesis using assms(2,3) by (simp add: q es_active_slot_def es_slot_def)
qed

text \<open>The entry a submission starts at, as the server refreshed it.\<close>

definition incoming_item :: "answers \<Rightarrow> (queue_slot_id \<times> queue_item) list \<Rightarrow> usize \<Rightarrow> queue_item" where
  "incoming_item ans items start = snd (refresh_slots ans items ! min start (length items - 1))"

text \<open>
  C35. A queue submitted over a playing one closes the outgoing item at the wrong place: the one
  stop report it sends names the outgoing item but carries the start position of the incoming
  one, wherever the outgoing item was (the start position is loaded before the report is sent).
\<close>

theorem replacement_reports_incoming_position:
  assumes "accept_submission ans items start secs r = Some r'" "items \<noteq> []"
    "\<not> is_active_file (pr_lifecycle r)" "\<not> (\<exists>(sid, it)\<in>set items. qi_is_audiobookshelf it)"
    "has_url_source (refresh_slots ans items)" "pr_queue_len r > 0"
    "has_session r" "\<not> pr_reporter_audio r"
  shows "stop_reports r' = stop_reports r
    @ [Stop_Sent (pr_reporter_id r) (ai_last_valid_pos (active_item_state_of (Some (incoming_item ans items start))))
         (ps_runtime_ticks (pr_status r))]"
proof -
  let ?items = "refresh_slots ans items"
  let ?n = "min start (length ?items - 1)"
  obtain sid it where x: "?items ! ?n = (sid, it)" by fastforce
  have n: "?n < length ?items" "?items \<noteq> []" using assms(2) by (cases items; fastforce simp: refresh_slots_def resume_refresh_def)+
  let ?r1 = "r\<lparr>pr_identity := ps_sequence_generation (pr_status r),
               pr_lifecycle := submission_accepted (pr_lifecycle r)\<rparr>"
  let ?r2 = "emit (Mpv_Set_Pause False) (close_prepared_source (cancel_pending_quit ?r1))"
  let ?r4 = "(send_ep_info it (load_queue_into_mpv ans ?items ?n secs ?r2))\<lparr>pr_origin := origin_of_count (length ?items)\<rparr>"
  have "pr_queue_len ?r2 > 0"
    using assms(6) by (simp add: pr_queue_len_def cancel_pending_quit_def close_prepared_source_def)
  then obtain q where q: "es_from_slot_items ?items (Some sid) = Some q"
    and r': "r' = initialize_queue_start True it secs
               (load_active_item_state (?r4\<lparr>pr_queue := q, pr_current_idx := ?n\<rparr>))"
    using assms(1-5) x n
    by (auto simp: accept_submission_def cmd_submit_queue_def is_active_file_def submission_accepted_def
        Let_def split: option.splits)
  let ?s = "load_active_item_state (?r4\<lparr>pr_queue := q, pr_current_idx := ?n\<rparr>)"
  have view: "reporter_view ?s = reporter_view r" by (simp add: is_stop_sent_def)
  have "pr_active_item (?r4\<lparr>pr_queue := q, pr_current_idx := ?n\<rparr>) = Some it"
    using es_from_active [OF q] x n by (simp add: pr_active_item_def)
  then have "pr_last_valid_pos ?s = ai_last_valid_pos (active_item_state_of (Some it))"
    by (simp add: load_active_item_state_def Let_def)
  moreover have "has_session ?s" "pr_reporter_id ?s = pr_reporter_id r" "\<not> pr_reporter_audio ?s"
      "ps_runtime_ticks (pr_status ?s) = ps_runtime_ticks (pr_status r)" "stop_reports ?s = stop_reports r"
    using view assms(7,8) by (auto simp: reporter_view_def has_session_def)
  ultimately show ?thesis
    using initialize_reports [of ?s it secs] x by (simp add: r' incoming_item_def)
qed

section \<open>Sample runs\<close>

definition sample_song :: emby_item where
  "sample_song = (emby_folder ''s1'' ''Song'' [])\<lparr>emby_item_type := ''Audio''\<rparr>"

definition sample_film :: "string \<Rightarrow> i64 \<Rightarrow> queue_item" where
  "sample_film name ticks = QI_Emby ((emby_folder name name [])
     \<lparr>emby_item_type := ''Movie'', emby_runtime_ticks := 9000, emby_playback_position_ticks := ticks\<rparr>)"

text \<open>The second entry is left by a jump at its half, tick 500; what the owner hears of it.\<close>

definition mixed_ticks :: "tick_input list" where
  "mixed_ticks =
     [\<lparr>ti_commands = [], ti_stop = False, ti_quit_elapsed = False,
       ti_events = [(sample_answers, Ev_Playback_Restart), (sample_answers, Ev_End_File EF_Eof),
         (sample_answers, Ev_Playback_Restart), (sample_answers, Ev_Time_Pos (1 / 20000))]\<rparr>,
      \<lparr>ti_commands = [(sample_answers, Cmd_Jump_To 3 1 1 None)], ti_stop = False, ti_quit_elapsed = False,
       ti_events = [(sample_answers, Ev_End_File EF_Stop)]\<rparr>]"

definition is_completed :: "effect \<Rightarrow> bool" where
  "is_completed e \<longleftrightarrow> (case e of Event_Track_Completed _ _ _ _ _ \<Rightarrow> True | _ \<Rightarrow> False)"

definition completions_after :: "run_init \<Rightarrow> queue_item \<Rightarrow> effect list option" where
  "completions_after init first =
     map_option (\<lambda>(_, r). filter is_completed (pr_log r))
       (Option.bind (new_from_slot_items [(1, first), (2, sample_feed ''a''), (3, sample_feed ''b'')] init)
          (run_ticks None mixed_ticks))"

text \<open>
  The session reporter's audio mark outlives its session: after an Emby song, a feed entry left
  half-way is completed at position 0; after another feed entry it is completed where it was.
\<close>

lemma stale_audio_mark:
  "map_option last (completions_after
     (sample_init\<lparr>ri_session_item := ''s1'', ri_session_audio := True\<rparr>) (QI_Emby sample_song))
     = Some (Event_Track_Completed 2 1 0 False False)"
  "map_option last (completions_after sample_init (sample_feed ''c''))
     = Some (Event_Track_Completed 2 1 500 False False)"
  by code_simp+

definition fresh_run :: play_run where
  "fresh_run = the (new_from_slot_items sample_items sample_init)"

lemma fresh_run_facts:
  "new_from_slot_items sample_items sample_init = Some fresh_run"
  "playing_at fresh_run 0" "pr_queue_len fresh_run = 2" "pr_ids fresh_run = [1, 2]"
  "pr_log fresh_run = []"
  by (simp_all add: fresh_run_def new_from_slot_items_def sample_items_def sample_init_def sample_feed_def
      sample_status_def es_from_slot_items_def assert_unique_slot_ids_def es_active_slot_def es_slot_def
      nth_opt_def playing_at_def es_inv_pairs pr_queue_len_def pr_ids_def lifecycle_for_queue_def
      is_active_file_def es_has_audiobookshelf_entries_def Let_def)



lemma queue_plays_to_its_end_witness:
  "\<exists>r'. handle_events None [(sample_answers, Ev_End_File EF_Eof), (sample_answers, Ev_End_File EF_Eof)]
      fresh_run = Some (True, r') \<and> slot_ends r' = [1, 2] \<and> length (stops r') = 1"
  using queue_plays_to_its_end [OF fresh_run_facts(2), of "[sample_answers, sample_answers]" None] fresh_run_facts
  by (simp add: slot_ends_def stops_def)

lemma jump_is_answered_witness:
  "\<exists>r'. end_file_tick sample_answers EF_Stop (cmd_jump_to sample_answers 2 7 9 (Some 30) fresh_run) = Some (False, r')
    \<and> slot_entries r' = [(2, Some (7, 9))] \<and> seeks (on_playback_restart sample_answers r') = seeks r' @ [30]"
proof -
  have "resume_of sample_answers 2 (Some 30) fresh_run = Some 30"
    by (simp add: resume_of_def fresh_run_def new_from_slot_items_def sample_items_def sample_init_def
        sample_feed_def es_from_slot_items_def assert_unique_slot_ids_def es_active_slot_def es_slot_def
        nth_opt_def jump_ticks_def Let_def)
  then show ?thesis
    using jump_is_answered [OF fresh_run_facts(2), of 1 sample_answers sample_answers 7 9 "Some 30" sample_answers]
      fresh_run_facts
    by (auto simp: slot_entries_def sample_answers_def)
qed

definition film_run :: play_run where
  "film_run = (the (new_from_slot_items [(1, sample_film ''f1'' 0)]
     (sample_init\<lparr>ri_session_item := ''f1''\<rparr>)))\<lparr>pr_last_valid_pos := 5000\<rparr>"

text \<open>The film was left at tick 5000, its stop report says 0.\<close>

lemma replacement_reports_incoming_position_witness:
  "\<exists>r'. accept_submission sample_answers [(3, sample_film ''f3'' 700)] 0 None film_run = Some r'
     \<and> pr_last_valid_pos film_run = 5000 \<and> stop_reports r' = [Stop_Sent ''f1'' 0 0]"
proof -
  have run: "\<not> is_active_file (pr_lifecycle film_run)" "pr_queue_len film_run > 0" "has_session film_run"
    "\<not> pr_reporter_audio film_run" "pr_reporter_id film_run = ''f1''" "pr_log film_run = []"
    "ps_runtime_ticks (pr_status film_run) = 0" "pr_last_valid_pos film_run = 5000"
    by code_simp+
  have inc: "has_url_source (refresh_slots sample_answers [(3, sample_film ''f3'' 700)])"
    "ai_last_valid_pos (active_item_state_of (Some
       (incoming_item sample_answers [(3, sample_film ''f3'' 700)] 0))) = 0"
    by code_simp+
  have "accept_submission sample_answers [(3, sample_film ''f3'' 700)] 0 None film_run \<noteq> None"
    by code_simp
  then obtain r' where r': "accept_submission sample_answers [(3, sample_film ''f3'' 700)] 0 None film_run = Some r'"
    by blast
  from replacement_reports_incoming_position [OF r' _ run(1) _ inc(1) run(2-4)] run inc(2) r' show ?thesis
    by (auto simp: stop_reports_def sample_film_def)
qed

end
