(* ===== verification/Chord.thy ===== *)
theory Chord
  imports Text_Base
begin

text \<open>
  Key chords and their textual grammar (\<^verbatim>\<open>mbv-keybinds/chord.rs\<close>): the modifier set, the keys,
  the parser with its four refusals, and the canonical rendering. A Rust \<^verbatim>\<open>char\<close> is its code
  point; a string is its UTF-8 bytes, so that taking the single character of a string decodes
  it. The last section shows which chords can be written down at all.
\<close>

unbundle bit_operations_syntax

section \<open>Characters of a string\<close>

definition is_scalar :: "nat \<Rightarrow> bool" where
  "is_scalar n \<longleftrightarrow> n < 0x110000 \<and> \<not> (0xD800 \<le> n \<and> n < 0xE000)"

definition byte :: "nat \<Rightarrow> char" where
  "byte n = char_of n"

definition char_utf8 :: "nat \<Rightarrow> string" where
  "char_utf8 n =
     (if n < 0x80 then [byte n]
      else if n < 0x800 then [byte (0xC0 + n div 64), byte (0x80 + n mod 64)]
      else if n < 0x10000
      then [byte (0xE0 + n div 4096), byte (0x80 + n div 64 mod 64), byte (0x80 + n mod 64)]
      else [byte (0xF0 + n div 262144), byte (0x80 + n div 4096 mod 64),
            byte (0x80 + n div 64 mod 64), byte (0x80 + n mod 64)])"

text \<open>\<^verbatim>\<open>chars().next()\<close>: the first character and the rest; \<open>None\<close> at the end of the string (and for
  bytes that are not UTF-8, which no \<^verbatim>\<open>str\<close> holds).\<close>

fun utf8_lead :: "string \<Rightarrow> nat option" where
  "utf8_lead [] = None"
| "utf8_lead (a # s) =
     (let x = of_char a :: nat in
      if x < 0x80 then Some x
      else case s of
        [] \<Rightarrow> None
      | b # t \<Rightarrow>
          (let y = of_char b :: nat in
           if x < 0xE0 then Some (x mod 32 * 64 + y mod 64)
           else case t of
             [] \<Rightarrow> None
           | c # u \<Rightarrow>
               (let z = of_char c :: nat in
                if x < 0xF0 then Some (x mod 16 * 4096 + y mod 64 * 64 + z mod 64)
                else case u of
                  [] \<Rightarrow> None
                | d # v \<Rightarrow> Some (x mod 8 * 262144 + y mod 64 * 4096 + z mod 64 * 64
                                 + of_char d mod 64))))"

definition utf8_next :: "string \<Rightarrow> (nat \<times> string) option" where
  "utf8_next s =
     (case utf8_lead s of
        None \<Rightarrow> None
      | Some n \<Rightarrow>
          if is_scalar n \<and> starts_with (char_utf8 n) s
          then Some (n, drop (length (char_utf8 n)) s) else None)"

text \<open>\<^verbatim>\<open>(chars.next(), chars.next()) = (Some(c), None)\<close>.\<close>

definition single_char :: "string \<Rightarrow> nat option" where
  "single_char s =
     (case utf8_next s of
        Some (n, rest) \<Rightarrow> if rest = [] then Some n else None
      | None \<Rightarrow> None)"

definition char_whitespace :: "nat \<Rightarrow> bool" where
  "char_whitespace n \<longleftrightarrow>
     (9 \<le> n \<and> n \<le> 13) \<or> n = 32 \<or> n = 0x85 \<or> n = 0xA0 \<or> n = 0x1680
   \<or> (0x2000 \<le> n \<and> n \<le> 0x200A) \<or> n = 0x2028 \<or> n = 0x2029 \<or> n = 0x202F \<or> n = 0x205F
   \<or> n = 0x3000"

text \<open>\<^verbatim>\<open>s.split(sep)\<close> for an ASCII separator.\<close>

fun split_char :: "char \<Rightarrow> string \<Rightarrow> string list" where
  "split_char sep [] = [[]]"
| "split_char sep (c # s) =
     (if c = sep then [] # split_char sep s
      else case split_char sep s of
             [] \<Rightarrow> [[c]]
           | p # ps \<Rightarrow> (c # p) # ps)"

text \<open>\<^verbatim>\<open>s.parse::<u8>()\<close>: an optional plus sign and decimal digits, at most 255.\<close>

definition is_digit :: "char \<Rightarrow> bool" where
  "is_digit c \<longleftrightarrow> (48::nat) \<le> of_char c \<and> of_char c < (58::nat)"

definition parse_u8 :: "string \<Rightarrow> 8 word option" where
  "parse_u8 s =
     (let digits = (case s of
            c # cs \<Rightarrow> if c = CHR ''+'' \<and> cs \<noteq> [] then cs else s
          | [] \<Rightarrow> s)
      in if digits \<noteq> [] \<and> list_all is_digit digits \<and> undec digits \<le> 255
         then Some (of_nat (undec digits)) else None)"

section \<open>Chords\<close>

type_synonym key_mods = "8 word"

definition KM_NONE :: key_mods where "KM_NONE = 0"
definition KM_CTRL :: key_mods where "KM_CTRL = 1"
definition KM_SHIFT :: key_mods where "KM_SHIFT = 2"
definition KM_ALT :: key_mods where "KM_ALT = 4"

definition km_contains :: "key_mods \<Rightarrow> key_mods \<Rightarrow> bool" where
  "km_contains m other \<longleftrightarrow> m AND other = other"

definition km_union :: "key_mods \<Rightarrow> key_mods \<Rightarrow> key_mods" where
  "km_union m other = m OR other"

definition km_is_empty :: "key_mods \<Rightarrow> bool" where
  "km_is_empty m \<longleftrightarrow> m = 0"

datatype chord_key =
    CK_Backspace | CK_Enter | CK_Esc | CK_Left | CK_Right | CK_Up | CK_Down | CK_Home | CK_End
  | CK_PageUp | CK_PageDown | CK_Tab | CK_BackTab | CK_Delete | CK_Insert
  | CK_F "8 word" | CK_Char nat

record chord =
  ch_mods :: key_mods
  ch_key :: chord_key

datatype chord_error = Empty_Chord | Empty_Token | Unknown_Modifier string | Unknown_Key string

definition chord_error_name :: "chord_error \<Rightarrow> string" where
  "chord_error_name e =
     (case e of
        Empty_Chord \<Rightarrow> ''keybinds.chord.empty''
      | Empty_Token \<Rightarrow> ''keybinds.chord.empty_token''
      | Unknown_Modifier _ \<Rightarrow> ''keybinds.chord.unknown_modifier''
      | Unknown_Key _ \<Rightarrow> ''keybinds.chord.unknown_key'')"

definition chord_error_text :: "chord_error \<Rightarrow> string" where
  "chord_error_text e =
     (case e of
        Empty_Chord \<Rightarrow> ''empty chord''
      | Empty_Token \<Rightarrow> ''empty chord token''
      | Unknown_Modifier name \<Rightarrow> ''unknown modifier `'' @ name @ ''`''
      | Unknown_Key name \<Rightarrow> ''unknown key `'' @ name @ ''`'')"

section \<open>Parsing\<close>

definition NAMED_KEYS :: "(string \<times> chord_key) list" where
  "NAMED_KEYS =
     [(''esc'', CK_Esc), (''escape'', CK_Esc), (''tab'', CK_Tab), (''backtab'', CK_BackTab),
      (''enter'', CK_Enter), (''return'', CK_Enter), (''space'', CK_Char 32),
      (''left'', CK_Left), (''right'', CK_Right), (''up'', CK_Up), (''down'', CK_Down),
      (''home'', CK_Home), (''end'', CK_End), (''pageup'', CK_PageUp),
      (''pagedown'', CK_PageDown), (''delete'', CK_Delete), (''del'', CK_Delete),
      (''insert'', CK_Insert), (''backspace'', CK_Backspace)]"

definition parse_key :: "string \<Rightarrow> chord_error + chord_key" where
  "parse_key token0 =
     (let token = trim token0 in
      if token = [] then Inl Empty_Token
      else case single_char token of
        Some c \<Rightarrow> Inr (CK_Char c)
      | None \<Rightarrow>
          (let lower = to_ascii_lowercase token in
           case List.find (\<lambda>(name, _). name = lower) NAMED_KEYS of
             Some (_, k) \<Rightarrow> Inr k
           | None \<Rightarrow>
               (case opt_filter (\<lambda>n. 1 \<le> n \<and> n \<le> 12)
                       (Option.bind (strip_prefix ''f'' lower) parse_u8) of
                  Some n \<Rightarrow> Inr (CK_F n)
                | None \<Rightarrow> Inl (Unknown_Key token))))"

definition parse_modifier :: "string \<Rightarrow> chord_error + key_mods" where
  "parse_modifier token0 =
     (let token = trim token0; lower = to_ascii_lowercase token in
      if token = [] then Inl Empty_Token
      else if lower = ''ctrl'' \<or> lower = ''control'' then Inr KM_CTRL
      else if lower = ''shift'' then Inr KM_SHIFT
      else if lower = ''alt'' then Inr KM_ALT
      else Inl (Unknown_Modifier token))"

fun parse_modifiers :: "string list \<Rightarrow> key_mods \<Rightarrow> chord_error + key_mods" where
  "parse_modifiers [] mods = Inr mods"
| "parse_modifiers (t # ts) mods =
     (case parse_modifier t of
        Inl e \<Rightarrow> Inl e
      | Inr m \<Rightarrow> parse_modifiers ts (km_union mods m))"

definition chord_parse :: "string \<Rightarrow> chord_error + chord" where
  "chord_parse s0 =
     (let s = trim s0 in
      if s = [] then Inl Empty_Chord
      else case single_char s of
        Some c \<Rightarrow> Inr \<lparr>ch_mods = KM_NONE, ch_key = CK_Char c\<rparr>
      | None \<Rightarrow>
          (let tokens = split_char CHR ''+'' s in
           case parse_modifiers (butlast tokens) KM_NONE of
             Inl e \<Rightarrow> Inl e
           | Inr mods \<Rightarrow>
               (case parse_key (last tokens) of
                  Inl e \<Rightarrow> Inl e
                | Inr k \<Rightarrow> Inr \<lparr>ch_mods = mods, ch_key = k\<rparr>)))"

section \<open>Rendering\<close>

definition key_display :: "chord_key \<Rightarrow> string" where
  "key_display k =
     (case k of
        CK_Backspace \<Rightarrow> ''Backspace'' | CK_Enter \<Rightarrow> ''Enter'' | CK_Esc \<Rightarrow> ''Esc''
      | CK_Left \<Rightarrow> ''Left'' | CK_Right \<Rightarrow> ''Right'' | CK_Up \<Rightarrow> ''Up'' | CK_Down \<Rightarrow> ''Down''
      | CK_Home \<Rightarrow> ''Home'' | CK_End \<Rightarrow> ''End'' | CK_PageUp \<Rightarrow> ''PageUp''
      | CK_PageDown \<Rightarrow> ''PageDown'' | CK_Tab \<Rightarrow> ''Tab'' | CK_BackTab \<Rightarrow> ''BackTab''
      | CK_Delete \<Rightarrow> ''Delete'' | CK_Insert \<Rightarrow> ''Insert''
      | CK_F n \<Rightarrow> CHR ''F'' # dec (unat n)
      | CK_Char c \<Rightarrow> if c = 32 then ''Space'' else char_utf8 c)"

definition chord_display :: "chord \<Rightarrow> string" where
  "chord_display c =
     (if km_contains (ch_mods c) KM_CTRL then ''Ctrl+'' else [])
   @ (if km_contains (ch_mods c) KM_SHIFT then ''Shift+'' else [])
   @ (if km_contains (ch_mods c) KM_ALT then ''Alt+'' else [])
   @ key_display (ch_key c)"

section \<open>White space and characters\<close>

lemma of_char_byte [simp]: "n < 256 \<Longrightarrow> of_char (byte n) = n"
  by (simp add: byte_def of_char_of)

lemma byte_of_char [simp]: "byte (of_char c) = c"
  by (simp add: byte_def)

lemma ws1_byte: "n < 0x80 \<Longrightarrow> ws1 (byte n) \<longleftrightarrow> char_whitespace n"
  by (auto simp: ws1_def char_whitespace_def)

lemma ws1_high: "0x80 \<le> n \<Longrightarrow> n < 256 \<Longrightarrow> \<not> ws1 (byte n)"
  by (auto simp: ws1_def)

text \<open>A code point by its groups of six bits.\<close>

lemma six_bits:
  obtains x y z :: nat where "n = 4096 * x + 64 * y + z" "y < 64" "z < 64"
    "n div 4096 = x" "n div 64 mod 64 = y" "n mod 64 = z" "n div 64 = 64 * x + y"
proof -
  have d: "n div 4096 = n div 64 div 64" by (simp add: div_mult2_eq [symmetric])
  have b: "n div 64 = 64 * (n div 4096) + n div 64 mod 64" unfolding d by simp
  have "n = 64 * (n div 64) + n mod 64" by simp
  with b have "n = 4096 * (n div 4096) + 64 * (n div 64 mod 64) + n mod 64" by linarith
  then show thesis by (rule that [OF _ _ _ refl refl refl b]) simp_all
qed

lemma ws2_bytes:
  assumes "0x80 \<le> n" "n < 0x800"
  shows "ws2 (byte (0xC0 + n div 64)) (byte (0x80 + n mod 64)) \<longleftrightarrow> char_whitespace n"
proof -
  obtain x y z where n: "n = 4096 * x + 64 * y + z" "y < 64" "z < 64" "n mod 64 = z" "n div 64 = 64 * x + y"
    by (rule six_bits)
  then have "x = 0" "y < 32" using assms by auto
  moreover have "(y = 2 \<and> (z = 5 \<or> z = 32)) \<longleftrightarrow> 64 * y + z = 0x85 \<or> 64 * y + z = 0xA0"
    using n(3) by presburger
  ultimately show ?thesis using n assms by (auto simp: ws2_def char_whitespace_def)
qed

lemma ws3_bytes:
  assumes "0x800 \<le> n" "n < 0x10000"
  shows "ws3 (byte (0xE0 + n div 4096)) (byte (0x80 + n div 64 mod 64)) (byte (0x80 + n mod 64))
    \<longleftrightarrow> char_whitespace n"
proof -
  obtain x y z where n: "n = 4096 * x + 64 * y + z" "y < 64" "z < 64"
    "n div 4096 = x" "n div 64 mod 64 = y" "n mod 64 = z" by (rule six_bits)
  then have x: "x < 16" using assms by simp
  with n(2,3) have "ws3 (byte (0xE0 + x)) (byte (0x80 + y)) (byte (0x80 + z)) \<longleftrightarrow>
      (x = 1 \<and> y = 26 \<and> z = 0) \<or> (x = 2 \<and> y = 0 \<and> (z \<le> 10 \<or> z = 40 \<or> z = 41 \<or> z = 47))
    \<or> (x = 2 \<and> y = 1 \<and> z = 31) \<or> (x = 3 \<and> y = 0 \<and> z = 0)"
    by (auto simp: ws3_def)
  also have "\<dots> \<longleftrightarrow> char_whitespace (4096 * x + 64 * y + z)"
  proof -
    consider "x = 0" | "x = 1" | "x = 2" | "x = 3" | "4 \<le> x" by linarith
    then show ?thesis
    proof cases
      case 1
      with assms(1) n(1-3) show ?thesis by (auto simp: char_whitespace_def)
    next
      case 2
      with n(2,3) show ?thesis by (auto simp: char_whitespace_def) presburger+
    next
      case 3
      consider "y = 0" | "y = 1" | "2 \<le> y" by linarith
      then show ?thesis using 3 n(2,3) by cases (auto simp: char_whitespace_def)
    next
      case 4
      with n(2,3) show ?thesis by (auto simp: char_whitespace_def)
    qed (use n(2,3) in \<open>auto simp: char_whitespace_def\<close>)
  qed
  finally show ?thesis using n by simp
qed

lemma not_whitespace_high: "0x10000 \<le> n \<Longrightarrow> \<not> char_whitespace n"
  by (simp add: char_whitespace_def)

lemma ws2_lead: "ws2 a b \<Longrightarrow> of_char a = (0xC2::nat) \<and> 0x80 \<le> (of_char b :: nat)"
  by (auto simp: ws2_def)

lemma ws3_lead:
  "ws3 a b c \<Longrightarrow> 0xE1 \<le> (of_char a :: nat) \<and> 0x80 \<le> (of_char b :: nat) \<and> (of_char b :: nat) < 0xC0
     \<and> 0x80 \<le> (of_char c :: nat)"
  by (auto simp: ws3_def Let_def)

text \<open>The encoding of one character, by its length.\<close>

lemma char_utf8_cases [consumes 1, case_names one two three four]:
  assumes "is_scalar n"
  obtains "n < 0x80" "char_utf8 n = [byte n]"
  | "0x80 \<le> n" "n < 0x800" "char_utf8 n = [byte (0xC0 + n div 64), byte (0x80 + n mod 64)]"
  | "0x800 \<le> n" "n < 0x10000"
    "char_utf8 n = [byte (0xE0 + n div 4096), byte (0x80 + n div 64 mod 64), byte (0x80 + n mod 64)]"
  | "0x10000 \<le> n" "n < 0x110000"
    "char_utf8 n = [byte (0xF0 + n div 262144), byte (0x80 + n div 4096 mod 64),
                    byte (0x80 + n div 64 mod 64), byte (0x80 + n mod 64)]"
proof -
  have "n < 0x110000" using assms by (simp add: is_scalar_def)
  then show thesis
    using that by (cases "n < 0x80"; cases "n < 0x800"; cases "n < 0x10000") (simp_all add: char_utf8_def)
qed

lemma byte_bits:
  "(y::nat) < 64 \<Longrightarrow> (128 + y) mod 64 = y" "y < 32 \<Longrightarrow> (192 + y) mod 32 = y"
  "y < 16 \<Longrightarrow> (224 + y) mod 16 = y" "y < 8 \<Longrightarrow> (240 + y) mod 8 = y"
  using mod_mult_self4 [of 64 2 y] mod_mult_self4 [of 32 6 y] mod_mult_self4 [of 16 14 y]
    mod_mult_self4 [of 8 30 y]
  by simp_all

lemma utf8_lead_encoding:
  assumes "is_scalar n" shows "utf8_lead (char_utf8 n @ r) = Some n"
  using assms
proof (cases rule: char_utf8_cases)
  case one
  then show ?thesis by simp
next
  case two
  obtain x y z where n: "n = 4096 * x + 64 * y + z" "y < 64" "z < 64" "n mod 64 = z" "n div 64 = 64 * x + y"
    by (rule six_bits)
  then have "x = 0" "y < 32" using two by auto
  with n two(3) show ?thesis by (simp add: byte_bits)
next
  case three
  obtain x y z where n: "n = 4096 * x + 64 * y + z" "y < 64" "z < 64"
    "n div 4096 = x" "n div 64 mod 64 = y" "n mod 64 = z" by (rule six_bits)
  then have "x < 16" using three by simp
  then show ?thesis unfolding three(3) using n by (simp add: byte_bits)
next
  case four
  obtain x y z where n: "n = 4096 * x + 64 * y + z" "y < 64" "z < 64"
    "n div 4096 = x" "n div 64 mod 64 = y" "n mod 64 = z" by (rule six_bits)
  have "n div 262144 = x div 64" using n(4) by (simp add: div_mult2_eq [symmetric] flip: n(4))
  moreover have "x div 64 < 5" using n(1) four(2) by simp
  moreover have "x div 64 * 262144 + x mod 64 * 4096 = 4096 * x"
    using div_mult_mod_eq [of x 64] by linarith
  moreover have "128 + x mod 64 < 256" using mod_less_divisor [of 64 x] by linarith
  ultimately show ?thesis unfolding four(3) using n by (simp add: byte_bits)
qed

lemma utf8_next_encoding: "is_scalar n \<Longrightarrow> utf8_next (char_utf8 n @ r) = Some (n, r)"
  by (simp add: utf8_next_def utf8_lead_encoding starts_with_def)

lemma single_char_iff: "single_char s = Some n \<longleftrightarrow> is_scalar n \<and> s = char_utf8 n"
proof
  assume "single_char s = Some n"
  then show "is_scalar n \<and> s = char_utf8 n"
    by (auto simp: single_char_def utf8_next_def starts_with_iff split: option.splits if_splits)
next
  assume "is_scalar n \<and> s = char_utf8 n"
  then show "single_char s = Some n"
    using utf8_next_encoding [of n "[]"] by (simp add: single_char_def)
qed

section \<open>Trimming\<close>

text \<open>\<open>solid_start\<close> and \<open>solid_end\<close>: the text starts or ends with a character that is not white
  space, so that trimming leaves that end alone.\<close>

definition solid_char :: "nat \<Rightarrow> bool" where
  "solid_char n \<longleftrightarrow> is_scalar n \<and> \<not> char_whitespace n"

definition solid_start :: "string \<Rightarrow> bool" where
  "solid_start s \<longleftrightarrow> (\<exists>n r. solid_char n \<and> s = char_utf8 n @ r)"

definition solid_end :: "string \<Rightarrow> bool" where
  "solid_end s \<longleftrightarrow> (\<exists>n r. solid_char n \<and> s = r @ char_utf8 n)"

lemma solid_start_append: "solid_start a \<Longrightarrow> solid_start (a @ b)"
  by (force simp: solid_start_def)

lemma solid_end_append: "solid_end b \<Longrightarrow> solid_end (a @ b)"
  by (force simp: solid_end_def)

lemma solid_end_Cons: "solid_end b \<Longrightarrow> solid_end (c # b)"
  using solid_end_append [of b "[c]"] by simp

lemma solid_encoding: "solid_char n \<Longrightarrow> solid_start (char_utf8 n) \<and> solid_end (char_utf8 n)"
  by (auto simp: solid_start_def solid_end_def)

lemma solid_ascii:
  assumes "32 < (of_char c :: nat)" "of_char c < (128 :: nat)"
  shows "solid_char (of_char c)" "char_utf8 (of_char c) = [c]"
  using assms by (auto simp: solid_char_def is_scalar_def char_whitespace_def char_utf8_def)

lemma solid_start_ascii: "32 < (of_char c :: nat) \<Longrightarrow> of_char c < (128 :: nat) \<Longrightarrow> solid_start (c # s)"
  using solid_ascii [of c] by (auto simp: solid_start_def intro!: exI [of _ "of_char c"])

lemma solid_end_ascii: "32 < (of_char c :: nat) \<Longrightarrow> of_char c < (128 :: nat) \<Longrightarrow> solid_end (s @ [c])"
  using solid_ascii [of c] by (auto simp: solid_end_def intro!: exI [of _ "of_char c"])

lemma trim_start_one: "of_char a < (0x80::nat) \<Longrightarrow> \<not> ws1 a \<Longrightarrow> trim_start (a # r) = a # r"
  by (cases r; cases "tl r") (auto dest: ws2_lead ws3_lead)

lemma trim_end_one: "of_char a < (0x80::nat) \<Longrightarrow> \<not> ws1 a \<Longrightarrow> trim_end_rev (a # r) = a # r"
  by (cases r; cases "tl r") (auto dest!: ws2_lead ws3_lead)

lemma trim_start_solid:
  assumes "solid_start s" shows "trim_start s = s"
proof -
  obtain n r where n: "is_scalar n" "\<not> char_whitespace n" and s: "s = char_utf8 n @ r"
    using assms by (auto simp: solid_start_def solid_char_def)
  from n(1) show ?thesis
  proof (cases rule: char_utf8_cases)
    case one
    then show ?thesis using n(2) ws1_byte [of n] s by (simp add: trim_start_one)
  next
    case two
    then have "n div 64 < 32" by auto
    then show ?thesis using two n(2) ws2_bytes [of n] s
      by (cases r) (auto simp: ws1_high dest: ws3_lead)
  next
    case three
    then have "n div 4096 < 16" by auto
    then show ?thesis using three n(2) ws3_bytes [of n] s
      by (auto simp: ws1_high dest: ws2_lead)
  next
    case four
    then have "n div 262144 < 5" by auto
    then show ?thesis using four s by (auto simp: ws1_high ws3_def dest: ws2_lead)
  qed
qed

lemma trim_end_solid:
  assumes "solid_end s" shows "trim_end_rev (rev s) = rev s"
proof -
  obtain n r where n: "is_scalar n" "\<not> char_whitespace n" and s: "rev s = rev (char_utf8 n) @ r"
    using assms by (auto simp: solid_end_def solid_char_def)
  from n(1) show ?thesis
  proof (cases rule: char_utf8_cases)
    case one
    then show ?thesis using n(2) ws1_byte [of n] s by (simp add: trim_end_one)
  next
    case two
    then have "n div 64 < 32" by auto
    then show ?thesis using two n(2) ws2_bytes [of n] s
      by (cases r) (auto simp: ws1_high dest: ws3_lead)
  next
    case three
    then have "n div 4096 < 16" by auto
    then show ?thesis using three n(2) ws3_bytes [of n] s
      by (auto simp: ws1_high dest: ws2_lead)
  next
    case four
    then have "n div 262144 < 5" by auto
    then show ?thesis using four s by (auto simp: ws1_high dest: ws2_lead ws3_lead)
  qed
qed

lemma trim_solid: "solid_start s \<Longrightarrow> solid_end s \<Longrightarrow> trim s = s"
  by (simp add: trim_def trim_start_solid trim_end_solid)

text \<open>Nothing is left to trim at the start of a trimmed text.\<close>

fun clean_start :: "string \<Rightarrow> bool" where
  "clean_start [] = True"
| "clean_start [a] = (\<not> ws1 a)"
| "clean_start [a, b] = (\<not> ws1 a \<and> \<not> ws2 a b)"
| "clean_start (a # b # c # s) = (\<not> ws1 a \<and> \<not> ws2 a b \<and> \<not> ws3 a b c)"

lemma clean_trim_start: "clean_start (trim_start s)"
  by (induction s rule: trim_start.induct) auto

lemma trim_end_suffix: "\<exists>p. s = p @ trim_end_rev s"
proof (induction s rule: trim_end_rev.induct)
  case (4 a b c s)
  then obtain p1 p2 p3 where
    "ws1 a \<Longrightarrow> b # c # s = p1 @ trim_end_rev (b # c # s)"
    "\<not> ws1 a \<Longrightarrow> ws2 b a \<Longrightarrow> c # s = p2 @ trim_end_rev (c # s)"
    "\<not> ws1 a \<Longrightarrow> \<not> ws2 b a \<Longrightarrow> ws3 c b a \<Longrightarrow> s = p3 @ trim_end_rev s"
    by metis
  then show ?case
    by (auto intro: exI [of _ "a # p1"] exI [of _ "a # b # p2"] exI [of _ "a # b # c # p3"])
qed (auto intro: exI [of _ "[]"])

lemma trim_prefix: "\<exists>q. trim_start s = trim s @ q"
proof -
  obtain p where "rev (trim_start s) = p @ trim_end_rev (rev (trim_start s))"
    using trim_end_suffix by blast
  then have "trim_start s = trim s @ rev p" by (metis rev_append rev_rev_ident trim_def)
  then show ?thesis ..
qed

lemma trimmed_not_whitespace:
  assumes "trim s = char_utf8 n" "is_scalar n" shows "\<not> char_whitespace n"
proof -
  obtain q where "clean_start (char_utf8 n @ q)"
    using trim_prefix [of s] clean_trim_start [of s] assms(1) by auto
  with assms(2) show ?thesis
    by (cases rule: char_utf8_cases)
      (cases q; cases "tl q"; auto simp: ws1_byte ws2_bytes ws3_bytes not_whitespace_high)+
qed

section \<open>The separator\<close>

lemma split_char_nonempty [simp]: "split_char sep s \<noteq> []"
  by (induction s) (auto split: list.splits)

lemma split_char_single: "sep \<notin> set s \<Longrightarrow> split_char sep s = [s]"
  by (induction s) auto

lemma split_char_append: "sep \<notin> set a \<Longrightarrow> split_char sep (a @ sep # b) = a # split_char sep b"
  by (induction a) auto

lemma split_char_pieces: "p \<in> set (split_char sep s) \<Longrightarrow> sep \<notin> set p"
  by (induction s arbitrary: p) (auto split: if_splits list.splits)

lemma set_trim_start: "set (trim_start s) \<subseteq> set s"
  using trim_start_suffix [of s] by (metis Un_iff set_append subsetI)

lemma set_trim: "set (trim s) \<subseteq> set s"
proof -
  obtain q where "trim_start s = trim s @ q" using trim_prefix by blast
  then have "set (trim s) \<subseteq> set (trim_start s)" by auto
  with set_trim_start show ?thesis by blast
qed

lemma plus_in_encoding:
  assumes "is_scalar n" shows "CHR ''+'' \<in> set (char_utf8 n) \<longleftrightarrow> n = 43"
proof -
  have b: "CHR ''+'' = byte k \<longleftrightarrow> k = 43" if "k < 256" for k
  proof -
    have "of_char (CHR ''+'') = (of_char (byte k) :: nat) \<longleftrightarrow> k = 43" using that by simp
    then show ?thesis by (metis of_char_eq_iff)
  qed
  from assms show ?thesis
  proof (cases rule: char_utf8_cases)
    case one
    then show ?thesis by (auto simp: b)
  next
    case two
    then have "n div 64 < 32" by auto
    with two show ?thesis by (auto simp: b)
  next
    case three
    then have "n div 4096 < 16" by auto
    with three show ?thesis by (auto simp: b)
  next
    case four
    then have "n div 262144 < 5" by auto
    with four show ?thesis by (auto simp: b)
  qed
qed

section \<open>Which chords can be written\<close>

text \<open>The chords the grammar has a text for: a set of the three modifiers, a function key the
  parser accepts, a printable character; and a plus sign only alone.\<close>

definition chord_expressible :: "chord \<Rightarrow> bool" where
  "chord_expressible c \<longleftrightarrow>
     ch_mods c AND 7 = ch_mods c
   \<and> (case ch_key c of
        CK_F n \<Rightarrow> 1 \<le> n \<and> n \<le> 12
      | CK_Char n \<Rightarrow> is_scalar n \<and> (n = 32 \<or> \<not> char_whitespace n) \<and> (n = 43 \<longrightarrow> ch_mods c = 0)
      | _ \<Rightarrow> True)"

lemma km_union_range:
  "a AND 7 = a \<Longrightarrow> b AND 7 = b \<Longrightarrow> km_union a b AND 7 = km_union a b"
  by (simp add: km_union_def bit.conj_disj_distrib2)

lemma parse_modifier_range: "parse_modifier t = Inr m \<Longrightarrow> m AND 7 = m"
  by (auto simp: parse_modifier_def Let_def KM_CTRL_def KM_SHIFT_def KM_ALT_def split: if_splits)

lemma parse_modifiers_range:
  "parse_modifiers ts mods = Inr m \<Longrightarrow> mods AND 7 = mods \<Longrightarrow> m AND 7 = m"
  by (induction ts mods rule: parse_modifiers.induct)
    (auto split: sum.splits simp: km_union_range parse_modifier_range)

lemma named_key_expressible:
  "List.find (\<lambda>(name, _). name = lower) NAMED_KEYS = Some (w, k) \<Longrightarrow>
    (\<forall>n. k \<noteq> CK_F n) \<and> (\<forall>n. k = CK_Char n \<longrightarrow> n = 32)"
  by (drule find_in_set) (auto simp: NAMED_KEYS_def)

lemma parse_key_expressible:
  assumes "parse_key t = Inr k" "CHR ''+'' \<notin> set t" "m AND 7 = m"
  shows "chord_expressible \<lparr>ch_mods = m, ch_key = k\<rparr>"
proof (cases "single_char (trim t)")
  case (Some n)
  then have n: "is_scalar n" "trim t = char_utf8 n" by (auto simp: single_char_iff)
  moreover have "\<not> char_whitespace n" using trimmed_not_whitespace [OF n(2,1)] .
  moreover have "n \<noteq> 43" using assms(2) set_trim [of t] plus_in_encoding [OF n(1)] n(2) by auto
  moreover have "k = CK_Char n"
    using assms(1) Some by (auto simp: parse_key_def Let_def split: if_splits)
  ultimately show ?thesis using assms(3) by (simp add: chord_expressible_def)
next
  case None
  then consider (named) w where
      "List.find (\<lambda>(name, _). name = to_ascii_lowercase (trim t)) NAMED_KEYS = Some (w, k)"
    | (fkey) n where "k = CK_F n" "1 \<le> n" "n \<le> 12"
    using assms(1) by (auto simp: parse_key_def Let_def split: if_splits option.splits)
  then show ?thesis
  proof cases
    case named
    then show ?thesis using named_key_expressible [OF named] assms(3)
      by (cases k) (auto simp: chord_expressible_def is_scalar_def)
  qed (simp add: chord_expressible_def assms(3))
qed

lemma chord_parse_expressible:
  assumes "chord_parse s = Inr c" shows "chord_expressible c"
proof (cases "single_char (trim s)")
  case (Some n)
  then have n: "is_scalar n" "trim s = char_utf8 n" by (auto simp: single_char_iff)
  with trimmed_not_whitespace [OF n(2,1)] Some assms show ?thesis
    by (auto simp: chord_parse_def Let_def chord_expressible_def KM_NONE_def split: if_splits)
next
  case None
  let ?ts = "split_char CHR ''+'' (trim s)"
  obtain m k where p: "parse_modifiers (butlast ?ts) KM_NONE = Inr m" "parse_key (last ?ts) = Inr k"
    and c: "c = \<lparr>ch_mods = m, ch_key = k\<rparr>"
    using None assms by (auto simp: chord_parse_def Let_def split: if_splits sum.splits)
  have "m AND 7 = m" using parse_modifiers_range [OF p(1)] by (simp add: KM_NONE_def)
  moreover have "CHR ''+'' \<notin> set (last ?ts)" by (rule split_char_pieces) (rule last_in_set, simp)
  ultimately show ?thesis using parse_key_expressible [OF p(2)] c by simp
qed

section \<open>Reading back what was rendered\<close>

definition mods_tokens :: "key_mods \<Rightarrow> string list" where
  "mods_tokens m = (if km_contains m KM_CTRL then [''Ctrl''] else [])
     @ (if km_contains m KM_SHIFT then [''Shift''] else [])
     @ (if km_contains m KM_ALT then [''Alt''] else [])"

lemma mods_cases:
  assumes "(m :: key_mods) AND 7 = m"
  shows "m \<in> {0, 1, 2, 3, 4, 5, 6, 7}"
proof -
  have "m \<le> 7" using word_and_le1 [of m 7] assms by simp
  then have "unat m \<le> 7" by (simp add: word_le_nat_alt)
  then have "unat m \<in> {0, 1, 2, 3, 4, 5, 6, 7}" by auto
  then have "(of_nat (unat m) :: key_mods) \<in> of_nat ` {0, 1, 2, 3, 4, 5, 6, 7}" by (rule imageI)
  then show ?thesis by simp
qed

lemma parse_modifier_names:
  "parse_modifier ''Ctrl'' = Inr KM_CTRL" "parse_modifier ''Shift'' = Inr KM_SHIFT"
  "parse_modifier ''Alt'' = Inr KM_ALT"
  by code_simp+

lemma mods_tokens_parse:
  assumes "m AND 7 = m" shows "parse_modifiers (mods_tokens m) KM_NONE = Inr m"
  using mods_cases [OF assms]
  by (elim insertE emptyE) (simp_all add: mods_tokens_def km_contains_def parse_modifier_names
      KM_CTRL_def KM_SHIFT_def KM_ALT_def KM_NONE_def km_union_def)

lemma split_display:
  assumes "CHR ''+'' \<notin> set (key_display (ch_key c))"
  shows "split_char CHR ''+'' (chord_display c) = mods_tokens (ch_mods c) @ [key_display (ch_key c)]"
  using split_char_append [of "CHR ''+''" "''Ctrl''"] split_char_append [of "CHR ''+''" "''Shift''"]
    split_char_append [of "CHR ''+''" "''Alt''"] split_char_single [OF assms]
  by (simp add: chord_display_def mods_tokens_def)

lemma last_dec: "\<exists>d q. dec n = q @ [digit d] \<and> d < 10"
  by (cases "n < 10") (auto simp: dec.simps [of n])

lemma solid_dec: "solid_end (dec n)"
proof -
  obtain d q where "dec n = q @ [digit d]" "d < 10" using last_dec by blast
  then show ?thesis using solid_end_ascii [of "digit d" q] by simp
qed

lemma solid_words:
  "solid_end ''Backspace''" "solid_end ''Enter''" "solid_end ''Esc''" "solid_end ''Left''"
  "solid_end ''Right''" "solid_end ''Up''" "solid_end ''Down''" "solid_end ''Home''"
  "solid_end ''End''" "solid_end ''PageUp''" "solid_end ''PageDown''" "solid_end ''Tab''"
  "solid_end ''BackTab''" "solid_end ''Delete''" "solid_end ''Insert''" "solid_end ''Space''"
  using solid_end_ascii [of "CHR ''e''" "[]"] solid_end_ascii [of "CHR ''r''" "[]"]
    solid_end_ascii [of "CHR ''c''" "[]"] solid_end_ascii [of "CHR ''t''" "[]"]
    solid_end_ascii [of "CHR ''p''" "[]"] solid_end_ascii [of "CHR ''n''" "[]"]
    solid_end_ascii [of "CHR ''d''" "[]"] solid_end_ascii [of "CHR ''b''" "[]"]
  by (simp_all add: solid_end_Cons)

lemma key_display_solid:
  assumes "chord_expressible c"
  shows "solid_start (key_display (ch_key c))" "solid_end (key_display (ch_key c))"
proof -
  have "solid_start (key_display (ch_key c)) \<and> solid_end (key_display (ch_key c))"
    using assms solid_encoding
    by (cases "ch_key c") (auto simp: key_display_def chord_expressible_def solid_char_def solid_words
        intro!: solid_start_ascii solid_end_Cons [OF solid_dec])
  then show "solid_start (key_display (ch_key c))" "solid_end (key_display (ch_key c))" by auto
qed

lemma display_solid:
  assumes "chord_expressible c"
  shows "solid_start (chord_display c)" "solid_end (chord_display c)"
  using key_display_solid [OF assms] by (auto simp: chord_display_def
      intro!: solid_start_ascii solid_end_append solid_end_Cons)

text \<open>A word of two characters or more is not a character key.\<close>

lemma single_char_word: "of_char a < (128::nat) \<Longrightarrow> single_char (a # b # s) = None"
proof (rule ccontr)
  assume a: "of_char a < (128::nat)" and "single_char (a # b # s) \<noteq> None"
  then obtain n where n: "is_scalar n" "a # b # s = char_utf8 n" by (auto simp: single_char_iff)
  then have h: "(of_char a :: nat) = of_char (hd (char_utf8 n))" by (metis list.sel(1))
  from n(1) show False
  proof (cases rule: char_utf8_cases)
    case two
    then have "n div 64 < 32" by auto
    with two h a show False by simp
  next
    case three
    then have "n div 4096 < 16" by auto
    with three h a show False by simp
  next
    case four
    then have "n div 262144 < 5" by auto
    with four h a show False by simp
  qed (use n(2) in simp)
qed

lemma parse_key_word:
  assumes "32 < (of_char a :: nat)" "of_char a < (128 :: nat)" "solid_end (a # b # s)"
  shows "parse_key (a # b # s) =
    (let lower = to_ascii_lowercase (a # b # s) in
     case List.find (\<lambda>(name, _). name = lower) NAMED_KEYS of
       Some (_, k) \<Rightarrow> Inr k
     | None \<Rightarrow>
         (case opt_filter (\<lambda>n. 1 \<le> n \<and> n \<le> 12)
                 (Option.bind (strip_prefix ''f'' lower) parse_u8) of
            Some n \<Rightarrow> Inr (CK_F n)
          | None \<Rightarrow> Inl (Unknown_Key (a # b # s))))"
  using assms by (simp add: parse_key_def trim_solid solid_start_ascii single_char_word Let_def)

lemma lower_words:
  "to_ascii_lowercase ''Backspace'' = ''backspace''" "to_ascii_lowercase ''Enter'' = ''enter''"
  "to_ascii_lowercase ''Esc'' = ''esc''" "to_ascii_lowercase ''Left'' = ''left''"
  "to_ascii_lowercase ''Right'' = ''right''" "to_ascii_lowercase ''Up'' = ''up''"
  "to_ascii_lowercase ''Down'' = ''down''" "to_ascii_lowercase ''Home'' = ''home''"
  "to_ascii_lowercase ''End'' = ''end''" "to_ascii_lowercase ''PageUp'' = ''pageup''"
  "to_ascii_lowercase ''PageDown'' = ''pagedown''" "to_ascii_lowercase ''Tab'' = ''tab''"
  "to_ascii_lowercase ''BackTab'' = ''backtab''" "to_ascii_lowercase ''Delete'' = ''delete''"
  "to_ascii_lowercase ''Insert'' = ''insert''" "to_ascii_lowercase ''Space'' = ''space''"
  by code_simp+

lemma parse_named_keys:
  "parse_key ''Backspace'' = Inr CK_Backspace" "parse_key ''Enter'' = Inr CK_Enter"
  "parse_key ''Esc'' = Inr CK_Esc" "parse_key ''Left'' = Inr CK_Left"
  "parse_key ''Right'' = Inr CK_Right" "parse_key ''Up'' = Inr CK_Up"
  "parse_key ''Down'' = Inr CK_Down" "parse_key ''Home'' = Inr CK_Home"
  "parse_key ''End'' = Inr CK_End" "parse_key ''PageUp'' = Inr CK_PageUp"
  "parse_key ''PageDown'' = Inr CK_PageDown" "parse_key ''Tab'' = Inr CK_Tab"
  "parse_key ''BackTab'' = Inr CK_BackTab" "parse_key ''Delete'' = Inr CK_Delete"
  "parse_key ''Insert'' = Inr CK_Insert" "parse_key ''Space'' = Inr (CK_Char 32)"
  by (simp_all add: parse_key_word solid_words lower_words NAMED_KEYS_def)

text \<open>The name of a function key is a word; its number is read by \<open>parse_u8\<close>.\<close>

definition function_key_text :: "nat \<Rightarrow> string" where
  "function_key_text n = CHR ''F'' # dec n"

lemma function_key_lower:
  "list_all (\<lambda>n. (let w = to_ascii_lowercase (function_key_text n) in
      List.find (\<lambda>(name, _). name = w) NAMED_KEYS = None
    \<and> Option.bind (strip_prefix ''f'' w) parse_u8 = Some (of_nat n))) [1..<13]"
  by code_simp

lemma parse_function_key:
  assumes "1 \<le> n" "n \<le> 12"
  shows "parse_key (CHR ''F'' # dec n) = Inr (CK_F (of_nat n))"
proof -
  obtain b s where d: "dec n = b # s" by (cases "dec n") auto
  have "n \<in> set [1..<13]" using assms by simp
  then have f: "List.find (\<lambda>(name, _). name = to_ascii_lowercase (CHR ''F'' # b # s)) NAMED_KEYS = None"
    "Option.bind (strip_prefix ''f'' (to_ascii_lowercase (CHR ''F'' # b # s))) parse_u8 = Some (of_nat n)"
    using function_key_lower unfolding list_all_iff function_key_text_def Let_def
    by (metis d)+
  have "1 \<le> (of_nat n :: 8 word) \<and> of_nat n \<le> (12 :: 8 word)"
    using assms by (auto simp: word_le_nat_alt unat_of_nat)
  with f show ?thesis
    using solid_end_Cons [OF solid_dec [of n], of "CHR ''F''"]
    by (simp add: d parse_key_word Let_def del: strip_prefix_Some)
qed

lemma key_display_parse:
  assumes "chord_expressible c" shows "parse_key (key_display (ch_key c)) = Inr (ch_key c)"
proof (cases "ch_key c")
  case (CK_F n)
  with assms have "1 \<le> unat n" "unat n \<le> 12"
    by (auto simp: chord_expressible_def word_le_nat_alt)
  from parse_function_key [OF this] CK_F show ?thesis by (simp add: key_display_def)
next
  case (CK_Char n)
  show ?thesis
  proof (cases "n = 32")
    case False
    with CK_Char assms have "is_scalar n" by (auto simp: chord_expressible_def)
    moreover have "trim (char_utf8 n) = char_utf8 n"
      using key_display_solid [OF assms] CK_Char False by (simp add: key_display_def trim_solid)
    moreover have "char_utf8 n \<noteq> []" by (simp add: char_utf8_def)
    ultimately show ?thesis using CK_Char False single_char_iff [of "char_utf8 n" n]
      by (simp add: key_display_def parse_key_def)
  qed (use CK_Char in \<open>simp add: key_display_def parse_named_keys\<close>)
qed (simp_all add: key_display_def parse_named_keys)

lemma display_word:
  assumes "ch_mods c AND 7 = ch_mods c" "ch_mods c \<noteq> 0"
  shows "\<exists>a b s. chord_display c = a # b # s \<and> of_char a < (128::nat)"
  using mods_cases [OF assms(1)] assms(2)
  by (elim insertE emptyE)
    (simp_all add: chord_display_def km_contains_def KM_CTRL_def KM_SHIFT_def KM_ALT_def)

lemma display_char: "\<forall>n. k \<noteq> CK_Char n \<Longrightarrow> \<exists>a b s. key_display k = a # b # s \<and> of_char a < (128::nat)"
  by (cases k) (auto simp: key_display_def neq_Nil_conv [symmetric])

lemma display_parse:
  assumes "chord_expressible c" shows "chord_parse (chord_display c) = Inr c"
proof (cases "\<exists>n. ch_key c = CK_Char n \<and> n \<noteq> 32 \<and> ch_mods c = 0")
  case True
  then obtain n where n: "ch_key c = CK_Char n" "n \<noteq> 32" "ch_mods c = 0" by blast
  then have "is_scalar n" "chord_display c = char_utf8 n" using assms
    by (auto simp: chord_expressible_def chord_display_def key_display_def km_contains_def
        KM_CTRL_def KM_SHIFT_def KM_ALT_def)
  moreover from this have "trim (char_utf8 n) = char_utf8 n"
    using display_solid [OF assms] by (simp add: trim_solid)
  moreover have "char_utf8 n \<noteq> []" by (simp add: char_utf8_def)
  ultimately show ?thesis using n single_char_iff [of "char_utf8 n" n]
    by (simp add: chord_parse_def KM_NONE_def)
next
  case False
  have m: "ch_mods c AND 7 = ch_mods c" using assms by (simp add: chord_expressible_def)
  have "\<exists>a b s. chord_display c = a # b # s \<and> of_char a < (128::nat)"
  proof (cases "ch_mods c = 0")
    case True
    then have d: "chord_display c = key_display (ch_key c)"
      by (simp add: chord_display_def km_contains_def KM_CTRL_def KM_SHIFT_def KM_ALT_def)
    show ?thesis
    proof (cases "\<exists>n. ch_key c = CK_Char n")
      case True
      then show ?thesis using False \<open>ch_mods c = 0\<close> d by (auto simp: key_display_def)
    qed (use d display_char [of "ch_key c"] in auto)
  qed (rule display_word [OF m])
  then have w: "single_char (chord_display c) = None" "chord_display c \<noteq> []"
    using single_char_word by auto
  have "CHR ''+'' \<notin> set (key_display (ch_key c))"
  proof (cases "ch_key c")
    case (CK_Char n)
    then show ?thesis using assms False plus_in_encoding [of n]
      by (auto simp: key_display_def chord_expressible_def)
  qed (auto simp: key_display_def dest: dec_digits)
  with w show ?thesis
    using mods_tokens_parse [OF m] key_display_parse [OF assms] display_solid [OF assms]
    by (simp add: chord_parse_def split_display trim_solid)
qed

text \<open>
  C29. The canonical text of a chord is read back as the chord exactly when the grammar has a
  text for it at all, and that is the case exactly for the chords \<open>chord_expressible\<close> lists:
  whatever a user can write, the settings and the help screen can print and read again.
\<close>

theorem chord_round_trip:
  "(chord_parse (chord_display c) = Inr c \<longleftrightarrow> chord_expressible c)
   \<and> (chord_expressible c \<longleftrightarrow> (\<exists>s. chord_parse s = Inr c))"
  using display_parse chord_parse_expressible by blast

text \<open>The plus sign is a chord of its own but takes no modifier.\<close>

lemma plus_takes_no_modifier:
  "chord_parse ''+'' = Inr \<lparr>ch_mods = 0, ch_key = CK_Char 43\<rparr>"
  "chord_parse ''Ctrl++'' = Inl Empty_Token"
proof -
  let ?plus = "\<lparr>ch_mods = 0, ch_key = CK_Char 43\<rparr>"
  have "chord_expressible ?plus"
    by (simp add: chord_expressible_def is_scalar_def char_whitespace_def)
  moreover have "byte 43 = CHR ''+''" by code_simp
  then have "chord_display ?plus = ''+''"
    by (simp add: chord_display_def key_display_def km_contains_def KM_CTRL_def KM_SHIFT_def
        KM_ALT_def char_utf8_def)
  ultimately show "chord_parse ''+'' = Inr ?plus" using display_parse by metis
  have "trim ''Ctrl++'' = ''Ctrl++''" by code_simp
  then show "chord_parse ''Ctrl++'' = Inl Empty_Token"
    by (simp add: chord_parse_def single_char_word parse_modifier_names) (simp add: parse_modifier_def trim_def)
qed

end
