(* ===== verification/Keybinds.thy ===== *)
theory Keybinds
  imports Chord
begin

text \<open>
  The registry of configurable keyboard actions (\<^verbatim>\<open>mbv-keybinds/registry.rs\<close>), the compiled
  configuration and its loader (\<^verbatim>\<open>mbv-keybinds/config.rs\<close>), and the part of the configuration
  file that holds it: the shape check of \<^verbatim>\<open>mbv-config/parse.rs\<close> and the writer of
  \<^verbatim>\<open>mbv-config/save.rs\<close>. A chord literal of the program that would not parse is a panic, so
  everything that reads one returns an option; \<open>Keybind_Laws\<close> shows that it never is \<open>None\<close>.
\<close>

section \<open>The registry\<close>

datatype key_gate =
    Gate_NoBlockingOverlay | Gate_NoBlockingOverlayAndHelpClosed | Gate_PanelFocusQueue
  | Gate_PanelFocusLibraryBoth | Gate_QueueColumnWidth | Gate_ClearQueuePrompt
  | Gate_SessionsSidebarOpen | Gate_Playback

datatype key_section =
    Section_Services | Section_Playback | Section_Display | Section_Session | Section_Library
  | Section_Queue | Section_Mpv | Section_Feeds | Section_Actions | Section_Global

definition KEY_SECTIONS :: "key_section list" where
  "KEY_SECTIONS =
     [Section_Services, Section_Playback, Section_Display, Section_Session, Section_Library,
      Section_Queue, Section_Mpv, Section_Feeds, Section_Actions, Section_Global]"

fun section_name :: "key_section \<Rightarrow> string" where
  "section_name Section_Services = ''Services''"
| "section_name Section_Playback = ''Playback''"
| "section_name Section_Display = ''Display''"
| "section_name Section_Session = ''Session''"
| "section_name Section_Library = ''Library''"
| "section_name Section_Queue = ''Queue''"
| "section_name Section_Mpv = ''Mpv''"
| "section_name Section_Feeds = ''Feeds''"
| "section_name Section_Actions = ''Actions''"
| "section_name Section_Global = ''Global''"

definition eq_ignore_ascii_case :: "string \<Rightarrow> string \<Rightarrow> bool" where
  "eq_ignore_ascii_case a b \<longleftrightarrow> to_ascii_lowercase a = to_ascii_lowercase b"

definition section_from_name :: "string \<Rightarrow> key_section option" where
  "section_from_name name = List.find (\<lambda>s. eq_ignore_ascii_case (section_name s) name) KEY_SECTIONS"

record keybind_action =
  ka_name :: string
  ka_section :: key_section
  ka_default_chords :: "string list"
  ka_gate :: key_gate
  ka_policy :: string
  ka_rebindable :: bool
  ka_prefix_addressable :: bool

definition declare_action ::
  "string \<Rightarrow> key_section \<Rightarrow> string list \<Rightarrow> key_gate \<Rightarrow> string \<Rightarrow> bool \<Rightarrow> bool \<Rightarrow> keybind_action" where
  "declare_action name sec chords gate policy rebindable addressable =
     \<lparr>ka_name = name, ka_section = sec, ka_default_chords = chords, ka_gate = gate,
      ka_policy = policy, ka_rebindable = rebindable, ka_prefix_addressable = addressable\<rparr>"

definition ok_opt :: "'e + 'a \<Rightarrow> 'a option" where
  "ok_opt r = (case r of Inr x \<Rightarrow> Some x | Inl _ \<Rightarrow> None)"

text \<open>\<^verbatim>\<open>iter().map(|s| Chord::parse(s).expect(..)).collect()\<close>.\<close>

fun parse_all :: "string list \<Rightarrow> chord list option" where
  "parse_all [] = Some []"
| "parse_all (s # ss) =
     (case (ok_opt (chord_parse s), parse_all ss) of
        (Some c, Some cs) \<Rightarrow> Some (c # cs)
      | _ \<Rightarrow> None)"

definition parsed_default_chords :: "keybind_action \<Rightarrow> chord list option" where
  "parsed_default_chords a = parse_all (ka_default_chords a)"

definition RESERVED_CHORDS :: "string list" where
  "RESERVED_CHORDS = [''Ctrl+q'']"

definition KEYBIND_ACTIONS :: "keybind_action list" where
  "KEYBIND_ACTIONS =
    [declare_action ''help_open'' Section_Global [''F1''] Gate_NoBlockingOverlayAndHelpClosed ''help_open'' True True,
     declare_action ''settings_open'' Section_Global [''F2''] Gate_NoBlockingOverlay ''settings_open'' True True,
     declare_action ''twitch_url_open'' Section_Global [''Shift+T''] Gate_NoBlockingOverlay ''twitch_url_open'' True True,
     declare_action ''quit'' Section_Session [''q''] Gate_NoBlockingOverlay ''quit'' True True,
     declare_action ''sessions_open'' Section_Session [''F3''] Gate_NoBlockingOverlay ''sessions_open'' True True,
     declare_action ''search_open'' Section_Library [''Ctrl+/'', ''Ctrl+_''] Gate_NoBlockingOverlay ''search_open'' True True,
     declare_action ''next_library_tab'' Section_Library [''Tab''] Gate_NoBlockingOverlay ''next_library_tab'' True True,
     declare_action ''previous_library_tab'' Section_Library [''BackTab''] Gate_NoBlockingOverlay ''previous_library_tab'' True True,
     declare_action ''library_tab_jump'' Section_Library [''1'', ''2'', ''3'', ''4'', ''5'', ''6'', ''7'', ''8'', ''9''] Gate_NoBlockingOverlay ''library_tab_jump'' True False,
     declare_action ''f5_refresh'' Section_Library [''F5''] Gate_NoBlockingOverlay ''f5_refresh'' True True,
     declare_action ''alt_next_library_tab'' Section_Library [''Alt+Down''] Gate_NoBlockingOverlay ''alt_next_library_tab'' True True,
     declare_action ''alt_previous_library_tab'' Section_Library [''Alt+Up''] Gate_NoBlockingOverlay ''alt_previous_library_tab'' True True,
     declare_action ''playlists_open'' Section_Queue [''F4''] Gate_NoBlockingOverlay ''playlists_open'' True True,
     declare_action ''clear_queue_prompt_c'' Section_Queue [''c''] Gate_ClearQueuePrompt ''clear_queue_prompt_c'' True True,
     declare_action ''visualizer'' Section_Playback [''v''] Gate_NoBlockingOverlay ''visualizer'' True True,
     declare_action ''hide_visual_slot'' Section_Playback [''h''] Gate_NoBlockingOverlay ''hide_visual_slot'' True True,
     declare_action ''toggle_play_pause'' Section_Playback [''Space''] Gate_Playback ''playback'' True True,
     declare_action ''stop'' Section_Playback [''Shift+S''] Gate_Playback ''playback'' True False,
     declare_action ''seek_back'' Section_Playback [''<''] Gate_Playback ''playback'' True True,
     declare_action ''seek_forward'' Section_Playback [''>''] Gate_Playback ''playback'' True True,
     declare_action ''next_track'' Section_Playback [''Shift+N''] Gate_Playback ''playback'' True True,
     declare_action ''previous_track'' Section_Playback [''Shift+P''] Gate_Playback ''playback'' True True,
     declare_action ''volume_down'' Section_Playback [''-''] Gate_Playback ''playback'' True True,
     declare_action ''volume_up'' Section_Playback [''+'', ''=''] Gate_Playback ''playback'' True True,
     declare_action ''toggle_mute'' Section_Playback [''m''] Gate_Playback ''playback'' True True,
     declare_action ''cycle_audio'' Section_Playback [''#''] Gate_Playback ''playback'' True True,
     declare_action ''cycle_subtitle'' Section_Playback [''z''] Gate_Playback ''playback'' True True,
     declare_action ''open_idle_feed_link'' Section_Playback [''o''] Gate_Playback ''playback'' True True,
     declare_action ''panel_mode_cycle_x'' Section_Display [''x''] Gate_NoBlockingOverlay ''panel_mode_cycle_x'' True True,
     declare_action ''panel_right'' Section_Display [''Ctrl+Right''] Gate_PanelFocusQueue ''panel_right'' True True,
     declare_action ''panel_left'' Section_Display [''Ctrl+Left''] Gate_PanelFocusLibraryBoth ''panel_left'' True True,
     declare_action ''ctrl_l_force_clear'' Section_Display [''Ctrl+l''] Gate_NoBlockingOverlay ''ctrl_l_force_clear'' True True]"

definition action_by_id :: "string \<Rightarrow> keybind_action option" where
  "action_by_id name = List.find (\<lambda>a. ka_name a = name) KEYBIND_ACTIONS"

section \<open>The compiled configuration\<close>

record section_bindings =
  sb_router :: "(string \<times> chord) list"
  sb_prefix :: "(string \<times> chord) list"

record keybinds =
  kb_prefix :: "chord option"
  kb_sections :: "(key_section \<times> section_bindings) list"

definition keybinds_defaults :: keybinds where
  "keybinds_defaults = \<lparr>kb_prefix = None, kb_sections = []\<rparr>"

definition all_router :: "keybinds \<Rightarrow> (string \<times> chord) list" where
  "all_router kb = concat (map (\<lambda>(sec, b). sb_router b) (kb_sections kb))"

definition all_prefix :: "keybinds \<Rightarrow> (string \<times> chord) list" where
  "all_prefix kb = concat (map (\<lambda>(sec, b). sb_prefix b) (kb_sections kb))"

definition router_override :: "keybinds \<Rightarrow> string \<Rightarrow> chord option" where
  "router_override kb name = map_option snd (List.find (\<lambda>(a, c). a = name) (all_router kb))"

definition prefix_assignment :: "keybinds \<Rightarrow> string \<Rightarrow> chord option" where
  "prefix_assignment kb name = map_option snd (List.find (\<lambda>(a, c). a = name) (all_prefix kb))"

definition router_chords :: "keybinds \<Rightarrow> keybind_action \<Rightarrow> chord list option" where
  "router_chords kb a =
     (case router_override kb (ka_name a) of
        Some c \<Rightarrow> Some [c]
      | None \<Rightarrow> parsed_default_chords a)"

definition router_chord :: "keybinds \<Rightarrow> keybind_action \<Rightarrow> chord option" where
  "router_chord kb a =
     (case router_chords kb a of
        Some (c # cs) \<Rightarrow> Some c
      | _ \<Rightarrow> None)"

definition prefix_assignments :: "keybinds \<Rightarrow> (keybind_action \<times> chord) list" where
  "prefix_assignments kb =
     List.map_filter (\<lambda>(name, c). map_option (\<lambda>a. (a, c)) (action_by_id name)) (all_prefix kb)"

text \<open>An entry of an action counts when its chord is none of the action's defaults; each action
  counts once (\<^verbatim>\<open>sort_unstable\<close> and \<^verbatim>\<open>dedup\<close> leave every name once).\<close>

definition deviates :: "string \<times> chord \<Rightarrow> bool option" where
  "deviates = (\<lambda>(name, c).
     case action_by_id name of
       None \<Rightarrow> Some False
     | Some a \<Rightarrow> map_option (\<lambda>cs. c \<notin> set cs) (parsed_default_chords a))"

fun filter_opt :: "('a \<Rightarrow> bool option) \<Rightarrow> 'a list \<Rightarrow> 'a list option" where
  "filter_opt p [] = Some []"
| "filter_opt p (x # xs) =
     (case (p x, filter_opt p xs) of
        (Some b, Some ys) \<Rightarrow> Some (if b then x # ys else ys)
      | _ \<Rightarrow> None)"

definition override_count :: "keybinds \<Rightarrow> usize option" where
  "override_count kb =
     map_option (\<lambda>es. length (remdups (map fst es))) (filter_opt deviates (all_router kb))"

section \<open>Loading\<close>

record raw_section =
  rs_router :: "(string \<times> string) list"
  rs_prefix :: "(string \<times> string) list"

record raw_keybinds =
  rk_prefix :: "string option"
  rk_sections :: "(string \<times> raw_section) list"

datatype keybinds_error =
    Reserved_Chord string string
  | Unparseable_Chord string string string
  | Unknown_Action string string
  | Unknown_Section string
  | Duplicate_Section string string
  | Section_Mismatch string string key_section
  | Not_Prefix_Addressable string string
  | Prefix_Collision string string
  | Router_Collision string string string
  | Prefix_Namespace_Collision string string string

definition keybinds_error_name :: "keybinds_error \<Rightarrow> string" where
  "keybinds_error_name e =
     (case e of
        Reserved_Chord _ _ \<Rightarrow> ''keybinds.reserved_chord''
      | Unparseable_Chord _ _ _ \<Rightarrow> ''keybinds.unparseable_chord''
      | Unknown_Action _ _ \<Rightarrow> ''keybinds.unknown_action''
      | Unknown_Section _ \<Rightarrow> ''keybinds.unknown_section''
      | Duplicate_Section _ _ \<Rightarrow> ''keybinds.duplicate_section''
      | Section_Mismatch _ _ _ \<Rightarrow> ''keybinds.section_mismatch''
      | Not_Prefix_Addressable _ _ \<Rightarrow> ''keybinds.not_prefix_addressable''
      | Prefix_Collision _ _ \<Rightarrow> ''keybinds.prefix_collision''
      | Router_Collision _ _ _ \<Rightarrow> ''keybinds.router_collision''
      | Prefix_Namespace_Collision _ _ _ \<Rightarrow> ''keybinds.prefix_namespace_collision'')"

definition keybinds_error_text :: "keybinds_error \<Rightarrow> string" where
  "keybinds_error_text e =
     (case e of
        Reserved_Chord c entry \<Rightarrow>
          ''keys: chord `'' @ c @ ''` in `'' @ entry @ ''` is reserved and cannot be configured''
      | Unparseable_Chord c entry reason \<Rightarrow>
          ''keys: `'' @ entry @ ''` has unparseable chord `'' @ c @ ''`: '' @ reason
      | Unknown_Action a sec \<Rightarrow>
          ''keys: unknown action `'' @ a @ ''` in section `keys.'' @ sec @ ''`''
      | Unknown_Section sec \<Rightarrow> ''keys: unknown section `keys.'' @ sec @ ''`''
      | Duplicate_Section a b \<Rightarrow>
          ''keys: sections `keys.'' @ a @ ''` and `keys.'' @ b
          @ ''` name the same section under different spellings''
      | Section_Mismatch a sec declared \<Rightarrow>
          ''keys: action `'' @ a @ ''` is declared in section `'' @ section_name declared
          @ ''` but configured under `keys.'' @ sec @ ''`''
      | Not_Prefix_Addressable a sec \<Rightarrow>
          ''keys: action `'' @ a @ ''` is not prefix-addressable (`keys.'' @ sec @ ''.prefix.''
          @ a @ ''`)''
      | Prefix_Collision c entry \<Rightarrow>
          ''keys: prefix chord `'' @ c @ ''` collides with binding `'' @ entry @ ''`''
      | Router_Collision c a b \<Rightarrow>
          ''keys: actions `'' @ a @ ''` and `'' @ b @ ''` share router-scope chord `'' @ c @ ''`''
      | Prefix_Namespace_Collision c a b \<Rightarrow>
          ''keys: actions `'' @ a @ ''` and `'' @ b @ ''` share prefix-namespace chord `'' @ c
          @ ''`'')"

definition RETIRED_ACTION_IDS :: "string list" where
  "RETIRED_ACTION_IDS = [''pinned_width_toggle'']"

definition skip_retired_action :: "string \<Rightarrow> bool" where
  "skip_retired_action name \<longleftrightarrow> name \<in> set RETIRED_ACTION_IDS"

definition lookup_in_section :: "string \<Rightarrow> string \<Rightarrow> keybinds_error + keybind_action" where
  "lookup_in_section name sec =
     (case action_by_id name of
        None \<Rightarrow> Inl (Unknown_Action name sec)
      | Some a \<Rightarrow>
          if eq_ignore_ascii_case (section_name (ka_section a)) sec then Inr a
          else Inl (Section_Mismatch name sec (ka_section a)))"

definition parse_configured ::
  "string \<Rightarrow> string \<Rightarrow> chord list \<Rightarrow> keybinds_error + chord" where
  "parse_configured text entry reserved =
     (case chord_parse text of
        Inl reason \<Rightarrow> Inl (Unparseable_Chord text entry (chord_error_text reason))
      | Inr c \<Rightarrow>
          if c \<in> set reserved then Inl (Reserved_Chord text entry) else Inr c)"

definition router_entry :: "string \<Rightarrow> string \<Rightarrow> string" where
  "router_entry sec name = ''keys.'' @ sec @ ''.'' @ name"

definition prefix_entry :: "string \<Rightarrow> string \<Rightarrow> string" where
  "prefix_entry sec name = ''keys.'' @ sec @ ''.prefix.'' @ name"

type_synonym bound = "keybind_action \<times> chord"

fun load_router ::
  "string \<Rightarrow> chord list \<Rightarrow> (string \<times> string) list \<Rightarrow> keybinds_error + bound list" where
  "load_router sec reserved [] = Inr []"
| "load_router sec reserved ((name, text) # es) =
     (if skip_retired_action name then load_router sec reserved es
      else case lookup_in_section name sec of
        Inl e \<Rightarrow> Inl e
      | Inr a \<Rightarrow>
          (case parse_configured text (router_entry sec name) reserved of
             Inl e \<Rightarrow> Inl e
           | Inr c \<Rightarrow>
               (case load_router sec reserved es of
                  Inl e \<Rightarrow> Inl e
                | Inr bs \<Rightarrow> Inr ((a, c) # bs))))"

fun load_prefix ::
  "string \<Rightarrow> chord list \<Rightarrow> (string \<times> string) list \<Rightarrow> keybinds_error + bound list" where
  "load_prefix sec reserved [] = Inr []"
| "load_prefix sec reserved ((name, text) # es) =
     (if skip_retired_action name then load_prefix sec reserved es
      else case lookup_in_section name sec of
        Inl e \<Rightarrow> Inl e
      | Inr a \<Rightarrow>
          if \<not> ka_prefix_addressable a then Inl (Not_Prefix_Addressable name sec)
          else (case parse_configured text (prefix_entry sec name) reserved of
             Inl e \<Rightarrow> Inl e
           | Inr c \<Rightarrow>
               (case load_prefix sec reserved es of
                  Inl e \<Rightarrow> Inl e
                | Inr bs \<Rightarrow> Inr ((a, c) # bs))))"

record loaded_sections =
  ls_sections :: "(key_section \<times> section_bindings) list"
  ls_router :: "bound list"
  ls_prefix_namespace :: "bound list"

definition bound_names :: "bound list \<Rightarrow> (string \<times> chord) list" where
  "bound_names = map (\<lambda>(a, c). (ka_name a, c))"

definition add_section ::
  "key_section \<Rightarrow> bound list \<Rightarrow> bound list \<Rightarrow> loaded_sections \<Rightarrow> loaded_sections" where
  "add_section sec router prefix ls =
     \<lparr>ls_sections = (sec, \<lparr>sb_router = bound_names router, sb_prefix = bound_names prefix\<rparr>)
                     # ls_sections ls,
      ls_router = router @ ls_router ls,
      ls_prefix_namespace = prefix @ ls_prefix_namespace ls\<rparr>"

text \<open>The loop over the sections, with the spellings seen so far (in order); a section is put in
  front of what the rest of the loop collects.\<close>

fun load_sections ::
  "string list \<Rightarrow> chord list \<Rightarrow> (string \<times> raw_section) list \<Rightarrow> keybinds_error + loaded_sections" where
  "load_sections seen reserved [] =
     Inr \<lparr>ls_sections = [], ls_router = [], ls_prefix_namespace = []\<rparr>"
| "load_sections seen reserved ((name, raw) # rest) =
     (case List.find (\<lambda>s. eq_ignore_ascii_case s name) seen of
        Some first \<Rightarrow> Inl (Duplicate_Section first name)
      | None \<Rightarrow>
          (case section_from_name name of
             None \<Rightarrow> Inl (Unknown_Section name)
           | Some sec \<Rightarrow>
               (case load_router name reserved (rs_router raw) of
                  Inl e \<Rightarrow> Inl e
                | Inr router \<Rightarrow>
                    (case load_prefix name reserved (rs_prefix raw) of
                       Inl e \<Rightarrow> Inl e
                     | Inr prefix \<Rightarrow>
                         (case load_sections (seen @ [name]) reserved rest of
                            Inl e \<Rightarrow> Inl e
                          | Inr ls \<Rightarrow> Inr (add_section sec router prefix ls))))))"

subsection \<open>Collisions\<close>

type_synonym checked = "(keybinds_error + unit) option"

text \<open>The three loops of \<^verbatim>\<open>reject_prefix_collisions\<close> run one after the other.\<close>

definition and_then :: "checked \<Rightarrow> checked \<Rightarrow> checked" where
  "and_then a b =
     (case a of
        Some (Inr _) \<Rightarrow> b
      | _ \<Rightarrow> a)"

fun prefix_against_bound :: "chord \<Rightarrow> (string \<Rightarrow> string \<Rightarrow> string) \<Rightarrow> bound list \<Rightarrow> checked" where
  "prefix_against_bound prefix entry [] = Some (Inr ())"
| "prefix_against_bound prefix entry ((a, c) # bs) =
     (if c = prefix
      then Some (Inl (Prefix_Collision (chord_display prefix)
                        (entry (section_name (ka_section a)) (ka_name a))))
      else prefix_against_bound prefix entry bs)"

fun prefix_against_defaults :: "chord \<Rightarrow> bound list \<Rightarrow> keybind_action list \<Rightarrow> checked" where
  "prefix_against_defaults prefix router [] = Some (Inr ())"
| "prefix_against_defaults prefix router (a # as) =
     (if \<exists>(b, c)\<in>set router. ka_name b = ka_name a then prefix_against_defaults prefix router as
      else case parsed_default_chords a of
        None \<Rightarrow> None
      | Some cs \<Rightarrow>
          if prefix \<in> set cs
          then Some (Inl (Prefix_Collision (chord_display prefix)
                            (router_entry (section_name (ka_section a)) (ka_name a))))
          else prefix_against_defaults prefix router as)"

definition reject_prefix_collisions :: "keybinds \<Rightarrow> bound list \<Rightarrow> bound list \<Rightarrow> checked" where
  "reject_prefix_collisions kb router prefix_ns =
     (case kb_prefix kb of
        None \<Rightarrow> Some (Inr ())
      | Some prefix \<Rightarrow>
          and_then (prefix_against_bound prefix router_entry router)
            (and_then (prefix_against_bound prefix prefix_entry prefix_ns)
               (prefix_against_defaults prefix router KEYBIND_ACTIONS)))"

text \<open>The chords \<open>other\<close> fires on under the configured entries: its first one, or its defaults.\<close>

definition effective_chords :: "bound list \<Rightarrow> keybind_action \<Rightarrow> chord list option" where
  "effective_chords router other =
     (case List.find (\<lambda>(b, c). ka_name b = ka_name other) router of
        Some (b, c) \<Rightarrow> Some [c]
      | None \<Rightarrow> parsed_default_chords other)"

fun router_against_actions ::
  "bound list \<Rightarrow> keybind_action \<Rightarrow> chord \<Rightarrow> keybind_action list \<Rightarrow> checked" where
  "router_against_actions router a c [] = Some (Inr ())"
| "router_against_actions router a c (other # os) =
     (if ka_name other = ka_name a then router_against_actions router a c os
      else case effective_chords router other of
        None \<Rightarrow> None
      | Some cs \<Rightarrow>
          if c \<in> set cs
          then Some (Inl (Router_Collision (chord_display c) (ka_name a) (ka_name other)))
          else router_against_actions router a c os)"

fun router_collisions :: "bound list \<Rightarrow> bound list \<Rightarrow> checked" where
  "router_collisions router [] = Some (Inr ())"
| "router_collisions router ((a, c) # bs) =
     and_then (router_against_actions router a c KEYBIND_ACTIONS) (router_collisions router bs)"

definition reject_router_collisions :: "bound list \<Rightarrow> checked" where
  "reject_router_collisions router = router_collisions router router"

fun namespace_against :: "keybind_action \<Rightarrow> chord \<Rightarrow> bound list \<Rightarrow> checked" where
  "namespace_against a c [] = Some (Inr ())"
| "namespace_against a c ((b, d) # bs) =
     (if ka_name a \<noteq> ka_name b \<and> c = d
      then Some (Inl (Prefix_Namespace_Collision (chord_display c) (ka_name a) (ka_name b)))
      else namespace_against a c bs)"

fun reject_prefix_namespace_collisions :: "bound list \<Rightarrow> checked" where
  "reject_prefix_namespace_collisions [] = Some (Inr ())"
| "reject_prefix_namespace_collisions ((a, c) # bs) =
     and_then (namespace_against a c bs) (reject_prefix_namespace_collisions bs)"

text \<open>\<^verbatim>\<open>load\<close>: \<open>None\<close> would be the panic of a literal that does not parse.\<close>

definition load_checked :: "keybinds \<Rightarrow> loaded_sections \<Rightarrow> (keybinds_error + keybinds) option" where
  "load_checked kb ls =
     map_option (map_sum (\<lambda>e. e) (\<lambda>_. kb))
       (and_then (reject_prefix_collisions kb (ls_router ls) (ls_prefix_namespace ls))
          (and_then (reject_router_collisions (ls_router ls))
             (reject_prefix_namespace_collisions (ls_prefix_namespace ls))))"

definition parse_prefix :: "string option \<Rightarrow> chord list \<Rightarrow> keybinds_error + chord option" where
  "parse_prefix text reserved =
     (case text of
        None \<Rightarrow> Inr None
      | Some s \<Rightarrow> map_sum (\<lambda>e. e) Some (parse_configured s ''keys.prefix'' reserved))"

definition load_keybinds :: "raw_keybinds \<Rightarrow> (keybinds_error + keybinds) option" where
  "load_keybinds raw =
     (case parse_all RESERVED_CHORDS of
        None \<Rightarrow> None
      | Some reserved \<Rightarrow>
          (case parse_prefix (rk_prefix raw) reserved of
             Inl e \<Rightarrow> Some (Inl e)
           | Inr prefix \<Rightarrow>
               (case load_sections [] reserved (rk_sections raw) of
                  Inl e \<Rightarrow> Some (Inl e)
                | Inr ls \<Rightarrow>
                    load_checked \<lparr>kb_prefix = prefix, kb_sections = ls_sections ls\<rparr> ls)))"

section \<open>The configuration file\<close>

text \<open>A TOML value, as far as the reader and the writer of the keys table look at it. The map of
  the toml library keeps one value per key; the place a new key takes in its iteration order
  (sorted, or last) is the parameter \<open>place\<close>.\<close>

datatype toml = Toml_String string | Toml_Table "(string \<times> toml) list" | Toml_Other

type_synonym toml_table = "(string \<times> toml) list"
type_synonym toml_order = "string \<Rightarrow> toml_table \<Rightarrow> nat"

definition toml_insert :: "toml_order \<Rightarrow> string \<Rightarrow> toml \<Rightarrow> toml_table \<Rightarrow> toml_table" where
  "toml_insert place k v t =
     (if k \<in> fst ` set t then map (\<lambda>(k', v'). if k' = k then (k', v) else (k', v')) t
      else insert_at (place k t) (k, v) t)"

definition toml_remove :: "string \<Rightarrow> toml_table \<Rightarrow> toml_table" where
  "toml_remove k t = [(k', v) \<leftarrow> t. k' \<noteq> k]"

text \<open>The shape check, with the text of \<^verbatim>\<open>ConfigError::parse\<close>.\<close>

fun parse_prefix_table :: "string \<Rightarrow> toml_table \<Rightarrow> string + (string \<times> string) list" where
  "parse_prefix_table name [] = Inr []"
| "parse_prefix_table name ((k, v) # t) =
     (case v of
        Toml_String s \<Rightarrow>
          (case parse_prefix_table name t of
             Inl e \<Rightarrow> Inl e
           | Inr es \<Rightarrow> Inr ((k, s) # es))
      | _ \<Rightarrow> Inl (prefix_entry name k @ '' must be a string chord''))"

fun parse_section_table :: "string \<Rightarrow> toml_table \<Rightarrow> raw_section \<Rightarrow> string + raw_section" where
  "parse_section_table name [] sec = Inr sec"
| "parse_section_table name ((k, v) # t) sec =
     (if k = ''prefix''
      then (case v of
              Toml_Table pt \<Rightarrow>
                (case parse_prefix_table name pt of
                   Inl e \<Rightarrow> Inl e
                 | Inr es \<Rightarrow>
                     parse_section_table name t (sec\<lparr>rs_prefix := rs_prefix sec @ es\<rparr>))
            | _ \<Rightarrow> Inl (''keys.'' @ name @ ''.prefix must be a table''))
      else (case v of
              Toml_String s \<Rightarrow>
                parse_section_table name t (sec\<lparr>rs_router := rs_router sec @ [(k, s)]\<rparr>)
            | _ \<Rightarrow> Inl (router_entry name k @ '' must be a string chord'')))"

fun parse_keys_table :: "toml_table \<Rightarrow> raw_keybinds \<Rightarrow> string + raw_keybinds" where
  "parse_keys_table [] raw = Inr raw"
| "parse_keys_table ((name, v) # t) raw =
     (if name = ''prefix''
      then (case v of
              Toml_String s \<Rightarrow> parse_keys_table t (raw\<lparr>rk_prefix := Some s\<rparr>)
            | _ \<Rightarrow> Inl ''keys.prefix must be a string chord'')
      else (case v of
              Toml_Table st \<Rightarrow>
                (case parse_section_table name st \<lparr>rs_router = [], rs_prefix = []\<rparr> of
                   Inl e \<Rightarrow> Inl e
                 | Inr sec \<Rightarrow>
                     parse_keys_table t (raw\<lparr>rk_sections := rk_sections raw @ [(name, sec)]\<rparr>))
            | _ \<Rightarrow> Inl (''keys.'' @ name @ '' must be a table'')))"

definition parse_raw_keybinds :: "toml \<Rightarrow> string + raw_keybinds" where
  "parse_raw_keybinds keys =
     (case keys of
        Toml_Table t \<Rightarrow> parse_keys_table t \<lparr>rk_prefix = None, rk_sections = []\<rparr>
      | _ \<Rightarrow> Inl ''keys must be a table'')"

text \<open>The lines of \<^verbatim>\<open>parse\<close> that read the keys of a whole document.\<close>

datatype keys_error = Keys_Shape string | Keys_Rejected keybinds_error

definition parse_keys :: "toml_table \<Rightarrow> (keys_error + keybinds) option" where
  "parse_keys doc =
     (case map_of doc ''keys'' of
        None \<Rightarrow> Some (Inr keybinds_defaults)
      | Some keys \<Rightarrow>
          (case parse_raw_keybinds keys of
             Inl e \<Rightarrow> Some (Inl (Keys_Shape e))
           | Inr raw \<Rightarrow> map_option (map_sum Keys_Rejected (\<lambda>kb. kb)) (load_keybinds raw)))"

definition chord_table :: "toml_order \<Rightarrow> (string \<times> chord) list \<Rightarrow> toml_table" where
  "chord_table place es =
     fold (\<lambda>(name, c) t. toml_insert place name (Toml_String (chord_display c)) t) es []"

definition section_table :: "toml_order \<Rightarrow> section_bindings \<Rightarrow> toml_table" where
  "section_table place b =
     (let t = chord_table place (sb_router b) in
      if sb_prefix b \<noteq> []
      then toml_insert place ''prefix'' (Toml_Table (chord_table place (sb_prefix b))) t else t)"

definition write_section ::
  "toml_order \<Rightarrow> key_section \<times> section_bindings \<Rightarrow> toml_table \<Rightarrow> toml_table" where
  "write_section place = (\<lambda>(sec, b) t.
     if sb_router b = [] \<and> sb_prefix b = [] then t
     else toml_insert place (to_ascii_lowercase (section_name sec))
            (Toml_Table (section_table place b)) t)"

definition write_keys_section :: "toml_order \<Rightarrow> keybinds \<Rightarrow> toml_table \<Rightarrow> toml_table" where
  "write_keys_section place kb doc =
     (let t0 = (case kb_prefix kb of
                  None \<Rightarrow> []
                | Some c \<Rightarrow> toml_insert place ''prefix'' (Toml_String (chord_display c)) []);
          keys = fold (write_section place) (kb_sections kb) t0
      in if keys = [] then toml_remove ''keys'' doc
         else toml_insert place ''keys'' (Toml_Table keys) doc)"

end
