(* ===== verification/Keybind_Laws.thy ===== *)
theory Keybind_Laws
  imports Keybinds
begin

text \<open>
  What the loader of key bindings guarantees. The literals of the registry parse, so loading
  never panics; it accepts a configuration exactly when a declarative condition holds
  (\<open>keys_admissible\<close>, which looks at sets of entries and not at their order), the bindings it
  accepts are unambiguous, and what is written to the configuration file is read back as the
  same bindings whatever order the file's tables iterate in.
\<close>

section \<open>The literals of the registry\<close>

definition chord_of :: "key_mods \<Rightarrow> chord_key \<Rightarrow> chord" where
  "chord_of m k = \<lparr>ch_mods = m, ch_key = k\<rparr>"

definition default_table :: "(string \<times> chord list) list" where
  "default_table =
     [(''help_open'', [chord_of 0 (CK_F 1)]),
      (''settings_open'', [chord_of 0 (CK_F 2)]),
      (''twitch_url_open'', [chord_of 2 (CK_Char 84)]),
      (''quit'', [chord_of 0 (CK_Char 113)]),
      (''sessions_open'', [chord_of 0 (CK_F 3)]),
      (''search_open'', [chord_of 1 (CK_Char 47), chord_of 1 (CK_Char 95)]),
      (''next_library_tab'', [chord_of 0 (CK_Tab)]),
      (''previous_library_tab'', [chord_of 0 (CK_BackTab)]),
      (''library_tab_jump'', [chord_of 0 (CK_Char 49), chord_of 0 (CK_Char 50), chord_of 0 (CK_Char 51), chord_of 0 (CK_Char 52), chord_of 0 (CK_Char 53), chord_of 0 (CK_Char 54), chord_of 0 (CK_Char 55), chord_of 0 (CK_Char 56), chord_of 0 (CK_Char 57)]),
      (''f5_refresh'', [chord_of 0 (CK_F 5)]),
      (''alt_next_library_tab'', [chord_of 4 (CK_Down)]),
      (''alt_previous_library_tab'', [chord_of 4 (CK_Up)]),
      (''playlists_open'', [chord_of 0 (CK_F 4)]),
      (''clear_queue_prompt_c'', [chord_of 0 (CK_Char 99)]),
      (''visualizer'', [chord_of 0 (CK_Char 118)]),
      (''hide_visual_slot'', [chord_of 0 (CK_Char 104)]),
      (''toggle_play_pause'', [chord_of 0 (CK_Char 32)]),
      (''stop'', [chord_of 2 (CK_Char 83)]),
      (''seek_back'', [chord_of 0 (CK_Char 60)]),
      (''seek_forward'', [chord_of 0 (CK_Char 62)]),
      (''next_track'', [chord_of 2 (CK_Char 78)]),
      (''previous_track'', [chord_of 2 (CK_Char 80)]),
      (''volume_down'', [chord_of 0 (CK_Char 45)]),
      (''volume_up'', [chord_of 0 (CK_Char 43), chord_of 0 (CK_Char 61)]),
      (''toggle_mute'', [chord_of 0 (CK_Char 109)]),
      (''cycle_audio'', [chord_of 0 (CK_Char 35)]),
      (''cycle_subtitle'', [chord_of 0 (CK_Char 122)]),
      (''open_idle_feed_link'', [chord_of 0 (CK_Char 111)]),
      (''panel_mode_cycle_x'', [chord_of 0 (CK_Char 120)]),
      (''panel_right'', [chord_of 1 (CK_Right)]),
      (''panel_left'', [chord_of 1 (CK_Left)]),
      (''ctrl_l_force_clear'', [chord_of 1 (CK_Char 108)])]"

lemma table_displays:
  "map (\<lambda>a. (ka_name a, ka_default_chords a)) KEYBIND_ACTIONS
    = map (\<lambda>(n, cs). (n, map chord_display cs)) default_table"
  by code_simp

lemma table_expressible: "list_all (\<lambda>(n, cs). list_all chord_expressible cs) default_table"
  by (simp add: default_table_def chord_of_def chord_expressible_def is_scalar_def char_whitespace_def)

lemma table_distinct: "distinct (map fst default_table)" "distinct (concat (map snd default_table))"
  by code_simp+

lemma parse_all_displays:
  "list_all chord_expressible cs \<Longrightarrow> parse_all (map chord_display cs) = Some cs"
  by (induction cs) (auto simp: display_parse ok_opt_def)

definition default_chords_of :: "keybind_action \<Rightarrow> chord list" where
  "default_chords_of a = the (map_of default_table (ka_name a))"

lemma action_names_distinct: "distinct (map ka_name KEYBIND_ACTIONS)"
proof -
  have "map ka_name KEYBIND_ACTIONS = map fst default_table"
    using arg_cong [OF table_displays, of "map fst"] by (simp add: comp_def case_prod_beta)
  then show ?thesis using table_distinct by simp
qed

lemma parsed_defaults:
  assumes "a \<in> set KEYBIND_ACTIONS"
  shows "parsed_default_chords a = Some (default_chords_of a)" "default_chords_of a \<noteq> []"
proof -
  have "(ka_name a, ka_default_chords a) \<in> set (map (\<lambda>a. (ka_name a, ka_default_chords a)) KEYBIND_ACTIONS)"
    using assms by force
  then obtain cs where cs: "(ka_name a, cs) \<in> set default_table" "ka_default_chords a = map chord_display cs"
    unfolding table_displays by auto
  then have "default_chords_of a = cs"
    using table_distinct(1) by (simp add: default_chords_of_def map_of_is_SomeI)
  moreover have "list_all chord_expressible cs" using table_expressible cs(1) by (auto simp: list_all_iff)
  ultimately show "parsed_default_chords a = Some (default_chords_of a)"
    using cs(2) by (simp add: parsed_default_chords_def parse_all_displays)
  have "list_all (\<lambda>(n, cs). cs \<noteq> []) default_table" by (simp add: default_table_def)
  with cs(1) \<open>default_chords_of a = cs\<close> show "default_chords_of a \<noteq> []" by (auto simp: list_all_iff)
qed

lemma default_entry:
  assumes "a \<in> set KEYBIND_ACTIONS" shows "(ka_name a, default_chords_of a) \<in> set default_table"
proof -
  have "ka_name a \<in> fst ` set default_table"
    using assms arg_cong [OF table_displays, of "\<lambda>xs. fst ` set xs"] by (force simp: image_image)
  then show ?thesis using table_distinct(1) by (auto simp: default_chords_of_def map_of_is_SomeI)
qed

lemma defaults_disjoint:
  assumes "a \<in> set KEYBIND_ACTIONS" "b \<in> set KEYBIND_ACTIONS" "ka_name a \<noteq> ka_name b"
  shows "set (default_chords_of a) \<inter> set (default_chords_of b) = {}"
proof -
  have "set cs \<inter> set ds = {}"
    if "(n, cs) \<in> set t" "(m, ds) \<in> set t" "n \<noteq> m" "distinct (concat (map snd t))"
    for n m :: string and cs ds :: "chord list" and t
    using that by (induction t) force+
  then show ?thesis using assms default_entry table_distinct(2) by metis
qed

definition reserved_chord :: chord where "reserved_chord = chord_of 1 (CK_Char 113)"

lemma reserved_parsed: "parse_all RESERVED_CHORDS = Some [reserved_chord]"
proof -
  have "RESERVED_CHORDS = map chord_display [reserved_chord]"
    unfolding RESERVED_CHORDS_def reserved_chord_def by code_simp
  moreover have "chord_expressible reserved_chord"
    by (simp add: reserved_chord_def chord_of_def chord_expressible_def is_scalar_def char_whitespace_def)
  ultimately show ?thesis using parse_all_displays [of "[reserved_chord]"] by simp
qed

lemma defaults_not_reserved: "a \<in> set KEYBIND_ACTIONS \<Longrightarrow> reserved_chord \<notin> set (default_chords_of a)"
proof -
  assume "a \<in> set KEYBIND_ACTIONS"
  then have "(ka_name a, default_chords_of a) \<in> set default_table" by (rule default_entry)
  moreover have "list_all (\<lambda>(n, cs). reserved_chord \<notin> set cs) default_table"
    by (simp add: default_table_def reserved_chord_def chord_of_def)
  ultimately show ?thesis by (auto simp: list_all_iff)
qed

lemma action_by_id_Some:
  "action_by_id n = Some a \<longleftrightarrow> a \<in> set KEYBIND_ACTIONS \<and> ka_name a = n"
proof
  assume "a \<in> set KEYBIND_ACTIONS \<and> ka_name a = n"
  then obtain i where "i < length KEYBIND_ACTIONS" "KEYBIND_ACTIONS ! i = a" "ka_name a = n"
    by (auto simp: in_set_conv_nth)
  with action_names_distinct show "action_by_id n = Some a"
    by (simp add: action_by_id_def find_position position_distinct)
qed (auto simp: action_by_id_def dest!: find_in_set)

section \<open>The collision checks\<close>

text \<open>What each loop accepts, over declared actions.\<close>

definition declared :: "bound list \<Rightarrow> bool" where
  "declared bs \<longleftrightarrow> (\<forall>(a, c)\<in>set bs. a \<in> set KEYBIND_ACTIONS)"

abbreviation passes :: "checked \<Rightarrow> bool" where "passes r \<equiv> r = Some (Inr ())"

definition decided :: "checked \<Rightarrow> bool" where "decided r \<longleftrightarrow> r \<noteq> None"

named_theorems checks \<open>what a check accepts\<close>

lemma and_then_passes [checks]: "passes (and_then a b) \<longleftrightarrow> passes a \<and> passes b"
  by (auto simp: and_then_def split: option.splits sum.splits)

lemma and_then_decided: "decided a \<Longrightarrow> decided b \<Longrightarrow> decided (and_then a b)"
  by (auto simp: and_then_def decided_def split: option.splits sum.splits)

lemma prefix_against_bound [checks]:
  "passes (prefix_against_bound p entry bs) \<longleftrightarrow> p \<notin> snd ` set (bound_names bs)"
  "decided (prefix_against_bound p entry bs)"
  by (induction p entry bs rule: prefix_against_bound.induct) (auto simp: bound_names_def decided_def)

lemma configured_iff: "(\<exists>(b, c)\<in>set bs. ka_name b = n) \<longleftrightarrow> n \<in> fst ` set (bound_names bs)"
  by (induction bs) (auto simp: bound_names_def)

lemma prefix_against_defaults [checks]:
  assumes "set as \<subseteq> set KEYBIND_ACTIONS"
  shows "passes (prefix_against_defaults p bs as) \<longleftrightarrow>
      (\<forall>a\<in>set as. ka_name a \<in> fst ` set (bound_names bs) \<or> p \<notin> set (default_chords_of a))"
    "decided (prefix_against_defaults p bs as)"
proof -
  have "(passes (prefix_against_defaults p bs as) \<longleftrightarrow>
      (\<forall>a\<in>set as. ka_name a \<in> fst ` set (bound_names bs) \<or> p \<notin> set (default_chords_of a)))
    \<and> decided (prefix_against_defaults p bs as)"
    using assms
  proof (induction as)
    case (Cons a as)
    then have "parsed_default_chords a = Some (default_chords_of a)" by (simp add: parsed_defaults)
    with Cons show ?case by (simp add: configured_iff decided_def)
  qed (simp add: decided_def)
  then show "passes (prefix_against_defaults p bs as) \<longleftrightarrow>
      (\<forall>a\<in>set as. ka_name a \<in> fst ` set (bound_names bs) \<or> p \<notin> set (default_chords_of a))"
    "decided (prefix_against_defaults p bs as)" by auto
qed

text \<open>The chords of an action under a list of configured names.\<close>

definition chords_under :: "(string \<times> chord) list \<Rightarrow> keybind_action \<Rightarrow> chord set" where
  "chords_under es a =
     (case map_of es (ka_name a) of
        Some c \<Rightarrow> {c}
      | None \<Rightarrow> set (default_chords_of a))"

lemma find_map_of: "map_option snd (List.find (\<lambda>(a, c). a = n) es) = map_of es n"
  by (induction es) auto

lemma find_bound: "map_option snd (List.find (\<lambda>(b, c). ka_name b = n) bs) = map_of (bound_names bs) n"
  by (induction bs) (auto simp: bound_names_def)

lemma effective_chords_under:
  assumes "a \<in> set KEYBIND_ACTIONS"
  shows "\<exists>cs. effective_chords bs a = Some cs \<and> set cs = chords_under (bound_names bs) a"
  using find_bound [of "ka_name a" bs, symmetric] parsed_defaults [OF assms]
  by (auto simp: effective_chords_def chords_under_def split: option.splits)

lemma router_against_actions [checks]:
  assumes "set os \<subseteq> set KEYBIND_ACTIONS"
  shows "passes (router_against_actions bs a c os) \<longleftrightarrow>
      (\<forall>b\<in>set os. ka_name b \<noteq> ka_name a \<longrightarrow> c \<notin> chords_under (bound_names bs) b)"
    "decided (router_against_actions bs a c os)"
proof -
  have "(passes (router_against_actions bs a c os) \<longleftrightarrow>
      (\<forall>b\<in>set os. ka_name b \<noteq> ka_name a \<longrightarrow> c \<notin> chords_under (bound_names bs) b))
    \<and> decided (router_against_actions bs a c os)"
    using assms
  proof (induction bs a c os rule: router_against_actions.induct)
    case (2 bs a c b os)
    then obtain cs where "effective_chords bs b = Some cs" "set cs = chords_under (bound_names bs) b"
      using effective_chords_under [of b bs] by auto
    with 2 show ?case by (auto simp: decided_def)
  qed (simp add: decided_def)
  then show "passes (router_against_actions bs a c os) \<longleftrightarrow>
      (\<forall>b\<in>set os. ka_name b \<noteq> ka_name a \<longrightarrow> c \<notin> chords_under (bound_names bs) b)"
    "decided (router_against_actions bs a c os)" by auto
qed

lemma router_collisions_iff:
  "passes (router_collisions bs cs) \<longleftrightarrow>
     (\<forall>(n, c)\<in>set (bound_names cs). \<forall>b\<in>set KEYBIND_ACTIONS.
        ka_name b \<noteq> n \<longrightarrow> c \<notin> chords_under (bound_names bs) b)"
  "decided (router_collisions bs cs)"
  by (induction bs cs rule: router_collisions.induct)
    (auto simp: checks bound_names_def decided_def [of "Some _"] intro!: and_then_decided)

lemma namespace_against_iff:
  "passes (namespace_against a c bs) \<longleftrightarrow> (\<forall>(n, d)\<in>set (bound_names bs). ka_name a \<noteq> n \<longrightarrow> c \<noteq> d)"
  "decided (namespace_against a c bs)"
  by (induction a c bs rule: namespace_against.induct) (auto simp: bound_names_def decided_def)

lemma bound_names_Cons [simp]: "bound_names ((a, c) # bs) = (ka_name a, c) # bound_names bs"
  by (simp add: bound_names_def)

lemma insert_pairs:
  "(\<forall>x\<in>insert z S. \<forall>y\<in>insert z S. P x y)
    \<longleftrightarrow> P z z \<and> (\<forall>y\<in>S. P z y) \<and> (\<forall>x\<in>S. P x z) \<and> (\<forall>x\<in>S. \<forall>y\<in>S. P x y)"
  by auto

lemma prefix_namespace_iff:
  "passes (reject_prefix_namespace_collisions bs) \<longleftrightarrow>
     (\<forall>x\<in>set (bound_names bs). \<forall>y\<in>set (bound_names bs). fst x \<noteq> fst y \<longrightarrow> snd x \<noteq> snd y)"
  "decided (reject_prefix_namespace_collisions bs)"
proof -
  have "(passes (reject_prefix_namespace_collisions bs) \<longleftrightarrow>
     (\<forall>x\<in>set (bound_names bs). \<forall>y\<in>set (bound_names bs). fst x \<noteq> fst y \<longrightarrow> snd x \<noteq> snd y))
     \<and> decided (reject_prefix_namespace_collisions bs)"
  proof (induction bs)
    case (Cons b bs)
    obtain a c where b: "b = (a, c)" by force
    have "(\<forall>x\<in>set (bound_names (b # bs)). \<forall>y\<in>set (bound_names (b # bs)). fst x \<noteq> fst y \<longrightarrow> snd x \<noteq> snd y)
      \<longleftrightarrow> (\<forall>y\<in>set (bound_names bs). ka_name a \<noteq> fst y \<longrightarrow> c \<noteq> snd y)
        \<and> (\<forall>x\<in>set (bound_names bs). \<forall>y\<in>set (bound_names bs). fst x \<noteq> fst y \<longrightarrow> snd x \<noteq> snd y)"
      unfolding b bound_names_Cons list.set(2) insert_pairs by auto
    with Cons show ?case
      by (simp add: b checks namespace_against_iff and_then_decided case_prod_beta)
  qed (simp_all add: bound_names_def decided_def)
  then show "passes (reject_prefix_namespace_collisions bs) \<longleftrightarrow>
     (\<forall>x\<in>set (bound_names bs). \<forall>y\<in>set (bound_names bs). fst x \<noteq> fst y \<longrightarrow> snd x \<noteq> snd y)"
    "decided (reject_prefix_namespace_collisions bs)" by auto
qed

text \<open>Bindings that leave no press undecided.\<close>

definition unambiguous :: "chord option \<Rightarrow> (string \<times> chord) list \<Rightarrow> (string \<times> chord) list \<Rightarrow> bool" where
  "unambiguous prefix router ns \<longleftrightarrow>
     (\<forall>p. prefix = Some p \<longrightarrow> p \<notin> snd ` set router \<and> p \<notin> snd ` set ns
        \<and> (\<forall>a\<in>set KEYBIND_ACTIONS. ka_name a \<in> fst ` set router \<or> p \<notin> set (default_chords_of a)))
   \<and> (\<forall>(n, c)\<in>set router. \<forall>b\<in>set KEYBIND_ACTIONS. ka_name b \<noteq> n \<longrightarrow> c \<notin> chords_under router b)
   \<and> (\<forall>x\<in>set ns. \<forall>y\<in>set ns. fst x \<noteq> fst y \<longrightarrow> snd x \<noteq> snd y)"

lemma load_checked_iff:
  "load_checked kb ls \<noteq> None"
  "load_checked kb ls = Some (Inr kb') \<longleftrightarrow>
     kb' = kb \<and> unambiguous (kb_prefix kb) (bound_names (ls_router ls)) (bound_names (ls_prefix_namespace ls))"
proof -
  let ?r = "and_then (reject_prefix_collisions kb (ls_router ls) (ls_prefix_namespace ls))
          (and_then (reject_router_collisions (ls_router ls))
             (reject_prefix_namespace_collisions (ls_prefix_namespace ls)))"
  have "decided ?r"
    by (intro and_then_decided)
      (auto simp: reject_prefix_collisions_def reject_router_collisions_def checks
        router_collisions_iff prefix_namespace_iff decided_def [of "Some _"]
        intro!: and_then_decided split: option.splits)
  then show "load_checked kb ls \<noteq> None" by (simp add: load_checked_def decided_def)
  have "passes ?r \<longleftrightarrow>
     unambiguous (kb_prefix kb) (bound_names (ls_router ls)) (bound_names (ls_prefix_namespace ls))"
    by (auto simp: reject_prefix_collisions_def reject_router_collisions_def checks
        router_collisions_iff prefix_namespace_iff unambiguous_def split: option.splits)
  moreover have "load_checked kb ls = Some (Inr kb') \<longleftrightarrow> kb' = kb \<and> passes ?r"
    by (cases ?r; cases "the ?r") (auto simp: load_checked_def)
  ultimately show "load_checked kb ls = Some (Inr kb') \<longleftrightarrow> kb' = kb \<and>
     unambiguous (kb_prefix kb) (bound_names (ls_router ls)) (bound_names (ls_prefix_namespace ls))"
    by blast
qed

section \<open>What the loader accepts\<close>

definition live :: "(string \<times> string) list \<Rightarrow> (string \<times> string) list" where
  "live es = [(n, t) \<leftarrow> es. \<not> skip_retired_action n]"

definition text_ok :: "string \<Rightarrow> bool" where
  "text_ok t \<longleftrightarrow> (\<exists>c. chord_parse t = Inr c \<and> c \<noteq> reserved_chord)"

text \<open>An entry names an action of the section it stands in and binds it to a chord of its own.\<close>

definition entry_ok :: "string \<Rightarrow> string \<times> string \<Rightarrow> bool" where
  "entry_ok sec = (\<lambda>(n, t).
     (\<exists>a. action_by_id n = Some a \<and> eq_ignore_ascii_case (section_name (ka_section a)) sec)
     \<and> text_ok t)"

definition addressable :: "string \<Rightarrow> bool" where
  "addressable n \<longleftrightarrow> (\<exists>a. action_by_id n = Some a \<and> ka_prefix_addressable a)"

definition compiled_entries :: "(string \<times> string) list \<Rightarrow> (string \<times> chord) list" where
  "compiled_entries es = map (\<lambda>(n, t). (n, projr (chord_parse t))) (live es)"

lemma live_simps [simp]:
  "live [] = []" "live ((n, t) # es) = (if skip_retired_action n then live es else (n, t) # live es)"
  by (simp_all add: live_def)

lemma compiled_simps [simp]:
  "compiled_entries [] = []"
  "compiled_entries ((n, t) # es) = (if skip_retired_action n then compiled_entries es
     else (n, projr (chord_parse t)) # compiled_entries es)"
  by (simp_all add: compiled_entries_def)

lemma parse_configured_iff:
  "parse_configured t entry [reserved_chord] = Inr c \<longleftrightarrow> text_ok t \<and> c = projr (chord_parse t)"
  by (auto simp: parse_configured_def text_ok_def split: sum.splits)

lemma lookup_iff:
  "lookup_in_section n sec = Inr a \<longleftrightarrow>
     action_by_id n = Some a \<and> eq_ignore_ascii_case (section_name (ka_section a)) sec"
  by (auto simp: lookup_in_section_def split: option.splits)

lemma load_router_accepts:
  assumes "load_router sec [reserved_chord] es = Inr bs"
  shows "(\<forall>e\<in>set (live es). entry_ok sec e) \<and> bound_names bs = compiled_entries es \<and> declared bs"
  using assms
proof (induction es arbitrary: bs)
  case (Cons e es)
  obtain n t where [simp]: "e = (n, t)" by force
  show ?case
  proof (cases "skip_retired_action n")
    case False
    then obtain a c bs' where "lookup_in_section n sec = Inr a" "load_router sec [reserved_chord] es = Inr bs'"
      "parse_configured t (router_entry sec n) [reserved_chord] = Inr c" "bs = (a, c) # bs'"
      using Cons.prems by (auto split: sum.splits)
    with Cons.IH False show ?thesis
      by (auto simp: parse_configured_iff lookup_iff entry_ok_def declared_def action_by_id_Some)
  qed (use Cons in auto)
qed (simp add: bound_names_def declared_def)

lemma load_router_complete:
  "\<forall>e\<in>set (live es). entry_ok sec e \<Longrightarrow> \<exists>bs. load_router sec [reserved_chord] es = Inr bs"
proof (induction es)
  case (Cons e es)
  obtain n t where [simp]: "e = (n, t)" by force
  show ?case
  proof (cases "skip_retired_action n")
    case False
    with Cons.prems obtain a where "lookup_in_section n sec = Inr a" "text_ok t"
      by (auto simp: lookup_iff entry_ok_def)
    with Cons False show ?thesis
      using parse_configured_iff [of t "router_entry sec n" "projr (chord_parse t)"] by auto
  qed (use Cons in auto)
qed simp

lemma load_prefix_accepts:
  assumes "load_prefix sec [reserved_chord] es = Inr bs"
  shows "(\<forall>e\<in>set (live es). entry_ok sec e \<and> addressable (fst e))
    \<and> bound_names bs = compiled_entries es \<and> declared bs"
  using assms
proof (induction es arbitrary: bs)
  case (Cons e es)
  obtain n t where [simp]: "e = (n, t)" by force
  show ?case
  proof (cases "skip_retired_action n")
    case False
    then obtain a c bs' where "lookup_in_section n sec = Inr a" "ka_prefix_addressable a"
      "load_prefix sec [reserved_chord] es = Inr bs'"
      "parse_configured t (prefix_entry sec n) [reserved_chord] = Inr c" "bs = (a, c) # bs'"
      using Cons.prems by (auto split: sum.splits if_splits)
    with Cons.IH False show ?thesis
      by (auto simp: parse_configured_iff lookup_iff entry_ok_def addressable_def declared_def action_by_id_Some)
  qed (use Cons in auto)
qed (simp add: bound_names_def declared_def)

lemma load_prefix_complete:
  "\<forall>e\<in>set (live es). entry_ok sec e \<and> addressable (fst e) \<Longrightarrow>
    \<exists>bs. load_prefix sec [reserved_chord] es = Inr bs"
proof (induction es)
  case (Cons e es)
  obtain n t where [simp]: "e = (n, t)" by force
  show ?case
  proof (cases "skip_retired_action n")
    case False
    with Cons.prems obtain a where "lookup_in_section n sec = Inr a" "text_ok t" "ka_prefix_addressable a"
      by (auto simp: lookup_iff entry_ok_def addressable_def)
    with Cons False show ?thesis
      using parse_configured_iff [of t "prefix_entry sec n" "projr (chord_parse t)"] by auto
  qed (use Cons in auto)
qed simp

text \<open>One section, all sections, and the whole file.\<close>

definition section_ok :: "string \<times> raw_section \<Rightarrow> bool" where
  "section_ok = (\<lambda>(name, raw).
     section_from_name name \<noteq> None
     \<and> (\<forall>e\<in>set (live (rs_router raw)). entry_ok name e)
     \<and> (\<forall>e\<in>set (live (rs_prefix raw)). entry_ok name e \<and> addressable (fst e)))"

definition compiled_section :: "string \<times> raw_section \<Rightarrow> key_section \<times> section_bindings" where
  "compiled_section = (\<lambda>(name, raw).
     (the (section_from_name name),
      \<lparr>sb_router = compiled_entries (rs_router raw), sb_prefix = compiled_entries (rs_prefix raw)\<rparr>))"

definition lower_names :: "(string \<times> raw_section) list \<Rightarrow> string list" where
  "lower_names ss = map (\<lambda>(name, raw). to_ascii_lowercase name) ss"

definition compiled :: "raw_keybinds \<Rightarrow> keybinds" where
  "compiled raw =
     \<lparr>kb_prefix = map_option (\<lambda>t. projr (chord_parse t)) (rk_prefix raw),
      kb_sections = map compiled_section (rk_sections raw)\<rparr>"

definition keys_admissible :: "raw_keybinds \<Rightarrow> bool" where
  "keys_admissible raw \<longleftrightarrow>
     (\<forall>t. rk_prefix raw = Some t \<longrightarrow> text_ok t)
   \<and> distinct (lower_names (rk_sections raw))
   \<and> (\<forall>s\<in>set (rk_sections raw). section_ok s)
   \<and> unambiguous (kb_prefix (compiled raw)) (all_router (compiled raw)) (all_prefix (compiled raw))"

lemma find_seen:
  "List.find (\<lambda>s. eq_ignore_ascii_case s name) seen = None
    \<longleftrightarrow> to_ascii_lowercase name \<notin> to_ascii_lowercase ` set seen"
  by (auto simp: find_None_iff eq_ignore_ascii_case_def image_iff)

lemma load_sections_accepts:
  assumes "load_sections seen [reserved_chord] ss = Inr ls"
  shows "distinct (lower_names ss) \<and> set (lower_names ss) \<inter> to_ascii_lowercase ` set seen = {}
    \<and> (\<forall>s\<in>set ss. section_ok s) \<and> ls_sections ls = map compiled_section ss
    \<and> bound_names (ls_router ls) = concat (map (sb_router \<circ> snd) (ls_sections ls))
    \<and> bound_names (ls_prefix_namespace ls) = concat (map (sb_prefix \<circ> snd) (ls_sections ls))"
  using assms
proof (induction ss arbitrary: seen ls)
  case (Cons s ss)
  obtain name raw where [simp]: "s = (name, raw)" by force
  from Cons.prems obtain sec router prefix ls' where
    seen: "List.find (\<lambda>s. eq_ignore_ascii_case s name) seen = None" and sec: "section_from_name name = Some sec"
    and router: "load_router name [reserved_chord] (rs_router raw) = Inr router"
    and prefix: "load_prefix name [reserved_chord] (rs_prefix raw) = Inr prefix"
    and rest: "load_sections (seen @ [name]) [reserved_chord] ss = Inr ls'"
    and ls: "ls = add_section sec router prefix ls'"
    by (auto split: option.splits sum.splits)
  note r = load_router_accepts [OF router] and p = load_prefix_accepts [OF prefix]
  have n: "bound_names (a @ b) = bound_names a @ bound_names b" for a b by (simp add: bound_names_def)
  show ?case
    using Cons.IH [OF rest] r p sec seen ls
    by (auto simp: find_seen lower_names_def section_ok_def compiled_section_def add_section_def n)
qed (simp add: lower_names_def bound_names_def)

lemma load_sections_complete:
  assumes "distinct (lower_names ss)" "set (lower_names ss) \<inter> to_ascii_lowercase ` set seen = {}"
    "\<forall>s\<in>set ss. section_ok s"
  shows "\<exists>ls. load_sections seen [reserved_chord] ss = Inr ls"
  using assms
proof (induction ss arbitrary: seen)
  case (Cons s ss)
  obtain name raw where [simp]: "s = (name, raw)" by force
  from Cons.prems obtain sec where sec: "section_from_name name = Some sec" by (auto simp: section_ok_def)
  from Cons.prems obtain router prefix where
    "load_router name [reserved_chord] (rs_router raw) = Inr router"
    "load_prefix name [reserved_chord] (rs_prefix raw) = Inr prefix"
    using load_router_complete [of "rs_router raw" name] load_prefix_complete [of "rs_prefix raw" name]
    by (auto simp: section_ok_def)
  moreover obtain ls where "load_sections (seen @ [name]) [reserved_chord] ss = Inr ls"
    using Cons.IH [of "seen @ [name]"] Cons.prems by (auto simp: lower_names_def)
  moreover have "List.find (\<lambda>s. eq_ignore_ascii_case s name) seen = None"
    using Cons.prems by (auto simp: find_seen lower_names_def)
  ultimately show ?case using sec by simp
qed simp

lemma parse_prefix_iff:
  "parse_prefix t [reserved_chord] = Inr p \<longleftrightarrow>
     (\<forall>s. t = Some s \<longrightarrow> text_ok s) \<and> p = map_option (\<lambda>t. projr (chord_parse t)) t"
proof (cases t)
  case (Some s)
  show ?thesis
  proof (cases "parse_configured s ''keys.prefix'' [reserved_chord]")
    case (Inl e)
    then have "\<not> text_ok s" using parse_configured_iff [of s "''keys.prefix''"] by auto
    with Some Inl show ?thesis by (simp add: parse_prefix_def)
  next
    case (Inr c)
    then have "text_ok s" "c = projr (chord_parse s)"
      using parse_configured_iff [of s "''keys.prefix''" c] by auto
    with Some Inr show ?thesis by (auto simp: parse_prefix_def)
  qed
qed (auto simp: parse_prefix_def)

lemma all_router_sections: "all_router kb = concat (map (sb_router \<circ> snd) (kb_sections kb))"
  "all_prefix kb = concat (map (sb_prefix \<circ> snd) (kb_sections kb))"
  by (simp_all add: all_router_def all_prefix_def comp_def case_prod_unfold)

lemma load_iff:
  "load_keybinds raw \<noteq> None"
  "load_keybinds raw = Some (Inr kb) \<longleftrightarrow> keys_admissible raw \<and> kb = compiled raw"
proof -
  show "load_keybinds raw \<noteq> None"
    by (simp add: load_keybinds_def reserved_parsed load_checked_iff(1) del: not_None_eq split: sum.splits)
  show "load_keybinds raw = Some (Inr kb) \<longleftrightarrow> keys_admissible raw \<and> kb = compiled raw"
  proof
    assume "load_keybinds raw = Some (Inr kb)"
    then obtain p ls where p: "parse_prefix (rk_prefix raw) [reserved_chord] = Inr p"
      and ls: "load_sections [] [reserved_chord] (rk_sections raw) = Inr ls"
      and kb: "load_checked \<lparr>kb_prefix = p, kb_sections = ls_sections ls\<rparr> ls = Some (Inr kb)"
      by (auto simp: load_keybinds_def reserved_parsed split: sum.splits)
    from load_sections_accepts [OF ls] p have "\<lparr>kb_prefix = p, kb_sections = ls_sections ls\<rparr> = compiled raw"
      by (simp add: compiled_def parse_prefix_iff)
    with kb load_sections_accepts [OF ls] p show "keys_admissible raw \<and> kb = compiled raw"
      by (simp add: load_checked_iff keys_admissible_def parse_prefix_iff all_router_sections compiled_def)
  next
    assume a: "keys_admissible raw \<and> kb = compiled raw"
    then obtain ls where ls: "load_sections [] [reserved_chord] (rk_sections raw) = Inr ls"
      using load_sections_complete [of "rk_sections raw" "[]"] by (auto simp: keys_admissible_def)
    have p: "parse_prefix (rk_prefix raw) [reserved_chord] = Inr (kb_prefix kb)"
      using a by (simp add: parse_prefix_iff keys_admissible_def compiled_def)
    have c: "\<lparr>kb_prefix = kb_prefix kb, kb_sections = ls_sections ls\<rparr> = kb"
      using load_sections_accepts [OF ls] a by (simp add: compiled_def)
    then have "load_checked kb ls = Some (Inr kb)"
      using load_sections_accepts [OF ls] a
      by (simp add: load_checked_iff keys_admissible_def all_router_sections compiled_def)
    with c show "load_keybinds raw = Some (Inr kb)"
      by (simp add: load_keybinds_def reserved_parsed p ls)
  qed
qed

text \<open>
  C28. Loading never panics, and it accepts a configuration exactly when the configuration is
  admissible: the prefix and every live entry are chords outside the reserved ones, the sections
  are known and spelled once, each entry names an action of its section (a prefix entry one that
  may be prefixed), and no two bindings claim the same chord. What it returns is the
  entry-by-entry compilation.
\<close>

theorem load_accepts_exactly:
  "load_keybinds raw \<noteq> None
   \<and> (load_keybinds raw = Some (Inr kb) \<longleftrightarrow> keys_admissible raw \<and> kb = compiled raw)"
  using load_iff by blast

section \<open>Unambiguous bindings\<close>

lemma router_override_map: "router_override kb n = map_of (all_router kb) n"
  by (simp add: router_override_def find_map_of)

lemma prefix_assignment_map: "prefix_assignment kb n = map_of (all_prefix kb) n"
  by (simp add: prefix_assignment_def find_map_of)

lemma router_chords_under:
  assumes "a \<in> set KEYBIND_ACTIONS"
  shows "\<exists>cs. router_chords kb a = Some cs \<and> cs \<noteq> [] \<and> set cs = chords_under (all_router kb) a"
  using parsed_defaults [OF assms]
  by (auto simp: router_chords_def router_override_map chords_under_def split: option.splits)

lemma compiled_member:
  assumes "(n, c) \<in> set (compiled_entries es)" "\<forall>e\<in>set (live es). entry_ok sec e"
  shows "c \<noteq> reserved_chord" "chord_expressible c"
    "\<exists>a. action_by_id n = Some a \<and> eq_ignore_ascii_case (section_name (ka_section a)) sec"
  using assms by (fastforce simp: compiled_entries_def entry_ok_def text_ok_def
      intro: chord_parse_expressible)+

lemma admissible_entry:
  assumes "keys_admissible raw" "(n, c) \<in> set (all_router (compiled raw)) \<union> set (all_prefix (compiled raw))"
  shows "c \<noteq> reserved_chord \<and> chord_expressible c"
proof -
  obtain name rs es where s: "(name, rs) \<in> set (rk_sections raw)" "(n, c) \<in> set (compiled_entries es)"
    and es: "es = rs_router rs \<or> es = rs_prefix rs"
    using assms(2) by (force simp: all_router_sections compiled_def compiled_section_def)
  then have "\<forall>e\<in>set (live es). entry_ok name e"
    using assms(1) by (fastforce simp: keys_admissible_def section_ok_def)
  with s(2) show ?thesis using compiled_member by blast
qed

text \<open>
  C14. An accepted configuration gives every key press at most one meaning: two actions never
  fire on the same chord (configured or default), the prefix chord fires none of them and is no
  prefix-namespace chord, two actions never share a chord of the prefix namespace, and the
  reserved chord is bound to nothing.
\<close>

theorem loaded_bindings_unambiguous:
  assumes "load_keybinds raw = Some (Inr kb)"
    and "a \<in> set KEYBIND_ACTIONS" "b \<in> set KEYBIND_ACTIONS" "ka_name a \<noteq> ka_name b"
    and "router_chords kb a = Some as" "router_chords kb b = Some bs"
  shows "set as \<inter> set bs = {} \<and> kb_prefix kb \<notin> Some ` set as
    \<and> reserved_chord \<notin> set as \<and> as \<noteq> []
    \<and> (prefix_assignment kb (ka_name a) = prefix_assignment kb (ka_name b)
        \<longrightarrow> prefix_assignment kb (ka_name a) = None)
    \<and> (kb_prefix kb = prefix_assignment kb (ka_name a) \<longrightarrow> kb_prefix kb = None)"
proof -
  have adm: "keys_admissible raw" "kb = compiled raw" using assms(1) load_iff by auto
  then have u: "unambiguous (kb_prefix kb) (all_router kb) (all_prefix kb)"
    by (simp add: keys_admissible_def)
  have as: "as \<noteq> []" "set as = chords_under (all_router kb) a" and bs: "set bs = chords_under (all_router kb) b"
    using router_chords_under [OF assms(2), of kb] router_chords_under [OF assms(3), of kb] assms(5,6) by auto
  have cross: "c \<notin> chords_under (all_router kb) y"
    if "map_of (all_router kb) (ka_name x) = Some c" "y \<in> set KEYBIND_ACTIONS" "ka_name y \<noteq> ka_name x" for x y c
    using u map_of_SomeD [OF that(1)] that(2,3) by (fastforce simp: unambiguous_def)
  have "set as \<inter> set bs = {}"
    unfolding as bs using cross [of a _ b] cross [of b _ a] assms(2-4) defaults_disjoint [OF assms(2-4)]
    by (fastforce simp: chords_under_def split: option.splits)
  moreover have "kb_prefix kb \<notin> Some ` set as"
  proof
    assume "kb_prefix kb \<in> Some ` set as"
    then obtain p where p: "kb_prefix kb = Some p" "p \<in> chords_under (all_router kb) a" using as(2) by auto
    then have n: "p \<notin> snd ` set (all_router kb)"
      "ka_name a \<in> fst ` set (all_router kb) \<or> p \<notin> set (default_chords_of a)"
      using u assms(2) by (auto simp: unambiguous_def)
    show False
    proof (cases "map_of (all_router kb) (ka_name a)")
      case None
      with p(2) n(2) show False by (simp add: chords_under_def map_of_eq_None_iff)
    next
      case (Some c)
      with p(2) have "(ka_name a, p) \<in> set (all_router kb)"
        by (simp add: chords_under_def map_of_SomeD)
      with n(1) show False by force
    qed
  qed
  moreover have "reserved_chord \<notin> set as"
    unfolding as using admissible_entry [OF adm(1)] adm(2) defaults_not_reserved [OF assms(2)]
    by (auto simp: chords_under_def split: option.splits dest: map_of_SomeD)
  moreover have "prefix_assignment kb (ka_name a) \<noteq> prefix_assignment kb (ka_name b)"
    if "prefix_assignment kb (ka_name a) = Some c" for c
  proof
    assume "prefix_assignment kb (ka_name a) = prefix_assignment kb (ka_name b)"
    with that have m: "(ka_name a, c) \<in> set (all_prefix kb)" "(ka_name b, c) \<in> set (all_prefix kb)"
      by (auto simp: prefix_assignment_map intro: map_of_SomeD)
    have "\<forall>x\<in>set (all_prefix kb). \<forall>y\<in>set (all_prefix kb). fst x \<noteq> fst y \<longrightarrow> snd x \<noteq> snd y"
      using u by (simp add: unambiguous_def)
    from this [THEN bspec, OF m(1), THEN bspec, OF m(2)] assms(4) show False by simp
  qed
  moreover have "kb_prefix kb \<noteq> Some c" if "prefix_assignment kb (ka_name a) = Some c" for c
  proof -
    have "c \<in> snd ` set (all_prefix kb)"
      using that map_of_SomeD by (force simp: prefix_assignment_map)
    with u show ?thesis by (auto simp: unambiguous_def)
  qed
  ultimately show ?thesis
    using as(1) by (cases "prefix_assignment kb (ka_name a)") auto
qed

end
