(* ===== verification/Keybind_File.thy ===== *)
theory Keybind_File
  imports Keybind_Laws
begin

text \<open>
  The round trip of the key bindings through the configuration file: what \<open>write_keys_section\<close>
  puts into a document is read back by \<open>parse_keys\<close> as the same bindings, for any order in which
  the toml library iterates over its tables, and the rest of the document is left alone.
\<close>

section \<open>Tables\<close>

text \<open>A document as the toml library builds it has every key once in every table.\<close>

fun toml_wf :: "toml \<Rightarrow> bool" where
  "toml_wf (Toml_Table t) \<longleftrightarrow> distinct (map fst t) \<and> (\<forall>x\<in>set t. toml_wf (snd x))"
| "toml_wf _ \<longleftrightarrow> True"

lemma toml_insert_fresh:
  assumes "k \<notin> fst ` set t"
  shows "set (toml_insert place k v t) = insert (k, v) (set t)"
    "distinct (map fst (toml_insert place k v t)) \<longleftrightarrow> distinct (map fst t)"
  using assms by (simp_all add: toml_insert_def map_insert_at)

lemma toml_insert_other: "k' \<noteq> k \<Longrightarrow> map_of (toml_insert place k v t) k' = map_of t k'"
proof -
  assume ne: "k' \<noteq> k"
  have "map_of (insert_at i (k, v) t) k' = map_of t k'" for i
  proof -
    have "map_of t k' = map_of (take i t @ drop i t) k'" by simp
    then show ?thesis using ne unfolding insert_at_def map_of_append
      by (simp add: map_add_def split: option.splits)
  qed
  moreover have "map_of (map (\<lambda>(a, w). if a = k then (a, v) else (a, w)) t) k' = map_of t k'"
    using ne by (induction t) auto
  ultimately show ?thesis by (simp add: toml_insert_def)
qed

lemma toml_insert_same: "map_of (toml_insert place k v t) k = Some v"
proof (cases "k \<in> fst ` set t")
  case True
  then have "map_of (map (\<lambda>(a, w). if a = k then (a, v) else (a, w)) t) k = Some v"
    by (induction t) auto
  with True show ?thesis by (simp add: toml_insert_def)
next
  case False
  have "k \<notin> fst ` set (take i t)" for i using False by (auto dest: in_set_takeD)
  then have "map_of (insert_at i (k, v) t) k = Some v" for i
    unfolding insert_at_def map_of_append by (simp add: map_add_def map_of_eq_None_iff [THEN iffD2])
  with False show ?thesis by (simp add: toml_insert_def)
qed

lemma toml_remove_map: "map_of (toml_remove k t) = (map_of t)(k := None)"
  by (induction t) (auto simp: toml_remove_def)

section \<open>Reading\<close>

text \<open>The entries of a section's table.\<close>

fun toml_text :: "toml \<Rightarrow> string" where
  "toml_text (Toml_String s) = s"
| "toml_text _ = []"

fun toml_entries :: "toml \<Rightarrow> toml_table" where
  "toml_entries (Toml_Table t) = t"
| "toml_entries _ = []"

definition texts :: "toml_table \<Rightarrow> (string \<times> string) list" where
  "texts t = map (\<lambda>(k, v). (k, toml_text v)) t"

definition router_texts :: "toml_table \<Rightarrow> (string \<times> string) list" where
  "router_texts t = texts [(k, v) \<leftarrow> t. k \<noteq> ''prefix'']"

definition prefix_texts :: "toml_table \<Rightarrow> (string \<times> string) list" where
  "prefix_texts t = concat (map (\<lambda>(k, v). texts (toml_entries v)) [(k, v) \<leftarrow> t. k = ''prefix''])"

definition raw_of :: "toml_table \<Rightarrow> raw_section" where
  "raw_of t = \<lparr>rs_router = router_texts t, rs_prefix = prefix_texts t\<rparr>"

definition all_strings :: "toml_table \<Rightarrow> bool" where
  "all_strings t \<longleftrightarrow> (\<forall>(k, v)\<in>set t. \<exists>s. v = Toml_String s)"

definition section_shape :: "toml_table \<Rightarrow> bool" where
  "section_shape t \<longleftrightarrow> (\<forall>(k, v)\<in>set t.
     if k = ''prefix'' then \<exists>pt. v = Toml_Table pt \<and> all_strings pt else \<exists>s. v = Toml_String s)"

lemma parse_prefix_table_iff:
  "parse_prefix_table name t = Inr es \<longleftrightarrow> all_strings t \<and> es = texts t"
proof (induction t arbitrary: es)
  case (Cons e t)
  obtain k v where [simp]: "e = (k, v)" by force
  show ?case
  proof (cases "parse_prefix_table name t")
    case (Inl err)
    then have "\<not> all_strings t" using Cons.IH [of "texts t"] by simp
    with Inl show ?thesis by (cases v) (auto simp: all_strings_def)
  next
    case (Inr fs)
    then have "all_strings t" "fs = texts t" using Cons.IH [of fs] by auto
    with Inr show ?thesis by (cases v) (auto simp: all_strings_def texts_def)
  qed
qed (auto simp: all_strings_def texts_def)

lemma parse_section_table_iff:
  "parse_section_table name t sec = Inr sec' \<longleftrightarrow> section_shape t
     \<and> sec' = sec\<lparr>rs_router := rs_router sec @ router_texts t, rs_prefix := rs_prefix sec @ prefix_texts t\<rparr>"
proof (induction t arbitrary: sec)
  case (Cons e t)
  obtain k v where [simp]: "e = (k, v)" by force
  show ?case
  proof (cases "k = ''prefix''")
    case True
    then show ?thesis
    proof (cases v)
      case (Toml_Table pt)
      show ?thesis
      proof (cases "parse_prefix_table name pt")
        case (Inl err)
        then have "\<not> all_strings pt" using parse_prefix_table_iff [of name pt "texts pt"] by simp
        with True Toml_Table Inl show ?thesis by (auto simp: section_shape_def)
      next
        case (Inr es)
        then have "all_strings pt" "es = texts pt" using parse_prefix_table_iff [of name pt es] by auto
        with True Toml_Table Inr Cons show ?thesis
          by (auto simp: section_shape_def router_texts_def prefix_texts_def)
      qed
    qed (auto simp: section_shape_def)
  next
    case False
    then show ?thesis using Cons
      by (cases v) (auto simp: section_shape_def router_texts_def prefix_texts_def texts_def)
  qed
qed (auto simp: section_shape_def router_texts_def prefix_texts_def texts_def)

definition keys_shape :: "toml_table \<Rightarrow> bool" where
  "keys_shape t \<longleftrightarrow> (\<forall>(k, v)\<in>set t.
     if k = ''prefix'' then \<exists>s. v = Toml_String s else \<exists>st. v = Toml_Table st \<and> section_shape st)"

definition sections_of :: "toml_table \<Rightarrow> (string \<times> raw_section) list" where
  "sections_of t = map (\<lambda>(k, v). (k, raw_of (toml_entries v))) [(k, v) \<leftarrow> t. k \<noteq> ''prefix'']"

lemma parse_section_fresh:
  "parse_section_table name t \<lparr>rs_router = [], rs_prefix = []\<rparr> = Inr sec \<longleftrightarrow> section_shape t \<and> sec = raw_of t"
  by (simp add: parse_section_table_iff raw_of_def)

lemma parse_keys_table_iff:
  assumes "distinct (map fst t)"
  shows "parse_keys_table t raw = Inr raw' \<longleftrightarrow> keys_shape t
     \<and> raw' = raw\<lparr>rk_prefix := (case map_of t ''prefix'' of None \<Rightarrow> rk_prefix raw | Some v \<Rightarrow> Some (toml_text v)),
                  rk_sections := rk_sections raw @ sections_of t\<rparr>"
  using assms
proof (induction t arbitrary: raw)
  case (Cons e t)
  obtain k v where [simp]: "e = (k, v)" by force
  show ?case
  proof (cases "k = ''prefix''")
    case True
    then have "map_of t ''prefix'' = None" using Cons.prems by (auto simp: map_of_eq_None_iff)
    with True Cons show ?thesis
      by (cases v) (auto simp: keys_shape_def sections_of_def)
  next
    case False
    then show ?thesis
    proof (cases v)
      case (Toml_Table st)
      show ?thesis
      proof (cases "parse_section_table k st \<lparr>rs_router = [], rs_prefix = []\<rparr>")
        case (Inl err)
        then have "\<not> section_shape st" using parse_section_fresh [of k st "raw_of st"] by simp
        with False Toml_Table Inl show ?thesis by (auto simp: keys_shape_def)
      next
        case (Inr sec)
        then have "section_shape st" "sec = raw_of st" using parse_section_fresh [of k st sec] by auto
        moreover have "keys_shape (e # t) \<longleftrightarrow> keys_shape t" "sections_of (e # t) = (k, sec) # sections_of t"
          using False Toml_Table calculation by (simp_all add: keys_shape_def sections_of_def)
        ultimately show ?thesis
          using False Toml_Table Inr Cons.prems
            Cons.IH [of "raw\<lparr>rk_sections := rk_sections raw @ [(k, sec)]\<rparr>"]
          by (cases "map_of t ''prefix''") (simp_all del: map_of_eq_None_iff)
      qed
    qed (auto simp: keys_shape_def)
  qed
qed (auto simp: keys_shape_def sections_of_def)

section \<open>Bindings as they come from a file\<close>

fun lower_section :: "key_section \<Rightarrow> string" where
  "lower_section Section_Services = ''services''"
| "lower_section Section_Playback = ''playback''"
| "lower_section Section_Display = ''display''"
| "lower_section Section_Session = ''session''"
| "lower_section Section_Library = ''library''"
| "lower_section Section_Queue = ''queue''"
| "lower_section Section_Mpv = ''mpv''"
| "lower_section Section_Feeds = ''feeds''"
| "lower_section Section_Actions = ''actions''"
| "lower_section Section_Global = ''global''"

lemma lower_section_name:
  "to_ascii_lowercase (section_name s) = lower_section s"
  "to_ascii_lowercase (lower_section s) = lower_section s"
proof -
  have "list_all (\<lambda>s. to_ascii_lowercase (section_name s) = lower_section s
      \<and> to_ascii_lowercase (lower_section s) = lower_section s) KEY_SECTIONS"
    by code_simp
  moreover have "s \<in> set KEY_SECTIONS" by (cases s) (simp_all add: KEY_SECTIONS_def)
  ultimately show "to_ascii_lowercase (section_name s) = lower_section s"
    "to_ascii_lowercase (lower_section s) = lower_section s" by (auto simp: list_all_iff)
qed

lemma lower_section_inject [simp]: "lower_section s = lower_section t \<longleftrightarrow> s = t"
  by (cases s; cases t) simp_all

lemma lower_section_prefix [simp]: "lower_section s \<noteq> ''prefix''" "''prefix'' \<noteq> lower_section s"
  by (cases s; simp)+

lemma section_from_name_iff:
  "section_from_name name = Some s \<longleftrightarrow> to_ascii_lowercase name = lower_section s"
proof
  assume "to_ascii_lowercase name = lower_section s"
  then show "section_from_name name = Some s"
    by (cases s) (simp_all add: section_from_name_def eq_ignore_ascii_case_def lower_section_name
        KEY_SECTIONS_def del: section_name.simps)
qed (auto simp: section_from_name_def eq_ignore_ascii_case_def lower_section_name dest!: find_in_set)

text \<open>Bindings with every section and every name once, each name in its own section. Compiling an
  admissible file with distinct keys gives such bindings.\<close>

definition names_ok :: "key_section \<Rightarrow> (string \<times> chord) list \<Rightarrow> bool" where
  "names_ok sec es \<longleftrightarrow> distinct (map fst es)
     \<and> (\<forall>(n, c)\<in>set es. \<exists>a. action_by_id n = Some a \<and> ka_section a = sec)"

definition kb_clean :: "keybinds \<Rightarrow> bool" where
  "kb_clean kb \<longleftrightarrow> distinct (map fst (kb_sections kb))
     \<and> (\<forall>(sec, b)\<in>set (kb_sections kb). names_ok sec (sb_router b) \<and> names_ok sec (sb_prefix b))"

lemma names_ok_action:
  "names_ok sec es \<Longrightarrow> (n, c) \<in> set es \<Longrightarrow> \<exists>a. action_by_id n = Some a \<and> ka_section a = sec"
  unfolding names_ok_def by fast

lemma names_ok_distinct:
  assumes "distinct (map fst ss)" "\<forall>(sec, b)\<in>set ss. names_ok sec (f b)"
  shows "distinct (map fst (concat (map (f \<circ> snd) ss)))"
  using assms
proof (induction ss)
  case (Cons s ss)
  obtain sec b where [simp]: "s = (sec, b)" by force
  have "fst ` set (f b) \<inter> fst ` set (concat (map (f \<circ> snd) ss)) = {}"
  proof (rule ccontr)
    assume "\<not> ?thesis"
    then obtain n c d sec' b' where n: "(n, c) \<in> set (f b)" "(sec', b') \<in> set ss" "(n, d) \<in> set (f b')"
      by fastforce
    then have ok: "names_ok sec (f b)" "names_ok sec' (f b')" using Cons.prems(2) by auto
    obtain a where "action_by_id n = Some a" "ka_section a = sec"
      using names_ok_action [OF ok(1) n(1)] by blast
    moreover obtain a' where "action_by_id n = Some a'" "ka_section a' = sec'"
      using names_ok_action [OF ok(2) n(3)] by blast
    ultimately have "sec = sec'" by simp
    with n(2) Cons.prems(1) show False by force
  qed
  moreover have "distinct (map fst (f b))" using Cons.prems(2) by (auto simp: names_ok_def)
  ultimately show ?case using Cons by auto
qed simp

lemma kb_clean_distinct:
  assumes "kb_clean kb"
  shows "distinct (map fst (all_router kb))" "distinct (map fst (all_prefix kb))"
  unfolding all_router_sections using assms
  by (auto simp: kb_clean_def intro!: names_ok_distinct)

lemma compiled_entries_names: "distinct (map fst es) \<Longrightarrow> distinct (map fst (compiled_entries es))"
  by (auto simp: compiled_entries_def live_def comp_def case_prod_unfold distinct_map inj_on_def
      intro!: distinct_filter)

lemma compiled_names_ok:
  assumes "distinct (map fst es)" "\<forall>e\<in>set (live es). entry_ok name e" "section_from_name name = Some sec"
  shows "names_ok sec (compiled_entries es)"
proof -
  have "\<exists>a. action_by_id n = Some a \<and> ka_section a = sec" if "(n, c) \<in> set (compiled_entries es)" for n c
    using compiled_member(3) [OF that assms(2)] assms(3)
    by (auto simp: eq_ignore_ascii_case_def lower_section_name section_from_name_iff)
  with compiled_entries_names [OF assms(1)] show ?thesis by (auto simp: names_ok_def)
qed

lemma compiled_clean:
  assumes "distinct (lower_names (rk_sections raw))" "\<forall>s\<in>set (rk_sections raw). section_ok s"
    and "\<forall>(name, rs)\<in>set (rk_sections raw). distinct (map fst (rs_router rs)) \<and> distinct (map fst (rs_prefix rs))"
  shows "kb_clean (compiled raw)"
proof -
  let ?ss = "rk_sections raw"
  have n: "map fst (map compiled_section ?ss) = map (\<lambda>s. the (section_from_name (fst s))) ?ss"
    by (auto simp: compiled_section_def)
  have "lower_section (the (section_from_name (fst s))) = to_ascii_lowercase (fst s)" if "s \<in> set ?ss" for s
  proof -
    have "section_ok s" using assms(2) that by blast
    then obtain sec where "section_from_name (fst s) = Some sec"
      by (auto simp: section_ok_def split: prod.splits)
    then show ?thesis using section_from_name_iff [of "fst s" sec] by simp
  qed
  then have "map lower_section (map fst (map compiled_section ?ss)) = lower_names ?ss"
    unfolding n by (auto simp: lower_names_def)
  then have "distinct (map fst (map compiled_section ?ss))"
    using assms(1) by (metis distinct_map)
  moreover have "names_ok sec (sb_router b) \<and> names_ok sec (sb_prefix b)"
    if "(sec, b) \<in> set (map compiled_section ?ss)" for sec b
  proof -
    have "(sec, b) \<in> compiled_section ` set ?ss" using that by simp
    then obtain s0 where s0: "s0 \<in> set ?ss" "compiled_section s0 = (sec, b)" by (auto elim!: imageE)
    obtain name rs where "s0 = (name, rs)" by force
    with s0 have s: "(name, rs) \<in> set ?ss" "compiled_section (name, rs) = (sec, b)" by simp_all
    with assms(2) have ok: "section_ok (name, rs)" by blast
    then have "section_from_name name = Some sec" using s(2) by (auto simp: section_ok_def compiled_section_def)
    with s assms(3) ok show ?thesis
      by (fastforce simp: compiled_section_def section_ok_def intro!: compiled_names_ok)
  qed
  moreover have "kb_sections (compiled raw) = map compiled_section ?ss" by (simp add: compiled_def)
  ultimately show ?thesis by (auto simp: kb_clean_def simp del: set_map map_map list.set_map)
qed

section \<open>Writing\<close>

lemma names_ok_not_prefix: "names_ok sec es \<Longrightarrow> ''prefix'' \<notin> fst ` set es"
proof
  assume n: "names_ok sec es" and "''prefix'' \<in> fst ` set es"
  then obtain c where "(''prefix'', c) \<in> set es" by auto
  then have "\<exists>a. action_by_id ''prefix'' = Some a" using names_ok_action [OF n] by blast
  then show False by (simp add: action_by_id_def KEYBIND_ACTIONS_def declare_action_def)
qed

lemma names_ok_not_retired: "names_ok sec es \<Longrightarrow> (n, c) \<in> set es \<Longrightarrow> \<not> skip_retired_action n"
proof
  assume n: "names_ok sec es" "(n, c) \<in> set es" and r: "skip_retired_action n"
  then have "\<exists>a. action_by_id n = Some a" using names_ok_action [OF n] by blast
  with r show False
    by (simp add: skip_retired_action_def RETIRED_ACTION_IDS_def action_by_id_def KEYBIND_ACTIONS_def
        declare_action_def)
qed

definition shown :: "(string \<times> chord) list \<Rightarrow> (string \<times> toml) set" where
  "shown es = (\<lambda>(n, c). (n, Toml_String (chord_display c))) ` set es"

lemma fold_chord_table:
  assumes "distinct (map fst es)" "fst ` set es \<inter> fst ` set t = {}" "distinct (map fst t)"
  shows "set (fold (\<lambda>(name, c) t. toml_insert place name (Toml_String (chord_display c)) t) es t)
      = shown es \<union> set t
    \<and> distinct (map fst (fold (\<lambda>(name, c) t. toml_insert place name (Toml_String (chord_display c)) t) es t))"
  using assms
proof (induction es arbitrary: t)
  case (Cons e es)
  obtain n c where [simp]: "e = (n, c)" by force
  have "n \<notin> fst ` set t" using Cons.prems(2) by auto
  note fresh = toml_insert_fresh [OF this, of place "Toml_String (chord_display c)"]
  have "fst ` set es \<inter> fst ` set (toml_insert place n (Toml_String (chord_display c)) t) = {}"
    unfolding fresh(1) using Cons.prems by auto
  with Cons show ?case by (auto simp: fresh shown_def)
qed (simp add: shown_def)

lemma chord_table_set:
  assumes "distinct (map fst es)"
  shows "set (chord_table place es) = shown es" "distinct (map fst (chord_table place es))"
  using fold_chord_table [of es "[]" place] assms by (simp_all add: chord_table_def)

lemma section_table_set:
  assumes "names_ok sec (sb_router b)" "names_ok sec (sb_prefix b)"
  shows "set (section_table place b) = shown (sb_router b)
      \<union> (if sb_prefix b = [] then {} else {(''prefix'', Toml_Table (chord_table place (sb_prefix b)))})"
    "distinct (map fst (section_table place b))"
proof -
  have d: "distinct (map fst (sb_router b))" using assms(1) by (simp add: names_ok_def)
  have "''prefix'' \<notin> fst ` set (chord_table place (sb_router b))"
    using names_ok_not_prefix [OF assms(1)] unfolding chord_table_set(1) [OF d] shown_def by force
  note fresh = toml_insert_fresh [OF this, of place "Toml_Table (chord_table place (sb_prefix b))"]
  show "set (section_table place b) = shown (sb_router b)
      \<union> (if sb_prefix b = [] then {} else {(''prefix'', Toml_Table (chord_table place (sb_prefix b)))})"
    "distinct (map fst (section_table place b))"
    by (auto simp: section_table_def Let_def fresh chord_table_set [OF d])
qed

definition filled :: "section_bindings \<Rightarrow> bool" where
  "filled b \<longleftrightarrow> \<not> (sb_router b = [] \<and> sb_prefix b = [])"

definition written_sections :: "toml_order \<Rightarrow> (key_section \<times> section_bindings) list \<Rightarrow> (string \<times> toml) set" where
  "written_sections place ss =
     (\<lambda>(sec, b). (lower_section sec, Toml_Table (section_table place b))) ` {s \<in> set ss. filled (snd s)}"

lemma fold_write_sections:
  assumes "distinct (map fst ss)" "lower_section ` fst ` set ss \<inter> fst ` set t = {}" "distinct (map fst t)"
  shows "set (fold (write_section place) ss t) = written_sections place ss \<union> set t
    \<and> distinct (map fst (fold (write_section place) ss t))"
  using assms
proof (induction ss arbitrary: t)
  case (Cons s ss)
  obtain sec b where [simp]: "s = (sec, b)" by force
  show ?case
  proof (cases "filled b")
    case True
    have "lower_section sec \<notin> fst ` set t" using Cons.prems(2) by auto
    note fresh = toml_insert_fresh [OF this, of place "Toml_Table (section_table place b)"]
    let ?t = "toml_insert place (lower_section sec) (Toml_Table (section_table place b)) t"
    have "write_section place s t = ?t"
      using True by (auto simp: write_section_def filled_def lower_section_name)
    moreover have "lower_section ` fst ` set ss \<inter> fst ` set ?t = {}"
      unfolding fresh(1) using Cons.prems by force
    moreover have "written_sections place (s # ss) =
        insert (lower_section sec, Toml_Table (section_table place b)) (written_sections place ss)"
      using True by (auto simp: written_sections_def)
    ultimately show ?thesis using Cons by (simp add: fresh)
  next
    case False
    then have "write_section place s t = t" "written_sections place (s # ss) = written_sections place ss"
      by (auto simp: write_section_def filled_def written_sections_def)
    with Cons show ?thesis by simp
  qed
qed (simp add: written_sections_def)

definition keys_table :: "toml_order \<Rightarrow> keybinds \<Rightarrow> toml_table" where
  "keys_table place kb =
     fold (write_section place) (kb_sections kb)
       (case kb_prefix kb of
          None \<Rightarrow> []
        | Some c \<Rightarrow> toml_insert place ''prefix'' (Toml_String (chord_display c)) [])"

lemma keys_table_set:
  assumes "kb_clean kb"
  shows "set (keys_table place kb) = written_sections place (kb_sections kb)
      \<union> (case kb_prefix kb of None \<Rightarrow> {} | Some c \<Rightarrow> {(''prefix'', Toml_String (chord_display c))})"
    "distinct (map fst (keys_table place kb))"
proof -
  have d: "distinct (map fst (kb_sections kb))" using assms by (simp add: kb_clean_def)
  have l: "''prefix'' \<notin> lower_section ` fst ` set (kb_sections kb)"
    by (metis imageE lower_section_prefix(2))
  have f: "set (toml_insert place ''prefix'' v []) = {(''prefix'', v)}"
    "distinct (map fst (toml_insert place ''prefix'' v []))" for v
    using toml_insert_fresh [of "''prefix''" "[]" place v] by simp_all
  show "set (keys_table place kb) = written_sections place (kb_sections kb)
      \<union> (case kb_prefix kb of None \<Rightarrow> {} | Some c \<Rightarrow> {(''prefix'', Toml_String (chord_display c))})"
    "distinct (map fst (keys_table place kb))"
    using fold_write_sections [OF d, of "[]" place] l
      fold_write_sections [OF d, of "toml_insert place ''prefix'' (Toml_String (chord_display (the (kb_prefix kb)))) []" place]
    by (auto simp: keys_table_def f split: option.splits)
qed

section \<open>Reading what was written\<close>

definition entry_readable :: "string \<times> chord \<Rightarrow> bool" where
  "entry_readable e \<longleftrightarrow> chord_expressible (snd e) \<and> snd e \<noteq> reserved_chord"

definition kb_readable :: "keybinds \<Rightarrow> bool" where
  "kb_readable kb \<longleftrightarrow>
     (\<forall>s\<in>set (kb_sections kb). (\<forall>e\<in>set (sb_router (snd s)). entry_readable e)
        \<and> (\<forall>e\<in>set (sb_prefix (snd s)). entry_readable e \<and> addressable (fst e)))
   \<and> (\<forall>p. kb_prefix kb = Some p \<longrightarrow> chord_expressible p \<and> p \<noteq> reserved_chord)"

lemma compiled_readable:
  assumes "e \<in> set (compiled_entries es)" "\<forall>x\<in>set (live es). entry_ok name x"
  shows "entry_readable e"
  using compiled_member(1,2) [of "fst e" "snd e" es name] assms by (simp add: entry_readable_def)

lemma admissible_readable:
  assumes "keys_admissible raw" shows "kb_readable (compiled raw)"
proof -
  have "(\<forall>e\<in>set (sb_router (snd (compiled_section s))). entry_readable e)
    \<and> (\<forall>e\<in>set (sb_prefix (snd (compiled_section s))). entry_readable e \<and> addressable (fst e))"
    if "s \<in> set (rk_sections raw)" for s
  proof -
    obtain name rs where [simp]: "s = (name, rs)" by force
    have "section_ok s" using assms that by (auto simp: keys_admissible_def)
    then have r: "\<forall>e\<in>set (live (rs_router rs)). entry_ok name e"
      and p: "\<forall>e\<in>set (live (rs_prefix rs)). entry_ok name e" "\<forall>e\<in>set (live (rs_prefix rs)). addressable (fst e)"
      by (simp_all add: section_ok_def)
    from p(2) have "addressable (fst e)" if "e \<in> set (compiled_entries (rs_prefix rs))" for e
      using that by (auto simp: compiled_entries_def)
    then show ?thesis using compiled_readable [OF _ r] compiled_readable [OF _ p(1)]
      by (simp add: compiled_section_def)
  qed
  moreover have "chord_expressible p \<and> p \<noteq> reserved_chord" if "kb_prefix (compiled raw) = Some p" for p
  proof -
    have "map_option (\<lambda>t. projr (chord_parse t)) (rk_prefix raw) = Some p"
      using that by (simp add: compiled_def)
    then obtain t where t: "rk_prefix raw = Some t" "p = projr (chord_parse t)" by auto
    then obtain c where "chord_parse t = Inr c" "c \<noteq> reserved_chord"
      using assms by (auto simp: keys_admissible_def text_ok_def)
    with t(2) chord_parse_expressible [of t c] show ?thesis by simp
  qed
  ultimately show ?thesis by (auto simp: kb_readable_def compiled_def)
qed

lemma texts_set: "set (texts t) = (\<lambda>(k, v). (k, toml_text v)) ` set t"
  by (simp add: texts_def)

lemma texts_names: "map fst (texts t) = map fst t"
  by (auto simp: texts_def)

lemma prefix_texts_map:
  "distinct (map fst t) \<Longrightarrow>
    prefix_texts t = (case map_of t ''prefix'' of None \<Rightarrow> [] | Some v \<Rightarrow> texts (toml_entries v))"
proof (induction t)
  case (Cons e t)
  obtain k v where [simp]: "e = (k, v)" by force
  have "k = ''prefix'' \<Longrightarrow> map_of t ''prefix'' = None" using Cons.prems by (simp add: map_of_eq_None_iff)
  with Cons show ?case by (auto simp: prefix_texts_def simp del: map_of_eq_None_iff)
qed (simp add: prefix_texts_def)

definition displayed :: "string \<times> chord \<Rightarrow> string \<times> string" where
  "displayed e = (fst e, chord_display (snd e))"

lemma shown_texts: "(\<lambda>(k, v). (k, toml_text v)) ` shown es = displayed ` set es"
  by (force simp: shown_def displayed_def image_image)

lemma shown_names: "fst ` shown es = fst ` set es"
  by (force simp: shown_def)

text \<open>A section's table is read back as the section's entries.\<close>

lemma section_read:
  assumes "names_ok sec (sb_router b)" "names_ok sec (sb_prefix b)"
  shows "section_shape (section_table place b)"
    "set (rs_router (raw_of (section_table place b))) = displayed ` set (sb_router b)"
    "set (rs_prefix (raw_of (section_table place b))) = displayed ` set (sb_prefix b)"
    "distinct (map fst (rs_router (raw_of (section_table place b))))"
    "distinct (map fst (rs_prefix (raw_of (section_table place b))))"
proof -
  let ?t = "section_table place b" and ?pt = "chord_table place (sb_prefix b)"
  note t = section_table_set [OF assms, of place]
  have dp: "distinct (map fst (sb_prefix b))" using assms(2) by (simp add: names_ok_def)
  note pt = chord_table_set [OF dp, of place]
  have n: "''prefix'' \<notin> fst ` shown (sb_router b)"
    unfolding shown_names by (rule names_ok_not_prefix [OF assms(1)])
  have "all_strings ?pt" using pt(1) by (auto simp: all_strings_def shown_def)
  moreover have "k \<noteq> ''prefix'' \<and> (\<exists>s. v = Toml_String s)" if "(k, v) \<in> shown (sb_router b)" for k v
    using n that by (force simp: shown_def)
  ultimately show "section_shape ?t" unfolding section_shape_def t(1) by (auto split: if_splits)
  have "set [(k, v) \<leftarrow> ?t. k \<noteq> ''prefix''] = shown (sb_router b)"
    using n t(1) by (auto simp: image_iff split: if_splits)
  then show "set (rs_router (raw_of ?t)) = displayed ` set (sb_router b)"
    by (simp add: raw_of_def router_texts_def texts_set shown_texts)
  show "distinct (map fst (rs_router (raw_of ?t)))"
    using t(2) by (simp add: raw_of_def router_texts_def texts_names distinct_map_filter)
  have m: "map_of ?t ''prefix'' = (if sb_prefix b = [] then None else Some (Toml_Table ?pt))"
  proof (cases "sb_prefix b = []")
    case True
    then show ?thesis using n t(1) by (auto simp: map_of_eq_None_iff)
  next
    case False
    then show ?thesis using t by (auto intro!: map_of_is_SomeI)
  qed
  show "set (rs_prefix (raw_of ?t)) = displayed ` set (sb_prefix b)"
    by (simp add: raw_of_def prefix_texts_map [OF t(2)] m texts_set pt(1) shown_texts)
  show "distinct (map fst (rs_prefix (raw_of ?t)))"
    by (simp add: raw_of_def prefix_texts_map [OF t(2)] m texts_names pt(2))
qed

lemma compiled_displayed:
  assumes "set es = displayed ` set cs" "\<forall>e\<in>set cs. entry_readable e" "names_ok sec cs"
  shows "set (compiled_entries es) = set cs" "\<forall>x\<in>set (live es). entry_ok (lower_section sec) x"
    "\<forall>x\<in>set (live es). x \<in> displayed ` set cs"
proof -
  have live: "set (live es) = displayed ` set cs"
    using assms(1) names_ok_not_retired [OF assms(3)] by (auto simp: live_def displayed_def)
  have p: "chord_parse (chord_display c) = Inr c" if "(n, c) \<in> set cs" for n c
    using assms(2) that display_parse by (auto simp: entry_readable_def)
  then show "set (compiled_entries es) = set cs"
    by (force simp: compiled_entries_def live displayed_def image_image)
  show "\<forall>x\<in>set (live es). entry_ok (lower_section sec) x"
  proof
    fix x assume "x \<in> set (live es)"
    then obtain n c where c: "(n, c) \<in> set cs" "x = (n, chord_display c)"
      using live by (auto simp: displayed_def)
    moreover obtain a where "action_by_id n = Some a" "ka_section a = sec"
      using names_ok_action [OF assms(3) c(1)] by blast
    ultimately show "entry_ok (lower_section sec) x"
      using assms(2) p [OF c(1)]
      by (force simp: entry_ok_def eq_ignore_ascii_case_def lower_section_name text_ok_def entry_readable_def)
  qed
  show "\<forall>x\<in>set (live es). x \<in> displayed ` set cs" using live by simp
qed

definition written_raw :: "toml_order \<Rightarrow> keybinds \<Rightarrow> raw_keybinds" where
  "written_raw place kb =
     \<lparr>rk_prefix = map_option chord_display (kb_prefix kb), rk_sections = sections_of (keys_table place kb)\<rparr>"

lemma sections_written:
  assumes "kb_clean kb"
  shows "set (sections_of (keys_table place kb)) =
    (\<lambda>(sec, b). (lower_section sec, raw_of (section_table place b))) ` {s \<in> set (kb_sections kb). filled (snd s)}"
    "distinct (map fst (sections_of (keys_table place kb)))"
proof -
  note k = keys_table_set [OF assms, of place]
  have "set [(k, v) \<leftarrow> keys_table place kb. k \<noteq> ''prefix''] = written_sections place (kb_sections kb)"
  proof -
    have "k \<noteq> ''prefix''" if "(k, v) \<in> written_sections place (kb_sections kb)" for k v
      using that by (auto simp: written_sections_def)
    then show ?thesis using k(1) by (auto split: option.splits)
  qed
  then show "set (sections_of (keys_table place kb)) =
    (\<lambda>(sec, b). (lower_section sec, raw_of (section_table place b))) ` {s \<in> set (kb_sections kb). filled (snd s)}"
    by (force simp: sections_of_def written_sections_def image_image case_prod_unfold)
  have "map fst (sections_of t) = map fst [(k, v) \<leftarrow> t. k \<noteq> ''prefix'']" for t
    by (auto simp: sections_of_def)
  then show "distinct (map fst (sections_of (keys_table place kb)))"
    using k(2) by (simp add: distinct_map_filter)
qed

lemma written_parsed:
  assumes "kb_clean kb"
  shows "parse_raw_keybinds (Toml_Table (keys_table place kb)) = Inr (written_raw place kb)"
proof -
  note k = keys_table_set [OF assms, of place]
  have "section_shape (section_table place b)" if "(sec, b) \<in> set (kb_sections kb)" for sec b
    using assms that section_read(1) by (fastforce simp: kb_clean_def)
  then have "keys_shape (keys_table place kb)"
    unfolding keys_shape_def k(1) by (auto simp: written_sections_def split: option.splits)
  moreover have "map_of (keys_table place kb) ''prefix'' =
    map_option (\<lambda>c. Toml_String (chord_display c)) (kb_prefix kb)"
  proof (cases "kb_prefix kb")
    case None
    then have "''prefix'' \<notin> fst ` set (keys_table place kb)"
      unfolding k(1) by (auto simp: written_sections_def)
    then show ?thesis using None by (simp add: map_of_eq_None_iff)
  next
    case (Some c)
    then show ?thesis using k by (auto intro!: map_of_is_SomeI)
  qed
  ultimately show ?thesis
    by (cases "kb_prefix kb") (simp_all add: parse_raw_keybinds_def parse_keys_table_iff [OF k(2)] written_raw_def)
qed

text \<open>The compiled section of a written one holds the same entries.\<close>

lemma written_section:
  fixes place :: toml_order
  assumes "kb_clean kb" "kb_readable kb" "(sec, b) \<in> set (kb_sections kb)"
  defines "s \<equiv> (lower_section sec, raw_of (section_table place b))"
  shows "section_ok s" "fst (compiled_section s) = sec"
    "set (sb_router (snd (compiled_section s))) = set (sb_router b)"
    "set (sb_prefix (snd (compiled_section s))) = set (sb_prefix b)"
proof -
  have ok: "names_ok sec (sb_router b)" "names_ok sec (sb_prefix b)"
    using assms(1,3) by (auto simp: kb_clean_def)
  have r: "\<forall>e\<in>set (sb_router b). entry_readable e" "\<forall>e\<in>set (sb_prefix b). entry_readable e"
    "\<forall>e\<in>set (sb_prefix b). addressable (fst e)"
    using assms(2,3) by (force simp: kb_readable_def)+
  note t = section_read [OF ok, of place]
  note cr = compiled_displayed [OF t(2) r(1) ok(1)] and cp = compiled_displayed [OF t(3) r(2) ok(2)]
  have sec: "section_from_name (lower_section sec) = Some sec"
    by (simp add: section_from_name_iff lower_section_name)
  have "\<forall>x\<in>set (live (rs_prefix (raw_of (section_table place b)))). addressable (fst x)"
  proof
    fix x assume "x \<in> set (live (rs_prefix (raw_of (section_table place b))))"
    then have "x \<in> displayed ` set (sb_prefix b)" using cp(3) by blast
    then obtain e where "e \<in> set (sb_prefix b)" "fst x = fst e" by (auto simp: displayed_def)
    with r(3) show "addressable (fst x)" by auto
  qed
  with cr(2) cp(2) sec show "section_ok s" by (simp add: s_def section_ok_def)
  show "fst (compiled_section s) = sec"
    "set (sb_router (snd (compiled_section s))) = set (sb_router b)"
    "set (sb_prefix (snd (compiled_section s))) = set (sb_prefix b)"
    using sec cr(1) cp(1) by (simp_all add: s_def compiled_section_def)
qed

lemma written_back:
  fixes place :: toml_order
  assumes "kb_clean kb" "kb_readable kb" "unambiguous (kb_prefix kb) (all_router kb) (all_prefix kb)"
  defines "raw \<equiv> written_raw place kb"
  shows "keys_admissible raw \<and> kb_prefix (compiled raw) = kb_prefix kb
    \<and> map_of (all_router (compiled raw)) = map_of (all_router kb)
    \<and> map_of (all_prefix (compiled raw)) = map_of (all_prefix kb)"
proof -
  let ?ss = "{s \<in> set (kb_sections kb). filled (snd s)}"
  let ?w = "\<lambda>(sec, b). (lower_section sec, raw_of (section_table place b))"
  have ss: "set (rk_sections raw) = ?w ` ?ss" and d: "distinct (map fst (rk_sections raw))"
    using sections_written [OF assms(1)] by (simp_all add: raw_def written_raw_def)
  have "map fst (rk_sections raw) = lower_names (rk_sections raw)"
    unfolding lower_names_def using ss by (auto simp: lower_section_name)
  with d have d': "distinct (lower_names (rk_sections raw))" by simp
  have ok: "\<forall>s\<in>set (rk_sections raw). section_ok s"
    unfolding ss using written_section(1) [OF assms(1,2)] by auto
  have dn: "\<forall>(name, rs)\<in>set (rk_sections raw). distinct (map fst (rs_router rs)) \<and> distinct (map fst (rs_prefix rs))"
    unfolding ss using assms(1) section_read(4,5) by (fastforce simp: kb_clean_def)
  note clean = compiled_clean [OF d' ok dn]
  have eq: "concat_set f (kb_sections (compiled raw)) = concat_set f (kb_sections kb)"
    if "\<And>sec b. (sec, b) \<in> set (kb_sections kb) \<Longrightarrow> f (snd (compiled_section (?w (sec, b)))) = f b"
      "\<And>b. \<not> filled b \<Longrightarrow> f b = {}"
      and "concat_set = (\<lambda>f ss. \<Union>s\<in>set ss. f (snd s))" for f :: "section_bindings \<Rightarrow> (string \<times> chord) set" and concat_set
  proof -
    have "(\<Union>s\<in>set (kb_sections (compiled raw)). f (snd s)) = (\<Union>s\<in>?ss. f (snd (compiled_section (?w s))))"
      by (simp add: compiled_def ss)
    also have "\<dots> = (\<Union>s\<in>?ss. f (snd s))" using that(1) by (force intro!: SUP_cong)
    also have "\<dots> = (\<Union>s\<in>set (kb_sections kb). f (snd s))" using that(2) by auto
    finally show ?thesis by (simp add: that(3))
  qed
  have "set (all_router (compiled raw)) = set (all_router kb)"
    using eq [of "\<lambda>b. set (sb_router b)"] written_section(3) [OF assms(1,2)]
    by (simp add: all_router_sections filled_def)
  moreover have "set (all_prefix (compiled raw)) = set (all_prefix kb)"
    using eq [of "\<lambda>b. set (sb_prefix b)"] written_section(4) [OF assms(1,2)]
    by (simp add: all_router_sections filled_def)
  ultimately have m: "map_of (all_router (compiled raw)) = map_of (all_router kb)"
    "map_of (all_prefix (compiled raw)) = map_of (all_prefix kb)"
    "set (all_router (compiled raw)) = set (all_router kb)"
    "set (all_prefix (compiled raw)) = set (all_prefix kb)"
    using kb_clean_distinct [OF clean] kb_clean_distinct [OF assms(1)] by (simp_all add: map_of_inject_set)
  have p: "kb_prefix (compiled raw) = kb_prefix kb" and t: "\<forall>t. rk_prefix raw = Some t \<longrightarrow> text_ok t"
    using assms(2) display_parse
    by (auto simp: compiled_def raw_def written_raw_def kb_readable_def text_ok_def option.map_comp
        comp_def intro!: option.map_ident_strong)
  have "unambiguous (kb_prefix (compiled raw)) (all_router (compiled raw)) (all_prefix (compiled raw))"
    using assms(3) unfolding unambiguous_def chords_under_def m p by simp
  with d' ok t p m show ?thesis by (simp add: keys_admissible_def)
qed

text \<open>What a document says about its keys.\<close>

lemma map_sum_Inr_id: "map_sum f (\<lambda>x. x) z = Inr y \<longleftrightarrow> z = Inr y"
  by (cases z) auto

lemma parse_keys_accepts:
  assumes "parse_keys doc = Some (Inr kb)" "toml_wf (Toml_Table doc)"
  shows "kb_clean kb \<and> kb_readable kb \<and> unambiguous (kb_prefix kb) (all_router kb) (all_prefix kb)"
proof (cases "map_of doc ''keys''")
  case None
  then have "kb = keybinds_defaults" using assms(1) by (simp add: parse_keys_def)
  then show ?thesis
    by (simp add: keybinds_defaults_def kb_clean_def kb_readable_def unambiguous_def all_router_def all_prefix_def)
next
  case (Some keys)
  then obtain raw where raw: "parse_raw_keybinds keys = Inr raw" "load_keybinds raw = Some (Inr kb)"
    using assms(1) by (auto simp: parse_keys_def map_sum_Inr_id split: sum.splits option.splits)
  then obtain t where t: "keys = Toml_Table t" by (cases keys) (auto simp: parse_raw_keybinds_def)
  have "toml_wf keys" using assms(2) map_of_SomeD [OF Some] by force
  then have d: "distinct (map fst t)" and wf: "\<forall>x\<in>set t. toml_wf (snd x)" by (simp_all add: t)
  have p: "keys_shape t" "rk_sections raw = sections_of t"
    using raw(1) by (auto simp: t parse_raw_keybinds_def parse_keys_table_iff [OF d])
  have adm: "keys_admissible raw" "kb = compiled raw" using raw(2) load_iff by auto
  have "distinct (map fst (rs_router rs)) \<and> distinct (map fst (rs_prefix rs))"
    if s: "(name, rs) \<in> set (rk_sections raw)" for name rs
  proof -
    obtain st where st: "(name, Toml_Table st) \<in> set t" "rs = raw_of st"
      using s p by (fastforce simp: sections_of_def keys_shape_def split: if_splits)
    then have w: "distinct (map fst st)" "\<forall>x\<in>set st. toml_wf (snd x)" using wf by force+
    have "distinct (map fst (texts (toml_entries v)))" if "map_of st ''prefix'' = Some v" for v
      using bspec [OF w(2) map_of_SomeD [OF that]] by (cases v) (simp_all add: texts_names)
    with w(1) show ?thesis
      by (auto simp: st(2) raw_of_def router_texts_def texts_names distinct_map_filter prefix_texts_map
          split: option.splits)
  qed
  then have "kb_clean kb" using adm by (auto simp: keys_admissible_def intro!: compiled_clean)
  moreover have "unambiguous (kb_prefix kb) (all_router kb) (all_prefix kb)"
    using adm by (simp add: keys_admissible_def)
  ultimately show ?thesis using admissible_readable adm by simp
qed

text \<open>
  C13. Saving keeps the key bindings. When the bindings come from a document, writing them back
  into it (in whatever order the toml tables iterate) gives a document that is read as bindings
  with the same prefix, the same chord for every overridden action and the same prefix-namespace
  assignments; no other entry of the document changes, and the table goes when nothing is left
  to write.
\<close>

theorem keys_file_round_trip:
  assumes "parse_keys doc = Some (Inr kb)" "toml_wf (Toml_Table doc)"
  shows "\<exists>kb'. parse_keys (write_keys_section place kb doc) = Some (Inr kb')
    \<and> kb_prefix kb' = kb_prefix kb \<and> router_override kb' = router_override kb
    \<and> prefix_assignment kb' = prefix_assignment kb
    \<and> (\<forall>k. k \<noteq> ''keys'' \<longrightarrow> map_of (write_keys_section place kb doc) k = map_of doc k)"
proof -
  let ?keys = "keys_table place kb" and ?raw = "written_raw place kb"
  have kb: "kb_clean kb" "kb_readable kb" "unambiguous (kb_prefix kb) (all_router kb) (all_prefix kb)"
    using parse_keys_accepts [OF assms] by auto
  note again = written_back [OF kb, of place]
  have w: "write_keys_section place kb doc =
    (if ?keys = [] then toml_remove ''keys'' doc else toml_insert place ''keys'' (Toml_Table ?keys) doc)"
    by (simp add: write_keys_section_def keys_table_def)
  have same: "router_override (compiled ?raw) = router_override kb"
    "prefix_assignment (compiled ?raw) = prefix_assignment kb"
    using again by (auto simp: router_override_map prefix_assignment_map)
  have other: "\<forall>k. k \<noteq> ''keys'' \<longrightarrow> map_of (write_keys_section place kb doc) k = map_of doc k"
    unfolding w by (simp add: toml_insert_other toml_remove_map)
  show ?thesis
  proof (cases "?keys = []")
    case False
    then have "parse_keys (write_keys_section place kb doc) = Some (Inr (compiled ?raw))"
      using written_parsed [OF kb(1), of place] again load_iff(2) [of ?raw "compiled ?raw"]
      by (simp add: w parse_keys_def toml_insert_same)
    with same other again show ?thesis by blast
  next
    case True
    then have "compiled ?raw = \<lparr>kb_prefix = kb_prefix (compiled ?raw), kb_sections = []\<rparr>"
      by (simp add: compiled_def written_raw_def sections_of_def)
    moreover have "kb_prefix kb = None"
      using keys_table_set(1) [OF kb(1), of place] True by (auto split: option.splits)
    ultimately have "compiled ?raw = keybinds_defaults" using again by (simp add: keybinds_defaults_def)
    moreover have "parse_keys (write_keys_section place kb doc) = Some (Inr keybinds_defaults)"
      using True by (simp add: w parse_keys_def toml_remove_map)
    ultimately show ?thesis using same other again by metis
  qed
qed

end
