(* ===== verification/Key_Policy.thy ===== *)
theory Key_Policy
  imports Key_Input Keybinds
begin

text \<open>
  The central keyboard router of the client: key presses and configured chords in one normal
  form (\<^verbatim>\<open>src/app/input/resolver.rs\<close>), the ordered policy of layers with their gates
  (\<^verbatim>\<open>key_policy.rs\<close>), the routing decision with the armed prefix mode (\<^verbatim>\<open>router.rs\<close>), and the
  fold of the messages of one tick (\<^verbatim>\<open>src/app/shell/arbitration.rs\<close>). The registry's chords
  always parse (\<open>Keybind_Laws.parsed_defaults\<close>), so the panic of \<open>router_chords\<close> is not carried
  any further here. Seek steps are whole seconds.
\<close>

section \<open>Chords in normal form\<close>

record key_chord =
  kc_code :: key
  kc_mods :: key_modifiers

definition is_ascii_uppercase :: "nat \<Rightarrow> bool" where
  "is_ascii_uppercase c \<longleftrightarrow> 65 \<le> c \<and> c \<le> 90"

definition fold_shift_case :: "key \<Rightarrow> key_modifiers \<Rightarrow> key" where
  "fold_shift_case code mods =
     (case code of
        Key_Char c \<Rightarrow>
          if mods_contain mods MOD_SHIFT \<and> is_ascii_uppercase c then Key_Char (c + 32) else Key_Char c
      | _ \<Rightarrow> code)"

definition key_chord_new :: "key \<Rightarrow> key_modifiers \<Rightarrow> key_chord" where
  "key_chord_new code mods0 =
     (let mods = (if code = Key_BackTab then mods_without mods0 MOD_SHIFT else mods0)
      in \<lparr>kc_code = fold_shift_case code mods, kc_mods = mods\<rparr>)"

definition key_chord_from_key :: "key_event \<Rightarrow> key_chord" where
  "key_chord_from_key k = key_chord_new (ke_code k) (ke_modifiers k)"

definition registry_mods_to_modifiers :: "key_mods \<Rightarrow> key_modifiers" where
  "registry_mods_to_modifiers m =
     (let out0 = MOD_NONE;
          out1 = (if km_contains m KM_CTRL then mods_union out0 MOD_CONTROL else out0);
          out2 = (if km_contains m KM_SHIFT then mods_union out1 MOD_SHIFT else out1)
      in if km_contains m KM_ALT then mods_union out2 MOD_ALT else out2)"

fun registry_key :: "chord_key \<Rightarrow> key" where
  "registry_key CK_Backspace = Key_Backspace"
| "registry_key CK_Enter = Key_Enter"
| "registry_key CK_Esc = Key_Esc"
| "registry_key CK_Left = Key_Left"
| "registry_key CK_Right = Key_Right"
| "registry_key CK_Up = Key_Up"
| "registry_key CK_Down = Key_Down"
| "registry_key CK_Home = Key_Home"
| "registry_key CK_End = Key_End"
| "registry_key CK_PageUp = Key_PageUp"
| "registry_key CK_PageDown = Key_PageDown"
| "registry_key CK_Tab = Key_Tab"
| "registry_key CK_BackTab = Key_BackTab"
| "registry_key CK_Delete = Key_Delete"
| "registry_key CK_Insert = Key_Insert"
| "registry_key (CK_F n) = Key_Function n"
| "registry_key (CK_Char c) = Key_Char c"

definition from_keybinds_chord :: "chord \<Rightarrow> key_chord" where
  "from_keybinds_chord c =
     key_chord_new (registry_key (ch_key c)) (registry_mods_to_modifiers (ch_mods c))"

section \<open>What the router reads\<close>

datatype panel_mode = Panel_Both | Panel_LibraryOnly | Panel_QueueOnly

datatype panel_focus = Focus_Queue | Focus_Library

datatype remote_target = Remote_None | Remote_Direct

record router_playback =
  rp_player_active :: bool
  rp_remote_target :: remote_target
  rp_queue_only_idle :: bool
  rp_idle_feed_link_available :: bool

datatype overlay_focus = Overlay_Free | Overlay_NonBlocking | Overlay_Blocking | Overlay_ContextMenu

definition of_blocking :: "overlay_focus \<Rightarrow> bool" where
  "of_blocking f \<longleftrightarrow> f = Overlay_Blocking \<or> f = Overlay_ContextMenu"

definition of_holds_focus :: "overlay_focus \<Rightarrow> bool" where
  "of_holds_focus f \<longleftrightarrow> f \<noteq> Overlay_Free"

definition of_context_menu :: "overlay_focus \<Rightarrow> bool" where
  "of_context_menu f \<longleftrightarrow> f = Overlay_ContextMenu"

record router_overlays =
  ro_focus :: overlay_focus
  ro_help :: bool
  ro_sessions_sidebar :: bool
  ro_text_entry_focused :: bool

record router_snapshot =
  sn_playback :: router_playback
  sn_overlays :: router_overlays
  sn_panel_mode :: panel_mode
  sn_panel_focus :: panel_focus
  sn_visual_selection_active :: bool
  sn_prefix_armed :: bool

section \<open>Commands\<close>

datatype shell_command = OpenHelp | OpenTwitchUrl | RefreshCurrentView

datatype visual_intent = OpenIdleFeedLink | ToggleVisualizer | ToggleVisualSlotHidden

datatype playback_intent =
    TogglePlayPause | Playback_Stop | SeekRelative int | NextTrack | PreviousTrack
  | CycleOrToggleSubtitle | AdjustVolume i64 | ToggleMute | CycleAudio

datatype navigation_intent =
    NextLibraryTab | PreviousLibraryTab | SetLibraryTab usize | ForceClear | RequestClearQueue
  | ToggleSettings | OpenSessions | OpenPlaylists | OpenSearch

datatype panel_intent = CyclePanelMode | FocusPanel panel_focus

datatype app_command =
    App_Visual visual_intent | App_Playback playback_intent | App_Navigation navigation_intent
  | App_Panel panel_intent | App_QueuePlayCursor usize | App_Quit

datatype ui_command = Command_Shell shell_command | Command_App app_command

definition VOLUME_STEP :: i64 where "VOLUME_STEP = 5"

record idle_feed_link_context =
  if_player_active :: bool
  if_panel_present_idle :: bool
  if_link_available :: bool

definition idle_feed_command_for_key :: "key_chord \<Rightarrow> idle_feed_link_context \<Rightarrow> ui_command option" where
  "idle_feed_command_for_key c ctx =
     (if kc_code c = char_key CHR ''o'' \<and> mods_empty (kc_mods c) \<and> \<not> if_player_active ctx
       \<and> \<not> if_panel_present_idle ctx \<and> if_link_available ctx
      then Some (Command_App (App_Visual OpenIdleFeedLink)) else None)"

section \<open>The layers of the policy\<close>

datatype policy_binding =
    B_SettingsOpen | B_SessionsOpen | B_SessionsDismiss | B_SessionsSidebarTransfer | B_PlaylistsOpen
  | B_SearchOpen | B_TwitchUrlOpen | B_HelpOpen | B_Quit | B_NextLibraryTab
  | B_PreviousLibraryTab | B_LibraryTabJump | B_PanelRight | B_PanelLeft | B_AltNextLibraryTab
  | B_AltPreviousLibraryTab | B_AltSwallow | B_QueueColumnWidth | B_PanelModeCycle | B_ClearQueue
  | B_Visualizer | B_HideVisualSlot | B_TogglePlayPause | B_Stop | B_SeekBack
  | B_SeekForward | B_NextTrack | B_PreviousTrack | B_VolumeDown | B_VolumeUp
  | B_ToggleMute | B_CycleAudio | B_CycleSubtitle | B_OpenIdleFeedLink | B_CtrlL
  | B_F5 | B_PrefixArm

fun literal_matches :: "policy_binding \<Rightarrow> key_chord \<Rightarrow> bool" where
  "literal_matches B_SessionsDismiss c = (kc_code c = Key_Esc)"
| "literal_matches B_SessionsSidebarTransfer c =
     (mods_empty (kc_mods c) \<and> (kc_code c = char_key CHR ''h'' \<or> kc_code c = char_key CHR ''t''))"
| "literal_matches B_AltSwallow c = mods_contain (kc_mods c) MOD_ALT"
| "literal_matches B_QueueColumnWidth c =
     ((kc_code c = Key_Left \<or> kc_code c = Key_Right) \<and> kc_mods c = MOD_SHIFT)"
| "literal_matches _ c = False"

datatype policy_gate =
    PG_NoBlockingOverlay | PG_NoBlockingOverlayAndHelpClosed | PG_PanelFocusQueue | PG_PanelFocusLibraryBoth
  | PG_QueueColumnWidth | PG_ClearQueuePrompt | PG_SessionsSidebarOpen | PG_Playback
  | PG_PlaybackUngated | PG_IdleFeedLink | PG_PrefixArming

definition panel_focus_queue_allowed :: "router_snapshot \<Rightarrow> bool" where
  "panel_focus_queue_allowed s \<longleftrightarrow>
     \<not> of_blocking (ro_focus (sn_overlays s)) \<and> \<not> of_holds_focus (ro_focus (sn_overlays s))
     \<and> sn_panel_focus s = Focus_Queue"

definition panel_focus_library_both_allowed :: "router_snapshot \<Rightarrow> bool" where
  "panel_focus_library_both_allowed s \<longleftrightarrow>
     \<not> of_blocking (ro_focus (sn_overlays s)) \<and> \<not> of_holds_focus (ro_focus (sn_overlays s))
     \<and> sn_panel_focus s = Focus_Library \<and> sn_panel_mode s = Panel_Both"

definition playback_allowed :: "router_snapshot \<Rightarrow> bool" where
  "playback_allowed s \<longleftrightarrow>
     \<not> of_blocking (ro_focus (sn_overlays s)) \<and> \<not> ro_text_entry_focused (sn_overlays s)
     \<and> (rp_player_active (sn_playback s) \<or> rp_remote_target (sn_playback s) \<noteq> Remote_None)"

definition idle_feed_link_allowed :: "key_chord \<Rightarrow> router_snapshot \<Rightarrow> bool" where
  "idle_feed_link_allowed c s \<longleftrightarrow>
     \<not> of_blocking (ro_focus (sn_overlays s)) \<and> \<not> ro_text_entry_focused (sn_overlays s)
     \<and> idle_feed_command_for_key c
         \<lparr>if_player_active = rp_player_active (sn_playback s),
          if_panel_present_idle = rp_queue_only_idle (sn_playback s),
          if_link_available = rp_idle_feed_link_available (sn_playback s)\<rparr> \<noteq> None"

definition gate_allows :: "policy_gate \<Rightarrow> key_chord \<Rightarrow> router_snapshot \<Rightarrow> bool" where
  "gate_allows g c s =
     (let ov = sn_overlays s in
      case g of
        PG_NoBlockingOverlay \<Rightarrow> \<not> of_blocking (ro_focus ov)
      | PG_NoBlockingOverlayAndHelpClosed \<Rightarrow> \<not> of_blocking (ro_focus ov) \<and> \<not> ro_help ov
      | PG_PanelFocusQueue \<Rightarrow> panel_focus_queue_allowed s
      | PG_PanelFocusLibraryBoth \<Rightarrow> panel_focus_library_both_allowed s
      | PG_QueueColumnWidth \<Rightarrow> sn_panel_mode s = Panel_Both
      | PG_ClearQueuePrompt \<Rightarrow> \<not> of_blocking (ro_focus ov) \<and> \<not> of_context_menu (ro_focus ov)
      | PG_SessionsSidebarOpen \<Rightarrow> ro_sessions_sidebar ov
      | PG_Playback \<Rightarrow> playback_allowed s
      | PG_PlaybackUngated \<Rightarrow> \<not> of_blocking (ro_focus ov) \<and> \<not> ro_text_entry_focused ov
      | PG_PrefixArming \<Rightarrow> \<not> of_blocking (ro_focus ov) \<and> \<not> ro_text_entry_focused ov
      | PG_IdleFeedLink \<Rightarrow> idle_feed_link_allowed c s)"

record policy_entry =
  pe_name :: string
  pe_global :: bool
  pe_binding :: policy_binding
  pe_gate :: policy_gate
  pe_blocking :: bool

definition policy_layer ::
  "string \<Rightarrow> bool \<Rightarrow> policy_binding \<Rightarrow> policy_gate \<Rightarrow> bool \<Rightarrow> policy_entry" where
  "policy_layer name global binding gate blocking =
     \<lparr>pe_name = name, pe_global = global, pe_binding = binding, pe_gate = gate, pe_blocking = blocking\<rparr>"

definition KEY_POLICY :: "policy_entry list" where
  "KEY_POLICY =
     [policy_layer ''prefix_arm'' True B_PrefixArm PG_PrefixArming True,
      policy_layer ''settings_open'' True B_SettingsOpen PG_NoBlockingOverlay False,
      policy_layer ''sessions_open'' True B_SessionsOpen PG_NoBlockingOverlay False,
      policy_layer ''playlists_open'' True B_PlaylistsOpen PG_NoBlockingOverlay False,
      policy_layer ''search_open'' True B_SearchOpen PG_NoBlockingOverlay False,
      policy_layer ''twitch_url_open'' True B_TwitchUrlOpen PG_NoBlockingOverlay False,
      policy_layer ''help_open'' True B_HelpOpen PG_NoBlockingOverlayAndHelpClosed False,
      policy_layer ''quit'' True B_Quit PG_NoBlockingOverlay False,
      policy_layer ''next_library_tab'' True B_NextLibraryTab PG_NoBlockingOverlay False,
      policy_layer ''previous_library_tab'' True B_PreviousLibraryTab PG_NoBlockingOverlay False,
      policy_layer ''queue_column_width'' False B_QueueColumnWidth PG_QueueColumnWidth False,
      policy_layer ''panel_mode_cycle_x'' True B_PanelModeCycle PG_NoBlockingOverlay False,
      policy_layer ''clear_queue_prompt_c'' True B_ClearQueue PG_ClearQueuePrompt False,
      policy_layer ''visualizer'' True B_Visualizer PG_NoBlockingOverlay False,
      policy_layer ''sessions_sidebar_transfer'' False B_SessionsSidebarTransfer PG_SessionsSidebarOpen False,
      policy_layer ''hide_visual_slot'' True B_HideVisualSlot PG_NoBlockingOverlay False,
      policy_layer ''sessions_sidebar_escape'' False B_SessionsDismiss PG_SessionsSidebarOpen False,
      policy_layer ''toggle_play_pause'' False B_TogglePlayPause PG_Playback False,
      policy_layer ''stop'' False B_Stop PG_Playback False,
      policy_layer ''seek_back'' False B_SeekBack PG_Playback False,
      policy_layer ''seek_forward'' False B_SeekForward PG_Playback False,
      policy_layer ''next_track'' False B_NextTrack PG_Playback False,
      policy_layer ''previous_track'' False B_PreviousTrack PG_Playback False,
      policy_layer ''volume_down'' False B_VolumeDown PG_PlaybackUngated False,
      policy_layer ''volume_up'' False B_VolumeUp PG_PlaybackUngated False,
      policy_layer ''toggle_mute'' False B_ToggleMute PG_PlaybackUngated False,
      policy_layer ''cycle_audio'' False B_CycleAudio PG_Playback False,
      policy_layer ''cycle_subtitle'' False B_CycleSubtitle PG_PlaybackUngated False,
      policy_layer ''open_idle_feed_link'' False B_OpenIdleFeedLink PG_IdleFeedLink False,
      policy_layer ''ctrl_l_force_clear'' True B_CtrlL PG_NoBlockingOverlay False,
      policy_layer ''f5_refresh'' True B_F5 PG_NoBlockingOverlay False,
      policy_layer ''panel_right'' True B_PanelRight PG_PanelFocusQueue False,
      policy_layer ''panel_left'' True B_PanelLeft PG_PanelFocusLibraryBoth False,
      policy_layer ''alt_previous_library_tab'' True B_AltPreviousLibraryTab PG_NoBlockingOverlay False,
      policy_layer ''alt_next_library_tab'' True B_AltNextLibraryTab PG_NoBlockingOverlay False,
      policy_layer ''alt_swallow'' True B_AltSwallow PG_NoBlockingOverlay True,
      policy_layer ''library_tab_jump'' True B_LibraryTabJump PG_NoBlockingOverlay False]"

definition fires_on :: "keybinds \<Rightarrow> keybind_action \<Rightarrow> key_chord list" where
  "fires_on kb a =
     (case router_chords kb a of
        Some cs \<Rightarrow> map from_keybinds_chord cs
      | None \<Rightarrow> [])"

definition entry_matches :: "policy_entry \<Rightarrow> key_chord \<Rightarrow> keybinds \<Rightarrow> bool" where
  "entry_matches e c kb =
     (if pe_binding e = B_PrefixArm then map_option from_keybinds_chord (kb_prefix kb) = Some c
      else case action_by_id (pe_name e) of
        Some a \<Rightarrow> c \<in> set (fires_on kb a)
      | None \<Rightarrow> literal_matches (pe_binding e) c)"

definition resolve_policy :: "key_chord \<Rightarrow> router_snapshot \<Rightarrow> keybinds \<Rightarrow> policy_entry option" where
  "resolve_policy c s kb =
     List.find (\<lambda>e. entry_matches e c kb \<and> gate_allows (pe_gate e) c s) KEY_POLICY"

fun command_for_simple_binding :: "policy_binding \<Rightarrow> ui_command option" where
  "command_for_simple_binding B_SettingsOpen = Some (Command_App (App_Navigation ToggleSettings))"
| "command_for_simple_binding B_SessionsOpen = Some (Command_App (App_Navigation OpenSessions))"
| "command_for_simple_binding B_PlaylistsOpen = Some (Command_App (App_Navigation OpenPlaylists))"
| "command_for_simple_binding B_SearchOpen = Some (Command_App (App_Navigation OpenSearch))"
| "command_for_simple_binding B_TwitchUrlOpen = Some (Command_Shell OpenTwitchUrl)"
| "command_for_simple_binding B_HelpOpen = Some (Command_Shell OpenHelp)"
| "command_for_simple_binding B_Quit = Some (Command_App App_Quit)"
| "command_for_simple_binding B_PanelRight = Some (Command_App (App_Panel (FocusPanel Focus_Library)))"
| "command_for_simple_binding B_PanelLeft = Some (Command_App (App_Panel (FocusPanel Focus_Queue)))"
| "command_for_simple_binding B_PanelModeCycle = Some (Command_App (App_Panel CyclePanelMode))"
| "command_for_simple_binding B_CtrlL = Some (Command_App (App_Navigation ForceClear))"
| "command_for_simple_binding B_ClearQueue = Some (Command_App (App_Navigation RequestClearQueue))"
| "command_for_simple_binding B_F5 = Some (Command_Shell RefreshCurrentView)"
| "command_for_simple_binding B_Visualizer = Some (Command_App (App_Visual ToggleVisualizer))"
| "command_for_simple_binding B_HideVisualSlot = Some (Command_App (App_Visual ToggleVisualSlotHidden))"
| "command_for_simple_binding _ = None"

text \<open>\<^verbatim>\<open>'1'..='9'\<close>, as the position of the tab.\<close>

definition digit_tab :: "key \<Rightarrow> usize option" where
  "digit_tab k =
     (case k of
        Key_Char c \<Rightarrow> if 49 \<le> c \<and> c \<le> 57 then Some (c - 49) else None
      | _ \<Rightarrow> None)"

fun command_for_navigation_binding :: "policy_binding \<Rightarrow> key_chord \<Rightarrow> ui_command option" where
  "command_for_navigation_binding B_NextLibraryTab c = Some (Command_App (App_Navigation NextLibraryTab))"
| "command_for_navigation_binding B_AltNextLibraryTab c = Some (Command_App (App_Navigation NextLibraryTab))"
| "command_for_navigation_binding B_PreviousLibraryTab c =
     Some (Command_App (App_Navigation PreviousLibraryTab))"
| "command_for_navigation_binding B_AltPreviousLibraryTab c =
     Some (Command_App (App_Navigation PreviousLibraryTab))"
| "command_for_navigation_binding B_LibraryTabJump c =
     map_option (\<lambda>n. Command_App (App_Navigation (SetLibraryTab n))) (digit_tab (kc_code c))"
| "command_for_navigation_binding _ c = None"

fun command_for_transport_binding :: "policy_binding \<Rightarrow> ui_command option" where
  "command_for_transport_binding B_TogglePlayPause = Some (Command_App (App_Playback TogglePlayPause))"
| "command_for_transport_binding B_Stop = Some (Command_App (App_Playback Playback_Stop))"
| "command_for_transport_binding B_SeekBack = Some (Command_App (App_Playback (SeekRelative (- 5))))"
| "command_for_transport_binding B_SeekForward = Some (Command_App (App_Playback (SeekRelative 5)))"
| "command_for_transport_binding B_NextTrack = Some (Command_App (App_Playback NextTrack))"
| "command_for_transport_binding B_PreviousTrack = Some (Command_App (App_Playback PreviousTrack))"
| "command_for_transport_binding B_VolumeDown =
     Some (Command_App (App_Playback (AdjustVolume (- VOLUME_STEP))))"
| "command_for_transport_binding B_VolumeUp = Some (Command_App (App_Playback (AdjustVolume VOLUME_STEP)))"
| "command_for_transport_binding B_ToggleMute = Some (Command_App (App_Playback ToggleMute))"
| "command_for_transport_binding B_CycleAudio = Some (Command_App (App_Playback CycleAudio))"
| "command_for_transport_binding B_CycleSubtitle = Some (Command_App (App_Playback CycleOrToggleSubtitle))"
| "command_for_transport_binding B_OpenIdleFeedLink = Some (Command_App (App_Visual OpenIdleFeedLink))"
| "command_for_transport_binding _ = None"

definition command_for_policy :: "policy_binding \<Rightarrow> key_chord \<Rightarrow> ui_command option" where
  "command_for_policy b c =
     opt_or (opt_or (command_for_simple_binding b) (command_for_navigation_binding b c))
       (command_for_transport_binding b)"

section \<open>Routing\<close>

datatype overlay_id =
    Overlay_Search | Overlay_Settings | Overlay_Sessions | Overlay_Playlists | Overlay_Help
  | Overlay_Context

datatype modal_id = Modal_Confirm | Modal_DaemonLost | Modal_SavePlaylist | Modal_TwitchUrl

datatype popup_id = Popup_Multiselect | Popup_LibraryRoutes | Popup_FeedManage

datatype component_id =
    C_UiRoot | C_TabPanel | C_StatusBarPanel | C_LibraryPlaybackPanel | C_QueuePlaybackPanel
  | C_Queue | C_QueueBoundary | C_Library | C_Overlay overlay_id | C_Modal modal_id
  | C_Popup popup_id

definition is_blocking_overlay :: "component_id \<Rightarrow> bool" where
  "is_blocking_overlay c =
     (case c of
        C_Overlay ov \<Rightarrow> ov = Overlay_Context
      | C_Modal m \<Rightarrow> m = Modal_Confirm \<or> m = Modal_DaemonLost \<or> m = Modal_SavePlaylist \<or> m = Modal_TwitchUrl
      | C_Popup p \<Rightarrow> p = Popup_Multiselect \<or> p = Popup_LibraryRoutes \<or> p = Popup_FeedManage
      | _ \<Rightarrow> False)"

datatype router_outcome =
    Run ui_command | Swallow | Fall_Through | Deferred ui_command
  | Prefix_Arm | Prefix_Dispatch ui_command | Prefix_Swallow

definition armed_command ::
  "keybind_action \<Rightarrow> router_snapshot \<Rightarrow> keybinds \<Rightarrow> ui_command option" where
  "armed_command a s kb =
     (case List.find (\<lambda>e. pe_name e = ka_name a) KEY_POLICY of
        None \<Rightarrow> None
      | Some e \<Rightarrow>
          (case List.find (\<lambda>c. gate_allows (pe_gate e) c s) (fires_on kb a) of
             None \<Rightarrow> None
           | Some firing \<Rightarrow> command_for_policy (pe_binding e) firing))"

definition resolve_armed_outcome :: "key_chord \<Rightarrow> router_snapshot \<Rightarrow> keybinds \<Rightarrow> router_outcome" where
  "resolve_armed_outcome c s kb =
     (if map_option from_keybinds_chord (kb_prefix kb) = Some c then Prefix_Arm
      else case List.find (\<lambda>(a, configured). from_keybinds_chord configured = c) (prefix_assignments kb) of
        None \<Rightarrow> Prefix_Swallow
      | Some (a, _) \<Rightarrow>
          (case armed_command a s kb of
             Some cmd \<Rightarrow> Prefix_Dispatch cmd
           | None \<Rightarrow> Prefix_Swallow))"

text \<open>What a chord without a command does: only a blocking overlay that is not the focused leaf
  keeps it from the leaf.\<close>

definition unclaimed_outcome :: "router_snapshot \<Rightarrow> component_id option \<Rightarrow> router_outcome" where
  "unclaimed_outcome s focused =
     (if of_blocking (ro_focus (sn_overlays s))
      then (if (case focused of Some c \<Rightarrow> is_blocking_overlay c | None \<Rightarrow> False)
            then Fall_Through else Swallow)
      else Fall_Through)"

definition routed_outcome ::
  "policy_entry \<Rightarrow> key_chord \<Rightarrow> router_snapshot \<Rightarrow> component_id option \<Rightarrow> router_outcome" where
  "routed_outcome e c s focused =
     (if ro_text_entry_focused (sn_overlays s) \<and> pe_global e
       \<and> pe_binding e \<notin> {B_SettingsOpen, B_SessionsOpen, B_PlaylistsOpen, B_HelpOpen}
      then Fall_Through
      else case command_for_policy (pe_binding e) c of
        Some cmd \<Rightarrow>
          if cmd = Command_App (App_Playback TogglePlayPause) \<and> sn_visual_selection_active s
          then Deferred cmd
          else if cmd = Command_App (App_Playback Playback_Stop) \<and> kc_code c = Key_Esc
          then Deferred cmd
          else Run cmd
      | None \<Rightarrow> unclaimed_outcome s focused)"

definition resolve_router_outcome ::
  "key_event \<Rightarrow> router_snapshot \<Rightarrow> component_id option \<Rightarrow> keybinds \<Rightarrow> router_outcome" where
  "resolve_router_outcome k s focused kb =
     (let c = key_chord_from_key k in
      if sn_prefix_armed s then resolve_armed_outcome c s kb
      else case resolve_policy c s kb of
        Some e \<Rightarrow>
          if pe_binding e = B_PrefixArm then Prefix_Arm
          else if pe_blocking e then Swallow
          else routed_outcome e c s focused
      | None \<Rightarrow> unclaimed_outcome s focused)"

section \<open>One tick of the shell\<close>

text \<open>The messages of a tick, as far as the fold tells them apart: the observer's key, the claim
  of a focused leaf, another signal of the observer, or a leaf's own request.\<close>

datatype 'm tick_msg = Msg_Key key_event | Msg_Key_Claimed | Msg_Terminal | Msg_Leaf 'm

fun is_msg_key :: "'m tick_msg \<Rightarrow> bool" where
  "is_msg_key (Msg_Key k) = True"
| "is_msg_key _ = False"

fun is_msg_leaf :: "'m tick_msg \<Rightarrow> bool" where
  "is_msg_leaf (Msg_Leaf m) = True"
| "is_msg_leaf _ = False"

definition keeps_leaf :: "router_outcome \<Rightarrow> bool" where
  "keeps_leaf r = (case r of Fall_Through \<Rightarrow> True | Deferred _ \<Rightarrow> True | _ \<Rightarrow> False)"

definition retained :: "component_id option \<Rightarrow> router_outcome \<Rightarrow> bool \<Rightarrow> 'm tick_msg \<Rightarrow> bool" where
  "retained focused r observed_key m =
     (case m of
        Msg_Key _ \<Rightarrow> focused = Some C_UiRoot \<and> keeps_leaf r
      | Msg_Key_Claimed \<Rightarrow> False
      | Msg_Terminal \<Rightarrow> True
      | Msg_Leaf _ \<Rightarrow> \<not> observed_key \<or> keeps_leaf r)"

definition retain_arbitrated_messages ::
  "'m tick_msg list \<Rightarrow> component_id option \<Rightarrow> router_outcome \<Rightarrow> bool \<Rightarrow> 'm tick_msg list" where
  "retain_arbitrated_messages msgs focused r observed_key =
     [m \<leftarrow> msgs. retained focused r observed_key m]"

text \<open>\<^verbatim>\<open>observe_key_messages\<close>: one key was observed, and whether a leaf claimed it.\<close>

definition observe_key_messages :: "'m tick_msg list \<Rightarrow> bool \<times> bool" where
  "observe_key_messages msgs =
     (length [m \<leftarrow> msgs. is_msg_key m] = 1, Msg_Key_Claimed \<in> set msgs)"

text \<open>\<^verbatim>\<open>arbitrate_key\<close>: the surviving messages and the leaf's disposition (consumed or not).\<close>

definition arbitrate_key ::
  "'m tick_msg list \<Rightarrow> component_id option \<Rightarrow> router_outcome \<Rightarrow> 'm tick_msg list \<times> bool" where
  "arbitrate_key msgs focused r =
     (let (observed_key, claimed) = observe_key_messages msgs;
          out = retain_arbitrated_messages msgs focused r observed_key
      in (out, claimed \<or> (\<exists>m\<in>set out. is_msg_leaf m)))"

text \<open>The armed bit (which also holds the focus back) after a routing outcome.\<close>

definition armed_after :: "router_outcome \<Rightarrow> bool \<Rightarrow> bool" where
  "armed_after r armed =
     (case r of
        Prefix_Arm \<Rightarrow> True
      | Prefix_Dispatch _ \<Rightarrow> False
      | Prefix_Swallow \<Rightarrow> False
      | _ \<Rightarrow> armed)"

text \<open>\<^verbatim>\<open>router_outcome\<close>: the first key of the tick is routed, a tick without one falls through.\<close>

fun tick_key :: "'m tick_msg list \<Rightarrow> key_event option" where
  "tick_key [] = None"
| "tick_key (Msg_Key k # ms) = Some k"
| "tick_key (m # ms) = tick_key ms"

definition tick_router_outcome ::
  "'m tick_msg list \<Rightarrow> router_snapshot \<Rightarrow> component_id option \<Rightarrow> keybinds \<Rightarrow> router_outcome" where
  "tick_router_outcome msgs s focused kb =
     (case tick_key msgs of
        None \<Rightarrow> Fall_Through
      | Some k \<Rightarrow> resolve_router_outcome k s focused kb)"

text \<open>The commands the shell dispatches: an immediate one, or a deferred one the leaf left alone.\<close>

definition dispatched :: "router_outcome \<Rightarrow> bool \<Rightarrow> ui_command list" where
  "dispatched r leaf_consumed =
     (case r of
        Run cmd \<Rightarrow> [cmd]
      | Prefix_Dispatch cmd \<Rightarrow> [cmd]
      | Deferred cmd \<Rightarrow> if leaf_consumed then [] else [cmd]
      | _ \<Rightarrow> [])"

definition shell_tick ::
  "'m tick_msg list \<Rightarrow> router_snapshot \<Rightarrow> component_id option \<Rightarrow> keybinds
   \<Rightarrow> ui_command list \<times> 'm tick_msg list \<times> bool" where
  "shell_tick msgs s focused kb =
     (let r = tick_router_outcome msgs s focused kb;
          (out, consumed) = arbitrate_key msgs focused r
      in (dispatched r consumed, out, armed_after r (sn_prefix_armed s)))"

text \<open>The mouse fold: with a key in the tick everything passes, otherwise only the first request.\<close>

fun keep_first_claim :: "bool \<Rightarrow> 'm tick_msg list \<Rightarrow> 'm tick_msg list" where
  "keep_first_claim kept [] = []"
| "keep_first_claim kept (m # ms) =
     (if \<not> is_msg_leaf m then m # keep_first_claim kept ms
      else if kept then keep_first_claim True ms
      else m # keep_first_claim True ms)"

definition fold_mouse_messages :: "'m tick_msg list \<Rightarrow> 'm tick_msg list" where
  "fold_mouse_messages msgs =
     (if \<exists>m\<in>set msgs. is_msg_key m then msgs else keep_first_claim False msgs)"

end
