(* ===== verification/Key_Routing.thy ===== *)
theory Key_Routing
  imports Key_Policy Keybind_File
begin

text \<open>
  What the router guarantees: armed prefix mode captures every chord, a focused text entry keeps
  its characters, and each tick runs at most one command. Two lemmas about configurations show
  where the loader's notion of a collision and the router's notion of a chord part.
\<close>

section \<open>Armed prefix mode\<close>

lemma armed_outcome:
  "resolve_armed_outcome c s kb \<in> {Prefix_Arm, Prefix_Swallow} \<union> range Prefix_Dispatch"
  by (auto simp: resolve_armed_outcome_def split: option.splits)

lemma armed_never_keeps [simp]: "\<not> keeps_leaf (resolve_armed_outcome c s kb)"
  using armed_outcome [of c s kb] by (auto simp: keeps_leaf_def)

lemma retained_dropped: "\<not> keeps_leaf r \<Longrightarrow> retained focused r True m \<Longrightarrow> m = Msg_Terminal"
  by (cases m) (auto simp: retained_def)

lemma tick_key_observed: "length [m \<leftarrow> msgs. is_msg_key m] = 1 \<Longrightarrow> \<exists>k. tick_key msgs = Some k"
  by (induction msgs rule: tick_key.induct) auto

lemma armed_dispatch_allowed:
  assumes "resolve_armed_outcome c s kb = Prefix_Dispatch cmd"
  shows "\<exists>a configured e firing. (a, configured) \<in> set (prefix_assignments kb)
    \<and> from_keybinds_chord configured = c \<and> e \<in> set KEY_POLICY \<and> pe_name e = ka_name a
    \<and> firing \<in> set (fires_on kb a) \<and> gate_allows (pe_gate e) firing s
    \<and> command_for_policy (pe_binding e) firing = Some cmd"
proof -
  obtain a configured where
    a: "List.find (\<lambda>(a, configured). from_keybinds_chord configured = c) (prefix_assignments kb) = Some (a, configured)"
    and cmd: "armed_command a s kb = Some cmd"
    using assms by (auto simp: resolve_armed_outcome_def split: if_splits option.splits)
  from cmd obtain e firing where
    "List.find (\<lambda>e. pe_name e = ka_name a) KEY_POLICY = Some e"
    "List.find (\<lambda>c. gate_allows (pe_gate e) c s) (fires_on kb a) = Some firing"
    "command_for_policy (pe_binding e) firing = Some cmd"
    by (auto simp: armed_command_def split: option.splits)
  with a show ?thesis by (fastforce dest!: find_in_set)
qed

text \<open>
  C18. Armed prefix mode captures the keyboard: in a tick with one key press no request of a leaf
  and no key survives the fold, the mode stays armed exactly when the press was the prefix chord,
  and a command runs only when the press is a configured prefix assignment of an action whose own
  policy layer allows one of the action's firing chords at that moment.
\<close>

theorem armed_prefix_captures:
  assumes "sn_prefix_armed s" "length [m \<leftarrow> msgs. is_msg_key m] = 1"
    and "shell_tick msgs s focused kb = (cmds, out, armed)"
  shows "set out \<subseteq> {Msg_Terminal} \<and> length cmds \<le> 1
    \<and> (armed \<longleftrightarrow> (\<exists>k p. tick_key msgs = Some k \<and> kb_prefix kb = Some p
                       \<and> from_keybinds_chord p = key_chord_from_key k))
    \<and> (\<forall>cmd\<in>set cmds. \<exists>k a configured e firing. tick_key msgs = Some k
         \<and> (a, configured) \<in> set (prefix_assignments kb)
         \<and> from_keybinds_chord configured = key_chord_from_key k
         \<and> e \<in> set KEY_POLICY \<and> pe_name e = ka_name a \<and> firing \<in> set (fires_on kb a)
         \<and> gate_allows (pe_gate e) firing s \<and> command_for_policy (pe_binding e) firing = Some cmd)"
proof -
  obtain k where k: "tick_key msgs = Some k" using tick_key_observed [OF assms(2)] ..
  let ?r = "resolve_armed_outcome (key_chord_from_key k) s kb"
  have r: "tick_router_outcome msgs s focused kb = ?r"
    using k assms(1) by (simp add: tick_router_outcome_def resolve_router_outcome_def)
  with assms(2,3) have t: "cmds = dispatched ?r (snd (arbitrate_key msgs focused ?r))"
    "out = [m \<leftarrow> msgs. retained focused ?r True m]" "armed = armed_after ?r True"
    by (auto simp: shell_tick_def arbitrate_key_def observe_key_messages_def
        retain_arbitrated_messages_def assms(1) Let_def)
  have "set out \<subseteq> {Msg_Terminal}" unfolding t(2) using retained_dropped [OF armed_never_keeps] by auto
  moreover have "length cmds \<le> 1" unfolding t(1) by (auto simp: dispatched_def split: router_outcome.splits)
  moreover have "armed \<longleftrightarrow> map_option from_keybinds_chord (kb_prefix kb) = Some (key_chord_from_key k)"
    unfolding t(3) by (auto simp: armed_after_def resolve_armed_outcome_def split: option.splits)
  moreover have "?r = Prefix_Dispatch cmd" if "cmd \<in> set cmds" for cmd
    using that armed_outcome [of "key_chord_from_key k" s kb] unfolding t(1) by (auto simp: dispatched_def)
  ultimately show ?thesis using k armed_dispatch_allowed by fastforce
qed

section \<open>Text entry\<close>

definition sidebar_commands :: "ui_command set" where
  "sidebar_commands =
     {Command_App (App_Navigation ToggleSettings), Command_App (App_Navigation OpenSessions),
      Command_App (App_Navigation OpenPlaylists), Command_Shell OpenHelp}"

text \<open>Every layer is the prefix, closes its gate to text entry, is global, or runs no command.\<close>

lemma layers_and_text:
  "\<forall>e\<in>set KEY_POLICY. pe_gate e \<in> {PG_Playback, PG_PlaybackUngated, PG_PrefixArming, PG_IdleFeedLink}
     \<or> pe_global e \<or> pe_binding e \<in> {B_QueueColumnWidth, B_SessionsSidebarTransfer, B_SessionsDismiss}"
  by (simp add: KEY_POLICY_def policy_layer_def)

lemma prefix_layer_gate: "\<forall>e\<in>set KEY_POLICY. pe_binding e = B_PrefixArm \<longrightarrow> pe_gate e = PG_PrefixArming"
  "\<forall>e\<in>set KEY_POLICY. pe_blocking e \<longrightarrow> pe_binding e \<in> {B_PrefixArm, B_AltSwallow}"
  "\<forall>e\<in>set KEY_POLICY. pe_binding e = B_AltSwallow \<longrightarrow> pe_name e = ''alt_swallow''"
  by (simp_all add: KEY_POLICY_def policy_layer_def)

lemma alt_swallow_literal: "action_by_id ''alt_swallow'' = None"
  by (simp add: action_by_id_def KEYBIND_ACTIONS_def declare_action_def)

lemma text_closes_gates:
  "ro_text_entry_focused (sn_overlays s) \<Longrightarrow>
    g \<in> {PG_Playback, PG_PlaybackUngated, PG_PrefixArming, PG_IdleFeedLink} \<Longrightarrow> \<not> gate_allows g c s"
  by (auto simp: gate_allows_def playback_allowed_def idle_feed_link_allowed_def Let_def)

lemma resolved_layer:
  "resolve_policy c s kb = Some e \<Longrightarrow>
    e \<in> set KEY_POLICY \<and> entry_matches e c kb \<and> gate_allows (pe_gate e) c s"
  by (auto simp: resolve_policy_def dest!: find_in_set)

text \<open>
  C30. A focused text entry keeps what is typed. While one is focused and the prefix is not
  armed, no press runs a command or waits for one, except the four that open a sidebar or the
  help; and when no modal overlay blocks the keyboard, every press without Alt that is not one
  of those four reaches the focused leaf.
\<close>

theorem text_entry_keeps_characters:
  assumes "ro_text_entry_focused (sn_overlays s)" "\<not> sn_prefix_armed s"
  shows "resolve_router_outcome k s focused kb \<in> {Swallow, Fall_Through} \<union> Run ` sidebar_commands
    \<and> (\<not> of_blocking (ro_focus (sn_overlays s)) \<and> \<not> mods_contain (kc_mods (key_chord_from_key k)) MOD_ALT
        \<longrightarrow> resolve_router_outcome k s focused kb \<noteq> Swallow)"
proof (cases "resolve_policy (key_chord_from_key k) s kb")
  case None
  then show ?thesis using assms by (simp add: resolve_router_outcome_def unclaimed_outcome_def)
next
  case (Some e)
  let ?c = "key_chord_from_key k"
  note e = resolved_layer [OF Some]
  have open_gate: "pe_gate e \<notin> {PG_Playback, PG_PlaybackUngated, PG_PrefixArming, PG_IdleFeedLink}"
    using e text_closes_gates [OF assms(1)] by blast
  then have np: "pe_binding e \<noteq> B_PrefixArm" using e prefix_layer_gate(1) by blast
  have r: "resolve_router_outcome k s focused kb = (if pe_blocking e then Swallow else routed_outcome e ?c s focused)"
    using Some assms(2) np by (simp add: resolve_router_outcome_def)
  have routed: "routed_outcome e ?c s focused \<in> {Swallow, Fall_Through} \<union> Run ` sidebar_commands
      \<and> (routed_outcome e ?c s focused = Swallow \<longrightarrow> of_blocking (ro_focus (sn_overlays s)))"
  proof (cases "pe_binding e \<in> {B_SettingsOpen, B_SessionsOpen, B_PlaylistsOpen, B_HelpOpen}")
    case True
    then show ?thesis
      by (auto simp: routed_outcome_def command_for_policy_def sidebar_commands_def)
  next
    case False
    show ?thesis
    proof (cases "pe_global e")
      case True
      with False assms(1) show ?thesis by (simp add: routed_outcome_def)
    next
      case ng: False
      then have "pe_binding e \<in> {B_QueueColumnWidth, B_SessionsSidebarTransfer, B_SessionsDismiss}"
        using e layers_and_text open_gate by blast
      then show ?thesis using ng
        by (auto simp: routed_outcome_def command_for_policy_def unclaimed_outcome_def split: option.splits)
    qed
  qed
  have "mods_contain (kc_mods ?c) MOD_ALT" if "pe_blocking e"
  proof -
    have "pe_binding e = B_AltSwallow" using that e np prefix_layer_gate(2) by blast
    moreover have "pe_name e = ''alt_swallow''" using calculation e prefix_layer_gate(3) by blast
    ultimately show ?thesis using e alt_swallow_literal by (simp add: entry_matches_def)
  qed
  with r routed show ?thesis by auto
qed

section \<open>Small configurations\<close>

text \<open>A file with one override, and a file with a prefix and one assignment, are accepted when
  their chords are free.\<close>

definition one_section :: "keybind_action \<Rightarrow> (string \<times> string) list \<Rightarrow> (string \<times> string) list \<Rightarrow> (string \<times> raw_section) list" where
  "one_section a router prefix =
     [(lower_section (ka_section a), \<lparr>rs_router = router, rs_prefix = prefix\<rparr>)]"

lemma action_not_retired: "action_by_id n = Some a \<Longrightarrow> \<not> skip_retired_action n"
  using names_ok_not_retired [of "ka_section a" "[(n, chord_of 0 CK_Tab)]" n "chord_of 0 CK_Tab"]
  by (simp add: names_ok_def)

lemma free_of_defaults:
  assumes "list_all (\<lambda>(m, cs). m = n \<or> c \<notin> set cs) default_table"
    and "b \<in> set KEYBIND_ACTIONS" "ka_name b \<noteq> n"
  shows "c \<notin> set (default_chords_of b)"
  using assms default_entry [OF assms(2)] by (auto simp: list_all_iff)

lemma one_override_loads:
  assumes "action_by_id n = Some a" "chord_parse t = Inr c" "c \<noteq> reserved_chord"
    and "list_all (\<lambda>(m, cs). m = n \<or> c \<notin> set cs) default_table"
  shows "load_keybinds \<lparr>rk_prefix = None, rk_sections = one_section a [(n, t)] []\<rparr>
    = Some (Inr \<lparr>kb_prefix = None, kb_sections = [(ka_section a, \<lparr>sb_router = [(n, c)], sb_prefix = []\<rparr>)]\<rparr>)"
proof -
  have sec: "section_from_name (lower_section (ka_section a)) = Some (ka_section a)"
    by (simp add: section_from_name_iff lower_section_name)
  have "unambiguous None [(n, c)] []"
    using free_of_defaults [OF assms(4)] by (simp add: unambiguous_def chords_under_def)
  then show ?thesis
    using assms(1-3) sec action_not_retired [OF assms(1)]
    by (simp add: load_iff keys_admissible_def compiled_def one_section_def compiled_section_def
        section_ok_def entry_ok_def text_ok_def lower_names_def all_router_sections
        eq_ignore_ascii_case_def lower_section_name)
qed

lemma one_assignment_loads:
  assumes "action_by_id n = Some a" "ka_prefix_addressable a"
    and "chord_parse t = Inr c" "chord_parse pt = Inr p" "c \<noteq> reserved_chord" "p \<noteq> reserved_chord" "p \<noteq> c"
    and "list_all (\<lambda>(m, cs). p \<notin> set cs) default_table"
  shows "load_keybinds \<lparr>rk_prefix = Some pt, rk_sections = one_section a [] [(n, t)]\<rparr>
    = Some (Inr \<lparr>kb_prefix = Some p, kb_sections = [(ka_section a, \<lparr>sb_router = [], sb_prefix = [(n, c)]\<rparr>)]\<rparr>)"
proof -
  have sec: "section_from_name (lower_section (ka_section a)) = Some (ka_section a)"
    by (simp add: section_from_name_iff lower_section_name)
  have "p \<notin> set (default_chords_of b)" if "b \<in> set KEYBIND_ACTIONS" for b
    using assms(8) default_entry [OF that] by (auto simp: list_all_iff)
  then have "unambiguous (Some p) [] [(n, c)]" using assms(7) by (simp add: unambiguous_def)
  then show ?thesis
    using assms(1-6) sec action_not_retired [OF assms(1)]
    by (simp add: load_iff keys_admissible_def compiled_def one_section_def compiled_section_def
        section_ok_def entry_ok_def text_ok_def lower_names_def all_router_sections addressable_def
        eq_ignore_ascii_case_def lower_section_name)
qed

section \<open>Where the loader and the router part\<close>

definition settings_action :: keybind_action where
  "settings_action = the (action_by_id ''settings_open'')"

definition shift_n :: chord where "shift_n = chord_of 2 (CK_Char 110)"

definition shadow_raw :: raw_keybinds where
  "shadow_raw = \<lparr>rk_prefix = None, rk_sections = one_section settings_action [(''settings_open'', ''Shift+n'')] []\<rparr>"

definition shadow_kb :: keybinds where
  "shadow_kb = \<lparr>kb_prefix = None,
     kb_sections = [(Section_Global, \<lparr>sb_router = [(''settings_open'', shift_n)], sb_prefix = []\<rparr>)]\<rparr>"

lemma settings_action_facts:
  "action_by_id ''settings_open'' = Some settings_action" "ka_section settings_action = Section_Global"
  "ka_name settings_action = ''settings_open''"
  by (simp_all add: settings_action_def action_by_id_def KEYBIND_ACTIONS_def declare_action_def)

lemma shift_n_text: "chord_parse ''Shift+n'' = Inr shift_n"
proof -
  have "chord_display shift_n = ''Shift+n''" unfolding shift_n_def by code_simp
  moreover have "chord_expressible shift_n"
    by (simp add: shift_n_def chord_of_def chord_expressible_def is_scalar_def char_whitespace_def)
  ultimately show ?thesis using display_parse by metis
qed

lemma shadow_loads: "load_keybinds shadow_raw = Some (Inr shadow_kb)"
  unfolding shadow_raw_def shadow_kb_def settings_action_facts(2) [symmetric]
  by (rule one_override_loads [OF settings_action_facts(1) shift_n_text])
    (simp_all add: shift_n_def reserved_chord_def chord_of_def default_table_def)

definition press_shift_n :: key_event where
  "press_shift_n = \<lparr>ke_code = char_key CHR ''n'', ke_modifiers = MOD_SHIFT\<rparr>"

definition next_track_action :: keybind_action where
  "next_track_action = the (action_by_id ''next_track'')"

lemma shift_n_normal:
  "from_keybinds_chord shift_n = key_chord_from_key press_shift_n"
  "from_keybinds_chord (chord_of 2 (CK_Char 78)) = key_chord_from_key press_shift_n"
  by (simp_all add: from_keybinds_chord_def key_chord_from_key_def press_shift_n_def shift_n_def
      chord_of_def key_chord_new_def fold_shift_case_def char_key_def registry_mods_to_modifiers_def
      km_contains_def KM_CTRL_def KM_SHIFT_def KM_ALT_def mods_union_def MOD_NONE_def MOD_SHIFT_def
      mods_contain_def is_ascii_uppercase_def)

lemma next_track_action_facts:
  "action_by_id ''next_track'' = Some next_track_action" "ka_name next_track_action = ''next_track''"
  by (simp_all add: next_track_action_def action_by_id_def KEYBIND_ACTIONS_def declare_action_def)

lemma shadow_chords:
  "router_chords shadow_kb settings_action = Some [shift_n]"
  "router_chords shadow_kb next_track_action = Some [chord_of 2 (CK_Char 78)]"
proof -
  have "next_track_action \<in> set KEYBIND_ACTIONS"
    using next_track_action_facts action_by_id_Some by blast
  then have "parsed_default_chords next_track_action = Some (default_chords_of next_track_action)"
    by (rule parsed_defaults)
  then show "router_chords shadow_kb next_track_action = Some [chord_of 2 (CK_Char 78)]"
    by (simp add: router_chords_def router_override_map all_router_def shadow_kb_def
        next_track_action_facts default_chords_of_def default_table_def)
  show "router_chords shadow_kb settings_action = Some [shift_n]"
    by (simp add: router_chords_def router_override_map all_router_def shadow_kb_def settings_action_facts)
qed

text \<open>
  C37. The loader accepts configurations in which one press has two meanings. It compares chords
  as written, the router compares them in normal form, where a letter under Shift is its small
  letter: settings on \<open>Shift+n\<close> is accepted beside the default \<open>Shift+N\<close> of the next track, the
  two are one press for the router, and that press opens the settings.
\<close>

theorem case_variant_shadows:
  assumes "\<not> sn_prefix_armed s" "\<not> of_blocking (ro_focus (sn_overlays s))"
  shows "load_keybinds shadow_raw = Some (Inr shadow_kb)
    \<and> router_chords shadow_kb settings_action = Some [shift_n]
    \<and> router_chords shadow_kb next_track_action = Some [chord_of 2 (CK_Char 78)]
    \<and> set (fires_on shadow_kb settings_action) = set (fires_on shadow_kb next_track_action)
    \<and> resolve_router_outcome press_shift_n s focused shadow_kb = Run (Command_App (App_Navigation ToggleSettings))"
proof -
  let ?c = "key_chord_from_key press_shift_n"
  have f: "fires_on shadow_kb settings_action = [?c]" "fires_on shadow_kb next_track_action = [?c]"
    by (simp_all add: fires_on_def shadow_chords shift_n_normal)
  have "resolve_policy ?c s shadow_kb =
      Some (policy_layer ''settings_open'' True B_SettingsOpen PG_NoBlockingOverlay False)"
    unfolding resolve_policy_def KEY_POLICY_def
    by (simp add: policy_layer_def entry_matches_def settings_action_facts f gate_allows_def assms(2)
        shadow_kb_def [THEN arg_cong [where f = kb_prefix]])
  then have "resolve_router_outcome press_shift_n s focused shadow_kb
      = Run (Command_App (App_Navigation ToggleSettings))"
    using assms(1)
    by (simp add: resolve_router_outcome_def policy_layer_def routed_outcome_def command_for_policy_def)
  then show ?thesis using shadow_loads shadow_chords f by simp
qed

definition open_idle_link :: ui_command where
  "open_idle_link = Command_App (App_Visual OpenIdleFeedLink)"

lemma idle_link_binding: "command_for_policy b c = Some open_idle_link \<Longrightarrow> b = B_OpenIdleFeedLink"
  by (cases b; cases "digit_tab (kc_code c)") (auto simp: command_for_policy_def open_idle_link_def)

lemma idle_link_layer:
  "\<forall>e\<in>set KEY_POLICY. pe_binding e = B_OpenIdleFeedLink \<longrightarrow>
     pe_name e = ''open_idle_feed_link'' \<and> pe_gate e = PG_IdleFeedLink"
  by (simp add: KEY_POLICY_def policy_layer_def)

lemma idle_link_gate:
  "gate_allows PG_IdleFeedLink c s \<Longrightarrow> c = \<lparr>kc_code = char_key CHR ''o'', kc_mods = 0\<rparr>"
  by (auto simp: gate_allows_def idle_feed_link_allowed_def idle_feed_command_for_key_def mods_empty_def
      split: if_splits)

lemma idle_link_declared: "\<exists>a. action_by_id ''open_idle_feed_link'' = Some a \<and> ka_name a = ''open_idle_feed_link''"
  by (simp add: action_by_id_def KEYBIND_ACTIONS_def declare_action_def)

text \<open>
  C38. The idle feed link cannot be rebound. Its gate tests the pressed chord for a bare \<open>o\<close>
  whatever the configuration says, so once the action is given any other chord no press, armed
  or not, opens the link.
\<close>

theorem rebound_idle_link_is_dead:
  assumes "router_override kb ''open_idle_feed_link'' = Some c"
    and "from_keybinds_chord c \<noteq> \<lparr>kc_code = char_key CHR ''o'', kc_mods = 0\<rparr>"
  shows "resolve_router_outcome k s focused kb
    \<notin> {Run open_idle_link, Deferred open_idle_link, Prefix_Dispatch open_idle_link}"
proof
  assume r: "resolve_router_outcome k s focused kb
    \<in> {Run open_idle_link, Deferred open_idle_link, Prefix_Dispatch open_idle_link}"
  have fires: "fires_on kb a = [from_keybinds_chord c]" if "ka_name a = ''open_idle_feed_link''" for a
    using assms(1) that by (simp add: fires_on_def router_chords_def)
  have "\<exists>e x a. e \<in> set KEY_POLICY \<and> pe_binding e = B_OpenIdleFeedLink \<and> gate_allows (pe_gate e) x s
      \<and> ka_name a = pe_name e \<and> x \<in> set (fires_on kb a)"
  proof (cases "sn_prefix_armed s")
    case True
    then have "resolve_armed_outcome (key_chord_from_key k) s kb = Prefix_Dispatch open_idle_link"
      using r armed_outcome [of "key_chord_from_key k" s kb] by (auto simp: resolve_router_outcome_def)
    from armed_dispatch_allowed [OF this] idle_link_binding show ?thesis by metis
  next
    case False
    then obtain e where e: "resolve_policy (key_chord_from_key k) s kb = Some e"
      and "routed_outcome e (key_chord_from_key k) s focused
        \<in> {Run open_idle_link, Deferred open_idle_link, Prefix_Dispatch open_idle_link}"
      using r by (auto simp: resolve_router_outcome_def unclaimed_outcome_def Let_def
          split: option.splits if_splits)
    then have b: "pe_binding e = B_OpenIdleFeedLink"
      by (auto simp: routed_outcome_def unclaimed_outcome_def dest!: idle_link_binding
          split: if_splits option.splits)
    note l = resolved_layer [OF e]
    obtain a where a: "action_by_id ''open_idle_feed_link'' = Some a" "ka_name a = ''open_idle_feed_link''"
      using idle_link_declared by blast
    have n: "pe_name e = ''open_idle_feed_link''" using l b idle_link_layer by blast
    with l a b have "key_chord_from_key k \<in> set (fires_on kb a)" by (simp add: entry_matches_def)
    with l a(2) b n show ?thesis by metis
  qed
  then obtain e x a where e: "e \<in> set KEY_POLICY" "pe_binding e = B_OpenIdleFeedLink"
    "gate_allows (pe_gate e) x s" "ka_name a = pe_name e" "x \<in> set (fires_on kb a)" by blast
  then have "x = from_keybinds_chord c" using idle_link_layer fires [of a] by auto
  moreover have "x = \<lparr>kc_code = char_key CHR ''o'', kc_mods = 0\<rparr>"
    using e idle_link_layer idle_link_gate by metis
  ultimately show False using assms(2) by simp
qed

section \<open>Samples\<close>

definition sample_snapshot :: "bool \<Rightarrow> bool \<Rightarrow> router_snapshot" where
  "sample_snapshot armed text_entry =
     \<lparr>sn_playback = \<lparr>rp_player_active = True, rp_remote_target = Remote_Direct,
                     rp_queue_only_idle = False, rp_idle_feed_link_available = False\<rparr>,
      sn_overlays = \<lparr>ro_focus = Overlay_Free, ro_help = False, ro_sessions_sidebar = False,
                     ro_text_entry_focused = text_entry\<rparr>,
      sn_panel_mode = Panel_Both, sn_panel_focus = Focus_Library,
      sn_visual_selection_active = False, sn_prefix_armed = armed\<rparr>"

definition help_action :: keybind_action where
  "help_action = the (action_by_id ''help_open'')"

definition ctrl_b :: chord where "ctrl_b = chord_of 1 (CK_Char 98)"

definition esc_chord :: chord where "esc_chord = chord_of 0 CK_Esc"

definition escape_raw :: raw_keybinds where
  "escape_raw = \<lparr>rk_prefix = Some ''Ctrl+b'', rk_sections = one_section help_action [] [(''help_open'', ''Esc'')]\<rparr>"

definition escape_kb :: keybinds where
  "escape_kb = \<lparr>kb_prefix = Some ctrl_b,
     kb_sections = [(Section_Global, \<lparr>sb_router = [], sb_prefix = [(''help_open'', esc_chord)]\<rparr>)]\<rparr>"

lemma help_action_facts:
  "action_by_id ''help_open'' = Some help_action" "ka_section help_action = Section_Global"
  "ka_prefix_addressable help_action" "ka_name help_action = ''help_open''"
  by (simp_all add: help_action_def action_by_id_def KEYBIND_ACTIONS_def declare_action_def)

lemma sample_chord_texts: "chord_parse ''Ctrl+b'' = Inr ctrl_b" "chord_parse ''Esc'' = Inr esc_chord"
proof -
  have "chord_display ctrl_b = ''Ctrl+b''" "chord_display esc_chord = ''Esc''"
    unfolding ctrl_b_def esc_chord_def by code_simp+
  moreover have "chord_expressible ctrl_b" "chord_expressible esc_chord"
    by (simp_all add: ctrl_b_def esc_chord_def chord_of_def chord_expressible_def is_scalar_def char_whitespace_def)
  ultimately show "chord_parse ''Ctrl+b'' = Inr ctrl_b" "chord_parse ''Esc'' = Inr esc_chord"
    using display_parse by metis+
qed

lemma escape_loads: "load_keybinds escape_raw = Some (Inr escape_kb)"
  unfolding escape_raw_def escape_kb_def help_action_facts(2) [symmetric]
  by (rule one_assignment_loads [OF help_action_facts(1,3) sample_chord_texts(2,1)])
    (simp_all add: ctrl_b_def esc_chord_def reserved_chord_def chord_of_def default_table_def)

definition press_escape :: key_event where
  "press_escape = \<lparr>ke_code = Key_Esc, ke_modifiers = 0\<rparr>"

lemma sample_normal:
  "from_keybinds_chord esc_chord = key_chord_from_key press_escape"
  "from_keybinds_chord ctrl_b \<noteq> key_chord_from_key press_escape"
  by (simp_all add: from_keybinds_chord_def key_chord_from_key_def press_escape_def esc_chord_def ctrl_b_def
      chord_of_def key_chord_new_def fold_shift_case_def registry_mods_to_modifiers_def
      km_contains_def KM_CTRL_def KM_SHIFT_def KM_ALT_def mods_union_def MOD_NONE_def)

text \<open>Escape assigned to an action in the prefix namespace is accepted, and in armed mode it then
  runs the action.\<close>

lemma armed_escape_dispatches:
  "load_keybinds escape_raw = Some (Inr escape_kb)"
  "resolve_router_outcome press_escape (sample_snapshot True False) None escape_kb
    = Prefix_Dispatch (Command_Shell OpenHelp)"
proof -
  show "load_keybinds escape_raw = Some (Inr escape_kb)" by (rule escape_loads)
  have a: "help_action \<in> set KEYBIND_ACTIONS" using help_action_facts action_by_id_Some by blast
  have "prefix_assignments escape_kb = [(help_action, esc_chord)]"
    by (simp add: prefix_assignments_def all_prefix_def escape_kb_def help_action_facts map_filter_simps)
  moreover have "router_chords escape_kb help_action = Some (default_chords_of help_action)"
    using parsed_defaults [OF a]
    by (simp add: router_chords_def router_override_map all_router_def escape_kb_def)
  then have "fires_on escape_kb help_action = [\<lparr>kc_code = Key_Function 1, kc_mods = 0\<rparr>]"
    by (simp add: fires_on_def default_chords_of_def help_action_facts default_table_def chord_of_def
        from_keybinds_chord_def key_chord_new_def fold_shift_case_def registry_mods_to_modifiers_def
        km_contains_def KM_CTRL_def KM_SHIFT_def KM_ALT_def MOD_NONE_def)
  then have "armed_command help_action (sample_snapshot True False) escape_kb = Some (Command_Shell OpenHelp)"
    unfolding armed_command_def
    by (simp add: KEY_POLICY_def policy_layer_def help_action_facts gate_allows_def sample_snapshot_def
        of_blocking_def command_for_policy_def)
  moreover have "kb_prefix escape_kb = Some ctrl_b" by (simp add: escape_kb_def)
  ultimately show "resolve_router_outcome press_escape (sample_snapshot True False) None escape_kb
    = Prefix_Dispatch (Command_Shell OpenHelp)"
    by (simp add: resolve_router_outcome_def resolve_armed_outcome_def sample_normal sample_snapshot_def)
qed

section \<open>The properties at work\<close>

lemma loaded_bindings_unambiguous_witness:
  "set (default_chords_of help_action) \<inter> set (default_chords_of settings_action) = {}
   \<and> kb_prefix escape_kb \<notin> Some ` set (default_chords_of help_action)"
proof -
  have a: "help_action \<in> set KEYBIND_ACTIONS" "settings_action \<in> set KEYBIND_ACTIONS"
    using help_action_facts settings_action_facts action_by_id_Some by blast+
  have r: "router_chords escape_kb x = Some (default_chords_of x)" if "x \<in> set KEYBIND_ACTIONS" for x
    using parsed_defaults [OF that]
    by (simp add: router_chords_def router_override_map all_router_def escape_kb_def)
  show ?thesis
    using loaded_bindings_unambiguous [OF escape_loads a _ r [OF a(1)] r [OF a(2)]]
    by (simp add: help_action_facts settings_action_facts)
qed

definition sample_doc :: toml_table where
  "sample_doc = [(''server'', Toml_Other), (''keys'', Toml_Table
     [(''prefix'', Toml_String ''Ctrl+b''),
      (''global'', Toml_Table [(''prefix'', Toml_Table [(''help_open'', Toml_String ''Esc'')])])])]"

lemma sample_doc_parsed: "parse_keys sample_doc = Some (Inr escape_kb)"
  using escape_loads
  by (simp add: parse_keys_def sample_doc_def parse_raw_keybinds_def escape_raw_def one_section_def
      help_action_facts)

lemma keys_file_round_trip_witness:
  "\<exists>kb'. parse_keys (write_keys_section (\<lambda>k t. 0) escape_kb sample_doc) = Some (Inr kb')
    \<and> kb_prefix kb' = Some ctrl_b \<and> prefix_assignment kb' ''help_open'' = Some esc_chord"
proof -
  have "toml_wf (Toml_Table sample_doc)" by (simp add: sample_doc_def)
  moreover have "kb_prefix escape_kb = Some ctrl_b" "prefix_assignment escape_kb ''help_open'' = Some esc_chord"
    by (simp_all add: escape_kb_def prefix_assignment_map all_prefix_def)
  ultimately show ?thesis
    using keys_file_round_trip [OF sample_doc_parsed, of "\<lambda>k t. 0"] by auto
qed

definition sample_tick :: "nat tick_msg list" where
  "sample_tick = [Msg_Leaf 7, Msg_Key press_escape]"

lemma sample_tick_run:
  "shell_tick sample_tick (sample_snapshot True False) None escape_kb = ([Command_Shell OpenHelp], [], False)"
  using armed_escape_dispatches(2)
  by (simp add: shell_tick_def sample_tick_def tick_router_outcome_def arbitrate_key_def
      observe_key_messages_def retain_arbitrated_messages_def retained_def keeps_leaf_def
      dispatched_def armed_after_def)

lemma armed_prefix_captures_witness:
  "set (fst (snd (shell_tick sample_tick (sample_snapshot True False) None escape_kb))) \<subseteq> {Msg_Terminal}
   \<and> \<not> snd (snd (shell_tick sample_tick (sample_snapshot True False) None escape_kb))
   \<and> \<not> (\<exists>p. kb_prefix escape_kb = Some p \<and> from_keybinds_chord p = key_chord_from_key press_escape)"
proof -
  have h: "sn_prefix_armed (sample_snapshot True False)" "length [m \<leftarrow> sample_tick. is_msg_key m] = 1"
    by (simp_all add: sample_snapshot_def sample_tick_def)
  have k: "tick_key sample_tick = Some press_escape" by (simp add: sample_tick_def)
  from armed_prefix_captures [OF h sample_tick_run, THEN conjunct2, THEN conjunct2, THEN conjunct1] k
  have "\<not> (\<exists>p. kb_prefix escape_kb = Some p \<and> from_keybinds_chord p = key_chord_from_key press_escape)"
    by simp
  then show ?thesis by (simp add: sample_tick_run)
qed

lemma text_entry_keeps_characters_witness:
  "resolve_router_outcome press_shift_n (sample_snapshot False True) None keybinds_defaults
    \<in> {Fall_Through} \<union> Run ` sidebar_commands"
proof -
  have "\<not> mods_contain (kc_mods (key_chord_from_key press_shift_n)) MOD_ALT"
    by (simp add: key_chord_from_key_def press_shift_n_def key_chord_new_def char_key_def
        mods_contain_def MOD_ALT_def MOD_SHIFT_def)
  then show ?thesis
    using text_entry_keeps_characters [of "sample_snapshot False True" press_shift_n None keybinds_defaults]
    by (auto simp: sample_snapshot_def of_blocking_def)
qed

lemma case_variant_shadows_witness:
  "resolve_router_outcome press_shift_n (sample_snapshot False False) None shadow_kb
    = Run (Command_App (App_Navigation ToggleSettings))"
  using case_variant_shadows [of "sample_snapshot False False" None]
  by (simp add: sample_snapshot_def of_blocking_def)

definition rebound_kb :: keybinds where
  "rebound_kb = \<lparr>kb_prefix = None, kb_sections =
     [(Section_Playback, \<lparr>sb_router = [(''open_idle_feed_link'', chord_of 0 (CK_Char 105))], sb_prefix = []\<rparr>)]\<rparr>"

lemma rebound_idle_link_is_dead_witness:
  "resolve_router_outcome \<lparr>ke_code = char_key CHR ''i'', ke_modifiers = 0\<rparr> (sample_snapshot False False)
     None rebound_kb \<noteq> Run open_idle_link"
  using rebound_idle_link_is_dead [of rebound_kb "chord_of 0 (CK_Char 105)"
      "\<lparr>ke_code = char_key CHR ''i'', ke_modifiers = 0\<rparr>" "sample_snapshot False False" None]
  by (simp add: router_override_map all_router_def rebound_kb_def chord_of_def from_keybinds_chord_def
      key_chord_new_def fold_shift_case_def registry_mods_to_modifiers_def km_contains_def KM_CTRL_def
      KM_SHIFT_def KM_ALT_def MOD_NONE_def mods_contain_def MOD_SHIFT_def char_key_def)

end
