(* ===== verification/Player_Control.thy ===== *)
theory Player_Control
  imports Run_Loop
begin

text \<open>
  The handle the owner holds on its player (\<^verbatim>\<open>mbv-player/src/controller.rs\<close>,
  \<^verbatim>\<open>mbv-player/src/submit.rs\<close>): the status it shares with the run, the two channels into the run
  (commands, and the stop request that is spent by one stop) and the flags that decide whether a
  submission goes into the live run or starts a new one. What the handle does to a run is logged as
  effects. Whether the run's thread still holds the receiving end of the command channel, and
  whether its loop has returned, is the run's side of the state: \<open>run_loop_returned\<close> and
  \<open>run_thread_ended\<close> change it. The player's fixed options, its credentials and the sockets are not
  modelled.
\<close>

section \<open>State\<close>

text \<open>\<^verbatim>\<open>PlayerStatus\<close>: the fields the run's part has, and those only the owner reads.\<close>

record playback_status =
  st_run :: player_status
  st_paused :: bool
  st_volume :: i64
  st_volume_max :: i64
  st_muted :: bool
  st_video_height :: i64
  st_sub_tracks :: "i64 list"
  st_sub_stream_indexes :: "(i64 \<times> i64) list"

datatype wire_command =
    Wire_Toggle_Pause
  | Wire_Jump_To usize
  | Wire_Set_Volume i64
  | Wire_Seek seconds
  | Wire_Seek_Absolute seconds
  | Wire_Set_Audio i64
  | Wire_Set_Sub i64
  | Wire_Set_Subtitle_Prefs string string string
  | Wire_Set_Mute bool
  | Wire_Next_Up_Show string string string string
  | Wire_Next_Up_Dismiss
  | Wire_Skip_Intro_Dismiss

text \<open>
  \<^verbatim>\<open>PlayerCommand\<close>: the commands that only exist in the process, and those with a form on the wire,
  which the conversion from the wire carries over one by one.
\<close>

datatype run_message = Msg_Run player_command | Msg_Wire wire_command

datatype player_effect =
    Run_Sent run_message
  | Run_Told_To_Stop
  | Run_Joined
  | Run_Started "exec_slot list" usize "seconds option" generation playback_origin bool

record player =
  pl_status :: playback_status
  pl_abs_context :: bool
  pl_show_audio_window :: bool
  pl_origin :: playback_origin
  pl_is_headless :: bool
  pl_run_exited :: bool
  pl_stop_tx :: bool
  pl_cmd_tx :: bool
  pl_receiving :: bool
  pl_thread :: bool
  pl_effects :: "player_effect list"

definition pl_emit :: "player_effect \<Rightarrow> player \<Rightarrow> player" where
  "pl_emit e p = p\<lparr>pl_effects := pl_effects p @ [e]\<rparr>"

definition pl_update_status :: "(playback_status \<Rightarrow> playback_status) \<Rightarrow> player \<Rightarrow> player" where
  "pl_update_status f p = p\<lparr>pl_status := f (pl_status p)\<rparr>"

definition pl_generation :: "player \<Rightarrow> generation" where
  "pl_generation p = ps_sequence_generation (st_run (pl_status p))"

section \<open>The status\<close>

text \<open>An item without an Emby identity keeps the artist and album that were shown before.\<close>

definition seed_from_item :: "queue_item \<Rightarrow> usize \<Rightarrow> usize \<Rightarrow> playback_status \<Rightarrow> playback_status" where
  "seed_from_item it idx queue_len st =
     (let s = (st_run st)\<lparr>ps_position_ticks := qi_playback_position_ticks it,
                ps_runtime_ticks := qi_runtime_ticks it, ps_current_idx := idx,
                ps_queue_len := queue_len\<rparr>
      in st\<lparr>st_paused := False,
            st_run := (case it of
                QI_Emby e \<Rightarrow> set_current_item_metadata e s
              | QI_Feed e \<Rightarrow> s\<lparr>ps_title := feed_title e, ps_art_item_id := feed_guid e\<rparr>
              | QI_Audiobookshelf (ABS_Episode e) \<Rightarrow>
                  s\<lparr>ps_title := ep_title e, ps_art_item_id := ep_episode_id e\<rparr>
              | QI_Audiobookshelf (ABS_Book b) \<Rightarrow>
                  s\<lparr>ps_title := book_title b, ps_art_item_id := book_library_item_id b\<rparr>
              | QI_Twitch t \<Rightarrow> s\<lparr>ps_title := twitch_title t, ps_art_item_id := []\<rparr>)\<rparr>)"

definition clear_current_item_metadata :: "player_status \<Rightarrow> player_status" where
  "clear_current_item_metadata s =
     s\<lparr>ps_title := [], ps_artist := [], ps_album := [], ps_art_item_id := [], ps_art_album_id := []\<rparr>"

definition toggle_to_reach :: "bool \<Rightarrow> playback_status \<Rightarrow> run_message option" where
  "toggle_to_reach paused st =
     (if st_paused st \<noteq> paused then Some (Msg_Wire Wire_Toggle_Pause) else None)"

text \<open>Of a subtitle track only its mpv id is kept.\<close>

definition subtitle_stream_index_to_mpv_id :: "i64 \<Rightarrow> playback_status \<Rightarrow> i64 option" where
  "subtitle_stream_index_to_mpv_id stream_index st =
     (if stream_index < 0 then Some 0
      else (case find (\<lambda>(_, idx). idx = stream_index) (st_sub_stream_indexes st) of
              Some (mpv_id, _) \<Rightarrow> Some mpv_id
            | None \<Rightarrow>
                (if st_sub_stream_indexes st = []
                 then find (\<lambda>mpv_id. mpv_id = stream_index) (st_sub_tracks st) else None)))"

definition set_status_active :: "bool \<Rightarrow> playback_status \<Rightarrow> playback_status" where
  "set_status_active a st = st\<lparr>st_run := (st_run st)\<lparr>ps_active := a\<rparr>\<rparr>"

definition seed_start_position :: "seconds option \<Rightarrow> playback_status \<Rightarrow> playback_status" where
  "seed_start_position start_secs st =
     (case start_secs of
        None \<Rightarrow> st
      | Some secs \<Rightarrow> st\<lparr>st_run := (st_run st)\<lparr>ps_position_ticks := seconds_to_ticks secs\<rparr>\<rparr>)"

definition advance_sequence_generation :: "player \<Rightarrow> generation \<times> player" where
  "advance_sequence_generation p =
     (let g = u64_sat_inc (pl_generation p)
      in (g, pl_update_status (\<lambda>st. st\<lparr>st_run := (st_run st)\<lparr>ps_sequence_generation := g\<rparr>\<rparr>) p))"

definition set_initial_queue :: "queue_item list \<Rightarrow> usize \<Rightarrow> player \<Rightarrow> player" where
  "set_initial_queue items cursor p =
     (if items = []
      then pl_update_status (\<lambda>st. st\<lparr>st_paused := False,
             st_run := clear_current_item_metadata
               ((st_run st)\<lparr>ps_position_ticks := 0, ps_runtime_ticks := 0, ps_current_idx := 0,
                            ps_queue_len := 0, ps_active := False\<rparr>)\<rparr>) p
      else (let i = min cursor (length items - 1) in
        pl_update_status (\<lambda>st. set_status_active False
          (seed_from_item (items ! i) i (length items) st)) p))"

section \<open>Commands and stops\<close>

text \<open>A send succeeds when a channel is installed and the run still holds its other end.\<close>

definition pl_send_command :: "run_message \<Rightarrow> player \<Rightarrow> bool \<times> player" where
  "pl_send_command m p =
     (if pl_cmd_tx p \<and> pl_receiving p then (True, pl_emit (Run_Sent m) p) else (False, p))"

definition pl_set_paused :: "bool \<Rightarrow> player \<Rightarrow> bool \<times> player" where
  "pl_set_paused paused p =
     (case toggle_to_reach paused (pl_status p) of
        Some m \<Rightarrow> pl_send_command m p
      | None \<Rightarrow> (False, p))"

definition pl_stop :: "player \<Rightarrow> player" where
  "pl_stop p = (if pl_stop_tx p then pl_emit Run_Told_To_Stop (p\<lparr>pl_stop_tx := False\<rparr>) else p)"

text \<open>Joining waits for the thread, so its end of the channel is gone afterwards.\<close>

definition pl_join :: "player \<Rightarrow> player" where
  "pl_join p =
     (if pl_thread p
      then pl_emit Run_Joined (p\<lparr>pl_thread := False, pl_receiving := False, pl_run_exited := True\<rparr>)
      else p)"

text \<open>Joining gives up after a time; \<open>in_time\<close> says whether the thread ended before.\<close>

definition pl_join_or_timeout :: "bool \<Rightarrow> player \<Rightarrow> player" where
  "pl_join_or_timeout in_time p = (if in_time then pl_join p else p\<lparr>pl_thread := False\<rparr>)"

text \<open>\<open>pipe\<close> is \<^verbatim>\<open>client.config.audio_pipe_enabled\<close>.\<close>

definition headless_for :: "bool \<Rightarrow> bool \<Rightarrow> player \<Rightarrow> bool" where
  "headless_for pipe is_audio p \<longleftrightarrow> pipe \<or> \<not> pl_show_audio_window p \<and> is_audio"

section \<open>Submissions\<close>

datatype cold_start_reason = No_Run | Headless_Mismatch | Stop_Requested | Run_Exited | Send_Failed

definition pairs_of :: "exec_slot list \<Rightarrow> (queue_slot_id \<times> queue_item) list" where
  "pairs_of = map (\<lambda>s. (xs_slot_id s, xs_item s))"

definition submit_into_live_run ::
  "bool \<Rightarrow> exec_slot list \<Rightarrow> usize \<Rightarrow> seconds option \<Rightarrow> player \<Rightarrow> cold_start_reason option \<times> player" where
  "submit_into_live_run headless items start_idx start_secs p =
     (if \<not> pl_cmd_tx p then (Some No_Run, p)
      else if pl_is_headless p \<noteq> headless then (Some Headless_Mismatch, p)
      else if \<not> pl_stop_tx p then (Some Stop_Requested, p)
      else if pl_run_exited p then (Some Run_Exited, p)
      else
        (let (sent, p1) = pl_send_command (Msg_Run (Cmd_Submit_Queue (pairs_of items) start_idx start_secs)) p
         in if \<not> sent then (Some Send_Failed, p1)
            else (None, pl_update_status (\<lambda>st. seed_start_position start_secs
                     (seed_from_item (xs_item (items ! start_idx)) start_idx (length items) st)) p1)))"

definition start_new_run ::
  "bool \<Rightarrow> exec_slot list \<Rightarrow> usize \<Rightarrow> seconds option \<Rightarrow> generation \<Rightarrow> player \<Rightarrow> player" where
  "start_new_run headless items start_idx start_secs identity p =
     (let p1 = pl_join (pl_stop p);
          origin = origin_of_count (length items);
          p2 = pl_update_status (\<lambda>st. set_status_active True (seed_start_position start_secs
                 (seed_from_item (xs_item (items ! start_idx)) start_idx (length items) st)))
                 (p1\<lparr>pl_origin := origin, pl_is_headless := headless\<rparr>)
      in pl_emit (Run_Started items start_idx start_secs identity origin headless)
           (p2\<lparr>pl_stop_tx := True, pl_cmd_tx := True, pl_receiving := True, pl_run_exited := False,
               pl_thread := True\<rparr>))"

definition submit_queue_slots ::
  "exec_slot list \<Rightarrow> usize \<Rightarrow> seconds option \<Rightarrow> bool \<Rightarrow> player \<Rightarrow> bool \<times> player" where
  "submit_queue_slots items start start_secs headless p =
     (if items = [] \<or> (\<exists>s\<in>set items. qi_is_audiobookshelf (xs_item s)) \<and> \<not> pl_abs_context p
      then (False, p)
      else
        (let start_idx = min start (length items - 1);
             (identity, p1) = advance_sequence_generation p;
             (failed, p2) = submit_into_live_run headless items start_idx start_secs p1
         in case failed of
              None \<Rightarrow> (True, p2)
            | Some _ \<Rightarrow> (True, start_new_run headless items start_idx start_secs identity p2)))"

definition sequential_slot_ids :: "queue_item list \<Rightarrow> exec_slot list" where
  "sequential_slot_ids items =
     map (\<lambda>(i, it). \<lparr>xs_slot_id = of_nat i + 1, xs_item = it\<rparr>) (enumerate 0 items)"

definition pl_play :: "bool \<Rightarrow> emby_item \<Rightarrow> player \<Rightarrow> player" where
  "pl_play pipe it p =
     snd (submit_queue_slots (sequential_slot_ids [QI_Emby it]) 0 None
            (headless_for pipe (qi_is_audio (QI_Emby it)) p) p)"

definition pl_play_queue :: "bool \<Rightarrow> emby_item list \<Rightarrow> usize \<Rightarrow> player \<Rightarrow> player" where
  "pl_play_queue pipe items start_idx p =
     (if items = [] then p
      else
        (let all_audio = (\<forall>it\<in>set items. emby_media_type it = ''Audio'' \<or> emby_item_type it = ''Audio'')
         in snd (submit_queue_slots (sequential_slot_ids (map QI_Emby items)) start_idx None
                   (headless_for pipe all_audio p) p)))"

section \<open>The run's side\<close>

definition run_loop_returned :: "player \<Rightarrow> player" where
  "run_loop_returned p = p\<lparr>pl_run_exited := True\<rparr>"

definition run_thread_ended :: "player \<Rightarrow> player" where
  "run_thread_ended p = p\<lparr>pl_run_exited := True, pl_receiving := False\<rparr>"

end
