(* ===== verification/Player_Runs.thy ===== *)
theory Player_Runs
  imports Player_Control
begin

text \<open>
  One playback run at a time. The effects the player's handle logs are read by a two-bit automaton:
  is there a run, and was it told to stop. The theory shows that everything the owner and the run do
  to the handle keeps the log readable.
\<close>

section \<open>Reading the log\<close>

text \<open>A submission with entries is for a run that goes on; other commands may reach one that stops.\<close>

fun good_message :: "run_message \<Rightarrow> bool" where
  "good_message (Msg_Run (Cmd_Submit_Queue items _ _)) = (items = [])"
| "good_message _ = True"

fun log_step :: "player_effect \<Rightarrow> (bool \<times> bool) option \<Rightarrow> (bool \<times> bool) option" where
  "log_step e None = None"
| "log_step (Run_Sent m) (Some (alive, told)) =
     (if alive \<and> (told \<longrightarrow> good_message m) then Some (alive, told) else None)"
| "log_step Run_Told_To_Stop (Some (alive, told)) = (if alive \<and> \<not> told then Some (True, True) else None)"
| "log_step Run_Joined (Some (alive, told)) = (if alive \<and> told then Some (False, False) else None)"
| "log_step (Run_Started _ _ _ _ _ _) (Some (alive, told)) = (if alive then None else Some (True, False))"

definition read_log :: "player_effect list \<Rightarrow> (bool \<times> bool) option" where
  "read_log es = fold log_step es (Some (False, False))"

definition player_ok :: "player \<Rightarrow> bool" where
  "player_ok p \<longleftrightarrow>
     read_log (pl_effects p) = Some (pl_thread p, pl_thread p \<and> \<not> pl_stop_tx p)
     \<and> (pl_receiving p \<longrightarrow> pl_thread p) \<and> (pl_stop_tx p \<longrightarrow> pl_thread p)"

lemma read_log_snoc [simp]: "read_log (es @ [e]) = log_step e (read_log es)"
  by (simp add: read_log_def)

lemma log_dead [simp]: "fold log_step es None = None"
  by (induction es) simp_all

lemma read_log_append: "read_log (es @ fs) = fold log_step fs (read_log es)"
  by (simp add: read_log_def)

section \<open>What may happen to a handle\<close>

text \<open>The owner's calls, in any order, and the run's side.\<close>

inductive player_moves :: "player \<Rightarrow> player \<Rightarrow> bool" where
  none: "player_moves p p"
| status: "player_moves p q \<Longrightarrow> player_moves p (pl_update_status f q)"
| origin: "player_moves p q \<Longrightarrow> player_moves p (q\<lparr>pl_origin := x\<rparr>)"
| connected: "player_moves p q \<Longrightarrow> player_moves p (q\<lparr>pl_abs_context := b\<rparr>)"
| send: "player_moves p q \<Longrightarrow> good_message m \<Longrightarrow> player_moves p (snd (pl_send_command m q))"
| stop: "player_moves p q \<Longrightarrow> player_moves p (pl_stop q)"
| submit: "player_moves p q \<Longrightarrow> player_moves p (snd (submit_queue_slots ss i secs headless q))"
| returned: "player_moves p q \<Longrightarrow> player_moves p (run_loop_returned q)"
| ended: "player_moves p q \<Longrightarrow> player_moves p (run_thread_ended q)"

lemma player_ok_status [simp]: "player_ok (pl_update_status f p) = player_ok p"
  by (simp add: player_ok_def pl_update_status_def)

lemma player_ok_fields [simp]:
  "player_ok (p\<lparr>pl_origin := x\<rparr>) = player_ok p"
  "player_ok (p\<lparr>pl_is_headless := b\<rparr>) = player_ok p"
  "player_ok (p\<lparr>pl_abs_context := b\<rparr>) = player_ok p"
  "player_ok (p\<lparr>pl_run_exited := b\<rparr>) = player_ok p"
  by (simp_all add: player_ok_def)

lemma player_ok_send:
  assumes "player_ok p" "good_message m \<or> pl_stop_tx p"
  shows "player_ok (snd (pl_send_command m p))"
  using assms by (auto simp: player_ok_def pl_send_command_def pl_emit_def)

lemma player_ok_stop: "player_ok p \<Longrightarrow> player_ok (pl_stop p)"
  by (auto simp: player_ok_def pl_stop_def pl_emit_def)

lemma pl_stop_stopped [simp]: "\<not> pl_stop_tx (pl_stop p)"
  by (simp add: pl_stop_def pl_emit_def)

lemma player_ok_join: "player_ok p \<Longrightarrow> \<not> pl_stop_tx p \<Longrightarrow> player_ok (pl_join p) \<and> \<not> pl_thread (pl_join p)"
  by (auto simp: player_ok_def pl_join_def pl_emit_def)

lemma player_ok_live:
  "player_ok p \<Longrightarrow> player_ok (snd (submit_into_live_run hl items i secs p))"
  using player_ok_send [of p "Msg_Run (Cmd_Submit_Queue (pairs_of items) i secs)"]
  by (auto simp: submit_into_live_run_def Let_def split_beta)

lemma player_ok_start:
  assumes "player_ok p" shows "player_ok (start_new_run hl items i secs g p)"
proof -
  let ?q = "pl_join (pl_stop p)"
  have "player_ok ?q" "\<not> pl_thread ?q" using player_ok_join [OF player_ok_stop [OF assms]] by simp_all
  then show ?thesis
    by (auto simp: start_new_run_def Let_def player_ok_def pl_emit_def pl_update_status_def)
qed

lemma player_ok_submit: "player_ok p \<Longrightarrow> player_ok (snd (submit_queue_slots ss i secs hl p))"
  by (auto simp: submit_queue_slots_def advance_sequence_generation_def Let_def split_beta
      intro!: player_ok_start player_ok_live split: option.split)

lemma player_ok_moves: "player_moves p q \<Longrightarrow> player_ok p \<Longrightarrow> player_ok q"
  by (induction rule: player_moves.induct)
    (auto intro: player_ok_send player_ok_stop player_ok_submit
      simp: run_loop_returned_def run_thread_ended_def, auto simp: player_ok_def)

section \<open>What a readable log says\<close>

lemma log_alive_ends:
  assumes "fold log_step es (Some (True, told)) = Some (False, told')"
  shows "Run_Joined \<in> set es \<and> (\<not> told \<longrightarrow> Run_Told_To_Stop \<in> set es)"
  using assms
proof (induction es arbitrary: told)
  case (Cons e es)
  then show ?case by (cases e) (auto split: if_splits)
qed simp

text \<open>Between two runs the first was told to stop and waited for.\<close>

lemma runs_in_turn:
  assumes "read_log (xs @ Run_Started a b c d e f # ys @ Run_Started a' b' c' d' e' f' # zs) \<noteq> None"
  shows "Run_Told_To_Stop \<in> set ys \<and> Run_Joined \<in> set ys"
proof -
  obtain alive told where xs: "read_log xs = Some (alive, told)"
    using assms by (cases "read_log xs") (auto simp: read_log_append)
  with assms have "\<not> alive" by (auto simp: read_log_append split: if_splits)
  obtain al' told' where ys: "fold log_step ys (Some (True, False)) = Some (al', told')"
    using assms xs \<open>\<not> alive\<close> by (cases "fold log_step ys (Some (True, False))") (auto simp: read_log_append)
  with assms xs \<open>\<not> alive\<close> have "\<not> al'" by (auto simp: read_log_append split: if_splits)
  with ys log_alive_ends [of ys False told'] show ?thesis by simp
qed

text \<open>The life of a run, as far as the log has it.\<close>

fun lifecycle :: "player_effect \<Rightarrow> bool" where
  "lifecycle (Run_Sent _) = False"
| "lifecycle _ = True"

lemma log_last_start:
  assumes "read_log es = Some (True, False)"
  shows "\<exists>a b c d e f. last (filter lifecycle es) = Run_Started a b c d e f \<and> filter lifecycle es \<noteq> []"
  using assms
proof (induction es rule: rev_induct)
  case (snoc e es)
  then show ?case
    by (cases e; cases "read_log es") (auto split: if_splits)
qed (simp add: read_log_def)

text \<open>A submission that is sent goes to a run that was started and neither told to stop nor joined.\<close>

lemma submission_to_live_run:
  assumes "read_log (xs @ Run_Sent (Msg_Run (Cmd_Submit_Queue items i secs)) # zs) \<noteq> None" "items \<noteq> []"
  shows "\<exists>a b c d e f. last (filter lifecycle xs) = Run_Started a b c d e f \<and> filter lifecycle xs \<noteq> []"
proof -
  obtain alive told where "read_log xs = Some (alive, told)"
    using assms by (cases "read_log xs") (auto simp: read_log_append)
  with assms have "read_log xs = Some (True, False)"
    by (auto simp: read_log_append split: if_splits)
  then show ?thesis by (rule log_last_start)
qed

end
