(* ===== verification/Daemon_Intents.thy ===== *)
theory Daemon_Intents
  imports Owner_State
begin

text \<open>
  The guarded playback intents of the daemon (\<^verbatim>\<open>PlaybackIntentState\<close> in
  \<^verbatim>\<open>mbv-daemon/src/core.rs\<close>, the messages from \<^verbatim>\<open>mbv-ctrl/src/commands.rs\<close> and
  \<^verbatim>\<open>mbv-ctrl/src/events.rs\<close>): one current intent, the phase it is in, and the answers its
  connection is sent. Times are nanoseconds, as for the transitions; the moment of acceptance, which only log lines
  read, is left out. Operations return their answer first.
\<close>

section \<open>Intents and answers\<close>

type_synonym client_id = u64

datatype intent_action =
    Act_Play "string list" usize i64 queue_source
  | Act_Stop
  | Act_Set_Paused bool
  | Act_Next
  | Act_Previous

record intent =
  in_request_id :: request_id
  in_generation :: generation
  in_action :: intent_action

datatype intent_rejection =
    Rej_Empty_Target | Rej_Invalid_Target | Rej_Resolution_Failed | Rej_Audio_Only | Rej_Unavailable

datatype intent_outcome =
    Out_Accepted
  | Out_Applied
  | Out_Coalesced request_id
  | Out_Superseded
  | Out_Rejected intent_rejection

record intent_event =
  ie_request_id :: request_id
  ie_generation :: generation
  ie_outcome :: intent_outcome

datatype pipe_phase = Pipe_Resolving | Pipe_Player_Opening | Pipe_Output_Started | Pipe_Output_Buffering

record pipe_status =
  pp_request_id :: request_id
  pp_generation :: generation
  pp_phase :: pipe_phase
  pp_remaining_ms :: "u64 option"

fun direction_of :: "intent_action \<Rightarrow> direction option" where
  "direction_of Act_Next = Some Next"
| "direction_of Act_Previous = Some Previous"
| "direction_of _ = None"

fun is_play :: "intent_action \<Rightarrow> bool" where
  "is_play (Act_Play _ _ _ _) = True"
| "is_play _ = False"

section \<open>The current intent\<close>

datatype intent_phase = Ph_Accepted | Ph_Resolving | Ph_Player_Opening | Ph_Output_Buffering | Ph_Applied

record current_intent =
  ci_connection :: client_id
  ci_request_id :: request_id
  ci_generation :: generation
  ci_action :: intent_action
  ci_phase :: intent_phase
  ci_pipe_output :: bool
  ci_deadline :: "instant option"

type_synonym intent_state = "current_intent option"

definition intent_event_of :: "current_intent \<Rightarrow> intent_outcome \<Rightarrow> intent_event" where
  "intent_event_of c out =
     \<lparr>ie_request_id = ci_request_id c, ie_generation = ci_generation c, ie_outcome = out\<rparr>"

definition answers_to :: "client_id \<Rightarrow> request_id \<Rightarrow> generation \<Rightarrow> current_intent \<Rightarrow> bool" where
  "answers_to con req gen c \<longleftrightarrow>
     ci_connection c = con \<and> ci_request_id c = req \<and> ci_generation c = gen"

definition is_current :: "client_id \<Rightarrow> request_id \<Rightarrow> generation \<Rightarrow> intent_state \<Rightarrow> bool" where
  "is_current con req gen s = (case s of None \<Rightarrow> False | Some c \<Rightarrow> answers_to con req gen c)"

text \<open>
  \<^verbatim>\<open>accept\<close> calls itself once, with no current intent; that call stores the intent and answers
  \<open>Out_Accepted\<close>, which is \<open>store_intent\<close>.
\<close>

definition event_for :: "intent \<Rightarrow> intent_outcome \<Rightarrow> intent_event" where
  "event_for i out =
     \<lparr>ie_request_id = in_request_id i, ie_generation = in_generation i, ie_outcome = out\<rparr>"

definition store_intent :: "client_id \<Rightarrow> intent \<Rightarrow> bool \<Rightarrow> intent_event list \<times> intent_state" where
  "store_intent con i pipe =
     ([event_for i Out_Accepted],
      Some \<lparr>ci_connection = con, ci_request_id = in_request_id i, ci_generation = in_generation i,
            ci_action = in_action i, ci_phase = Ph_Accepted, ci_pipe_output = pipe,
            ci_deadline = None\<rparr>)"

definition displaces :: "intent_action \<Rightarrow> intent_action \<Rightarrow> bool" where
  "displaces new old \<longleftrightarrow> new = Act_Stop \<or> is_play old \<and> is_play new"

definition accept_intent ::
  "client_id \<Rightarrow> intent \<Rightarrow> bool \<Rightarrow> intent_state \<Rightarrow> intent_event list \<times> intent_state" where
  "accept_intent con i pipe s =
     (if in_action i = Act_Next \<or> in_action i = Act_Previous then ([event_for i Out_Accepted], s)
      else case s of
        None \<Rightarrow> store_intent con i pipe
      | Some c \<Rightarrow>
          (if ci_phase c \<noteq> Ph_Applied \<and> ci_connection c = con
           then if ci_action c = in_action i
                then ([event_for i (Out_Coalesced (ci_request_id c))], s)
                else if displaces (in_action i) (ci_action c)
                then (let (events, s') = store_intent con i pipe
                      in (intent_event_of c Out_Superseded # events, s'))
                else store_intent con i pipe
           else store_intent con i pipe))"

definition mark_phase :: "intent_phase \<Rightarrow> request_id \<Rightarrow> intent_state \<Rightarrow> intent_state" where
  "mark_phase ph req s =
     map_option (\<lambda>c. if ci_request_id c = req then c\<lparr>ci_phase := ph\<rparr> else c) s"

definition mark_resolving :: "request_id \<Rightarrow> intent_state \<Rightarrow> intent_state" where
  "mark_resolving = mark_phase Ph_Resolving"

definition mark_starting :: "request_id \<Rightarrow> intent_state \<Rightarrow> intent_state" where
  "mark_starting = mark_phase Ph_Player_Opening"

text \<open>Whole milliseconds as the wire has them: a count past the range is cut to the largest.\<close>

definition wire_ms :: "nat \<Rightarrow> u64" where
  "wire_ms duration = (let n = duration div 10 ^ 6 in if n < 2 ^ 64 then of_nat n else - 1)"

definition pipe_status_of :: "instant \<Rightarrow> intent_state \<Rightarrow> pipe_status option" where
  "pipe_status_of now s =
     (case s of
        None \<Rightarrow> None
      | Some c \<Rightarrow>
          (if \<not> ci_pipe_output c then None
           else
             map_option (\<lambda>(ph, remaining).
                 \<lparr>pp_request_id = ci_request_id c, pp_generation = ci_generation c, pp_phase = ph,
                  pp_remaining_ms = remaining\<rparr>)
               (case ci_phase c of
                  Ph_Resolving \<Rightarrow> Some (Pipe_Resolving, None)
                | Ph_Player_Opening \<Rightarrow> Some (Pipe_Player_Opening, None)
                | Ph_Output_Buffering \<Rightarrow>
                    Some (Pipe_Output_Buffering, map_option (\<lambda>d. wire_ms (d - now)) (ci_deadline c))
                | Ph_Accepted \<Rightarrow> None
                | Ph_Applied \<Rightarrow> None)))"

definition output_started_if_current ::
  "instant \<Rightarrow> nat option \<Rightarrow> intent_state \<Rightarrow> (client_id \<times> pipe_status) option \<times> intent_state" where
  "output_started_if_current now delay s =
     (case s of
        None \<Rightarrow> (None, s)
      | Some c \<Rightarrow>
          (if \<not> ci_pipe_output c \<or> \<not> is_play (ci_action c) then (None, s)
           else
             (let (c', ph, remaining) =
                    (case delay of
                       Some d \<Rightarrow> (c\<lparr>ci_phase := Ph_Output_Buffering, ci_deadline := Some (now + d)\<rparr>,
                                  Pipe_Output_Buffering, Some (wire_ms d))
                     | None \<Rightarrow> (c\<lparr>ci_phase := Ph_Applied\<rparr>, Pipe_Output_Started, None))
              in (Some (ci_connection c,
                    \<lparr>pp_request_id = ci_request_id c, pp_generation = ci_generation c, pp_phase = ph,
                     pp_remaining_ms = remaining\<rparr>), Some c'))))"

definition settle_buffering_if_due ::
  "instant \<Rightarrow> intent_state \<Rightarrow> (client_id \<times> intent_event) option \<times> intent_state" where
  "settle_buffering_if_due now s =
     (case s of
        None \<Rightarrow> (None, s)
      | Some c \<Rightarrow>
          (if ci_phase c \<noteq> Ph_Output_Buffering
              \<or> (case ci_deadline c of None \<Rightarrow> True | Some d \<Rightarrow> d > now)
           then (None, s)
           else (Some (ci_connection c, intent_event_of c Out_Applied),
                 Some (c\<lparr>ci_phase := Ph_Applied, ci_deadline := None\<rparr>))))"

definition applied_if_current ::
  "client_id \<Rightarrow> request_id \<Rightarrow> generation \<Rightarrow> intent_state \<Rightarrow> intent_event option \<times> intent_state" where
  "applied_if_current con req gen s =
     (case s of
        None \<Rightarrow> (None, s)
      | Some c \<Rightarrow>
          (if \<not> answers_to con req gen c then (None, s)
           else (Some (intent_event_of c Out_Applied), Some (c\<lparr>ci_phase := Ph_Applied\<rparr>))))"

definition rejected_if_current ::
  "client_id \<Rightarrow> request_id \<Rightarrow> generation \<Rightarrow> intent_rejection \<Rightarrow> intent_state
   \<Rightarrow> intent_event option \<times> intent_state" where
  "rejected_if_current con req gen reason s =
     (case s of
        None \<Rightarrow> (None, s)
      | Some c \<Rightarrow>
          (if \<not> answers_to con req gen c then (None, s)
           else (Some (intent_event_of c (Out_Rejected reason)), None)))"

definition invalidate_connection :: "client_id \<Rightarrow> intent_state \<Rightarrow> intent_state" where
  "invalidate_connection con s =
     (case s of Some c \<Rightarrow> if ci_connection c = con then None else s | None \<Rightarrow> None)"

end
