(* ===== verification/Daemon_Clients.thy ===== *)
theory Daemon_Clients
  imports Daemon_Intents Player_Control
begin

text \<open>
  The daemon's registry of control connections (\<^verbatim>\<open>mbv-daemon/src/ctrl.rs\<close>) and the messages it
  sends (\<^verbatim>\<open>mbv-ctrl/src/events.rs\<close>, \<^verbatim>\<open>mbv-ctrl/src/protocol.rs\<close>, \<^verbatim>\<open>mbv-ctrl/src/player.rs\<close>). A
  connection's outgoing channel is the flag whether its writer still holds the receiving end, and
  the registry logs what was put into the channels, in order. Messages are the values before
  \<^verbatim>\<open>serde_json\<close> renders them; rendering them does not fail. The messages of the Pin swap, the owner
  actions, the output selection and the service set-up are left out.
\<close>

section \<open>Messages\<close>

type_synonym op_id = u64
type_synonym queue_lineage = u64

record unified_slot =
  us_slot_id :: u64
  us_item :: queue_item

record queue_snapshot =
  qn_status :: playback_status
  qn_slots :: "unified_slot list"
  qn_active :: "u64 option"
  qn_revision :: u64
  qn_source :: queue_source
  qn_lineage :: queue_lineage
  qn_in_flight :: "transition_summary option"
  qn_queued_latest :: "transition_summary option"

datatype op_outcome = Op_Applied queue_snapshot | Op_Rejected string

datatype disconnect_reason =
    Taken_Over_By_Emby_Remote | Reason_Daemon_Shutdown | Exclusive_Owner nat | Owner_Shutting_Down

text \<open>The observations a playback run sends to its owner.\<close>

datatype player_event =
    PE_Stopped "queue_slot_id option" generation i64 bool bool "string option"
  | PE_Track_Changed queue_slot_id "(request_id \<times> generation) option"
  | PE_Paused_Changed bool
  | PE_Output_Started
  | PE_Track_Completed queue_slot_id generation i64 bool bool
  | PE_Next_Up_Threshold string i64 i64
  | PE_Next_Up_Play
  | PE_Queue_Next_Up usize
  | PE_Intro_Started i64
  | PE_Intro_Ended
  | PE_Skip_Intro_Play
  | PE_Mpv_Quit
  | PE_Command_Rejected string
  | PE_Queue_Desynced string

text \<open>The effects of a run that are events to its owner.\<close>

fun player_event_of :: "effect \<Rightarrow> player_event option" where
  "player_event_of (Event_Stopped sid g pos played consume err) = Some (PE_Stopped sid g pos played consume err)"
| "player_event_of (Event_Track_Changed sid tr) = Some (PE_Track_Changed sid tr)"
| "player_event_of (Event_Paused_Changed b) = Some (PE_Paused_Changed b)"
| "player_event_of Event_Output_Started = Some PE_Output_Started"
| "player_event_of (Event_Track_Completed sid g pos played consume) = Some (PE_Track_Completed sid g pos played consume)"
| "player_event_of (Event_Next_Up_Threshold series season episode) = Some (PE_Next_Up_Threshold series season episode)"
| "player_event_of Event_Next_Up_Play = Some PE_Next_Up_Play"
| "player_event_of (Event_Queue_Next_Up n) = Some (PE_Queue_Next_Up n)"
| "player_event_of (Event_Intro_Started t) = Some (PE_Intro_Started t)"
| "player_event_of Event_Intro_Ended = Some PE_Intro_Ended"
| "player_event_of Event_Skip_Intro_Play = Some PE_Skip_Intro_Play"
| "player_event_of Event_Mpv_Quit = Some PE_Mpv_Quit"
| "player_event_of (Event_Command_Rejected r) = Some (PE_Command_Rejected r)"
| "player_event_of (Event_Queue_Desynced r) = Some (PE_Queue_Desynced r)"
| "player_event_of _ = None"

record abs_progress_event =
  ae_library_item_id :: string
  ae_episode_id :: string
  ae_position_ticks :: i64
  ae_is_finished :: bool
  ae_setup_generation :: u64

record abs_book_progress_event =
  abe_library_item_id :: string
  abe_position_ticks :: i64
  abe_is_finished :: bool
  abe_setup_generation :: u64

datatype ctrl_event =
    Ce_Player player_event
  | Ce_Disconnected disconnect_reason
  | Ce_Command_Rejected string
  | Ce_Intent intent_event
  | Ce_Pipe_Status pipe_status
  | Ce_Shutdown_Accepted
  | Ce_Shutdown_Rejected string
  | Ce_Queue_State queue_snapshot
  | Ce_Op_Result op_id op_outcome
  | Ce_Abs_Progress abs_progress_event
  | Ce_Abs_Book_Progress abs_book_progress_event

section \<open>The registry\<close>

datatype authority = Auth_None | Auth_Ctrl | Auth_Emby_Remote
datatype connection_role = Role_Client | Role_Service_Setup_Admin | Role_Owner_Action
datatype ctrl_transport = Transport_Local | Transport_Tcp
datatype swap_surface = Surface_Terminal | Surface_Pinned
datatype attached_clients = Attached_None | Attached_Unpinned | Attached_Pinned

record queue_transport =
  qt_abs_episode :: bool
  qt_abs_book :: bool
  qt_twitch :: bool

definition no_queue_transport :: queue_transport where
  "no_queue_transport = \<lparr>qt_abs_episode = False, qt_abs_book = False, qt_twitch = False\<rparr>"

record hello_capabilities =
  hc_source_update :: bool
  hc_playback_output :: bool
  hc_emby_session_output :: bool
  hc_queue_transport :: queue_transport

record ctrl_client =
  cl_id :: client_id
  cl_open :: bool
  cl_transport :: ctrl_transport
  cl_abs_progress :: bool
  cl_abs_book_progress :: bool
  cl_capabilities :: hello_capabilities
  cl_role :: connection_role
  cl_swap_surface :: "swap_surface option"

record registry =
  rg_next_id :: client_id
  rg_connection :: "ctrl_client list"
  rg_held_client :: bool
  rg_shutting_down :: bool
  rg_authority :: authority
  rg_attached :: attached_clients
  rg_pending_swap :: "string option"
  rg_last_client_gone :: nat
  rg_sent :: "(client_id \<times> ctrl_event) list"

definition new_registry :: registry where
  "new_registry =
     \<lparr>rg_next_id = 0, rg_connection = [], rg_held_client = False, rg_shutting_down = False,
      rg_authority = Auth_None, rg_attached = Attached_None, rg_pending_swap = None,
      rg_last_client_gone = 0, rg_sent = []\<rparr>"

definition newest_swap_client :: "swap_surface \<Rightarrow> registry \<Rightarrow> client_id option" where
  "newest_swap_client surface rg =
     map_option cl_id
       (find (\<lambda>c. cl_transport c = Transport_Local \<and> cl_swap_surface c = Some surface)
         (rev (rg_connection rg)))"

definition refresh_attached_clients :: "registry \<Rightarrow> registry" where
  "refresh_attached_clients rg =
     rg\<lparr>rg_attached :=
          (if newest_swap_client Surface_Pinned rg \<noteq> None then Attached_Pinned
           else if \<exists>c\<in>set (rg_connection rg). cl_role c = Role_Client \<and> cl_transport c = Transport_Local
           then Attached_Unpinned else Attached_None)\<rparr>"

definition notify_last_client_gone :: "bool \<Rightarrow> registry \<Rightarrow> registry" where
  "notify_last_client_gone was_nonempty rg =
     (if was_nonempty \<and> rg_connection rg = [] \<and> rg_held_client rg
      then rg\<lparr>rg_last_client_gone := rg_last_client_gone rg + 1\<rparr> else rg)"

text \<open>
  \<^verbatim>\<open>retain_clients\<close>: the closures given to it send as they decide, so what they sent is an
  argument here.
\<close>

definition retain_clients ::
  "(ctrl_client \<Rightarrow> bool) \<Rightarrow> (client_id \<times> ctrl_event) list \<Rightarrow> registry \<Rightarrow> registry" where
  "retain_clients keep sent rg =
     (let rg1 = rg\<lparr>rg_connection := filter keep (rg_connection rg), rg_sent := rg_sent rg @ sent\<rparr>;
          rg2 = notify_last_client_gone (rg_connection rg \<noteq> []) rg1
      in if length (rg_connection rg2) \<noteq> length (rg_connection rg)
         then refresh_attached_clients rg2 else rg2)"

text \<open>The next id is a machine integer: past its range the release build wraps.\<close>

definition connect_with_role ::
  "ctrl_transport \<Rightarrow> bool \<Rightarrow> bool \<Rightarrow> hello_capabilities \<Rightarrow> swap_surface option \<Rightarrow> connection_role
   \<Rightarrow> registry \<Rightarrow> client_id \<times> registry" where
  "connect_with_role transport progress book_progress caps surface role rg =
     (let cid = rg_next_id rg;
          c = \<lparr>cl_id = cid, cl_open = True, cl_transport = transport, cl_abs_progress = progress,
               cl_abs_book_progress = book_progress, cl_capabilities = caps, cl_role = role,
               cl_swap_surface = (if role = Role_Client then surface else None)\<rparr>
      in (cid, refresh_attached_clients
           (rg\<lparr>rg_next_id := cid + 1, rg_held_client := (rg_held_client rg \<or> role = Role_Client),
               rg_connection := rg_connection rg @ [c],
               rg_authority := (if role = Role_Client \<and> rg_authority rg = Auth_None
                                then Auth_Ctrl else rg_authority rg)\<rparr>)))"

definition remove_client :: "client_id \<Rightarrow> registry \<Rightarrow> registry" where
  "remove_client c rg =
     (let rg1 = retain_clients (\<lambda>k. cl_id k \<noteq> c) [] rg
      in if rg_connection rg1 = [] \<and> rg_authority rg1 = Auth_Ctrl
         then rg1\<lparr>rg_authority := Auth_None\<rparr> else rg1)"

definition find_client :: "client_id \<Rightarrow> registry \<Rightarrow> ctrl_client option" where
  "find_client c rg = find (\<lambda>k. cl_id k = c) (rg_connection rg)"

definition has_client :: "client_id \<Rightarrow> registry \<Rightarrow> bool" where
  "has_client c rg \<longleftrightarrow> (\<exists>k\<in>set (rg_connection rg). cl_id k = c)"

definition is_local_client :: "client_id \<Rightarrow> registry \<Rightarrow> bool" where
  "is_local_client c rg \<longleftrightarrow>
     (\<exists>k\<in>set (rg_connection rg). cl_id k = c \<and> cl_transport k = Transport_Local)"

definition transport_of_client :: "client_id \<Rightarrow> registry \<Rightarrow> ctrl_transport option" where
  "transport_of_client c rg = map_option cl_transport (find_client c rg)"

definition queue_transport_of :: "client_id \<Rightarrow> registry \<Rightarrow> queue_transport" where
  "queue_transport_of c rg =
     (case find_client c rg of
        None \<Rightarrow> no_queue_transport | Some k \<Rightarrow> hc_queue_transport (cl_capabilities k))"

definition supports_source_update :: "client_id \<Rightarrow> registry \<Rightarrow> bool" where
  "supports_source_update c rg =
     (case find_client c rg of None \<Rightarrow> False | Some k \<Rightarrow> hc_source_update (cl_capabilities k))"

definition has_driver :: "registry \<Rightarrow> bool" where
  "has_driver rg \<longleftrightarrow> (\<exists>k\<in>set (rg_connection rg). cl_role k = Role_Client)"

text \<open>
  Answers to the requester go into the channel it sent its command with (\<^verbatim>\<open>send_to\<close>), whether or
  not its connection is still registered.
\<close>

definition reply_to :: "client_id \<Rightarrow> ctrl_event \<Rightarrow> registry \<Rightarrow> registry" where
  "reply_to c e rg = rg\<lparr>rg_sent := rg_sent rg @ [(c, e)]\<rparr>"

definition send_to_client :: "client_id \<Rightarrow> ctrl_event \<Rightarrow> registry \<Rightarrow> registry" where
  "send_to_client c e rg =
     (case find_client c rg of
        Some k \<Rightarrow> if cl_open k then rg\<lparr>rg_sent := rg_sent rg @ [(c, e)]\<rparr> else rg
      | None \<Rightarrow> rg)"

text \<open>
  Every broadcast sends to the connections it is meant for and drops those whose channel is
  closed; the ones it is not meant for stay.
\<close>

definition broadcast_where ::
  "(ctrl_client \<Rightarrow> bool) \<Rightarrow> (ctrl_client \<Rightarrow> ctrl_event) \<Rightarrow> registry \<Rightarrow> registry" where
  "broadcast_where wants event rg =
     retain_clients (\<lambda>c. wants c \<longrightarrow> cl_open c)
       (map (\<lambda>c. (cl_id c, event c)) (filter (\<lambda>c. wants c \<and> cl_open c) (rg_connection rg))) rg"

definition broadcast_to_all :: "ctrl_event \<Rightarrow> registry \<Rightarrow> registry" where
  "broadcast_to_all e = broadcast_where (\<lambda>_. True) (\<lambda>_. e)"

definition broadcast_state_gated ::
  "(queue_transport \<Rightarrow> ctrl_event) \<Rightarrow> client_id option \<Rightarrow> registry \<Rightarrow> registry" where
  "broadcast_state_gated event_for_transport except =
     broadcast_where (\<lambda>c. except \<noteq> Some (cl_id c))
       (\<lambda>c. event_for_transport (hc_queue_transport (cl_capabilities c)))"

definition broadcast_progress_gated :: "ctrl_event \<Rightarrow> registry \<Rightarrow> registry" where
  "broadcast_progress_gated e = broadcast_where cl_abs_progress (\<lambda>_. e)"

definition broadcast_book_progress_gated :: "ctrl_event \<Rightarrow> registry \<Rightarrow> registry" where
  "broadcast_book_progress_gated e = broadcast_where cl_abs_book_progress (\<lambda>_. e)"

definition notify_disconnected_all :: "disconnect_reason \<Rightarrow> registry \<Rightarrow> registry" where
  "notify_disconnected_all reason rg =
     rg\<lparr>rg_sent := rg_sent rg @
          map (\<lambda>c. (cl_id c, Ce_Disconnected reason)) (filter cl_open (rg_connection rg))\<rparr>"

definition begin_shutdown :: "registry \<Rightarrow> registry" where
  "begin_shutdown rg = rg\<lparr>rg_shutting_down := True\<rparr>"

definition take_authority_for_emby_remote :: "registry \<Rightarrow> registry" where
  "take_authority_for_emby_remote rg =
     (notify_disconnected_all Taken_Over_By_Emby_Remote rg)\<lparr>rg_authority := Auth_Emby_Remote\<rparr>"

end
