(* ===== verification/Daemon_Core.thy ===== *)
theory Daemon_Core
  imports Daemon_Clients
begin

text \<open>
  The state of the daemon's event loop and the parts every handler uses: the projection of the
  queue for one peer, admission of items, publication (\<^verbatim>\<open>mbv-daemon/src/control_queue.rs\<close>),
  submission to the player (\<^verbatim>\<open>core.rs\<close>) and the dispatch of slot jumps
  (\<^verbatim>\<open>core/transition_dispatch.rs\<close>, \<^verbatim>\<open>step.rs\<close>). The playback output is the local one: it is the
  only one a packaged daemon can have, and the Local daemon starts and resets to it. The owner's
  settings and the wall clock are read from the state and from arguments. A panic is \<open>None\<close>.
\<close>

section \<open>State\<close>

datatype daemon_role = Daemon_Local | Daemon_Packaged

text \<open>What a handler leaves to other threads, to the disk or to a later pass of the loop.\<close>

datatype daemon_job =
    Job_Resolve "string list" usize i64 queue_source client_id request_id generation
  | Job_Enrich "(queue_slot_id \<times> string) list"
  | Job_Refresh_Abs "(string \<times> string) set" "string set"
  | Job_Save_Owner_Queue queue_state queue_lineage
  | Job_Save_Queue queue_state
  | Job_Shutdown

record daemon =
  dm_core :: owner_state
  dm_revisions :: mint_store
  dm_intents :: intent_state
  dm_queued_origin :: "(request_id \<times> client_id) option"
  dm_sh_queue :: playback_queue
  dm_sh_source :: queue_source
  dm_sh_lineage :: queue_lineage
  dm_sh_observed :: "queue_slot_id option"
  dm_player :: player
  dm_clients :: registry
  dm_role :: daemon_role
  dm_audio_only :: bool
  dm_stay_alive :: bool
  dm_consume_videos :: bool
  dm_consume_audio :: bool
  dm_has_emby :: bool
  dm_emby_generation :: "u64 option"
  dm_abs_generation :: "u64 option"
  dm_pipe :: bool
  dm_playout_delay_ms :: "nat option"
  dm_saved_queue :: "queue_state option"
  dm_save_error :: "string option"
  dm_op :: "op_id option"
  dm_jobs :: "daemon_job list"

definition dm_queue :: "daemon \<Rightarrow> playback_queue" where
  "dm_queue d = ow_queue (dm_core d)"

definition dm_transitions :: "daemon \<Rightarrow> owner_transitions" where
  "dm_transitions d = ow_transitions (dm_core d)"

definition dm_active :: "daemon \<Rightarrow> bool" where
  "dm_active d = ps_active (st_run (pl_status (dm_player d)))"

definition set_queue :: "playback_queue \<Rightarrow> daemon \<Rightarrow> daemon" where
  "set_queue q d = d\<lparr>dm_core := (dm_core d)\<lparr>ow_queue := q\<rparr>\<rparr>"

definition set_source :: "queue_source \<Rightarrow> daemon \<Rightarrow> daemon" where
  "set_source src d = d\<lparr>dm_core := (dm_core d)\<lparr>ow_source := src\<rparr>\<rparr>"

definition set_transitions :: "owner_transitions \<Rightarrow> daemon \<Rightarrow> daemon" where
  "set_transitions t d = d\<lparr>dm_core := (dm_core d)\<lparr>ow_transitions := t\<rparr>\<rparr>"

definition add_job :: "daemon_job \<Rightarrow> daemon \<Rightarrow> daemon" where
  "add_job j d = d\<lparr>dm_jobs := dm_jobs d @ [j]\<rparr>"

text \<open>An operation of the queue, and one of the owner, run on the daemon's state.\<close>

definition queue_op ::
  "(playback_queue \<Rightarrow> mint_store \<Rightarrow> 'r \<times> playback_queue \<times> mint_store) \<Rightarrow> daemon \<Rightarrow> 'r \<times> daemon" where
  "queue_op f d =
     (let (r, q, h) = f (dm_queue d) (dm_revisions d)
      in (r, (set_queue q d)\<lparr>dm_revisions := h\<rparr>))"

definition owner_op ::
  "(owner_state \<Rightarrow> mint_store \<Rightarrow> 'r \<times> owner_state \<times> mint_store) \<Rightarrow> daemon \<Rightarrow> 'r \<times> daemon" where
  "owner_op f d =
     (let (r, ow, h) = f (dm_core d) (dm_revisions d) in (r, d\<lparr>dm_core := ow, dm_revisions := h\<rparr>))"

definition note_observed :: "queue_slot_id option \<Rightarrow> daemon \<Rightarrow> daemon" where
  "note_observed v d = snd (owner_op (\<lambda>ow h. ((), note_observed_active_slot v ow h)) d)"

definition player_op :: "(player \<Rightarrow> 'r \<times> player) \<Rightarrow> daemon \<Rightarrow> 'r \<times> daemon" where
  "player_op f d = (let (r, p) = f (dm_player d) in (r, d\<lparr>dm_player := p\<rparr>))"

definition send_run :: "run_message \<Rightarrow> daemon \<Rightarrow> bool \<times> daemon" where
  "send_run m = player_op (pl_send_command m)"

definition tell_run :: "run_message \<Rightarrow> daemon \<Rightarrow> daemon" where
  "tell_run m d = snd (send_run m d)"

definition tell_run_all :: "run_message list \<Rightarrow> daemon \<Rightarrow> daemon" where
  "tell_run_all ms d = fold tell_run ms d"

definition reply :: "client_id \<Rightarrow> ctrl_event \<Rightarrow> daemon \<Rightarrow> daemon" where
  "reply c e d = d\<lparr>dm_clients := reply_to c e (dm_clients d)\<rparr>"

definition reply_all :: "client_id \<Rightarrow> ctrl_event list \<Rightarrow> daemon \<Rightarrow> daemon" where
  "reply_all c es d = fold (reply c) es d"

definition send_client :: "client_id \<Rightarrow> ctrl_event \<Rightarrow> daemon \<Rightarrow> daemon" where
  "send_client c e d = d\<lparr>dm_clients := send_to_client c e (dm_clients d)\<rparr>"

definition broadcast :: "ctrl_event \<Rightarrow> daemon \<Rightarrow> daemon" where
  "broadcast e d = d\<lparr>dm_clients := broadcast_to_all e (dm_clients d)\<rparr>"

section \<open>The projection for one peer\<close>

text \<open>The settings of \<^verbatim>\<open>project_queue_state\<close>: what is persisted of the queue.\<close>

definition video_positions :: "queue_slot list \<Rightarrow> (string \<rightharpoonup> i64)" where
  "video_positions slots =
     fold (\<lambda>s m. if qi_is_video (qs_item s) \<and> sp_position_ticks (slot_local_progress s) > 0
                 then m(qi_id (qs_item s) \<mapsto> sp_position_ticks (slot_local_progress s)) else m)
       slots (\<lambda>_. None)"

definition live_position :: "playback_status \<Rightarrow> queue_slot list \<Rightarrow> usize \<Rightarrow> (string \<rightharpoonup> i64) \<Rightarrow> (string \<rightharpoonup> i64)" where
  "live_position st slots active_idx m =
     (if ps_active (st_run st) \<and> st_video_height st > 0 then
        (case nth_opt slots active_idx of
           Some s \<Rightarrow>
             (if qi_is_video (qs_item s)
              then m(qi_id (qs_item s) \<mapsto>
                       (if ps_last_valid_pos (st_run st) > 0 then ps_last_valid_pos (st_run st)
                        else ps_position_ticks (st_run st)))
              else m)
         | None \<Rightarrow> m)
      else m)"

definition project_queue_state ::
  "playback_queue \<Rightarrow> queue_source \<Rightarrow> playback_status \<Rightarrow> queue_state" where
  "project_queue_state q src st =
     (let slots = pq_slots q;
          active_idx = (case active_index q of Some i \<Rightarrow> i | None \<Rightarrow> 0);
          last = (if ps_active (st_run st) then map_option qs_item (nth_opt slots active_idx) else None)
      in \<lparr>st_source = src, st_items = map qs_item slots, st_cursor = active_idx,
          st_last_played_content_id = map_option qi_content_id last,
          st_last_played_item_id = map_option qi_id last, st_last_played_completed = False,
          st_positions = live_position st slots active_idx (video_positions slots)\<rparr>)"

fun peer_takes :: "queue_transport \<Rightarrow> queue_item \<Rightarrow> bool" where
  "peer_takes qt (QI_Audiobookshelf (ABS_Episode _)) = qt_abs_episode qt"
| "peer_takes qt (QI_Audiobookshelf (ABS_Book _)) = qt_abs_book qt"
| "peer_takes qt (QI_Twitch _) = qt_twitch qt"
| "peer_takes qt (QI_Emby _) = True"
| "peer_takes qt (QI_Feed _) = True"

definition unified_queue_state_for_peer ::
  "playback_status \<Rightarrow> playback_queue \<Rightarrow> queue_source \<Rightarrow> queue_lineage \<Rightarrow> queue_slot_id option
   \<Rightarrow> transition_summary option \<Rightarrow> transition_summary option \<Rightarrow> queue_transport \<Rightarrow> queue_snapshot" where
  "unified_queue_state_for_peer st q src lineage observed flight queued qt =
     (let slots = map (\<lambda>s. \<lparr>us_slot_id = qs_slot_id s, us_item = qs_item s\<rparr>)
                    (filter (\<lambda>s. peer_takes qt (qs_item s)) (pq_slots q));
          act = opt_or observed (if ps_active (st_run st) then pq_active q else None)
      in \<lparr>qn_status = st, qn_slots = slots,
          qn_active = opt_filter (\<lambda>a. \<exists>s\<in>set slots. us_slot_id s = a) act,
          qn_revision = pq_revision q, qn_source = src, qn_lineage = lineage,
          qn_in_flight = flight, qn_queued_latest = queued\<rparr>)"

definition owner_snapshot :: "daemon \<Rightarrow> queue_transport \<Rightarrow> queue_snapshot" where
  "owner_snapshot d qt =
     unified_queue_state_for_peer (pl_status (dm_player d)) (dm_queue d) (ow_source (dm_core d))
       (dm_sh_lineage d) (dm_sh_observed d) (fst (summaries (dm_transitions d)))
       (snd (summaries (dm_transitions d))) qt"

definition broadcast_queue_state :: "client_id option \<Rightarrow> daemon \<Rightarrow> daemon" where
  "broadcast_queue_state except d =
     d\<lparr>dm_clients := broadcast_state_gated (\<lambda>qt. Ce_Queue_State (owner_snapshot d qt)) except (dm_clients d),
       dm_sh_queue := dm_queue d, dm_sh_source := ow_source (dm_core d)\<rparr>"

definition publish_observed :: "daemon \<Rightarrow> daemon" where
  "publish_observed d = d\<lparr>dm_sh_observed := ow_observed (dm_core d)\<rparr>"

definition stay_alive_snapshot :: "daemon \<Rightarrow> daemon_job" where
  "stay_alive_snapshot d =
     Job_Save_Owner_Queue
       (project_queue_state (dm_queue d) (ow_source (dm_core d)) (pl_status (dm_player d)))
       (dm_sh_lineage d)"

section \<open>Admission\<close>

definition daemon_admits :: "queue_item \<Rightarrow> bool \<Rightarrow> bool \<Rightarrow> bool \<Rightarrow> bool" where
  "daemon_admits it audio_only has_emby has_abs =
     (if qi_is_emby it \<and> \<not> has_emby then False
      else admissible_for_owner_with_audiobookshelf it audio_only
             (\<lambda>k. k \<noteq> Service_Emby \<or> has_emby) has_abs)"

text \<open>One pass: the entries that are admitted, and how many of them stand before the requested one.\<close>

definition admit_queue ::
  "('a \<Rightarrow> bool) \<Rightarrow> 'a list \<Rightarrow> usize option \<Rightarrow> 'a list \<times> usize" where
  "admit_queue admits original requested_cursor =
     (let requested = (case requested_cursor of Some r \<Rightarrow> r | None \<Rightarrow> 0);
          admitted = filter admits original;
          rebased = length (filter (\<lambda>(i, e). admits e \<and> i < requested) (enumerate 0 original))
      in (admitted, if admitted = [] then 0 else min rebased (length admitted - 1)))"

definition admit_queue_items ::
  "queue_item list \<Rightarrow> usize option \<Rightarrow> bool \<Rightarrow> bool \<Rightarrow> bool \<Rightarrow> queue_item list \<times> usize" where
  "admit_queue_items items cursor audio_only has_emby has_abs =
     admit_queue (\<lambda>it. daemon_admits it audio_only has_emby has_abs) items cursor"

definition admit_queue_slots ::
  "(queue_slot_id \<times> queue_item) list \<Rightarrow> usize option \<Rightarrow> bool \<Rightarrow> bool \<Rightarrow> bool
   \<Rightarrow> (queue_slot_id \<times> queue_item) list \<times> usize" where
  "admit_queue_slots slots cursor audio_only has_emby has_abs =
     admit_queue (\<lambda>(_, it). daemon_admits it audio_only has_emby has_abs) slots cursor"

definition abs_queue_transport_rejection :: "queue_item list \<Rightarrow> queue_transport \<Rightarrow> string option" where
  "abs_queue_transport_rejection items qt =
     (if \<not> qt_abs_episode qt \<and> (\<exists>it\<in>set items. qi_as_audiobookshelf it \<noteq> None)
      then Some ''peer did not negotiate Audiobookshelf queue transport''
      else if \<not> qt_abs_book qt \<and> (\<exists>it\<in>set items. qi_as_audiobookshelf_book it \<noteq> None)
      then Some ''peer did not negotiate Audiobookshelf book queue transport''
      else None)"

fun is_twitch :: "queue_item \<Rightarrow> bool" where
  "is_twitch (QI_Twitch _) = True"
| "is_twitch _ = False"

definition twitch_queue_transport_rejection :: "queue_item list \<Rightarrow> queue_transport \<Rightarrow> string option" where
  "twitch_queue_transport_rejection items qt =
     (if \<not> qt_twitch qt \<and> (\<exists>it\<in>set items. is_twitch it)
      then Some ''peer did not negotiate Twitch queue transport'' else None)"

definition all_audio :: "queue_item list \<Rightarrow> bool" where
  "all_audio items \<longleftrightarrow> (\<forall>it\<in>set items. qi_is_audio it)"

definition audio_only_rejection :: "bool \<Rightarrow> queue_item list \<Rightarrow> string option" where
  "audio_only_rejection audio_only fetched =
     (if audio_only \<and> \<not> all_audio fetched
      then Some ''Daemon is running in audio-only mode; can't play video items'' else None)"

definition has_abs :: "daemon \<Rightarrow> bool" where
  "has_abs d \<longleftrightarrow> dm_abs_generation d \<noteq> None"

section \<open>Submission and slot jumps\<close>

text \<open>A lineage past the range of the counter is a panic.\<close>

definition mint_queue_lineage :: "daemon \<Rightarrow> daemon option" where
  "mint_queue_lineage d =
     (if dm_sh_lineage d = - 1 then None else Some (d\<lparr>dm_sh_lineage := dm_sh_lineage d + 1\<rparr>))"

definition submit_queue_slots_for_replace ::
  "exec_slot list \<Rightarrow> usize \<Rightarrow> seconds option \<Rightarrow> daemon \<Rightarrow> bool \<times> daemon" where
  "submit_queue_slots_for_replace slots start_idx start_secs d =
     player_op (\<lambda>p. submit_queue_slots slots start_idx start_secs
       (headless_for (dm_pipe d) (all_audio (map xs_item slots)) p) p) d"

definition reset_slot_jumps :: "daemon \<Rightarrow> daemon" where
  "reset_slot_jumps d =
     (set_transitions (reset_transitions (dm_transitions d)) d)\<lparr>dm_queued_origin := None\<rparr>"

definition stop_output :: "daemon \<Rightarrow> daemon" where
  "stop_output d = d\<lparr>dm_player := pl_stop (dm_player d)\<rparr>"

definition cold_start_at_slot :: "queue_slot_id \<Rightarrow> daemon \<Rightarrow> bool \<times> daemon" where
  "cold_start_at_slot target d =
     (case slot_index (dm_queue d) target of
        None \<Rightarrow> (False, d)
      | Some start_idx \<Rightarrow>
          (let (accepted, d1) = submit_queue_slots_for_replace (slot_pairs (dm_queue d)) start_idx None d
           in if \<not> accepted then (False, d1)
              else (True, publish_observed (note_observed None
                      (snd (queue_op (set_active_slot target) d1))))))"

definition jump_message :: "transition \<Rightarrow> i64 option \<Rightarrow> run_message" where
  "jump_message t resume_ticks =
     (let j = into_jump t resume_ticks
      in Msg_Run (Cmd_Jump_To (jt_slot_id j) (jt_request_id j) (jt_generation j) (jt_resume_ticks j)))"

definition send_jump_or_cold_start :: "transition \<Rightarrow> daemon \<Rightarrow> bool \<times> daemon" where
  "send_jump_or_cold_start t d =
     (let (sent, d1) = send_run (jump_message t (resume_ticks_for_slot (dm_queue d) (tr_target t))) d
      in if sent then (True, d1) else cold_start_at_slot (tr_target t) (reset_slot_jumps d1))"

definition dispatch_slot_jump ::
  "client_id option \<Rightarrow> transition \<Rightarrow> client_id option \<Rightarrow> daemon \<Rightarrow> daemon" where
  "dispatch_slot_jump origin t except d =
     (let (decision, s) = accept t (dm_transitions d);
          d1 = set_transitions s d;
          d2 = (case decision of
                  DispatchNow t' \<Rightarrow> snd (send_jump_or_cold_start t' d1)
                | Queued displaced \<Rightarrow>
                    (let d3 = (case (displaced, dm_queued_origin d1) of
                                 (Some s, Some (req, c)) \<Rightarrow>
                                   (if req = tr_request_id s
                                    then send_client c (Ce_Intent
                                           \<lparr>ie_request_id = tr_request_id s,
                                            ie_generation = tr_generation s,
                                            ie_outcome = Out_Superseded\<rparr>) d1
                                    else d1)
                               | _ \<Rightarrow> d1)
                     in d3\<lparr>dm_queued_origin := map_option (\<lambda>c. (tr_request_id t, c)) origin\<rparr>))
      in broadcast_queue_state except d2)"

text \<open>The origin of a promoted transition is only logged on the local output; it is cleared.\<close>

definition take_promoted_origin :: "daemon \<Rightarrow> daemon" where
  "take_promoted_origin d = d\<lparr>dm_queued_origin := None\<rparr>"

definition dispatch_promoted :: "transition option \<Rightarrow> daemon \<Rightarrow> daemon" where
  "dispatch_promoted promoted d =
     (let d1 = take_promoted_origin d in
      case promoted of None \<Rightarrow> d1 | Some t \<Rightarrow> snd (send_jump_or_cold_start t d1))"

definition settle_and_redispatch :: "request_id \<Rightarrow> queue_slot_id \<Rightarrow> daemon \<Rightarrow> daemon" where
  "settle_and_redispatch req sid d =
     (case settle req sid (dm_transitions d) of
        (Ignored, s) \<Rightarrow> set_transitions s d
      | (Settled promoted, s) \<Rightarrow> dispatch_promoted promoted (set_transitions s d))"

text \<open>Answering the current intent, if it is the one meant.\<close>

definition answer_intent ::
  "(intent_state \<Rightarrow> intent_event option \<times> intent_state) \<Rightarrow> client_id \<Rightarrow> daemon \<Rightarrow> daemon" where
  "answer_intent f c d =
     (let (answer, s) = f (dm_intents d); d1 = d\<lparr>dm_intents := s\<rparr>
      in case answer of None \<Rightarrow> d1 | Some e \<Rightarrow> send_client c (Ce_Intent e) d1)"

definition expire_and_redispatch :: "instant \<Rightarrow> daemon \<Rightarrow> daemon" where
  "expire_and_redispatch now d =
     (case expire now (dm_transitions d) of
        (Pending, s) \<Rightarrow> set_transitions s d
      | (Expired expired promoted, s) \<Rightarrow>
          (let d1 = set_transitions s d;
               d2 = (case dm_intents d1 of
                       Some c \<Rightarrow>
                         (if ci_request_id c = tr_request_id expired
                          then answer_intent (rejected_if_current (ci_connection c) (ci_request_id c)
                                 (ci_generation c) Rej_Unavailable) (ci_connection c) d1
                          else d1)
                     | None \<Rightarrow> d1)
           in broadcast_queue_state None (dispatch_promoted promoted d2)))"

section \<open>Relative steps\<close>

definition next_up_slot :: "playback_queue \<Rightarrow> queue_slot_id option" where
  "next_up_slot q =
     (let active_idx = (case active_index q of Some i \<Rightarrow> i | None \<Rightarrow> 0)
      in map_option qs_slot_id (nth_opt (pq_slots q) (active_idx + 1)))"

definition dispatch_step_target :: "queue_slot_id \<Rightarrow> direction \<Rightarrow> daemon \<Rightarrow> request_id \<times> daemon" where
  "dispatch_step_target sid dir d =
     (let ((req, gen), s) = mint_local_id (dm_transitions d)
      in (req, dispatch_slot_jump None (transition_with_cause req gen sid (Cause_Step dir)) None
                 (set_transitions s d)))"

definition dispatch_relative_step :: "direction \<Rightarrow> daemon \<Rightarrow> request_id option \<times> daemon" where
  "dispatch_relative_step dir d =
     (case relative_step_target dir (dm_core d) of
        Step_Jump sid \<Rightarrow> (let (req, d1) = dispatch_step_target sid dir d in (Some req, d1))
      | _ \<Rightarrow> (None, d))"

end
