(* ===== verification/Daemon_Control.thy ===== *)
theory Daemon_Control
  imports Daemon_Core
begin

text \<open>
  The daemon's reactions to control commands (\<^verbatim>\<open>mbv-daemon/src/control.rs\<close> and the files under
  \<^verbatim>\<open>control/\<close>, the commands from \<^verbatim>\<open>mbv-ctrl/src/commands.rs\<close>), on the local output. A handler
  that installs a new lineage can panic, so its result is an option. The random draw of a shuffle
  is an argument. The commands the event loop takes before this dispatcher (Pin swap, owner
  actions, output selection, service set-up) are not modelled.
\<close>

section \<open>Commands\<close>

record progress_update =
  pu_content_id :: queue_item_content_id
  pu_position_ticks :: i64
  pu_finished :: bool

datatype ctrl_cmd =
    Cc_Hello
  | Cc_Player wire_command
  | Cc_Stop
  | Cc_Intent intent
  | Cc_Request_Shutdown
  | Cc_Replace "queue_item list" "unified_slot list" "usize option" queue_source "seconds option" "op_id option"
  | Cc_Source_Update queue_source queue_lineage "op_id option"
  | Cc_Append "queue_item list" "u64 option" "op_id option"
  | Cc_Remove_Slot u64 "op_id option"
  | Cc_Remove_Slots "u64 list" "op_id option"
  | Cc_Move_Slot u64 usize "op_id option"
  | Cc_Shuffle "op_id option"
  | Cc_Play_Slot u64 "op_id option"
  | Cc_Clear
  | Cc_Clear_Op op_id
  | Cc_Refresh op_id
  | Cc_Apply_Progress op_id "progress_update list"
  | Cc_Adopt "queue_item list" usize queue_source

datatype owner_gate_rejection = Gate_Adopt_Queue | Gate_Source_Update
datatype owner_gate = Owner_Only owner_gate_rejection | Non_Owner_Only owner_gate_rejection | Any_Role

fun requires_owner :: "ctrl_cmd \<Rightarrow> owner_gate" where
  "requires_owner (Cc_Source_Update _ _ _) = Owner_Only Gate_Source_Update"
| "requires_owner (Cc_Adopt _ _ _) = Non_Owner_Only Gate_Adopt_Queue"
| "requires_owner _ = Any_Role"

fun mutates_owner_queue :: "ctrl_cmd \<Rightarrow> bool" where
  "mutates_owner_queue (Cc_Source_Update _ _ _) = True"
| "mutates_owner_queue (Cc_Replace _ _ _ _ _ _) = True"
| "mutates_owner_queue (Cc_Append _ _ _) = True"
| "mutates_owner_queue (Cc_Remove_Slot _ _) = True"
| "mutates_owner_queue (Cc_Remove_Slots _ _) = True"
| "mutates_owner_queue (Cc_Move_Slot _ _ _) = True"
| "mutates_owner_queue (Cc_Shuffle _) = True"
| "mutates_owner_queue Cc_Clear = True"
| "mutates_owner_queue (Cc_Clear_Op _) = True"
| "mutates_owner_queue (Cc_Refresh _) = True"
| "mutates_owner_queue (Cc_Apply_Progress _ _) = True"
| "mutates_owner_queue _ = False"

fun queue_op_id :: "ctrl_cmd \<Rightarrow> op_id option" where
  "queue_op_id (Cc_Replace _ _ _ _ _ oid) = oid"
| "queue_op_id (Cc_Append _ _ oid) = oid"
| "queue_op_id (Cc_Remove_Slot _ oid) = oid"
| "queue_op_id (Cc_Remove_Slots _ oid) = oid"
| "queue_op_id (Cc_Move_Slot _ _ oid) = oid"
| "queue_op_id (Cc_Shuffle oid) = oid"
| "queue_op_id (Cc_Play_Slot _ oid) = oid"
| "queue_op_id (Cc_Source_Update _ _ oid) = oid"
| "queue_op_id (Cc_Clear_Op oid) = Some oid"
| "queue_op_id (Cc_Refresh oid) = Some oid"
| "queue_op_id (Cc_Apply_Progress oid _) = Some oid"
| "queue_op_id _ = None"

definition except_op_client :: "client_id \<Rightarrow> daemon \<Rightarrow> client_id option" where
  "except_op_client c d = map_option (\<lambda>_. c) (dm_op d)"

section \<open>Rejections and answers\<close>

definition reject_command :: "client_id \<Rightarrow> queue_lineage \<Rightarrow> string \<Rightarrow> daemon \<Rightarrow> daemon" where
  "reject_command c lineage reason d =
     (case dm_op d of
        Some oid \<Rightarrow> reply c (Ce_Op_Result oid (Op_Rejected reason)) (d\<lparr>dm_op := None\<rparr>)
      | None \<Rightarrow>
          reply c (Ce_Queue_State
              (unified_queue_state_for_peer (pl_status (dm_player d)) (dm_queue d)
                 (ow_source (dm_core d)) lineage (pq_active (dm_queue d)) None None
                 (queue_transport_of c (dm_clients d))))
            (reply c (Ce_Command_Rejected reason) d))"

fun role_gate_reason :: "owner_gate_rejection \<Rightarrow> string" where
  "role_gate_reason Gate_Adopt_Queue = ''Stay-alive owner queues cannot be adopted by Clients''"
| "role_gate_reason Gate_Source_Update = ''queue source updates are supported only by the Stay-alive owner''"

definition answer_queue_op :: "client_id \<Rightarrow> op_id \<Rightarrow> daemon \<Rightarrow> daemon" where
  "answer_queue_op c oid d =
     reply c (Ce_Op_Result oid (Op_Applied (owner_snapshot d (queue_transport_of c (dm_clients d))))) d"

section \<open>Stop and shutdown\<close>

definition handle_stop :: "daemon \<Rightarrow> daemon" where
  "handle_stop d = reset_slot_jumps (stop_output d)"

definition shutdown_queue_state :: "daemon \<Rightarrow> queue_state" where
  "shutdown_queue_state d =
     (let s = project_queue_state (dm_queue d) (ow_source (dm_core d)) (pl_status (dm_player d)) in
      if dm_role d \<noteq> Daemon_Local \<and> st_items s = []
      then (case dm_saved_queue d of
              Some existing \<Rightarrow> if st_items existing \<noteq> [] then existing else s
            | None \<Rightarrow> s)
      else s)"

text \<open>The first result says whether the request goes on; saving replaces what is on disk.\<close>

definition prepare_shutdown :: "client_id \<Rightarrow> daemon \<Rightarrow> bool \<times> daemon" where
  "prepare_shutdown c d =
     (if dm_stay_alive d
      then (False, reply c (Ce_Shutdown_Rejected ''daemon is in stay-alive mode'') d)
      else if \<not> is_local_client c (dm_clients d)
      then (False, reply c (Ce_Shutdown_Rejected ''lifecycle requests require local transport'') d)
      else (case dm_save_error d of
              Some e \<Rightarrow> (False, reply c (Ce_Shutdown_Rejected (''queue persistence failed: '' @ e)) d)
            | None \<Rightarrow>
                (let s = shutdown_queue_state d; rg = dm_clients d in
                 (True, add_job (Job_Save_Queue s)
                    (d\<lparr>dm_saved_queue := Some s,
                       dm_clients := (if rg_authority rg = Auth_Emby_Remote
                                      then rg\<lparr>rg_authority := Auth_Ctrl\<rparr> else rg)\<rparr>)))))"

section \<open>Queue setup\<close>

definition start_queue_enrichment :: "daemon \<Rightarrow> daemon" where
  "start_queue_enrichment d =
     (let adopted = List.map_filter (\<lambda>s. map_option (\<lambda>e. (qs_slot_id s, emby_id e)) (qi_as_emby (qs_item s)))
                      (pq_slots (dm_queue d));
          d1 = (if adopted \<noteq> [] then add_job (Job_Enrich adopted) d else d);
          episodes = set (List.map_filter (\<lambda>s. map_option (\<lambda>e. (ep_library_item_id e, ep_episode_id e))
                       (qi_as_audiobookshelf (qs_item s))) (pq_slots (dm_queue d)));
          books = set (List.map_filter (\<lambda>s. map_option book_library_item_id
                       (qi_as_audiobookshelf_book (qs_item s))) (pq_slots (dm_queue d)))
      in if \<not> has_abs d \<or> episodes = {} \<and> books = {} then d1
         else add_job (Job_Refresh_Abs episodes books) d1)"

definition install_items :: "queue_item list \<Rightarrow> usize option \<Rightarrow> queue_source \<Rightarrow> daemon \<Rightarrow> daemon" where
  "install_items items cursor src d =
     set_source src (snd (queue_op (\<lambda>q h. ((), from_queue_items items cursor (pq_mint q) h)) d))"

definition transport_rejection :: "client_id \<Rightarrow> queue_item list \<Rightarrow> daemon \<Rightarrow> string option" where
  "transport_rejection c items d =
     (let qt = queue_transport_of c (dm_clients d)
      in opt_or (abs_queue_transport_rejection items qt) (twitch_queue_transport_rejection items qt))"

definition handle_adopt_queue ::
  "client_id \<Rightarrow> queue_lineage \<Rightarrow> queue_item list \<Rightarrow> usize \<Rightarrow> queue_source \<Rightarrow> daemon \<Rightarrow> daemon option" where
  "handle_adopt_queue c lineage items cursor src d =
     (if \<not> pq_is_empty (dm_queue d)
      then Some (reject_command c lineage ''daemon already has a queue; adoption skipped'' d)
      else (case transport_rejection c items d of
        Some reason \<Rightarrow> Some (reject_command c lineage reason d)
      | None \<Rightarrow>
          (let (admitted, next_cursor) =
                 admit_queue_items items (Some cursor) (dm_audio_only d) (dm_has_emby d) (has_abs d);
               d1 = d\<lparr>dm_player := set_initial_queue admitted next_cursor (dm_player d)\<rparr>;
               d2 = install_items admitted (Some next_cursor) src (reset_slot_jumps d1)
           in map_option (\<lambda>d3. start_queue_enrichment (broadcast_queue_state None d3))
                (mint_queue_lineage d2))))"

definition handle_queue_source_update ::
  "client_id \<Rightarrow> queue_lineage \<Rightarrow> queue_source \<Rightarrow> queue_lineage \<Rightarrow> daemon \<Rightarrow> daemon" where
  "handle_queue_source_update c lineage src cmd_lineage d =
     (if \<not> supports_source_update c (dm_clients d)
      then reject_command c lineage ''peer did not negotiate owner queue-load capability'' d
      else if cmd_lineage \<noteq> lineage
      then reject_command c lineage ''queue source update rejected: owner queue lineage changed'' d
      else broadcast_queue_state (except_op_client c d) (set_source src d))"

text \<open>The slots a replacement names: as submitted, or numbered from one for an older peer.\<close>

definition submitted_slots :: "queue_item list \<Rightarrow> unified_slot list \<Rightarrow> (queue_slot_id \<times> queue_item) list" where
  "submitted_slots items slots =
     (if slots = [] then map (\<lambda>(i, it). (of_nat (i + 1), it)) (enumerate 0 items)
      else map (\<lambda>s. (us_slot_id s, us_item s)) slots)"

definition prepare_replacement_slots ::
  "client_id \<Rightarrow> queue_item list \<Rightarrow> unified_slot list \<Rightarrow> usize option \<Rightarrow> daemon
   \<Rightarrow> string + (queue_slot_id \<times> queue_item) list \<times> usize" where
  "prepare_replacement_slots c items slots start_idx d =
     (let submitted = submitted_slots items slots in
      case transport_rejection c (map snd submitted) d of
        Some reason \<Rightarrow> Inl reason
      | None \<Rightarrow>
          (let (admitted, cursor) =
                 admit_queue_slots submitted start_idx (dm_audio_only d) (dm_has_emby d) (has_abs d)
           in if admitted = [] then Inl ''Playback owner rejected the queue replacement''
              else (case audio_only_rejection (dm_audio_only d) (map snd admitted) of
                      Some reason \<Rightarrow> Inl reason
                    | None \<Rightarrow> Inr (admitted, cursor))))"

definition install_replaced_queue ::
  "(queue_slot_id \<times> queue_item) list \<Rightarrow> usize \<Rightarrow> queue_source \<Rightarrow> daemon \<Rightarrow> daemon option" where
  "install_replaced_queue slots next_cursor src d =
     (let act = map_option fst (nth_opt slots next_cursor);
          d1 = set_source src (snd (queue_op (\<lambda>q h. ((), from_slot_items slots act (pq_mint q) h)) d))
      in map_option reset_slot_jumps (mint_queue_lineage d1))"

definition handle_queue_replace ::
  "client_id \<Rightarrow> queue_lineage \<Rightarrow> queue_item list \<Rightarrow> unified_slot list \<Rightarrow> usize option
   \<Rightarrow> seconds option \<Rightarrow> queue_source \<Rightarrow> daemon \<Rightarrow> daemon option" where
  "handle_queue_replace c lineage items slots start_idx start_secs src d =
     (case prepare_replacement_slots c items slots start_idx d of
        Inl reason \<Rightarrow> Some (reject_command c lineage reason d)
      | Inr (admitted, next_cursor) \<Rightarrow>
          map_option (\<lambda>d1.
              (let d2 = snd (submit_queue_slots_for_replace (slot_pairs (dm_queue d1)) next_cursor start_secs d1)
               in broadcast_queue_state (except_op_client c d) (publish_observed (note_observed None d2))))
            (install_replaced_queue admitted next_cursor src d))"

definition append_index :: "u64 option \<Rightarrow> daemon \<Rightarrow> usize option" where
  "append_index before d =
     (case before of None \<Rightarrow> Some (pq_len (dm_queue d)) | Some sid \<Rightarrow> slot_index (dm_queue d) sid)"

definition admit_append_items :: "client_id \<Rightarrow> queue_item list \<Rightarrow> daemon \<Rightarrow> string + queue_item list" where
  "admit_append_items c items d =
     (case transport_rejection c items d of
        Some reason \<Rightarrow> Inl reason
      | None \<Rightarrow>
          (let kept = filter (\<lambda>it. daemon_admits it (dm_audio_only d) (dm_has_emby d) (has_abs d)) items
           in if kept = [] then Inl ''Playback owner rejected the queue append''
              else (case audio_only_rejection (dm_audio_only d) kept of
                      Some reason \<Rightarrow> Inl reason | None \<Rightarrow> Inr kept)))"

fun insert_all :: "usize \<Rightarrow> queue_item list \<Rightarrow> daemon \<Rightarrow> (queue_slot_id \<times> queue_item) list \<times> daemon" where
  "insert_all index [] d = ([], d)"
| "insert_all index (it # items) d =
     (let (sid, d1) = queue_op (insert_slot index it) d;
          (rest, d2) = insert_all (index + 1) items d1
      in ((sid, it) # rest, d2))"

definition append_messages :: "(queue_slot_id \<times> queue_item) list \<Rightarrow> u64 option \<Rightarrow> usize \<Rightarrow> run_message list" where
  "append_messages inserted before index =
     Msg_Run (Cmd_Queue_Append inserted)
     # (if before = None then []
        else map (\<lambda>(k, sid, _). Msg_Run (Cmd_Queue_Move sid (index + k))) (enumerate 0 inserted))"

definition handle_queue_append ::
  "client_id \<Rightarrow> queue_lineage \<Rightarrow> queue_item list \<Rightarrow> u64 option \<Rightarrow> daemon \<Rightarrow> daemon" where
  "handle_queue_append c lineage items before d =
     (if items = [] then d
      else (case append_index before d of
        None \<Rightarrow> reject_command c lineage ''slot not found; append anchor is stale'' d
      | Some index \<Rightarrow>
          (case admit_append_items c items d of
             Inl reason \<Rightarrow> reject_command c lineage reason d
           | Inr admitted \<Rightarrow>
               (let (inserted, d1) = insert_all index admitted d
                in tell_run_all (append_messages inserted before index)
                     (broadcast_queue_state (except_op_client c d) d1)))))"

section \<open>Queue edits\<close>

text \<open>The player is told of an emptied queue and stopped.\<close>

definition empty_player :: "daemon \<Rightarrow> daemon" where
  "empty_player d =
     stop_output (tell_run (Msg_Run (Cmd_Submit_Queue [] 0 None))
       (snd (player_op advance_sequence_generation d)))"

definition handle_queue_remove_slot :: "client_id \<Rightarrow> queue_lineage \<Rightarrow> u64 \<Rightarrow> daemon \<Rightarrow> daemon" where
  "handle_queue_remove_slot c lineage sid d =
     (if slot (dm_queue d) sid = None
      then reject_command c lineage ''slot not found; remove skipped'' d
      else if pq_active (dm_queue d) = Some sid
      then (let d1 = broadcast_queue_state (except_op_client c d)
                       (snd (queue_op (remove_active_slot_confirmed sid) d))
            in if pq_is_empty (dm_queue d1) then reset_slot_jumps (empty_player d1)
               else tell_run (Msg_Run (Cmd_Queue_Remove sid)) (reset_slot_jumps d1))
      else tell_run (Msg_Run (Cmd_Queue_Remove sid))
             (broadcast_queue_state (except_op_client c d) (snd (queue_op (remove_slot sid) d))))"

text \<open>The result: the slots removed, and whether the active one was among them.\<close>

fun remove_listed :: "u64 list \<Rightarrow> daemon \<Rightarrow> (queue_slot_id list \<times> bool) \<times> daemon" where
  "remove_listed [] d = (([], False), d)"
| "remove_listed (sid # sids) d =
     (if slot (dm_queue d) sid = None then remove_listed sids d
      else
        (let was_active = (pq_active (dm_queue d) = Some sid);
             d1 = (if was_active then snd (queue_op (remove_active_slot_confirmed sid) d)
                   else snd (queue_op (remove_slot sid) d));
             ((removed, active_gone), d2) = remove_listed sids d1
         in ((sid # removed, was_active \<or> active_gone), d2)))"

definition handle_queue_remove_slots :: "client_id \<Rightarrow> u64 list \<Rightarrow> daemon \<Rightarrow> daemon" where
  "handle_queue_remove_slots c sids d =
     (let ((removed, removed_active), d1) = remove_listed sids d in
      if removed = [] then d1
      else
        (let d2 = broadcast_queue_state (except_op_client c d) d1;
             d3 = (if removed_active then reset_slot_jumps d2 else d2)
         in if pq_is_empty (dm_queue d3) then reset_slot_jumps (empty_player d3)
            else tell_run_all (map (\<lambda>sid. Msg_Run (Cmd_Queue_Remove sid)) removed) d3))"

definition handle_queue_shuffle ::
  "(queue_slot_id list \<Rightarrow> queue_slot_id list) \<Rightarrow> client_id \<Rightarrow> daemon \<Rightarrow> daemon" where
  "handle_queue_shuffle draw c d =
     (let order = shuffled_slot_order draw (dm_active d) (dm_queue d) in
      if slot_ids (dm_queue d) = order then d
      else
        (let (r, d1) = queue_op (reorder_slots order) d
         in case r of
              Applied _ \<Rightarrow>
                tell_run (Msg_Run (Cmd_Queue_Reorder order))
                  (broadcast_queue_state (except_op_client c d) d1)
            | Mutation_NotFound \<Rightarrow> d1))"

definition handle_queue_move_slot :: "client_id \<Rightarrow> queue_lineage \<Rightarrow> u64 \<Rightarrow> usize \<Rightarrow> daemon \<Rightarrow> daemon" where
  "handle_queue_move_slot c lineage sid to_index d =
     (if slot (dm_queue d) sid = None
      then reject_command c lineage ''slot not found; move skipped'' d
      else tell_run (Msg_Run (Cmd_Queue_Move sid to_index))
             (broadcast_queue_state (except_op_client c d) (snd (queue_op (move_slot sid to_index) d))))"

definition handle_queue_play_slot :: "client_id \<Rightarrow> queue_lineage \<Rightarrow> u64 \<Rightarrow> daemon \<Rightarrow> daemon" where
  "handle_queue_play_slot c lineage sid d =
     (if slot (dm_queue d) sid = None
      then reject_command c lineage ''slot not found; play skipped'' d
      else
        (let ((req, gen), s) = mint_local_id (dm_transitions d)
         in dispatch_slot_jump (Some c) (transition_new req gen sid) (except_op_client c d)
              (set_transitions s d)))"

fun apply_updates :: "progress_update list \<Rightarrow> queue_slot_id option \<Rightarrow> daemon \<Rightarrow> bool \<times> daemon" where
  "apply_updates [] act d = (False, d)"
| "apply_updates (u # us) act d =
     (let matching = map qs_slot_id
            (filter (\<lambda>s. Some (qs_slot_id s) \<noteq> act \<and> qi_content_id (qs_item s) = pu_content_id u)
              (pq_slots (dm_queue d)));
          d1 = fold (\<lambda>sid d. snd (queue_op (apply_progress sid (pu_position_ticks u) (pu_finished u)) d))
                 matching d;
          (applied, d2) = apply_updates us act d1
      in (matching \<noteq> [] \<or> applied, d2))"

definition handle_queue_apply_progress :: "client_id \<Rightarrow> progress_update list \<Rightarrow> daemon \<Rightarrow> daemon" where
  "handle_queue_apply_progress c updates d =
     (let (applied, d1) = apply_updates updates (pq_active (dm_queue d)) d
      in if applied then broadcast_queue_state (Some c) d1 else d1)"

definition handle_queue_clear :: "client_id \<Rightarrow> daemon \<Rightarrow> daemon option" where
  "handle_queue_clear c d =
     (let d1 = set_source Src_Unknown (snd (queue_op (\<lambda>q h. ((), clear_slots q h)) d))
      in map_option (\<lambda>d2. broadcast_queue_state (except_op_client c d) (reset_slot_jumps (empty_player d2)))
           (mint_queue_lineage d1))"

section \<open>Playback intents\<close>

definition step_to_neighbor_slot ::
  "client_id \<Rightarrow> direction \<Rightarrow> request_id \<Rightarrow> generation \<Rightarrow> daemon \<Rightarrow> daemon" where
  "step_to_neighbor_slot c dir req gen d =
     (case relative_step_target dir (dm_core d) of
        Step_Jump sid \<Rightarrow>
          dispatch_slot_jump (Some c) (transition_with_cause req gen sid (Cause_Step dir)) None d
      | Coalesced \<Rightarrow>
          reply c (Ce_Intent \<lparr>ie_request_id = req, ie_generation = gen,
              ie_outcome = Out_Coalesced
                (case opt_or (queued_latest (dm_transitions d)) (in_flight (dm_transitions d)) of
                   Some t \<Rightarrow> tr_request_id t | None \<Rightarrow> req)\<rparr>) d
      | AtEdge \<Rightarrow> d)"

definition reply_pipe_status :: "instant \<Rightarrow> client_id \<Rightarrow> daemon \<Rightarrow> daemon" where
  "reply_pipe_status now c d =
     (case pipe_status_of now (dm_intents d) of
        None \<Rightarrow> d | Some s \<Rightarrow> reply c (Ce_Pipe_Status s) d)"

definition resolve_play_intent ::
  "instant \<Rightarrow> client_id \<Rightarrow> request_id \<Rightarrow> generation \<Rightarrow> string list \<Rightarrow> usize \<Rightarrow> i64 \<Rightarrow> queue_source
   \<Rightarrow> daemon \<Rightarrow> daemon" where
  "resolve_play_intent now c req gen item_ids start_idx start_ticks src d =
     (if \<not> dm_has_emby d then d
      else add_job (Job_Resolve item_ids start_idx start_ticks src c req gen)
             (reply_pipe_status now c (d\<lparr>dm_intents := mark_resolving req (dm_intents d)\<rparr>)))"

definition is_coalesced :: "intent_event \<Rightarrow> bool" where
  "is_coalesced e = (case ie_outcome e of Out_Coalesced _ \<Rightarrow> True | _ \<Rightarrow> False)"

definition act_on_intent :: "instant \<Rightarrow> client_id \<Rightarrow> intent \<Rightarrow> daemon \<Rightarrow> daemon" where
  "act_on_intent now c i d =
     (case in_action i of
        Act_Play item_ids start_idx start_ticks src \<Rightarrow>
          resolve_play_intent now c (in_request_id i) (in_generation i) item_ids start_idx start_ticks src d
      | Act_Stop \<Rightarrow>
          answer_intent (applied_if_current c (in_request_id i) (in_generation i)) c (handle_stop d)
      | Act_Set_Paused paused \<Rightarrow>
          (if st_paused (pl_status (dm_player d)) \<noteq> paused
           then tell_run (Msg_Wire Wire_Toggle_Pause) d else d)
      | Act_Next \<Rightarrow> step_to_neighbor_slot c Next (in_request_id i) (in_generation i) d
      | Act_Previous \<Rightarrow> step_to_neighbor_slot c Previous (in_request_id i) (in_generation i) d)"

definition handle_playback_intent :: "instant \<Rightarrow> client_id \<Rightarrow> intent \<Rightarrow> daemon \<Rightarrow> daemon" where
  "handle_playback_intent now c i d =
     (let (accepted, s) = accept_intent c i (dm_pipe d) (dm_intents d);
          d1 = reply_pipe_status now c (reply_all c (map Ce_Intent accepted) (d\<lparr>dm_intents := s\<rparr>))
      in if \<exists>e\<in>set accepted. is_coalesced e then d1 else act_on_intent now c i d1)"

section \<open>Dispatch\<close>

definition route_player_cmd :: "client_id \<Rightarrow> wire_command \<Rightarrow> daemon \<Rightarrow> daemon" where
  "route_player_cmd c w d =
     (case w of
        Wire_Jump_To _ \<Rightarrow>
          reply c (Ce_Command_Rejected
            ''index-addressed queue jump is no longer supported; use unified queue commands'') d
      | _ \<Rightarrow> tell_run (Msg_Wire w) d)"

fun dispatch_ctrl_command ::
  "instant \<Rightarrow> (queue_slot_id list \<Rightarrow> queue_slot_id list) \<Rightarrow> client_id \<Rightarrow> queue_lineage \<Rightarrow> ctrl_cmd
   \<Rightarrow> daemon \<Rightarrow> daemon option" where
  "dispatch_ctrl_command now draw c lineage Cc_Hello d = Some d"
| "dispatch_ctrl_command now draw c lineage (Cc_Adopt items cursor src) d =
     handle_adopt_queue c lineage items cursor src d"
| "dispatch_ctrl_command now draw c lineage (Cc_Player w) d = Some (route_player_cmd c w d)"
| "dispatch_ctrl_command now draw c lineage Cc_Stop d = Some (handle_stop d)"
| "dispatch_ctrl_command now draw c lineage (Cc_Intent i) d = Some (handle_playback_intent now c i d)"
| "dispatch_ctrl_command now draw c lineage Cc_Request_Shutdown d =
     Some (add_job Job_Shutdown (reply c Ce_Shutdown_Accepted d))"
| "dispatch_ctrl_command now draw c lineage (Cc_Source_Update src cmd_lineage _) d =
     Some (handle_queue_source_update c lineage src cmd_lineage d)"
| "dispatch_ctrl_command now draw c lineage (Cc_Replace items slots start_idx src secs _) d =
     handle_queue_replace c lineage items slots start_idx secs src d"
| "dispatch_ctrl_command now draw c lineage (Cc_Append items before _) d =
     Some (handle_queue_append c lineage items before d)"
| "dispatch_ctrl_command now draw c lineage (Cc_Refresh _) d = Some (start_queue_enrichment d)"
| "dispatch_ctrl_command now draw c lineage (Cc_Remove_Slot sid _) d =
     Some (handle_queue_remove_slot c lineage sid d)"
| "dispatch_ctrl_command now draw c lineage (Cc_Remove_Slots sids _) d =
     Some (handle_queue_remove_slots c sids d)"
| "dispatch_ctrl_command now draw c lineage (Cc_Move_Slot sid to_index _) d =
     Some (handle_queue_move_slot c lineage sid to_index d)"
| "dispatch_ctrl_command now draw c lineage (Cc_Shuffle _) d = Some (handle_queue_shuffle draw c d)"
| "dispatch_ctrl_command now draw c lineage (Cc_Play_Slot sid _) d =
     Some (handle_queue_play_slot c lineage sid d)"
| "dispatch_ctrl_command now draw c lineage Cc_Clear d = handle_queue_clear c d"
| "dispatch_ctrl_command now draw c lineage (Cc_Clear_Op _) d = handle_queue_clear c d"
| "dispatch_ctrl_command now draw c lineage (Cc_Apply_Progress _ updates) d =
     Some (handle_queue_apply_progress c updates d)"

definition role_gate :: "ctrl_cmd \<Rightarrow> daemon_role \<Rightarrow> owner_gate_rejection option" where
  "role_gate cmd role =
     (case requires_owner cmd of
        Owner_Only r \<Rightarrow> if role \<noteq> Daemon_Local then Some r else None
      | Non_Owner_Only r \<Rightarrow> if role = Daemon_Local then Some r else None
      | Any_Role \<Rightarrow> None)"

definition finish_op :: "client_id \<Rightarrow> daemon \<Rightarrow> daemon" where
  "finish_op c d =
     (case dm_op d of None \<Rightarrow> d | Some oid \<Rightarrow> answer_queue_op c oid (d\<lparr>dm_op := None\<rparr>))"

definition handle_ctrl_for_role ::
  "instant \<Rightarrow> (queue_slot_id list \<Rightarrow> queue_slot_id list) \<Rightarrow> client_id \<Rightarrow> ctrl_cmd \<Rightarrow> daemon \<Rightarrow> daemon option" where
  "handle_ctrl_for_role now draw c cmd d =
     (let d1 = d\<lparr>dm_op := queue_op_id cmd\<rparr>; lineage = dm_sh_lineage d1 in
      case role_gate cmd (dm_role d1) of
        Some r \<Rightarrow> Some (reject_command c lineage (role_gate_reason r) d1)
      | None \<Rightarrow>
          (let (go_on, d2) = (if cmd = Cc_Request_Shutdown then prepare_shutdown c d1 else (True, d1))
           in if \<not> go_on then Some d2
              else map_option (finish_op c) (dispatch_ctrl_command now draw c lineage cmd d2)))"

end
