(* ===== verification/Daemon_Loop.thy ===== *)
theory Daemon_Loop
  imports Daemon_Control
begin

text \<open>
  The daemon's event loop (\<^verbatim>\<open>mbv-daemon/src/event_loop.rs\<close> and the files under
  \<^verbatim>\<open>event_loop/\<close>, the observations in \<^verbatim>\<open>run.rs\<close>, the Emby socket in \<^verbatim>\<open>ws.rs\<close> and the
  Audiobookshelf updates in \<^verbatim>\<open>audiobookshelf.rs\<close>), on the local output. One event is one call of
  \<open>handle_event\<close>; what the servers answer comes with the event. The events of the Cast and Emby
  Session outputs, the Pin swap, the tray and the service set-up are not modelled.
\<close>

section \<open>Outcomes\<close>

datatype loop_flow = Flow_Continue | Flow_Shutdown

record event_outcome =
  eo_flow :: loop_flow
  eo_dirty :: bool

definition CONTINUE :: event_outcome where
  "CONTINUE = \<lparr>eo_flow = Flow_Continue, eo_dirty = False\<rparr>"

definition DIRTY :: event_outcome where
  "DIRTY = \<lparr>eo_flow = Flow_Continue, eo_dirty = True\<rparr>"

definition SHUTDOWN :: event_outcome where
  "SHUTDOWN = \<lparr>eo_flow = Flow_Shutdown, eo_dirty = False\<rparr>"

definition dirty_if :: "bool \<Rightarrow> event_outcome" where
  "dirty_if b = (if b then DIRTY else CONTINUE)"

section \<open>Observations of the playback run\<close>

definition run_identity_is_current :: "generation \<Rightarrow> daemon \<Rightarrow> bool" where
  "run_identity_is_current g d \<longleftrightarrow> g = pl_generation (dm_player d)"

definition record_observation :: "queue_slot_id \<Rightarrow> progress_observation \<Rightarrow> bool \<Rightarrow> daemon \<Rightarrow> bool \<times> daemon" where
  "record_observation sid obs played d =
     (case slot (dm_queue d) sid of
        None \<Rightarrow> (False, d)
      | Some s \<Rightarrow>
          (True, snd (owner_op (\<lambda>ow h. ((), apply_completion_progress sid
                   (position_to_record obs (qs_item s)) played ow h)) d)))"

definition record_completed_slot ::
  "queue_slot_id \<Rightarrow> i64 \<Rightarrow> bool \<Rightarrow> bool \<Rightarrow> daemon \<Rightarrow> daemon" where
  "record_completed_slot sid pos played consume d =
     (let d1 = snd (record_observation sid (Obs_Completed pos played) played d);
          (_, d2) = owner_op (consume_completed_slot sid consume (dm_consume_videos d) (dm_consume_audio d)) d1
      in publish_observed d2)"

definition apply_stopped_observation ::
  "generation \<Rightarrow> queue_slot_id option \<Rightarrow> i64 \<Rightarrow> bool \<Rightarrow> daemon \<Rightarrow> bool option \<times> daemon" where
  "apply_stopped_observation g sid pos played d =
     (if \<not> run_identity_is_current g d then (None, d)
      else (case sid of
        None \<Rightarrow> (Some False, d)
      | Some s \<Rightarrow> (let (known, d1) = record_observation s (Obs_Stopped pos played) played d in (Some known, d1))))"

definition answer_current_if ::
  "(current_intent \<Rightarrow> bool) \<Rightarrow> daemon \<Rightarrow> daemon" where
  "answer_current_if wanted d =
     (case dm_intents d of
        Some c \<Rightarrow>
          (if wanted c
           then answer_intent (applied_if_current (ci_connection c) (ci_request_id c) (ci_generation c))
                  (ci_connection c) d
           else d)
      | None \<Rightarrow> d)"

definition plays_item_at :: "playback_queue \<Rightarrow> usize \<Rightarrow> current_intent \<Rightarrow> bool" where
  "plays_item_at q idx c =
     (case ci_action c of
        Act_Play item_ids _ _ _ \<Rightarrow>
          (case nth_opt (pq_slots q) idx of None \<Rightarrow> False | Some s \<Rightarrow> qi_id (qs_item s) \<in> set item_ids)
      | _ \<Rightarrow> False)"

definition handle_track_changed ::
  "queue_slot_id \<Rightarrow> (request_id \<times> generation) option \<Rightarrow> daemon \<Rightarrow> event_outcome \<times> daemon" where
  "handle_track_changed sid tr d =
     (case owner_op (observe_track_change sid) d of
        (None, d1) \<Rightarrow> (CONTINUE, d1)
      | (Some (idx, resolved), d1) \<Rightarrow>
          (let d2 = broadcast (Ce_Player (PE_Track_Changed resolved tr)) d1;
               d3 = (case tr of None \<Rightarrow> d2 | Some (req, _) \<Rightarrow> settle_and_redispatch req resolved d2);
               d4 = broadcast_queue_state None (publish_observed d3)
           in (CONTINUE, answer_current_if (plays_item_at (dm_queue d4) idx) d4)))"

definition next_up_message :: "queue_slot option \<Rightarrow> run_message list" where
  "next_up_message s =
     (case Option.bind s (\<lambda>s. qi_as_emby (qs_item s)) of
        None \<Rightarrow> []
      | Some e \<Rightarrow> [Msg_Wire (Wire_Next_Up_Show (emby_id e) (emby_series_name e) (emby_name e) (emby_artist e))])"

definition handle_next_up_threshold :: "string \<Rightarrow> i64 \<Rightarrow> i64 \<Rightarrow> daemon \<Rightarrow> event_outcome \<times> daemon" where
  "handle_next_up_threshold series season episode d =
     (let d1 = tell_run_all (next_up_message (Option.bind (next_up_slot (dm_queue d)) (slot (dm_queue d)))) d
      in (CONTINUE, broadcast (Ce_Player (PE_Next_Up_Threshold series season episode)) d1))"

definition handle_queue_next_up :: "usize \<Rightarrow> daemon \<Rightarrow> event_outcome \<times> daemon" where
  "handle_queue_next_up next_idx d =
     (let d1 = tell_run_all (next_up_message (nth_opt (pq_slots (dm_queue d)) next_idx)) d
      in (CONTINUE, broadcast (Ce_Player (PE_Queue_Next_Up next_idx)) d1))"

definition handle_output_started :: "instant \<Rightarrow> daemon \<Rightarrow> event_outcome \<times> daemon" where
  "handle_output_started now d =
     (let delay = map_option (\<lambda>ms. ms * 10 ^ 6) (dm_playout_delay_ms d);
          (started, s) = output_started_if_current now delay (dm_intents d);
          d1 = d\<lparr>dm_intents := s\<rparr>;
          d2 = (case started of
                  None \<Rightarrow> d1
                | Some (c, status) \<Rightarrow>
                    (let d3 = send_client c (Ce_Pipe_Status status) d1 in
                     case (delay, dm_intents d3) of
                       (None, Some cur) \<Rightarrow>
                         send_client (ci_connection cur) (Ce_Intent (intent_event_of cur Out_Applied)) d3
                     | _ \<Rightarrow> d3))
      in (CONTINUE, broadcast_queue_state None (broadcast (Ce_Player PE_Output_Started) d2)))"

definition handle_track_completed ::
  "queue_slot_id \<Rightarrow> generation \<Rightarrow> i64 \<Rightarrow> bool \<Rightarrow> bool \<Rightarrow> daemon \<Rightarrow> event_outcome \<times> daemon" where
  "handle_track_completed sid g pos played consume d =
     (if \<not> run_identity_is_current g d then (CONTINUE, d)
      else (DIRTY, broadcast (Ce_Player (PE_Track_Completed sid g pos played consume))
             (broadcast_queue_state None (record_completed_slot sid pos played consume d))))"

definition settle_player_event_intent :: "player_event \<Rightarrow> daemon \<Rightarrow> daemon" where
  "settle_player_event_intent pe d =
     (let d1 = (case pe of
                  PE_Paused_Changed paused \<Rightarrow> answer_current_if (\<lambda>c. ci_action c = Act_Set_Paused paused) d
                | _ \<Rightarrow> d)
      in case pe of
           PE_Stopped _ _ _ _ _ _ \<Rightarrow> answer_current_if (\<lambda>c. ci_action c = Act_Stop) d1
         | _ \<Rightarrow> d1)"

definition handle_player_event :: "player_event \<Rightarrow> daemon \<Rightarrow> event_outcome \<times> daemon" where
  "handle_player_event pe d =
     (let (stopped, d1) = (case pe of
              PE_Stopped sid g pos played _ _ \<Rightarrow> apply_stopped_observation g sid pos played d
            | _ \<Rightarrow> (Some False, d))
      in case stopped of
           None \<Rightarrow> (CONTINUE, d1)
         | Some updated \<Rightarrow>
             (dirty_if updated,
              broadcast (Ce_Player pe)
                (settle_player_event_intent pe (if updated then broadcast_queue_state None d1 else d1))))"

definition handle_player_observation :: "instant \<Rightarrow> player_event \<Rightarrow> daemon \<Rightarrow> event_outcome \<times> daemon" where
  "handle_player_observation now pe d =
     (case pe of
        PE_Track_Changed sid tr \<Rightarrow> handle_track_changed sid tr d
      | PE_Next_Up_Threshold series season episode \<Rightarrow> handle_next_up_threshold series season episode d
      | PE_Queue_Next_Up n \<Rightarrow> handle_queue_next_up n d
      | PE_Output_Started \<Rightarrow> handle_output_started now d
      | PE_Track_Completed sid g pos played consume \<Rightarrow> handle_track_completed sid g pos played consume d
      | _ \<Rightarrow> handle_player_event pe d)"

section \<open>Resolved plays\<close>

text \<open>\<^verbatim>\<open>play_resolved_locally\<close> indexes the list only when it has several items.\<close>

definition with_position :: "i64 \<Rightarrow> emby_item \<Rightarrow> emby_item" where
  "with_position ticks it = (if ticks > 0 then it\<lparr>emby_playback_position_ticks := ticks\<rparr> else it)"

definition play_fetched :: "emby_item list \<Rightarrow> usize \<Rightarrow> i64 \<Rightarrow> daemon \<Rightarrow> daemon" where
  "play_fetched fetched start_idx start_ticks d =
     d\<lparr>dm_player :=
         (if length fetched = 1 then pl_play (dm_pipe d) (with_position start_ticks (hd fetched)) (dm_player d)
          else pl_play_queue (dm_pipe d)
                 (fetched[start_idx := with_position start_ticks (fetched ! start_idx)]) start_idx (dm_player d))\<rparr>"

definition play_resolved_items ::
  "emby_item list \<Rightarrow> usize \<Rightarrow> i64 \<Rightarrow> queue_source \<Rightarrow> daemon \<Rightarrow> daemon option" where
  "play_resolved_items fetched start_idx start_ticks src d =
     (let i = min start_idx (length fetched - 1)
      in map_option (\<lambda>d1. play_fetched fetched i start_ticks (broadcast_queue_state None d1))
           (mint_queue_lineage (install_items (map QI_Emby fetched) (Some i) src d)))"

definition send_pipe_status :: "instant \<Rightarrow> client_id \<Rightarrow> daemon \<Rightarrow> daemon" where
  "send_pipe_status now c d =
     (case pipe_status_of now (dm_intents d) of
        None \<Rightarrow> d | Some s \<Rightarrow> send_client c (Ce_Pipe_Status s) d)"

definition resolved_rejection :: "emby_item list option \<Rightarrow> daemon \<Rightarrow> intent_rejection option" where
  "resolved_rejection fetched d =
     (case fetched of
        None \<Rightarrow> Some Rej_Resolution_Failed
      | Some items \<Rightarrow>
          (if items = [] then Some Rej_Empty_Target
           else if audio_only_rejection (dm_audio_only d) (map QI_Emby items) \<noteq> None then Some Rej_Audio_Only
           else None))"

definition handle_playback_resolved ::
  "instant \<Rightarrow> usize \<Rightarrow> i64 \<Rightarrow> queue_source \<Rightarrow> client_id \<Rightarrow> request_id \<Rightarrow> generation
   \<Rightarrow> emby_item list option \<Rightarrow> daemon \<Rightarrow> (event_outcome \<times> daemon) option" where
  "handle_playback_resolved now start_idx start_ticks src c req gen fetched d =
     (if \<not> has_client c (dm_clients d)
      then Some (CONTINUE, d\<lparr>dm_intents := invalidate_connection c (dm_intents d)\<rparr>)
      else if \<not> is_current c req gen (dm_intents d) then Some (CONTINUE, d)
      else (case resolved_rejection fetched d of
        Some reason \<Rightarrow> Some (CONTINUE, answer_intent (rejected_if_current c req gen reason) c d)
      | None \<Rightarrow>
          map_option (Pair DIRTY)
            (play_resolved_items (the fetched) start_idx start_ticks src
              (reset_slot_jumps (send_pipe_status now c
                (d\<lparr>dm_intents := mark_starting req (dm_intents d)\<rparr>))))))"

section \<open>The Emby socket\<close>

datatype ws_event =
    Ws_Play "string list" bool i64 usize
  | Ws_Stop | Ws_Pause | Ws_Unpause | Ws_Toggle_Pause | Ws_Next_Track | Ws_Previous_Track
  | Ws_Seek i64 | Ws_Seek_Relative seconds
  | Ws_Set_Volume i64 | Ws_Volume_Up | Ws_Volume_Down | Ws_Set_Mute bool | Ws_Toggle_Mute
  | Ws_Set_Audio i64 | Ws_Set_Sub i64 | Ws_User_Data_Changed

definition websocket_play_start_index :: "bool \<Rightarrow> usize \<Rightarrow> usize \<Rightarrow> usize option" where
  "websocket_play_start_index play_now fetched_len start_index =
     (if play_now \<and> fetched_len > 0 then Some (min start_index (fetched_len - 1)) else None)"

text \<open>\<open>fetch\<close> is the server's answer, \<open>None\<close> an error.\<close>

definition handle_ws_play ::
  "(string list \<Rightarrow> emby_item list option) \<Rightarrow> string list \<Rightarrow> bool \<Rightarrow> i64 \<Rightarrow> usize \<Rightarrow> daemon \<Rightarrow> daemon" where
  "handle_ws_play fetch item_ids play_now start_ticks start_index d =
     (if websocket_play_start_index play_now (length item_ids) start_index = None then d
      else (case fetch item_ids of
        None \<Rightarrow> d
      | Some fetched \<Rightarrow>
          (case websocket_play_start_index play_now (length fetched) start_index of
             None \<Rightarrow> d
           | Some i \<Rightarrow>
               (if audio_only_rejection (dm_audio_only d) (map QI_Emby fetched) \<noteq> None then d
                else
                  (let d1 = install_items (map QI_Emby fetched) (Some i) Src_Remote d;
                       d2 = d1\<lparr>dm_clients := take_authority_for_emby_remote (dm_clients d1)\<rparr>;
                       d3 = set_transitions (reset_transitions (dm_transitions d2)) d2
                   in play_fetched fetched i start_ticks (broadcast_queue_state None d3))))))"

definition ws_wire :: "wire_command \<Rightarrow> daemon \<Rightarrow> bool \<times> daemon" where
  "ws_wire w d = send_run (Msg_Wire w) d"

text \<open>The first result: something was done, so the socket takes the authority.\<close>

fun ws_control :: "ws_event \<Rightarrow> daemon \<Rightarrow> bool \<times> daemon" where
  "ws_control Ws_Stop d = (\<not> pq_is_empty (dm_queue d), stop_output d)"
| "ws_control Ws_Pause d = player_op (pl_set_paused True) d"
| "ws_control Ws_Unpause d = player_op (pl_set_paused False) d"
| "ws_control (Ws_Seek ticks) d = ws_wire (Wire_Seek_Absolute (ticks_to_seconds ticks)) d"
| "ws_control Ws_Toggle_Pause d = ws_wire Wire_Toggle_Pause d"
| "ws_control (Ws_Seek_Relative secs) d = ws_wire (Wire_Seek secs) d"
| "ws_control (Ws_Set_Volume v) d =
     ws_wire (Wire_Set_Volume (max 0 (min v (st_volume_max (pl_status (dm_player d)))))) d"
| "ws_control Ws_Volume_Up d =
     (let st = pl_status (dm_player d) in ws_wire (Wire_Set_Volume (min (st_volume st + 5) (st_volume_max st))) d)"
| "ws_control Ws_Volume_Down d = ws_wire (Wire_Set_Volume (max (st_volume (pl_status (dm_player d)) - 5) 0)) d"
| "ws_control (Ws_Set_Mute m) d = ws_wire (Wire_Set_Mute m) d"
| "ws_control Ws_Toggle_Mute d = ws_wire (Wire_Set_Mute (\<not> st_muted (pl_status (dm_player d)))) d"
| "ws_control (Ws_Set_Audio i) d = ws_wire (Wire_Set_Audio i) d"
| "ws_control (Ws_Set_Sub i) d =
     (case subtitle_stream_index_to_mpv_id i (pl_status (dm_player d)) of
        Some sid \<Rightarrow> ws_wire (Wire_Set_Sub sid) d | None \<Rightarrow> (False, d))"
| "ws_control _ d = (False, d)"

definition handle_ws_control :: "ws_event \<Rightarrow> daemon \<Rightarrow> daemon" where
  "handle_ws_control ev d =
     (let (changed, d1) = ws_control ev d
      in if changed then d1\<lparr>dm_clients := take_authority_for_emby_remote (dm_clients d1)\<rparr> else d1)"

fun handle_ws :: "(string list \<Rightarrow> emby_item list option) \<Rightarrow> ws_event \<Rightarrow> daemon \<Rightarrow> daemon" where
  "handle_ws fetch (Ws_Play item_ids play_now ticks start_index) d =
     handle_ws_play fetch item_ids play_now ticks start_index d"
| "handle_ws fetch ev d = handle_ws_control ev d"

section \<open>Service updates\<close>

record abs_progress_update =
  au_generation :: u64
  au_library_item_id :: string
  au_episode_id :: string
  au_current_time_seconds :: seconds
  au_is_finished :: bool

record abs_book_progress_update =
  abu_generation :: u64
  abu_library_item_id :: string
  abu_current_time_seconds :: seconds
  abu_is_finished :: bool

text \<open>The active slot among the matching ones, else the first of them.\<close>

definition progress_target :: "(queue_slot \<Rightarrow> bool) \<Rightarrow> playback_queue \<Rightarrow> queue_slot_id option" where
  "progress_target matches q =
     (let ids = map qs_slot_id (filter matches (pq_slots q))
      in opt_or (find (\<lambda>sid. Some sid = pq_active q) ids) (nth_opt ids 0))"

definition apply_progress_to :: "queue_slot_id option \<Rightarrow> i64 \<Rightarrow> bool \<Rightarrow> daemon \<Rightarrow> daemon" where
  "apply_progress_to target ticks finished d =
     (case target of None \<Rightarrow> d | Some sid \<Rightarrow> snd (queue_op (apply_progress sid ticks finished) d))"

definition apply_audiobookshelf_progress :: "abs_progress_update \<Rightarrow> daemon \<Rightarrow> bool \<times> daemon" where
  "apply_audiobookshelf_progress u d =
     (if dm_abs_generation d \<noteq> Some (au_generation u) then (False, d)
      else
        (let ticks = seconds_to_ticks (au_current_time_seconds u);
             target = progress_target (\<lambda>s. case qi_as_audiobookshelf (qs_item s) of
                 None \<Rightarrow> False
               | Some e \<Rightarrow> ep_library_item_id e = au_library_item_id u \<and> ep_episode_id e = au_episode_id u)
               (dm_queue d);
             d1 = apply_progress_to target ticks (au_is_finished u) d
         in (target \<noteq> None, d1\<lparr>dm_clients := broadcast_progress_gated (Ce_Abs_Progress
               \<lparr>ae_library_item_id = au_library_item_id u, ae_episode_id = au_episode_id u,
                ae_position_ticks = ticks, ae_is_finished = au_is_finished u,
                ae_setup_generation = au_generation u\<rparr>) (dm_clients d1)\<rparr>)))"

definition apply_audiobookshelf_book_progress :: "abs_book_progress_update \<Rightarrow> daemon \<Rightarrow> bool \<times> daemon" where
  "apply_audiobookshelf_book_progress u d =
     (if dm_abs_generation d \<noteq> Some (abu_generation u) then (False, d)
      else
        (let ticks = seconds_to_ticks (abu_current_time_seconds u);
             target = progress_target (\<lambda>s. case qi_as_audiobookshelf_book (qs_item s) of
                 None \<Rightarrow> False | Some b \<Rightarrow> book_library_item_id b = abu_library_item_id u) (dm_queue d);
             d1 = apply_progress_to target ticks (abu_is_finished u) d
         in (target \<noteq> None, d1\<lparr>dm_clients := broadcast_book_progress_gated (Ce_Abs_Book_Progress
               \<lparr>abe_library_item_id = abu_library_item_id u, abe_position_ticks = ticks,
                abe_is_finished = abu_is_finished u, abe_setup_generation = abu_generation u\<rparr>)
               (dm_clients d1)\<rparr>)))"

definition refreshed_progress ::
  "(string \<times> string \<rightharpoonup> seconds \<times> bool) \<Rightarrow> (string \<rightharpoonup> seconds \<times> bool) \<Rightarrow> queue_item
   \<Rightarrow> (i64 \<times> bool) option" where
  "refreshed_progress episodes books it =
     map_option (\<lambda>found. case found of
           None \<Rightarrow> (seconds_to_ticks 0, False)
         | Some (secs, finished) \<Rightarrow> (seconds_to_ticks secs, finished))
       (case qi_as_audiobookshelf it of
          Some e \<Rightarrow> Some (episodes (ep_library_item_id e, ep_episode_id e))
        | None \<Rightarrow> map_option (\<lambda>b. books (book_library_item_id b)) (qi_as_audiobookshelf_book it))"

definition apply_audiobookshelf_progress_refresh ::
  "u64 \<Rightarrow> (string \<times> string \<rightharpoonup> seconds \<times> bool) \<Rightarrow> (string \<rightharpoonup> seconds \<times> bool)
   \<Rightarrow> daemon \<Rightarrow> bool \<times> daemon" where
  "apply_audiobookshelf_progress_refresh g episodes books d =
     (if dm_abs_generation d \<noteq> Some g then (False, d)
      else
        (let updates = List.map_filter (\<lambda>s. map_option (Pair (qs_slot_id s))
                         (refreshed_progress episodes books (qs_item s)))
                         (filter (\<lambda>s. Some (qs_slot_id s) \<noteq> pq_active (dm_queue d)) (pq_slots (dm_queue d)));
             d1 = fold (\<lambda>(sid, ticks, finished) d. apply_progress_to (Some sid) ticks finished d) updates d
         in (pq_revision (dm_queue d1) \<noteq> pq_revision (dm_queue d), d1)))"

definition broadcast_if :: "bool \<times> daemon \<Rightarrow> event_outcome \<times> daemon" where
  "broadcast_if r = (CONTINUE, if fst r then broadcast_queue_state None (snd r) else snd r)"

definition handle_queue_enriched :: "(queue_slot_id \<times> emby_item) list \<Rightarrow> daemon \<Rightarrow> event_outcome \<times> daemon" where
  "handle_queue_enriched items d =
     (let (result, d1) = queue_op (merge_refresh_for_slots items) d
      in broadcast_if (updated_slots result \<noteq> [], d1))"

section \<open>Connections and the end\<close>

definition handle_ctrl_disconnected :: "client_id \<Rightarrow> daemon \<Rightarrow> daemon" where
  "handle_ctrl_disconnected c d =
     d\<lparr>dm_clients := remove_client c (dm_clients d), dm_intents := invalidate_connection c (dm_intents d)\<rparr>"

text \<open>Waiting for the writers is bounded by a clock and changes nothing here.\<close>

definition handle_shutdown :: "bool \<Rightarrow> daemon \<Rightarrow> event_outcome \<times> daemon" where
  "handle_shutdown in_time d =
     (let d1 = d\<lparr>dm_clients := notify_disconnected_all Reason_Daemon_Shutdown (begin_shutdown (dm_clients d))\<rparr>;
          d2 = d1\<lparr>dm_player := pl_join_or_timeout in_time (pl_stop (dm_player d1))\<rparr>
      in (SHUTDOWN, if dm_role d2 = Daemon_Local then add_job (stay_alive_snapshot d2) d2 else d2))"

section \<open>The loop\<close>

datatype transport_command =
    Tc_Step direction
  | Tc_Player run_message
  | Tc_Stop

datatype daemon_event =
    De_Player player_event
  | De_Transport transport_command
  | De_Ws u64 ws_event
  | De_Queue_Enriched "(queue_slot_id \<times> emby_item) list"
  | De_Persistence_Failed string
  | De_Abs_Progress abs_progress_update
  | De_Abs_Book_Progress abs_book_progress_update
  | De_Abs_Refreshed u64 "string \<times> string \<rightharpoonup> seconds \<times> bool" "string \<rightharpoonup> seconds \<times> bool"
  | De_Ctrl ctrl_cmd client_id
  | De_Resolved usize i64 queue_source client_id request_id generation "emby_item list option"
  | De_Disconnected client_id
  | De_Last_Client_Gone
  | De_Shutdown

text \<open>What the world answers while an event is handled.\<close>

record surroundings =
  sr_now :: instant
  sr_draw :: "queue_slot_id list \<Rightarrow> queue_slot_id list"
  sr_fetch :: "string list \<Rightarrow> emby_item list option"
  sr_in_time :: bool

definition handle_transport :: "transport_command \<Rightarrow> daemon \<Rightarrow> event_outcome \<times> daemon" where
  "handle_transport t d =
     (CONTINUE, case t of
        Tc_Player m \<Rightarrow> tell_run m d
      | Tc_Stop \<Rightarrow> reset_slot_jumps (stop_output d)
      | Tc_Step dir \<Rightarrow> snd (dispatch_relative_step dir d))"

definition handle_ws_event ::
  "(string list \<Rightarrow> emby_item list option) \<Rightarrow> u64 \<Rightarrow> ws_event \<Rightarrow> daemon \<Rightarrow> event_outcome \<times> daemon" where
  "handle_ws_event fetch g ev d =
     (if dm_emby_generation d \<noteq> Some g then (CONTINUE, d)
      else (DIRTY, case ev of
        Ws_Next_Track \<Rightarrow> snd (handle_transport (Tc_Step Next) d)
      | Ws_Previous_Track \<Rightarrow> snd (handle_transport (Tc_Step Previous) d)
      | _ \<Rightarrow> handle_ws fetch ev d))"

definition handle_ctrl_event ::
  "instant \<Rightarrow> (queue_slot_id list \<Rightarrow> queue_slot_id list) \<Rightarrow> ctrl_cmd \<Rightarrow> client_id \<Rightarrow> daemon
   \<Rightarrow> (event_outcome \<times> daemon) option" where
  "handle_ctrl_event now draw cmd c d =
     (if \<not> has_client c (dm_clients d) then Some (CONTINUE, d)
      else map_option (Pair (dirty_if (mutates_owner_queue cmd))) (handle_ctrl_for_role now draw c cmd d))"

definition persist_if_dirty :: "bool \<Rightarrow> daemon \<Rightarrow> daemon" where
  "persist_if_dirty dirty d =
     (if dm_role d \<noteq> Daemon_Local \<or> \<not> dirty then d else add_job (stay_alive_snapshot d) d)"

definition react :: "surroundings \<Rightarrow> daemon_event \<Rightarrow> daemon \<Rightarrow> (event_outcome \<times> daemon) option" where
  "react sr ev d =
     (case ev of
        De_Player pe \<Rightarrow> Some (handle_player_observation (sr_now sr) pe d)
      | De_Transport t \<Rightarrow> Some (handle_transport t d)
      | De_Ws g e \<Rightarrow> Some (handle_ws_event (sr_fetch sr) g e d)
      | De_Queue_Enriched items \<Rightarrow> Some (handle_queue_enriched items d)
      | De_Persistence_Failed _ \<Rightarrow> Some (CONTINUE, d)
      | De_Abs_Progress u \<Rightarrow> Some (broadcast_if (apply_audiobookshelf_progress u d))
      | De_Abs_Book_Progress u \<Rightarrow> Some (broadcast_if (apply_audiobookshelf_book_progress u d))
      | De_Abs_Refreshed g episodes books \<Rightarrow>
          Some (broadcast_if (apply_audiobookshelf_progress_refresh g episodes books d))
      | De_Ctrl cmd c \<Rightarrow> handle_ctrl_event (sr_now sr) (sr_draw sr) cmd c d
      | De_Resolved start_idx ticks src c req gen fetched \<Rightarrow>
          handle_playback_resolved (sr_now sr) start_idx ticks src c req gen fetched d
      | De_Disconnected c \<Rightarrow> Some (CONTINUE, handle_ctrl_disconnected c d)
      | De_Last_Client_Gone \<Rightarrow>
          Some (if dm_role d = Daemon_Local \<and> \<not> dm_stay_alive d \<and> \<not> has_driver (dm_clients d)
                then handle_shutdown (sr_in_time sr) d else (CONTINUE, d))
      | De_Shutdown \<Rightarrow> Some (handle_shutdown (sr_in_time sr) d))"

definition handle_event :: "surroundings \<Rightarrow> daemon_event \<Rightarrow> daemon \<Rightarrow> (loop_flow \<times> daemon) option" where
  "handle_event sr ev d =
     map_option (\<lambda>(out, d1). (eo_flow out, persist_if_dirty (eo_dirty out) d1)) (react sr ev d)"

text \<open>When no event came in time.\<close>

definition on_recv_timeout :: "instant \<Rightarrow> daemon \<Rightarrow> daemon" where
  "on_recv_timeout now d =
     (let (due, s) = settle_buffering_if_due now (dm_intents d);
          d1 = d\<lparr>dm_intents := s\<rparr>;
          d2 = (case due of
                  None \<Rightarrow> d1
                | Some (c, e) \<Rightarrow>
                    (if has_client c (dm_clients d1) then send_client c (Ce_Intent e) d1
                     else d1\<lparr>dm_intents := invalidate_connection c (dm_intents d1)\<rparr>))
      in expire_and_redispatch now d2)"

section \<open>The start\<close>

text \<open>
  \<open>loaded\<close> is the queue a Local owner finds on disk: its own, or a client's from before there was
  one. The mint of the revisions is a new one.
\<close>

definition initialize_queue ::
  "mint_id \<Rightarrow> (queue_state \<times> queue_lineage) option \<Rightarrow> daemon \<Rightarrow> daemon" where
  "initialize_queue m loaded d =
     (let (items, cursor, src, lineage) =
            (case if dm_role d = Daemon_Local then loaded else None of
               None \<Rightarrow> ([], None, Src_Unknown, 0)
             | Some (st, l) \<Rightarrow> (st_items st, Some (st_cursor st), st_source st, l));
          (q, h) = from_queue_items items cursor m (dm_revisions d);
          d1 = (if dm_role d = Daemon_Local
                then (add_job (Job_Save_Owner_Queue (project_queue_state q src (pl_status (dm_player d))) lineage) d)
                       \<lparr>dm_player := set_initial_queue (map qs_item (pq_slots q))
                          (case active_index q of Some i \<Rightarrow> i | None \<Rightarrow> 0) (dm_player d)\<rparr>
                else d)
      in d1\<lparr>dm_revisions := h, dm_core := owner_new q src, dm_intents := None, dm_queued_origin := None,
            dm_sh_queue := q, dm_sh_source := src, dm_sh_lineage := lineage, dm_sh_observed := None\<rparr>)"

end
