(* ===== verification/Daemon_Hello.thy ===== *)
theory Daemon_Hello
  imports Daemon_Loop
begin

text \<open>
  How a connection is taken in (\<^verbatim>\<open>mbv-ctrl/src/hello.rs\<close>,
  \<^verbatim>\<open>mbv-daemon/src/core_ctrl_spawn.rs\<close>): the Hello with its capabilities, the control credential,
  the connection's role, the rule that an owner has one driver unless it stays alive, and the
  one-shot token of a Pin swap. What \<^verbatim>\<open>serde_json\<close> makes of a line is the argument. Versions of the
  application and the build are not read here and left out.
\<close>

section \<open>The Hello\<close>

definition CTRL_PROTOCOL_VERSION :: "32 word" where
  "CTRL_PROTOCOL_VERSION = 10"

definition BASE_CAPABILITIES :: "string list" where
  "BASE_CAPABILITIES =
     [''queue-state'', ''play-items-start-idx'', ''status-only'', ''lifecycle-shutdown'',
      ''unified-queue'', ''control-auth'', ''abs-queue'', ''abs-progress'', ''abs-book-queue'',
      ''abs-book-progress'', ''owner-queue-load'', ''answered-queue-ops'', ''queue-shuffle'',
      ''queue-replace-start-position'', ''twitch-queue'']"

record hello =
  hl_protocol_version :: "32 word"
  hl_capabilities :: "string list"
  hl_control_token :: "string option"
  hl_swap_token :: "string option"

definition current_hello :: hello where
  "current_hello =
     \<lparr>hl_protocol_version = CTRL_PROTOCOL_VERSION, hl_capabilities = BASE_CAPABILITIES,
      hl_control_token = None, hl_swap_token = None\<rparr>"

definition current_control_client :: "string \<Rightarrow> hello" where
  "current_control_client token = current_hello\<lparr>hl_control_token := Some token\<rparr>"

definition push_capability :: "string \<Rightarrow> hello \<Rightarrow> hello" where
  "push_capability cap h = h\<lparr>hl_capabilities := hl_capabilities h @ [cap]\<rparr>"

definition current_service_setup_admin :: "string option \<Rightarrow> hello" where
  "current_service_setup_admin token =
     push_capability ''service-setup-admin'' (current_hello\<lparr>hl_control_token := token\<rparr>)"

definition current_owner_action :: "string \<Rightarrow> hello" where
  "current_owner_action token = push_capability ''owner-action'' (current_control_client token)"

definition with_pin_swap :: "bool \<Rightarrow> string option \<Rightarrow> hello \<Rightarrow> hello" where
  "with_pin_swap pinned token h =
     (let h1 = push_capability ''pin-swap'' h;
          h2 = (if pinned then push_capability ''pinned-surface'' h1 else h1)
      in h2\<lparr>hl_swap_token := token\<rparr>)"

text \<open>Every \<^verbatim>\<open>supports_\<close> test is a search for its capability.\<close>

definition supports :: "string \<Rightarrow> hello \<Rightarrow> bool" where
  "supports cap h \<longleftrightarrow> cap \<in> set (hl_capabilities h)"

datatype ctrl_error = Incompatible_Protocol "32 word" | Missing_Capability string | Invalid_Credential

definition compatibility :: "hello \<Rightarrow> ctrl_error option" where
  "compatibility h =
     (if hl_protocol_version h = CTRL_PROTOCOL_VERSION then None
      else Some (Incompatible_Protocol (hl_protocol_version h)))"

definition validate_required_capabilities :: "hello \<Rightarrow> ctrl_error option" where
  "validate_required_capabilities h =
     map_option Missing_Capability
       (find (\<lambda>cap. \<not> supports cap h) [''queue-state'', ''play-items-start-idx'', ''status-only''])"

definition validate_peer :: "hello \<Rightarrow> ctrl_error option" where
  "validate_peer h = opt_or (compatibility h) (validate_required_capabilities h)"

text \<open>The comparison that takes the same time wherever the two texts differ.\<close>

definition byte_difference :: "string \<Rightarrow> string \<Rightarrow> 8 word" where
  "byte_difference a b = fold (\<lambda>(x, y) difference. or difference (xor (of_char x) (of_char y))) (zip a b) 0"

definition validate_control_credential :: "string \<Rightarrow> hello \<Rightarrow> ctrl_error option" where
  "validate_control_credential expected h =
     (case hl_control_token h of
        None \<Rightarrow> Some Invalid_Credential
      | Some presented \<Rightarrow>
          (if length presented = length expected \<and> byte_difference presented expected = 0 then None
           else Some Invalid_Credential))"

section \<open>Classification\<close>

datatype hello_line = Line_Hello hello | Line_Other | Line_Invalid

record hello_classification =
  hk_abs_progress :: bool
  hk_abs_book_progress :: bool
  hk_capabilities :: hello_capabilities
  hk_role :: connection_role
  hk_swap_surface :: "swap_surface option"
  hk_swap_token :: "string option"

definition control_credential_is_valid :: "hello \<Rightarrow> string \<Rightarrow> bool" where
  "control_credential_is_valid h credential =
     (if hl_control_token h = None then False else validate_control_credential credential h = None)"

definition hello_credentials_valid :: "hello \<Rightarrow> string option \<Rightarrow> bool" where
  "hello_credentials_valid h credential =
     (if validate_peer h \<noteq> None then False
      else (case credential of None \<Rightarrow> True | Some c \<Rightarrow> control_credential_is_valid h c))"

definition connection_role_from_hello :: "hello \<Rightarrow> connection_role option" where
  "connection_role_from_hello h =
     (if supports ''service-setup-admin'' h \<and> supports ''owner-action'' h then None
      else Some (if supports ''service-setup-admin'' h then Role_Service_Setup_Admin
                 else if supports ''owner-action'' h then Role_Owner_Action else Role_Client))"

definition swap_surface_from_hello :: "hello \<Rightarrow> swap_surface option" where
  "swap_surface_from_hello h =
     (if supports ''pinned-surface'' h then Some Surface_Pinned
      else if supports ''pin-swap'' h then Some Surface_Terminal else None)"

fun ctrl_client_capabilities :: "string option \<Rightarrow> hello_line \<Rightarrow> hello_classification option" where
  "ctrl_client_capabilities credential (Line_Hello h) =
     (if \<not> hello_credentials_valid h credential then None
      else map_option (\<lambda>role.
        \<lparr>hk_abs_progress = supports ''abs-progress'' h,
         hk_abs_book_progress = supports ''abs-book-progress'' h,
         hk_capabilities =
           \<lparr>hc_source_update = supports ''owner-queue-load'' h,
            hc_playback_output = supports ''playback-output'' h,
            hc_emby_session_output = supports ''emby-session-output'' h,
            hc_queue_transport =
              \<lparr>qt_abs_episode = supports ''abs-queue'' h, qt_abs_book = supports ''abs-book-queue'' h,
               qt_twitch = supports ''twitch-queue'' h\<rparr>\<rparr>,
         hk_role = role, hk_swap_surface = swap_surface_from_hello h,
         hk_swap_token = hl_swap_token h\<rparr>) (connection_role_from_hello h))"
| "ctrl_client_capabilities credential Line_Other = None"
| "ctrl_client_capabilities credential Line_Invalid = None"

section \<open>Admission\<close>

definition take_matching :: "string option \<Rightarrow> registry \<Rightarrow> bool \<times> registry" where
  "take_matching candidate rg =
     (if candidate \<noteq> None \<and> rg_pending_swap rg = candidate
      then (True, rg\<lparr>rg_pending_swap := None\<rparr>) else (False, rg))"

datatype admission = Adm_Refused disconnect_reason | Adm_Admitted | Adm_Replacement string

text \<open>A refusal carries the reason that is sent; \<open>pid\<close> is the daemon's own.\<close>

definition send_admission_refusal ::
  "nat \<Rightarrow> daemon_role \<Rightarrow> ctrl_transport \<Rightarrow> bool \<Rightarrow> connection_role \<Rightarrow> string option \<Rightarrow> registry
   \<Rightarrow> admission \<times> registry" where
  "send_admission_refusal pid role transport stay_alive connection_role token rg =
     (if role = Daemon_Local \<and> rg_shutting_down rg then (Adm_Refused Owner_Shutting_Down, rg)
      else
        (let (matched, rg1) = (if transport = Transport_Local \<and> connection_role = Role_Client
                               then take_matching token rg else (False, rg))
         in case (matched, token) of
              (True, Some t) \<Rightarrow> (Adm_Replacement t, rg1)
            | _ \<Rightarrow>
                (if role = Daemon_Local \<and> \<not> stay_alive \<and> has_driver rg1 \<and> connection_role = Role_Client
                 then (Adm_Refused (Exclusive_Owner pid), rg1) else (Adm_Admitted, rg1))))"

definition owner_action_refused_over_tcp :: "ctrl_transport \<Rightarrow> connection_role \<Rightarrow> bool" where
  "owner_action_refused_over_tcp transport role \<longleftrightarrow> role = Role_Owner_Action \<and> transport = Transport_Tcp"

definition initial_queue_state :: "daemon \<Rightarrow> hello_classification \<Rightarrow> queue_snapshot" where
  "initial_queue_state d h =
     unified_queue_state_for_peer (pl_status (dm_player d)) (dm_sh_queue d) (dm_sh_source d)
       (dm_sh_lineage d) (dm_sh_observed d) None None (hc_queue_transport (hk_capabilities h))"

datatype session = Not_Admitted | Session_Refused disconnect_reason | Session_Open client_id bool

text \<open>
  A connection up to its registration: the initial state goes into its channel first. An open
  session says whether it completed a Pin swap.
\<close>

definition open_session ::
  "nat \<Rightarrow> string option \<Rightarrow> ctrl_transport \<Rightarrow> hello_line \<Rightarrow> daemon \<Rightarrow> session \<times> daemon" where
  "open_session pid credential transport line d =
     (case ctrl_client_capabilities credential line of
        None \<Rightarrow> (Not_Admitted, d)
      | Some h \<Rightarrow>
          (if owner_action_refused_over_tcp transport (hk_role h) then (Not_Admitted, d)
           else
             (let stay_alive = (dm_role d \<noteq> Daemon_Local \<or> dm_stay_alive d);
                  initial = initial_queue_state d h;
                  (outcome, rg) = send_admission_refusal pid (dm_role d) transport stay_alive (hk_role h)
                                    (hk_swap_token h) (dm_clients d)
              in case outcome of
                   Adm_Refused reason \<Rightarrow> (Session_Refused reason, d\<lparr>dm_clients := rg\<rparr>)
                 | _ \<Rightarrow>
                   (let (cid, rg1) = connect_with_role transport (hk_abs_progress h)
                          (hk_abs_book_progress h) (hk_capabilities h) (hk_swap_surface h) (hk_role h) rg
                    in (Session_Open cid (outcome \<noteq> Adm_Admitted),
                        d\<lparr>dm_clients := reply_to cid (Ce_Queue_State initial) rg1\<rparr>)))))"

section \<open>Commands of an open session\<close>

datatype inbound = In_Command ctrl_cmd | In_Service_Setup | In_Owner_Action | In_Unparsable string

fun restricted_command_rejection :: "connection_role \<Rightarrow> inbound \<Rightarrow> string option" where
  "restricted_command_rejection Role_Client _ = None"
| "restricted_command_rejection Role_Service_Setup_Admin In_Service_Setup = None"
| "restricted_command_rejection Role_Service_Setup_Admin _ =
     Some ''service-setup admin connections cannot send other commands''"
| "restricted_command_rejection Role_Owner_Action In_Owner_Action = None"
| "restricted_command_rejection Role_Owner_Action _ =
     Some ''owner action connections cannot send other commands''"

text \<open>One line: the answer the connection gets at once, or the command for the event loop.\<close>

definition session_line :: "connection_role \<Rightarrow> inbound \<Rightarrow> ctrl_event + inbound" where
  "session_line role line =
     (case line of
        In_Unparsable e \<Rightarrow> Inl (Ce_Command_Rejected (''mbvd ignored an unparsable control command: '' @ e))
      | _ \<Rightarrow>
          (case restricted_command_rejection role line of
             Some reason \<Rightarrow> Inl (Ce_Command_Rejected reason)
           | None \<Rightarrow> Inr line))"

text \<open>The capabilities the daemon itself offers.\<close>

definition daemon_hello :: "bool \<Rightarrow> bool \<Rightarrow> bool \<Rightarrow> bool \<Rightarrow> hello" where
  "daemon_hello has_credential audio_only playback_output emby_session_output =
     (let h1 = push_capability ''owner-action'' current_hello;
          h2 = (if has_credential then h1
                else h1\<lparr>hl_capabilities := filter (\<lambda>cap. cap \<noteq> ''control-auth'') (hl_capabilities h1)\<rparr>);
          h3 = (if audio_only then push_capability ''audio-only'' h2 else h2);
          h4 = (if playback_output then push_capability ''playback-output'' h3 else h3)
      in if emby_session_output then push_capability ''emby-session-output'' h4 else h4)"

section \<open>What is accepted\<close>

lemma char_byte_inj: "(of_char x :: 8 word) = of_char y \<longleftrightarrow> x = y"
proof
  assume "(of_char x :: 8 word) = of_char y"
  then have "(word_of_nat (of_char x) :: 8 word) = word_of_nat (of_char y)"
    by (simp only: of_nat_of_char)
  then have "(of_char x :: nat) mod 256 = of_char y mod 256"
    by (simp add: word_of_nat_eq_iff take_bit_eq_mod)
  then show "x = y" by simp
qed simp

lemma xor_zero_iff: "xor a b = 0 \<longleftrightarrow> a = (b :: 'a::len word)"
proof
  assume "xor a b = 0"
  then have "xor (xor a b) b = b" by simp
  then show "a = b" by (simp add: xor.assoc)
qed simp

lemma difference_zero:
  "fold (\<lambda>(x, y) w. or w (xor (of_char x) (of_char y))) ps (w :: 8 word) = 0
     \<longleftrightarrow> w = 0 \<and> (\<forall>(x, y)\<in>set ps. x = y)"
  by (induction ps arbitrary: w) (auto simp: or_eq_0_iff xor_zero_iff char_byte_inj)

lemma credential_exact [simp]:
  "validate_control_credential c h = None \<longleftrightarrow> hl_control_token h = Some c"
proof -
  have zip: "(\<forall>(x, y)\<in>set (zip a b). x = y) \<longleftrightarrow> a = b" if "length a = length b" for a b :: string
    using that by (induction a b rule: list_induct2) auto
  show ?thesis
  proof (cases "hl_control_token h")
    case (Some a)
    have "(length a = length c \<and> byte_difference a c = 0) = (a = c)"
    proof (cases "length a = length c")
      case True
      then show ?thesis using zip [OF True] by (simp add: byte_difference_def difference_zero)
    qed auto
    then show ?thesis unfolding validate_control_credential_def Some option.case option.inject
      by (cases "a = c") (simp_all only: if_True if_False option.distinct simp_thms)
  qed (simp add: validate_control_credential_def)
qed

text \<open>
  C16. A connection is let in as far as the admission exactly when its first line is a Hello of this
  protocol version with the three required capabilities, with the owner's control credential
  verbatim when there is one, and with at most one of the two administrator capabilities; its role
  is then the one it claims. However the credential differs - in one character, in length, missing -
  the line is refused.
\<close>

theorem hello_accepted_exactly:
  "map_option hk_role (ctrl_client_capabilities credential line) = Some role \<longleftrightarrow>
     (\<exists>h. line = Line_Hello h
        \<and> hl_protocol_version h = 10
        \<and> {''queue-state'', ''play-items-start-idx'', ''status-only''} \<subseteq> set (hl_capabilities h)
        \<and> (credential = None \<or> hl_control_token h = credential)
        \<and> (case role of
             Role_Client \<Rightarrow> \<not> supports ''service-setup-admin'' h \<and> \<not> supports ''owner-action'' h
           | Role_Service_Setup_Admin \<Rightarrow> supports ''service-setup-admin'' h \<and> \<not> supports ''owner-action'' h
           | Role_Owner_Action \<Rightarrow> \<not> supports ''service-setup-admin'' h \<and> supports ''owner-action'' h))"
proof (cases line)
  case (Line_Hello h)
  have "hello_credentials_valid h credential \<longleftrightarrow>
      hl_protocol_version h = 10
      \<and> {''queue-state'', ''play-items-start-idx'', ''status-only''} \<subseteq> set (hl_capabilities h)
      \<and> (credential = None \<or> hl_control_token h = credential)"
    by (auto simp: hello_credentials_valid_def validate_peer_def compatibility_def CTRL_PROTOCOL_VERSION_def
        validate_required_capabilities_def supports_def control_credential_is_valid_def split: option.split)
  moreover have "map_option hk_role (ctrl_client_capabilities credential line)
      = (if hello_credentials_valid h credential then connection_role_from_hello h else None)"
    by (simp add: Line_Hello option.map_comp comp_def option.map_ident)
  ultimately show ?thesis
    by (auto simp: Line_Hello connection_role_from_hello_def split: connection_role.split)
qed simp_all

end
