(* ===== verification/Daemon_Frame.thy ===== *)
theory Daemon_Frame
  imports Daemon_Hello Player_Runs
begin

text \<open>
  One relation for all handlers of the event loop. The locale fixes a preorder on daemon states and
  assumes it of the primitive updates - the core, the published copy, the intents, the jobs, the
  handle's moves, the registry's moves, a rejection to the asking client - and concludes it of every
  handler. What a handler may do is thereby proved once, and a property of the loop is an
  interpretation.
\<close>

section \<open>Moves of the registry\<close>

text \<open>Every message except the answer to a queue operation.\<close>

fun ordinary :: "ctrl_event \<Rightarrow> bool" where
  "ordinary (Ce_Op_Result _ _) = False"
| "ordinary _ = True"

inductive registry_moves :: "registry \<Rightarrow> registry \<Rightarrow> bool" where
  none: "registry_moves r r"
| reply: "registry_moves r s \<Longrightarrow> ordinary e \<Longrightarrow> registry_moves r (reply_to c e s)"
| send: "registry_moves r s \<Longrightarrow> ordinary e \<Longrightarrow> registry_moves r (send_to_client c e s)"
| broadcast: "registry_moves r s \<Longrightarrow> (\<And>k. ordinary (event k)) \<Longrightarrow> registry_moves r (broadcast_where wants event s)"
| remove: "registry_moves r s \<Longrightarrow> registry_moves r (remove_client c s)"
| disconnected: "registry_moves r s \<Longrightarrow> registry_moves r (notify_disconnected_all reason s)"
| shutdown: "registry_moves r s \<Longrightarrow> registry_moves r (begin_shutdown s)"
| authority: "registry_moves r s \<Longrightarrow> registry_moves r (s\<lparr>rg_authority := a\<rparr>)"

section \<open>The relation\<close>

locale daemon_frame =
  fixes R :: "daemon \<Rightarrow> daemon \<Rightarrow> bool"
    and asker :: client_id
  assumes same: "R d d"
    and trans: "R d e \<Longrightarrow> R e f \<Longrightarrow> R d f"
    and core: "R d (d\<lparr>dm_core := ow, dm_revisions := h\<rparr>)"
    and intents: "R d (d\<lparr>dm_intents := i\<rparr>)"
    and origin: "R d (d\<lparr>dm_queued_origin := x\<rparr>)"
    and lineage: "R d (d\<lparr>dm_sh_lineage := l\<rparr>)"
    and observed: "R d (d\<lparr>dm_sh_observed := v\<rparr>)"
    and shared: "R d (d\<lparr>dm_sh_queue := q, dm_sh_source := src\<rparr>)"
    and jobs: "R d (d\<lparr>dm_jobs := js\<rparr>)"
    and saved: "R d (d\<lparr>dm_saved_queue := sq\<rparr>)"
    and handle: "player_moves (dm_player d) p \<Longrightarrow> R d (d\<lparr>dm_player := p\<rparr>)"
    and registry: "registry_moves (dm_clients d) rg \<Longrightarrow> R d (d\<lparr>dm_clients := rg\<rparr>)"
    and rejection: "R d (reject_command asker l reason d)"
begin

subsection \<open>Primitive updates\<close>

text \<open>In the form a chain of updates needs.\<close>

lemma via: "R e f \<Longrightarrow> R d e \<Longrightarrow> R d f"
  by (rule trans)

lemma core_only: "R d (d\<lparr>dm_core := ow\<rparr>)"
  using core [where d = d and ow = ow and h = "dm_revisions d"] by simp

lemma set_queue_R: "R d e \<Longrightarrow> R d (set_queue q e)"
  by (rule via) (simp_all add: set_queue_def core_only)

lemma set_source_R: "R d e \<Longrightarrow> R d (set_source src e)"
  by (rule via) (simp_all add: set_source_def core_only)

lemma set_transitions_R: "R d e \<Longrightarrow> R d (set_transitions t e)"
  by (rule via) (simp_all add: set_transitions_def core_only)

lemma queue_op_R: "R d e \<Longrightarrow> R d (snd (queue_op f e))"
  by (rule via) (simp_all add: queue_op_def set_queue_def split_beta Let_def core)

lemma owner_op_R: "R d e \<Longrightarrow> R d (snd (owner_op f e))"
  by (rule via) (simp_all add: owner_op_def split_beta Let_def core)

lemma note_observed_R: "R d e \<Longrightarrow> R d (note_observed v e)"
  by (simp add: note_observed_def owner_op_R)

lemma intents_R: "R d e \<Longrightarrow> R d (e\<lparr>dm_intents := i\<rparr>)"
  by (rule via [OF intents])

lemma origin_R: "R d e \<Longrightarrow> R d (e\<lparr>dm_queued_origin := x\<rparr>)"
  by (rule via [OF origin])

lemma add_job_R: "R d e \<Longrightarrow> R d (add_job j e)"
  by (rule via) (simp_all add: add_job_def jobs)

lemma publish_R: "R d e \<Longrightarrow> R d (publish_observed e)"
  by (rule via) (simp_all add: publish_observed_def observed)

lemma handle_R: "R d e \<Longrightarrow> player_moves (dm_player e) p \<Longrightarrow> R d (e\<lparr>dm_player := p\<rparr>)"
  by (rule via [OF handle])

lemma registry_R: "R d e \<Longrightarrow> registry_moves (dm_clients e) rg \<Longrightarrow> R d (e\<lparr>dm_clients := rg\<rparr>)"
  by (rule via [OF registry])

lemma player_op_R: "R d e \<Longrightarrow> player_moves (dm_player e) (snd (f (dm_player e))) \<Longrightarrow> R d (snd (player_op f e))"
  by (simp add: player_op_def split_beta Let_def handle_R)

lemma send_run_R: "R d e \<Longrightarrow> good_message m \<Longrightarrow> R d (snd (send_run m e))"
  unfolding send_run_def by (rule player_op_R) (auto intro: player_moves.intros)

lemma tell_run_R: "R d e \<Longrightarrow> good_message m \<Longrightarrow> R d (tell_run m e)"
  unfolding tell_run_def by (rule send_run_R)

lemma tell_run_all_R: "R d e \<Longrightarrow> \<forall>m\<in>set ms. good_message m \<Longrightarrow> R d (tell_run_all ms e)"
  unfolding tell_run_all_def by (induction ms arbitrary: e) (auto intro: tell_run_R)

lemma stop_output_R: "R d e \<Longrightarrow> R d (stop_output e)"
  unfolding stop_output_def by (rule handle_R) (auto intro: player_moves.intros)

lemma reply_R: "R d e \<Longrightarrow> ordinary x \<Longrightarrow> R d (reply c x e)"
  unfolding reply_def by (rule registry_R) (auto intro: registry_moves.intros)

lemma reply_all_R: "R d e \<Longrightarrow> \<forall>x\<in>set xs. ordinary x \<Longrightarrow> R d (reply_all c xs e)"
  unfolding reply_all_def by (induction xs arbitrary: e) (auto intro: reply_R)

lemma send_client_R: "R d e \<Longrightarrow> ordinary x \<Longrightarrow> R d (send_client c x e)"
  unfolding send_client_def by (rule registry_R) (auto intro: registry_moves.intros)

lemma broadcast_R: "R d e \<Longrightarrow> ordinary x \<Longrightarrow> R d (broadcast x e)"
  unfolding broadcast_def broadcast_to_all_def by (rule registry_R) (auto intro: registry_moves.intros)

lemma broadcast_queue_state_R: "R d e \<Longrightarrow> R d (broadcast_queue_state x e)"
proof -
  assume "R d e"
  let ?rg = "broadcast_state_gated (\<lambda>qt. Ce_Queue_State (owner_snapshot e qt)) x (dm_clients e)"
  have "R d (e\<lparr>dm_clients := ?rg\<rparr>)"
    using \<open>R d e\<close> unfolding broadcast_state_gated_def
    by (rule registry_R) (auto intro: registry_moves.intros)
  from trans [OF this shared [where q = "dm_queue e" and src = "ow_source (dm_core e)"]] show ?thesis
    by (simp add: broadcast_queue_state_def)
qed

lemma reject_R: "R d e \<Longrightarrow> R d (reject_command asker l r e)"
  by (rule via [OF rejection])

lemma lineage_R: "R d e \<Longrightarrow> mint_queue_lineage e = Some f \<Longrightarrow> R d f"
  by (auto simp: mint_queue_lineage_def intro: via [OF lineage] split: if_splits)

lemmas primitive_R = same set_queue_R set_source_R set_transitions_R queue_op_R owner_op_R note_observed_R
  intents_R origin_R add_job_R publish_R send_run_R tell_run_R tell_run_all_R stop_output_R reply_R reply_all_R
  send_client_R broadcast_R broadcast_queue_state_R reject_R

subsection \<open>Slot jumps\<close>

lemma reset_jumps_R: "R d e \<Longrightarrow> R d (reset_slot_jumps e)"
  unfolding reset_slot_jumps_def by (intro primitive_R)

lemma submit_R: "R d e \<Longrightarrow> R d (snd (submit_queue_slots_for_replace ss i secs e))"
  unfolding submit_queue_slots_for_replace_def by (rule player_op_R) (auto intro: player_moves.intros)

lemma cold_start_R: "R d e \<Longrightarrow> R d (snd (cold_start_at_slot sid e))"
  by (auto simp: cold_start_at_slot_def split_beta Let_def intro!: primitive_R submit_R split: option.split)

lemma good_jump [simp]: "good_message (jump_message t r)"
  by (simp add: jump_message_def Let_def)

lemma send_jump_R: "R d e \<Longrightarrow> R d (snd (send_jump_or_cold_start t e))"
  by (auto simp: send_jump_or_cold_start_def split_beta Let_def intro!: primitive_R reset_jumps_R cold_start_R)

lemma dispatch_jump_R: "R d e \<Longrightarrow> R d (dispatch_slot_jump org t x e)"
  by (auto simp: dispatch_slot_jump_def split_beta Let_def intro!: primitive_R send_jump_R
      split: dispatch_decision.split option.split)

lemma promoted_R: "R d e \<Longrightarrow> R d (dispatch_promoted t e)"
  by (auto simp: dispatch_promoted_def take_promoted_origin_def Let_def intro!: primitive_R send_jump_R
      split: option.split)

lemma settle_R: "R d e \<Longrightarrow> R d (settle_and_redispatch req sid e)"
  by (auto simp: settle_and_redispatch_def intro!: primitive_R promoted_R
      split: prod.split settle_outcome.split)

lemma answer_R: "R d e \<Longrightarrow> R d (answer_intent f c e)"
  by (auto simp: answer_intent_def split_beta Let_def intro!: primitive_R split: option.split)

lemma answer_if_R: "R d e \<Longrightarrow> R d (answer_current_if w e)"
  by (auto simp: answer_current_if_def intro!: answer_R split: option.split)

lemma expire_R: "R d e \<Longrightarrow> R d (expire_and_redispatch now e)"
  by (auto simp: expire_and_redispatch_def Let_def intro!: primitive_R promoted_R answer_R
      split: prod.split expire_outcome.split option.split)

lemma step_R: "R d e \<Longrightarrow> R d (snd (dispatch_relative_step dir e))"
  by (auto simp: dispatch_relative_step_def dispatch_step_target_def split_beta Let_def
      intro!: primitive_R dispatch_jump_R split: step_target.split)

lemma timeout_R: "R d e \<Longrightarrow> R d (on_recv_timeout now e)"
  by (auto simp: on_recv_timeout_def split_beta Let_def intro!: primitive_R expire_R split: option.split)

subsection \<open>Control commands\<close>

lemma enrichment_R: "R d e \<Longrightarrow> R d (start_queue_enrichment e)"
  by (auto simp: start_queue_enrichment_def Let_def intro!: primitive_R)

lemma install_R: "R d e \<Longrightarrow> R d (install_items its cur src e)"
  unfolding install_items_def by (intro primitive_R)

lemma initial_queue_R: "R d e \<Longrightarrow> R d (e\<lparr>dm_player := set_initial_queue its cur (dm_player e)\<rparr>)"
  by (rule handle_R) (auto simp: set_initial_queue_def Let_def intro: player_moves.intros)

lemma adopt_R: "R d e \<Longrightarrow> handle_adopt_queue asker l its cur src e = Some f \<Longrightarrow> R d f"
  by (auto simp: handle_adopt_queue_def split_beta Let_def
      intro!: primitive_R enrichment_R install_R reset_jumps_R initial_queue_R elim!: lineage_R [rotated]
      split: if_splits option.splits)

lemma source_update_R: "R d e \<Longrightarrow> R d (handle_queue_source_update asker l src cl e)"
  by (auto simp: handle_queue_source_update_def intro!: primitive_R)

lemma replace_R:
  assumes "R d e" "handle_queue_replace asker l its ss start secs src e = Some f" shows "R d f"
proof -
  have "R d k" if "install_replaced_queue adm cur src e = Some k" for adm cur k
    using that assms(1)
    by (auto simp: install_replaced_queue_def Let_def intro!: reset_jumps_R elim!: lineage_R [rotated]
        intro: primitive_R)
  with assms show ?thesis
    by (auto simp: handle_queue_replace_def split_beta Let_def intro!: primitive_R submit_R
        split: sum.splits)
qed

lemma insert_all_R: "R d e \<Longrightarrow> R d (snd (insert_all i its e))"
  by (induction its arbitrary: i e) (simp_all add: split_beta Let_def queue_op_R)

lemma good_append: "\<forall>m\<in>set (append_messages ins before i). good_message m"
  by (auto simp: append_messages_def)

lemma append_R: "R d e \<Longrightarrow> R d (handle_queue_append asker l its before e)"
  by (auto simp: handle_queue_append_def split_beta Let_def good_append
      intro!: tell_run_all_R broadcast_queue_state_R insert_all_R reject_R split: option.split sum.split)

lemma empty_player_R: "R d e \<Longrightarrow> R d (empty_player e)"
proof -
  assume "R d e"
  then have "R d (snd (player_op advance_sequence_generation e))"
    by (rule player_op_R) (auto simp: advance_sequence_generation_def Let_def intro: player_moves.intros)
  then show ?thesis unfolding empty_player_def by (intro primitive_R) auto
qed

lemma remove_slot_R: "R d e \<Longrightarrow> R d (handle_queue_remove_slot asker l sid e)"
  by (auto simp: handle_queue_remove_slot_def Let_def intro!: primitive_R reset_jumps_R empty_player_R)

lemma remove_listed_R: "R d e \<Longrightarrow> R d (snd (remove_listed sids e))"
  by (induction sids arbitrary: e) (simp_all add: split_beta Let_def queue_op_R)

lemma remove_slots_R: "R d e \<Longrightarrow> R d (handle_queue_remove_slots asker sids e)"
  by (auto simp: handle_queue_remove_slots_def split_beta Let_def
      intro!: primitive_R reset_jumps_R empty_player_R remove_listed_R)

lemma shuffle_R: "R d e \<Longrightarrow> R d (handle_queue_shuffle draw asker e)"
  by (auto simp: handle_queue_shuffle_def split_beta Let_def intro!: primitive_R
      split: queue_mutation_result.split)

lemma move_slot_R: "R d e \<Longrightarrow> R d (handle_queue_move_slot asker l sid i e)"
  by (auto simp: handle_queue_move_slot_def intro!: primitive_R)

lemma play_slot_R: "R d e \<Longrightarrow> R d (handle_queue_play_slot asker l sid e)"
  by (auto simp: handle_queue_play_slot_def split_beta Let_def intro!: primitive_R dispatch_jump_R)

lemma fold_ops_R: "R d e \<Longrightarrow> R d (fold (\<lambda>x e. snd (queue_op (f x) e)) xs e)"
  by (induction xs arbitrary: e) (simp_all add: queue_op_R)

lemma apply_updates_R: "R d e \<Longrightarrow> R d (snd (apply_updates us act e))"
  by (induction us arbitrary: e) (simp_all add: split_beta Let_def fold_ops_R)

lemma apply_progress_R: "R d e \<Longrightarrow> R d (handle_queue_apply_progress asker us e)"
  by (auto simp: handle_queue_apply_progress_def split_beta Let_def intro!: primitive_R apply_updates_R)

lemma clear_R: "R d e \<Longrightarrow> handle_queue_clear asker e = Some f \<Longrightarrow> R d f"
  by (auto simp: handle_queue_clear_def Let_def
      intro!: broadcast_queue_state_R reset_jumps_R empty_player_R elim!: lineage_R [rotated]
      intro: primitive_R)

lemma pipe_status_R:
  "R d e \<Longrightarrow> R d (reply_pipe_status now c e)" "R d e \<Longrightarrow> R d (send_pipe_status now c e)"
  by (auto simp: reply_pipe_status_def send_pipe_status_def intro!: primitive_R split: option.split)

lemma intent_R: "R d e \<Longrightarrow> R d (handle_playback_intent now asker i e)"
  by (auto simp: handle_playback_intent_def act_on_intent_def resolve_play_intent_def handle_stop_def
      step_to_neighbor_slot_def split_beta Let_def
      intro!: primitive_R dispatch_jump_R pipe_status_R answer_R reset_jumps_R
      split: intent_action.split step_target.split)

lemma route_R: "R d e \<Longrightarrow> R d (route_player_cmd asker w e)"
  by (auto simp: route_player_cmd_def intro!: primitive_R split: wire_command.split)

lemma command_R:
  assumes "R d e" "dispatch_ctrl_command now draw asker l cmd e = Some f" shows "R d f"
  using assms
  by (cases cmd)
    (auto simp: handle_stop_def
      intro: append_R remove_slot_R remove_slots_R shuffle_R move_slot_R play_slot_R source_update_R
        apply_progress_R intent_R route_R enrichment_R
      intro!: reset_jumps_R primitive_R
      dest: adopt_R replace_R clear_R)

lemma prepare_shutdown_R: "R d e \<Longrightarrow> R d (snd (prepare_shutdown asker e))"
proof -
  assume e: "R d e"
  have "R d (add_job j (e\<lparr>dm_saved_queue := s,
      dm_clients := if a then dm_clients e\<lparr>rg_authority := Auth_Ctrl\<rparr> else dm_clients e\<rparr>))" for j s a
  proof -
    have "R d (e\<lparr>dm_saved_queue := s\<rparr>)" using e by (rule via [OF saved])
    then have "R d (e\<lparr>dm_saved_queue := s,
        dm_clients := if a then dm_clients e\<lparr>rg_authority := Auth_Ctrl\<rparr> else dm_clients e\<rparr>)"
      by (rule registry_R) (auto intro: registry_moves.intros)
    then show ?thesis by (rule add_job_R)
  qed
  from this [where a = "rg_authority (dm_clients e) = Auth_Emby_Remote"] e show ?thesis
    by (auto simp: prepare_shutdown_def Let_def intro!: reply_R split: option.split)
qed

subsection \<open>Observations and services\<close>

lemma observation_R: "R d e \<Longrightarrow> R d (snd (handle_player_observation now pe e))"
proof -
  assume e: "R d e"
  have recorded: "R d (snd (record_observation sid obs played k))" if "R d k" for sid obs played k
    using that by (auto simp: record_observation_def intro!: primitive_R split: option.split)
  have next_up: "\<forall>m\<in>set (next_up_message s). good_message m" for s
    by (auto simp: next_up_message_def split: option.split)
  have stopped: "R d (snd (apply_stopped_observation g sid pos played k))" if "R d k" for g sid pos played k
    using that by (auto simp: apply_stopped_observation_def split_beta Let_def intro!: recorded split: option.split)
  have event: "R d (snd (handle_player_event pe e))" for pe
    using e stopped
    by (auto simp: handle_player_event_def settle_player_event_intent_def split_beta Let_def
        intro!: primitive_R answer_if_R split: player_event.split option.split)
  have track: "R d (snd (handle_track_changed sid tr e))" for sid tr
  proof -
    have "R d (snd (owner_op (observe_track_change sid) e))" using e by (rule owner_op_R)
    then show ?thesis
      by (auto simp: handle_track_changed_def split_beta Let_def intro!: primitive_R settle_R answer_if_R
          split: option.split prod.split)
  qed
  from e event track show ?thesis
    by (cases pe)
      (auto simp: handle_player_observation_def handle_next_up_threshold_def handle_queue_next_up_def
        handle_output_started_def handle_track_completed_def record_completed_slot_def split_beta Let_def
        next_up intro!: primitive_R recorded split: option.split)
qed

lemma play_fetched_R: "R d e \<Longrightarrow> R d (play_fetched items i ticks e)"
  unfolding play_fetched_def
  by (rule handle_R) (auto simp: pl_play_def pl_play_queue_def Let_def intro: player_moves.intros)

lemma resolved_R:
  assumes "R d e" "handle_playback_resolved now i ticks src c req gen fetched e = Some (out, f)"
  shows "R d f"
  using assms
  by (auto simp: handle_playback_resolved_def play_resolved_items_def Let_def
      intro!: play_fetched_R broadcast_queue_state_R intents_R answer_R elim!: lineage_R [rotated]
      intro: install_R reset_jumps_R pipe_status_R split: if_splits option.splits)

lemma transport_R:
  assumes "R d e" "\<forall>m. t = Tc_Player m \<longrightarrow> good_message m" shows "R d (snd (handle_transport t e))"
  using assms by (cases t) (auto simp: handle_transport_def intro!: primitive_R reset_jumps_R step_R)

lemma ws_wire_R: "R d e \<Longrightarrow> R d (snd (ws_wire w e))"
  unfolding ws_wire_def by (rule send_run_R) auto

lemma ws_control_R: "R d e \<Longrightarrow> R d (snd (ws_control ev e))"
proof -
  assume e: "R d e"
  have "R d (snd (player_op (pl_set_paused b) e))" for b using e
    by (rule player_op_R)
      (auto simp: pl_set_paused_def toggle_to_reach_def intro: player_moves.intros split: option.split)
  with e show ?thesis
    by (cases ev) (auto simp: Let_def intro: ws_wire_R stop_output_R split: option.split)
qed

lemma authority_R: "R d e \<Longrightarrow> R d (e\<lparr>dm_clients := take_authority_for_emby_remote (dm_clients e)\<rparr>)"
  by (rule registry_R) (auto simp: take_authority_for_emby_remote_def intro: registry_moves.intros)

lemma ws_R: "R d e \<Longrightarrow> R d (handle_ws fetch ev e)"
  using ws_control_R [of d e ev]
  by (cases ev)
    (auto simp: handle_ws_control_def handle_ws_play_def split_beta Let_def
      intro!: play_fetched_R broadcast_queue_state_R set_transitions_R authority_R install_R
      split: option.split simp del: ws_control.simps)

lemma ws_event_R: "R d e \<Longrightarrow> R d (snd (handle_ws_event fetch g ev e))"
  using transport_R [of d e "Tc_Step Next"] transport_R [of d e "Tc_Step Previous"] ws_R [of d e fetch ev]
  by (cases ev) (auto simp: handle_ws_event_def)

lemma progress_to_R: "R d e \<Longrightarrow> R d (apply_progress_to t ticks fin e)"
  by (auto simp: apply_progress_to_def intro!: primitive_R split: option.split)

lemma broadcast_if_R: "R d (snd r) \<Longrightarrow> R d (snd (broadcast_if r))"
  by (simp add: broadcast_if_def broadcast_queue_state_R)

lemma gated_R:
  "R d e \<Longrightarrow> ordinary x \<Longrightarrow> R d (e\<lparr>dm_clients := broadcast_progress_gated x (dm_clients e)\<rparr>)"
  "R d e \<Longrightarrow> ordinary x \<Longrightarrow> R d (e\<lparr>dm_clients := broadcast_book_progress_gated x (dm_clients e)\<rparr>)"
  by (auto simp: broadcast_progress_gated_def broadcast_book_progress_gated_def
      intro!: registry_R registry_moves.intros)

lemma refresh_fold_R:
  "R d e \<Longrightarrow> R d (fold (\<lambda>(sid, ticks, fin) e. apply_progress_to (Some sid) ticks fin e) us e)"
  by (induction us arbitrary: e) (auto simp: split_beta progress_to_R)

lemma services_R:
  assumes "R d e"
  shows "R d (snd (broadcast_if (apply_audiobookshelf_progress u e)))"
    "R d (snd (broadcast_if (apply_audiobookshelf_book_progress bu e)))"
    "R d (snd (broadcast_if (apply_audiobookshelf_progress_refresh g eps books e)))"
    "R d (snd (handle_queue_enriched items e))"
  using assms
  by (auto simp: apply_audiobookshelf_progress_def apply_audiobookshelf_book_progress_def
      apply_audiobookshelf_progress_refresh_def handle_queue_enriched_def split_beta Let_def
      intro!: broadcast_if_R gated_R progress_to_R refresh_fold_R primitive_R)

lemma disconnected_R: "R d e \<Longrightarrow> R d (handle_ctrl_disconnected c e)"
proof -
  assume "R d e"
  then have "R d (e\<lparr>dm_clients := remove_client c (dm_clients e)\<rparr>)"
    by (rule registry_R) (auto intro: registry_moves.intros)
  then show ?thesis unfolding handle_ctrl_disconnected_def by (rule intents_R)
qed

lemma persist_R: "R d e \<Longrightarrow> R d (persist_if_dirty b e)"
  by (simp add: persist_if_dirty_def add_job_R)

end

end
