(* ===== verification/Daemon_Snapshot.thy ===== *)
theory Daemon_Snapshot
  imports Daemon_Loop Queue_Runs
begin

text \<open>
  The reconnect snapshot. Threads that seed a new connection read the shared copy of the queue, its
  source and the observed slot, never the owner itself. The theory shows that the copy is what the
  owner has whenever the event loop is between two events.
\<close>

section \<open>Coherence\<close>

definition seen :: "daemon \<Rightarrow> playback_queue \<times> queue_source \<times> queue_slot_id option" where
  "seen d = (dm_queue d, ow_source (dm_core d), ow_observed (dm_core d))"

definition published :: "daemon \<Rightarrow> playback_queue \<times> queue_source \<times> queue_slot_id option" where
  "published d = (dm_sh_queue d, dm_sh_source d, dm_sh_observed d)"

definition coherent :: "daemon \<Rightarrow> bool" where
  "coherent d \<longleftrightarrow> published d = seen d"

text \<open>Half of it, which a broadcast of the queue completes.\<close>

definition observed_published :: "daemon \<Rightarrow> bool" where
  "observed_published d \<longleftrightarrow> dm_sh_observed d = ow_observed (dm_core d)"

named_theorems dm_frame

lemma coherent_published: "coherent d \<Longrightarrow> observed_published d"
  by (simp add: coherent_def observed_published_def seen_def published_def)

lemma coherent_cong: "published d = published e \<Longrightarrow> seen d = seen e \<Longrightarrow> coherent d = coherent e"
  by (simp add: coherent_def)

lemma observed_cong:
  "published d = published e \<Longrightarrow> seen d = seen e \<Longrightarrow> observed_published d = observed_published e"
  by (simp add: observed_published_def seen_def published_def)

section \<open>What leaves queue and snapshot alone\<close>

lemmas dm_defs = seen_def published_def dm_queue_def

lemma frame_updates [dm_frame]:
  "seen (d\<lparr>dm_intents := i\<rparr>) = seen d" "published (d\<lparr>dm_intents := i\<rparr>) = published d"
  "seen (d\<lparr>dm_queued_origin := k\<rparr>) = seen d" "published (d\<lparr>dm_queued_origin := k\<rparr>) = published d"
  "seen (d\<lparr>dm_player := p\<rparr>) = seen d" "published (d\<lparr>dm_player := p\<rparr>) = published d"
  "seen (d\<lparr>dm_clients := g\<rparr>) = seen d" "published (d\<lparr>dm_clients := g\<rparr>) = published d"
  "seen (d\<lparr>dm_op := x\<rparr>) = seen d" "published (d\<lparr>dm_op := x\<rparr>) = published d"
  "seen (d\<lparr>dm_jobs := js\<rparr>) = seen d" "published (d\<lparr>dm_jobs := js\<rparr>) = published d"
  "seen (d\<lparr>dm_saved_queue := sq\<rparr>) = seen d" "published (d\<lparr>dm_saved_queue := sq\<rparr>) = published d"
  "seen (d\<lparr>dm_sh_lineage := l\<rparr>) = seen d" "published (d\<lparr>dm_sh_lineage := l\<rparr>) = published d"
  "seen (set_transitions t d) = seen d" "published (set_transitions t d) = published d"
  by (simp_all add: dm_defs set_transitions_def)

lemma frame_player_op [dm_frame]:
  "seen (snd (player_op f d)) = seen d" "published (snd (player_op f d)) = published d"
  by (simp_all add: player_op_def split_beta dm_frame)

lemma frame_messages [dm_frame]:
  "seen (reply c e d) = seen d" "published (reply c e d) = published d"
  "seen (send_client c e d) = seen d" "published (send_client c e d) = published d"
  "seen (broadcast e d) = seen d" "published (broadcast e d) = published d"
  "seen (add_job j d) = seen d" "published (add_job j d) = published d"
  "seen (snd (send_run m d)) = seen d" "published (snd (send_run m d)) = published d"
  "seen (tell_run m d) = seen d" "published (tell_run m d) = published d"
  "seen (stop_output d) = seen d" "published (stop_output d) = published d"
  by (simp_all add: reply_def send_client_def broadcast_def add_job_def send_run_def tell_run_def
      stop_output_def dm_frame)

lemma frame_fold:
  assumes "\<And>x d. seen (f x d) = seen d" "\<And>x d. published (f x d) = published d"
  shows "seen (fold f xs d) = seen d \<and> published (fold f xs d) = published d"
  by (induction xs arbitrary: d) (simp_all add: assms)

lemma frame_lists [dm_frame]:
  "seen (tell_run_all ms d) = seen d" "published (tell_run_all ms d) = published d"
  "seen (reply_all c es d) = seen d" "published (reply_all c es d) = published d"
  by (simp_all add: tell_run_all_def reply_all_def frame_fold dm_frame)

lemma frame_jumps [dm_frame]:
  "seen (reset_slot_jumps d) = seen d" "published (reset_slot_jumps d) = published d"
  "seen (take_promoted_origin d) = seen d" "published (take_promoted_origin d) = published d"
  "seen (handle_stop d) = seen d" "published (handle_stop d) = published d"
  "seen (empty_player d) = seen d" "published (empty_player d) = published d"
  by (simp_all add: reset_slot_jumps_def take_promoted_origin_def handle_stop_def empty_player_def dm_frame)

lemma frame_answers [dm_frame]:
  "seen (answer_intent f c d) = seen d" "published (answer_intent f c d) = published d"
  "seen (answer_current_if w d) = seen d" "published (answer_current_if w d) = published d"
  by (auto simp: answer_intent_def answer_current_if_def split_beta Let_def dm_frame split: option.split)

lemma frame_replies [dm_frame]:
  "seen (reject_command c l r d) = seen d" "published (reject_command c l r d) = published d"
  "seen (answer_queue_op c oid d) = seen d" "published (answer_queue_op c oid d) = published d"
  "seen (finish_op c d) = seen d" "published (finish_op c d) = published d"
  "seen (reply_pipe_status n c d) = seen d" "published (reply_pipe_status n c d) = published d"
  "seen (send_pipe_status n c d) = seen d" "published (send_pipe_status n c d) = published d"
  "seen (start_queue_enrichment d) = seen d" "published (start_queue_enrichment d) = published d"
  by (auto simp: reject_command_def answer_queue_op_def finish_op_def reply_pipe_status_def
      send_pipe_status_def start_queue_enrichment_def Let_def dm_frame split: option.split)

lemma frame_persist [dm_frame]:
  "seen (persist_if_dirty b d) = seen d" "published (persist_if_dirty b d) = published d"
  by (simp_all add: persist_if_dirty_def dm_frame)

lemma frame_shutdown [dm_frame]:
  "seen (snd (prepare_shutdown c d)) = seen d" "published (snd (prepare_shutdown c d)) = published d"
  "seen (snd (handle_shutdown t d)) = seen d" "published (snd (handle_shutdown t d)) = published d"
  by (auto simp: prepare_shutdown_def handle_shutdown_def Let_def dm_frame dm_defs reply_def add_job_def
      split: option.split)

section \<open>What publishes\<close>

lemma coherent_broadcast [simp]: "coherent (broadcast_queue_state x d) = observed_published d"
  by (simp add: coherent_def observed_published_def broadcast_queue_state_def dm_defs)

lemma observed_publish [simp]: "observed_published (publish_observed d)"
  by (simp add: observed_published_def publish_observed_def)

lemma observed_queue_op [simp]: "observed_published (snd (queue_op f d)) = observed_published d"
  by (simp add: observed_published_def queue_op_def set_queue_def split_beta Let_def)

lemma observed_source [simp]: "observed_published (set_source src d) = observed_published d"
  by (simp add: observed_published_def set_source_def)

text \<open>The frame facts, as facts about the two predicates.\<close>

lemma coherent_frame:
  assumes "seen d' = seen d" "published d' = published d"
  shows "coherent d' = coherent d" "observed_published d' = observed_published d"
  using coherent_cong [of d' d] observed_cong [of d' d] assms by auto

lemmas coherent_frames [simp] =
  coherent_frame [OF frame_updates(1,2)] coherent_frame [OF frame_updates(3,4)]
  coherent_frame [OF frame_updates(5,6)] coherent_frame [OF frame_updates(7,8)]
  coherent_frame [OF frame_updates(9,10)] coherent_frame [OF frame_updates(11,12)]
  coherent_frame [OF frame_updates(13,14)] coherent_frame [OF frame_updates(15,16)]
  coherent_frame [OF frame_updates(17,18)] coherent_frame [OF frame_player_op]
  coherent_frame [OF frame_messages(1,2)] coherent_frame [OF frame_messages(3,4)]
  coherent_frame [OF frame_messages(5,6)] coherent_frame [OF frame_messages(7,8)]
  coherent_frame [OF frame_messages(9,10)] coherent_frame [OF frame_messages(11,12)]
  coherent_frame [OF frame_messages(13,14)] coherent_frame [OF frame_lists(1,2)]
  coherent_frame [OF frame_lists(3,4)] coherent_frame [OF frame_jumps(1,2)]
  coherent_frame [OF frame_jumps(3,4)] coherent_frame [OF frame_jumps(5,6)]
  coherent_frame [OF frame_jumps(7,8)] coherent_frame [OF frame_answers(1,2)]
  coherent_frame [OF frame_answers(3,4)] coherent_frame [OF frame_replies(1,2)]
  coherent_frame [OF frame_replies(3,4)] coherent_frame [OF frame_replies(5,6)]
  coherent_frame [OF frame_replies(7,8)] coherent_frame [OF frame_replies(9,10)]
  coherent_frame [OF frame_replies(11,12)] coherent_frame [OF frame_persist]
  coherent_frame [OF frame_shutdown(1,2)] coherent_frame [OF frame_shutdown(3,4)]

section \<open>Slot jumps\<close>

lemma observed_submit [simp]:
  "observed_published (snd (submit_queue_slots_for_replace ss i s d)) = observed_published d"
  by (simp add: submit_queue_slots_for_replace_def)

lemma observed_send_jump:
  "observed_published d \<Longrightarrow> observed_published (snd (send_jump_or_cold_start t d))"
  by (auto simp: send_jump_or_cold_start_def cold_start_at_slot_def split_beta Let_def split: option.split)

lemma observed_promoted: "observed_published d \<Longrightarrow> observed_published (dispatch_promoted t d)"
  by (auto simp: dispatch_promoted_def Let_def observed_send_jump split: option.split)

lemma coherent_dispatch: "observed_published d \<Longrightarrow> coherent (dispatch_slot_jump origin t x d)"
  by (auto simp: dispatch_slot_jump_def split_beta Let_def observed_send_jump
      split: dispatch_decision.split option.split)

lemma coherent_expire: "coherent d \<Longrightarrow> coherent (expire_and_redispatch now d)"
  by (auto simp: expire_and_redispatch_def Let_def coherent_published
      intro!: observed_promoted split: prod.split expire_outcome.split option.split)

lemma coherent_step: "coherent d \<Longrightarrow> coherent (snd (dispatch_relative_step dir d))"
  by (auto simp: dispatch_relative_step_def dispatch_step_target_def split_beta Let_def
      coherent_published intro!: coherent_dispatch split: step_target.split)

section \<open>Observations\<close>

lemma owner_op_frame:
  assumes "fst (snd (f (dm_core d) (dm_revisions d))) = dm_core d"
  shows "seen (snd (owner_op f d)) = seen d"
  using assms by (simp add: dm_defs owner_op_def split_beta Let_def)

lemma published_ops [dm_frame]:
  "published (snd (owner_op f d)) = published d" "published (snd (queue_op g d)) = published d"
  "published (set_source src d) = published d"
  by (simp_all add: dm_defs owner_op_def queue_op_def set_queue_def set_source_def split_beta Let_def)

lemma observed_owner_op:
  assumes "ow_observed (fst (snd (f (dm_core d) (dm_revisions d)))) = ow_observed (dm_core d)"
  shows "observed_published (snd (owner_op f d)) = observed_published d"
  using assms by (simp add: observed_published_def owner_op_def split_beta Let_def)

lemma observe_track_change_none:
  "fst (observe_track_change sid ow h) = None \<Longrightarrow> snd (observe_track_change sid ow h) = (ow, h)"
  by (auto simp: observe_track_change_def Let_def split_beta simp del: slot_index_None split: option.splits)

lemma coherent_track_changed: "coherent d \<Longrightarrow> coherent (snd (handle_track_changed sid tr d))"
proof (cases "owner_op (observe_track_change sid) d")
  case (Pair r d1)
  assume "coherent d"
  show ?thesis
  proof (cases r)
    case None
    then have "fst (observe_track_change sid (dm_core d) (dm_revisions d)) = None"
      using Pair by (simp add: owner_op_def split_beta Let_def)
    then have "seen d1 = seen d" "published d1 = published d"
      using Pair owner_op_frame [of "observe_track_change sid" d] observe_track_change_none
        published_ops(1) [of "observe_track_change sid" d] by auto
    with \<open>coherent d\<close> Pair None coherent_frame [of d1 d] show ?thesis
      by (simp add: handle_track_changed_def)
  next
    case (Some v)
    with Pair show ?thesis
      by (auto simp: handle_track_changed_def Let_def split: prod.split)
  qed
qed

lemma observed_record [simp]:
  "observed_published (snd (record_observation sid obs played d)) = observed_published d"
  by (auto simp: record_observation_def apply_completion_progress_def split_beta Let_def
      intro!: observed_owner_op split: option.split)

lemma record_unknown: "\<not> fst (record_observation sid obs played d) \<Longrightarrow> snd (record_observation sid obs played d) = d"
  by (auto simp: record_observation_def simp del: slot_None_iff split: option.splits)

lemma coherent_stopped:
  assumes "coherent d"
  shows "case fst (apply_stopped_observation g sid pos played d) of
      Some True \<Rightarrow> observed_published (snd (apply_stopped_observation g sid pos played d))
    | _ \<Rightarrow> snd (apply_stopped_observation g sid pos played d) = d"
  using assms record_unknown [of "the sid" "Obs_Stopped pos played" played d]
  by (auto simp: apply_stopped_observation_def split_beta Let_def coherent_published
      split: option.splits bool.splits)

lemma coherent_settle_intent [simp]: "coherent (settle_player_event_intent pe d) = coherent d"
  by (auto simp: settle_player_event_intent_def Let_def split: player_event.split)

lemma coherent_player_event:
  assumes "coherent d" shows "coherent (snd (handle_player_event pe d))"
proof (cases pe)
  case (PE_Stopped sid g pos played consume err)
  with assms coherent_stopped [OF assms, of g sid pos played] show ?thesis
    by (auto simp: handle_player_event_def split: prod.split option.splits bool.splits)
qed (use assms in \<open>simp_all add: handle_player_event_def\<close>)

lemma coherent_observation:
  assumes "coherent d" shows "coherent (snd (handle_player_observation now pe d))"
  using assms coherent_track_changed [OF assms] coherent_player_event [OF assms]
  by (cases pe)
    (auto simp: handle_player_observation_def handle_next_up_threshold_def handle_queue_next_up_def
      handle_output_started_def handle_track_completed_def record_completed_slot_def Let_def
      coherent_published split: prod.split option.split)

section \<open>Control commands\<close>

lemma queue_op_frame:
  assumes "fst (snd (f (dm_queue d) (dm_revisions d))) = dm_queue d"
  shows "seen (snd (queue_op f d)) = seen d"
  using assms by (simp add: dm_defs queue_op_def set_queue_def split_beta Let_def)

lemma observed_lineage: "mint_queue_lineage d = Some d' \<Longrightarrow> observed_published d' = observed_published d"
  by (auto simp: mint_queue_lineage_def split: if_splits)

lemma observed_install [simp]: "observed_published (install_items its cur src d) = observed_published d"
  by (simp add: install_items_def)

lemma coherent_adopt:
  assumes "coherent d" "handle_adopt_queue c l its cur src d = Some d'" shows "coherent d'"
  using assms
  by (auto simp: handle_adopt_queue_def split_beta Let_def coherent_published
      dest!: observed_lineage split: if_splits option.splits)

lemma coherent_replace:
  assumes "coherent d" "handle_queue_replace c l its slots start secs src d = Some d'"
  shows "coherent d'"
  using assms
  by (auto simp: handle_queue_replace_def split_beta Let_def
      split: if_splits option.splits sum.splits)

lemma coherent_clear:
  assumes "coherent d" "handle_queue_clear c d = Some d'" shows "coherent d'"
  using assms
  by (auto simp: handle_queue_clear_def Let_def coherent_published dest!: observed_lineage)

lemma observed_insert_all [simp]:
  "observed_published (snd (insert_all i its d)) = observed_published d"
  by (induction its arbitrary: i d) (simp_all add: split_beta Let_def)

lemma coherent_append: "coherent d \<Longrightarrow> coherent (handle_queue_append c l its before d)"
  by (auto simp: handle_queue_append_def split_beta Let_def coherent_published
      split: option.split sum.split)

lemma coherent_remove_slot: "coherent d \<Longrightarrow> coherent (handle_queue_remove_slot c l sid d)"
  by (auto simp: handle_queue_remove_slot_def Let_def coherent_published)

lemma observed_remove_listed [simp]:
  "observed_published (snd (remove_listed sids d)) = observed_published d"
  by (induction sids d rule: remove_listed.induct) (auto simp: split_beta Let_def)

lemma remove_listed_none: "fst (fst (remove_listed sids d)) = [] \<Longrightarrow> snd (remove_listed sids d) = d"
  by (induction sids d rule: remove_listed.induct) (auto simp: split_beta Let_def split: if_splits)

lemma coherent_remove_slots: "coherent d \<Longrightarrow> coherent (handle_queue_remove_slots c sids d)"
  using remove_listed_none [of sids d]
  by (auto simp: handle_queue_remove_slots_def split_beta Let_def coherent_published)

lemma reorder_not_found:
  "fst (reorder_slots order q h) = Mutation_NotFound \<Longrightarrow> snd (reorder_slots order q h) = (q, h)"
  by (auto simp: reorder_slots_def Let_def split_beta split: if_splits)

lemma coherent_shuffle:
  assumes "coherent d" shows "coherent (handle_queue_shuffle draw c d)"
proof -
  let ?order = "shuffled_slot_order draw (dm_active d) (dm_queue d)"
  let ?r = "reorder_slots ?order (dm_queue d) (dm_revisions d)"
  have "fst (queue_op (reorder_slots ?order) d) = fst ?r"
    by (simp add: queue_op_def split_beta Let_def)
  moreover have "coherent (snd (queue_op (reorder_slots ?order) d))" if "fst ?r = Mutation_NotFound"
    using assms coherent_frame(1) [of "snd (queue_op (reorder_slots ?order) d)" d]
      reorder_not_found [OF that] queue_op_frame [of "reorder_slots ?order" d] by (simp add: published_ops)
  ultimately show ?thesis using assms
    by (auto simp: handle_queue_shuffle_def split_beta Let_def coherent_published
        split: queue_mutation_result.split)
qed

lemma coherent_move_slot: "coherent d \<Longrightarrow> coherent (handle_queue_move_slot c l sid i d)"
  by (auto simp: handle_queue_move_slot_def Let_def coherent_published)

lemma coherent_play_slot: "coherent d \<Longrightarrow> coherent (handle_queue_play_slot c l sid d)"
  by (auto simp: handle_queue_play_slot_def Let_def coherent_published
      intro!: coherent_dispatch split: prod.split)

lemma coherent_source_update: "coherent d \<Longrightarrow> coherent (handle_queue_source_update c l src cl d)"
  by (auto simp: handle_queue_source_update_def coherent_published)

lemma observed_fold_ops [simp]:
  "observed_published (fold (\<lambda>x d. snd (queue_op (f x) d)) xs d) = observed_published d"
  by (induction xs arbitrary: d) simp_all

lemma apply_updates_frame:
  "observed_published (snd (apply_updates us act d)) = observed_published d"
  "\<not> fst (apply_updates us act d) \<Longrightarrow> snd (apply_updates us act d) = d"
  by (induction us act d rule: apply_updates.induct) (auto simp: split_beta Let_def)

lemma coherent_apply_progress: "coherent d \<Longrightarrow> coherent (handle_queue_apply_progress c us d)"
  using apply_updates_frame [of us "pq_active (dm_queue d)" d]
  by (auto simp: handle_queue_apply_progress_def split_beta Let_def coherent_published)

lemma coherent_intent: "coherent d \<Longrightarrow> coherent (handle_playback_intent now c i d)"
  by (auto simp: handle_playback_intent_def act_on_intent_def resolve_play_intent_def
      step_to_neighbor_slot_def split_beta Let_def coherent_published
      intro!: coherent_dispatch split: intent_action.split step_target.split)

lemma coherent_ctrl_command:
  assumes "coherent d" "dispatch_ctrl_command now draw c l cmd d = Some d'" shows "coherent d'"
  using assms
  by (cases cmd)
    (auto simp: route_player_cmd_def
      dest: coherent_adopt coherent_replace coherent_clear
      intro: coherent_append coherent_remove_slot coherent_remove_slots coherent_shuffle
        coherent_move_slot coherent_play_slot coherent_source_update coherent_apply_progress
        coherent_intent split: wire_command.split)

lemma coherent_ctrl:
  assumes "coherent d" "handle_ctrl_for_role now draw c cmd d = Some d'" shows "coherent d'"
proof -
  have "coherent (d\<lparr>dm_op := x\<rparr>)" for x using assms(1) by simp
  with assms(2) show ?thesis
    by (auto simp: handle_ctrl_for_role_def Let_def split_beta
        dest!: coherent_ctrl_command [rotated] split: option.splits if_splits)
qed

section \<open>The loop\<close>

lemma coherent_play_fetched [simp]: "coherent (play_fetched items i ticks d) = coherent d"
  by (simp add: play_fetched_def)

lemma coherent_resolved:
  assumes "coherent d" "handle_playback_resolved now i ticks src c req gen fetched d = Some (out, d')"
  shows "coherent d'"
  using assms
  by (auto simp: handle_playback_resolved_def play_resolved_items_def Let_def coherent_published
      dest!: observed_lineage split: if_splits option.splits)

lemma coherent_ws_control: "coherent (snd (ws_control ev d)) = coherent d"
  by (cases ev) (auto simp: ws_wire_def Let_def split: option.split)

lemma coherent_ws: "coherent d \<Longrightarrow> coherent (handle_ws fetch ev d)"
  by (cases ev)
    (auto simp: handle_ws_control_def handle_ws_play_def split_beta Let_def coherent_ws_control
      coherent_published split: option.split simp del: ws_control.simps)

lemma coherent_transport: "coherent d \<Longrightarrow> coherent (snd (handle_transport t d))"
  by (cases t) (auto simp: handle_transport_def coherent_step)

lemma coherent_ws_event: "coherent d \<Longrightarrow> coherent (snd (handle_ws_event fetch g ev d))"
  using coherent_transport [of d] coherent_ws [of d fetch ev]
  by (cases ev) (auto simp: handle_ws_event_def)

lemma coherent_broadcast_if:
  assumes "coherent d" "observed_published e" "\<not> b \<Longrightarrow> coherent e"
  shows "coherent (snd (broadcast_if (b, e)))"
  using assms by (simp add: broadcast_if_def)

lemma observed_apply_progress_to [simp]:
  "observed_published (apply_progress_to t ticks fin d) = observed_published d"
  by (simp add: apply_progress_to_def split: option.split)

lemma coherent_abs_progress:
  assumes "coherent d"
  shows "coherent (snd (broadcast_if (apply_audiobookshelf_progress u d)))"
    "coherent (snd (broadcast_if (apply_audiobookshelf_book_progress bu d)))"
  using assms
  by (auto simp: apply_audiobookshelf_progress_def apply_audiobookshelf_book_progress_def
      broadcast_if_def Let_def coherent_published) (simp_all add: apply_progress_to_def)

section \<open>Refreshed queues\<close>

text \<open>A merge that reports no slot changed none.\<close>

lemma refresh_one_slot_reports:
  assumes "snd (snd st) \<longrightarrow> updated_slots (fst (snd st)) \<noteq> []"
  shows "snd (snd (refresh_one_slot act f st)) \<longrightarrow> updated_slots (fst (snd (refresh_one_slot act f st))) \<noteq> []"
  using assms
  by (cases f; cases st)
    (auto simp: refresh_one_slot_def merge_fetched_slot_def Let_def split: option.split)

lemma fold_refresh_reports:
  assumes "snd (snd st) \<longrightarrow> updated_slots (fst (snd st)) \<noteq> []"
  shows "snd (snd (fold (refresh_one_slot act) fs st))
    \<longrightarrow> updated_slots (fst (snd (fold (refresh_one_slot act) fs st))) \<noteq> []"
  using assms by (induction fs arbitrary: st) (simp_all add: refresh_one_slot_reports)

lemma merge_refresh_quiet:
  assumes "updated_slots (fst (merge_refresh_for_slots fs q h)) = []"
  shows "fst (snd (merge_refresh_for_slots fs q h)) = q"
  using assms fold_refresh_reports [of "(pq_slots q, empty_merge_result, False)" "pq_active q" fs]
    fold_refresh_unchanged [of "pq_active q" fs "(pq_slots q, empty_merge_result, False)"]
  by (auto simp: merge_refresh_for_slots_def bump_if_def split_beta Let_def split: if_splits)

lemma coherent_enriched:
  assumes "coherent d" shows "coherent (snd (handle_queue_enriched items d))"
proof -
  let ?f = "merge_refresh_for_slots items"
  have "coherent (snd (queue_op ?f d))" if "updated_slots (fst (queue_op ?f d)) = []"
    using assms that merge_refresh_quiet [of items "dm_queue d" "dm_revisions d"]
      coherent_frame(1) [of "snd (queue_op ?f d)" d] queue_op_frame [of ?f d]
    by (simp add: published_ops) (simp add: queue_op_def split_beta Let_def)
  then show ?thesis
    using assms unfolding handle_queue_enriched_def split_beta Let_def
    by (intro coherent_broadcast_if) (auto simp: coherent_published)
qed

text \<open>
  The bulk refresh compares revisions instead. A queue whose revision is behind its mint can be
  updated so many times before the counter comes round to it.
\<close>

definition mint_room :: "nat \<Rightarrow> daemon \<Rightarrow> bool" where
  "mint_room n d \<longleftrightarrow>
     (let m = dm_revisions d (pq_mint (dm_queue d))
      in unat (pq_revision (dm_queue d)) < unat m \<and> unat m + n < 2 ^ 64)"

lemma apply_progress_cases:
  "snd (apply_progress sid p b q h) = (q, h)
   \<or> (\<exists>ss. snd (apply_progress sid p b q h)
          = (q\<lparr>pq_slots := ss, pq_revision := h (pq_mint q)\<rparr>, h(pq_mint q := h (pq_mint q) + 1)))"
  using same_item_slots [of "the (slot_index q sid)" "pq_slots q"] slot_index_Some [of q sid]
  by (auto simp: apply_progress_def queue_items_equal_def bump_if_def bump_eq split_beta Let_def
      simp del: slot_index_None split: option.split)

text \<open>The queue as it was, or a revision the mint gave out since.\<close>

definition updated_since :: "daemon \<Rightarrow> daemon \<Rightarrow> bool" where
  "updated_since d0 d \<longleftrightarrow>
     pq_mint (dm_queue d) = pq_mint (dm_queue d0)
     \<and> ow_source (dm_core d) = ow_source (dm_core d0) \<and> ow_observed (dm_core d) = ow_observed (dm_core d0)
     \<and> (let m0 = dm_revisions d0 (pq_mint (dm_queue d0)); m = dm_revisions d (pq_mint (dm_queue d0)) in
        m = m0 \<and> dm_queue d = dm_queue d0
        \<or> unat m0 < unat m \<and> unat (pq_revision (dm_queue d)) + 1 = unat m)"

lemma updated_since_step:
  assumes "updated_since d0 d" "unat (dm_revisions d (pq_mint (dm_queue d0))) + 1 < 2 ^ 64"
  shows "updated_since d0 (apply_progress_to (Some sid) p b d)
    \<and> unat (dm_revisions (apply_progress_to (Some sid) p b d) (pq_mint (dm_queue d0)))
        \<le> unat (dm_revisions d (pq_mint (dm_queue d0))) + 1"
  using assms apply_progress_cases [of sid p b "dm_queue d" "dm_revisions d"]
    unat_plus_one [OF assms(2)]
  by (auto simp: updated_since_def apply_progress_to_def queue_op_def set_queue_def dm_queue_def
      split_beta Let_def)

lemma updated_since_fold:
  assumes "updated_since d0 d"
    and "unat (dm_revisions d (pq_mint (dm_queue d0))) + length us < 2 ^ 64"
  shows "updated_since d0 (fold (\<lambda>(sid, ticks, fin) d. apply_progress_to (Some sid) ticks fin d) us d)"
  using assms
proof (induction us arbitrary: d)
  case (Cons u us)
  obtain sid p b where u: "u = (sid, p, b)" by (cases u)
  from updated_since_step [OF Cons.prems(1), of sid p b] Cons.prems(2) show ?case
    by (simp add: u) (intro Cons.IH; simp)
qed simp

lemma length_map_filter: "length (List.map_filter f xs) \<le> length xs"
  by (induction xs) (auto simp: List.map_filter_simps split: option.split)

lemma coherent_abs_refresh:
  assumes "coherent d" "mint_room (length (pq_slots (dm_queue d))) d"
  shows "coherent (snd (broadcast_if (apply_audiobookshelf_progress_refresh g eps books d)))"
proof (cases "dm_abs_generation d \<noteq> Some g")
  case True
  with assms show ?thesis
    by (simp add: apply_audiobookshelf_progress_refresh_def broadcast_if_def)
next
  case False
  define us where "us = List.map_filter (\<lambda>s. map_option (Pair (qs_slot_id s))
      (refreshed_progress eps books (qs_item s)))
    (filter (\<lambda>s. Some (qs_slot_id s) \<noteq> pq_active (dm_queue d)) (pq_slots (dm_queue d)))"
  define e where "e = fold (\<lambda>(sid, ticks, fin) d. apply_progress_to (Some sid) ticks fin d) us d"
  have len: "length us \<le> length (pq_slots (dm_queue d))"
    unfolding us_def by (rule order_trans [OF length_map_filter]) simp
  have e: "updated_since d e" unfolding e_def
    by (rule updated_since_fold)
      (use assms(2) len in \<open>auto simp: updated_since_def mint_room_def Let_def\<close>)
  have "published (fold (\<lambda>(sid, ticks, fin) d. apply_progress_to (Some sid) ticks fin d) us d) = published d"
    for us d by (induction us arbitrary: d) (auto simp: split_beta apply_progress_to_def published_ops)
  then have pub: "published e = published d" by (simp add: e_def)
  have "seen e = seen d" if "pq_revision (dm_queue e) = pq_revision (dm_queue d)"
    using e that assms(2) by (auto simp: updated_since_def mint_room_def Let_def dm_defs)
  moreover have "observed_published e"
    using e assms(1) pub by (auto simp: updated_since_def coherent_def observed_published_def dm_defs)
  ultimately show ?thesis
    using assms(1) pub False coherent_frame(1) [of e d]
    by (auto simp: apply_audiobookshelf_progress_refresh_def Let_def broadcast_if_def us_def [symmetric]
        e_def [symmetric])
qed

end
