(* ===== verification/Daemon_Steps.thy ===== *)
theory Daemon_Steps
  imports Daemon_Frame Daemon_Snapshot
begin

text \<open>
  The daemon over time: what a pass of the event loop, a new connection, the Pin swap machine and the
  playback run do to the state, as a step relation, and the states it reaches from a start. The
  relation of the handlers is carried to whole events, and the snapshot, the playback runs and the
  number of drivers are followed along every run.
\<close>

section \<open>Whole events\<close>

text \<open>The desktop sends the run no queues.\<close>

fun calm :: "daemon_event \<Rightarrow> bool" where
  "calm (De_Transport (Tc_Player m)) = good_message m"
| "calm _ = True"

locale daemon_preorder =
  fixes R :: "daemon \<Rightarrow> daemon \<Rightarrow> bool"
  assumes frame: "daemon_frame R c"
    and op: "R d (d\<lparr>dm_op := x\<rparr>)"
    and answer: "R d (answer_queue_op c oid d)"
begin

lemmas same_P = daemon_frame.same [OF frame]
lemmas trans_P = daemon_frame.trans [OF frame]

lemma finish_P: "R d e \<Longrightarrow> R d (finish_op c e)"
  using trans_P [of d e "e\<lparr>dm_op := None\<rparr>"] op [of e None] answer [of "e\<lparr>dm_op := None\<rparr>" c]
  by (auto simp: finish_op_def intro: trans_P split: option.split)

lemma control_P:
  assumes "handle_ctrl_for_role now draw c cmd d = Some d'" shows "R d d'"
proof -
  let ?d1 = "d\<lparr>dm_op := queue_op_id cmd\<rparr>" and ?l = "dm_sh_lineage d"
  let ?p = "if cmd = Cc_Request_Shutdown then prepare_shutdown c ?d1 else (True, ?d1)"
  have start: "R d ?d1" by (rule op)
  have prep: "R d (snd ?p)" using daemon_frame.prepare_shutdown_R [OF frame start, where asker = c] start
    by (cases "cmd = Cc_Request_Shutdown") (simp_all del: queue_op_id.simps)
  show ?thesis
  proof (cases "role_gate cmd (dm_role d)")
    case (Some r)
    with assms daemon_frame.reject_R [OF frame start] show ?thesis
      by (auto simp: handle_ctrl_for_role_def Let_def)
  next
    case None
    have "R d e" if "dispatch_ctrl_command now draw c ?l cmd (snd ?p) = Some e" for e
      using daemon_frame.command_R [OF frame prep that] .
    with None assms prep show ?thesis unfolding handle_ctrl_for_role_def Let_def split_beta
      by (auto intro: finish_P simp del: dispatch_ctrl_command.simps split: if_splits)
  qed
qed

lemma outcome_P: "Some r = Some (out, e) \<Longrightarrow> R d (snd r) \<Longrightarrow> R d e"
  by auto

lemma react_P:
  assumes "react sr ev d = Some (out, d')" "calm ev" "eo_flow out = Flow_Continue" shows "R d d'"
proof -
  note R = daemon_frame.observation_R daemon_frame.transport_R daemon_frame.ws_event_R
    daemon_frame.services_R daemon_frame.disconnected_R
  note start = R [OF frame same_P]
  show ?thesis
  proof (cases ev)
    case (De_Player pe)
    show ?thesis using assms(1) unfolding De_Player react_def daemon_event.case by (rule outcome_P) (rule start)
  next
    case (De_Transport t)
    have "R d (snd (handle_transport t d))"
      by (rule start(2)) (use De_Transport assms(2) in auto)
    with assms(1) show ?thesis unfolding De_Transport react_def daemon_event.case by (rule outcome_P)
  next
    case (De_Ws g e)
    show ?thesis using assms(1) unfolding De_Ws react_def daemon_event.case by (rule outcome_P) (rule start)
  next
    case (De_Queue_Enriched items)
    show ?thesis using assms(1) unfolding De_Queue_Enriched react_def daemon_event.case by (rule outcome_P) (rule start)
  next
    case (De_Abs_Progress u)
    show ?thesis using assms(1) unfolding De_Abs_Progress react_def daemon_event.case by (rule outcome_P) (rule start)
  next
    case (De_Abs_Book_Progress u)
    show ?thesis using assms(1) unfolding De_Abs_Book_Progress react_def daemon_event.case by (rule outcome_P) (rule start)
  next
    case (De_Abs_Refreshed g eps books)
    show ?thesis using assms(1) unfolding De_Abs_Refreshed react_def daemon_event.case by (rule outcome_P) (rule start)
  next
    case (De_Ctrl cmd c)
    with assms show ?thesis
      by (auto simp: react_def handle_ctrl_event_def intro: same_P control_P split: if_splits)
  next
    case (De_Resolved i ticks src c req gen fetched)
    with assms(1) have "handle_playback_resolved (sr_now sr) i ticks src c req gen fetched d = Some (out, d')"
      by (simp add: react_def)
    then show ?thesis by (rule daemon_frame.resolved_R [OF frame same_P])
  next
    case (De_Disconnected c)
    show ?thesis using assms(1) unfolding De_Disconnected react_def daemon_event.case by (rule outcome_P) (simp only: snd_conv start(8))
  qed (use assms same_P in \<open>auto simp: react_def handle_shutdown_def Let_def CONTINUE_def SHUTDOWN_def
    split: if_splits\<close>)
qed

lemma event_P:
  assumes "handle_event sr ev d = Some (Flow_Continue, d')" "calm ev" shows "R d d'"
proof -
  obtain out e where react: "react sr ev d = Some (out, e)" "eo_flow out = Flow_Continue"
    and d': "d' = persist_if_dirty (eo_dirty out) e"
    using assms(1) by (auto simp: handle_event_def)
  show ?thesis unfolding d' by (rule daemon_frame.persist_R [OF frame]) (rule react_P [OF react(1) assms(2) react(2)])
qed

lemma idle_P: "R d (on_recv_timeout now d)"
  by (rule daemon_frame.timeout_R [OF frame same_P])

end

section \<open>Three readings\<close>

text \<open>The playback run behind the handle.\<close>

definition runs_kept :: "daemon \<Rightarrow> daemon \<Rightarrow> bool" where
  "runs_kept d e \<longleftrightarrow> (player_ok (dm_player d) \<longrightarrow> player_ok (dm_player e))"

text \<open>The connections that may drive playback, and the token of a swap.\<close>

definition drivers :: "registry \<Rightarrow> nat" where
  "drivers rg = length (filter (\<lambda>k. cl_role k = Role_Client) (rg_connection rg))"

definition drivers_kept :: "daemon \<Rightarrow> daemon \<Rightarrow> bool" where
  "drivers_kept d e \<longleftrightarrow>
     drivers (dm_clients e) \<le> drivers (dm_clients d)
     \<and> rg_pending_swap (dm_clients e) = rg_pending_swap (dm_clients d)"

text \<open>What a start fixes.\<close>

definition settings_kept :: "daemon \<Rightarrow> daemon \<Rightarrow> bool" where
  "settings_kept d e \<longleftrightarrow> dm_role e = dm_role d \<and> dm_stay_alive e = dm_stay_alive d"

lemma reject_frame [simp]:
  "dm_player (reject_command c l r d) = dm_player d"
  "dm_role (reject_command c l r d) = dm_role d"
  "dm_stay_alive (reject_command c l r d) = dm_stay_alive d"
  by (auto simp: reject_command_def reply_def split: option.split)

lemma registry_reply [simp]:
  "rg_connection (reply_to c e rg) = rg_connection rg"
  "rg_pending_swap (reply_to c e rg) = rg_pending_swap rg"
  by (simp_all add: reply_to_def)

lemma drivers_retain:
  "drivers (retain_clients keep sent rg) \<le> drivers rg"
  "rg_pending_swap (retain_clients keep sent rg) = rg_pending_swap rg"
proof -
  have "rg_connection (retain_clients keep sent rg) = filter keep (rg_connection rg)"
    by (simp add: retain_clients_def notify_last_client_gone_def refresh_attached_clients_def Let_def)
  then show "drivers (retain_clients keep sent rg) \<le> drivers rg"
    using length_filter_le [of keep "filter (\<lambda>k. cl_role k = Role_Client) (rg_connection rg)"]
    by (simp add: drivers_def conj_commute)
  show "rg_pending_swap (retain_clients keep sent rg) = rg_pending_swap rg"
    by (simp add: retain_clients_def notify_last_client_gone_def refresh_attached_clients_def Let_def)
qed

lemma drivers_moves:
  "registry_moves r s \<Longrightarrow> drivers s \<le> drivers r \<and> rg_pending_swap s = rg_pending_swap r"
proof (induction rule: registry_moves.induct)
  case (broadcast r s event wants)
  then show ?case unfolding broadcast_where_def drivers_retain(2)
    by (intro conjI order_trans [OF drivers_retain(1)]) simp_all
next
  case (remove r s c)
  have "drivers (remove_client c s) = drivers (retain_clients (\<lambda>k. cl_id k \<noteq> c) [] s)"
    "rg_pending_swap (remove_client c s) = rg_pending_swap s"
    by (simp_all add: remove_client_def Let_def drivers_def drivers_retain(2))
  with remove drivers_retain(1) [of "\<lambda>k. cl_id k \<noteq> c" "[]" s] show ?case by simp
qed (auto simp: drivers_def send_to_client_def notify_disconnected_all_def begin_shutdown_def
  split: option.split)

interpretation runs: daemon_preorder runs_kept
proof (unfold_locales)
  show "runs_kept d (answer_queue_op c oid d)" for c oid d
    by (simp add: runs_kept_def answer_queue_op_def reply_def)
qed (auto simp: runs_kept_def intro: player_ok_moves)

interpretation doors: daemon_preorder drivers_kept
proof (unfold_locales)
  show "drivers_kept d (answer_queue_op c oid d)" for c oid d
    by (simp add: drivers_kept_def drivers_def answer_queue_op_def reply_def)
  show "drivers_kept d (reject_command c l r d)" for c l r d
    by (simp add: drivers_kept_def drivers_def reject_command_def reply_def split: option.split)
qed (auto simp: drivers_kept_def dest: drivers_moves)

interpretation settings: daemon_preorder settings_kept
proof (unfold_locales)
  show "settings_kept d (answer_queue_op c oid d)" for c oid d
    by (simp add: settings_kept_def answer_queue_op_def reply_def)
qed (auto simp: settings_kept_def)

section \<open>Runs of the daemon\<close>

definition idle_player :: "player \<Rightarrow> bool" where
  "idle_player p \<longleftrightarrow> pl_effects p = [] \<and> \<not> pl_thread p \<and> \<not> pl_receiving p \<and> \<not> pl_stop_tx p \<and> \<not> pl_cmd_tx p"

definition daemon_start :: "mint_id \<Rightarrow> (queue_state \<times> queue_lineage) option \<Rightarrow> daemon \<Rightarrow> daemon" where
  "daemon_start m loaded d = start_queue_enrichment (initialize_queue m loaded d)"

definition publish_swap :: "string \<Rightarrow> daemon \<Rightarrow> daemon" where
  "publish_swap token d = d\<lparr>dm_clients := (dm_clients d)\<lparr>rg_pending_swap := Some token\<rparr>\<rparr>"

definition clear_swap :: "daemon \<Rightarrow> daemon" where
  "clear_swap d = d\<lparr>dm_clients := (dm_clients d)\<lparr>rg_pending_swap := None\<rparr>\<rparr>"

text \<open>A connection's writer ends, and so does its end of the channel.\<close>

definition writer_ended :: "client_id \<Rightarrow> daemon \<Rightarrow> daemon" where
  "writer_ended c d =
     d\<lparr>dm_clients := (dm_clients d)\<lparr>rg_connection :=
         map (\<lambda>k. if cl_id k = c then k\<lparr>cl_open := False\<rparr> else k) (rg_connection (dm_clients d))\<rparr>\<rparr>"

definition run_side :: "(player \<Rightarrow> player) \<Rightarrow> bool" where
  "run_side f \<longleftrightarrow> f = run_loop_returned \<or> f = run_thread_ended \<or> (\<exists>g. f = pl_update_status g)"

fun room_for :: "daemon_event \<Rightarrow> daemon \<Rightarrow> bool" where
  "room_for (De_Abs_Refreshed _ _ _) d = mint_room (length (pq_slots (dm_queue d))) d"
| "room_for _ d = True"

text \<open>
  The number counts the tokens the Pin swap machine published. The thread that broadcasts the status
  moves the registry like a handler.
\<close>

inductive daemon_reach :: "nat \<Rightarrow> daemon \<Rightarrow> bool" where
  start: "dm_clients d = new_registry \<Longrightarrow> idle_player (dm_player d) \<Longrightarrow> daemon_reach 0 (daemon_start m loaded d)"
| event: "daemon_reach n d \<Longrightarrow> calm ev \<Longrightarrow> room_for ev d
    \<Longrightarrow> handle_event sr ev d = Some (Flow_Continue, d') \<Longrightarrow> daemon_reach n d'"
| quiet: "daemon_reach n d \<Longrightarrow> daemon_reach n (on_recv_timeout now d)"
| connection: "daemon_reach n d \<Longrightarrow> daemon_reach n (snd (open_session pid credential transport line d))"
| status: "daemon_reach n d \<Longrightarrow> registry_moves (dm_clients d) rg \<Longrightarrow> daemon_reach n (d\<lparr>dm_clients := rg\<rparr>)"
| writer: "daemon_reach n d \<Longrightarrow> daemon_reach n (writer_ended c d)"
| swap: "daemon_reach n d \<Longrightarrow> daemon_reach (Suc n) (publish_swap token d)"
| no_swap: "daemon_reach n d \<Longrightarrow> daemon_reach n (clear_swap d)"
| run: "daemon_reach n d \<Longrightarrow> run_side f \<Longrightarrow> daemon_reach n (d\<lparr>dm_player := f (dm_player d)\<rparr>)"

subsection \<open>The snapshot\<close>

lemma coherent_outcome: "Some r = Some (out, e) \<Longrightarrow> coherent (snd r) \<Longrightarrow> coherent e"
  by auto

lemma coherent_react:
  assumes "coherent d" "room_for ev d" "react sr ev d = Some (out, d')" shows "coherent d'"
proof (cases ev)
  case (De_Ctrl cmd c)
  with assms show ?thesis
    by (auto simp: react_def handle_ctrl_event_def intro: coherent_ctrl split: if_splits)
next
  case (De_Resolved i ticks src c req gen fetched)
  with assms coherent_resolved [OF assms(1)] show ?thesis by (auto simp: react_def)
next
  case (De_Disconnected c)
  with assms show ?thesis by (auto simp: react_def handle_ctrl_disconnected_def)
next
  case (De_Abs_Refreshed g eps books)
  with assms(2) have room: "mint_room (length (pq_slots (dm_queue d))) d" by simp
  show ?thesis using assms(3) unfolding De_Abs_Refreshed react_def daemon_event.case
    by (rule coherent_outcome) (rule coherent_abs_refresh [OF assms(1) room])
next
  case (De_Player pe)
  show ?thesis using assms(3) unfolding De_Player react_def daemon_event.case
    by (rule coherent_outcome) (rule coherent_observation [OF assms(1)])
next
  case (De_Transport t)
  show ?thesis using assms(3) unfolding De_Transport react_def daemon_event.case
    by (rule coherent_outcome) (rule coherent_transport [OF assms(1)])
next
  case (De_Ws g e)
  show ?thesis using assms(3) unfolding De_Ws react_def daemon_event.case
    by (rule coherent_outcome) (rule coherent_ws_event [OF assms(1)])
next
  case (De_Queue_Enriched items)
  show ?thesis using assms(3) unfolding De_Queue_Enriched react_def daemon_event.case
    by (rule coherent_outcome) (rule coherent_enriched [OF assms(1)])
next
  case (De_Abs_Progress u)
  show ?thesis using assms(3) unfolding De_Abs_Progress react_def daemon_event.case
    by (rule coherent_outcome) (rule coherent_abs_progress(1) [OF assms(1)])
next
  case (De_Abs_Book_Progress u)
  show ?thesis using assms(3) unfolding De_Abs_Book_Progress react_def daemon_event.case
    by (rule coherent_outcome) (rule coherent_abs_progress(2) [OF assms(1)])
next
  case De_Shutdown
  show ?thesis using assms(3) unfolding De_Shutdown react_def daemon_event.case
    by (rule coherent_outcome) (simp add: assms(1))
next
  case De_Last_Client_Gone
  show ?thesis using assms(3) unfolding De_Last_Client_Gone react_def daemon_event.case
    by (rule coherent_outcome) (simp add: assms(1))
qed (use assms in \<open>auto simp: react_def\<close>)

lemma coherent_event:
  assumes "coherent d" "room_for ev d" "handle_event sr ev d = Some (fl, d')" shows "coherent d'"
  using assms coherent_react [OF assms(1,2)] by (auto simp: handle_event_def)

lemma coherent_idle: "coherent d \<Longrightarrow> coherent (on_recv_timeout now d)"
  by (auto simp: on_recv_timeout_def split_beta Let_def intro!: coherent_expire split: option.split)

lemma coherent_session [simp]: "coherent (snd (open_session pid cred tr line d)) = coherent d"
  by (auto simp: open_session_def split_beta Let_def split: option.split admission.split)

lemma coherent_initialize: "coherent (initialize_queue m loaded d)"
  by (simp add: initialize_queue_def coherent_def published_def seen_def dm_queue_def owner_new_def
      split_beta Let_def)

lemma coherent_start: "coherent (daemon_start m loaded d)"
  by (simp add: daemon_start_def coherent_initialize)

lemma coherent_reach: "daemon_reach n d \<Longrightarrow> coherent d"
  by (induction rule: daemon_reach.induct)
    (auto intro: coherent_start coherent_event coherent_idle simp: publish_swap_def clear_swap_def writer_ended_def)

subsection \<open>The runs and the drivers\<close>

lemma player_ok_reach: "daemon_reach n d \<Longrightarrow> player_ok (dm_player d)"
proof (induction rule: daemon_reach.induct)
  case (start d m loaded)
  have "player_ok (dm_player d)" using start by (simp add: player_ok_def idle_player_def read_log_def)
  then have "player_ok (dm_player (initialize_queue m loaded d))"
    by (simp add: initialize_queue_def set_initial_queue_def add_job_def split_beta Let_def)
  moreover have "runs_kept (initialize_queue m loaded d) (daemon_start m loaded d)"
    unfolding daemon_start_def
    by (rule daemon_frame.enrichment_R [OF runs.frame runs.same_P])
  ultimately show ?case by (simp add: runs_kept_def)
next
  case (event n d ev sr d')
  then show ?case using runs.event_P by (simp add: runs_kept_def)
next
  case (quiet n d now)
  then show ?case using runs.idle_P by (simp add: runs_kept_def)
next
  case (connection n d pid credential transport line)
  then show ?case
    by (simp add: open_session_def split_beta Let_def split: option.split admission.split)
next
  case (run n d f)
  then show ?case
    by (auto simp: run_side_def run_loop_returned_def run_thread_ended_def) (simp add: player_ok_def)
qed (simp_all add: publish_swap_def clear_swap_def writer_ended_def)

text \<open>What a start, a connection and the swap machine do to the number of drivers.\<close>

definition doors_ok :: "nat \<Rightarrow> daemon \<Rightarrow> bool" where
  "doors_ok n d \<longleftrightarrow>
     (let p = (if rg_pending_swap (dm_clients d) = None then 0 else 1) in
      p \<le> n \<and> (dm_role d = Daemon_Local \<and> \<not> dm_stay_alive d \<longrightarrow> drivers (dm_clients d) + p \<le> 1 + n))"

lemma has_driver_iff [simp]: "has_driver rg \<longleftrightarrow> drivers rg \<noteq> 0"
  by (auto simp: has_driver_def drivers_def filter_empty_conv)

lemma drivers_connect [simp]:
  "drivers (snd (connect_with_role t p b caps surf role rg)) = drivers rg + (if role = Role_Client then 1 else 0)"
  "rg_pending_swap (snd (connect_with_role t p b caps surf role rg)) = rg_pending_swap rg"
  by (simp_all add: connect_with_role_def refresh_attached_clients_def Let_def drivers_def)

lemma admission_doors:
  assumes "send_admission_refusal pid role tr alive crole token rg = (out, rg')"
  shows "drivers rg' = drivers rg
    \<and> (case out of
         Adm_Refused r \<Rightarrow> rg' = rg
       | Adm_Admitted \<Rightarrow> rg' = rg \<and> (role = Daemon_Local \<and> \<not> alive \<and> crole = Role_Client \<longrightarrow> drivers rg = 0)
       | Adm_Replacement t \<Rightarrow> rg_pending_swap rg = Some t \<and> rg_pending_swap rg' = None)"
proof (cases "tr = Transport_Local \<and> crole = Role_Client \<and> token \<noteq> None \<and> rg_pending_swap rg = token")
  case True
  with assms show ?thesis
    by (auto simp: send_admission_refusal_def take_matching_def drivers_def split: if_splits)
next
  case False
  then have "(if tr = Transport_Local \<and> crole = Role_Client then take_matching token rg else (False, rg)) = (False, rg)"
    by (auto simp: take_matching_def)
  with assms show ?thesis by (auto simp: send_admission_refusal_def Let_def split: if_splits)
qed

lemma doors_session:
  assumes "doors_ok n d" shows "doors_ok n (snd (open_session pid cred tr line d))"
proof (cases "ctrl_client_capabilities cred line")
  case None
  with assms show ?thesis by (simp add: open_session_def)
next
  case (Some h)
  obtain out rg where adm: "send_admission_refusal pid (dm_role d) tr (dm_role d \<noteq> Daemon_Local \<or> dm_stay_alive d)
      (hk_role h) (hk_swap_token h) (dm_clients d) = (out, rg)" by fastforce
  have opened: "snd (open_session pid cred tr line d)
      = (if owner_action_refused_over_tcp tr (hk_role h) then d
         else case out of
           Adm_Refused r \<Rightarrow> d\<lparr>dm_clients := rg\<rparr>
         | _ \<Rightarrow> (let c = connect_with_role tr (hk_abs_progress h) (hk_abs_book_progress h) (hk_capabilities h)
                        (hk_swap_surface h) (hk_role h) rg
                in d\<lparr>dm_clients := reply_to (fst c) (Ce_Queue_State (initial_queue_state d h)) (snd c)\<rparr>))"
    unfolding open_session_def Some option.case Let_def adm prod.case
    by (cases out) (simp_all add: split_beta)
  from admission_doors [OF adm] assms show ?thesis unfolding opened
    by (auto simp: doors_ok_def Let_def drivers_def [of "reply_to c e r" for c e r] drivers_def [symmetric]
        split: admission.split)
qed

lemma doors_kept:
  assumes "doors_ok n d" "drivers_kept d e" "settings_kept d e" shows "doors_ok n e"
  using assms by (auto simp: doors_ok_def drivers_kept_def settings_kept_def Let_def)

lemma writer_ended_fields:
  "drivers (dm_clients (writer_ended c d)) = drivers (dm_clients d)"
  "rg_pending_swap (dm_clients (writer_ended c d)) = rg_pending_swap (dm_clients d)"
  "dm_role (writer_ended c d) = dm_role d" "dm_stay_alive (writer_ended c d) = dm_stay_alive d"
proof -
  have "length (filter (\<lambda>k. cl_role k = Role_Client) (map (\<lambda>k. if cl_id k = c then k\<lparr>cl_open := False\<rparr> else k) ks))
      = length (filter (\<lambda>k. cl_role k = Role_Client) ks)" for ks :: "ctrl_client list"
    by (induction ks) simp_all
  then show "drivers (dm_clients (writer_ended c d)) = drivers (dm_clients d)"
    by (simp add: writer_ended_def drivers_def filter_map)
qed (simp_all add: writer_ended_def)

lemma doors_ok_reach: "daemon_reach n d \<Longrightarrow> doors_ok n d"
proof (induction rule: daemon_reach.induct)
  case (start d m loaded)
  have "doors_ok 0 (initialize_queue m loaded d)"
    using start by (simp add: doors_ok_def initialize_queue_def new_registry_def drivers_def add_job_def
        split_beta Let_def)
  then show ?case unfolding daemon_start_def
    by (rule doors_kept) (rule daemon_frame.enrichment_R [OF doors.frame doors.same_P]
        daemon_frame.enrichment_R [OF settings.frame settings.same_P])+
next
  case (event n d ev sr d')
  then show ?case using doors_kept doors.event_P settings.event_P by blast
next
  case (quiet n d now)
  then show ?case using doors_kept doors.idle_P settings.idle_P by blast
next
  case (connection n d pid credential transport line)
  then show ?case by (simp add: doors_session)
next
  case (status n d rg)
  then show ?case using drivers_moves [OF status.hyps(2)] by (auto simp: doors_ok_def Let_def)
next
  case (writer n d c)
  then show ?case by (simp add: doors_ok_def writer_ended_fields)
qed (auto simp: doors_ok_def publish_swap_def clear_swap_def drivers_def Let_def split: if_splits)

subsection \<open>Properties\<close>


text \<open>
  C6. There is one playback run at a time. In the log of a player the daemon drives, whatever
  clients, sockets and runs do: between the starts of two runs the first was told to stop and was
  waited for; and a submission that is sent goes to the run that was started last, which has been
  neither told to stop nor waited for.
\<close>

theorem one_run_at_a_time:
  assumes "daemon_reach n d"
  shows "(\<forall>xs s ys s' zs. pl_effects (dm_player d) = xs @ s # ys @ s' # zs
        \<and> (\<exists>a b c g o' h. s = Run_Started a b c g o' h) \<and> (\<exists>a b c g o' h. s' = Run_Started a b c g o' h)
        \<longrightarrow> Run_Told_To_Stop \<in> set ys \<and> Run_Joined \<in> set ys)
    \<and> (\<forall>xs items i secs zs.
        pl_effects (dm_player d) = xs @ Run_Sent (Msg_Run (Cmd_Submit_Queue items i secs)) # zs \<and> items \<noteq> []
        \<longrightarrow> filter lifecycle xs \<noteq> []
          \<and> (\<exists>a b c g o' h. last (filter lifecycle xs) = Run_Started a b c g o' h))"
proof -
  have "read_log (pl_effects (dm_player d)) \<noteq> None"
    using player_ok_reach [OF assms] by (simp add: player_ok_def)
  then show ?thesis using runs_in_turn submission_to_live_run by (intro conjI allI impI) (metis, metis, metis, metis)
qed


end
