(* ===== verification/Daemon_Answers.thy ===== *)
theory Daemon_Answers
  imports Daemon_Steps
begin

text \<open>
  Answers to queue operations. A client that numbers its operation waits for the answer with that
  number. The theory shows, with the relation of the handlers, that every numbered operation is
  answered once, to the client that asked, and that nothing else is.
\<close>

section \<open>Answers in the log\<close>

definition op_answers :: "daemon \<Rightarrow> (client_id \<times> ctrl_event) list" where
  "op_answers d = filter (\<lambda>(c, e). \<not> ordinary e) (rg_sent (dm_clients d))"

text \<open>Either nothing of the kind happened, or the pending operation was answered and is done with.\<close>

definition answered_by :: "client_id \<Rightarrow> daemon \<Rightarrow> daemon \<Rightarrow> bool" where
  "answered_by c d e \<longleftrightarrow>
     op_answers e = op_answers d \<and> dm_op e = dm_op d
     \<or> (\<exists>oid out. dm_op d = Some oid \<and> dm_op e = None
          \<and> op_answers e = op_answers d @ [(c, Ce_Op_Result oid out)])"

lemma moves_answers:
  "registry_moves r s \<Longrightarrow> filter (\<lambda>(c, e). \<not> ordinary e) (rg_sent s) = filter (\<lambda>(c, e). \<not> ordinary e) (rg_sent r)"
proof (induction rule: registry_moves.induct)
  case (broadcast r s event wants)
  have "filter (\<lambda>(c, e). \<not> ordinary e) (map (\<lambda>c. (cl_id c, event c)) ks) = []" for ks
    using broadcast by (induction ks) auto
  with broadcast show ?case
    by (simp add: broadcast_where_def retain_clients_def notify_last_client_gone_def
        refresh_attached_clients_def Let_def)
next
  case (remove r s c)
  then show ?case
    by (simp add: remove_client_def retain_clients_def notify_last_client_gone_def
        refresh_attached_clients_def Let_def)
next
  case (disconnected r s reason)
  have "filter (\<lambda>(c, e). \<not> ordinary e) (map (\<lambda>c. (cl_id c, Ce_Disconnected reason)) ks) = []" for ks
    by (induction ks) auto
  with disconnected show ?case by (simp add: notify_disconnected_all_def)
qed (auto simp: reply_to_def send_to_client_def begin_shutdown_def split: option.split)

lemma answered_reject: "answered_by c d (reject_command c l r d)"
  by (auto simp: answered_by_def op_answers_def reject_command_def reply_def reply_to_def split: option.split)

interpretation answering: daemon_frame "answered_by c" c for c
proof (unfold_locales)
  show "answered_by c d f" if "answered_by c d e" "answered_by c e f" for d e f
    using that by (auto simp: answered_by_def)
  show "answered_by c d (reject_command c l r d)" for d l r by (rule answered_reject)
qed (auto simp: answered_by_def op_answers_def dest: moves_answers)

section \<open>Properties\<close>

lemma answers_set_op [simp]: "op_answers (d\<lparr>dm_op := x\<rparr>) = op_answers d" "dm_op (d\<lparr>dm_op := x\<rparr>) = x"
  by (simp_all add: op_answers_def)

lemma answered_finish:
  assumes "answered_by c (d\<lparr>dm_op := Some oid\<rparr>) e"
  shows "dm_op (finish_op c e) = None
    \<and> (\<exists>out. op_answers (finish_op c e) = op_answers d @ [(c, Ce_Op_Result oid out)])"
  using assms
  by (auto simp: answered_by_def finish_op_def answer_queue_op_def reply_def reply_to_def op_answers_def)

lemma quiet_finish:
  assumes "answered_by c (d\<lparr>dm_op := None\<rparr>) e"
  shows "dm_op (finish_op c e) = None \<and> op_answers (finish_op c e) = op_answers d"
  using assms by (auto simp: answered_by_def finish_op_def)

text \<open>
  C7. A numbered queue operation is answered exactly once, with its number, to the client that asked:
  applied with the resulting queue, or rejected with the reason. A command without a number is
  answered by no such message, and no other client ever receives one because of it. This covers
  every command, both roles and every way a handler can end.
\<close>

theorem queue_op_answered_once:
  assumes "handle_ctrl_for_role now draw c cmd d = Some d'"
  shows "dm_op d' = None
    \<and> (case queue_op_id cmd of
         None \<Rightarrow> op_answers d' = op_answers d
       | Some oid \<Rightarrow> \<exists>out. op_answers d' = op_answers d @ [(c, Ce_Op_Result oid out)])"
proof -
  let ?d1 = "d\<lparr>dm_op := queue_op_id cmd\<rparr>"
  let ?p = "if cmd = Cc_Request_Shutdown then prepare_shutdown c ?d1 else (True, ?d1)"
  have finished: ?thesis if "answered_by c ?d1 e" "d' = finish_op c e" for e
    using that answered_finish [where c = c and d = d and e = e] quiet_finish [of c d e] by (cases "queue_op_id cmd") auto
  have no_op: "finish_op c e = e" if "dm_op e = None" for e using that by (simp add: finish_op_def)
  show ?thesis
  proof (cases "role_gate cmd (dm_role d)")
    case (Some r)
    with assms have "d' = reject_command c (dm_sh_lineage d) (role_gate_reason r) ?d1"
      by (simp add: handle_ctrl_for_role_def Let_def)
    moreover have "dm_op (reject_command c l m ?d1) = None" for l m
      by (auto simp: reject_command_def reply_def split: option.split)
    ultimately show ?thesis by (intro finished [OF answered_reject]) (simp add: no_op)
  next
    case None
    have prep: "answered_by c ?d1 (snd ?p)"
      using answering.prepare_shutdown_R [OF answering.same] answering.same
      by (cases "cmd = Cc_Request_Shutdown") (simp_all del: queue_op_id.simps)
    show ?thesis
    proof (cases "fst ?p")
      case False
      then have cmd: "cmd = Cc_Request_Shutdown" by (simp split: if_splits)
      with None assms False have "d' = snd (prepare_shutdown c ?d1)"
        by (simp add: handle_ctrl_for_role_def Let_def split_beta)
      moreover have "dm_op (snd (prepare_shutdown c ?d1)) = None"
        by (simp add: cmd prepare_shutdown_def reply_def add_job_def Let_def split: option.split)
      ultimately have "answered_by c ?d1 d'" "d' = finish_op c d'" using prep cmd no_op [of d'] by simp_all
      then show ?thesis by (rule finished)
    next
      case True
      with None assms obtain e where e: "dispatch_ctrl_command now draw c (dm_sh_lineage d) cmd (snd ?p) = Some e"
        and d': "d' = finish_op c e"
        unfolding handle_ctrl_for_role_def Let_def split_beta
        by (auto simp del: dispatch_ctrl_command.simps queue_op_id.simps split: if_splits)
      show ?thesis by (rule finished [OF answering.command_R [OF prep e] d'])
    qed
  qed
qed

end
