(* ===== verification/Daemon_Types.thy ===== *)
theory Daemon_Types
  imports Daemon_Steps
begin

text \<open>
  The type of the daemon's core and its safety: a core whose queue is well formed and whose
  transitions are in order handles every event that carries well-formed data without a panic, and
  is well formed afterwards.
\<close>

section \<open>Well-formed cores and events\<close>

definition tr_ok :: "owner_transitions \<Rightarrow> bool" where
  "tr_ok t \<longleftrightarrow> (in_flight t = None \<longrightarrow> queued_latest t = None)"

definition core_ok :: "owner_state \<Rightarrow> bool" where
  "core_ok ow \<longleftrightarrow> pq_inv (ow_queue ow) \<and> tr_ok (ow_transitions ow)"

text \<open>
  A replacement names its slots by distinct identities below the largest one; a list that gets its
  identities here must leave the allocator some.
\<close>

definition fits :: "'a list \<Rightarrow> bool" where
  "fits xs \<longleftrightarrow> length xs + 1 < 2 ^ 64"

fun ctrl_fits :: "ctrl_cmd \<Rightarrow> daemon \<Rightarrow> bool" where
  "ctrl_fits (Cc_Replace items slots _ _ _ _) d =
     (if slots = [] then fits items
      else distinct (map us_slot_id slots) \<and> - 1 \<notin> us_slot_id ` set slots)"
| "ctrl_fits (Cc_Append items _ _) d = pq_room (length items) (dm_queue d)"
| "ctrl_fits (Cc_Adopt items _ _) d = fits items"
| "ctrl_fits _ d = True"

fun event_fits :: "surroundings \<Rightarrow> daemon_event \<Rightarrow> daemon \<Rightarrow> bool" where
  "event_fits sr (De_Ctrl cmd c) d = ctrl_fits cmd d"
| "event_fits sr (De_Resolved _ _ _ _ _ _ fetched) d =
     (case fetched of None \<Rightarrow> True | Some items \<Rightarrow> fits items)"
| "event_fits sr (De_Ws _ (Ws_Play ids _ _ _)) d =
     (case sr_fetch sr ids of None \<Rightarrow> True | Some items \<Rightarrow> fits items)"
| "event_fits sr _ d = True"

section \<open>What leaves the core alone\<close>

lemma core_updates [simp]:
  "dm_core (reply c e d) = dm_core d" "dm_core (send_client c e d) = dm_core d"
  "dm_core (broadcast e d) = dm_core d" "dm_core (broadcast_queue_state x d) = dm_core d"
  "dm_core (publish_observed d) = dm_core d" "dm_core (add_job j d) = dm_core d"
  "dm_core (snd (player_op f d)) = dm_core d" "dm_core (snd (send_run m d)) = dm_core d"
  "dm_core (tell_run m d) = dm_core d" "dm_core (stop_output d) = dm_core d"
  by (simp_all add: reply_def send_client_def broadcast_def broadcast_queue_state_def publish_observed_def
      add_job_def player_op_def send_run_def tell_run_def stop_output_def split_beta Let_def)

lemma core_lists [simp]: "dm_core (tell_run_all ms d) = dm_core d" "dm_core (reply_all c es d) = dm_core d"
proof -
  show "dm_core (tell_run_all ms d) = dm_core d" unfolding tell_run_all_def
    by (induction ms arbitrary: d) simp_all
  show "dm_core (reply_all c es d) = dm_core d" unfolding reply_all_def
    by (induction es arbitrary: d) simp_all
qed

lemma core_answers [simp]:
  "dm_core (reject_command c l r d) = dm_core d" "dm_core (answer_queue_op c oid d) = dm_core d"
  "dm_core (finish_op c d) = dm_core d" "dm_core (answer_intent f c d) = dm_core d"
  "dm_core (answer_current_if w d) = dm_core d" "dm_core (reply_pipe_status n c d) = dm_core d"
  "dm_core (send_pipe_status n c d) = dm_core d" "dm_core (start_queue_enrichment d) = dm_core d"
  "dm_core (persist_if_dirty b d) = dm_core d" "dm_core (empty_player d) = dm_core d"
  "dm_core (snd (submit_queue_slots_for_replace ss i s d)) = dm_core d"
  "dm_core (play_fetched fs i t d) = dm_core d" "dm_core (snd (prepare_shutdown c d)) = dm_core d"
  "dm_core (settle_player_event_intent pe d) = dm_core d"
  by (auto simp: reject_command_def answer_queue_op_def finish_op_def answer_intent_def answer_current_if_def
      reply_pipe_status_def send_pipe_status_def start_queue_enrichment_def persist_if_dirty_def
      empty_player_def submit_queue_slots_for_replace_def play_fetched_def prepare_shutdown_def
      settle_player_event_intent_def Let_def split_beta split: option.split player_event.split)

lemma core_lineage: "mint_queue_lineage d = Some e \<Longrightarrow> dm_core e = dm_core d"
  by (auto simp: mint_queue_lineage_def split: if_splits)

section \<open>Operations on the core\<close>

lemma core_transitions: "core_ok (dm_core d) \<Longrightarrow> tr_ok t \<Longrightarrow> core_ok (dm_core (set_transitions t d))"
  by (simp add: core_ok_def set_transitions_def)

lemma core_source [simp]: "core_ok (dm_core (set_source src d)) = core_ok (dm_core d)"
  by (simp add: core_ok_def set_source_def)

lemma core_queue_op:
  assumes "core_ok (dm_core d)" "\<And>h. pq_inv (dm_queue d) \<Longrightarrow> pq_inv (fst (snd (f (dm_queue d) h)))"
  shows "core_ok (dm_core (snd (queue_op f d)))"
  using assms by (simp add: core_ok_def queue_op_def set_queue_def dm_queue_def split_beta Let_def)

lemma core_owner_op:
  assumes "core_ok (dm_core d)" "\<And>h. core_ok (dm_core d) \<Longrightarrow> core_ok (fst (snd (f (dm_core d) h)))"
  shows "core_ok (dm_core (snd (owner_op f d)))"
  using assms by (simp add: owner_op_def split_beta Let_def)

lemma note_observed_ok: "core_ok ow \<Longrightarrow> core_ok (fst (note_observed_active_slot v ow h))"
  using set_active_slot_inv [of "ow_queue ow"]
  by (auto simp: core_ok_def note_observed_active_slot_def split_beta Let_def split: option.split)

lemma core_note_observed: "core_ok (dm_core d) \<Longrightarrow> core_ok (dm_core (note_observed v d))"
  unfolding note_observed_def by (rule core_owner_op) (simp_all add: note_observed_ok)

lemma tr_ok_steps [simp]:
  "tr_ok (reset_transitions t)" "tr_ok t \<Longrightarrow> tr_ok (snd (accept x t))" "tr_ok t \<Longrightarrow> tr_ok (snd (settle r k t))"
  "tr_ok t \<Longrightarrow> tr_ok (snd (expire now t))" "tr_ok t \<Longrightarrow> tr_ok (snd (mint_local_id t))"
  by (auto simp: tr_ok_def tr_ops Let_def split: option.split)

lemma tr_ok_core: "core_ok (dm_core d) \<Longrightarrow> tr_ok (dm_transitions d)"
  by (simp add: core_ok_def dm_transitions_def)

lemma inv_core: "core_ok (dm_core d) \<Longrightarrow> pq_inv (dm_queue d)"
  by (simp add: core_ok_def dm_queue_def)

lemma core_reset: "core_ok (dm_core d) \<Longrightarrow> core_ok (dm_core (reset_slot_jumps d))"
  by (simp add: reset_slot_jumps_def core_transitions)

lemmas core_steps = core_note_observed core_reset core_transitions tr_ok_steps tr_ok_core

section \<open>Slot jumps\<close>

lemma core_cold_start: "core_ok (dm_core d) \<Longrightarrow> core_ok (dm_core (snd (cold_start_at_slot sid d)))"
  by (auto simp: cold_start_at_slot_def split_beta Let_def
      intro!: core_note_observed core_queue_op set_active_slot_inv split: option.split)

lemma core_send_jump: "core_ok (dm_core d) \<Longrightarrow> core_ok (dm_core (snd (send_jump_or_cold_start t d)))"
  by (auto simp: send_jump_or_cold_start_def split_beta Let_def intro!: core_cold_start core_reset)

lemma core_dispatch: "core_ok (dm_core d) \<Longrightarrow> core_ok (dm_core (dispatch_slot_jump org t x d))"
  by (auto simp: dispatch_slot_jump_def split_beta Let_def intro!: core_send_jump core_steps
      split: dispatch_decision.split option.split)

lemma core_promoted: "core_ok (dm_core d) \<Longrightarrow> core_ok (dm_core (dispatch_promoted t d))"
  by (auto simp: dispatch_promoted_def take_promoted_origin_def Let_def intro!: core_send_jump split: option.split)

lemma core_settle: "core_ok (dm_core d) \<Longrightarrow> core_ok (dm_core (settle_and_redispatch req sid d))"
  using tr_ok_steps(3) [OF tr_ok_core, of d req sid]
  by (auto simp: settle_and_redispatch_def intro!: core_promoted core_transitions
      split: prod.split settle_outcome.split)

lemma core_expire: "core_ok (dm_core d) \<Longrightarrow> core_ok (dm_core (expire_and_redispatch now d))"
  using tr_ok_steps(4) [OF tr_ok_core, of d now]
  by (auto simp: expire_and_redispatch_def Let_def intro!: core_promoted core_transitions
      split: prod.split expire_outcome.split option.split)

lemma core_step: "core_ok (dm_core d) \<Longrightarrow> core_ok (dm_core (snd (dispatch_relative_step dir d)))"
  by (auto simp: dispatch_relative_step_def dispatch_step_target_def split_beta Let_def
      intro!: core_dispatch core_steps split: step_target.split)

section \<open>Control commands\<close>

lemma fits_Nil [simp]: "fits []"
  by (simp add: fits_def)

lemma fits_filter: "fits xs \<Longrightarrow> fits (filter P xs)"
  unfolding fits_def by (rule le_less_trans [OF add_right_mono [OF length_filter_le]])

lemma core_install: "core_ok (dm_core d) \<Longrightarrow> fits its \<Longrightarrow> core_ok (dm_core (install_items its cur src d))"
  unfolding install_items_def fits_def
  by (simp only: core_source, rule core_queue_op) (simp_all add: from_queue_items_inv)

lemma core_adopt:
  assumes "core_ok (dm_core d)" "fits its" "handle_adopt_queue c l its cur src d = Some e"
  shows "core_ok (dm_core e)"
  using assms
  by (auto simp: handle_adopt_queue_def admit_queue_items_def admit_queue_def split_beta Let_def
      dest!: core_lineage intro!: core_install fits_filter core_reset split: if_splits option.splits)

lemma core_source_update: "core_ok (dm_core d) \<Longrightarrow> core_ok (dm_core (handle_queue_source_update c l src cl d))"
  by (simp add: handle_queue_source_update_def)

lemma unat_small: "k < 2 ^ 64 \<Longrightarrow> unat (of_nat k :: u64) = k"
  by (simp add: unat_of_nat)

lemma numbered_ids: "map fst (submitted_slots items []) = map (\<lambda>i. of_nat (i + 1)) [0..<length items]"
proof -
  have "map fst (map (\<lambda>(i, it). (of_nat (i + 1) :: u64, it)) ps) = map (\<lambda>i. of_nat (i + 1)) (map fst ps)"
    for ps :: "(nat \<times> queue_item) list" by (simp add: comp_def split_beta)
  from this [of "enumerate 0 items"] show ?thesis
    by (simp only: submitted_slots_def simp_thms if_True map_fst_enumerate add_0)
qed

lemma numbered_fit:
  assumes "fits items"
  shows "distinct (map fst (submitted_slots items [])) \<and> - 1 \<notin> fst ` set (submitted_slots items [])"
proof -
  have small: "unat (of_nat (i + 1) :: u64) = i + 1" "i + 1 < 2 ^ 64 - 1" if "i < length items" for i
    using assms that unat_small [of "i + 1"] by (simp_all add: fits_def)
  have "inj_on (\<lambda>i. of_nat (i + 1) :: u64) (set [0..<length items])"
    by (rule inj_onI) (metis add_right_cancel atLeastLessThan_iff set_upt small(1))
  moreover have "(of_nat (i + 1) :: u64) \<noteq> - 1" if "i < length items" for i
  proof
    assume "(of_nat (i + 1) :: u64) = - 1"
    then have "unat (of_nat (i + 1) :: u64) = unat (- 1 :: u64)" by (rule arg_cong)
    also have "\<dots> = 2 ^ 64 - 1" by (simp add: unsigned_minus_1_eq_mask mask_eq_exp_minus_1)
    finally show False using small [OF that] by (simp only: less_irrefl)
  qed
  then have "- 1 \<notin> (\<lambda>i. of_nat (i + 1) :: u64) ` set [0..<length items]"
    by (metis (no_types, lifting) atLeastLessThan_iff image_iff set_upt)
  moreover have "fst ` set (submitted_slots items []) = (\<lambda>i. of_nat (i + 1)) ` set [0..<length items]"
    using arg_cong [OF numbered_ids [of items], of set] by (simp only: set_map)
  ultimately show ?thesis unfolding numbered_ids by (simp only: distinct_map distinct_upt simp_thms)
qed

lemma admit_slots_fit:
  assumes "distinct (map fst ps)" "- 1 \<notin> fst ` set ps"
  shows "distinct (map fst (fst (admit_queue_slots ps cur a b c)))
    \<and> - 1 \<notin> fst ` set (fst (admit_queue_slots ps cur a b c))"
  using assms by (auto simp: admit_queue_slots_def admit_queue_def Let_def distinct_map_filter)

lemma replacement_fits:
  assumes "ctrl_fits (Cc_Replace items slots start src secs oid) d"
    and "prepare_replacement_slots c items slots start d = Inr (adm, cur)"
  shows "distinct (map fst adm) \<and> - 1 \<notin> fst ` set adm"
proof -
  let ?ps = "submitted_slots items slots"
  have "distinct (map fst ?ps) \<and> - 1 \<notin> fst ` set ?ps"
  proof (cases "slots = []")
    case True
    with assms(1) numbered_fit [of items] show ?thesis by simp
  next
    case False
    then have "map fst ?ps = map us_slot_id slots" by (simp add: submitted_slots_def)
    moreover have "fst ` set ?ps = set (map fst ?ps)" by simp
    ultimately show ?thesis using assms(1) False by simp
  qed
  moreover have "adm = fst (admit_queue_slots ?ps start (dm_audio_only d) (dm_has_emby d) (has_abs d))"
    using assms(2) by (auto simp: prepare_replacement_slots_def split_beta Let_def split: option.splits if_splits)
  ultimately show ?thesis using admit_slots_fit by blast
qed

lemma core_replace:
  assumes "core_ok (dm_core d)" "ctrl_fits (Cc_Replace items slots start src secs oid) d"
    and "handle_queue_replace c l items slots start secs src d = Some e"
  shows "core_ok (dm_core e)"
proof -
  have "core_ok (dm_core k)" if "prepare_replacement_slots c items slots start d = Inr (adm, cur)"
    "install_replaced_queue adm cur src d = Some k" for adm cur k
    using that(2) replacement_fits [OF assms(2) that(1)] assms(1)
    by (auto simp: install_replaced_queue_def Let_def dest!: core_lineage
        intro!: core_reset core_queue_op from_slot_items_inv)
  with assms(1,3) show ?thesis
    by (auto simp: handle_queue_replace_def split_beta Let_def intro!: core_note_observed split: sum.splits)
qed

lemma insert_slot_inv: "pq_inv q \<Longrightarrow> pq_room 1 q \<Longrightarrow> pq_inv (fst (snd (insert_slot i it q h)))"
  using pq_apply_inv [of q "Op_Insert i it" h] by simp

lemma insert_slot_room:
  "pq_room (Suc n) q \<Longrightarrow> pq_room n (fst (snd (insert_slot i it q h)))"
  by (simp add: insert_slot_def allocate_slot_id_def bump_eq Let_def pq_room_sat_inc)

lemma core_insert_all:
  "core_ok (dm_core d) \<Longrightarrow> pq_room (length its) (dm_queue d) \<Longrightarrow> core_ok (dm_core (snd (insert_all i its d)))"
proof (induction its arbitrary: i d)
  case (Cons it its)
  let ?e = "snd (queue_op (insert_slot i it) d)"
  have "pq_room 1 (dm_queue d)" using Cons.prems(2) by (rule pq_room_mono) simp
  then have "core_ok (dm_core ?e)" using Cons.prems(1)
    by (intro core_queue_op insert_slot_inv) simp_all
  moreover have "pq_room (length its) (dm_queue ?e)"
    using insert_slot_room Cons.prems(2)
    by (simp add: queue_op_def set_queue_def dm_queue_def split_beta Let_def)
  ultimately show ?case using Cons.IH by (simp add: split_beta Let_def)
qed simp

lemma core_append:
  assumes "core_ok (dm_core d)" "pq_room (length items) (dm_queue d)"
  shows "core_ok (dm_core (handle_queue_append c l items before d))"
proof -
  have "pq_room (length adm) (dm_queue d)" if "admit_append_items c items d = Inr adm" for adm
    using that assms(2) length_filter_le
    by (auto simp: admit_append_items_def Let_def intro: pq_room_mono split: option.splits if_splits)
  with assms(1) show ?thesis
    by (auto simp: handle_queue_append_def split_beta Let_def intro!: core_insert_all split: option.split sum.split)
qed

lemma core_remove_slot: "core_ok (dm_core d) \<Longrightarrow> core_ok (dm_core (handle_queue_remove_slot c l sid d))"
  by (auto simp: handle_queue_remove_slot_def Let_def
      intro!: core_reset core_queue_op remove_slot_inv remove_active_slot_confirmed_inv)

lemma core_remove_listed: "core_ok (dm_core d) \<Longrightarrow> core_ok (dm_core (snd (remove_listed sids d)))"
proof (induction sids arbitrary: d)
  case (Cons sid sids)
  have "core_ok (dm_core (snd (queue_op (remove_active_slot_confirmed sid) d)))"
    "core_ok (dm_core (snd (queue_op (remove_slot sid) d)))"
    using Cons.prems by (auto intro!: core_queue_op remove_slot_inv remove_active_slot_confirmed_inv)
  with Cons show ?case by (simp add: split_beta Let_def)
qed simp

lemma core_remove_slots: "core_ok (dm_core d) \<Longrightarrow> core_ok (dm_core (handle_queue_remove_slots c sids d))"
  by (auto simp: handle_queue_remove_slots_def split_beta Let_def intro!: core_reset core_remove_listed)

lemma core_shuffle: "core_ok (dm_core d) \<Longrightarrow> core_ok (dm_core (handle_queue_shuffle draw c d))"
  by (auto simp: handle_queue_shuffle_def split_beta Let_def intro!: core_queue_op reorder_slots_inv
      split: queue_mutation_result.split)

lemma core_move_slot: "core_ok (dm_core d) \<Longrightarrow> core_ok (dm_core (handle_queue_move_slot c l sid i d))"
  by (auto simp: handle_queue_move_slot_def intro!: core_queue_op move_slot_inv)

lemma core_play_slot: "core_ok (dm_core d) \<Longrightarrow> core_ok (dm_core (handle_queue_play_slot c l sid d))"
  by (auto simp: handle_queue_play_slot_def split_beta Let_def intro!: core_dispatch core_steps)

lemma core_fold_progress:
  "core_ok (dm_core d) \<Longrightarrow> core_ok (dm_core (fold (\<lambda>sid d. snd (queue_op (apply_progress sid p b) d)) sids d))"
  by (induction sids arbitrary: d) (auto intro!: core_queue_op apply_progress_inv)

lemma core_apply_progress: "core_ok (dm_core d) \<Longrightarrow> core_ok (dm_core (handle_queue_apply_progress c us d))"
proof -
  assume ok: "core_ok (dm_core d)"
  have "core_ok (dm_core (snd (apply_updates us act d)))" for act using ok
    by (induction us arbitrary: d) (simp_all add: split_beta Let_def core_fold_progress)
  then show ?thesis by (simp add: handle_queue_apply_progress_def split_beta Let_def)
qed

lemma core_clear: "core_ok (dm_core d) \<Longrightarrow> handle_queue_clear c d = Some e \<Longrightarrow> core_ok (dm_core e)"
  by (auto simp: handle_queue_clear_def Let_def dest!: core_lineage
      intro!: core_reset core_queue_op clear_slots_inv)

lemma core_intent: "core_ok (dm_core d) \<Longrightarrow> core_ok (dm_core (handle_playback_intent now c i d))"
  by (auto simp: handle_playback_intent_def act_on_intent_def resolve_play_intent_def handle_stop_def
      step_to_neighbor_slot_def split_beta Let_def intro!: core_dispatch core_reset
      split: intent_action.split step_target.split)

lemma core_command:
  assumes "core_ok (dm_core d)" "ctrl_fits cmd d" "dispatch_ctrl_command now draw c l cmd d = Some e"
  shows "core_ok (dm_core e)"
proof (cases cmd)
  case (Cc_Replace items slots start src secs oid)
  with assms core_replace [of d items slots start src secs oid c l e] show ?thesis by simp
next
  case (Cc_Adopt items cursor src)
  with assms core_adopt [of d items c l cursor src e] show ?thesis by simp
qed (use assms in \<open>auto simp: route_player_cmd_def handle_stop_def core_clear
      intro: core_append core_remove_slot core_remove_slots core_shuffle core_move_slot core_play_slot
        core_apply_progress core_intent core_reset core_source_update split: wire_command.splits\<close>)

lemma fits_frame:
  assumes "dm_core d' = dm_core d" shows "ctrl_fits cmd d' = ctrl_fits cmd d"
  using assms by (cases cmd) (simp_all add: dm_queue_def)

lemma core_control:
  assumes "core_ok (dm_core d)" "ctrl_fits cmd d" "handle_ctrl_for_role now draw c cmd d = Some e"
  shows "core_ok (dm_core e)"
proof -
  let ?p = "if cmd = Cc_Request_Shutdown then prepare_shutdown c (d\<lparr>dm_op := queue_op_id cmd\<rparr>)
    else (True, d\<lparr>dm_op := queue_op_id cmd\<rparr>)"
  have p: "dm_core (snd ?p) = dm_core d" by simp
  then have "core_ok (dm_core k)" if "dispatch_ctrl_command now draw c l cmd (snd ?p) = Some k" for k l
    using core_command [OF _ _ that] assms(1,2) fits_frame [OF p] by simp
  with assms(1,3) p show ?thesis unfolding handle_ctrl_for_role_def Let_def split_beta
    by (auto simp del: dispatch_ctrl_command.simps queue_op_id.simps split: option.splits if_splits)
qed

section \<open>The loop\<close>

lemma observe_ok: "core_ok ow \<Longrightarrow> core_ok (fst (snd (observe_track_change sid ow h)))"
  by (auto simp: observe_track_change_def split_beta Let_def note_observed_ok split: option.split)

lemma completion_ok: "core_ok ow \<Longrightarrow> core_ok (fst (apply_completion_progress sid p b ow h))"
  using apply_progress_inv by (auto simp: core_ok_def apply_completion_progress_def split_beta Let_def)

lemma consume_ok: "core_ok ow \<Longrightarrow> core_ok (fst (snd (consume_completed_slot sid a b c ow h)))"
  using consume_slot_inv
  by (auto simp: core_ok_def consume_completed_slot_def split_beta Let_def split: option.split)

lemma core_record: "core_ok (dm_core d) \<Longrightarrow> core_ok (dm_core (snd (record_observation sid obs played d)))"
  by (auto simp: record_observation_def intro!: core_owner_op completion_ok split: option.split)

lemma core_observation:
  assumes "core_ok (dm_core d)" shows "core_ok (dm_core (snd (handle_player_observation now pe d)))"
proof -
  have track: "core_ok (dm_core (snd (handle_track_changed sid tr d)))" for sid tr
  proof -
    have "core_ok (dm_core (snd (owner_op (observe_track_change sid) d)))"
      using assms observe_ok by (intro core_owner_op)
    then show ?thesis
      by (auto simp: handle_track_changed_def split_beta Let_def intro!: core_settle split: option.split prod.split)
  qed
  have stopped: "core_ok (dm_core (snd (apply_stopped_observation g sid pos played d)))" for g sid pos played
    using assms by (auto simp: apply_stopped_observation_def split_beta Let_def intro!: core_record split: option.split)
  have event: "core_ok (dm_core (snd (handle_player_event pe d)))" for pe
    using assms stopped
    by (auto simp: handle_player_event_def split_beta Let_def split: player_event.split option.split)
  show ?thesis using assms track event
    by (cases pe)
      (auto simp: handle_player_observation_def handle_next_up_threshold_def handle_queue_next_up_def
        handle_output_started_def handle_track_completed_def record_completed_slot_def split_beta Let_def
        intro!: core_owner_op consume_ok core_record split: option.split)
qed

lemma core_resolved:
  assumes "core_ok (dm_core d)" "\<forall>items. fetched = Some items \<longrightarrow> fits items"
    and "handle_playback_resolved now i ticks src c req gen fetched d = Some (out, e)"
  shows "core_ok (dm_core e)"
proof (cases fetched)
  case (Some items)
  with assms(2) have "fits (map QI_Emby items)" by (simp add: fits_def)
  with assms Some show ?thesis
    by (auto simp: handle_playback_resolved_def play_resolved_items_def Let_def dest!: core_lineage
        intro!: core_install core_reset split: if_splits option.splits)
qed (use assms in \<open>auto simp: handle_playback_resolved_def resolved_rejection_def split: if_splits\<close>)

lemma core_ws:
  assumes "core_ok (dm_core d)" "\<And>ids pn t i items. ev = Ws_Play ids pn t i \<Longrightarrow> fetch ids = Some items \<Longrightarrow> fits items"
  shows "core_ok (dm_core (handle_ws fetch ev d))"
proof -
  have control: "dm_core (snd (ws_control ev d)) = dm_core d"
    by (cases ev) (auto simp: ws_wire_def Let_def split: option.split)
  have play: "core_ok (dm_core (handle_ws_play fetch ids pn t i d))"
    if "\<And>items. fetch ids = Some items \<Longrightarrow> fits items" for ids pn t i
    using that assms(1)
    by (auto simp: handle_ws_play_def Let_def fits_def intro!: core_transitions core_install split: option.split)
  show ?thesis using control assms play
    by (cases ev) (auto simp: handle_ws_control_def split_beta Let_def simp del: ws_control.simps)
qed

lemma core_transport: "core_ok (dm_core d) \<Longrightarrow> core_ok (dm_core (snd (handle_transport t d)))"
  by (cases t) (auto simp: handle_transport_def intro!: core_reset core_step)

lemma core_ws_event:
  assumes "core_ok (dm_core d)" "event_fits sr (De_Ws g ev) d"
  shows "core_ok (dm_core (snd (handle_ws_event (sr_fetch sr) g ev d)))"
proof -
  have "core_ok (dm_core (handle_ws (sr_fetch sr) ev d))"
    by (rule core_ws [OF assms(1)]) (use assms(2) in auto)
  with core_transport [OF assms(1)] assms(1) show ?thesis
    by (cases ev) (simp_all add: handle_ws_event_def del: handle_ws.simps)
qed

lemma core_progress_to: "core_ok (dm_core d) \<Longrightarrow> core_ok (dm_core (apply_progress_to t p b d))"
  by (auto simp: apply_progress_to_def intro!: core_queue_op apply_progress_inv split: option.split)

lemma core_services:
  assumes "core_ok (dm_core d)"
  shows "core_ok (dm_core (snd (broadcast_if (apply_audiobookshelf_progress u d))))"
    "core_ok (dm_core (snd (broadcast_if (apply_audiobookshelf_book_progress bu d))))"
    "core_ok (dm_core (snd (broadcast_if (apply_audiobookshelf_progress_refresh g eps books d))))"
    "core_ok (dm_core (snd (handle_queue_enriched items d)))"
proof -
  have "core_ok (dm_core (fold (\<lambda>(sid, p, b) d. apply_progress_to (Some sid) p b d) us d))" for us
    using assms by (induction us arbitrary: d) (auto simp: split_beta core_progress_to)
  then show "core_ok (dm_core (snd (broadcast_if (apply_audiobookshelf_progress_refresh g eps books d))))"
    using assms by (simp add: broadcast_if_def apply_audiobookshelf_progress_refresh_def Let_def)
qed (use assms core_progress_to in \<open>auto simp: broadcast_if_def apply_audiobookshelf_progress_def
    apply_audiobookshelf_book_progress_def handle_queue_enriched_def split_beta Let_def
    intro!: core_queue_op merge_refresh_for_slots_inv\<close>)

lemma core_react:
  assumes "core_ok (dm_core d)" "event_fits sr ev d" "react sr ev d = Some r"
  shows "core_ok (dm_core (snd r))"
proof (cases ev)
  case (De_Player pe)
  with assms core_observation [OF assms(1)] show ?thesis by (auto simp: react_def)
next
  case (De_Transport t)
  with assms core_transport [OF assms(1)] show ?thesis by (auto simp: react_def)
next
  case (De_Ws g e)
  with assms core_ws_event [OF assms(1), of sr g e] show ?thesis by (auto simp: react_def)
next
  case (De_Ctrl cmd c)
  with assms show ?thesis
    by (auto simp: react_def handle_ctrl_event_def intro: core_control split: if_splits)
next
  case (De_Resolved i ticks src c req gen fetched)
  with assms have "handle_playback_resolved (sr_now sr) i ticks src c req gen fetched d = Some (fst r, snd r)"
    "\<forall>items. fetched = Some items \<longrightarrow> fits items" by (auto simp: react_def)
  with core_resolved [OF assms(1)] show ?thesis by blast
next
  case De_Last_Client_Gone
  with assms show ?thesis by (auto simp: react_def handle_shutdown_def Let_def split: if_splits)
next
  case De_Shutdown
  with assms show ?thesis by (auto simp: react_def handle_shutdown_def Let_def)
qed (use assms core_services [OF assms(1)] in \<open>auto simp: react_def handle_ctrl_disconnected_def\<close>)

section \<open>No panic\<close>

lemma lineage_frame [simp]:
  "dm_sh_lineage (snd (queue_op f d)) = dm_sh_lineage d" "dm_sh_lineage (set_source src d) = dm_sh_lineage d"
  "dm_sh_lineage (install_items its cur src d) = dm_sh_lineage d"
  "dm_sh_lineage (reset_slot_jumps d) = dm_sh_lineage d"
  "dm_sh_lineage (send_pipe_status n c d) = dm_sh_lineage d"
  by (auto simp: queue_op_def set_queue_def set_source_def install_items_def reset_slot_jumps_def
      set_transitions_def send_pipe_status_def send_client_def split_beta Let_def split: option.split)

lemma lineage_mints: "dm_sh_lineage d \<noteq> - 1 \<Longrightarrow> mint_queue_lineage d \<noteq> None"
  by (simp add: mint_queue_lineage_def)

lemma control_goes_on:
  assumes "dm_sh_lineage d \<noteq> - 1" shows "handle_ctrl_for_role now draw c cmd d \<noteq> None"
proof -
  let ?p = "if cmd = Cc_Request_Shutdown then prepare_shutdown c (d\<lparr>dm_op := queue_op_id cmd\<rparr>)
    else (True, d\<lparr>dm_op := queue_op_id cmd\<rparr>)"
  have "dispatch_ctrl_command now draw c l cmd (snd ?p) \<noteq> None" for l
    using assms
    by (cases cmd)
      (auto simp: handle_adopt_queue_def handle_queue_replace_def install_replaced_queue_def
        handle_queue_clear_def mint_queue_lineage_def split_beta Let_def split: option.split sum.split)
  then obtain e where "dispatch_ctrl_command now draw c (dm_sh_lineage d) cmd (snd ?p) = Some e" by blast
  then show ?thesis unfolding handle_ctrl_for_role_def Let_def split_beta
    by (cases "cmd = Cc_Request_Shutdown"; cases "role_gate cmd (dm_role d)")
      (simp_all del: dispatch_ctrl_command.simps queue_op_id.simps)
qed

lemma react_goes_on:
  assumes "dm_sh_lineage d \<noteq> - 1" shows "react sr ev d \<noteq> None"
  using assms control_goes_on
  by (cases ev)
    (auto simp: react_def handle_ctrl_event_def handle_playback_resolved_def play_resolved_items_def
      Let_def mint_queue_lineage_def split: option.split)


end
