(* ===== verification/Daemon_Results.thy ===== *)
theory Daemon_Results
  imports Daemon_Answers Daemon_Types
begin

text \<open>
  Results about single handlers of the daemon - admission, intents, a play after a stop, resolved
  plays - and the concrete runs at which the properties of the daemon are applied.
\<close>

section \<open>Admission\<close>

lemma enumerate_before:
  "length (filter (\<lambda>(i, e). P e \<and> i < r) (enumerate n xs)) = length (filter P (take (r - n) xs))"
proof (induction xs arbitrary: n)
  case (Cons x xs)
  show ?case
  proof (cases "n < r")
    case True
    then have "r - n = Suc (r - Suc n)" by simp
    with True Cons.IH [of "Suc n"] show ?thesis by simp
  qed (use Cons.IH [of "Suc n"] in simp)
qed simp

lemma filter_nth_before:
  assumes "i < length xs" "P (xs ! i)"
  shows "length (filter P (take i xs)) < length (filter P xs)
    \<and> filter P xs ! length (filter P (take i xs)) = xs ! i"
proof -
  have "filter P xs = filter P (take i xs) @ xs ! i # filter P (drop (Suc i) xs)"
    using assms by (subst id_take_nth_drop [OF assms(1)]) simp
  then show ?thesis by simp
qed

lemma filter_take_gap:
  assumes "r \<le> i" "\<forall>j. r \<le> j \<and> j < i \<longrightarrow> \<not> P (xs ! j)" "i \<le> length xs"
  shows "length (filter P (take i xs)) = length (filter P (take r xs))"
proof -
  have "take i xs = take r xs @ drop r (take i xs)"
    using assms(1) by (metis append_take_drop_id min.absorb1 take_take)
  moreover have "filter P (drop r (take i xs)) = []"
    using assms by (auto simp: filter_empty_conv in_set_conv_nth)
  ultimately show ?thesis by (metis append_Nil2 filter_append)
qed

text \<open>
  C17. Dropping entries an owner cannot play keeps the cursor on what was asked for. Admission keeps the
  admitted entries, all of them and in order; the cursor it returns points at the first admitted
  entry from the requested one on - the requested one itself when it is admitted, as that very
  occurrence even when the list repeats it - and at the last admitted entry when none is left from
  there on. A cursor past the list and a list from which everything was dropped are covered.
\<close>

theorem admission_keeps_cursor:
  "fst (admit_queue admits xs (Some r)) = filter admits xs
   \<and> (\<forall>i. r \<le> i \<and> i < length xs \<and> admits (xs ! i) \<and> (\<forall>j. r \<le> j \<and> j < i \<longrightarrow> \<not> admits (xs ! j))
        \<longrightarrow> snd (admit_queue admits xs (Some r)) = length (filter admits (take i xs))
          \<and> filter admits xs ! snd (admit_queue admits xs (Some r)) = xs ! i)
   \<and> ((\<forall>i. r \<le> i \<and> i < length xs \<longrightarrow> \<not> admits (xs ! i))
        \<longrightarrow> snd (admit_queue admits xs (Some r)) = length (filter admits xs) - 1)"
proof (intro conjI allI impI)
  have cursor: "snd (admit_queue admits xs (Some r))
      = min (length (filter admits (take r xs))) (length (filter admits xs) - 1)"
    using enumerate_before [of admits r 0 xs] by (simp add: admit_queue_def Let_def)
  show "fst (admit_queue admits xs (Some r)) = filter admits xs" by (simp add: admit_queue_def Let_def)
  fix i
  assume i: "r \<le> i \<and> i < length xs \<and> admits (xs ! i) \<and> (\<forall>j. r \<le> j \<and> j < i \<longrightarrow> \<not> admits (xs ! j))"
  have "length (filter admits (take i xs)) = length (filter admits (take r xs))"
    using i by (intro filter_take_gap) auto
  with filter_nth_before [of i xs admits] i cursor
  show "snd (admit_queue admits xs (Some r)) = length (filter admits (take i xs))"
    "filter admits xs ! snd (admit_queue admits xs (Some r)) = xs ! i" by (auto simp: min_def)
next
  assume none: "\<forall>i. r \<le> i \<and> i < length xs \<longrightarrow> \<not> admits (xs ! i)"
  have cursor: "snd (admit_queue admits xs (Some r))
      = min (length (filter admits (take r xs))) (length (filter admits xs) - 1)"
    using enumerate_before [of admits r 0 xs] by (simp add: admit_queue_def Let_def)
  have "length (filter admits (take r xs)) = length (filter admits xs)"
  proof (cases "r \<le> length xs")
    case True
    with none filter_take_gap [of r "length xs" admits xs] show ?thesis by simp
  qed simp
  with cursor show "snd (admit_queue admits xs (Some r)) = length (filter admits xs) - 1" by simp
qed

section \<open>Intents\<close>

text \<open>
  C40. A redundant pause swallows the next one. A client that asks for the pause state the run already
  has gets no command sent - and no answer beyond the acceptance, for no event will ever confirm
  it. While that intent is current, asking for the same state again from the same connection is
  coalesced into it and sends nothing to the run, even when the run's pause state has been changed
  by someone else in between.
\<close>

theorem redundant_pause_swallows_next:
  assumes "st_paused (pl_status (dm_player d)) = paused"
    and "dm_intents d = None \<or> (\<exists>k. dm_intents d = Some k \<and> ci_phase k = Ph_Applied)"
    and "in_action i = Act_Set_Paused paused" "in_action j = Act_Set_Paused paused"
    and "dm_intents e = dm_intents (handle_playback_intent now c i d)"
  shows "dm_player (handle_playback_intent now c i d) = dm_player d
    \<and> rg_sent (dm_clients (handle_playback_intent now c i d))
        = rg_sent (dm_clients d) @ [(c, Ce_Intent (event_for i Out_Accepted))]
    \<and> dm_player (handle_playback_intent now' c j e) = dm_player e
    \<and> rg_sent (dm_clients (handle_playback_intent now' c j e))
        = rg_sent (dm_clients e) @ [(c, Ce_Intent (event_for j (Out_Coalesced (in_request_id i))))]
    \<and> dm_intents (handle_playback_intent now' c j e) = dm_intents e"
proof -
  have accepted: "accept_intent c i (dm_pipe d) (dm_intents d) = store_intent c i (dm_pipe d)"
    using assms(2,3) by (auto simp: accept_intent_def)
  have first: "handle_playback_intent now c i d
      = reply c (Ce_Intent (event_for i Out_Accepted)) (d\<lparr>dm_intents := snd (store_intent c i (dm_pipe d))\<rparr>)"
    using assms(1,3)
    by (simp add: handle_playback_intent_def accepted store_intent_def reply_all_def reply_pipe_status_def
        pipe_status_of_def act_on_intent_def is_coalesced_def event_for_def reply_def)
  then have e: "dm_intents e = snd (store_intent c i (dm_pipe d))" using assms(5) by (simp add: reply_def)
  have second: "handle_playback_intent now' c j e
      = reply c (Ce_Intent (event_for j (Out_Coalesced (in_request_id i)))) (e\<lparr>dm_intents := dm_intents e\<rparr>)"
    using assms(3,4)
    by (simp add: handle_playback_intent_def accept_intent_def e store_intent_def reply_all_def
        reply_pipe_status_def pipe_status_of_def is_coalesced_def event_for_def reply_def)
  show ?thesis by (simp add: first second reply_def reply_to_def)
qed

section \<open>A play after a stop\<close>

lemma submit_after_stop:
  assumes "\<not> pl_stop_tx p" "items \<noteq> []"
    and "pl_abs_context p \<or> \<not> (\<exists>s\<in>set items. qi_is_audiobookshelf (xs_item s))"
  shows "\<exists>a b k g o' h. last (pl_effects (snd (submit_queue_slots items i secs hl p))) = Run_Started a b k g o' h"
proof -
  let ?q = "snd (advance_sequence_generation p)"
  have "\<not> pl_stop_tx ?q"
    using assms(1) by (simp add: advance_sequence_generation_def pl_update_status_def Let_def)
  then obtain y where y: "fst (submit_into_live_run hl items (min i (length items - 1)) secs ?q) = Some y"
    by (cases "fst (submit_into_live_run hl items (min i (length items - 1)) secs ?q)")
      (auto simp: submit_into_live_run_def split: if_splits)
  have "snd (submit_queue_slots items i secs hl p)
      = start_new_run hl items (min i (length items - 1)) secs (fst (advance_sequence_generation p))
          (snd (submit_into_live_run hl items (min i (length items - 1)) secs ?q))"
    using assms(2,3) y by (auto simp: submit_queue_slots_def split_beta Let_def)
  then show ?thesis by (simp add: start_new_run_def pl_emit_def Let_def)
qed


section \<open>A daemon at work\<close>

definition idle_status :: playback_status where
  "idle_status =
     \<lparr>st_run = \<lparr>ps_active = False, ps_position_ticks = 0, ps_runtime_ticks = 0, ps_current_idx = 0,
        ps_queue_len = 0, ps_title = [], ps_artist = [], ps_album = [], ps_art_item_id = [],
        ps_art_album_id = [], ps_last_valid_pos = 0, ps_sequence_generation = 0\<rparr>,
      st_paused = False, st_volume = 50, st_volume_max = 100, st_muted = False, st_video_height = 0,
      st_sub_tracks = [], st_sub_stream_indexes = []\<rparr>"

definition sample_handle :: player where
  "sample_handle =
     \<lparr>pl_status = idle_status, pl_abs_context = False, pl_show_audio_window = False, pl_origin = Standalone,
      pl_is_headless = False, pl_run_exited = False, pl_stop_tx = False, pl_cmd_tx = False,
      pl_receiving = False, pl_thread = False, pl_effects = []\<rparr>"

definition blank_daemon :: daemon where
  "blank_daemon =
     \<lparr>dm_core = owner_new \<lparr>pq_slots = [], pq_active = None, pq_revision = 0, pq_mint = 0, pq_next_slot_id = 1\<rparr> Src_Unknown,
      dm_revisions = (\<lambda>_. 1), dm_intents = None, dm_queued_origin = None,
      dm_sh_queue = \<lparr>pq_slots = [], pq_active = None, pq_revision = 0, pq_mint = 0, pq_next_slot_id = 1\<rparr>,
      dm_sh_source = Src_Unknown, dm_sh_lineage = 0, dm_sh_observed = None, dm_player = sample_handle,
      dm_clients = new_registry, dm_role = Daemon_Local, dm_audio_only = False, dm_stay_alive = False,
      dm_consume_videos = False, dm_consume_audio = False, dm_has_emby = True, dm_emby_generation = None,
      dm_abs_generation = None, dm_pipe = False, dm_playout_delay_ms = None, dm_saved_queue = None,
      dm_save_error = None, dm_op = None, dm_jobs = []\<rparr>"

definition sample_stream :: "string \<Rightarrow> queue_item" where
  "sample_stream name = QI_Twitch \<lparr>twitch_url = name, twitch_title = name\<rparr>"

definition sample_world :: surroundings where
  "sample_world = \<lparr>sr_now = 0, sr_draw = rev, sr_fetch = (\<lambda>_. None), sr_in_time = True\<rparr>"

text \<open>A client comes, and plays the queue it names.\<close>

definition sample_hello :: hello_line where
  "sample_hello = Line_Hello (current_hello\<lparr>hl_capabilities :=
     [''queue-state'', ''play-items-start-idx'', ''status-only'', ''twitch-queue'']\<rparr>)"

definition sample_daemon :: daemon where
  "sample_daemon = snd (open_session 1 None Transport_Local sample_hello (daemon_start 0 None blank_daemon))"

definition sample_play :: ctrl_cmd where
  "sample_play = Cc_Replace [sample_stream []] [] (Some 0) Src_Unknown None (Some 7)"

definition after_command :: "ctrl_cmd \<Rightarrow> daemon \<Rightarrow> daemon" where
  "after_command cmd d = snd (the (handle_event sample_world (De_Ctrl cmd 0) d))"

definition sample_playing :: daemon where
  "sample_playing = after_command sample_play sample_daemon"

definition sample_again :: daemon where
  "sample_again = after_command sample_play sample_playing"

lemma sample_reach: "daemon_reach 0 sample_daemon"
proof -
  have "daemon_reach 0 (daemon_start 0 None blank_daemon)"
    by (rule daemon_reach.start) (simp_all add: blank_daemon_def idle_player_def sample_handle_def)
  then show ?thesis unfolding sample_daemon_def by (rule daemon_reach.connection)
qed

lemma after_command_reach:
  assumes "daemon_reach n d" "handle_event sample_world (De_Ctrl cmd 0) d = Some (Flow_Continue, e)"
  shows "daemon_reach n e"
  by (rule daemon_reach.event [OF assms(1) _ _ assms(2)]) simp_all

lemma sample_playing_items:
  "map_option (\<lambda>(fl, d). (fl, map qs_item (pq_slots (dm_queue d))))
     (handle_event sample_world (De_Ctrl sample_play 0) sample_daemon) = Some (Flow_Continue, [sample_stream []])"
  by code_simp

lemma sample_playing_event:
  "handle_event sample_world (De_Ctrl sample_play 0) sample_daemon = Some (Flow_Continue, sample_playing)"
  using sample_playing_items by (auto simp: sample_playing_def after_command_def)

lemma sample_playing_reach: "daemon_reach 0 sample_playing"
  by (rule after_command_reach [OF sample_reach sample_playing_event])

lemma sample_again_log:
  "case handle_event sample_world (De_Ctrl sample_play 0) sample_playing of
     None \<Rightarrow> False
   | Some (fl, d) \<Rightarrow> fl = Flow_Continue \<and>
       (case pl_effects (dm_player d) of
          [s, Run_Sent (Msg_Run (Cmd_Submit_Queue (i # items) k secs))] \<Rightarrow> True
        | _ \<Rightarrow> False)"
  by code_simp


lemma one_run_at_a_time_witness:
  "\<exists>s m a b c g o' h. pl_effects (dm_player sample_again) = [s] @ Run_Sent m # []
    \<and> last (filter lifecycle [s]) = Run_Started a b c g o' h"
proof -
  obtain s i items k secs where event: "handle_event sample_world (De_Ctrl sample_play 0) sample_playing
      = Some (Flow_Continue, sample_again)"
    and effects: "pl_effects (dm_player sample_again)
      = [s] @ Run_Sent (Msg_Run (Cmd_Submit_Queue (i # items) k secs)) # []"
    using sample_again_log
    by (auto simp: sample_again_def after_command_def
        split: option.splits prod.splits list.splits player_effect.splits run_message.splits player_command.splits)
  from one_run_at_a_time [OF after_command_reach [OF sample_playing_reach event]] effects
  show ?thesis by blast
qed



lemma queue_op_answered_once_witness:
  "case handle_ctrl_for_role 0 rev 0 sample_play sample_daemon of
     None \<Rightarrow> False
   | Some d \<Rightarrow> dm_op d = None \<and> length (op_answers d) = 1"
proof -
  obtain d where d: "handle_ctrl_for_role 0 rev 0 sample_play sample_daemon = Some d"
  proof -
    have "handle_ctrl_for_role 0 rev 0 sample_play sample_daemon \<noteq> None" by code_simp
    then show ?thesis using that by auto
  qed
  have "op_answers sample_daemon = []" by code_simp
  with queue_op_answered_once [OF d] d show ?thesis by (auto simp: sample_play_def)
qed

lemma admission_keeps_cursor_witness:
  "snd (admit_queue even [1, 2, 3, 4, 6::nat] (Some 2)) = length (filter even [1, 2, 3::nat])
   \<and> filter even [1, 2, 3, 4, 6::nat] ! snd (admit_queue even [1, 2, 3, 4, 6::nat] (Some 2)) = 4"
proof -
  have "\<not> even ([1, 2, 3, 4, 6::nat] ! j)" if "2 \<le> j \<and> j < 3" for j
  proof -
    have "j = 2" using that by linarith
    then show ?thesis by simp
  qed
  moreover have "take 3 [1, 2, 3, 4, 6::nat] = [1, 2, 3]" "[1, 2, 3, 4, 6::nat] ! 3 = 4"
    by (simp_all add: eval_nat_numeral)
  ultimately show ?thesis
    using conjunct1 [OF conjunct2 [OF admission_keeps_cursor [of even "[1, 2, 3, 4, 6::nat]" 2]]]
    by (auto simp del: One_nat_def dest: spec [of _ 3])
qed

lemma redundant_pause_swallows_next_witness:
  "dm_player (handle_playback_intent 1 0 \<lparr>in_request_id = 6, in_generation = 6, in_action = Act_Set_Paused False\<rparr>
      ((handle_playback_intent 0 0 \<lparr>in_request_id = 5, in_generation = 5, in_action = Act_Set_Paused False\<rparr>
         blank_daemon)\<lparr>dm_player := sample_handle\<lparr>pl_status := idle_status\<lparr>st_paused := True\<rparr>\<rparr>\<rparr>))
   = sample_handle\<lparr>pl_status := idle_status\<lparr>st_paused := True\<rparr>\<rparr>"
proof -
  let ?i = "\<lparr>in_request_id = 5, in_generation = 5, in_action = Act_Set_Paused False\<rparr>"
  let ?d = "handle_playback_intent 0 0 ?i blank_daemon"
  let ?e = "?d\<lparr>dm_player := sample_handle\<lparr>pl_status := idle_status\<lparr>st_paused := True\<rparr>\<rparr>\<rparr>"
  have "st_paused (pl_status (dm_player blank_daemon)) = False" "dm_intents blank_daemon = None"
    by (simp_all add: blank_daemon_def sample_handle_def idle_status_def)
  with redundant_pause_swallows_next [of blank_daemon False ?i
      "\<lparr>in_request_id = 6, in_generation = 6, in_action = Act_Set_Paused False\<rparr>" ?e 0 0 1]
  show ?thesis by simp
qed

definition sample_ending :: daemon where
  "sample_ending = set_queue sample_order_queue
     (blank_daemon\<lparr>dm_player := sample_handle\<lparr>pl_cmd_tx := True, pl_receiving := True, pl_thread := True\<rparr>\<rparr>)"


end
