(* ===== verification/Spec2Isabelle.thy ===== *)
theory Spec2Isabelle
  imports Emby_Model Twitch Queue_Runs Queue_Order Execution_Sequence Queue_State
    Transition Owner_State Run_Lifecycle Run_Decisions Run_Playlist Run_Conduct Media_List_Laws Tree_Results
    Resume_Seam Run_Endings Run_Starts Run_Loop Run_Stops Run_Results
    Chord Keybinds Keybind_Laws Keybind_File Key_Policy Key_Routing
    Player_Control Player_Runs Daemon_Loop Daemon_Hello Daemon_Steps Daemon_Answers Daemon_Types Daemon_Results
begin

text \<open>
  mbv is a terminal media player: one process owns the playback queue, a playback run feeds a
  projection of that queue to an mpv process, and clients paint lists of media rows and send
  commands. This library models the parts of the Rust crates under \<^verbatim>\<open>src/crates\<close> that decide
  what happens, leaving out the network, the terminal and mpv itself.

  \<^bold>\<open>Items.\<close> \<open>Emby_Model\<close> is \<^verbatim>\<open>mbv-emby-model\<close>: item records, their classification, the resume
  rule, display names and the key of premiere notices. \<open>Queue_Items\<close> is \<^verbatim>\<open>mbv-queue/items.rs\<close>,
  \<^verbatim>\<open>audiobookshelf.rs\<close> and \<^verbatim>\<open>kinds.rs\<close>: the queue item with its service-specific shapes and every
  reader the queue and the run use. \<open>Twitch\<close> and \<open>Progress\<close> are the admission of Twitch URLs
  and the progress rules (\<^verbatim>\<open>twitch.rs\<close>, \<^verbatim>\<open>progress.rs\<close>). \<open>Text_Base\<close> holds the string functions
  of the standard library they need.

  \<^bold>\<open>The canonical queue.\<close> \<open>Playback_Queue\<close> is \<^verbatim>\<open>mbv-queue/lib.rs\<close>, operation by operation: slots
  with identities that are never reused, the active marker, and a revision drawn from a mint
  that a queue shares with its snapshots (in the source an \<^verbatim>\<open>Arc\<close> of an atomic counter, here an
  explicit store of counters with the address in \<open>pq_mint\<close>). \<open>Queue_Invariant\<close> proves its
  well-formedness preserved by each operation, \<open>Queue_Runs\<close> lifts that to runs of operations on
  several queues sharing mints and shows that a revision identifies the visible queue,
  \<open>Queue_Refresh\<close> relates the merge of a server refresh to a slot-by-slot specification, and
  \<open>Queue_Order\<close> specifies moves, reorders, shuffles, removals and the incremental plan that
  turns one order into another. \<open>Queue_State\<close> is the persisted snapshot (\<^verbatim>\<open>state.rs\<close>).

  \<^bold>\<open>The run.\<close> \<open>Execution_Sequence\<close> is the run's projection of the queue
  (\<^verbatim>\<open>mbv-queue/execution_sequence.rs\<close>). The locale \<open>slot_sequence\<close> states what one command does to
  a sequence of slots; both the sequence and the queue are interpreted, and the refinement
  property follows: after the same commands owner and run show the same. \<open>Transition\<close> and
  \<open>Owner_State\<close> are the owner's bookkeeping of jumps in flight (\<^verbatim>\<open>mbv-player/transition.rs\<close>,
  \<^verbatim>\<open>owner_state.rs\<close>). \<open>Run_Lifecycle\<close> is \<^verbatim>\<open>run/lifecycle.rs\<close>: which projection feeds mpv, the
  armed jump, when a run ends. \<open>Run_Decisions\<close> gathers the pure decisions (\<^verbatim>\<open>run/state.rs\<close>,
  \<^verbatim>\<open>run/decisions.rs\<close>, the classifiers of end-file events, the completion rule). \<open>Run_Playlist\<close>
  is the arithmetic between the run's order and mpv's playlist, \<open>Run_Commands\<close> the run's record
  with the handlers for removals, moves, reorders and mpv's own playlist changes
  (\<^verbatim>\<open>run/queue_commands.rs\<close>, \<^verbatim>\<open>run/queue.rs\<close>, \<^verbatim>\<open>run/events/playlist_drift.rs\<close>), and \<open>Run_Conduct\<close>
  what they guarantee, with one theorem about where they do not.
  \<open>Resume_Seam\<close> is \<^verbatim>\<open>resume.rs\<close>: which authority an item's start position comes from and the
  batched refresh of the positions a server keeps. \<open>Run_Endings\<close> holds the handlers that end an
  item or the run (\<^verbatim>\<open>run/events/queue_advance.rs\<close>, \<^verbatim>\<open>run/events/termination.rs\<close>, the stop request
  and its timeout in \<^verbatim>\<open>run/run_loop.rs\<close>), \<open>Run_Starts\<close> those that start one (jumps, appends,
  submissions, replacements, mpv's playback restart), and \<open>Run_Loop\<close> composes them into
  \<^verbatim>\<open>run_tick\<close>: drain the commands, look at the stop request and the quit deadline, drain the
  events. \<open>Run_Stops\<close> follows the one \<^verbatim>\<open>Stopped\<close> event of a run identity through every handler;
  \<open>Run_Results\<close> proves that a queue plays to its end, that a jump is answered, and where a
  replacement reports a wrong position.

  \<^bold>\<open>Lists of the user interface.\<close> \<open>List_Flow\<close> is \<^verbatim>\<open>mbv-surfaces/list\<close>: the traits \<^verbatim>\<open>Cursored\<close> and
  \<^verbatim>\<open>Viewported\<close> become functions of an implementing shape's accessors, and the locales
  \<open>cursored\<close> and \<open>viewported\<close> state what the accessors owe. \<open>Media_List\<close> is the owner
  \<^verbatim>\<open>mbv-surfaces/media_list.rs\<close> with its mark mechanics, over the keys of \<open>Key_Input\<close>;
  \<open>Media_List_Laws\<close> interprets both locales on it and proves its invariant and behaviour.

  \<^bold>\<open>The tree browser.\<close> \<open>Tree_Model\<close>, \<open>Tree_Operations\<close> and \<open>Tree_Paint\<close> are
  \<^verbatim>\<open>mbv-components/list/tree_browser.rs\<close> with its \<^verbatim>\<open>types\<close>, \<^verbatim>\<open>operations\<close> and \<^verbatim>\<open>render\<close>, and
  \<^verbatim>\<open>list/paint.rs\<close>: an arena of nodes built from a flat projection, the rows its expansion and its
  filter show, marks with aggregates, and the frame kept for the pointer. \<open>Fuzzy_Match\<close> is the
  search rule of \<^verbatim>\<open>mbv-text/fuzzy_match.rs\<close>, on a parameter for the third-party matcher; the
  rectangles of the terminal library are the parameter \<open>geometry\<close>. \<open>Tree_Forest\<close> is the theory of
  depth-first walks, its locale \<open>rooted_forest\<close> interpreted on the arena, on its mirror image (a
  stack that takes the last child first) and on a forest under construction; \<open>Tree_Visible\<close> and
  \<open>Tree_Rebuild\<close> give every loop its closed form, \<open>Tree_Reconcile\<close> shows that validation is exact,
  \<open>Tree_Laws\<close> interprets \<open>viewported\<close>, \<open>Tree_Safety\<close> proves the owner's invariant and that every
  call returns, and \<open>Tree_Results\<close> states what it promises, with one lemma about a lost scroll.

  \<^bold>\<open>Keys.\<close> \<open>Chord\<close> is the textual grammar of key chords (\<^verbatim>\<open>mbv-keybinds/chord.rs\<close>) down to the
  UTF-8 bytes of a character; \<open>Keybinds\<close> is the registry of actions, the compiled bindings and
  their loader (\<^verbatim>\<open>registry.rs\<close>, \<^verbatim>\<open>config.rs\<close>) with the keys table of the configuration file
  (\<^verbatim>\<open>mbv-config/parse.rs\<close>, \<^verbatim>\<open>save.rs\<close>). \<open>Keybind_Laws\<close> shows that loading is total, characterises what
  it accepts and proves accepted bindings unambiguous; \<open>Keybind_File\<close> is the round trip through
  the file. \<open>Key_Policy\<close> is the client's router (\<^verbatim>\<open>src/app/input\<close>, \<^verbatim>\<open>src/app/shell/arbitration.rs\<close>) and
  \<open>Key_Routing\<close> what it guarantees, with two theorems about configurations it does not serve.

  \<^bold>\<open>The daemon.\<close> The process that owns the queue, \<^verbatim>\<open>mbv-daemon\<close>, on its local output.
  \<open>Player_Control\<close> is the handle it holds on the player (\<^verbatim>\<open>mbv-player/controller.rs\<close>,
  \<^verbatim>\<open>submit.rs\<close>): submissions into the live run or into a new one, stops and joins, logged as
  effects; \<open>Player_Runs\<close> reads that log with an automaton. \<open>Daemon_Intents\<close> is the life of the one
  current playback intent (\<^verbatim>\<open>core.rs\<close>), \<open>Daemon_Clients\<close> the registry of connections and what is
  sent to whom (\<^verbatim>\<open>ctrl.rs\<close>, the messages of \<^verbatim>\<open>mbv-ctrl\<close>), \<open>Daemon_Core\<close> the state of the event
  loop, the projection of the queue for a peer, admission and slot jumps (\<^verbatim>\<open>control_queue.rs\<close>,
  \<^verbatim>\<open>core/transition_dispatch.rs\<close>, \<^verbatim>\<open>step.rs\<close>), \<open>Daemon_Control\<close> the handler of every command
  (\<^verbatim>\<open>control.rs\<close> and below), \<open>Daemon_Loop\<close> the handler of every event and the idle pass
  (\<^verbatim>\<open>event_loop.rs\<close> and below, \<^verbatim>\<open>run.rs\<close>, \<^verbatim>\<open>ws.rs\<close>, \<^verbatim>\<open>audiobookshelf.rs\<close>), and \<open>Daemon_Hello\<close> a
  connection's first line, its admission and what later lines become (\<^verbatim>\<open>core_ctrl_spawn.rs\<close>,
  \<^verbatim>\<open>mbv-ctrl/hello.rs\<close>). \<open>Daemon_Snapshot\<close> shows that every handler leaves the copy of the queue
  that connection threads read equal to the owner's. \<open>Daemon_Frame\<close> reduces a statement about
  all handlers to a few basic changes: its locale \<open>daemon_frame\<close> takes what a relation owes those
  changes and gives it for every event, and \<open>daemon_preorder\<close> in \<open>Daemon_Steps\<close> does so for a
  preorder; both are interpreted on the log of the player, on the number of drivers, on the
  settings and on the answers to operations. \<open>Daemon_Steps\<close> defines \<open>daemon_reach\<close>, the states that
  start-up, events, idle passes, connections, writers, runs and swap tokens lead to in any order,
  and proves its invariants; \<open>Daemon_Answers\<close> counts answers, \<open>Daemon_Types\<close> proves that well-formed
  states stay well formed and that handlers return, and \<open>Daemon_Results\<close> holds admission, two
  theorems about requests that get lost, and a daemon at work on which the others are exercised.

  \<^bold>\<open>How code is rendered.\<close> Structs are records, enums datatypes, \<^verbatim>\<open>&mut self\<close> is state passing
  with the result first. \<^verbatim>\<open>u64\<close> identities and counters are 64-bit words, \<^verbatim>\<open>i64\<close> ticks are
  integers with the wrap or the saturation written where it can happen, \<^verbatim>\<open>usize\<close> is \<open>nat\<close>,
  strings are byte lists. A panic is \<open>None\<close> where it can be reached (duplicate identities,
  insertion past the end); where the proofs show that it cannot, the theory says so. What a run
  sends to mpv, to the reporter or as an event is appended to a log of effects. Random
  permutation, the effect of mpv's playlist commands and the outcome of preparing a file are
  parameters, and what mpv and the servers answer to one event or command is its record
  \<open>answers\<close>; seconds are rational numbers, \<^verbatim>\<open>f64\<close> rounding is left out; the hypotheses about them (\<open>loadfile_documented\<close>, \<open>playlist_move_documented\<close>,
  \<open>playlist_remove_documented\<close>, a shuffle permutes its list) are mpv's and the crate's
  documentation, and each property that uses one has a witness with a concrete function.
  Recursion is structural over a list or a counter that the source's loop also runs through, or
  has a termination proof (the search of a parent cycle, the words of a text); only the walks of
  the tree browser follow node identifiers, and they take as fuel one more than the number of
  nodes, with \<open>None\<close> for running out: \<open>Tree_Safety\<close> proves that they never do.

  \<^bold>\<open>Not modelled.\<close> The rounding of floating-point numbers, volume curves, seek fractions and hit
  regions; serde encodings; tracing; the prepared source and external subtitles of a run, its
  track, volume, mute and display properties, and the \<^verbatim>\<open>LoadNew\<close> command that nothing constructs;
  sockets, processes and threads, so that handlers and connections interleave only as whole
  steps; the remote outputs of the daemon (Cast receivers and Emby Sessions), the launches of its
  Pin swap, its tray and the set-up of services; the protocol codec, the remote player that
  clients hold, and the renderers. These either talk to a service or a library this repository
  does not contain or draw on a terminal.
\<close>

end
